(* ===== verification/Floats.thy ===== *)
theory Floats
  imports Complex_Main "HOL-Library.Log_Nat" "HOL-Library.Code_Target_Numeral"
begin

text \<open>
  Python floats.  A finite value is the rational it denotes; the arithmetic operations round the
  exact result to the nearest IEEE 754 binary64 value, ties to even, with gradual underflow and
  overflow to an infinity.  The two zeros are identified: no modelled operation tells them apart.
\<close>

section \<open>Values and comparisons\<close>

text \<open>Comparisons follow IEEE 754: every ordered comparison with a NaN is false.\<close>

datatype pyfloat = Fin rat | PosInf | NegInf | NaN

fun fl_less :: "pyfloat \<Rightarrow> pyfloat \<Rightarrow> bool" where
  "fl_less NaN _ = False"
| "fl_less _ NaN = False"
| "fl_less (Fin a) (Fin b) = (a < b)"
| "fl_less NegInf NegInf = False"
| "fl_less NegInf _ = True"
| "fl_less _ NegInf = False"
| "fl_less PosInf _ = False"
| "fl_less _ PosInf = True"

fun fl_eq :: "pyfloat \<Rightarrow> pyfloat \<Rightarrow> bool" where
  "fl_eq NaN _ = False"
| "fl_eq _ NaN = False"
| "fl_eq a b = (a = b)"

definition fl_le :: "pyfloat \<Rightarrow> pyfloat \<Rightarrow> bool" where
  "fl_le a b \<longleftrightarrow> fl_less a b \<or> fl_eq a b"

definition is_finite :: "pyfloat \<Rightarrow> bool" where
  "is_finite x \<longleftrightarrow> (case x of Fin _ \<Rightarrow> True | _ \<Rightarrow> False)"

definition fin_val :: "pyfloat \<Rightarrow> rat" where
  "fin_val x = (case x of Fin r \<Rightarrow> r | _ \<Rightarrow> 0)"

definition is_probability :: "pyfloat \<Rightarrow> bool" where
  "is_probability x \<longleftrightarrow> is_finite x \<and> fl_le (Fin 0) x \<and> fl_le x (Fin 1)"

lemma is_probability_iff: "is_probability x \<longleftrightarrow> (\<exists>r. x = Fin r \<and> 0 \<le> r \<and> r \<le> 1)"
  by (cases x) (auto simp: is_probability_def is_finite_def fl_le_def)

lemma fl_le_Fin [simp]: "fl_le (Fin a) (Fin b) \<longleftrightarrow> a \<le> b"
  by (auto simp: fl_le_def)

lemma fl_le_trans: "fl_le a b \<Longrightarrow> fl_le b c \<Longrightarrow> fl_le a c"
  by (cases a; cases b; cases c) (auto simp: fl_le_def)

section \<open>Rounding\<close>

definition round_half_even :: "rat \<Rightarrow> int" where
  "round_half_even x = (let f = \<lfloor>x\<rfloor>; d = x - of_int f in
     if d < 1 / 2 then f else if 1 / 2 < d then f + 1 else if even f then f else f + 1)"

text \<open>The exponent of a positive rational: the power of two just below it.\<close>

definition exponent2 :: "rat \<Rightarrow> int" where
  "exponent2 x = (case quotient_of x of (p, q) \<Rightarrow>
     let k = bitlen p - bitlen q in if 2 powi k \<le> x then k else k - 1)"

definition ulp_exponent :: "rat \<Rightarrow> int" where
  "ulp_exponent x = max (exponent2 x - 52) (- 1074)"

text \<open>A rational rounded to 53 significant bits, with no bound on the exponent.\<close>

definition nearest53 :: "rat \<Rightarrow> rat" where
  "nearest53 x = (if x = 0 then 0 else let u = 2 powi ulp_exponent \<bar>x\<bar> in of_int (round_half_even (x / u)) * u)"

definition fl_round :: "rat \<Rightarrow> pyfloat" where
  "fl_round x = (let r = nearest53 x in
     if 2 ^ 1024 \<le> r then PosInf else if r \<le> - (2 ^ 1024) then NegInf else Fin r)"

section \<open>Operations\<close>

fun fl_neg :: "pyfloat \<Rightarrow> pyfloat" where
  "fl_neg (Fin a) = Fin (- a)"
| "fl_neg PosInf = NegInf"
| "fl_neg NegInf = PosInf"
| "fl_neg NaN = NaN"

fun fl_add :: "pyfloat \<Rightarrow> pyfloat \<Rightarrow> pyfloat" where
  "fl_add (Fin a) (Fin b) = fl_round (a + b)"
| "fl_add NaN _ = NaN"
| "fl_add _ NaN = NaN"
| "fl_add PosInf NegInf = NaN"
| "fl_add NegInf PosInf = NaN"
| "fl_add PosInf _ = PosInf"
| "fl_add NegInf _ = NegInf"
| "fl_add _ b = b"

definition fl_sub :: "pyfloat \<Rightarrow> pyfloat \<Rightarrow> pyfloat" where
  "fl_sub a b = fl_add a (fl_neg b)"

definition fl_inf :: "rat \<Rightarrow> pyfloat" where
  "fl_inf s = (if s = 0 then NaN else if 0 < s then PosInf else NegInf)"

fun fl_sgn :: "pyfloat \<Rightarrow> rat" where
  "fl_sgn (Fin a) = sgn a"
| "fl_sgn PosInf = 1"
| "fl_sgn NegInf = - 1"
| "fl_sgn NaN = 0"

fun fl_mul :: "pyfloat \<Rightarrow> pyfloat \<Rightarrow> pyfloat" where
  "fl_mul (Fin a) (Fin b) = fl_round (a * b)"
| "fl_mul a b = (if a = NaN \<or> b = NaN then NaN else fl_inf (fl_sgn a * fl_sgn b))"

text \<open>Division by a value that is not zero; Python raises for zero, and the modelled code tests first.\<close>

fun fl_div :: "pyfloat \<Rightarrow> pyfloat \<Rightarrow> pyfloat" where
  "fl_div (Fin a) (Fin b) = fl_round (a / b)"
| "fl_div NaN _ = NaN"
| "fl_div _ NaN = NaN"
| "fl_div (Fin _) _ = Fin 0"
| "fl_div a (Fin b) = fl_inf (fl_sgn a * (if 0 \<le> b then 1 else - 1))"
| "fl_div _ _ = NaN"

fun fl_abs :: "pyfloat \<Rightarrow> pyfloat" where
  "fl_abs (Fin a) = Fin \<bar>a\<bar>"
| "fl_abs NaN = NaN"
| "fl_abs _ = PosInf"

text \<open>
  \<^verbatim>\<open>max(a, b)\<close> and \<^verbatim>\<open>min(a, b)\<close> keep the first argument unless the second is greater or less, so
  \<^verbatim>\<open>max(0.0, nan)\<close> is 0.0 and \<^verbatim>\<open>max(nan, 0.0)\<close> is a NaN; \<^verbatim>\<open>round(x, n)\<close> rounds the exact value to
  \<^verbatim>\<open>n\<close> decimals, ties to even, and returns the nearest float.  A REAL column stores NaN as NULL.
\<close>

definition fl_max :: "pyfloat \<Rightarrow> pyfloat \<Rightarrow> pyfloat" where
  "fl_max a b = (if fl_less a b then b else a)"

definition fl_min :: "pyfloat \<Rightarrow> pyfloat \<Rightarrow> pyfloat" where
  "fl_min a b = (if fl_less b a then b else a)"

definition py_round :: "nat \<Rightarrow> pyfloat \<Rightarrow> pyfloat" where
  "py_round n x = (case x of Fin r \<Rightarrow> fl_round (of_int (round_half_even (r * 10 ^ n)) / 10 ^ n) | _ \<Rightarrow> x)"

abbreviation round6 :: "pyfloat \<Rightarrow> pyfloat" where
  "round6 \<equiv> py_round 6"

definition real_column :: "pyfloat option \<Rightarrow> pyfloat option" where
  "real_column x = (if x = Some NaN then None else x)"

section \<open>Monotonicity of rounding\<close>

lemma round_half_even_of_int [simp]: "round_half_even (of_int i) = i"
  by (simp add: round_half_even_def)

lemma round_half_even_bounds: "\<lfloor>x\<rfloor> \<le> round_half_even x" "round_half_even x \<le> \<lfloor>x\<rfloor> + 1"
  by (simp_all add: round_half_even_def Let_def)

lemma round_half_even_mono:
  assumes "x \<le> y"
  shows "round_half_even x \<le> round_half_even y"
proof (cases "\<lfloor>x\<rfloor> = \<lfloor>y\<rfloor>")
  case True
  then show ?thesis using assms by (auto simp: round_half_even_def Let_def)
next
  case False
  then have "\<lfloor>x\<rfloor> + 1 \<le> \<lfloor>y\<rfloor>" using floor_mono [OF assms] by linarith
  then show ?thesis using round_half_even_bounds [of x] round_half_even_bounds [of y] by linarith
qed

lemma round_half_even_minus: "round_half_even (- x) = - round_half_even x"
proof (cases "x = of_int \<lfloor>x\<rfloor>")
  case True
  then show ?thesis by (metis of_int_minus round_half_even_of_int)
next
  case False
  then have f: "\<lfloor>- x\<rfloor> = - \<lfloor>x\<rfloor> - 1" by linarith
  have "even (- \<lfloor>x\<rfloor> - 1) \<longleftrightarrow> odd \<lfloor>x\<rfloor>" by presburger
  then show ?thesis unfolding round_half_even_def Let_def f by auto
qed

lemma round_half_even_nonneg: "0 \<le> x \<Longrightarrow> 0 \<le> round_half_even x"
  using round_half_even_mono [of 0 x] round_half_even_of_int [of 0] by simp

lemma exponent2_bounds:
  assumes "0 < x"
  shows "2 powi exponent2 x \<le> x" "x < 2 powi (exponent2 x + 1)"
proof -
  obtain p q where pq: "quotient_of x = (p, q)" by fastforce
  have x: "x = of_int p / of_int q" by (rule quotient_of_div [OF pq])
  have q: "0 < q" by (rule quotient_of_denom_pos [OF pq])
  then have p: "0 < p" using assms x by (simp add: zero_less_divide_iff)
  have up: "of_int a < (2 :: rat) powi bitlen a" and lo: "(2 :: rat) powi (bitlen a - 1) \<le> of_int a" if "0 < a" for a
  proof -
    have b: "2 ^ nat (bitlen a - 1) \<le> a" "a < 2 ^ nat (bitlen a)" using bitlen_bounds [OF that] by simp_all
    have n: "1 \<le> bitlen a" using bitlen_eq_zero_iff [of a] bitlen_nonneg [of a] that by linarith
    from b(2) have "(of_int a :: rat) < of_int (2 ^ nat (bitlen a))" by (simp only: of_int_less_iff)
    then show "of_int a < (2 :: rat) powi bitlen a" using n by (simp add: power_int_def)
    from b(1) have "(of_int (2 ^ nat (bitlen a - 1)) :: rat) \<le> of_int a" by (simp only: of_int_le_iff)
    then show "(2 :: rat) powi (bitlen a - 1) \<le> of_int a" using n by (simp add: power_int_def)
  qed
  let ?k = "bitlen p - bitlen q"
  have low: "2 powi (?k - 1) \<le> x"
  proof -
    have "(2 :: rat) powi (?k - 1) * of_int q \<le> 2 powi (?k - 1) * 2 powi bitlen q"
      using up [OF q] by (intro mult_left_mono) simp_all
    also have "\<dots> = 2 powi (bitlen p - 1)" by (simp flip: power_int_add)
    also have "\<dots> \<le> of_int p" by (rule lo [OF p])
    finally show ?thesis using q by (simp add: x field_simps)
  qed
  have high: "x < 2 powi (?k + 1)"
  proof -
    have "of_int p < (2 :: rat) powi bitlen p" by (rule up [OF p])
    also have "\<dots> = 2 powi (?k + 1) * 2 powi (bitlen q - 1)" by (simp flip: power_int_add)
    also have "\<dots> \<le> 2 powi (?k + 1) * of_int q"
      using lo [OF q] by (intro mult_left_mono) simp_all
    finally show ?thesis using q by (simp add: x field_simps)
  qed
  show "2 powi exponent2 x \<le> x" "x < 2 powi (exponent2 x + 1)"
    using low high by (simp_all add: exponent2_def pq Let_def)
qed

lemma powi2_le_iff: "(2 :: rat) powi a \<le> 2 powi b \<longleftrightarrow> a \<le> b"
  using power_int_increasing [of a b "2 :: rat"] power_int_strict_increasing [of b a "2 :: rat"]
  by (cases "a \<le> b") auto

lemma exponent2_mono:
  assumes "0 < x" "x \<le> y"
  shows "exponent2 x \<le> exponent2 y"
proof (rule ccontr)
  assume "\<not> exponent2 x \<le> exponent2 y"
  then have "(2 :: rat) powi (exponent2 y + 1) \<le> 2 powi exponent2 x" by (intro power_int_increasing) auto
  then show False using exponent2_bounds(1) [OF assms(1)] exponent2_bounds(2) [of y] assms by linarith
qed

lemma nearest53_0 [simp]: "nearest53 0 = 0"
  by (simp add: nearest53_def)

lemma nearest53_minus: "nearest53 (- x) = - nearest53 x"
  using round_half_even_minus by (auto simp: nearest53_def Let_def)

lemma nearest53_nonneg: "0 \<le> x \<Longrightarrow> 0 \<le> nearest53 x"
  by (auto simp: nearest53_def Let_def intro!: mult_nonneg_nonneg round_half_even_nonneg)

lemma powi_of_int: "0 \<le> k \<Longrightarrow> (2 :: rat) powi k = of_int (2 ^ nat k)"
  by (simp add: power_int_def)

lemma round_at_grid:
  fixes u :: rat
  assumes "0 < u" "z = of_int i * u"
  shows "x \<le> z \<Longrightarrow> of_int (round_half_even (x / u)) * u \<le> z" "z \<le> x \<Longrightarrow> z \<le> of_int (round_half_even (x / u)) * u"
proof -
  assume "x \<le> z"
  then have "x / u \<le> of_int i" using assms by (simp add: field_simps)
  then have "round_half_even (x / u) \<le> i" using round_half_even_mono by fastforce
  then show "of_int (round_half_even (x / u)) * u \<le> z" using assms by simp
next
  assume "z \<le> x"
  then have "of_int i \<le> x / u" using assms by (simp add: field_simps)
  then have "i \<le> round_half_even (x / u)" using round_half_even_mono by fastforce
  then show "z \<le> of_int (round_half_even (x / u)) * u" using assms by simp
qed

lemma nearest53_mono_pos:
  assumes "0 < x" "x \<le> y"
  shows "nearest53 x \<le> nearest53 y"
proof -
  have y: "0 < y" using assms by simp
  let ?a = "ulp_exponent x" and ?b = "ulp_exponent y"
  have e: "exponent2 x \<le> exponent2 y" by (rule exponent2_mono [OF assms])
  then have "?a \<le> ?b" by (simp add: ulp_exponent_def)
  have nx: "nearest53 x = of_int (round_half_even (x / 2 powi ?a)) * 2 powi ?a"
    and ny: "nearest53 y = of_int (round_half_even (y / 2 powi ?b)) * 2 powi ?b"
    using assms(1) y by (simp_all add: nearest53_def Let_def)
  show ?thesis
  proof (cases "?a = ?b")
    case True
    have "x / 2 powi ?b \<le> y / 2 powi ?b" using assms(2) by (simp add: divide_right_mono)
    then show ?thesis unfolding nx ny True by (simp add: round_half_even_mono mult_right_mono)
  next
    case False
    then have lt: "?a < ?b" using \<open>?a \<le> ?b\<close> by simp
    then have b: "?b = exponent2 y - 52" by (simp add: ulp_exponent_def max_def split: if_splits)
    let ?z = "(2 :: rat) powi exponent2 y"
    have "exponent2 x < exponent2 y" using lt b by (simp add: ulp_exponent_def)
    then have "(2 :: rat) powi (exponent2 x + 1) \<le> ?z" by (intro power_int_increasing) auto
    then have xz: "x \<le> ?z" using exponent2_bounds(2) [OF assms(1)] by simp
    have zy: "?z \<le> y" by (rule exponent2_bounds(1) [OF y])
    have za: "?z = of_int (2 ^ nat (exponent2 y - ?a)) * 2 powi ?a"
      unfolding powi_of_int [symmetric] using lt b by (subst powi_of_int [symmetric]) (simp_all flip: power_int_add)
    have zb: "?z = of_int (2 ^ 52) * 2 powi ?b"
      using power_int_add [of "2 :: rat" 52 ?b] by (simp add: b)
    have "nearest53 x \<le> ?z" unfolding nx by (rule round_at_grid(1) [OF _ za xz]) simp
    also have "?z \<le> nearest53 y" unfolding ny by (rule round_at_grid(2) [OF _ zb zy]) simp
    finally show ?thesis .
  qed
qed

lemma nearest53_mono:
  assumes "x \<le> y"
  shows "nearest53 x \<le> nearest53 y"
proof (cases "0 < x")
  case True
  then show ?thesis using nearest53_mono_pos assms by blast
next
  case x: False
  show ?thesis
  proof (cases "y < 0")
    case True
    then show ?thesis using nearest53_mono_pos [of "- y" "- x"] assms by (simp add: nearest53_minus)
  next
    case False
    then show ?thesis using nearest53_nonneg [of y] nearest53_nonneg [of "- x"] x by (simp add: nearest53_minus)
  qed
qed

text \<open>Binary64 values round to themselves.\<close>

lemma nearest53_grid:
  assumes "x = of_int m * 2 powi k" "\<bar>m\<bar> \<le> 2 ^ 53" "- 1074 \<le> k"
  shows "nearest53 x = x"
proof (cases "x = 0")
  case False
  let ?u = "ulp_exponent \<bar>x\<bar>"
  have ax: "\<bar>x\<bar> = of_int \<bar>m\<bar> * 2 powi k" using assms(1) by (simp add: abs_mult)
  have low: "2 powi exponent2 \<bar>x\<bar> \<le> \<bar>x\<bar>" using exponent2_bounds(1) False by simp
  have "\<exists>i. x = of_int i * 2 powi ?u"
  proof (cases "\<bar>m\<bar> = 2 ^ 53")
    case True
    then have px: "\<bar>x\<bar> = 2 powi (53 + k)" unfolding ax by (simp add: power_int_add)
    then have "exponent2 \<bar>x\<bar> \<le> 53 + k" using low by (simp add: powi2_le_iff)
    then have "?u \<le> k + 1" using assms(3) by (simp add: ulp_exponent_def)
    then have "\<bar>x\<bar> = of_int (2 ^ nat (53 + k - ?u)) * 2 powi ?u"
      unfolding px by (subst powi_of_int [symmetric]) (simp_all flip: power_int_add)
    then show ?thesis by (metis abs_if minus_minus mult_minus_left of_int_minus)
  next
    case False
    then have "\<bar>m\<bar> < 2 ^ 53" using assms(2) by simp
    then have "(of_int \<bar>m\<bar> :: rat) < of_int (2 ^ 53)" by (simp only: of_int_less_iff)
    then have "\<bar>x\<bar> < 2 powi (53 + k)" unfolding ax by (simp add: power_int_add)
    then have "(2 :: rat) powi exponent2 \<bar>x\<bar> < 2 powi (53 + k)" using low by simp
    then have "exponent2 \<bar>x\<bar> < 53 + k" by (simp add: powi2_le_iff flip: not_le)
    then have u: "?u \<le> k" using assms(3) by (simp add: ulp_exponent_def)
    have "(2 :: rat) powi k = of_int (2 ^ nat (k - ?u)) * 2 powi ?u"
      using u by (subst powi_of_int [symmetric]) (simp_all flip: power_int_add)
    then have "x = of_int (m * 2 ^ nat (k - ?u)) * 2 powi ?u" by (simp add: assms(1))
    then show ?thesis by blast
  qed
  then obtain i where i: "x = of_int i * 2 powi ?u" by blast
  then have "x / 2 powi ?u = of_int i" by (metis nonzero_mult_div_cancel_right power_int_eq_0_iff zero_neq_numeral)
  then show ?thesis using False i by (simp add: nearest53_def Let_def)
qed simp

lemma nearest53_nearest53 [simp]: "nearest53 (nearest53 x) = nearest53 x"
proof (cases "x = 0")
  case False
  let ?u = "ulp_exponent \<bar>x\<bar>"
  let ?m = "round_half_even (x / 2 powi ?u)"
  have n: "nearest53 x = of_int ?m * 2 powi ?u" using False by (simp add: nearest53_def Let_def)
  have "\<bar>x\<bar> < 2 powi (exponent2 \<bar>x\<bar> + 1)" using exponent2_bounds(2) False by simp
  also have "\<dots> \<le> 2 powi (53 + ?u)" by (intro power_int_increasing) (auto simp: ulp_exponent_def)
  finally have "\<bar>x\<bar> \<le> 2 ^ 53 * 2 powi ?u" by (simp add: power_int_add)
  then have "x / 2 powi ?u \<le> of_int (2 ^ 53)" "of_int (- (2 ^ 53)) \<le> x / 2 powi ?u"
    by (simp_all add: field_simps abs_le_iff)
  then have "?m \<le> 2 ^ 53" "- (2 ^ 53) \<le> ?m"
    using round_half_even_mono round_half_even_of_int by metis+
  then have "\<bar>?m\<bar> \<le> 2 ^ 53" by simp
  then show ?thesis by (rule nearest53_grid [OF n]) (simp add: ulp_exponent_def)
qed simp

lemma nearest53_of_int: "\<bar>i\<bar> \<le> 2 ^ 53 \<Longrightarrow> nearest53 (of_int i) = of_int i"
  using nearest53_grid [of "of_int i" i 0] by simp

lemma nearest53_small:
  assumes "\<bar>x\<bar> \<le> 2 ^ 1023"
  shows "\<bar>nearest53 x\<bar> \<le> 2 ^ 1023"
proof -
  have n: "nearest53 (2 ^ 1023) = 2 ^ 1023"
    using nearest53_grid [of "2 ^ 1023" 1 1023] by simp
  have "x \<le> 2 ^ 1023" "- (2 ^ 1023) \<le> x" using assms by (simp_all only: abs_le_iff minus_le_iff)
  then have "nearest53 x \<le> nearest53 (2 ^ 1023)" "nearest53 (- (2 ^ 1023)) \<le> nearest53 x"
    using nearest53_mono by blast+
  then have "nearest53 x \<le> 2 ^ 1023" "- (2 ^ 1023) \<le> nearest53 x" unfolding nearest53_minus n by blast+
  then show ?thesis by (simp only: abs_le_iff minus_le_iff)
qed

lemma power_1023_less: "(2 :: rat) ^ 1023 < 2 ^ 1024"
  by (rule power_strict_increasing) simp_all

lemma fl_round_small:
  assumes "\<bar>x\<bar> \<le> 2 ^ 1023"
  shows "fl_round x = Fin (nearest53 x)"
proof -
  have "nearest53 x \<le> 2 ^ 1023" "- (2 ^ 1023) \<le> nearest53 x"
    using nearest53_small [OF assms] by (simp_all only: abs_le_iff minus_le_iff)
  then have "\<not> 2 ^ 1024 \<le> nearest53 x" "\<not> nearest53 x \<le> - (2 ^ 1024)"
    using power_1023_less by (simp_all only: not_le)
  then show ?thesis by (simp only: fl_round_def Let_def if_False)
qed

lemma fl_round_mono:
  assumes "x \<le> y"
  shows "fl_le (fl_round x) (fl_round y)"
proof -
  have "nearest53 x \<le> nearest53 y" by (rule nearest53_mono [OF assms])
  moreover have "- ((2 :: rat) ^ 1024) < 2 ^ 1024" by (rule order.strict_trans [of _ 0]) simp_all
  ultimately show ?thesis
    unfolding fl_round_def Let_def fl_le_def by (auto simp del: power_numeral)
qed

lemma fl_round_nonneg: "0 \<le> x \<Longrightarrow> fl_le (Fin 0) (fl_round x)"
  using fl_round_mono [of 0 x] fl_round_small [of 0] by simp

lemma fl_round_not_NaN [simp]: "fl_round x \<noteq> NaN"
  by (simp add: fl_round_def Let_def)

lemma py_round_max_nonneg: "fl_le (Fin 0) (py_round n (fl_max (Fin 0) x))"
  by (cases x) (auto simp: fl_max_def py_round_def fl_round_nonneg round_half_even_nonneg fl_le_def
      intro!: fl_round_nonneg [unfolded fl_le_def])

end
