(* ===== verification/Prelude.thy ===== *)
theory Prelude
  imports Floats "HOL-Library.Char_ord" "HOL-Library.List_Lexorder" "HOL-Library.Product_Lexorder"
    "HOL-Library.Code_Target_Numeral"
begin

text \<open>
  Shared vocabulary of the development: results that carry an error, the
  fragment of Python strings, floats and SQLite tables that the modelled code
  uses, and the locale of invariant-preserving machines that every stateful
  component interprets.  Nothing here is specific to one component.
\<close>

named_theorems result_simps \<open>unfolding rules of the result combinators\<close>

section \<open>Results\<close>

text \<open>A raised exception is the left injection of its sanitized code.\<close>

definition bindE :: "'e + 'a \<Rightarrow> ('a \<Rightarrow> 'e + 'b) \<Rightarrow> 'e + 'b" where
  "bindE m f = (case m of Inl e \<Rightarrow> Inl e | Inr x \<Rightarrow> f x)"

definition requireE :: "bool \<Rightarrow> 'e \<Rightarrow> 'e + unit" where
  "requireE c e = (if c then Inr () else Inl e)"

definition someE :: "'a option \<Rightarrow> 'e \<Rightarrow> 'e + 'a" where
  "someE x e = (case x of None \<Rightarrow> Inl e | Some v \<Rightarrow> Inr v)"

definition mapErr :: "('e \<Rightarrow> 'f) \<Rightarrow> 'e + 'a \<Rightarrow> 'f + 'a" where
  "mapErr g m = (case m of Inl e \<Rightarrow> Inl (g e) | Inr x \<Rightarrow> Inr x)"

fun mapE :: "('a \<Rightarrow> 'e + 'b) \<Rightarrow> 'a list \<Rightarrow> 'e + 'b list" where
  "mapE f [] = Inr []"
| "mapE f (x # xs) = (case f x of Inl e \<Rightarrow> Inl e
     | Inr y \<Rightarrow> (case mapE f xs of Inl e \<Rightarrow> Inl e | Inr ys \<Rightarrow> Inr (y # ys)))"

definition isOk :: "'e + 'a \<Rightarrow> bool" where
  "isOk m = (case m of Inl _ \<Rightarrow> False | Inr _ \<Rightarrow> True)"

lemma isOk_simps [simp]: "isOk (Inr x)" "\<not> isOk (Inl e)"
  by (simp_all add: isOk_def)

lemma bindE_simps [simp, result_simps]:
  "bindE (Inl e) f = Inl e" "bindE (Inr x) f = f x"
  by (simp_all add: bindE_def)

lemma bindE_eq_Inr: "bindE m f = Inr y \<longleftrightarrow> (\<exists>x. m = Inr x \<and> f x = Inr y)"
  by (cases m) auto

lemma bindE_eq_Inl: "bindE m f = Inl e \<longleftrightarrow> m = Inl e \<or> (\<exists>x. m = Inr x \<and> f x = Inl e)"
  by (cases m) auto

lemma bindE_split:
  "P (bindE m f) \<longleftrightarrow> (\<forall>e. m = Inl e \<longrightarrow> P (Inl e)) \<and> (\<forall>x. m = Inr x \<longrightarrow> P (f x))"
  by (cases m) auto

lemma bindE_split_asm:
  "P (bindE m f) \<longleftrightarrow> \<not> ((\<exists>e. m = Inl e \<and> \<not> P (Inl e)) \<or> (\<exists>x. m = Inr x \<and> \<not> P (f x)))"
  by (cases m) auto

lemmas bindE_splits = bindE_split bindE_split_asm

lemma requireE_simps [simp, result_simps]:
  "requireE True e = Inr ()" "requireE False e = Inl e"
  by (simp_all add: requireE_def)

lemma requireE_eq_Inr [simp]: "requireE c e = Inr u \<longleftrightarrow> c"
  by (simp add: requireE_def)

lemma requireE_eq_Inl [simp]: "requireE c e = Inl e' \<longleftrightarrow> \<not> c \<and> e' = e"
  by (auto simp: requireE_def)

lemma someE_simps [simp, result_simps]:
  "someE None e = Inl e" "someE (Some v) e = Inr v"
  by (simp_all add: someE_def)

lemma someE_eq_Inr [simp]: "someE x e = Inr v \<longleftrightarrow> x = Some v"
  by (cases x) auto

lemma someE_eq_Inl [simp]: "someE x e = Inl e' \<longleftrightarrow> x = None \<and> e' = e"
  by (cases x) auto

lemma mapErr_simps [simp, result_simps]:
  "mapErr g (Inl e) = Inl (g e)" "mapErr g (Inr x) = Inr x"
  by (simp_all add: mapErr_def)

lemma mapErr_eq_Inr [simp]: "mapErr g m = Inr x \<longleftrightarrow> m = Inr x"
  by (cases m) auto

lemma mapErr_eq_Inl: "mapErr g m = Inl e \<longleftrightarrow> (\<exists>e'. m = Inl e' \<and> e = g e')"
  by (cases m) auto

lemma mapE_Inr_length: "mapE f xs = Inr ys \<Longrightarrow> length ys = length xs"
  by (induction xs arbitrary: ys) (auto split: sum.splits)

lemma mapE_Inr_nth: "mapE f xs = Inr ys \<Longrightarrow> i < length xs \<Longrightarrow> f (xs ! i) = Inr (ys ! i)"
proof (induction xs arbitrary: ys i)
  case Nil
  then show ?case by simp
next
  case (Cons x xs)
  then show ?case by (cases i) (auto split: sum.splits)
qed

lemma mapE_all_Inr: "(\<And>x. x \<in> set xs \<Longrightarrow> f x = Inr (g x)) \<Longrightarrow> mapE f xs = Inr (map g xs)"
  by (induction xs) auto

lemma mapE_Inl: "mapE f xs = Inl e \<Longrightarrow> \<exists>x \<in> set xs. f x = Inl e"
  by (induction xs) (auto split: sum.splits)

section \<open>Strings\<close>

text \<open>
  A Python string is a list of code points below 256.  The predicates below are
  the character classes of \<^verbatim>\<open>str.strip\<close>, \<^verbatim>\<open>str.lower\<close> and of the regular
  expressions the code uses.
\<close>

definition char_in :: "char \<Rightarrow> char \<Rightarrow> char \<Rightarrow> bool" where
  "char_in lo hi c \<longleftrightarrow> lo \<le> c \<and> c \<le> hi"

definition is_digit :: "char \<Rightarrow> bool" where
  "is_digit c \<longleftrightarrow> char_in CHR ''0'' CHR ''9'' c"

definition is_lower_alpha :: "char \<Rightarrow> bool" where
  "is_lower_alpha c \<longleftrightarrow> char_in CHR ''a'' CHR ''z'' c"

definition is_upper_alpha :: "char \<Rightarrow> bool" where
  "is_upper_alpha c \<longleftrightarrow> char_in CHR ''A'' CHR ''Z'' c"

definition is_lower_hex :: "char \<Rightarrow> bool" where
  "is_lower_hex c \<longleftrightarrow> is_digit c \<or> char_in CHR ''a'' CHR ''f'' c"

definition py_space :: "char \<Rightarrow> bool" where
  "py_space c \<longleftrightarrow> (let n = of_char c :: nat in
     (9 \<le> n \<and> n \<le> 13) \<or> (28 \<le> n \<and> n \<le> 32) \<or> n = 133 \<or> n = 160)"

text \<open>\<open>blank s\<close> is the guard \<^verbatim>\<open>not s or not s.strip()\<close>.\<close>

definition blank :: "string \<Rightarrow> bool" where
  "blank s \<longleftrightarrow> list_all py_space s"

definition py_strip :: "string \<Rightarrow> string" where
  "py_strip s = rev (dropWhile py_space (rev (dropWhile py_space s)))"

definition py_lower_char :: "char \<Rightarrow> char" where
  "py_lower_char c = (let n = of_char c :: nat in
     if (65 \<le> n \<and> n \<le> 90) \<or> (192 \<le> n \<and> n \<le> 222 \<and> n \<noteq> 215) then char_of (n + 32) else c)"

definition py_lower :: "string \<Rightarrow> string" where
  "py_lower = map py_lower_char"

definition starts_with :: "string \<Rightarrow> string \<Rightarrow> bool" where
  "starts_with p s \<longleftrightarrow> take (length p) s = p"

lemma blank_iff_strip_empty: "blank s \<longleftrightarrow> py_strip s = []"
proof -
  have "set s = set (takeWhile py_space s) \<union> set (dropWhile py_space s)"
    by (metis set_append takeWhile_dropWhile_id)
  then have "(\<forall>c \<in> set (dropWhile py_space s). py_space c) \<longleftrightarrow> (\<forall>c \<in> set s. py_space c)"
    by (auto dest: set_takeWhileD)
  then show ?thesis
    by (simp add: py_strip_def blank_def list_all_iff dropWhile_eq_Nil_conv del: dropWhile_eq_self_iff)
qed

lemma starts_with_append [simp]: "starts_with p (p @ s)"
  by (simp add: starts_with_def)

lemma starts_with_iff: "starts_with p s \<longleftrightarrow> (\<exists>t. s = p @ t)"
  by (metis append_take_drop_id starts_with_append starts_with_def)

text \<open>A lowercase SHA-256 text: 64 lowercase hexadecimal digits.\<close>

definition is_sha256 :: "string \<Rightarrow> bool" where
  "is_sha256 s \<longleftrightarrow> length s = 64 \<and> list_all is_lower_hex s"

text \<open>
  The canonical text of a version-4 UUID: what \<^verbatim>\<open>uuid.UUID(v)\<close> accepts with
  \<^verbatim>\<open>version == 4\<close> (which also requires the RFC 4122 variant) and prints back
  unchanged.
\<close>

definition is_uuid :: "string \<Rightarrow> bool" where
  "is_uuid s \<longleftrightarrow> length s = 36 \<and>
     (\<forall>i \<in> set [0..<36]. if i \<in> {8, 13, 18, 23} then s ! i = CHR ''-'' else is_lower_hex (s ! i))"

definition is_uuid4 :: "string \<Rightarrow> bool" where
  "is_uuid4 s \<longleftrightarrow> length s = 36 \<and>
     (\<forall>i \<in> set [0..<36]. if i \<in> {8, 13, 18, 23} then s ! i = CHR ''-'' else is_lower_hex (s ! i)) \<and>
     s ! 14 = CHR ''4'' \<and> s ! 19 \<in> set ''89ab''"

text \<open>
  Unpadded URL-safe base64 of exactly 32 bytes: 43 alphabet characters, the
  last of which carries two zero bits.
\<close>

definition b64url_value :: "char \<Rightarrow> nat option" where
  "b64url_value c =
     (if is_upper_alpha c then Some (of_char c - 65)
      else if is_lower_alpha c then Some (of_char c - 97 + 26)
      else if is_digit c then Some (of_char c - 48 + 52)
      else if c = CHR ''-'' then Some 62
      else if c = CHR ''_'' then Some 63 else None)"

definition is_b64url_32 :: "string \<Rightarrow> bool" where
  "is_b64url_32 s \<longleftrightarrow> length s = 43 \<and> list_all (\<lambda>c. b64url_value c \<noteq> None) s \<and>
     the (b64url_value (last s)) mod 4 = 0"

text \<open>Decimal text of a natural number (\<^verbatim>\<open>str(n)\<close>).\<close>

fun dec_digits :: "nat \<Rightarrow> string" where
  "dec_digits n = (if n < 10 then [char_of (48 + n)]
     else dec_digits (n div 10) @ [char_of (48 + n mod 10)])"

declare dec_digits.simps [simp del]

definition dec_int :: "int \<Rightarrow> string" where
  "dec_int i = (if i < 0 then CHR ''-'' # dec_digits (nat (- i)) else dec_digits (nat i))"

section \<open>SQLite tables\<close>

text \<open>
  A table is the list of its rows in rowid order.  An operation takes the
  fault the database engine injects into its connection: none, a failed
  connect, or a failure (busy/locked or other) at the transaction's begin or
  at its first write or commit.  SQLite rolls a failed transaction back, so a
  fault leaves the table as it was.
\<close>

datatype sqlite_error = Sqlite_busy | Sqlite_other
datatype sqlite_fault = No_fault | Fault_connect | Fault_begin sqlite_error | Fault_write sqlite_error

definition select_where :: "('r \<Rightarrow> bool) \<Rightarrow> 'r list \<Rightarrow> 'r list" where
  "select_where p t = filter p t"

definition fetchone :: "('r \<Rightarrow> bool) \<Rightarrow> 'r list \<Rightarrow> 'r option" where
  "fetchone p t = List.find p t"

definition update_where :: "('r \<Rightarrow> bool) \<Rightarrow> ('r \<Rightarrow> 'r) \<Rightarrow> 'r list \<Rightarrow> 'r list" where
  "update_where p f t = map (\<lambda>r. if p r then f r else r) t"

definition rowcount :: "('r \<Rightarrow> bool) \<Rightarrow> 'r list \<Rightarrow> nat" where
  "rowcount p t = length (filter p t)"

lemma fetchone_SomeD: "fetchone p t = Some r \<Longrightarrow> p r \<and> r \<in> set t"
  by (auto simp: fetchone_def find_Some_iff)

lemma fetchone_NoneD: "fetchone p t = None \<Longrightarrow> r \<in> set t \<Longrightarrow> \<not> p r"
  by (auto simp: fetchone_def find_None_iff)

lemma fetchone_None_iff: "fetchone p t = None \<longleftrightarrow> (\<forall>r \<in> set t. \<not> p r)"
  by (auto simp: fetchone_def find_None_iff)

lemma fetchone_append:
  "fetchone p (t @ u) = (case fetchone p t of None \<Rightarrow> fetchone p u | Some r \<Rightarrow> Some r)"
  by (induction t) (auto simp: fetchone_def)

lemma fetchone_singleton [simp]: "fetchone p [r] = (if p r then Some r else None)"
  by (simp add: fetchone_def)

lemma fetchone_Nil [simp]: "fetchone p [] = None"
  by (simp add: fetchone_def)

lemma fetchone_map: "fetchone p (map f xs) = map_option f (fetchone (p \<circ> f) xs)"
  by (induction xs) (auto simp: fetchone_def)

text \<open>With distinct keys, the row that \<open>fetchone\<close> returns is the only one.\<close>

lemma fetchone_key_unique:
  assumes "distinct (map key t)" "r \<in> set t"
  shows "fetchone (\<lambda>x. key x = key r) t = Some r"
  using assms
proof (induction t)
  case Nil
  then show ?case by simp
next
  case (Cons x t)
  show ?case
  proof (cases "key x = key r")
    case True
    have "x = r"
      using Cons.prems True by (metis distinct.simps(2) image_eqI list.set_map list.simps(9) set_ConsD)
    with True show ?thesis by (simp add: fetchone_def)
  next
    case False
    with Cons show ?thesis by (auto simp: fetchone_def)
  qed
qed

lemma fetchone_update_where:
  assumes "\<And>r. q (f r) = q r"
  shows "fetchone q (update_where p f t) =
    map_option (\<lambda>r. if p r then f r else r) (fetchone q t)"
  by (induction t) (auto simp: fetchone_def update_where_def assms)

lemma update_where_keys:
  "(\<And>r. key (f r) = key r) \<Longrightarrow> map key (update_where p f t) = map key t"
  by (simp add: update_where_def)

lemma set_update_where:
  "set (update_where p f t) = (\<lambda>r. if p r then f r else r) ` set t"
  by (simp add: update_where_def)

lemma length_update_where [simp]: "length (update_where p f t) = length t"
  by (simp add: update_where_def)

text \<open>ORDER BY on the stored form of values is a sort on the values when the keys compare alike.\<close>

lemma insort_key_map:
  assumes "\<And>x. x \<in> set xs \<Longrightarrow> k (f a) \<le> k (f x) \<longleftrightarrow> h a \<le> h x"
  shows "insort_key k (f a) (map f xs) = map f (insort_key h a xs)"
  using assms by (induction xs) auto

lemma sort_key_map:
  assumes "\<And>x y. x \<in> set xs \<Longrightarrow> y \<in> set xs \<Longrightarrow> k (f x) \<le> k (f y) \<longleftrightarrow> h x \<le> h y"
  shows "sort_key k (map f xs) = map f (sort_key h xs)"
  using assms
proof (induction xs)
  case (Cons a xs)
  have "sort_key k (map f xs) = map f (sort_key h xs)" by (rule Cons.IH) (use Cons.prems in auto)
  moreover have "insort_key k (f a) (map f (sort_key h xs)) = map f (insort_key h a (sort_key h xs))"
    by (rule insort_key_map) (use Cons.prems in auto)
  ultimately show ?case by simp
qed simp

section \<open>Machines with an invariant\<close>

text \<open>
  The contract every stateful component meets: a set of initial states, a step
  function on commands, and a predicate that holds at the start and is kept by
  each step.  The lemmas lift it to runs.
\<close>

locale invariant_machine =
  fixes step :: "'s \<Rightarrow> 'c \<Rightarrow> 's"
    and start :: "'s \<Rightarrow> bool"
    and inv :: "'s \<Rightarrow> bool"
  assumes inv_start: "start s \<Longrightarrow> inv s"
    and inv_step: "inv s \<Longrightarrow> inv (step s c)"
begin

lemma inv_run: "inv s \<Longrightarrow> inv (foldl step s cs)"
  by (induction cs arbitrary: s) (auto intro: inv_step)

lemma inv_from_start: "start s \<Longrightarrow> inv (foldl step s cs)"
  by (intro inv_run inv_start)

lemma inv_prefix: "start s \<Longrightarrow> inv (foldl step s (take n cs))"
  by (rule inv_from_start)

end

text \<open>
  A second contract, for machines whose relevant facts are monotone: a
  relation between a state and its successors that is reflexive and transitive.
\<close>

locale monotone_machine = invariant_machine step start inv
  for step :: "'s \<Rightarrow> 'c \<Rightarrow> 's" and start :: "'s \<Rightarrow> bool" and inv :: "'s \<Rightarrow> bool" +
  fixes extends :: "'s \<Rightarrow> 's \<Rightarrow> bool"
  assumes extends_refl: "extends s s"
    and extends_trans: "extends s t \<Longrightarrow> extends t u \<Longrightarrow> extends s u"
    and extends_step: "inv s \<Longrightarrow> extends s (step s c)"
begin

lemma extends_run: "inv s \<Longrightarrow> extends s (foldl step s cs)"
proof (induction cs arbitrary: s)
  case Nil
  then show ?case by (simp add: extends_refl)
next
  case (Cons c cs)
  have "extends (step s c) (foldl step (step s c) cs)"
    by (rule Cons.IH) (rule inv_step [OF Cons.prems])
  then show ?case
    using extends_trans [OF extends_step [OF Cons.prems]] by simp
qed

lemma extends_later:
  assumes "start s" "m \<le> n"
  shows "extends (foldl step s (take m cs)) (foldl step s (take n cs))"
proof -
  have "take n cs = take m cs @ take (n - m) (drop m cs)"
    using assms(2) by (metis le_add_diff_inverse take_add)
  then show ?thesis
    using extends_run [OF inv_from_start [OF assms(1), of "take m cs"]] by simp
qed

end

end
