(* ===== verification/Datetime.thy ===== *)
theory Datetime
  imports Prelude
begin

text \<open>
  The fragment of Python's \<^verbatim>\<open>datetime\<close> the modelled code uses: aware UTC
  values, \<^verbatim>\<open>isoformat\<close>, its inverse on text that \<^verbatim>\<open>isoformat\<close> produces, and
  the microsecond position on the time line that subtraction and
  \<^verbatim>\<open>timestamp()\<close> are computed from.  The main results: the text form
  round-trips, its lexicographic order is the chronological order (the
  repositories order and minimise the text form), and the time line is strictly
  monotone.
\<close>

section \<open>Values\<close>

datatype datetime = Datetime
  (dt_year: nat) (dt_month: nat) (dt_day: nat)
  (dt_hour: nat) (dt_minute: nat) (dt_second: nat) (dt_micro: nat)

definition is_leap :: "nat \<Rightarrow> bool" where
  "is_leap y \<longleftrightarrow> y mod 4 = 0 \<and> (y mod 100 \<noteq> 0 \<or> y mod 400 = 0)"

definition days_in_month :: "nat \<Rightarrow> nat \<Rightarrow> nat" where
  "days_in_month y m =
     (if m = 2 then (if is_leap y then 29 else 28)
      else if m \<in> {4, 6, 9, 11} then 30 else 31)"

definition valid_datetime :: "datetime \<Rightarrow> bool" where
  "valid_datetime d \<longleftrightarrow> 1 \<le> dt_year d \<and> dt_year d \<le> 9999 \<and>
     1 \<le> dt_month d \<and> dt_month d \<le> 12 \<and>
     1 \<le> dt_day d \<and> dt_day d \<le> days_in_month (dt_year d) (dt_month d) \<and>
     dt_hour d < 24 \<and> dt_minute d < 60 \<and> dt_second d < 60 \<and> dt_micro d < 1000000"

definition dt_key :: "datetime \<Rightarrow> nat \<times> nat \<times> nat \<times> nat \<times> nat \<times> nat \<times> nat" where
  "dt_key d = (dt_year d, dt_month d, dt_day d, dt_hour d, dt_minute d, dt_second d, dt_micro d)"

lemma dt_key_inject: "dt_key a = dt_key b \<longleftrightarrow> a = b"
  by (cases a; cases b) (simp add: dt_key_def)

instantiation datetime :: linorder
begin

definition less_eq_datetime :: "datetime \<Rightarrow> datetime \<Rightarrow> bool" where
  "less_eq_datetime a b \<longleftrightarrow> dt_key a \<le> dt_key b"

definition less_datetime :: "datetime \<Rightarrow> datetime \<Rightarrow> bool" where
  "less_datetime a b \<longleftrightarrow> dt_key a < dt_key b"

instance
  proof
  show "(x < y) \<longleftrightarrow> x \<le> y \<and> \<not> y \<le> x" for x y :: datetime
    by (simp add: less_eq_datetime_def less_datetime_def less_le_not_le)
  show "x \<le> x" for x :: datetime
    by (simp add: less_eq_datetime_def)
  show "x \<le> z" if "x \<le> y" "y \<le> z" for x y z :: datetime
    using that by (auto simp: less_eq_datetime_def intro: order_trans)
  show "x = y" if "x \<le> y" "y \<le> x" for x y :: datetime
    using that by (simp add: less_eq_datetime_def dt_key_inject [symmetric] order_antisym)
  show "x \<le> y \<or> y \<le> x" for x y :: datetime
    by (simp add: less_eq_datetime_def linear)
qed

end

section \<open>Text form\<close>

fun padn :: "nat \<Rightarrow> nat \<Rightarrow> string" where
  "padn 0 n = []"
| "padn (Suc k) n = padn k (n div 10) @ [char_of (48 + n mod 10)]"

definition iso_fraction :: "nat \<Rightarrow> string" where
  "iso_fraction us = (if us = 0 then [] else ''.'' @ padn 6 us)"

definition isoformat :: "datetime \<Rightarrow> string" where
  "isoformat d =
     padn 4 (dt_year d) @ ''-'' @ padn 2 (dt_month d) @ ''-'' @ padn 2 (dt_day d) @ ''T'' @
     padn 2 (dt_hour d) @ '':'' @ padn 2 (dt_minute d) @ '':'' @ padn 2 (dt_second d) @
     iso_fraction (dt_micro d) @ ''+00:00''"

definition digit_val :: "char \<Rightarrow> nat" where
  "digit_val c = of_char c - 48"

definition num_val :: "string \<Rightarrow> nat" where
  "num_val = foldl (\<lambda>n c. 10 * n + digit_val c) 0"

text \<open>Fixed-width fields of the text: digits from position \<open>i\<close>, \<open>k\<close> of them.\<close>

definition field :: "nat \<Rightarrow> nat \<Rightarrow> string \<Rightarrow> nat option" where
  "field i k s = (let f = take k (drop i s) in
     if length f = k \<and> list_all is_digit f then Some (num_val f) else None)"

definition sep_at :: "nat \<Rightarrow> char \<Rightarrow> string \<Rightarrow> bool" where
  "sep_at i c s \<longleftrightarrow> i < length s \<and> s ! i = c"

definition fromisoformat_utc :: "string \<Rightarrow> datetime option" where
  "fromisoformat_utc s =
     (if sep_at 4 CHR ''-'' s \<and> sep_at 7 CHR ''-'' s \<and> sep_at 10 CHR ''T'' s \<and>
         sep_at 13 CHR '':'' s \<and> sep_at 16 CHR '':'' s
      then (case (field 0 4 s, field 5 2 s, field 8 2 s, field 11 2 s, field 14 2 s, field 17 2 s) of
          (Some y, Some mo, Some dd, Some h, Some mi, Some se) \<Rightarrow>
            (case (if drop 19 s = ''+00:00'' then Some 0
                   else if sep_at 19 CHR ''.'' s \<and> drop 26 s = ''+00:00'' then field 20 6 s
                   else None) of
               Some us \<Rightarrow> (let d = Datetime y mo dd h mi se us in
                 if valid_datetime d then Some d else None)
             | None \<Rightarrow> None)
        | _ \<Rightarrow> None)
      else None)"

lemma length_padn [simp]: "length (padn k n) = k"
  by (induction k arbitrary: n) auto

lemma of_char_digit: "n < 10 \<Longrightarrow> (of_char (char_of (48 + n) :: char) :: nat) = 48 + n"
  by (simp only: of_char_of) simp

lemma digit_char_less [simp]:
  "a < 10 \<Longrightarrow> b < 10 \<Longrightarrow> (char_of (48 + a) :: char) < char_of (48 + b) \<longleftrightarrow> a < (b :: nat)"
  by (simp only: less_char_def of_char_digit) simp

lemma digit_char_eq [simp]:
  assumes "a < 10" "b < (10 :: nat)"
  shows "(char_of (48 + a) :: char) = char_of (48 + b) \<longleftrightarrow> a = b"
proof
  assume "(char_of (48 + a) :: char) = char_of (48 + b)"
  then have "(of_char (char_of (48 + a) :: char) :: nat) = of_char (char_of (48 + b) :: char)"
    by (rule arg_cong)
  then show "a = b" by (simp only: of_char_digit [OF assms(1)] of_char_digit [OF assms(2)] add_left_cancel)
qed simp

lemma is_digit_char [simp]: "n < 10 \<Longrightarrow> is_digit (char_of (48 + n :: nat))"
  by (simp only: is_digit_def char_in_def less_eq_char_def of_char_digit) simp

lemma digit_val_char [simp]: "n < 10 \<Longrightarrow> digit_val (char_of (48 + n)) = n"
  by (simp only: digit_val_def of_char_digit add_diff_cancel_left')

lemma append_less_same_length:
  "length xs = length ys \<Longrightarrow>
     (xs @ us < ys @ vs) \<longleftrightarrow> xs < ys \<or> xs = ys \<and> us < (vs :: 'a::linorder list)"
  by (induction xs ys rule: list_induct2) auto

lemma digit_pair_order:
  assumes "r < 10" "s < (10 :: nat)"
  shows "10 * p + r < 10 * q + s \<longleftrightarrow> p < q \<or> p = q \<and> r < s"
    "10 * p + r = 10 * q + s \<longleftrightarrow> p = q \<and> r = s"
  using assms by (cases p q rule: linorder_cases; simp)+

lemma pair_less_iff:
  "((a :: 'a::linorder), (b :: 'b::linorder)) < (c, d) \<longleftrightarrow> a < c \<or> a = c \<and> b < d"
  by (auto simp: le_less)

lemma padn_less_eq:
  "a < 10 ^ k \<Longrightarrow> b < 10 ^ k \<Longrightarrow>
     (padn k a < padn k b \<longleftrightarrow> a < b) \<and> (padn k a = padn k b \<longleftrightarrow> a = b)"
proof (induction k arbitrary: a b)
  case 0
  then show ?case by simp
next
  case (Suc k)
  then have "a div 10 < 10 ^ k" "b div 10 < 10 ^ k" by auto
  from Suc.IH [OF this]
  have IH: "padn k (a div 10) < padn k (b div 10) \<longleftrightarrow> a div 10 < b div 10"
    "padn k (a div 10) = padn k (b div 10) \<longleftrightarrow> a div 10 = b div 10" by auto
  have "padn (Suc k) a < padn (Suc k) b \<longleftrightarrow>
      a div 10 < b div 10 \<or> a div 10 = b div 10 \<and> a mod 10 < b mod 10"
    by (simp add: append_less_same_length IH)
  moreover have "padn (Suc k) a = padn (Suc k) b \<longleftrightarrow> a div 10 = b div 10 \<and> a mod 10 = b mod 10"
    by (simp add: IH)
  moreover have "a < b \<longleftrightarrow> a div 10 < b div 10 \<or> a div 10 = b div 10 \<and> a mod 10 < b mod 10"
    and "a = b \<longleftrightarrow> a div 10 = b div 10 \<and> a mod 10 = b mod 10"
    using digit_pair_order [of "a mod 10" "b mod 10" "a div 10" "b div 10"] by simp_all
  ultimately show ?case by simp
qed

lemma padn_less: "a < 10 ^ k \<Longrightarrow> b < 10 ^ k \<Longrightarrow> padn k a < padn k b \<longleftrightarrow> a < b"
  and padn_eq: "a < 10 ^ k \<Longrightarrow> b < 10 ^ k \<Longrightarrow> padn k a = padn k b \<longleftrightarrow> a = b"
  using padn_less_eq by blast+

lemma iso_fraction_less:
  assumes "a < 1000000" "b < 1000000" and t: "t = CHR ''+'' # t'"
  shows "iso_fraction a @ t < iso_fraction b @ t \<longleftrightarrow> a < b"
proof -
  have p: "padn 6 a @ t < padn 6 b @ t \<longleftrightarrow> a < b"
    using assms by (simp add: append_less_same_length padn_less padn_eq)
  show ?thesis
    using p by (auto simp: iso_fraction_def t less_char_def)
qed

lemma days_in_month_le: "days_in_month y m \<le> 31"
  by (simp add: days_in_month_def)

lemma valid_datetime_bounds:
  assumes "valid_datetime d"
  shows "dt_year d < 10 ^ 4" "dt_month d < 10 ^ 2" "dt_day d < 10 ^ 2" "dt_hour d < 10 ^ 2"
    "dt_minute d < 10 ^ 2" "dt_second d < 10 ^ 2" "dt_micro d < 1000000"
  using assms days_in_month_le [of "dt_year d" "dt_month d"] by (auto simp: valid_datetime_def)

lemma isoformat_less_iff:
  assumes "valid_datetime a" "valid_datetime b"
  shows "isoformat a < isoformat b \<longleftrightarrow> a < b"
proof -
  note ba = valid_datetime_bounds [OF assms(1)] and bb = valid_datetime_bounds [OF assms(2)]
  have frac: "iso_fraction (dt_micro a) @ ''+00:00'' < iso_fraction (dt_micro b) @ ''+00:00'' \<longleftrightarrow>
      dt_micro a < dt_micro b"
    by (rule iso_fraction_less [OF ba(7) bb(7)]) simp
  show ?thesis
    unfolding isoformat_def less_datetime_def dt_key_def pair_less_iff
    by (simp add: append_less_same_length frac
        padn_less [OF ba(1) bb(1)] padn_eq [OF ba(1) bb(1)]
        padn_less [OF ba(2) bb(2)] padn_eq [OF ba(2) bb(2)]
        padn_less [OF ba(3) bb(3)] padn_eq [OF ba(3) bb(3)]
        padn_less [OF ba(4) bb(4)] padn_eq [OF ba(4) bb(4)]
        padn_less [OF ba(5) bb(5)] padn_eq [OF ba(5) bb(5)]
        padn_less [OF ba(6) bb(6)] padn_eq [OF ba(6) bb(6)]
        del: power_Suc padn.simps)
qed

lemma isoformat_inject:
  assumes "valid_datetime a" "valid_datetime b"
  shows "isoformat a = isoformat b \<longleftrightarrow> a = b"
  using isoformat_less_iff [OF assms] isoformat_less_iff [OF assms(2,1)]
  by (metis linorder_less_linear less_irrefl)

lemma isoformat_le_iff:
  assumes "valid_datetime a" "valid_datetime b"
  shows "isoformat a \<le> isoformat b \<longleftrightarrow> a \<le> b"
  using isoformat_less_iff [OF assms] isoformat_inject [OF assms] by (auto simp: le_less)

lemma length_isoformat:
  "length (isoformat d) = (if dt_micro d = 0 then 25 else 32)"
  by (simp add: isoformat_def iso_fraction_def)

section \<open>Reading the text form back\<close>

lemma num_val_append: "num_val (xs @ [c]) = 10 * num_val xs + digit_val c"
  by (simp add: num_val_def)

lemma num_val_padn: "n < 10 ^ k \<Longrightarrow> num_val (padn k n) = n"
proof (induction k arbitrary: n)
  case 0
  then show ?case by (simp add: num_val_def)
next
  case (Suc k)
  then have "n div 10 < 10 ^ k" by auto
  then show ?case by (simp add: num_val_append Suc.IH)
qed

lemma all_digits_padn: "list_all is_digit (padn k n)"
  by (induction k arbitrary: n) auto

lemma field_padn:
  assumes "n < 10 ^ k" "length pre = i"
  shows "field i k (pre @ padn k n @ post) = Some n"
  using assms by (simp add: field_def Let_def num_val_padn all_digits_padn)

lemma isoformat_fields:
  assumes "valid_datetime d"
  shows "field 0 4 (isoformat d) = Some (dt_year d)"
    "field 5 2 (isoformat d) = Some (dt_month d)"
    "field 8 2 (isoformat d) = Some (dt_day d)"
    "field 11 2 (isoformat d) = Some (dt_hour d)"
    "field 14 2 (isoformat d) = Some (dt_minute d)"
    "field 17 2 (isoformat d) = Some (dt_second d)"
    "dt_micro d \<noteq> 0 \<Longrightarrow> field 20 6 (isoformat d) = Some (dt_micro d)"
proof -
  let ?y = "padn 4 (dt_year d)" and ?mo = "padn 2 (dt_month d)" and ?dd = "padn 2 (dt_day d)"
    and ?h = "padn 2 (dt_hour d)" and ?mi = "padn 2 (dt_minute d)" and ?s = "padn 2 (dt_second d)"
  note b = valid_datetime_bounds [OF assms]
  show "field 0 4 (isoformat d) = Some (dt_year d)"
    using field_padn [OF b(1), of "[]" 0] by (simp add: isoformat_def del: power_Suc)
  show "field 5 2 (isoformat d) = Some (dt_month d)"
    using field_padn [OF b(2), of "?y @ ''-''" 5] by (simp add: isoformat_def del: padn.simps)
  show "field 8 2 (isoformat d) = Some (dt_day d)"
    using field_padn [OF b(3), of "?y @ ''-'' @ ?mo @ ''-''" 8]
    by (simp add: isoformat_def del: padn.simps)
  show "field 11 2 (isoformat d) = Some (dt_hour d)"
    using field_padn [OF b(4), of "?y @ ''-'' @ ?mo @ ''-'' @ ?dd @ ''T''" 11]
    by (simp add: isoformat_def del: padn.simps)
  show "field 14 2 (isoformat d) = Some (dt_minute d)"
    using field_padn [OF b(5), of "?y @ ''-'' @ ?mo @ ''-'' @ ?dd @ ''T'' @ ?h @ '':''" 14]
    by (simp add: isoformat_def del: padn.simps)
  show "field 17 2 (isoformat d) = Some (dt_second d)"
    using field_padn [OF b(6), of "?y @ ''-'' @ ?mo @ ''-'' @ ?dd @ ''T'' @ ?h @ '':'' @ ?mi @ '':''" 17]
    by (simp add: isoformat_def del: padn.simps)
  have b7: "dt_micro d < 10 ^ 6" using b(7) by simp
  show "field 20 6 (isoformat d) = Some (dt_micro d)" if "dt_micro d \<noteq> 0"
    using that field_padn [OF b7,
        of "?y @ ''-'' @ ?mo @ ''-'' @ ?dd @ ''T'' @ ?h @ '':'' @ ?mi @ '':'' @ ?s @ ''.''" 20]
    by (simp add: isoformat_def iso_fraction_def del: padn.simps)
qed

lemma sep_at_append: "length pre = i \<Longrightarrow> sep_at i c (pre @ c # post)"
  by (auto simp: sep_at_def nth_append)

lemma isoformat_seps:
  "sep_at 4 CHR ''-'' (isoformat d)" "sep_at 7 CHR ''-'' (isoformat d)"
  "sep_at 10 CHR ''T'' (isoformat d)" "sep_at 13 CHR '':'' (isoformat d)"
  "sep_at 16 CHR '':'' (isoformat d)"
  "dt_micro d \<noteq> 0 \<Longrightarrow> sep_at 19 CHR ''.'' (isoformat d)"
  by (simp_all add: sep_at_def isoformat_def iso_fraction_def nth_append nth_Cons'
      del: padn.simps)

lemma isoformat_tail:
  "dt_micro d = 0 \<Longrightarrow> drop 19 (isoformat d) = ''+00:00''"
  "dt_micro d \<noteq> 0 \<Longrightarrow> drop 19 (isoformat d) \<noteq> ''+00:00''"
  "dt_micro d \<noteq> 0 \<Longrightarrow> drop 26 (isoformat d) = ''+00:00''"
  by (simp_all add: isoformat_def iso_fraction_def drop_Cons' del: padn.simps)

lemma fromisoformat_isoformat:
  assumes "valid_datetime d"
  shows "fromisoformat_utc (isoformat d) = Some d"
proof -
  have d: "Datetime (dt_year d) (dt_month d) (dt_day d) (dt_hour d) (dt_minute d) (dt_second d)
      (dt_micro d) = d" by simp
  show ?thesis
  proof (cases "dt_micro d = 0")
    case True
    with d assms show ?thesis
      by (simp add: fromisoformat_utc_def isoformat_seps isoformat_fields [OF assms] isoformat_tail
          Let_def)
  next
    case False
    with d assms show ?thesis
      by (simp add: fromisoformat_utc_def isoformat_seps isoformat_fields [OF assms] isoformat_tail
          Let_def)
  qed
qed

lemma fromisoformat_valid: "fromisoformat_utc s = Some d \<Longrightarrow> valid_datetime d"
  by (auto simp: fromisoformat_utc_def Let_def split: option.splits if_splits)

section \<open>The time line\<close>

text \<open>
  Days before a year and before a month, and the proleptic Gregorian ordinal,
  as \<^verbatim>\<open>datetime.toordinal\<close> computes them.
\<close>

definition days_before_year :: "nat \<Rightarrow> int" where
  "days_before_year y = (let p = int y - 1 in p * 365 + p div 4 - p div 100 + p div 400)"

definition days_before_month :: "nat \<Rightarrow> nat \<Rightarrow> int" where
  "days_before_month y m =
     [0, 31, 59, 90, 120, 151, 181, 212, 243, 273, 304, 334] ! (m - 1) +
     (if 2 < m \<and> is_leap y then 1 else 0)"

definition toordinal :: "datetime \<Rightarrow> int" where
  "toordinal d = days_before_year (dt_year d) + days_before_month (dt_year d) (dt_month d) +
     int (dt_day d)"

definition day_micros :: "datetime \<Rightarrow> int" where
  "day_micros d = ((int (dt_hour d) * 60 + int (dt_minute d)) * 60 + int (dt_second d)) * 1000000 +
     int (dt_micro d)"

definition to_micros :: "datetime \<Rightarrow> int" where
  "to_micros d = toordinal d * 86400000000 + day_micros d"

text \<open>The difference of two aware datetimes, in microseconds (\<^verbatim>\<open>timedelta\<close>).\<close>

definition dt_minus :: "datetime \<Rightarrow> datetime \<Rightarrow> int" where
  "dt_minus a b = to_micros a - to_micros b"

definition seconds :: "int \<Rightarrow> int" where
  "seconds n = n * 1000000"

lemma month_cases:
  assumes "1 \<le> m" "m \<le> (12 :: nat)"
  shows "m = 1 \<or> m = 2 \<or> m = 3 \<or> m = 4 \<or> m = 5 \<or> m = 6 \<or> m = 7 \<or> m = 8 \<or> m = 9 \<or> m = 10 \<or>
    m = 11 \<or> m = 12"
  using assms by arith

lemma days_before_month_step:
  assumes "1 \<le> m" "m < 12"
  shows "days_before_month y (Suc m) = days_before_month y m + int (days_in_month y m)"
  using month_cases [of m] assms
  by (auto simp: days_before_month_def days_in_month_def nth_Cons')

lemma days_before_month_mono:
  assumes "1 \<le> m" "m < m'" "m' \<le> 12"
  shows "days_before_month y m + int (days_in_month y m) \<le> days_before_month y m'"
  using assms(2,1,3)
proof (induction rule: less_Suc_induct)
  case (1 i)
  then show ?case by (simp add: days_before_month_step)
next
  case (2 i j k)
  then have "days_before_month y i + int (days_in_month y i) \<le> days_before_month y j"
    "days_before_month y j + int (days_in_month y j) \<le> days_before_month y k" by auto
  then show ?case by linarith
qed

lemma days_before_month_bounds:
  assumes "1 \<le> m" "m \<le> 12"
  shows "0 \<le> days_before_month y m"
    "days_before_month y m + int (days_in_month y m) \<le> 365 + (if is_leap y then 1 else 0)"
  using month_cases [OF assms]
  by (auto simp: days_before_month_def days_in_month_def nth_Cons')

lemma div_Suc_step:
  "0 < k \<Longrightarrow> int (Suc n div k) - int (n div k) = (if Suc n mod k = 0 then 1 else 0)"
  by (simp add: div_Suc)

lemma days_before_year_step:
  assumes "1 \<le> y"
  shows "days_before_year (Suc y) = days_before_year y + 365 + (if is_leap y then 1 else 0)"
proof -
  obtain n where n: "y = Suc n" using assms by (cases y) auto
  have d: "int y div 4 - int n div 4 = (if y mod 4 = 0 then 1 else 0)"
    "int y div 100 - int n div 100 = (if y mod 100 = 0 then 1 else 0)"
    "int y div 400 - int n div 400 = (if y mod 400 = 0 then 1 else 0)"
    using div_Suc_step [of 4 n, unfolded zdiv_int of_nat_numeral]
      div_Suc_step [of 100 n, unfolded zdiv_int of_nat_numeral]
      div_Suc_step [of 400 n, unfolded zdiv_int of_nat_numeral]
    unfolding n by (simp_all only: zero_less_numeral)
  have "y mod 400 = 0 \<Longrightarrow> y mod 100 = 0" "y mod 100 = 0 \<Longrightarrow> y mod 4 = 0"
    using dvd_trans [of 100 400 y] dvd_trans [of 4 100 y] by (simp_all add: mod_eq_0_iff_dvd)
  then have "int y div 4 - int n div 4 - (int y div 100 - int n div 100) +
      (int y div 400 - int n div 400) = (if is_leap y then 1 else 0)"
    unfolding d is_leap_def by auto
  then show ?thesis
    using n by (simp add: days_before_year_def Let_def)
qed

lemma days_before_year_mono:
  assumes "1 \<le> y" "y < y'"
  shows "days_before_year y + 365 + (if is_leap y then 1 else 0) \<le> days_before_year y'"
  using assms(2,1)
proof (induction rule: less_Suc_induct)
  case (1 i)
  then show ?case by (simp add: days_before_year_step)
next
  case (2 i j k)
  then have "days_before_year i + 365 + (if is_leap i then 1 else 0) \<le> days_before_year j"
    "days_before_year j + 365 + (if is_leap j then 1 else 0) \<le> days_before_year k" by auto
  then show ?case by (auto split: if_splits)
qed

lemma toordinal_mono:
  assumes a: "valid_datetime a" and b: "valid_datetime b"
    and lt: "(dt_year a, dt_month a, dt_day a) < (dt_year b, dt_month b, dt_day b)"
  shows "toordinal a < toordinal b"
proof -
  have va: "1 \<le> dt_year a" "1 \<le> dt_month a" "dt_month a \<le> 12"
    "dt_day a \<le> days_in_month (dt_year a) (dt_month a)"
    and vb: "1 \<le> dt_month b" "dt_month b \<le> 12" "1 \<le> dt_day b"
    using a b by (auto simp: valid_datetime_def)
  note ma = days_before_month_bounds [OF va(2,3), of "dt_year a"]
  note mb = days_before_month_bounds [OF vb(1,2), of "dt_year b"]
  consider (year) "dt_year a < dt_year b"
    | (month) "dt_year a = dt_year b" "dt_month a < dt_month b"
    | (day) "dt_year a = dt_year b" "dt_month a = dt_month b" "dt_day a < dt_day b"
    using lt by (auto simp: less_prod_def le_less)
  then show ?thesis
  proof cases
    case year
    then show ?thesis
      using days_before_year_mono [OF va(1) year] ma mb va(4) vb(3)
      unfolding toordinal_def by linarith
  next
    case month
    then show ?thesis
      using days_before_month_mono [OF va(2) month(2) vb(2), of "dt_year a"] va(4) vb(3)
      unfolding toordinal_def by auto
  next
    case day
    then show ?thesis by (simp add: toordinal_def)
  qed
qed

lemma day_micros_bounds:
  assumes "valid_datetime d"
  shows "0 \<le> day_micros d" "day_micros d < 86400000000"
  using assms by (auto simp: valid_datetime_def day_micros_def)

lemma day_micros_mono:
  assumes "valid_datetime a" "valid_datetime b"
    and lt: "(dt_hour a, dt_minute a, dt_second a, dt_micro a) <
      (dt_hour b, dt_minute b, dt_second b, dt_micro b)"
  shows "day_micros a < day_micros b"
proof -
  have bounds: "int (dt_minute a) \<le> 59" "int (dt_second a) \<le> 59" "int (dt_micro a) \<le> 999999"
    using assms(1) by (auto simp: valid_datetime_def)
  consider (hour) "int (dt_hour a) < int (dt_hour b)"
    | (minute) "dt_hour a = dt_hour b" "int (dt_minute a) < int (dt_minute b)"
    | (second) "dt_hour a = dt_hour b" "dt_minute a = dt_minute b"
        "int (dt_second a) < int (dt_second b)"
    | (micro) "dt_hour a = dt_hour b" "dt_minute a = dt_minute b" "dt_second a = dt_second b"
        "int (dt_micro a) < int (dt_micro b)"
    using lt by (auto simp: less_prod_def le_less)
  then show ?thesis
    using bounds of_nat_0_le_iff [of "dt_minute b", where ?'a = int]
      of_nat_0_le_iff [of "dt_second b", where ?'a = int]
      of_nat_0_le_iff [of "dt_micro b", where ?'a = int]
    unfolding day_micros_def by cases simp_all
qed

lemma to_micros_mono:
  assumes "valid_datetime a" "valid_datetime b" "a < b"
  shows "to_micros a < to_micros b"
proof (cases "(dt_year a, dt_month a, dt_day a) = (dt_year b, dt_month b, dt_day b)")
  case True
  then have "toordinal a = toordinal b" by (simp add: toordinal_def)
  moreover have "day_micros a < day_micros b"
    by (rule day_micros_mono [OF assms(1,2)])
      (use assms(3) True in \<open>auto simp: less_datetime_def dt_key_def less_prod_def\<close>)
  ultimately show ?thesis by (simp add: to_micros_def)
next
  case False
  then have "(dt_year a, dt_month a, dt_day a) < (dt_year b, dt_month b, dt_day b)"
    using assms(3) by (auto simp: less_datetime_def dt_key_def less_prod_def)
  then have "toordinal a + 1 \<le> toordinal b"
    using toordinal_mono [OF assms(1,2)] by simp
  then show ?thesis
    using day_micros_bounds [OF assms(1)] day_micros_bounds [OF assms(2)]
    unfolding to_micros_def by linarith
qed

lemma to_micros_less_iff:
  assumes "valid_datetime a" "valid_datetime b"
  shows "to_micros a < to_micros b \<longleftrightarrow> a < b"
  using to_micros_mono [OF assms] to_micros_mono [OF assms(2,1)]
  by (metis less_asym linorder_less_linear less_irrefl)

section \<open>Texts from outside\<close>

text \<open>
  \<^verbatim>\<open>s.replace("Z", "+00:00")\<close>, and the instant of a parsed text.  The general
  grammar of \<^verbatim>\<open>datetime.fromisoformat\<close> is CPython's: the functions that read texts
  written by others take the parser as an argument.  A parser gives the wall-clock
  time in microseconds and the UTC offset, which is absent for a naive value; a naive
  value is taken as UTC (\<^verbatim>\<open>dt.replace(tzinfo=UTC)\<close>).
\<close>

type_synonym iso_parser = "string \<Rightarrow> (int \<times> int option) option"

definition replace_z :: "string \<Rightarrow> string" where
  "replace_z s = concat (map (\<lambda>c. if c = CHR ''Z'' then ''+00:00'' else [c]) s)"

definition parse_instant :: "iso_parser \<Rightarrow> string \<Rightarrow> int option" where
  "parse_instant rd s = map_option
     (\<lambda>(wall, off). wall - (case off of None \<Rightarrow> 0 | Some d \<Rightarrow> d)) (rd (replace_z s))"

text \<open>\<^verbatim>\<open>datetime.timestamp()\<close>: seconds since 1970-01-01T00:00:00Z, the nearest binary64 value.\<close>

definition micros_timestamp :: "int \<Rightarrow> rat" where
  "micros_timestamp n = nearest53 (of_int (n - to_micros (Datetime 1970 1 1 0 0 0 0)) / 1000000)"

definition timestamp :: "datetime \<Rightarrow> rat" where
  "timestamp d = micros_timestamp (to_micros d)"

text \<open>The parser on the texts \<^verbatim>\<open>isoformat\<close> produces for aware UTC values.\<close>

definition iso_utc :: iso_parser where
  "iso_utc s = map_option (\<lambda>d. (to_micros d, Some 0)) (fromisoformat_utc s)"

end
