(* ===== verification/Digest.thy ===== *)
theory Digest
  imports Prelude "HOL-Library.Word"
begin

unbundle bit_operations_syntax

text \<open>
  The digests of the program: \<^verbatim>\<open>hashlib.sha256\<close> and \<^verbatim>\<open>hmac.new(..., sha256)\<close> as
  executable functions on byte strings, UTF-8 encoding, and the
  length-prefixed identity digest of \<^verbatim>\<open>schemas/alert_candidate.py\<close> and
  \<^verbatim>\<open>alerts/correlation_engine.py\<close>.  A byte string is a \<^typ>\<open>string\<close>.  The main
  result is that the message fed to the hash determines the identity parts, so
  two distinct identities can only share a digest through a SHA-256 collision.
\<close>

section \<open>SHA-256 and HMAC\<close>

type_synonym w32 = "32 word"

definition rotr32 :: "nat \<Rightarrow> w32 \<Rightarrow> w32" where
  "rotr32 n x = drop_bit n x OR push_bit (32 - n) x"

definition sha_k :: "w32 list" where
  "sha_k = [
    1116352408, 1899447441, 3049323471, 3921009573, 961987163, 1508970993, 2453635748, 2870763221,
    3624381080, 310598401, 607225278, 1426881987, 1925078388, 2162078206, 2614888103, 3248222580,
    3835390401, 4022224774, 264347078, 604807628, 770255983, 1249150122, 1555081692, 1996064986,
    2554220882, 2821834349, 2952996808, 3210313671, 3336571891, 3584528711, 113926993, 338241895,
    666307205, 773529912, 1294757372, 1396182291, 1695183700, 1986661051, 2177026350, 2456956037,
    2730485921, 2820302411, 3259730800, 3345764771, 3516065817, 3600352804, 4094571909, 275423344,
    430227734, 506948616, 659060556, 883997877, 958139571, 1322822218, 1537002063, 1747873779,
    1955562222, 2024104815, 2227730452, 2361852424, 2428436474, 2756734187, 3204031479, 3329325298]"

definition sha_h0 :: "w32 list" where
  "sha_h0 = [1779033703, 3144134277, 1013904242, 2773480762,
             1359893119, 2600822924, 528734635, 1541459225]"

fun be_bytes :: "nat \<Rightarrow> nat \<Rightarrow> string" where
  "be_bytes 0 n = []"
| "be_bytes (Suc k) n = be_bytes k (n div 256) @ [char_of n]"

definition be_word :: "string \<Rightarrow> w32" where
  "be_word bs = foldl (\<lambda>w c. w * 256 + word_of_nat (of_char c)) 0 bs"

fun chunks :: "nat \<Rightarrow> 'a list \<Rightarrow> 'a list list" where
  "chunks n xs = (if xs = [] \<or> n = 0 then [] else take n xs # chunks n (drop n xs))"

declare chunks.simps [simp del]

definition sha_pad :: "string \<Rightarrow> string" where
  "sha_pad m = m @ [char_of (128 :: nat)] @
     replicate ((119 - length m mod 64) mod 64) (char_of (0 :: nat)) @ be_bytes 8 (8 * length m)"

fun sha_schedule :: "nat \<Rightarrow> w32 list \<Rightarrow> w32 list" where
  "sha_schedule 0 w = w"
| "sha_schedule (Suc n) w =
     (let t = length w;
          a = w ! (t - 15); s0 = rotr32 7 a XOR rotr32 18 a XOR drop_bit 3 a;
          b = w ! (t - 2); s1 = rotr32 17 b XOR rotr32 19 b XOR drop_bit 10 b
      in sha_schedule n (w @ [w ! (t - 16) + s0 + w ! (t - 7) + s1]))"

definition sha_round :: "w32 list \<Rightarrow> w32 \<times> w32 \<Rightarrow> w32 list" where
  "sha_round s kw = (case s of [a, b, c, d, e, f, g, h] \<Rightarrow>
     (let s1 = rotr32 6 e XOR rotr32 11 e XOR rotr32 25 e;
          ch = (e AND f) XOR (NOT e AND g);
          t1 = h + s1 + ch + fst kw + snd kw;
          s0 = rotr32 2 a XOR rotr32 13 a XOR rotr32 22 a;
          maj = (a AND b) XOR (a AND c) XOR (b AND c)
      in [t1 + s0 + maj, a, b, c, d + t1, e, f, g])
    | _ \<Rightarrow> s)"

definition sha_block :: "w32 list \<Rightarrow> string \<Rightarrow> w32 list" where
  "sha_block h b = (let w = sha_schedule 48 (map be_word (chunks 4 b))
     in map2 (+) h (foldl sha_round h (zip sha_k w)))"

definition sha256 :: "string \<Rightarrow> string" where
  "sha256 m = concat (map (\<lambda>w. be_bytes 4 (unat w)) (foldl sha_block sha_h0 (chunks 64 (sha_pad m))))"

definition hex_digit :: "nat \<Rightarrow> char" where
  "hex_digit n = (if n < 10 then char_of (48 + n) else char_of (87 + n))"

definition hexlify :: "string \<Rightarrow> string" where
  "hexlify bs = concat (map (\<lambda>c. let n = of_char c :: nat in [hex_digit (n div 16), hex_digit (n mod 16)]) bs)"

definition sha256_hex :: "string \<Rightarrow> string" where
  "sha256_hex m = hexlify (sha256 m)"

definition xor_pad :: "nat \<Rightarrow> string \<Rightarrow> string" where
  "xor_pad p k = map (\<lambda>c. char_of (of_char c XOR p :: nat)) (k @ replicate (64 - length k) (char_of (0 :: nat)))"

definition hmac_sha256 :: "string \<Rightarrow> string \<Rightarrow> string" where
  "hmac_sha256 key m = (let k = (if 64 < length key then sha256 key else key)
     in sha256 (xor_pad 0x5c k @ sha256 (xor_pad 0x36 k @ m)))"

definition hmac_sha256_hex :: "string \<Rightarrow> string \<Rightarrow> string" where
  "hmac_sha256_hex key m = hexlify (hmac_sha256 key m)"

lemma length_be_bytes [simp]: "length (be_bytes k n) = k"
  by (induction k arbitrary: n) auto

lemma of_char_bound: "of_char c < (256 :: nat)"
  by (rule nat_of_char_less_256)

lemma length_sha_round: "length s = 8 \<Longrightarrow> length (sha_round s kw) = 8"
  by (auto simp: sha_round_def Let_def split: list.splits)

lemma length_sha_rounds: "length s = 8 \<Longrightarrow> length (foldl sha_round s kws) = 8"
  by (induction kws arbitrary: s) (auto simp: length_sha_round)

lemma length_sha_block: "length h = 8 \<Longrightarrow> length (sha_block h b) = 8"
  by (simp add: sha_block_def Let_def length_sha_rounds)

lemma length_sha_blocks: "length h = 8 \<Longrightarrow> length (foldl sha_block h bs) = 8"
  by (induction bs arbitrary: h) (auto simp: length_sha_block)

lemma length_sha256: "length (sha256 m) = 32"
proof -
  have "length (foldl sha_block sha_h0 (chunks 64 (sha_pad m))) = 8"
    by (rule length_sha_blocks) (simp add: sha_h0_def)
  then show ?thesis
    by (simp add: sha256_def length_concat comp_def sum_list_triv)
qed

lemma length_hexlify: "length (hexlify bs) = 2 * length bs"
  by (induction bs) (auto simp: hexlify_def Let_def)

lemma is_lower_hex_digit:
  assumes "n < 16"
  shows "is_lower_hex (hex_digit n)"
proof -
  have "n \<in> set [0..<16]" using assms by simp
  moreover have "\<forall>n \<in> set [0..<16]. is_lower_hex (hex_digit n)" by code_simp
  ultimately show ?thesis by blast
qed

lemma hexlify_hex: "list_all is_lower_hex (hexlify bs)"
proof (induction bs)
  case Nil
  then show ?case by (simp add: hexlify_def)
next
  case (Cons c bs)
  have "of_char c < (256 :: nat)" by (rule of_char_bound)
  then have "of_char c div 16 < (16 :: nat)" by (simp add: less_mult_imp_div_less)
  with Cons show ?case
    by (simp add: hexlify_def Let_def is_lower_hex_digit)
qed

lemma sha256_hex_shape [simp]: "is_sha256 (sha256_hex m)"
  by (simp add: is_sha256_def sha256_hex_def length_hexlify length_sha256 hexlify_hex)

lemma hmac_shape [simp]: "is_sha256 (hmac_sha256_hex k m)"
  by (simp add: is_sha256_def hmac_sha256_hex_def hmac_sha256_def Let_def length_hexlify length_sha256 hexlify_hex)

section \<open>UTF-8\<close>

definition utf8_char :: "char \<Rightarrow> string" where
  "utf8_char c = (let n = of_char c :: nat in
     if n < 128 then [c] else [char_of (192 + n div 64), char_of (128 + n mod 64)])"

definition utf8 :: "string \<Rightarrow> string" where
  "utf8 s = concat (map utf8_char s)"

lemma utf8_Nil [simp]: "utf8 [] = []"
  by (simp add: utf8_def)

lemma utf8_Cons [simp]: "utf8 (c # s) = utf8_char c @ utf8 s"
  by (simp add: utf8_def)

lemma utf8_char_neq_Nil [simp]: "utf8_char c \<noteq> []"
  by (simp add: utf8_char_def Let_def)

lemma utf8_ascii: "\<forall>c \<in> set s. of_char c < (128 :: nat) \<Longrightarrow> utf8 s = s"
  by (induction s) (auto simp: utf8_char_def Let_def)

lemma of_char_small: "n < 256 \<Longrightarrow> (of_char (char_of n :: char) :: nat) = n"
  by (simp only: of_char_of) simp

lemma utf8_char_prefix_free:
  assumes "utf8_char c @ xs = utf8_char d @ ys"
  shows "c = d \<and> xs = ys"
proof -
  let ?c = "of_char c :: nat" and ?d = "of_char d :: nat"
  have b: "?c < 256" "?d < 256" by (rule of_char_bound)+
  have q: "?c div 64 < 4" "?d div 64 < 4" using b by linarith+
  have hi: "(of_char (char_of (192 + m) :: char) :: nat) = 192 + m" if "m < 4" for m
    by (rule of_char_small) (use that in simp)
  have lo: "(of_char (char_of (128 + m mod 64) :: char) :: nat) = 128 + m mod 64" for m
  proof (rule of_char_small)
    have "m mod 64 < 64" by simp
    then show "128 + m mod 64 < 256" by linarith
  qed
  have eq: "c = d" if "?c = ?d" using that by (metis char_of_char)
  show ?thesis
  proof (cases "?c < 128"; cases "?d < 128")
    assume "?c < 128" "?d < 128"
    with assms show ?thesis by (simp add: utf8_char_def Let_def)
  next
    assume a: "?c < 128" "\<not> ?d < 128"
    with assms have "?c = of_char (char_of (192 + ?d div 64) :: char)"
      by (simp add: utf8_char_def Let_def)
    with hi [OF q(2)] a(1) show ?thesis by simp
  next
    assume a: "\<not> ?c < 128" "?d < 128"
    with assms have "of_char (char_of (192 + ?c div 64) :: char) = ?d"
      by (auto simp: utf8_char_def Let_def)
    with hi [OF q(1)] a(2) show ?thesis by simp
  next
    assume a: "\<not> ?c < 128" "\<not> ?d < 128"
    with assms have "(char_of (192 + ?c div 64) :: char) = char_of (192 + ?d div 64)"
      "(char_of (128 + ?c mod 64) :: char) = char_of (128 + ?d mod 64)" "xs = ys"
      by (auto simp: utf8_char_def Let_def)
    then have "192 + ?c div 64 = 192 + ?d div 64" "128 + ?c mod 64 = 128 + ?d mod 64"
      using hi [OF q(1)] hi [OF q(2)] lo [of ?c] lo [of ?d] by metis+
    then have "?c = ?d" by (metis add_left_cancel div_mult_mod_eq)
    with eq \<open>xs = ys\<close> show ?thesis by blast
  qed
qed

lemma utf8_inject [simp]: "utf8 s = utf8 t \<longleftrightarrow> s = t"
proof
  assume "utf8 s = utf8 t"
  then show "s = t"
  proof (induction s arbitrary: t)
    case Nil
    then show ?case by (cases t) auto
  next
    case (Cons c s)
    then show ?case
      by (cases t) (auto dest: utf8_char_prefix_free)
  qed
qed simp

section \<open>Identity digest\<close>

text \<open>\<^verbatim>\<open>_identity_digest\<close>: the domain, a zero byte, then each part with its length.\<close>

definition identity_message :: "string \<Rightarrow> string list \<Rightarrow> string" where
  "identity_message domain parts =
     domain @ [char_of (0 :: nat)] @ concat (map (\<lambda>p. be_bytes 4 (length (utf8 p)) @ utf8 p) parts)"

definition identity_digest :: "string \<Rightarrow> string list \<Rightarrow> string" where
  "identity_digest domain parts = sha256_hex (identity_message domain parts)"

lemma char_of_eq_mod: "(char_of (m :: nat) :: char) = char_of n \<longleftrightarrow> m mod 256 = n mod 256"
  by (metis char_of_mod_256 of_char_of)

lemma be_bytes_inject:
  "m < 256 ^ k \<Longrightarrow> n < 256 ^ k \<Longrightarrow> be_bytes k m = be_bytes k n \<longleftrightarrow> m = n"
proof (induction k arbitrary: m n)
  case 0
  then show ?case by simp
next
  case (Suc k)
  then have "m div 256 < 256 ^ k" "n div 256 < 256 ^ k"
    by (auto simp: less_mult_imp_div_less mult.commute)
  then have "be_bytes (Suc k) m = be_bytes (Suc k) n \<longleftrightarrow>
      m div 256 = n div 256 \<and> m mod 256 = n mod 256"
    by (simp add: Suc.IH char_of_eq_mod)
  then show ?case by (metis div_mult_mod_eq)
qed

lemma be_bytes_4_neq_Nil [simp]: "be_bytes 4 n \<noteq> []"
  using length_be_bytes [of 4 n] by (metis list.size(3) zero_neq_numeral)

text \<open>\<^verbatim>\<open>struct.pack(">I", n)\<close> takes lengths below 2 to the 32.\<close>

definition part_fits :: "string \<Rightarrow> bool" where
  "part_fits p \<longleftrightarrow> length (utf8 p) < 256 ^ 4"

lemma framed_parts_inject:
  assumes "\<forall>p \<in> set ps. part_fits p" "\<forall>q \<in> set qs. part_fits q"
    and "concat (map (\<lambda>p. be_bytes 4 (length (utf8 p)) @ utf8 p) ps) =
         concat (map (\<lambda>p. be_bytes 4 (length (utf8 p)) @ utf8 p) qs)"
  shows "ps = qs"
  using assms
proof (induction ps arbitrary: qs)
  case Nil
  then show ?case by (cases qs) simp_all
next
  case (Cons p ps)
  obtain q qs' where qs: "qs = q # qs'"
    using Cons.prems(3) by (cases qs) simp_all
  let ?c = "\<lambda>ps. concat (map (\<lambda>p. be_bytes 4 (length (utf8 p)) @ utf8 p) ps)"
  have eq: "be_bytes 4 (length (utf8 p)) @ utf8 p @ ?c ps =
      be_bytes 4 (length (utf8 q)) @ utf8 q @ ?c qs'"
    using Cons.prems(3) by (simp add: qs)
  then have "be_bytes 4 (length (utf8 p)) = be_bytes 4 (length (utf8 q))"
    and rest: "utf8 p @ ?c ps = utf8 q @ ?c qs'"
    by (simp_all only: append_eq_append_conv length_be_bytes simp_thms)
  then have "length (utf8 p) = length (utf8 q)"
    using Cons.prems(1,2) be_bytes_inject [of "length (utf8 p)" 4 "length (utf8 q)"]
    by (simp add: qs part_fits_def)
  with rest have "p = q" "?c ps = ?c qs'" by (simp_all add: append_eq_append_conv)
  with Cons.IH [of qs'] Cons.prems(1,2) qs show ?case by auto
qed

lemma identity_message_inject:
  assumes "\<forall>p \<in> set ps. part_fits p" "\<forall>q \<in> set qs. part_fits q"
    and "identity_message d ps = identity_message d qs"
  shows "ps = qs"
  using framed_parts_inject [OF assms(1,2)] assms(3) by (simp add: identity_message_def)

lemma identity_digest_shape [simp]: "is_sha256 (identity_digest d ps)"
  by (simp add: identity_digest_def)

text \<open>A collision of the hash, as the only way two identities can share a digest.\<close>

definition sha256_collision :: "string \<Rightarrow> string \<Rightarrow> bool" where
  "sha256_collision m n \<longleftrightarrow> m \<noteq> n \<and> sha256_hex m = sha256_hex n"

lemma identity_digest_collision:
  assumes "\<forall>p \<in> set ps. part_fits p" "\<forall>q \<in> set qs. part_fits q"
    and "identity_digest d ps = identity_digest d qs" "ps \<noteq> qs"
  shows "sha256_collision (identity_message d ps) (identity_message d qs)"
  using identity_message_inject [OF assms(1,2)] assms(3,4)
  by (auto simp: sha256_collision_def identity_digest_def)

end
