(* ===== verification/Json.thy ===== *)
theory Json
  imports Prelude
begin

text \<open>
  Python's \<^verbatim>\<open>json\<close> module as the program uses it: \<^verbatim>\<open>json.dumps\<close> with sorted
  keys, compact separators and ASCII output, and \<^verbatim>\<open>json.loads\<close> with a hook that rejects duplicate
  keys and with the hooks for floats and constants as arguments: \<open>strict_hooks\<close> are those of
  \<^verbatim>\<open>api/producer_admission.py\<close> (\<^verbatim>\<open>NaN\<close>, \<^verbatim>\<open>Infinity\<close> and non-finite floats rejected), \<open>plain_hooks\<close>
  the defaults of the library.  Wire text is its UTF-8
  byte string.  The conversions between a float and its text are CPython's and
  are arguments of the functions (\<open>frepr\<close> for \<^verbatim>\<open>float.__repr__\<close>, \<open>fparse\<close> for
  \<^verbatim>\<open>float()\<close>).
\<close>

datatype json =
    JNull | JBool bool | JInt int | JFloat pyfloat | JStr string
  | JArr "json list" | JObj "(string \<times> json) list"

section \<open>Printing\<close>

definition hex4 :: "nat \<Rightarrow> string" where
  "hex4 n = map (\<lambda>d. if d < 10 then char_of (48 + d) else char_of (87 + d))
     [n div 4096 mod 16, n div 256 mod 16, n div 16 mod 16, n mod 16]"

definition esc_char :: "char \<Rightarrow> string" where
  "esc_char c = (let n = of_char c :: nat in
     if c = CHR 0x22 then [CHR 0x5C, CHR 0x22]
     else if c = CHR 0x5C then [CHR 0x5C, CHR 0x5C]
     else if n = 10 then CHR 0x5C # ''n''
     else if n = 13 then CHR 0x5C # ''r''
     else if n = 9 then CHR 0x5C # ''t''
     else if n = 12 then CHR 0x5C # ''f''
     else if n = 8 then CHR 0x5C # ''b''
     else if 32 \<le> n \<and> n \<le> 126 then [c]
     else CHR 0x5C # CHR ''u'' # hex4 n)"

definition quoted :: "string \<Rightarrow> string" where
  "quoted s = [CHR 0x22] @ concat (map esc_char s) @ [CHR 0x22]"

fun join :: "string \<Rightarrow> string list \<Rightarrow> string" where
  "join sep [] = []"
| "join sep [x] = x"
| "join sep (x # y # ys) = x @ sep @ join sep (y # ys)"

fun json_dumps :: "(pyfloat \<Rightarrow> string) \<Rightarrow> json \<Rightarrow> string" where
  "json_dumps frepr JNull = ''null''"
| "json_dumps frepr (JBool b) = (if b then ''true'' else ''false'')"
| "json_dumps frepr (JInt i) = dec_int i"
| "json_dumps frepr (JFloat x) = frepr x"
| "json_dumps frepr (JStr s) = quoted s"
| "json_dumps frepr (JArr xs) = ''['' @ join '','' (map (json_dumps frepr) xs) @ '']''"
| "json_dumps frepr (JObj kvs) = ''{'' @ join '',''
     (map (\<lambda>(k, t). quoted k @ '':'' @ t)
        (sort_key fst (map (\<lambda>(k, v). (k, json_dumps frepr v)) kvs))) @ ''}''"

text \<open>\<^verbatim>\<open>json.dumps(value)\<close> with its defaults: spaced separators, members in insertion order.\<close>

fun json_dumps_plain :: "(pyfloat \<Rightarrow> string) \<Rightarrow> json \<Rightarrow> string" where
  "json_dumps_plain frepr JNull = ''null''"
| "json_dumps_plain frepr (JBool b) = (if b then ''true'' else ''false'')"
| "json_dumps_plain frepr (JInt i) = dec_int i"
| "json_dumps_plain frepr (JFloat x) = frepr x"
| "json_dumps_plain frepr (JStr s) = quoted s"
| "json_dumps_plain frepr (JArr xs) = ''['' @ join '', '' (map (json_dumps_plain frepr) xs) @ '']''"
| "json_dumps_plain frepr (JObj kvs) = ''{'' @ join '', ''
     (map (\<lambda>(k, v). quoted k @ '': '' @ json_dumps_plain frepr v) kvs) @ ''}''"

section \<open>Parsing\<close>

definition json_ws :: "char \<Rightarrow> bool" where
  "json_ws c \<longleftrightarrow> c \<in> set [CHR '' '', CHR 0x09, CHR 0x0A, CHR 0x0D]"

definition skip_ws :: "string \<Rightarrow> string" where
  "skip_ws s = dropWhile json_ws s"

definition hex_val :: "char \<Rightarrow> nat option" where
  "hex_val c = (if is_digit c then Some (of_char c - 48)
     else if char_in CHR ''a'' CHR ''f'' c then Some (of_char c - 87)
     else if char_in CHR ''A'' CHR ''F'' c then Some (of_char c - 55)
     else None)"

fun hex4_val :: "string \<Rightarrow> (nat \<times> string) option" where
  "hex4_val (a # b # c # d # rest) =
     (case (hex_val a, hex_val b, hex_val c, hex_val d) of
        (Some p, Some q, Some r, Some t) \<Rightarrow> Some (((p * 16 + q) * 16 + r) * 16 + t, rest)
      | _ \<Rightarrow> None)"
| "hex4_val _ = None"

text \<open>UTF-8 bytes of a code point (lone surrogates keep their three-byte form).\<close>

definition code_point_bytes :: "nat \<Rightarrow> string" where
  "code_point_bytes n =
     (if n < 128 then [char_of n]
      else if n < 2048 then [char_of (192 + n div 64), char_of (128 + n mod 64)]
      else if n < 65536 then
        [char_of (224 + n div 4096), char_of (128 + n div 64 mod 64), char_of (128 + n mod 64)]
      else [char_of (240 + n div 262144), char_of (128 + n div 4096 mod 64),
            char_of (128 + n div 64 mod 64), char_of (128 + n mod 64)])"

definition simple_escape :: "char \<Rightarrow> char option" where
  "simple_escape c =
     (if c = CHR 0x22 \<or> c = CHR 0x5C \<or> c = CHR ''/'' then Some c
      else if c = CHR ''b'' then Some (CHR 0x08)
      else if c = CHR ''f'' then Some (CHR 0x0C)
      else if c = CHR ''n'' then Some (CHR 0x0A)
      else if c = CHR ''r'' then Some (CHR 0x0D)
      else if c = CHR ''t'' then Some (CHR 0x09)
      else None)"

text \<open>\<open>\\u\<close> escapes: a high surrogate followed by an escaped low surrogate is one code point.\<close>

definition unicode_escape :: "string \<Rightarrow> (string \<times> string) option" where
  "unicode_escape s = (case hex4_val s of None \<Rightarrow> None
     | Some (n, rest) \<Rightarrow>
        (if 0xD800 \<le> n \<and> n \<le> 0xDBFF \<and> take 2 rest = [CHR 0x5C, CHR ''u'']
         then (case hex4_val (drop 2 rest) of None \<Rightarrow> None
            | Some (m, rest') \<Rightarrow>
               (if 0xDC00 \<le> m \<and> m \<le> 0xDFFF
                then Some (code_point_bytes (0x10000 + (n - 0xD800) * 1024 + (m - 0xDC00)), rest')
                else Some (code_point_bytes n, rest)))
         else Some (code_point_bytes n, rest)))"

lemma hex4_val_length: "hex4_val s = Some (n, r) \<Longrightarrow> length r < length s"
  by (induction s rule: hex4_val.induct) (auto split: option.splits prod.splits)

lemma unicode_escape_length: "unicode_escape s = Some (b, r) \<Longrightarrow> length r < length s"
  by (auto simp: unicode_escape_def dest!: hex4_val_length split: option.splits if_splits)

text \<open>
  \<^verbatim>\<open>scanstring\<close> after the opening quote: the decoded bytes and what follows the
  closing quote.  Control characters are rejected (strict mode).
\<close>

function scan_string :: "string \<Rightarrow> (string \<times> string) option" where
  "scan_string [] = None"
| "scan_string (c # s) =
     (if c = CHR 0x22 then Some ([], s)
      else if c = CHR 0x5C then
        (case s of [] \<Rightarrow> None
         | e # t \<Rightarrow>
            (if e = CHR ''u'' then
               (case unicode_escape t of None \<Rightarrow> None
                | Some (b, r) \<Rightarrow> map_option (\<lambda>(x, y). (b @ x, y)) (scan_string r))
             else (case simple_escape e of None \<Rightarrow> None
                | Some d \<Rightarrow> map_option (\<lambda>(x, y). (d # x, y)) (scan_string t))))
      else if of_char c < (32 :: nat) then None
      else map_option (\<lambda>(x, y). (c # x, y)) (scan_string s))"
  by pat_completeness auto
termination
  by (relation "measure length") (auto dest: unicode_escape_length)

text \<open>Numbers: the longest prefix of the JSON number grammar, split into its three parts.\<close>

definition span_digits :: "string \<Rightarrow> string \<times> string" where
  "span_digits s = (takeWhile is_digit s, dropWhile is_digit s)"

definition int_part :: "string \<Rightarrow> (string \<times> string) option" where
  "int_part s = (case s of [] \<Rightarrow> None
     | c # t \<Rightarrow> if c = CHR ''0'' then Some (''0'', t)
        else if is_digit c then Some (span_digits s) else None)"

definition frac_part :: "string \<Rightarrow> string \<times> string" where
  "frac_part s = (case s of [] \<Rightarrow> ([], [])
     | c # t \<Rightarrow> if c = CHR ''.'' \<and> t \<noteq> [] \<and> is_digit (hd t)
        then (c # takeWhile is_digit t, dropWhile is_digit t) else ([], s))"

definition exp_part :: "string \<Rightarrow> string \<times> string" where
  "exp_part s = (case s of [] \<Rightarrow> ([], [])
     | c # t \<Rightarrow> if c = CHR ''e'' \<or> c = CHR ''E'' then
         (let sg = (case t of [] \<Rightarrow> [] | d # _ \<Rightarrow> if d = CHR ''+'' \<or> d = CHR ''-'' then [d] else []);
              u = drop (length sg) t
          in if u \<noteq> [] \<and> is_digit (hd u)
             then (c # sg @ takeWhile is_digit u, dropWhile is_digit u) else ([], s))
       else ([], s))"

definition nat_of_dec :: "string \<Rightarrow> nat" where
  "nat_of_dec = foldl (\<lambda>n c. 10 * n + (of_char c - 48)) 0"

text \<open>The hooks: \<^verbatim>\<open>parse_float\<close>, and whether \<^verbatim>\<open>parse_constant\<close> accepts; \<^verbatim>\<open>_finite_float\<close> refuses non-finite values.\<close>

record json_hooks =
  hk_float :: "string \<Rightarrow> pyfloat option"
  hk_constants :: bool

definition strict_hooks :: "(string \<Rightarrow> pyfloat) \<Rightarrow> json_hooks" where
  "strict_hooks fparse =
     \<lparr>hk_float = (\<lambda>s. if is_finite (fparse s) then Some (fparse s) else None), hk_constants = False\<rparr>"

definition plain_hooks :: "(string \<Rightarrow> pyfloat) \<Rightarrow> json_hooks" where
  "plain_hooks fparse = \<lparr>hk_float = (\<lambda>s. Some (fparse s)), hk_constants = True\<rparr>"

definition scan_constant :: "string \<Rightarrow> (json \<times> string) option" where
  "scan_constant s =
     (if take 3 s = ''NaN'' then Some (JFloat NaN, drop 3 s)
      else if take 8 s = ''Infinity'' then Some (JFloat PosInf, drop 8 s)
      else if take 9 s = ''-Infinity'' then Some (JFloat NegInf, drop 9 s)
      else None)"

text \<open>\<^verbatim>\<open>int()\<close> refuses more than 4300 digits.\<close>

definition scan_number :: "json_hooks \<Rightarrow> string \<Rightarrow> (json \<times> string) option" where
  "scan_number hk s =
     (let neg = (case s of [] \<Rightarrow> False | c # _ \<Rightarrow> c = CHR ''-'');
          body = (if neg then tl s else s)
      in case int_part body of None \<Rightarrow> None
       | Some (ip, r1) \<Rightarrow>
          (let (fp, r2) = frac_part r1; (ep, r3) = exp_part r2
           in if fp = [] \<and> ep = [] then
                (if length ip \<le> 4300 then
                   Some (JInt (if neg then - int (nat_of_dec ip) else int (nat_of_dec ip)), r3)
                 else None)
              else map_option (\<lambda>x. (JFloat x, r3)) (hk_float hk ((if neg then ''-'' else []) @ ip @ fp @ ep))))"

text \<open>
  \<^verbatim>\<open>scan_once\<close>, \<^verbatim>\<open>JSONArray\<close> and \<^verbatim>\<open>JSONObject\<close>.  The fuel bounds the number of
  nested calls; \<open>json_loads_with\<close> passes one unit per input character, and each call
  consumes at least one character before the next.
\<close>

fun scan_once :: "json_hooks \<Rightarrow> nat \<Rightarrow> string \<Rightarrow> (json \<times> string) option"
  and scan_array :: "json_hooks \<Rightarrow> nat \<Rightarrow> string \<Rightarrow> (json list \<times> string) option"
  and scan_object :: "json_hooks \<Rightarrow> nat \<Rightarrow> string \<Rightarrow> ((string \<times> json) list \<times> string) option"
where
  "scan_once hk 0 s = None"
| "scan_once hk (Suc n) s =
     (case s of [] \<Rightarrow> None
      | c # t \<Rightarrow>
        if c = CHR 0x22 then map_option (\<lambda>(x, r). (JStr x, r)) (scan_string t)
        else if c = CHR ''{'' then
          (case skip_ws t of [] \<Rightarrow> None
           | d # u \<Rightarrow> if d = CHR ''}'' then Some (JObj [], u)
              else (case scan_object hk n (d # u) of None \<Rightarrow> None
                | Some (kvs, r) \<Rightarrow> if distinct (map fst kvs) then Some (JObj kvs, r) else None))
        else if c = CHR ''['' then
          (case skip_ws t of [] \<Rightarrow> None
           | d # u \<Rightarrow> if d = CHR '']'' then Some (JArr [], u)
              else map_option (\<lambda>(xs, r). (JArr xs, r)) (scan_array hk n (d # u)))
        else if take 4 s = ''null'' then Some (JNull, drop 4 s)
        else if take 4 s = ''true'' then Some (JBool True, drop 4 s)
        else if take 5 s = ''false'' then Some (JBool False, drop 5 s)
        else if hk_constants hk \<and> scan_constant s \<noteq> None then scan_constant s
        else scan_number hk s)"
| "scan_array hk 0 s = None"
| "scan_array hk (Suc n) s =
     (case scan_once hk n s of None \<Rightarrow> None
      | Some (v, r) \<Rightarrow>
        (case skip_ws r of [] \<Rightarrow> None
         | c # t \<Rightarrow> if c = CHR '']'' then Some ([v], t)
            else if c = CHR '','' then
              map_option (\<lambda>(vs, u). (v # vs, u)) (scan_array hk n (skip_ws t))
            else None))"
| "scan_object hk 0 s = None"
| "scan_object hk (Suc n) s =
     (case s of [] \<Rightarrow> None
      | q # t \<Rightarrow> if q \<noteq> CHR 0x22 then None
        else (case scan_string t of None \<Rightarrow> None
          | Some (k, r) \<Rightarrow>
            (case skip_ws r of [] \<Rightarrow> None
             | c # u \<Rightarrow> if c \<noteq> CHR '':'' then None
                else (case scan_once hk n (skip_ws u) of None \<Rightarrow> None
                  | Some (v, w) \<Rightarrow>
                    (case skip_ws w of [] \<Rightarrow> None
                     | d # x \<Rightarrow> if d = CHR ''}'' then Some ([(k, v)], x)
                        else if d = CHR '','' then
                          map_option (\<lambda>(kvs, y). ((k, v) # kvs, y)) (scan_object hk n (skip_ws x))
                        else None)))))"

definition json_loads_with :: "json_hooks \<Rightarrow> string \<Rightarrow> json option" where
  "json_loads_with hk s = (case scan_once hk (Suc (2 * length s)) (skip_ws s) of None \<Rightarrow> None
     | Some (v, r) \<Rightarrow> if skip_ws r = [] then Some v else None)"

abbreviation json_loads :: "(string \<Rightarrow> pyfloat) \<Rightarrow> string \<Rightarrow> json option" where
  "json_loads fparse \<equiv> json_loads_with (strict_hooks fparse)"

text \<open>Well-formed UTF-8 (\<^verbatim>\<open>bytes.decode("utf-8")\<close> succeeds).\<close>

definition cont_byte :: "char \<Rightarrow> bool" where
  "cont_byte c \<longleftrightarrow> (let n = of_char c :: nat in 128 \<le> n \<and> n \<le> 191)"

definition byte_in :: "nat \<Rightarrow> nat \<Rightarrow> char \<Rightarrow> bool" where
  "byte_in lo hi c \<longleftrightarrow> lo \<le> of_char c \<and> of_char c \<le> hi"

fun utf8_valid :: "string \<Rightarrow> bool" where
  "utf8_valid [] = True"
| "utf8_valid (a # s) =
     (if byte_in 0 127 a then utf8_valid s
      else if byte_in 194 223 a then (case s of b # t \<Rightarrow> cont_byte b \<and> utf8_valid t | _ \<Rightarrow> False)
      else if byte_in 224 239 a then
        (case s of b # c # t \<Rightarrow>
           (if byte_in 224 224 a then byte_in 160 191 b
            else if byte_in 237 237 a then byte_in 128 159 b else cont_byte b) \<and>
           cont_byte c \<and> utf8_valid t
         | _ \<Rightarrow> False)
      else if byte_in 240 244 a then
        (case s of b # c # d # t \<Rightarrow>
           (if byte_in 240 240 a then byte_in 144 191 b
            else if byte_in 244 244 a then byte_in 128 143 b else cont_byte b) \<and>
           cont_byte c \<and> cont_byte d \<and> utf8_valid t
         | _ \<Rightarrow> False)
      else False)"

end
