(* ===== verification/Admission.thy ===== *)
theory Admission
  imports Datetime Digest Json
begin

text \<open>
  Producer admission (\<^verbatim>\<open>api/producer_admission.py\<close>, request side): the
  certificate allowlist and its authentication decision, the bounded body
  reader, the JSON depth scanner, the envelope decoder and the whole
  \<^verbatim>\<open>admit_producer_request\<close>.  Errors carry the client code, the HTTP status and
  the security event, as in \<^verbatim>\<open>ProducerAdmissionError\<close>.  Values that the code
  types dynamically (the decoded JSON payload) are \<^typ>\<open>json\<close>; where a Python
  argument may be of a wrong type the model has an option or a dedicated
  constructor for it.
\<close>

section \<open>Constants and errors\<close>

abbreviation REGISTERED_UNSW_PRODUCER_ID :: string where
  "REGISTERED_UNSW_PRODUCER_ID \<equiv> ''tf-demo-unsw-replay-01''"

abbreviation REGISTERED_UNSW_PRODUCER_TYPE :: string where
  "REGISTERED_UNSW_PRODUCER_TYPE \<equiv> ''registered_unsw_replay_v1''"

abbreviation REGISTERED_UNSW_SOURCE_CONTRACT :: string where
  "REGISTERED_UNSW_SOURCE_CONTRACT \<equiv> ''unsw_registered_event_ref_v1''"

definition REGISTERED_UNSW_URI_SAN :: string where
  "REGISTERED_UNSW_URI_SAN = ''urn:threatfusion:producer:'' @ REGISTERED_UNSW_PRODUCER_ID"

abbreviation INGEST_METHOD :: string where "INGEST_METHOD \<equiv> ''POST''"
abbreviation INGEST_TARGET :: string where "INGEST_TARGET \<equiv> ''/v1/ingest/unsw-registered''"
abbreviation JSON_CONTENT_TYPE :: string where "JSON_CONTENT_TYPE \<equiv> ''application/json''"
abbreviation TLS_VERSION :: string where "TLS_VERSION \<equiv> ''TLSv1.3''"
abbreviation REQUEST_SCHEMA :: string where "REQUEST_SCHEMA \<equiv> ''producer_ingest_request_v1''"

definition MAX_REQUEST_BODY_BYTES :: nat where "MAX_REQUEST_BODY_BYTES = 131072"
definition MAX_JSON_DEPTH :: int where "MAX_JSON_DEPTH = 4"
definition MAX_RECORDS :: nat where "MAX_RECORDS = 256"
definition MAX_ROW_NUMBER :: int where "MAX_ROW_NUMBER = 9223372036854775807"
definition MAX_CERTIFICATE_VALIDITY :: int where
  "MAX_CERTIFICATE_VALIDITY = seconds (90 * 86400)"
definition MAX_CERTIFICATE_ROTATION_OVERLAP :: int where
  "MAX_CERTIFICATE_ROTATION_OVERLAP = seconds (24 * 3600)"
definition BODY_READ_CHUNK_BYTES :: nat where "BODY_READ_CHUNK_BYTES = 8192"

datatype adm_code =
    AC_request_time_invalid | AC_certificate_registry_invalid | AC_certificate_rotation_invalid
  | AC_request_unauthorized | AC_record_invalid | AC_envelope_schema_invalid
  | AC_admission_record_invalid | AC_content_length_invalid | AC_request_too_large | AC_empty_body
  | AC_body_read_failed | AC_body_truncated | AC_content_length_mismatch | AC_json_depth_exceeded
  | AC_invalid_json | AC_invalid_body | AC_invalid_utf8 | AC_schema_version_unsupported
  | AC_producer_id_invalid | AC_request_id_invalid | AC_nonce_invalid | AC_source_contract_invalid
  | AC_batch_size_invalid | AC_duplicate_record | AC_trusted_time_unavailable
  | AC_invalid_request_route | AC_content_type_invalid | AC_admission_rejected
  | AC_response_invalid | AC_internal_error

datatype sec_event =
    EV_invalid_request | EV_registry_invalid | EV_authentication_failed | EV_credential_disabled
  | EV_credential_revoked | EV_credential_not_yet_valid | EV_credential_expired
  | EV_internal_error | EV_request_too_large | EV_body_incomplete | EV_clock_unavailable
  | EV_producer_mismatch | EV_source_contract_denied | EV_request_time_invalid

record adm_error =
  ae_code :: adm_code
  ae_status :: nat
  ae_event :: sec_event
  ae_correlation :: "string option"

text \<open>\<^verbatim>\<open>_fail\<close> with its defaults, and with explicit status and event.\<close>

definition fail_with :: "adm_code \<Rightarrow> nat \<Rightarrow> sec_event \<Rightarrow> adm_error" where
  "fail_with c st ev = \<lparr>ae_code = c, ae_status = st, ae_event = ev, ae_correlation = None\<rparr>"

abbreviation fail400 :: "adm_code \<Rightarrow> adm_error" where
  "fail400 c \<equiv> fail_with c 400 EV_invalid_request"

abbreviation fail401 :: "sec_event \<Rightarrow> adm_error" where
  "fail401 ev \<equiv> fail_with AC_request_unauthorized 401 ev"

definition for_attempt :: "string \<Rightarrow> adm_error \<Rightarrow> adm_error" where
  "for_attempt cid e = e\<lparr>ae_correlation := Some cid\<rparr>"

section \<open>Certificates\<close>

record certificate_record =
  cr_producer_id :: string
  cr_producer_type :: string
  cr_uri_san :: string
  cr_certificate_sha256 :: string
  cr_enabled :: bool
  cr_revoked :: bool
  cr_not_before :: datetime
  cr_not_after :: datetime
  cr_contracts :: "string list"

definition valid_certificate_record :: "certificate_record \<Rightarrow> bool" where
  "valid_certificate_record r \<longleftrightarrow>
     cr_producer_id r = REGISTERED_UNSW_PRODUCER_ID \<and>
     cr_producer_type r = REGISTERED_UNSW_PRODUCER_TYPE \<and>
     cr_uri_san r = REGISTERED_UNSW_URI_SAN \<and>
     is_sha256 (cr_certificate_sha256 r) \<and>
     valid_datetime (cr_not_before r) \<and> valid_datetime (cr_not_after r) \<and>
     cr_not_before r < cr_not_after r \<and>
     dt_minus (cr_not_after r) (cr_not_before r) \<le> MAX_CERTIFICATE_VALIDITY \<and>
     cr_contracts r = [REGISTERED_UNSW_SOURCE_CONTRACT]"

record peer_evidence =
  pe_tls_version :: string
  pe_chain_authenticated :: bool
  pe_client_auth_eku :: bool
  pe_certificate_sha256 :: string
  pe_uri_sans :: "string list"

record admitted_producer =
  ap_producer_id :: string
  ap_credential_id :: string
  ap_contracts :: "string list"

definition registry_invalid :: adm_error where
  "registry_invalid = fail_with AC_certificate_registry_invalid 400 EV_registry_invalid"

definition rotation_invalid :: adm_error where
  "rotation_invalid = fail_with AC_certificate_rotation_invalid 400 EV_registry_invalid"

definition active_records :: "certificate_record list \<Rightarrow> certificate_record list" where
  "active_records rs = filter (\<lambda>r. cr_enabled r \<and> \<not> cr_revoked r) rs"

text \<open>\<^verbatim>\<open>CertificateRegistry.__init__\<close>: the registry is the list of its records.\<close>

definition make_registry :: "certificate_record list \<Rightarrow> adm_error + certificate_record list" where
  "make_registry rs =
     (if rs = [] \<or> \<not> list_all valid_certificate_record rs then Inl registry_invalid
      else if card (set (map cr_certificate_sha256 rs)) \<noteq> length rs then Inl registry_invalid
      else (case active_records rs of
              a # b # _ # _ \<Rightarrow> Inl rotation_invalid
            | [a, b] \<Rightarrow>
                (if MAX_CERTIFICATE_ROTATION_OVERLAP <
                    dt_minus (min (cr_not_after a) (cr_not_after b))
                             (max (cr_not_before a) (cr_not_before b))
                 then Inl rotation_invalid else Inr rs)
            | _ \<Rightarrow> Inr rs))"

text \<open>The scan of \<^verbatim>\<open>authenticate\<close> keeps the last record whose fingerprint matches.\<close>

fun match_record :: "string \<Rightarrow> certificate_record option \<Rightarrow> certificate_record list \<Rightarrow>
    certificate_record option" where
  "match_record fp m [] = m"
| "match_record fp m (r # rs) =
     match_record fp (if cr_certificate_sha256 r = fp then Some r else m) rs"

definition authenticate ::
  "certificate_record list \<Rightarrow> peer_evidence \<Rightarrow> datetime option \<Rightarrow> adm_error + admitted_producer" where
  "authenticate reg peer now =
     (case now of None \<Rightarrow> Inl (fail401 EV_authentication_failed)
      | Some t \<Rightarrow>
        if pe_tls_version peer \<noteq> TLS_VERSION \<or> \<not> pe_chain_authenticated peer \<or>
           \<not> pe_client_auth_eku peer \<or> \<not> is_sha256 (pe_certificate_sha256 peer) \<or>
           length (pe_uri_sans peer) \<noteq> 1
        then Inl (fail401 EV_authentication_failed)
        else (case match_record (pe_certificate_sha256 peer) None reg of
            None \<Rightarrow> Inl (fail401 EV_authentication_failed)
          | Some m \<Rightarrow>
             if \<not> cr_enabled m then Inl (fail401 EV_credential_disabled)
             else if cr_revoked m then Inl (fail401 EV_credential_revoked)
             else if t < cr_not_before m then Inl (fail401 EV_credential_not_yet_valid)
             else if cr_not_after m \<le> t then Inl (fail401 EV_credential_expired)
             else if pe_uri_sans peer \<noteq> [cr_uri_san m] then Inl (fail401 EV_authentication_failed)
             else Inr \<lparr>ap_producer_id = cr_producer_id m,
                       ap_credential_id = cr_certificate_sha256 m,
                       ap_contracts = cr_contracts m\<rparr>))"

section \<open>References, envelopes and admission records\<close>

record event_reference =
  er_member_sha256 :: string
  er_row_number :: int

definition valid_reference :: "event_reference \<Rightarrow> bool" where
  "valid_reference r \<longleftrightarrow> is_sha256 (er_member_sha256 r) \<and>
     1 \<le> er_row_number r \<and> er_row_number r \<le> MAX_ROW_NUMBER"

definition reference_identity :: "event_reference \<Rightarrow> string \<times> int" where
  "reference_identity r = (er_member_sha256 r, er_row_number r)"

text \<open>
  \<^verbatim>\<open>[a-z0-9](?:[mid]{0,n}[a-z0-9])?\<close> as a full match: at most \<open>n + 2\<close>
  characters, alphanumeric ends, \<open>mid\<close> characters between.
\<close>

definition is_lower_alnum :: "char \<Rightarrow> bool" where
  "is_lower_alnum c \<longleftrightarrow> is_lower_alpha c \<or> is_digit c"

definition id_pattern :: "(char \<Rightarrow> bool) \<Rightarrow> nat \<Rightarrow> string \<Rightarrow> bool" where
  "id_pattern mid n s \<longleftrightarrow> s \<noteq> [] \<and> is_lower_alnum (hd s) \<and>
     (tl s = [] \<or> (length s \<le> n + 2 \<and> is_lower_alnum (last s) \<and> list_all mid (butlast (tl s))))"

definition is_producer_id :: "string \<Rightarrow> bool" where
  "is_producer_id s \<longleftrightarrow> id_pattern (\<lambda>c. is_lower_alnum c \<or> c = CHR ''-'') 126 s \<and> length s \<le> 128"

definition is_identifier :: "string \<Rightarrow> bool" where
  "is_identifier s \<longleftrightarrow>
     id_pattern (\<lambda>c. is_lower_alnum c \<or> c = CHR ''-'' \<or> c = CHR ''_'') 62 s \<and> length s \<le> 64"

record envelope =
  en_schema_version :: string
  en_producer_id :: string
  en_request_id :: string
  en_produced_at :: datetime
  en_nonce :: string
  en_source_contract :: string
  en_records :: "event_reference list"

definition valid_envelope :: "envelope \<Rightarrow> bool" where
  "valid_envelope e \<longleftrightarrow>
     en_schema_version e = REQUEST_SCHEMA \<and> is_producer_id (en_producer_id e) \<and>
     is_uuid4 (en_request_id e) \<and> valid_datetime (en_produced_at e) \<and>
     is_b64url_32 (en_nonce e) \<and> is_identifier (en_source_contract e) \<and>
     1 \<le> length (en_records e) \<and> length (en_records e) \<le> MAX_RECORDS \<and>
     list_all valid_reference (en_records e) \<and>
     card (set (map reference_identity (en_records e))) = length (en_records e)"

record admission_record =
  ar_correlation_id :: string
  ar_producer_id :: string
  ar_credential_id :: string
  ar_request_id :: string
  ar_produced_at :: datetime
  ar_received_at :: datetime
  ar_nonce_sha256 :: string
  ar_body_sha256 :: string
  ar_method :: string
  ar_target :: string
  ar_content_type :: string
  ar_content_length :: int
  ar_source_contract :: string
  ar_records :: "event_reference list"

definition valid_admission_record :: "admission_record \<Rightarrow> bool" where
  "valid_admission_record r \<longleftrightarrow>
     is_uuid4 (ar_correlation_id r) \<and> ar_producer_id r = REGISTERED_UNSW_PRODUCER_ID \<and>
     is_sha256 (ar_credential_id r) \<and> is_uuid4 (ar_request_id r) \<and>
     ar_correlation_id r \<noteq> ar_request_id r \<and>
     valid_datetime (ar_produced_at r) \<and> valid_datetime (ar_received_at r) \<and>
     is_sha256 (ar_nonce_sha256 r) \<and> is_sha256 (ar_body_sha256 r) \<and>
     ar_method r = INGEST_METHOD \<and> ar_target r = INGEST_TARGET \<and>
     ar_content_type r = JSON_CONTENT_TYPE \<and>
     1 \<le> ar_content_length r \<and> ar_content_length r \<le> int MAX_REQUEST_BODY_BYTES \<and>
     ar_source_contract r = REGISTERED_UNSW_SOURCE_CONTRACT \<and>
     1 \<le> length (ar_records r) \<and> length (ar_records r) \<le> MAX_RECORDS \<and>
     list_all valid_reference (ar_records r) \<and>
     card (set (map reference_identity (ar_records r))) = length (ar_records r)"

section \<open>Reading the body\<close>

text \<open>
  A stream answers each \<^verbatim>\<open>read(n)\<close> with bytes, with something that is not
  \<^verbatim>\<open>bytes\<close>, or by raising; it may return more than it was asked for.
\<close>

datatype read_result = Read_bytes string | Read_not_bytes | Read_raises

definition body_truncated :: adm_error where
  "body_truncated = fail_with AC_body_truncated 400 EV_body_incomplete"

definition request_too_large :: adm_error where
  "request_too_large = fail_with AC_request_too_large 413 EV_request_too_large"

definition body_read_failed :: adm_error where
  "body_read_failed = fail_with AC_body_read_failed 400 EV_body_incomplete"

function read_loop ::
  "('s \<Rightarrow> nat \<Rightarrow> read_result \<times> 's) \<Rightarrow> nat \<Rightarrow> nat \<Rightarrow> string \<Rightarrow> 's \<Rightarrow> adm_error + (string \<times> 's)" where
  "read_loop rd remaining observed acc st =
     (if remaining = 0 then Inr (acc, st)
      else (let requested = min BODY_READ_CHUNK_BYTES remaining in
        case rd st requested of
          (Read_raises, _) \<Rightarrow> Inl body_read_failed
        | (Read_not_bytes, _) \<Rightarrow> Inl body_truncated
        | (Read_bytes chunk, st') \<Rightarrow>
            if chunk = [] then Inl body_truncated
            else if requested < length chunk \<or> MAX_REQUEST_BODY_BYTES < observed + length chunk
            then Inl request_too_large
            else read_loop rd (remaining - length chunk) (observed + length chunk) (acc @ chunk) st'))"
  by pat_completeness auto
termination
  by (relation "measure (\<lambda>(rd, remaining, observed, acc, st). remaining)") auto

declare read_loop.simps [simp del]

definition read_bounded_body ::
  "('s \<Rightarrow> nat \<Rightarrow> read_result \<times> 's) \<Rightarrow> 's \<Rightarrow> int \<Rightarrow> adm_error + string" where
  "read_bounded_body rd st content_length =
     (if content_length < 0 then Inl (fail400 AC_content_length_invalid)
      else if int MAX_REQUEST_BODY_BYTES < content_length then Inl request_too_large
      else if content_length = 0 then Inl (fail400 AC_empty_body)
      else bindE (read_loop rd (nat content_length) 0 [] st) (\<lambda>(body, st').
        case fst (rd st' 1) of
          Read_raises \<Rightarrow> Inl body_read_failed
        | Read_not_bytes \<Rightarrow> Inl (fail400 AC_body_read_failed)
        | Read_bytes t \<Rightarrow>
            if t \<noteq> [] then Inl (fail_with AC_content_length_mismatch 400 EV_body_incomplete)
            else Inr body))"

text \<open>\<^verbatim>\<open>io.BytesIO\<close>, the stream the orchestrator passes.\<close>

definition bytesio_read :: "string \<Rightarrow> nat \<Rightarrow> read_result \<times> string" where
  "bytesio_read s n = (Read_bytes (take n s), drop n s)"

section \<open>Decoding the envelope\<close>

text \<open>\<^verbatim>\<open>_enforce_json_depth\<close>: depth, inside a string, after a backslash.\<close>

fun depth_scan :: "int \<Rightarrow> bool \<Rightarrow> bool \<Rightarrow> string \<Rightarrow> adm_error + unit" where
  "depth_scan depth in_string escaped [] = Inr ()"
| "depth_scan depth in_string escaped (c # s) =
     (if in_string then
        (if escaped then depth_scan depth True False s
         else if c = CHR 0x5C then depth_scan depth True True s
         else if c = CHR 0x22 then depth_scan depth False False s
         else depth_scan depth True False s)
      else if c = CHR 0x22 then depth_scan depth True escaped s
      else if c = CHR ''['' \<or> c = CHR ''{'' then
        (if MAX_JSON_DEPTH < depth + 1 then Inl (fail400 AC_json_depth_exceeded)
         else depth_scan (depth + 1) False escaped s)
      else if c = CHR '']'' \<or> c = CHR ''}'' then
        (if depth - 1 < 0 then Inl (fail400 AC_invalid_json)
         else depth_scan (depth - 1) False escaped s)
      else depth_scan depth False escaped s)"

definition enforce_json_depth :: "string \<Rightarrow> adm_error + unit" where
  "enforce_json_depth text = depth_scan 0 False False text"

definition obj_get :: "(string \<times> json) list \<Rightarrow> string \<Rightarrow> json option" where
  "obj_get kvs k = map_of kvs k"

definition json_str :: "json option \<Rightarrow> string option" where
  "json_str j = (case j of Some (JStr s) \<Rightarrow> Some s | _ \<Rightarrow> None)"

definition envelope_keys :: "string set" where
  "envelope_keys = {''schema_version'', ''producer_id'', ''request_id'', ''produced_at'', ''nonce'',
     ''source_contract'', ''records''}"

definition record_keys :: "string set" where
  "record_keys = {''source_member_sha256'', ''row_number''}"

text \<open>\<^verbatim>\<open>_parse_timestamp\<close>: exactly \<^verbatim>\<open>YYYY-MM-DDTHH:MM:SSZ\<close>, a valid UTC instant.  (Python's digit class also matches the
  decimal digits of other scripts; they lie outside the characters of the model, whose only decimal
  digits are the ASCII ones.)\<close>

definition parse_timestamp :: "json option \<Rightarrow> adm_error + datetime" where
  "parse_timestamp v = (case json_str v of None \<Rightarrow> Inl (fail400 AC_request_time_invalid)
     | Some s \<Rightarrow>
        if length s = 20 \<and> sep_at 19 CHR ''Z'' s
        then someE (fromisoformat_utc (take 19 s @ ''+00:00'')) (fail400 AC_request_time_invalid)
        else Inl (fail400 AC_request_time_invalid))"

definition decode_reference :: "json \<Rightarrow> adm_error + event_reference" where
  "decode_reference v = (case v of
     JObj kvs \<Rightarrow>
       if set (map fst kvs) \<noteq> record_keys then Inl (fail400 AC_record_invalid)
       else (case (obj_get kvs ''source_member_sha256'', obj_get kvs ''row_number'') of
           (Some (JStr m), Some (JInt n)) \<Rightarrow>
             (let r = \<lparr>er_member_sha256 = m, er_row_number = n\<rparr> in
              if valid_reference r then Inr r else Inl (fail400 AC_record_invalid))
         | _ \<Rightarrow> Inl (fail400 AC_record_invalid))
   | _ \<Rightarrow> Inl (fail400 AC_record_invalid))"

fun decode_references ::
  "(string \<times> int) list \<Rightarrow> json list \<Rightarrow> adm_error + event_reference list" where
  "decode_references seen [] = Inr []"
| "decode_references seen (v # vs) =
     (case decode_reference v of Inl e \<Rightarrow> Inl e
      | Inr r \<Rightarrow>
        if reference_identity r \<in> set seen then Inl (fail400 AC_duplicate_record)
        else (case decode_references (reference_identity r # seen) vs of
            Inl e \<Rightarrow> Inl e | Inr rs \<Rightarrow> Inr (r # rs)))"

definition decode_payload :: "(string \<times> json) list \<Rightarrow> adm_error + envelope" where
  "decode_payload kvs =
     (if set (map fst kvs) \<noteq> envelope_keys then Inl (fail400 AC_envelope_schema_invalid)
      else if obj_get kvs ''schema_version'' \<noteq> Some (JStr REQUEST_SCHEMA)
      then Inl (fail400 AC_schema_version_unsupported)
      else case json_str (obj_get kvs ''producer_id'') of
        None \<Rightarrow> Inl (fail400 AC_producer_id_invalid)
      | Some pid \<Rightarrow>
        if \<not> is_producer_id pid then Inl (fail400 AC_producer_id_invalid)
        else case json_str (obj_get kvs ''request_id'') of
          None \<Rightarrow> Inl (fail400 AC_request_id_invalid)
        | Some rid \<Rightarrow>
          if \<not> is_uuid4 rid then Inl (fail400 AC_request_id_invalid)
          else case json_str (obj_get kvs ''nonce'') of
            None \<Rightarrow> Inl (fail400 AC_nonce_invalid)
          | Some nonce \<Rightarrow>
            if \<not> is_b64url_32 nonce then Inl (fail400 AC_nonce_invalid)
            else case json_str (obj_get kvs ''source_contract'') of
              None \<Rightarrow> Inl (fail400 AC_source_contract_invalid)
            | Some sc \<Rightarrow>
              if \<not> is_identifier sc then Inl (fail400 AC_source_contract_invalid)
              else bindE (parse_timestamp (obj_get kvs ''produced_at'')) (\<lambda>produced.
                case obj_get kvs ''records'' of
                  Some (JArr vs) \<Rightarrow>
                    if length vs < 1 \<or> MAX_RECORDS < length vs
                    then Inl (fail400 AC_batch_size_invalid)
                    else bindE (decode_references [] vs) (\<lambda>rs.
                      let e = \<lparr>en_schema_version = REQUEST_SCHEMA, en_producer_id = pid,
                               en_request_id = rid, en_produced_at = produced, en_nonce = nonce,
                               en_source_contract = sc, en_records = rs\<rparr>
                      in if valid_envelope e then Inr e
                         else Inl (fail400 AC_envelope_schema_invalid))
                | _ \<Rightarrow> Inl (fail400 AC_batch_size_invalid)))"

definition decode_producer_envelope :: "(string \<Rightarrow> pyfloat) \<Rightarrow> string \<Rightarrow> adm_error + envelope" where
  "decode_producer_envelope fparse body =
     (if body = [] \<or> MAX_REQUEST_BODY_BYTES < length body then Inl (fail400 AC_invalid_body)
      else if \<not> utf8_valid body then Inl (fail400 AC_invalid_utf8)
      else bindE (enforce_json_depth body) (\<lambda>_.
        case json_loads fparse body of
          None \<Rightarrow> Inl (fail400 AC_invalid_json)
        | Some (JObj kvs) \<Rightarrow> decode_payload kvs
        | Some _ \<Rightarrow> Inl (fail400 AC_envelope_schema_invalid)))"

section \<open>Admission\<close>

definition validate_request_time :: "datetime \<Rightarrow> datetime option \<Rightarrow> adm_error + unit" where
  "validate_request_time produced now =
     (case now of None \<Rightarrow> Inl (fail_with AC_trusted_time_unavailable 503 EV_clock_unavailable)
      | Some t \<Rightarrow>
         (let difference = dt_minus produced t in
          if seconds 60 < difference \<or> difference < - seconds 300
          then Inl (fail400 AC_request_time_invalid) else Inr ()))"

definition admission_record_of ::
  "string \<Rightarrow> admitted_producer \<Rightarrow> envelope \<Rightarrow> string \<Rightarrow> int \<Rightarrow> datetime \<Rightarrow> admission_record" where
  "admission_record_of cid producer e body content_length t =
     \<lparr>ar_correlation_id = cid, ar_producer_id = ap_producer_id producer,
      ar_credential_id = ap_credential_id producer, ar_request_id = en_request_id e,
      ar_produced_at = en_produced_at e, ar_received_at = t,
      ar_nonce_sha256 = sha256_hex (en_nonce e), ar_body_sha256 = sha256_hex body,
      ar_method = INGEST_METHOD, ar_target = INGEST_TARGET, ar_content_type = JSON_CONTENT_TYPE,
      ar_content_length = content_length, ar_source_contract = en_source_contract e,
      ar_records = en_records e\<rparr>"

definition admit_body ::
  "string \<Rightarrow> (string \<Rightarrow> pyfloat) \<Rightarrow> admitted_producer \<Rightarrow> int \<Rightarrow> datetime option \<Rightarrow> string \<Rightarrow>
     adm_error + admission_record" where
  "admit_body cid fparse producer content_length now body =
     bindE (decode_producer_envelope fparse body) (\<lambda>e.
       if en_producer_id e \<noteq> ap_producer_id producer then Inl (fail401 EV_producer_mismatch)
       else if en_source_contract e \<notin> set (ap_contracts producer)
       then Inl (fail_with AC_admission_rejected 403 EV_source_contract_denied)
       else bindE (validate_request_time (en_produced_at e) now) (\<lambda>_.
         case now of None \<Rightarrow> Inl (fail_with AC_trusted_time_unavailable 503 EV_clock_unavailable)
         | Some t \<Rightarrow>
           (let r = admission_record_of cid producer e body content_length t in
            if valid_admission_record r then Inr r
            else Inl (fail_with AC_admission_record_invalid 500 EV_internal_error))))"

definition admit_producer_request ::
  "string \<Rightarrow> (string \<Rightarrow> pyfloat) \<Rightarrow> certificate_record list \<Rightarrow> peer_evidence \<Rightarrow> string \<Rightarrow> string \<Rightarrow>
     string \<Rightarrow> int \<Rightarrow> ('s \<Rightarrow> nat \<Rightarrow> read_result \<times> 's) \<Rightarrow> 's \<Rightarrow> datetime option \<Rightarrow>
     adm_error + admission_record" where
  "admit_producer_request cid fparse reg peer req_method target content_type content_length rd st now =
     mapErr (for_attempt cid)
       (bindE (authenticate reg peer now) (\<lambda>producer.
          if req_method \<noteq> INGEST_METHOD \<or> target \<noteq> INGEST_TARGET
          then Inl (fail400 AC_invalid_request_route)
          else if content_type \<noteq> JSON_CONTENT_TYPE then Inl (fail400 AC_content_type_invalid)
          else bindE (read_bounded_body rd st content_length)
            (admit_body cid fparse producer content_length now)))"

section \<open>The certificate registry\<close>

lemma match_record_Some:
  "match_record fp m rs = Some r \<Longrightarrow> m = Some r \<or> (r \<in> set rs \<and> cr_certificate_sha256 r = fp)"
  by (induction rs arbitrary: m) (fastforce split: if_splits)+

lemma match_record_absent:
  "(\<And>r. r \<in> set rs \<Longrightarrow> cr_certificate_sha256 r \<noteq> fp) \<Longrightarrow> match_record fp m rs = m"
  by (induction rs arbitrary: m) auto

lemma match_record_unique:
  assumes "distinct (map cr_certificate_sha256 rs)" "r \<in> set rs"
  shows "match_record (cr_certificate_sha256 r) m rs = Some r"
  using assms
proof (induction rs arbitrary: m)
  case Nil
  then show ?case by simp
next
  case (Cons x rs)
  show ?case
  proof (cases "x = r")
    case True
    with Cons.prems(1) have "cr_certificate_sha256 y \<noteq> cr_certificate_sha256 r" if "y \<in> set rs" for y
      using that by (metis distinct.simps(2) image_eqI list.set_map list.simps(9))
    with True show ?thesis by (simp add: match_record_absent)
  next
    case False
    with Cons show ?thesis by simp
  qed
qed

lemma make_registry_InrD:
  assumes "make_registry rs = Inr reg"
  shows "reg = rs" "rs \<noteq> []" "\<forall>r \<in> set rs. valid_certificate_record r"
    "distinct (map cr_certificate_sha256 rs)"
proof -
  have "card (set (map cr_certificate_sha256 rs)) = length (map cr_certificate_sha256 rs)"
    using assms by (auto simp: make_registry_def split: if_splits)
  then show "distinct (map cr_certificate_sha256 rs)" by (rule card_distinct)
qed (use assms in \<open>auto simp: make_registry_def list_all_iff split: if_splits list.splits\<close>)

lemma authenticate_Inr_iff:
  assumes "make_registry rs = Inr reg"
  shows "authenticate reg peer now = Inr p \<longleftrightarrow>
    (\<exists>t r. now = Some t \<and> r \<in> set reg \<and>
       pe_tls_version peer = TLS_VERSION \<and> pe_chain_authenticated peer \<and> pe_client_auth_eku peer \<and>
       pe_certificate_sha256 peer = cr_certificate_sha256 r \<and>
       pe_uri_sans peer = [REGISTERED_UNSW_URI_SAN] \<and>
       cr_enabled r \<and> \<not> cr_revoked r \<and> cr_not_before r \<le> t \<and> t < cr_not_after r \<and>
       p = \<lparr>ap_producer_id = REGISTERED_UNSW_PRODUCER_ID,
            ap_credential_id = cr_certificate_sha256 r,
            ap_contracts = [REGISTERED_UNSW_SOURCE_CONTRACT]\<rparr>)"
    (is "?lhs \<longleftrightarrow> ?rhs")
proof
  note reg = make_registry_InrD [OF assms]
  have vr: "cr_uri_san r = REGISTERED_UNSW_URI_SAN \<and> cr_producer_id r = REGISTERED_UNSW_PRODUCER_ID \<and>
      cr_contracts r = [REGISTERED_UNSW_SOURCE_CONTRACT] \<and> is_sha256 (cr_certificate_sha256 r)"
    if "r \<in> set reg" for r
    using reg(1,3) that by (auto simp: valid_certificate_record_def)
  {
    assume ?lhs
    then obtain t m where "now = Some t"
      and m: "match_record (pe_certificate_sha256 peer) None reg = Some m"
      and "pe_tls_version peer = TLS_VERSION" "pe_chain_authenticated peer"
        "pe_client_auth_eku peer" "cr_enabled m" "\<not> cr_revoked m" "\<not> t < cr_not_before m"
        "\<not> cr_not_after m \<le> t" "pe_uri_sans peer = [cr_uri_san m]"
      and "p = \<lparr>ap_producer_id = cr_producer_id m, ap_credential_id = cr_certificate_sha256 m,
             ap_contracts = cr_contracts m\<rparr>"
      by (auto simp: authenticate_def split: option.splits if_splits)
    moreover from match_record_Some [OF m]
    have "m \<in> set reg" "cr_certificate_sha256 m = pe_certificate_sha256 peer" by auto
    ultimately show ?rhs using vr [of m] by (auto simp: not_less not_le)
  next
    assume ?rhs
    then obtain t r where a: "now = Some t" "r \<in> set reg" "pe_tls_version peer = TLS_VERSION"
      "pe_chain_authenticated peer" "pe_client_auth_eku peer"
      "pe_certificate_sha256 peer = cr_certificate_sha256 r"
      "pe_uri_sans peer = [REGISTERED_UNSW_URI_SAN]" "cr_enabled r" "\<not> cr_revoked r"
      "cr_not_before r \<le> t" "t < cr_not_after r"
      "p = \<lparr>ap_producer_id = REGISTERED_UNSW_PRODUCER_ID,
            ap_credential_id = cr_certificate_sha256 r,
            ap_contracts = [REGISTERED_UNSW_SOURCE_CONTRACT]\<rparr>"
      by blast
    have "match_record (cr_certificate_sha256 r) None reg = Some r"
      by (rule match_record_unique) (use reg a(2) in auto)
    with a vr [OF a(2)] show ?lhs
      by (auto simp: authenticate_def not_less not_le)
  }
qed

lemma make_registry_active:
  assumes "make_registry rs = Inr reg"
  shows "length (active_records reg) \<le> 2"
    "\<lbrakk>active_records reg = [a, b]\<rbrakk> \<Longrightarrow>
       dt_minus (min (cr_not_after a) (cr_not_after b)) (max (cr_not_before a) (cr_not_before b))
         \<le> MAX_CERTIFICATE_ROTATION_OVERLAP"
  using assms by (auto simp: make_registry_def not_less split: if_splits list.splits)

section \<open>The bounded body reader\<close>

lemma read_loop_0 [simp]: "read_loop rd 0 observed acc st = Inr (acc, st)"
  by (simp add: read_loop.simps)

lemma read_loop_step:
  assumes "rd st (min BODY_READ_CHUNK_BYTES remaining) = (Read_bytes chunk, st')"
    and "remaining \<noteq> 0" "chunk \<noteq> []" "length chunk \<le> min BODY_READ_CHUNK_BYTES remaining"
      "observed + length chunk \<le> MAX_REQUEST_BODY_BYTES"
  shows "read_loop rd remaining observed acc st =
    read_loop rd (remaining - length chunk) (observed + length chunk) (acc @ chunk) st'"
  by (subst read_loop.simps) (use assms in \<open>simp add: Let_def not_less [symmetric]\<close>)

lemma read_loop_length:
  "read_loop rd remaining observed acc st = Inr (body, st') \<Longrightarrow>
     length body = length acc + remaining"
proof (induction rd remaining observed acc st rule: read_loop.induct)
  case (1 rd remaining observed acc st)
  show ?case
  proof (cases "remaining = 0")
    case True
    with "1.prems" show ?thesis by simp
  next
    case False
    let ?q = "min BODY_READ_CHUNK_BYTES remaining"
    obtain chunk st2 where r: "rd st ?q = (Read_bytes chunk, st2)" "chunk \<noteq> []"
      and c: "\<not> (?q < length chunk \<or> MAX_REQUEST_BODY_BYTES < observed + length chunk)"
      and rec: "read_loop rd (remaining - length chunk) (observed + length chunk) (acc @ chunk) st2 =
          Inr (body, st')"
      using "1.prems" False
      by (auto simp: read_loop.simps [of rd remaining] Let_def
          split: prod.splits read_result.splits if_splits)
    have "length body = length (acc @ chunk) + (remaining - length chunk)"
      by (rule "1.IH" [OF False refl r(1) [symmetric] refl r(2) c rec])
    with c show ?thesis by auto
  qed
qed

lemma read_bounded_body_length:
  "read_bounded_body rd st n = Inr body \<Longrightarrow>
     int (length body) = n \<and> 1 \<le> n \<and> n \<le> int MAX_REQUEST_BODY_BYTES"
proof -
  assume a: "read_bounded_body rd st n = Inr body"
  then have n: "1 \<le> n" "n \<le> int MAX_REQUEST_BODY_BYTES"
    by (auto simp: read_bounded_body_def split: if_splits)
  have "bindE (read_loop rd (nat n) 0 [] st) (\<lambda>(body, st').
        case fst (rd st' 1) of
          Read_raises \<Rightarrow> Inl body_read_failed
        | Read_not_bytes \<Rightarrow> Inl (fail400 AC_body_read_failed)
        | Read_bytes t \<Rightarrow>
            if t \<noteq> [] then Inl (fail_with AC_content_length_mismatch 400 EV_body_incomplete)
            else Inr body) = Inr body"
    using a n by (auto simp: read_bounded_body_def)
  then obtain b st' where loop: "read_loop rd (nat n) 0 [] st = Inr (b, st')" and "b = body"
    by (cases "read_loop rd (nat n) 0 [] st")
      (auto split: read_result.splits if_splits)
  from read_loop_length [OF loop] \<open>b = body\<close> n show ?thesis by simp
qed

lemma read_loop_bytesio:
  assumes "remaining \<le> length s" "observed + remaining \<le> MAX_REQUEST_BODY_BYTES"
  shows "read_loop bytesio_read remaining observed acc s =
    Inr (acc @ take remaining s, drop remaining s)"
  using assms
proof (induction remaining arbitrary: observed acc s rule: less_induct)
  case (less remaining)
  show ?case
  proof (cases "remaining = 0")
    case True
    then show ?thesis by (simp add: read_loop.simps)
  next
    case False
    let ?q = "min BODY_READ_CHUNK_BYTES remaining"
    have q: "0 < ?q" "?q \<le> remaining" using False by (auto simp: BODY_READ_CHUNK_BYTES_def)
    have len: "length (take ?q s) = ?q" using q less.prems(1) by simp
    have ne: "take ?q s \<noteq> []" using len q(1) by (metis less_irrefl list.size(3))
    have "read_loop bytesio_read remaining observed acc s =
        read_loop bytesio_read (remaining - ?q) (observed + ?q) (acc @ take ?q s) (drop ?q s)"
      using read_loop_step [of bytesio_read s remaining "take ?q s" "drop ?q s" observed acc]
        False ne len less.prems(2) q(2) by (simp add: bytesio_read_def)
    also have "\<dots> = Inr ((acc @ take ?q s) @ take (remaining - ?q) (drop ?q s),
        drop (remaining - ?q) (drop ?q s))"
      by (rule less.IH) (use q less.prems in auto)
    finally show ?thesis
      using q(2) take_add [of ?q "remaining - ?q" s] by simp
  qed
qed

lemma read_loop_bytesio_short:
  assumes "length s < remaining" "observed + remaining \<le> MAX_REQUEST_BODY_BYTES"
  shows "read_loop bytesio_read remaining observed acc s = Inl body_truncated"
  using assms
proof (induction remaining arbitrary: observed acc s rule: less_induct)
  case (less remaining)
  let ?q = "min BODY_READ_CHUNK_BYTES remaining"
  have q: "0 < ?q" using less.prems(1) by (auto simp: BODY_READ_CHUNK_BYTES_def)
  show ?case
  proof (cases "s = []")
    case True
    with less.prems show ?thesis
      by (simp add: read_loop.simps [of _ remaining] bytesio_read_def Let_def)
  next
    case False
    let ?n = "length (take ?q s)"
    have n: "0 < ?n" "?n \<le> length s" using False q by (auto simp: min_def)
    have ne: "take ?q s \<noteq> []" using n(1) by (metis less_irrefl list.size(3))
    have "read_loop bytesio_read remaining observed acc s =
        read_loop bytesio_read (remaining - ?n) (observed + ?n) (acc @ take ?q s) (drop ?q s)"
      by (rule read_loop_step)
        (use ne n less.prems in \<open>auto simp: bytesio_read_def min_def split: if_splits\<close>)
    also have "\<dots> = Inl body_truncated"
      by (rule less.IH) (use n less.prems in \<open>auto simp: min_def split: if_splits\<close>)
    finally show ?thesis .
  qed
qed

lemma read_bounded_body_bytesio:
  assumes "1 \<le> n" "n \<le> int MAX_REQUEST_BODY_BYTES"
  shows "read_bounded_body bytesio_read s n =
    (if int (length s) < n then Inl body_truncated
     else if n < int (length s)
     then Inl (fail_with AC_content_length_mismatch 400 EV_body_incomplete)
     else Inr s)"
proof (cases "int (length s) < n")
  case True
  then show ?thesis
    using assms read_loop_bytesio_short [of s "nat n" 0 "[]"]
    by (simp add: read_bounded_body_def)
next
  case False
  then have "nat n \<le> length s" using assms by simp
  then show ?thesis
    using assms read_loop_bytesio [of "nat n" s 0 "[]"] False
    by (auto simp: read_bounded_body_def bytesio_read_def)
qed

end
