(* ===== verification/Gates.thy ===== *)
theory Gates
  imports Admission
begin

text \<open>
  The execution gates of \<^verbatim>\<open>api/producer_execution_gates.py\<close>: a token bucket in
  nanoseconds of credit and a single execution slot whose owner holds an opaque
  lease.  A clock reading is an argument of \<open>acquire\<close> (\<^const>\<open>None\<close> when the
  clock raises or returns something that is not an int), as is the text that
  \<^verbatim>\<open>secrets.token_urlsafe\<close> returns.  The sections under the lock are atomic, so
  any interleaving of threads is a sequence of the commands below with their
  readings in lock order.
\<close>

section \<open>State and operations\<close>

definition RATE_REFILL_INTERVAL_NS :: int where "RATE_REFILL_INTERVAL_NS = 10000000000"
definition RATE_BURST_CAPACITY :: int where "RATE_BURST_CAPACITY = 2"
definition MAX_MONOTONIC_NS :: int where "MAX_MONOTONIC_NS = 9223372036854775807"

datatype gate_error = GE_producer_not_admitted | GE_monotonic_clock_invalid | GE_lease_not_active

datatype gate_disposition = Gate_accepted | Gate_rate_limited | Gate_server_busy

record lease =
  le_producer_id :: string
  le_gate_instance_id :: string
  le_ownership_token :: string

record gate_decision =
  gd_disposition :: gate_disposition
  gd_lease :: "lease option"

record gates =
  ga_instance_id :: string
  ga_credit :: int
  ga_last :: "int option"
  ga_active_token :: "string option"
  ga_global_active :: int
  ga_producer_active :: int
  ga_accepted :: int
  ga_rate_limited :: int
  ga_server_busy :: int
  ga_released :: int
  ga_clock_rejected :: int

definition new_gates :: "string \<Rightarrow> gates" where
  "new_gates instance_id = \<lparr>ga_instance_id = instance_id,
     ga_credit = RATE_BURST_CAPACITY * RATE_REFILL_INTERVAL_NS, ga_last = None,
     ga_active_token = None, ga_global_active = 0, ga_producer_active = 0, ga_accepted = 0,
     ga_rate_limited = 0, ga_server_busy = 0, ga_released = 0, ga_clock_rejected = 0\<rparr>"

text \<open>\<^verbatim>\<open>_validate_producer\<close> and \<^verbatim>\<open>_read_clock\<close>.\<close>

definition validate_producer :: "admitted_producer \<Rightarrow> bool" where
  "validate_producer p \<longleftrightarrow> ap_producer_id p = REGISTERED_UNSW_PRODUCER_ID \<and>
     ap_contracts p = [REGISTERED_UNSW_SOURCE_CONTRACT]"

definition clock_reject :: "gates \<Rightarrow> gates" where
  "clock_reject g = g\<lparr>ga_clock_rejected := ga_clock_rejected g + 1\<rparr>"

definition read_clock :: "int option \<Rightarrow> int option" where
  "read_clock v = (case v of None \<Rightarrow> None
     | Some n \<Rightarrow> if 0 \<le> n \<and> n \<le> MAX_MONOTONIC_NS then Some n else None)"

text \<open>The refill at a reading that does not go back; the first reading only sets the origin.\<close>

definition refill :: "gates \<Rightarrow> int \<Rightarrow> gates" where
  "refill g now = (case ga_last g of None \<Rightarrow> g\<lparr>ga_last := Some now\<rparr>
     | Some prev \<Rightarrow> g\<lparr>ga_credit := min (RATE_BURST_CAPACITY * RATE_REFILL_INTERVAL_NS)
           (ga_credit g + (now - prev)), ga_last := Some now\<rparr>)"

definition acquire ::
  "gates \<Rightarrow> admitted_producer \<Rightarrow> int option \<Rightarrow> string \<Rightarrow> gates \<times> (gate_error + gate_decision)" where
  "acquire g producer reading token =
     (if \<not> validate_producer producer then (g, Inl GE_producer_not_admitted)
      else case read_clock reading of
        None \<Rightarrow> (clock_reject g, Inl GE_monotonic_clock_invalid)
      | Some now \<Rightarrow>
        if (case ga_last g of None \<Rightarrow> False | Some prev \<Rightarrow> now < prev)
        then (clock_reject g, Inl GE_monotonic_clock_invalid)
        else (let g1 = refill g now in
          if ga_credit g1 < RATE_REFILL_INTERVAL_NS
          then (g1\<lparr>ga_rate_limited := ga_rate_limited g1 + 1\<rparr>,
                Inr \<lparr>gd_disposition = Gate_rate_limited, gd_lease = None\<rparr>)
          else (let g2 = g1\<lparr>ga_credit := ga_credit g1 - RATE_REFILL_INTERVAL_NS\<rparr> in
            if ga_global_active g2 \<noteq> 0 \<or> ga_producer_active g2 \<noteq> 0
            then (g2\<lparr>ga_server_busy := ga_server_busy g2 + 1\<rparr>,
                  Inr \<lparr>gd_disposition = Gate_server_busy, gd_lease = None\<rparr>)
            else (g2\<lparr>ga_active_token := Some (sha256_hex token), ga_global_active := 1,
                     ga_producer_active := 1, ga_accepted := ga_accepted g2 + 1\<rparr>,
                  Inr \<lparr>gd_disposition = Gate_accepted,
                       gd_lease = Some \<lparr>le_producer_id = REGISTERED_UNSW_PRODUCER_ID,
                         le_gate_instance_id = ga_instance_id g2,
                         le_ownership_token = token\<rparr>\<rparr>))))"

text \<open>\<^verbatim>\<open>_require_active_lease\<close>\<close>

definition active_lease :: "gates \<Rightarrow> lease \<Rightarrow> bool" where
  "active_lease g l \<longleftrightarrow>
     le_producer_id l = REGISTERED_UNSW_PRODUCER_ID \<and> is_uuid4 (le_gate_instance_id l) \<and>
     is_b64url_32 (le_ownership_token l) \<and> le_gate_instance_id l = ga_instance_id g \<and>
     ga_active_token g = Some (sha256_hex (le_ownership_token l)) \<and>
     ga_global_active g = 1 \<and> ga_producer_active g = 1"

definition release :: "gates \<Rightarrow> lease \<Rightarrow> gates \<times> (gate_error + unit)" where
  "release g l =
     (if active_lease g l
      then (g\<lparr>ga_active_token := None, ga_global_active := 0, ga_producer_active := 0,
              ga_released := ga_released g + 1\<rparr>, Inr ())
      else (g, Inl GE_lease_not_active))"

text \<open>
  \<^verbatim>\<open>lease_context\<close> around a block: the block runs with the lease held and ends
  with a value or an exception; the release in the finally clause runs in both
  cases, and an exception it raises replaces the block's outcome.
\<close>

definition lease_context ::
  "gates \<Rightarrow> lease \<Rightarrow> (gates \<Rightarrow> gates \<times> ('e + 'a)) \<Rightarrow> gates \<times> (gate_error + 'e + 'a)" where
  "lease_context g l block =
     (if \<not> active_lease g l then (g, Inl GE_lease_not_active)
      else (let (g1, outcome) = block g; (g2, released) = release g1 l in
        case released of Inl e \<Rightarrow> (g2, Inl e) | Inr _ \<Rightarrow> (g2, Inr outcome)))"

record gate_snapshot =
  sn_available_tokens :: int
  sn_credit :: int
  sn_global_active :: int
  sn_producer_active :: int
  sn_accepted :: int
  sn_rate_limited :: int
  sn_server_busy :: int
  sn_released :: int
  sn_clock_rejected :: int

definition gate_snapshot_of :: "gates \<Rightarrow> gate_snapshot" where
  "gate_snapshot_of g = \<lparr>sn_available_tokens = ga_credit g div RATE_REFILL_INTERVAL_NS,
     sn_credit = ga_credit g, sn_global_active = ga_global_active g,
     sn_producer_active = ga_producer_active g, sn_accepted = ga_accepted g,
     sn_rate_limited = ga_rate_limited g, sn_server_busy = ga_server_busy g,
     sn_released = ga_released g, sn_clock_rejected = ga_clock_rejected g\<rparr>"

section \<open>Runs\<close>

datatype gate_command = Acquire admitted_producer "int option" string | Release lease

fun gate_step :: "gates \<Rightarrow> gate_command \<Rightarrow> gates" where
  "gate_step g (Acquire p reading token) = fst (acquire g p reading token)"
| "gate_step g (Release l) = fst (release g l)"

definition charged :: "gates \<Rightarrow> int" where
  "charged g = ga_accepted g + ga_server_busy g"

definition gate_inv :: "gates \<Rightarrow> bool" where
  "gate_inv g \<longleftrightarrow>
     0 \<le> ga_credit g \<and> ga_credit g \<le> RATE_BURST_CAPACITY * RATE_REFILL_INTERVAL_NS \<and>
     (case ga_last g of None \<Rightarrow> True | Some t \<Rightarrow> 0 \<le> t \<and> t \<le> MAX_MONOTONIC_NS) \<and>
     ga_global_active g = (if ga_active_token g = None then 0 else 1) \<and>
     ga_producer_active g = ga_global_active g \<and>
     ga_accepted g = ga_released g + ga_global_active g \<and> 0 \<le> ga_released g \<and>
     0 \<le> ga_rate_limited g \<and> 0 \<le> ga_server_busy g \<and> 0 \<le> ga_clock_rejected g"

text \<open>
  The bucket's potential: what was charged plus the credit left.  It grows at
  most by the time that passes.
\<close>

definition potential :: "gates \<Rightarrow> int" where
  "potential g = RATE_REFILL_INTERVAL_NS * charged g + ga_credit g"

definition gate_extends :: "gates \<Rightarrow> gates \<Rightarrow> bool" where
  "gate_extends g h \<longleftrightarrow> ga_instance_id h = ga_instance_id g \<and> charged g \<le> charged h \<and>
     (case (ga_last g, ga_last h) of
        (Some a, Some b) \<Rightarrow> a \<le> b \<and> potential h \<le> potential g + (b - a)
      | (None, Some b) \<Rightarrow> 0 \<le> b \<and> potential h \<le> potential g + b
      | (None, None) \<Rightarrow> potential h \<le> potential g
      | (Some a, None) \<Rightarrow> False)"

lemmas gate_consts = RATE_REFILL_INTERVAL_NS_def RATE_BURST_CAPACITY_def MAX_MONOTONIC_NS_def

lemma read_clock_SomeD: "read_clock v = Some n \<Longrightarrow> 0 \<le> n \<and> n \<le> MAX_MONOTONIC_NS"
  by (auto simp: read_clock_def split: option.splits if_splits)

lemma refill_props:
  assumes "gate_inv g" "0 \<le> now" "now \<le> MAX_MONOTONIC_NS"
    and "\<And>prev. ga_last g = Some prev \<Longrightarrow> prev \<le> now"
  shows "gate_inv (refill g now)" "gate_extends g (refill g now)" "ga_last (refill g now) = Some now"
  using assms
  by (auto simp: gate_inv_def refill_def gate_extends_def potential_def charged_def gate_consts
      split: option.splits)

text \<open>The five ways an attempt ends.\<close>

lemma acquire_cases:
  obtains (unchanged) "\<not> validate_producer p"
      "acquire g p reading token = (g, Inl GE_producer_not_admitted)"
  | (clock) "acquire g p reading token = (clock_reject g, Inl GE_monotonic_clock_invalid)"
  | (limited) now where "0 \<le> now" "now \<le> MAX_MONOTONIC_NS"
      "\<And>prev. ga_last g = Some prev \<Longrightarrow> prev \<le> now"
      "ga_credit (refill g now) < RATE_REFILL_INTERVAL_NS"
      "acquire g p reading token =
        ((refill g now)\<lparr>ga_rate_limited := ga_rate_limited (refill g now) + 1\<rparr>,
         Inr \<lparr>gd_disposition = Gate_rate_limited, gd_lease = None\<rparr>)"
  | (busy) now where "0 \<le> now" "now \<le> MAX_MONOTONIC_NS"
      "\<And>prev. ga_last g = Some prev \<Longrightarrow> prev \<le> now"
      "RATE_REFILL_INTERVAL_NS \<le> ga_credit (refill g now)"
      "ga_global_active (refill g now) \<noteq> 0 \<or> ga_producer_active (refill g now) \<noteq> 0"
      "acquire g p reading token =
        ((refill g now)\<lparr>ga_credit := ga_credit (refill g now) - RATE_REFILL_INTERVAL_NS,
           ga_server_busy := ga_server_busy (refill g now) + 1\<rparr>,
         Inr \<lparr>gd_disposition = Gate_server_busy, gd_lease = None\<rparr>)"
  | (granted) now where "0 \<le> now" "now \<le> MAX_MONOTONIC_NS"
      "\<And>prev. ga_last g = Some prev \<Longrightarrow> prev \<le> now"
      "RATE_REFILL_INTERVAL_NS \<le> ga_credit (refill g now)"
      "ga_global_active (refill g now) = 0" "ga_producer_active (refill g now) = 0"
      "acquire g p reading token =
        ((refill g now)\<lparr>ga_credit := ga_credit (refill g now) - RATE_REFILL_INTERVAL_NS,
           ga_active_token := Some (sha256_hex token), ga_global_active := 1,
           ga_producer_active := 1, ga_accepted := ga_accepted (refill g now) + 1\<rparr>,
         Inr \<lparr>gd_disposition = Gate_accepted,
              gd_lease = Some \<lparr>le_producer_id = REGISTERED_UNSW_PRODUCER_ID,
                le_gate_instance_id = ga_instance_id (refill g now),
                le_ownership_token = token\<rparr>\<rparr>)"
proof (cases "validate_producer p \<and> read_clock reading \<noteq> None \<and>
    (\<forall>prev. ga_last g = Some prev \<longrightarrow> prev \<le> the (read_clock reading))")
  case False
  then have "(\<not> validate_producer p \<and> acquire g p reading token = (g, Inl GE_producer_not_admitted)) \<or>
      acquire g p reading token = (clock_reject g, Inl GE_monotonic_clock_invalid)"
    by (auto simp: acquire_def not_le split: option.splits)
  then show ?thesis using unchanged clock by blast
next
  case True
  then obtain now where now: "validate_producer p" "read_clock reading = Some now"
    "\<And>prev. ga_last g = Some prev \<Longrightarrow> prev \<le> now" by auto
  have neg: "\<not> (case ga_last g of None \<Rightarrow> False | Some prev \<Rightarrow> now < prev)"
    using now(3) by (force split: option.splits)
  note bnd = read_clock_SomeD [OF now(2)]
  show ?thesis
  proof (cases "ga_credit (refill g now) < RATE_REFILL_INTERVAL_NS")
    case True
    with now bnd neg show ?thesis
      by (intro limited [of now]) (simp_all add: acquire_def Let_def)
  next
    case cr: False
    show ?thesis
    proof (cases "ga_global_active (refill g now) \<noteq> 0 \<or> ga_producer_active (refill g now) \<noteq> 0")
      case True
      with cr now bnd neg show ?thesis
        by (intro busy [of now]) (simp_all add: acquire_def Let_def)
    next
      case False
      with cr now bnd neg show ?thesis
        by (intro granted [of now]) (simp_all add: acquire_def Let_def)
    qed
  qed
qed

lemma clock_reject_props: "gate_inv g \<Longrightarrow> gate_inv (clock_reject g)" "gate_extends g (clock_reject g)"
  by (simp_all add: gate_inv_def gate_extends_def clock_reject_def potential_def charged_def
      split: option.split)

lemma acquire_inv:
  assumes "gate_inv g"
  shows "gate_inv (fst (acquire g p reading token))"
proof (cases rule: acquire_cases [of p g reading token])
  case (limited now)
  with refill_props(1) [OF assms limited(1-3)] show ?thesis by (simp add: gate_inv_def)
next
  case (busy now)
  with refill_props(1) [OF assms busy(1-3)] show ?thesis by (simp add: gate_inv_def gate_consts)
next
  case (granted now)
  with refill_props(1) [OF assms granted(1-3)] show ?thesis
    by (simp add: gate_inv_def gate_consts split: if_splits)
qed (simp_all add: assms clock_reject_props)

lemma release_inv: "gate_inv g \<Longrightarrow> gate_inv (fst (release g l))"
  by (auto simp: gate_inv_def release_def active_lease_def charged_def split: option.splits if_splits)

lemma gate_extends_same_clock:
  assumes "gate_extends g h" "ga_last k = ga_last h" "ga_instance_id k = ga_instance_id h"
    "charged h \<le> charged k" "potential k \<le> potential h"
  shows "gate_extends g k"
  using assms by (auto simp: gate_extends_def split: option.splits)

lemma acquire_extends:
  assumes "gate_inv g"
  shows "gate_extends g (fst (acquire g p reading token))"
proof (cases rule: acquire_cases [of p g reading token])
  case unchanged
  then show ?thesis by (auto simp: gate_extends_def split: option.splits)
next
  case clock
  then show ?thesis by (simp add: clock_reject_props)
next
  case (limited now)
  from refill_props(2) [OF assms limited(1-3)] show ?thesis
    by (rule gate_extends_same_clock) (simp_all add: limited(5) charged_def potential_def)
next
  case (busy now)
  from refill_props(2) [OF assms busy(1-3)] show ?thesis
    by (rule gate_extends_same_clock) (simp_all add: busy(6) charged_def potential_def algebra_simps)
next
  case (granted now)
  from refill_props(2) [OF assms granted(1-3)] show ?thesis
    by (rule gate_extends_same_clock) (simp_all add: granted(7) charged_def potential_def algebra_simps)
qed

lemma release_extends: "gate_extends g (fst (release g l))"
  by (auto simp: gate_extends_def release_def charged_def potential_def split: option.splits)

lemma gate_extends_trans: "gate_extends a b \<Longrightarrow> gate_extends b c \<Longrightarrow> gate_extends a c"
  by (auto simp: gate_extends_def split: option.splits)

interpretation gate: monotone_machine gate_step "\<lambda>g. \<exists>i. g = new_gates i" gate_inv gate_extends
proof
  show "gate_inv g" if "\<exists>i. g = new_gates i" for g
    using that by (auto simp: new_gates_def gate_inv_def charged_def gate_consts)
  show "gate_inv (gate_step g c)" if "gate_inv g" for g c
    using that by (cases c) (auto intro: acquire_inv release_inv)
  show "gate_extends g g" for g
    by (auto simp: gate_extends_def split: option.splits)
  show "gate_extends a c" if "gate_extends a b" "gate_extends b c" for a b c
    using that by (rule gate_extends_trans)
  show "gate_extends g (gate_step g c)" if "gate_inv g" for g c
    using that by (cases c) (auto intro: acquire_extends release_extends)
qed

section \<open>Leases\<close>

lemma release_not_active: "\<not> active_lease g l \<Longrightarrow> release g l = (g, Inl GE_lease_not_active)"
  by (simp add: release_def)

lemma active_lease_refill [simp]: "active_lease (refill g now) l \<longleftrightarrow> active_lease g l"
  by (simp add: active_lease_def refill_def split: option.split)

lemma ga_active_refill [simp]:
  "ga_active_token (refill g now) = ga_active_token g" "ga_instance_id (refill g now) = ga_instance_id g"
  "ga_global_active (refill g now) = ga_global_active g"
  "ga_producer_active (refill g now) = ga_producer_active g"
  by (simp_all add: refill_def split: option.split)

text \<open>While a slot is taken an attempt changes neither its owner nor grants it.\<close>

lemma acquire_busy_keeps:
  assumes "ga_global_active g \<noteq> 0"
  shows "ga_active_token (fst (acquire g p reading token)) = ga_active_token g"
    "ga_global_active (fst (acquire g p reading token)) = ga_global_active g"
    "ga_producer_active (fst (acquire g p reading token)) = ga_producer_active g"
    "ga_instance_id (fst (acquire g p reading token)) = ga_instance_id g"
    "snd (acquire g p reading token) = Inr d \<Longrightarrow> gd_disposition d \<noteq> Gate_accepted"
  by (cases rule: acquire_cases [of p g reading token];
      use assms in \<open>auto simp: clock_reject_def\<close>)+

definition releases_token :: "string \<Rightarrow> gate_command \<Rightarrow> bool" where
  "releases_token token c = (case c of
     Release l \<Rightarrow> sha256_hex (le_ownership_token l) = sha256_hex token | _ \<Rightarrow> False)"

lemma active_lease_step:
  assumes "active_lease g l" "\<not> releases_token (le_ownership_token l) c"
  shows "active_lease (gate_step g c) l"
proof (cases c)
  case (Acquire p reading token)
  with assms acquire_busy_keeps(1-4) [of g p reading token] show ?thesis
    by (auto simp: active_lease_def)
next
  case (Release l')
  with assms show ?thesis
    by (auto simp: active_lease_def release_def releases_token_def)
qed

lemma active_lease_run:
  "active_lease g l \<Longrightarrow> list_all (\<lambda>c. \<not> releases_token (le_ownership_token l) c) cs \<Longrightarrow>
     active_lease (foldl gate_step g cs) l"
  by (induction cs arbitrary: g) (auto intro: active_lease_step)

lemma granted_active:
  assumes "acquire g p reading token = (h, Inr d)" "gd_disposition d = Gate_accepted"
    "is_uuid4 (ga_instance_id g)" "is_b64url_32 token"
  obtains l where "gd_lease d = Some l" "active_lease h l" "le_ownership_token l = token"
    "ga_global_active g = 0"
proof (cases rule: acquire_cases [of p g reading token])
  case (granted now)
  let ?l = "\<lparr>le_producer_id = REGISTERED_UNSW_PRODUCER_ID, le_gate_instance_id = ga_instance_id g,
    le_ownership_token = token\<rparr>"
  show ?thesis
    by (rule that [of ?l]) (use granted assms in \<open>auto simp: active_lease_def\<close>)
qed (use assms in auto)

definition grants_token :: "string \<Rightarrow> gate_command \<Rightarrow> bool" where
  "grants_token token c = (case c of
     Acquire _ _ t \<Rightarrow> sha256_hex t = sha256_hex token | _ \<Rightarrow> False)"

lemma inactive_token_step:
  assumes "ga_active_token g \<noteq> Some (sha256_hex token)" "\<not> grants_token token c"
  shows "ga_active_token (gate_step g c) \<noteq> Some (sha256_hex token)"
proof (cases c)
  case (Acquire p reading t)
  with assms show ?thesis
    by (cases rule: acquire_cases [of p g reading t]) (auto simp: grants_token_def clock_reject_def)
next
  case (Release l)
  with assms show ?thesis by (simp add: release_def)
qed

lemma inactive_token_run:
  "ga_active_token g \<noteq> Some (sha256_hex token) \<Longrightarrow> list_all (\<lambda>c. \<not> grants_token token c) cs \<Longrightarrow>
     ga_active_token (foldl gate_step g cs) \<noteq> Some (sha256_hex token)"
  by (induction cs arbitrary: g) (auto dest: inactive_token_step)

section \<open>The contract of the gates\<close>

text \<open>In every state a new gate can reach through any sequence of acquire and release calls,
  in any interleaving and with any clock readings, the bucket holds between zero and two tokens, at
  most one execution is active, the per-producer and the global counts agree, and the accepted
  attempts are exactly the released ones plus the active one.\<close>

theorem gate_counts:
  "let s = gate_snapshot_of (foldl gate_step (new_gates i) cs) in
     0 \<le> sn_available_tokens s \<and> sn_available_tokens s \<le> 2 \<and>
     sn_global_active s \<in> {0, 1} \<and> sn_producer_active s = sn_global_active s \<and>
     sn_accepted s = sn_released s + sn_global_active s"
proof -
  have "gate_inv (foldl gate_step (new_gates i) cs)" by (rule gate.inv_from_start) blast
  then show ?thesis
    by (auto simp: gate_snapshot_of_def Let_def gate_inv_def gate_consts)
qed

text \<open>C28: Rate limit over every window of a run: between two points with accepted clock readings
  \<open>a\<close> and \<open>b\<close> the attempts that consumed a token (accepted or refused as busy) number at most two
  plus one for each full ten seconds elapsed, whatever the interleaving and the readings between.\<close>

theorem gate_rate_bound:
  assumes "m \<le> n"
    and "g = foldl gate_step (new_gates i) (take m cs)" "h = foldl gate_step (new_gates i) (take n cs)"
    and "ga_last g = Some a" "ga_last h = Some b"
  shows "a \<le> b \<and> 0 \<le> charged h - charged g \<and>
    charged h - charged g \<le> 2 + (b - a) div RATE_REFILL_INTERVAL_NS"
proof -
  have "gate_extends g h"
    unfolding assms(2,3) by (rule gate.extends_later) (use assms(1) in blast)+
  then have ext: "a \<le> b" "charged g \<le> charged h" "potential h \<le> potential g + (b - a)"
    using assms(4,5) by (auto simp: gate_extends_def)
  have "gate_inv g" "gate_inv h"
    unfolding assms(2,3) by (rule gate.inv_from_start; blast)+
  then have "10000000000 * (charged h - charged g) \<le> 20000000000 + (b - a)"
    using ext(3) by (simp add: potential_def gate_inv_def gate_consts)
  then have "(10000000000 * (charged h - charged g)) div 10000000000 \<le>
      (20000000000 + (b - a)) div 10000000000"
    by (rule zdiv_mono1) simp
  with ext show ?thesis by (simp add: gate_consts)
qed

definition sample_producer :: admitted_producer where
  "sample_producer = \<lparr>ap_producer_id = REGISTERED_UNSW_PRODUCER_ID,
     ap_credential_id = replicate 64 CHR ''a'', ap_contracts = [REGISTERED_UNSW_SOURCE_CONTRACT]\<rparr>"

theorem gate_rate_bound_witness:
  "let cs = [Acquire sample_producer (Some 5) ''t'', Acquire sample_producer (Some 25) ''t'',
       Acquire sample_producer (Some 10000000031) ''t''];
     g = foldl gate_step (new_gates ''i'') (take 2 cs); h = foldl gate_step (new_gates ''i'') (take 3 cs)
   in ga_last g = Some 25 \<and> ga_last h = Some 10000000031 \<and> charged h - charged g = 1 \<and>
      charged h - charged g \<le> 2 + (10000000031 - 25) div RATE_REFILL_INTERVAL_NS"
proof -
  let ?cs = "[Acquire sample_producer (Some 5) ''t'', Acquire sample_producer (Some 25) ''t'',
       Acquire sample_producer (Some 10000000031) ''t'']"
  let ?g = "foldl gate_step (new_gates ''i'') (take 2 ?cs)" and ?h = "foldl gate_step (new_gates ''i'') (take 3 ?cs)"
  have v: "ga_last ?g = Some 25" "ga_last ?h = Some 10000000031" "charged ?h - charged ?g = 1"
    by (simp_all add: acquire_def new_gates_def refill_def read_clock_def gate_consts charged_def
        validate_producer_def sample_producer_def Let_def)
  show ?thesis
    using gate_rate_bound [of 2 3 ?g "''i''" ?cs ?h 25 10000000031] v by (simp add: Let_def)
qed

text \<open>C16: Mutual exclusion.  An attempt is accepted only when no execution is active; from then on,
  until a release presents a lease whose token has the same SHA-256 digest, every further attempt in
  any sequence of calls is refused and the granted lease stays the active one.\<close>

theorem lease_exclusive:
  assumes "acquire g p reading token = (h, Inr d)" "gd_disposition d = Gate_accepted"
    and "is_uuid4 (ga_instance_id g)" "is_b64url_32 token"
    and "list_all (\<lambda>c. \<not> releases_token token c) cs"
  shows "ga_global_active g = 0 \<and> (\<exists>l. gd_lease d = Some l \<and> active_lease (foldl gate_step h cs) l) \<and>
    (\<forall>p' reading' token' d'. snd (acquire (foldl gate_step h cs) p' reading' token') = Inr d' \<longrightarrow>
       gd_disposition d' \<noteq> Gate_accepted)"
proof -
  obtain l where l: "gd_lease d = Some l" "active_lease h l" "le_ownership_token l = token"
    "ga_global_active g = 0"
    using granted_active [OF assms(1-4)] by blast
  have "active_lease (foldl gate_step h cs) l"
    using l assms(5) by (intro active_lease_run) simp_all
  moreover from this have "ga_global_active (foldl gate_step h cs) \<noteq> 0"
    by (simp add: active_lease_def)
  ultimately show ?thesis using l acquire_busy_keeps(5) by blast
qed

definition sample_instance :: string where
  "sample_instance = ''11111111-1111-4111-8111-111111111111''"

definition sample_token :: string where
  "sample_token = replicate 42 CHR ''a'' @ ''A''"

lemma sample_gate_shapes: "is_uuid4 sample_instance" "is_b64url_32 sample_token"
  by code_simp+

lemma sample_granted:
  "acquire (new_gates sample_instance) sample_producer (Some 5) sample_token =
     (fst (acquire (new_gates sample_instance) sample_producer (Some 5) sample_token),
      Inr \<lparr>gd_disposition = Gate_accepted, gd_lease = Some \<lparr>le_producer_id = REGISTERED_UNSW_PRODUCER_ID,
         le_gate_instance_id = sample_instance, le_ownership_token = sample_token\<rparr>\<rparr>)"
  by (simp add: acquire_def new_gates_def refill_def read_clock_def gate_consts
        validate_producer_def sample_producer_def Let_def)

theorem lease_exclusive_witness:
  "\<exists>h d. acquire (new_gates sample_instance) sample_producer (Some 5) sample_token = (h, Inr d) \<and>
     (\<forall>p' reading' token' d'. snd (acquire (foldl gate_step h
         [Acquire sample_producer (Some 9) sample_token]) p' reading' token') = Inr d' \<longrightarrow>
       gd_disposition d' \<noteq> Gate_accepted)"
  using lease_exclusive [OF sample_granted, of "[Acquire sample_producer (Some 9) sample_token]"]
    sample_granted sample_gate_shapes
  by (auto simp: new_gates_def releases_token_def)

text \<open>A lease is released exactly once.  Releasing the active lease succeeds, frees the slot and
  counts one release; after it, no sequence of calls that does not grant a token with the same SHA-256
  digest again makes a second release of that lease succeed, and the failed release changes nothing.\<close>

theorem release_once:
  assumes "active_lease g l" "list_all (\<lambda>c. \<not> grants_token (le_ownership_token l) c) cs"
  shows "let (h, r) = release g l; k = foldl gate_step h cs in
    r = Inr () \<and> ga_active_token h = None \<and> ga_global_active h = 0 \<and>
    ga_released h = ga_released g + 1 \<and> release k l = (k, Inl GE_lease_not_active)"
proof -
  let ?h = "fst (release g l)"
  have h: "release g l = (?h, Inr ())" "ga_active_token ?h = None" "ga_global_active ?h = 0"
    "ga_released ?h = ga_released g + 1"
    using assms(1) by (simp_all add: release_def)
  then have "ga_active_token (foldl gate_step ?h cs) \<noteq> Some (sha256_hex (le_ownership_token l))"
    using assms(2) by (intro inactive_token_run) simp_all
  then have "release (foldl gate_step ?h cs) l = (foldl gate_step ?h cs, Inl GE_lease_not_active)"
    by (intro release_not_active) (simp add: active_lease_def)
  moreover have "snd (release g l) = Inr ()" using arg_cong [OF h(1), of snd] by simp
  ultimately show ?thesis using h(2-4) by (simp add: Let_def split_beta)
qed

theorem release_once_witness:
  "\<exists>g l. active_lease g l \<and>
     (let k = fst (release g l) in release k l = (k, Inl GE_lease_not_active))"
proof -
  obtain l where l: "active_lease (fst (acquire (new_gates sample_instance) sample_producer (Some 5) sample_token)) l"
    using granted_active [OF sample_granted] sample_gate_shapes by (auto simp: new_gates_def)
  with release_once [OF l, of "[]"] show ?thesis by (auto simp: Let_def split_beta)
qed

text \<open>A block run under \<^verbatim>\<open>lease_context\<close> that leaves its lease active always ends with the slot
  free and one more release counted, and its own outcome (a value or an exception) is what the
  context yields.\<close>

theorem lease_context_releases:
  assumes "active_lease g l" "active_lease (fst (block g)) l"
  shows "\<exists>h. lease_context g l block = (h, Inr (snd (block g))) \<and> ga_active_token h = None \<and>
    ga_global_active h = 0 \<and> ga_released h = ga_released (fst (block g)) + 1"
  using assms by (auto simp: lease_context_def release_def split_beta Let_def)

theorem lease_context_releases_witness:
  "\<exists>g l h. lease_context g l (\<lambda>g. (g, Inl ''boom'' :: string + unit)) = (h, Inr (Inl ''boom'')) \<and>
     ga_active_token h = None"
proof -
  obtain l where l: "active_lease (fst (acquire (new_gates sample_instance) sample_producer (Some 5) sample_token)) l"
    using granted_active [OF sample_granted] sample_gate_shapes by (auto simp: new_gates_def)
  with lease_context_releases [OF l, of "\<lambda>g. (g, Inl ''boom'' :: string + unit)"] show ?thesis by auto
qed

end
