(* ===== verification/Json_Facts.thy ===== *)
theory Json_Facts
  imports Json Digest
begin

text \<open>
  The codec is faithful: parsing the printed text of a value gives the value
  back (with object members in key order), for values whose strings are ASCII,
  whose object keys are distinct and whose floats print as JSON numbers that
  read back.
\<close>

section \<open>Strings\<close>

definition ascii :: "string \<Rightarrow> bool" where
  "ascii s \<longleftrightarrow> list_all (\<lambda>c. of_char c < (128 :: nat)) s"

lemma hex4_val_hex4:
  assumes "n < 65536"
  shows "hex4_val (hex4 n @ rest) = Some (n, rest)"
proof -
  have h: "hex_val (if d < 10 then char_of (48 + d) else char_of (87 + d)) = Some d" if "d < 16" for d
  proof -
    have "d \<in> set [0..<16]" using that by simp
    moreover have "\<forall>d \<in> set [0..<16].
        hex_val (if d < 10 then char_of (48 + d) else char_of (87 + d)) = Some d"
      by code_simp
    ultimately show ?thesis by blast
  qed
  define a b c d where abcd: "a = n div 4096 mod 16" "b = n div 256 mod 16" "c = n div 16 mod 16"
    "d = n mod 16"
  have lt: "a < 16" "b < 16" "c < 16" "d < 16" by (simp_all add: abcd)
  have sum: "((a * 16 + b) * 16 + c) * 16 + d = n"
  proof -
    have "n div 4096 < 16" using assms by linarith
    then have "a = n div 256 div 16" using div_mult2_eq [of n 256 16] by (simp add: abcd)
    then have "a * 16 + b = n div 256" using div_mult_mod_eq [of "n div 256" 16] by (simp only: abcd(2))
    moreover have "n div 256 = n div 16 div 16" using div_mult2_eq [of n 16 16] by simp
    then have "n div 256 * 16 + c = n div 16"
      using div_mult_mod_eq [of "n div 16" 16] by (simp only: abcd(3))
    ultimately show ?thesis using div_mult_mod_eq [of n 16] by (simp only: abcd(4))
  qed
  have "hex4 n = map (\<lambda>d. if d < 10 then char_of (48 + d) else char_of (87 + d)) [a, b, c, d]"
    by (simp only: hex4_def abcd)
  then have "hex4_val (hex4 n @ rest) = Some (((a * 16 + b) * 16 + c) * 16 + d, rest)"
    using h [OF lt(1)] h [OF lt(2)] h [OF lt(3)] h [OF lt(4)] by simp
  with sum show ?thesis by simp
qed

lemma of_char_eqD: "(of_char c :: nat) = of_char d \<Longrightarrow> c = d"
  by (simp only: of_char_eq_iff)

lemma scan_esc_char:
  assumes "of_char c < (128 :: nat)"
  shows "scan_string (esc_char c @ s) = map_option (\<lambda>(x, y). (c # x, y)) (scan_string s)"
proof -
  let ?n = "of_char c :: nat"
  have code: "code_point_bytes ?n = [c]" using assms by (simp add: code_point_bytes_def)
  have u: "unicode_escape (hex4 ?n @ s) = Some ([c], s)"
    using hex4_val_hex4 [of ?n s] assms code by (simp add: unicode_escape_def)
  consider "c = CHR 0x22" | "c = CHR 0x5C" | "?n = 10" | "?n = 13" | "?n = 9" | "?n = 12" | "?n = 8"
    | (plain) "c \<noteq> CHR 0x22" "c \<noteq> CHR 0x5C" "32 \<le> ?n" "?n \<le> 126"
    | (uni) "c \<noteq> CHR 0x22" "c \<noteq> CHR 0x5C" "\<not> (32 \<le> ?n \<and> ?n \<le> 126)" "?n \<noteq> 10" "?n \<noteq> 13" "?n \<noteq> 9"
        "?n \<noteq> 12" "?n \<noteq> 8"
    by blast
  then show ?thesis
  proof cases
    case plain
    then have "esc_char c = [c]" by (simp add: esc_char_def Let_def)
    with plain show ?thesis by simp
  next
    case uni
    then have "esc_char c = CHR 0x5C # CHR ''u'' # hex4 ?n" by (simp add: esc_char_def Let_def)
    with u show ?thesis by simp
  next
    case 3
    then have "c = CHR 0x0A" by (intro of_char_eqD) simp
    then show ?thesis by (simp add: esc_char_def simple_escape_def)
  next
    case 4
    then have "c = CHR 0x0D" by (intro of_char_eqD) simp
    then show ?thesis by (simp add: esc_char_def simple_escape_def)
  next
    case 5
    then have "c = CHR 0x09" by (intro of_char_eqD) simp
    then show ?thesis by (simp add: esc_char_def simple_escape_def)
  next
    case 6
    then have "c = CHR 0x0C" by (intro of_char_eqD) simp
    then show ?thesis by (simp add: esc_char_def simple_escape_def)
  next
    case 7
    then have "c = CHR 0x08" by (intro of_char_eqD) simp
    then show ?thesis by (simp add: esc_char_def simple_escape_def)
  qed (simp_all add: esc_char_def simple_escape_def)
qed

lemma scan_quoted:
  "ascii s \<Longrightarrow> scan_string (concat (map esc_char s) @ CHR 0x22 # rest) = Some (s, rest)"
proof (induction s)
  case Nil
  then show ?case by simp
next
  case (Cons c s)
  then show ?case by (simp add: scan_esc_char ascii_def)
qed

text \<open>
  Any string, not only ASCII, is recovered from its literal: the scanner reads back
  its UTF-8 bytes.  So a literal is self-delimiting, and determines the string.
\<close>

lemma scan_esc_char_utf8:
  "scan_string (esc_char c @ s) = map_option (\<lambda>(x, y). (utf8_char c @ x, y)) (scan_string s)"
proof (cases "of_char c < (128 :: nat)")
  case True
  then show ?thesis by (simp add: scan_esc_char utf8_char_def Let_def)
next
  case False
  let ?n = "of_char c :: nat"
  have b: "?n < 256" by (rule of_char_bound)
  then have nb: "\<not> 55296 \<le> ?n" "?n < 2048" by linarith+
  have "c \<noteq> CHR 0x22" "c \<noteq> CHR 0x5C" using False by auto
  then have e: "esc_char c = CHR 0x5C # CHR ''u'' # hex4 ?n" using False by (simp add: esc_char_def Let_def)
  have "code_point_bytes ?n = utf8_char c"
    using nb(2) False by (simp add: code_point_bytes_def utf8_char_def Let_def)
  then have "unicode_escape (hex4 ?n @ s) = Some (utf8_char c, s)"
    using hex4_val_hex4 [of ?n s] b by (simp add: unicode_escape_def nb(1))
  then show ?thesis by (simp add: e)
qed

lemma scan_quoted_utf8:
  "scan_string (concat (map esc_char s) @ CHR 0x22 # rest) = Some (utf8 s, rest)"
  by (induction s) (simp_all add: scan_esc_char_utf8)

lemma quoted_prefix_free: "quoted s @ x = quoted t @ y \<longleftrightarrow> s = t \<and> x = y"
proof
  assume "quoted s @ x = quoted t @ y"
  then have "scan_string (concat (map esc_char s) @ CHR 0x22 # x) =
      scan_string (concat (map esc_char t) @ CHR 0x22 # y)"
    by (simp add: quoted_def)
  then show "s = t \<and> x = y" unfolding scan_quoted_utf8 by simp
qed simp

section \<open>Numbers\<close>

text \<open>Text that ends a number: the end, or a structural character or white space.\<close>

definition delim :: "string \<Rightarrow> bool" where
  "delim r \<longleftrightarrow> (case r of [] \<Rightarrow> True | c # _ \<Rightarrow> c \<in> set '',]}'' \<or> json_ws c)"

definition ends_number :: "char \<Rightarrow> bool" where
  "ends_number c \<longleftrightarrow> \<not> is_digit c \<and> c \<noteq> CHR ''.'' \<and> c \<noteq> CHR ''e'' \<and> c \<noteq> CHR ''E''"

lemma delim_ends: "delim (c # r) \<Longrightarrow> ends_number c"
  by (auto simp: delim_def json_ws_def ends_number_def is_digit_def char_in_def less_eq_char_def)

lemma takeWhile_digit_delim:
  assumes "delim r"
  shows "takeWhile is_digit (s @ r) = takeWhile is_digit s"
    and "dropWhile is_digit (s @ r) = dropWhile is_digit s @ r"
proof -
  have r: "r = [] \<or> \<not> is_digit (hd r)"
    using assms delim_ends by (cases r) (auto simp: ends_number_def)
  then show "takeWhile is_digit (s @ r) = takeWhile is_digit s"
    by (induction s) (cases r; auto)+
  show "dropWhile is_digit (s @ r) = dropWhile is_digit s @ r"
    using r by (induction s) (cases r; auto)+
qed

text \<open>A float text: the number grammar with a fraction or an exponent.\<close>

definition float_text :: "string \<Rightarrow> bool" where
  "float_text t \<longleftrightarrow> t \<noteq> [] \<and> hd t \<noteq> CHR ''-'' \<and>
     (case int_part t of None \<Rightarrow> False
      | Some (ip, r1) \<Rightarrow>
        (let (fp, r2) = frac_part r1; (ep, r3) = exp_part r2
         in r3 = [] \<and> ip @ fp @ ep = t \<and> \<not> (fp = [] \<and> ep = [])))"

lemma int_part_delim:
  "delim r \<Longrightarrow> int_part s = Some (ip, q) \<Longrightarrow> int_part (s @ r) = Some (ip, q @ r)"
  by (cases s) (auto simp: int_part_def span_digits_def takeWhile_digit_delim split: if_splits)

lemma frac_part_delim:
  assumes "delim r" "frac_part s = (fp, q)"
  shows "frac_part (s @ r) = (fp, q @ r)"
proof (cases s)
  case Nil
  with assms show ?thesis
    using delim_ends by (cases r) (auto simp: frac_part_def ends_number_def)
next
  case (Cons c t)
  show ?thesis
  proof (cases "c = CHR ''.''")
    case True
    show ?thesis
    proof (cases t)
      case Nil
      then show ?thesis
        using assms \<open>s = c # t\<close> True delim_ends
        by (cases r) (auto simp: frac_part_def ends_number_def)
    next
      case (Cons d u)
      then show ?thesis
        using assms \<open>s = c # t\<close> True takeWhile_digit_delim [OF assms(1), of t]
        by (auto simp: frac_part_def split: if_splits)
    qed
  next
    case False
    with assms Cons show ?thesis by (auto simp: frac_part_def)
  qed
qed

lemma exp_part_delim:
  assumes "delim r" "exp_part s = (ep, [])" "ep = s"
  shows "exp_part (s @ r) = (ep, r)"
proof (cases s)
  case Nil
  with assms show ?thesis
    using delim_ends by (cases r) (auto simp: exp_part_def ends_number_def)
next
  case (Cons c t)
  define sg where "sg = (case t of [] \<Rightarrow> [] | d # _ \<Rightarrow> if d = CHR ''+'' \<or> d = CHR ''-'' then [d] else [])"
  have c: "c = CHR ''e'' \<or> c = CHR ''E''"
    and u: "drop (length sg) t \<noteq> []" "is_digit (hd (drop (length sg) t))"
    and d: "dropWhile is_digit (drop (length sg) t) = []"
    and e: "ep = c # sg @ takeWhile is_digit (drop (length sg) t)"
    using assms(2,3) Cons by (auto simp: exp_part_def Let_def sg_def split: if_splits)
  have t: "t \<noteq> []" using u(1) by auto
  have sg': "(case t @ r of [] \<Rightarrow> [] | d # _ \<Rightarrow> if d = CHR ''+'' \<or> d = CHR ''-'' then [d] else []) = sg"
    using t by (cases t) (auto simp: sg_def)
  have dr: "drop (length sg) (t @ r) = drop (length sg) t @ r"
    using t by (cases t) (auto simp: sg_def)
  show ?thesis
    using c u d e takeWhile_digit_delim [OF assms(1), of "drop (length sg) t"] t
    by (simp add: exp_part_def Cons Let_def sg' dr)
qed

lemma scan_float_text:
  assumes "float_text t" "delim r" "hk_float hk t = Some x"
  shows "scan_number hk (t @ r) = Some (JFloat x, r)"
proof -
  obtain ip r1 fp r2 ep where ip: "int_part t = Some (ip, r1)" and fp: "frac_part r1 = (fp, r2)"
    and ep: "exp_part r2 = (ep, [])" and eq: "ip @ fp @ ep = t" and ne: "\<not> (fp = [] \<and> ep = [])"
    and hd: "t \<noteq> []" "hd t \<noteq> CHR ''-''"
    using assms(1) by (auto simp: float_text_def Let_def split: option.splits prod.splits)
  have split: "s = ip @ q" if "int_part s = Some (ip, q)" for s ip q
    using that by (cases s) (auto simp: int_part_def span_digits_def split: if_splits)
  have split2: "s = fp @ q" if "frac_part s = (fp, q)" for s fp q
    using that by (cases s) (auto simp: frac_part_def split: if_splits)
  have "ep = r2" using split [OF ip] split2 [OF fp] eq by simp
  then have "exp_part (r2 @ r) = (ep, r)" using exp_part_delim [OF assms(2) ep] by simp
  moreover have "frac_part (r1 @ r) = (fp, r2 @ r)" by (rule frac_part_delim [OF assms(2) fp])
  moreover have "int_part (t @ r) = Some (ip, r1 @ r)" by (rule int_part_delim [OF assms(2) ip])
  moreover obtain a t' where "t = a # t'" "a \<noteq> CHR ''-''" using hd by (cases t) auto
  ultimately show ?thesis
    using ne eq assms(3) by (auto simp: scan_number_def Let_def)
qed

lemma dec_digits_digits: "list_all is_digit (dec_digits n)"
proof (induction n rule: dec_digits.induct)
  case (1 n)
  have d: "is_digit (char_of (48 + k :: nat))" if "k < 10" for k
  proof -
    have "k \<in> set [0..<10]" using that by simp
    moreover have "\<forall>k \<in> set [0..<10]. is_digit (char_of (48 + k :: nat))" by code_simp
    ultimately show ?thesis by blast
  qed
  show ?case
  proof (cases "n < 10")
    case True
    then show ?thesis by (subst dec_digits.simps) (simp add: d)
  next
    case False
    with "1.IH" show ?thesis by (subst dec_digits.simps) (simp add: d)
  qed
qed

lemma nat_of_dec_digits: "nat_of_dec (dec_digits n) = n"
proof (induction n rule: dec_digits.induct)
  case (1 n)
  have v: "of_char (char_of (48 + k :: nat) :: char) - 48 = k" if "k < 10" for k :: nat
    using that by (simp only: of_char_of) simp
  show ?case
  proof (cases "n < 10")
    case True
    then show ?thesis by (subst dec_digits.simps) (simp add: nat_of_dec_def v)
  next
    case False
    have "nat_of_dec (dec_digits (n div 10) @ [char_of (48 + n mod 10)]) = 10 * (n div 10) + n mod 10"
      using "1.IH" [OF False] v [of "n mod 10"] by (simp add: nat_of_dec_def)
    with False show ?thesis by (subst dec_digits.simps) simp
  qed
qed

lemma dec_digits_hd: "n \<noteq> 0 \<Longrightarrow> dec_digits n \<noteq> [] \<and> hd (dec_digits n) \<noteq> CHR ''0''"
proof (induction n rule: dec_digits.induct)
  case (1 n)
  show ?case
  proof (cases "n < 10")
    case True
    with "1.prems" have "n \<in> set [1..<10]" by simp
    moreover have "\<forall>k \<in> set [1..<10]. (char_of (48 + k :: nat) :: char) \<noteq> CHR ''0''" by code_simp
    ultimately have "(char_of (48 + n) :: char) \<noteq> CHR ''0''" by blast
    with True show ?thesis by (subst (1 2) dec_digits.simps) simp
  next
    case False
    then have "n div 10 \<noteq> 0" by simp
    with "1.IH" False show ?thesis by (subst (1 2) dec_digits.simps) simp
  qed
qed

lemma dec_digits_0: "dec_digits 0 = ''0''"
  by (subst dec_digits.simps) code_simp

lemma int_part_dec:
  assumes "delim r"
  shows "int_part (dec_digits n @ r) = Some (dec_digits n, r)"
proof (cases "n = 0")
  case True
  then show ?thesis by (simp add: dec_digits_0 int_part_def)
next
  case False
  obtain c t where ct: "dec_digits n = c # t" "c \<noteq> CHR ''0''"
    using dec_digits_hd [OF False] by (cases "dec_digits n") auto
  have all: "\<forall>c \<in> set (dec_digits n). is_digit c"
    using dec_digits_digits [of n] by (simp add: list_all_iff)
  then have "takeWhile is_digit (dec_digits n) = dec_digits n" "dropWhile is_digit (dec_digits n) = []"
    by (simp_all add: takeWhile_eq_all_conv dropWhile_eq_Nil_conv)
  then have "span_digits (dec_digits n @ r) = (dec_digits n, r)"
    using takeWhile_digit_delim [OF assms, of "dec_digits n"] by (simp add: span_digits_def)
  with ct all show ?thesis by (simp add: int_part_def)
qed

lemma dec_digits_not_minus: "dec_digits n = c # t \<Longrightarrow> c \<noteq> CHR ''-''"
  using dec_digits_digits [of n]
  by (auto simp: is_digit_def char_in_def less_eq_char_def)

lemma dec_digits_neq_Nil: "dec_digits n \<noteq> []"
  by (subst dec_digits.simps) simp

lemma scan_dec_int:
  assumes "delim r" "length (dec_int i) \<le> 4300"
  shows "scan_number hk (dec_int i @ r) = Some (JInt i, r)"
proof -
  have fe: "frac_part r = ([], r)" "exp_part r = ([], r)"
    using assms(1) delim_ends
    by (cases r; auto simp: frac_part_def exp_part_def ends_number_def)+
  show ?thesis
  proof (cases "i < 0")
    case True
    then have "dec_int i = CHR ''-'' # dec_digits (nat (- i))" by (simp add: dec_int_def)
    with assms True int_part_dec [OF assms(1), of "nat (- i)"] fe show ?thesis
      by (simp add: scan_number_def Let_def nat_of_dec_digits)
  next
    case False
    then have d: "dec_int i = dec_digits (nat i)" by (simp add: dec_int_def)
    obtain c t where ct: "dec_digits (nat i) = c # t" using dec_digits_neq_Nil by (cases "dec_digits (nat i)") auto
    with dec_digits_not_minus have "c \<noteq> CHR ''-''" by blast
    with d ct assms False int_part_dec [OF assms(1), of "nat i"] fe nat_of_dec_digits [of "nat i"]
    show ?thesis by (simp add: scan_number_def Let_def)
  qed
qed


section \<open>Values\<close>

text \<open>What a value reads back as: members of every object in key order.\<close>

fun json_norm :: "json \<Rightarrow> json" where
  "json_norm (JArr xs) = JArr (map json_norm xs)"
| "json_norm (JObj kvs) = JObj (sort_key fst (map (\<lambda>(k, v). (k, json_norm v)) kvs))"
| "json_norm j = j"

fun json_ok :: "(pyfloat \<Rightarrow> string) \<Rightarrow> json_hooks \<Rightarrow> json \<Rightarrow> bool" where
  "json_ok frepr hk (JInt i) = (length (dec_int i) \<le> 4300)"
| "json_ok frepr hk (JFloat x) = (float_text (frepr x) \<and> hk_float hk (frepr x) = Some x)"
| "json_ok frepr hk (JStr s) = ascii s"
| "json_ok frepr hk (JArr xs) = list_all (json_ok frepr hk) xs"
| "json_ok frepr hk (JObj kvs) = (distinct (map fst kvs) \<and>
     list_all (\<lambda>(k, b). ascii k \<and> b) (map (\<lambda>(k, v). (k, json_ok frepr hk v)) kvs))"
| "json_ok frepr hk _ = True"

lemma insort_key_map_snd:
  "insort_key fst (k, f v) (map (\<lambda>(k, v). (k, f v)) xs) =
     map (\<lambda>(k, v). (k, f v)) (insort_key fst (k, v) xs)"
  by (induction xs) auto

lemma sort_key_map_snd:
  "sort_key fst (map (\<lambda>(k, v). (k, f v)) kvs) = map (\<lambda>(k, v). (k, f v)) (sort_key fst kvs)"
  by (induction kvs) (auto simp: insort_key_map_snd)

lemma json_dumps_obj:
  "json_dumps frepr (JObj kvs) = ''{'' @ join '',''
     (map (\<lambda>(k, v). quoted k @ '':'' @ json_dumps frepr v) (sort_key fst kvs)) @ ''}''"
  by (simp add: sort_key_map_snd comp_def) (simp add: case_prod_unfold)

lemma join_Cons: "join sep (x # xs) = x @ (if xs = [] then [] else sep @ join sep xs)"
  by (cases xs) auto

lemma delim_simps [simp]: "delim (CHR '','' # r)" "delim (CHR '']'' # r)" "delim (CHR ''}'' # r)" "delim []"
  by (simp_all add: delim_def)

lemma skip_ws_simps [simp]:
  "skip_ws (CHR '','' # r) = CHR '','' # r" "skip_ws (CHR '']'' # r) = CHR '']'' # r"
  "skip_ws (CHR ''}'' # r) = CHR ''}'' # r" "skip_ws (CHR '':'' # r) = CHR '':'' # r"
  "skip_ws (CHR 0x22 # r) = CHR 0x22 # r" "skip_ws [] = []"
  by (simp_all add: skip_ws_def json_ws_def)

text \<open>The first character of a printed value decides the scanner's branch.\<close>

definition value_start :: "char \<Rightarrow> bool" where
  "value_start c \<longleftrightarrow> c \<in> set ''{[ntf-'' \<or> c = CHR 0x22 \<or> is_digit c"

lemma value_start_ws: "value_start c \<Longrightarrow> skip_ws (c # t) = c # t \<and> c \<noteq> CHR '']'' \<and> c \<noteq> CHR ''}''"
proof -
  assume v: "value_start c"
  have "\<forall>c \<in> set ([CHR '' '', CHR 0x09, CHR 0x0A, CHR 0x0D] @ '']}''). \<not> value_start c" by code_simp
  with v have "c \<notin> set ([CHR '' '', CHR 0x09, CHR 0x0A, CHR 0x0D] @ '']}'')" by blast
  then show ?thesis by (simp add: skip_ws_def json_ws_def)
qed

lemma float_text_start: "float_text t \<Longrightarrow> \<exists>c u. t = c # u \<and> is_digit c"
  by (cases t) (auto simp: float_text_def int_part_def is_digit_def char_in_def less_eq_char_def
      split: if_splits)

lemma dec_int_start:
  "\<exists>c u. dec_int i = c # u \<and> (is_digit c \<or> c = CHR ''-'' \<and> u \<noteq> [] \<and> is_digit (hd u))"
proof -
  obtain c t where ct: "dec_digits (nat \<bar>i\<bar>) = c # t" using dec_digits_neq_Nil by (cases "dec_digits (nat \<bar>i\<bar>)") auto
  then have "is_digit c" using dec_digits_digits [of "nat \<bar>i\<bar>"] by simp
  with ct show ?thesis by (cases "i < 0") (auto simp: dec_int_def)
qed

lemma json_dumps_start:
  "json_ok frepr hk j \<Longrightarrow> \<exists>c t. json_dumps frepr j = c # t \<and> value_start c"
  using dec_int_start by (cases j) (auto simp: value_start_def quoted_def dest!: float_text_start, blast?)

lemma scan_once_number:
  assumes "is_digit c \<or> c = CHR ''-'' \<and> t \<noteq> [] \<and> is_digit (hd t)"
  shows "scan_once hk (Suc n) (c # t) = scan_number hk (c # t)"
proof -
  have "c \<noteq> CHR 0x22" "c \<noteq> CHR ''{''" "c \<noteq> CHR ''[''" "c \<noteq> CHR ''n''" "c \<noteq> CHR ''t''" "c \<noteq> CHR ''f''"
    using assms by (auto simp: is_digit_def char_in_def less_eq_char_def)
  moreover have "scan_constant (c # t) = None"
    using assms by (cases t) (auto simp: scan_constant_def is_digit_def char_in_def less_eq_char_def numeral_eq_Suc)
  ultimately show ?thesis by simp
qed

definition reads_back :: "(pyfloat \<Rightarrow> string) \<Rightarrow> json_hooks \<Rightarrow> json \<Rightarrow> bool" where
  "reads_back frepr hk j \<longleftrightarrow> (\<forall>n r. length (json_dumps frepr j) \<le> n \<longrightarrow> delim r \<longrightarrow>
     scan_once hk n (json_dumps frepr j @ r) = Some (json_norm j, r))"

lemma scan_array_dumps:
  assumes "xs \<noteq> []" "\<And>x. x \<in> set xs \<Longrightarrow> reads_back frepr hk x \<and> json_ok frepr hk x"
    and "length (join '','' (map (json_dumps frepr) xs)) < n"
  shows "scan_array hk n (join '','' (map (json_dumps frepr) xs) @ CHR '']'' # r) =
    Some (map json_norm xs, r)"
  using assms
proof (induction xs arbitrary: n)
  case Nil
  then show ?case by simp
next
  case (Cons x xs)
  obtain m where n: "n = Suc m" using Cons.prems(3) by (cases n) auto
  let ?d = "json_dumps frepr x" and ?J = "join '','' (map (json_dumps frepr) xs)"
  have x: "scan_once hk m (?d @ q) = Some (json_norm x, q)" if "delim q" for q
    using Cons.prems(2) [of x] Cons.prems(3) n that by (auto simp: reads_back_def join_Cons)
  show ?case
  proof (cases "xs = []")
    case True
    then show ?thesis using x [of "CHR '']'' # r"] n by simp
  next
    case False
    then obtain y ys where ys: "xs = y # ys" by (cases xs) auto
    obtain c t where ct: "json_dumps frepr y = c # t" "value_start c"
      using Cons.prems(2) [of y] ys json_dumps_start by fastforce
    have ws: "skip_ws (?J @ CHR '']'' # r) = ?J @ CHR '']'' # r"
      using value_start_ws [OF ct(2)] ct(1) ys by (simp add: join_Cons)
    have "scan_array hk m (?J @ CHR '']'' # r) = Some (map json_norm xs, r)"
      by (rule Cons.IH) (use False Cons.prems n in \<open>auto simp: join_Cons\<close>)
    then show ?thesis
      using x [of "CHR '','' # ?J @ CHR '']'' # r"] False n ws by (simp add: join_Cons)
  qed
qed

lemma scan_object_dumps:
  assumes "kvs \<noteq> []" "\<And>k v. (k, v) \<in> set kvs \<Longrightarrow> ascii k \<and> reads_back frepr hk v \<and> json_ok frepr hk v"
    and "length (join '','' (map (\<lambda>(k, v). quoted k @ '':'' @ json_dumps frepr v) kvs)) < n"
  shows "scan_object hk n
      (join '','' (map (\<lambda>(k, v). quoted k @ '':'' @ json_dumps frepr v) kvs) @ CHR ''}'' # r) =
    Some (map (\<lambda>(k, v). (k, json_norm v)) kvs, r)"
  using assms
proof (induction kvs arbitrary: n)
  case Nil
  then show ?case by simp
next
  case (Cons kv kvs)
  obtain k v where kv: "kv = (k, v)" by (cases kv)
  obtain m where n: "n = Suc m" using Cons.prems(3) by (cases n) auto
  let ?d = "json_dumps frepr v"
    and ?J = "join '','' (map (\<lambda>(k, v). quoted k @ '':'' @ json_dumps frepr v) kvs)"
  have ok: "ascii k" "reads_back frepr hk v" "json_ok frepr hk v"
    using Cons.prems(2) [of k v] kv by auto
  have v: "scan_once hk m (?d @ q) = Some (json_norm v, q)" if "delim q" for q
    using ok(2) Cons.prems(3) n that kv by (auto simp: reads_back_def join_Cons)
  obtain c t where ct: "?d = c # t" "value_start c" using json_dumps_start [OF ok(3)] by blast
  have ws: "skip_ws (?d @ q) = ?d @ q" for q using value_start_ws [OF ct(2)] ct(1) by simp
  have k: "scan_string (concat (map esc_char k) @ CHR 0x22 # q) = Some (k, q)" for q
    by (rule scan_quoted [OF ok(1)])
  show ?case
  proof (cases "kvs = []")
    case True
    then show ?thesis using v [of "CHR ''}'' # r"] n kv k ws by (simp add: quoted_def)
  next
    case False
    then obtain k' v' ys where ys: "kvs = (k', v') # ys" by (cases kvs) auto
    have ws2: "skip_ws (?J @ CHR ''}'' # r) = ?J @ CHR ''}'' # r"
      using ys by (simp add: join_Cons quoted_def)
    have "scan_object hk m (?J @ CHR ''}'' # r) = Some (map (\<lambda>(k, v). (k, json_norm v)) kvs, r)"
      by (rule Cons.IH) (use False Cons.prems n kv in \<open>auto simp: join_Cons\<close>)
    then show ?thesis
      using v [of "CHR '','' # ?J @ CHR ''}'' # r"] False n ws ws2 k kv by (simp add: join_Cons quoted_def)
  qed
qed

lemma json_reads_back: "json_ok frepr hk j \<Longrightarrow> reads_back frepr hk j"
proof (induction j)
  case (JInt i)
  obtain c u where cu: "dec_int i = c # u" "is_digit c \<or> c = CHR ''-'' \<and> u \<noteq> [] \<and> is_digit (hd u)"
    using dec_int_start by blast
  show ?case
    unfolding reads_back_def
  proof (intro allI impI)
    fix n r assume "length (json_dumps frepr (JInt i)) \<le> n" "delim r"
    moreover from this cu obtain m where "n = Suc m" by (cases n) auto
    moreover have "scan_once hk (Suc m) (c # u @ r) = scan_number hk (c # u @ r)" for m
      by (rule scan_once_number) (use cu in auto)
    ultimately show "scan_once hk n (json_dumps frepr (JInt i) @ r) = Some (json_norm (JInt i), r)"
      using scan_dec_int [of r i hk] JInt cu(1) by (simp del: scan_once.simps)
  qed
next
  case (JFloat x)
  obtain c u where cu: "frepr x = c # u" "is_digit c" using JFloat float_text_start by fastforce
  show ?case
    unfolding reads_back_def
  proof (intro allI impI)
    fix n r assume "length (json_dumps frepr (JFloat x)) \<le> n" "delim r"
    moreover from this cu obtain m where "n = Suc m" by (cases n) auto
    moreover have "scan_once hk (Suc m) (c # u @ r) = scan_number hk (c # u @ r)" for m
      by (rule scan_once_number) (use cu in auto)
    ultimately show "scan_once hk n (json_dumps frepr (JFloat x) @ r) = Some (json_norm (JFloat x), r)"
      using scan_float_text [of "frepr x" r hk x] JFloat cu(1) by (simp del: scan_once.simps)
  qed
next
  case (JStr s)
  show ?case
    unfolding reads_back_def
  proof (intro allI impI)
    fix n r assume "length (json_dumps frepr (JStr s)) \<le> n"
    then obtain m where "n = Suc m" by (cases n) (auto simp: quoted_def)
    with JStr show "scan_once hk n (json_dumps frepr (JStr s) @ r) = Some (json_norm (JStr s), r)"
      by (simp add: quoted_def scan_quoted)
  qed
next
  case (JArr xs)
  have el: "reads_back frepr hk x \<and> json_ok frepr hk x" if "x \<in> set xs" for x
    using JArr that by (auto simp: list_all_iff)
  show ?case
    unfolding reads_back_def
  proof (intro allI impI)
    fix n r assume len: "length (json_dumps frepr (JArr xs)) \<le> n"
    then obtain m where m: "n = Suc m" by (cases n) auto
    show "scan_once hk n (json_dumps frepr (JArr xs) @ r) = Some (json_norm (JArr xs), r)"
    proof (cases xs)
      case (Cons y ys)
      obtain c t where ct: "json_dumps frepr y = c # t" "value_start c"
        using el [of y] Cons json_dumps_start by fastforce
      have "scan_array hk m (join '','' (map (json_dumps frepr) xs) @ CHR '']'' # r) = Some (map json_norm xs, r)"
        by (rule scan_array_dumps) (use el Cons len m in auto)
      then show ?thesis
        using m value_start_ws [OF ct(2)] ct(1) Cons by (simp add: join_Cons)
    qed (simp add: m)
  qed
next
  case (JObj kvs)
  let ?s = "sort_key fst kvs"
  have el: "ascii k \<and> reads_back frepr hk v \<and> json_ok frepr hk v" if "(k, v) \<in> set ?s" for k v
    using JObj that by (fastforce simp: list_all_iff)
  show ?case
    unfolding reads_back_def
  proof (intro allI impI)
    fix n r assume len: "length (json_dumps frepr (JObj kvs)) \<le> n"
    then obtain m where m: "n = Suc m" by (cases n) auto
    show "scan_once hk n (json_dumps frepr (JObj kvs) @ r) = Some (json_norm (JObj kvs), r)"
    proof (cases ?s)
      case Nil
      then have "kvs = []" by (metis length_0_conv length_sort)
      then show ?thesis by (simp add: m)
    next
      case (Cons kv ys)
      obtain k v where kv: "kv = (k, v)" by (cases kv)
      have "scan_object hk m (join '','' (map (\<lambda>(k, v). quoted k @ '':'' @ json_dumps frepr v) ?s) @ CHR ''}'' # r)
          = Some (map (\<lambda>(k, v). (k, json_norm v)) ?s, r)"
        by (rule scan_object_dumps) (use el Cons len m in \<open>auto simp: json_dumps_obj simp del: json_dumps.simps(7)\<close>)
      moreover have "distinct (map fst (map (\<lambda>(k, v). (k, json_norm v)) ?s))"
        using JObj by (simp add: comp_def split_beta distinct_map)
      ultimately show ?thesis
        using m Cons kv
        by (simp add: json_dumps_obj join_Cons quoted_def sort_key_map_snd del: json_dumps.simps(7))
    qed
  qed
qed (auto simp: reads_back_def gr0_conv_Suc dest!: Suc_le_D)

theorem json_roundtrip:
  assumes "json_ok frepr hk j"
  shows "json_loads_with hk (json_dumps frepr j) = Some (json_norm j)"
    and "json_loads_with hk (json_dumps frepr j @ [CHR 0x0A]) = Some (json_norm j)"
proof -
  obtain c t where ct: "json_dumps frepr j = c # t" "value_start c" using json_dumps_start [OF assms] by blast
  have ws: "skip_ws (json_dumps frepr j @ r) = json_dumps frepr j @ r" for r
    using value_start_ws [OF ct(2)] ct(1) by simp
  have d: "delim [CHR 0x0A]" by (simp add: delim_def json_ws_def)
  show "json_loads_with hk (json_dumps frepr j @ [CHR 0x0A]) = Some (json_norm j)"
    using json_reads_back [OF assms] ws [of "[CHR 0x0A]"] d
    by (simp add: json_loads_with_def reads_back_def del: scan_once.simps)
      (simp add: skip_ws_def json_ws_def)
  show "json_loads_with hk (json_dumps frepr j) = Some (json_norm j)"
    using json_reads_back [OF assms, unfolded reads_back_def, rule_format,
        of "Suc (2 * length (json_dumps frepr j))" "[]"] ws [of "[]"]
    by (simp add: json_loads_with_def del: scan_once.simps)
qed

section \<open>Stripped text\<close>

lemma py_strip_idem: "py_strip (py_strip s) = py_strip s"
proof -
  have d: "dropWhile q (dropWhile q xs) = dropWhile q xs" for q and xs :: "char list"
    by (induction xs) auto
  have "dropWhile py_space (rev (dropWhile py_space (rev (dropWhile py_space s)))) =
      rev (dropWhile py_space (rev (dropWhile py_space s)))"
  proof (cases "dropWhile py_space s")
    case (Cons c t)
    then have "\<not> py_space c" by (metis dropWhile_eq_Cons_conv)
    moreover have "dropWhile q (xs @ [c]) = dropWhile q xs @ [c]" if "\<not> q c" for q and xs :: "char list"
      using that by (induction xs) auto
    ultimately have "rev (dropWhile py_space (rev (c # t))) = c # rev (dropWhile py_space (rev t))" by simp
    with Cons \<open>\<not> py_space c\<close> show ?thesis by simp
  next
    case Nil
    then show ?thesis by (simp only: dropWhile.simps rev.simps)
  qed
  then show ?thesis by (simp add: py_strip_def d)
qed

end
