(* ===== verification/Response.thy ===== *)
theory Response
  imports Admission Json_Facts
begin

text \<open>
  The response side of \<^verbatim>\<open>api/producer_admission.py\<close>: record dispositions, the
  two response schemas with their cross-field rules, the bounded serializer and
  the decoder that the replay journal applies to cached responses.  The decoder
  reads its fields as JSON values, so that a wrong type is an error as in the
  code.
\<close>

section \<open>Data\<close>

abbreviation INGEST_RESPONSE_SCHEMA :: string where
  "INGEST_RESPONSE_SCHEMA \<equiv> ''producer_ingest_response_v1''"

abbreviation ORCHESTRATOR_RESPONSE_SCHEMA :: string where
  "ORCHESTRATOR_RESPONSE_SCHEMA \<equiv> ''producer_ingest_response_v2''"

definition MAX_RESPONSE_BYTES :: nat where "MAX_RESPONSE_BYTES = 65536"

definition RESPONSE_DISPOSITIONS :: "string list" where
  "RESPONSE_DISPOSITIONS = [''created'', ''existing'', ''not_actionable'', ''rejected'', ''duplicate'',
     ''outcome_unknown'']"

definition LEGACY_RESPONSE_REASONS :: "string list" where
  "LEGACY_RESPONSE_REASONS = [''request_completed'', ''request_rejected'', ''request_in_progress'',
     ''request_replay_rejected'', ''outcome_unknown'', ''alert_candidate_created'',
     ''alert_candidate_already_exists'', ''alert_candidate_identity_conflict'',
     ''inference_not_actionable'', ''registered_event_invalid'', ''registered_event_unavailable'',
     ''registered_event_rejected'']"

definition RESPONSE_REASONS :: "string list" where
  "RESPONSE_REASONS = LEGACY_RESPONSE_REASONS @ [''rate_limited'', ''server_busy'',
     ''audit_unavailable'', ''internal_error'', ''processing_timeout'', ''inference_rejected'']"

definition V2_TOP_LEVEL_REASONS :: "string list" where
  "V2_TOP_LEVEL_REASONS = [''request_completed'', ''request_rejected'', ''request_in_progress'',
     ''request_replay_rejected'', ''outcome_unknown'', ''rate_limited'', ''server_busy'',
     ''audit_unavailable'', ''internal_error'', ''processing_timeout'']"

definition response_invalid :: adm_error where
  "response_invalid = fail_with AC_response_invalid 500 EV_internal_error"

definition response_overflow :: adm_error where
  "response_overflow = fail_with AC_internal_error 500 EV_internal_error"

record record_disposition =
  rd_record_index :: int
  rd_disposition :: string
  rd_reason :: string
  rd_predicted_class :: "string option"
  rd_attack_probability :: "pyfloat option"
  rd_alert_candidate_id :: "string option"

definition ALERT_ID_PREFIX :: string where "ALERT_ID_PREFIX = ''alert_candidate_v1:''"

definition is_alert_id :: "string \<Rightarrow> bool" where
  "is_alert_id s \<longleftrightarrow> starts_with ALERT_ID_PREFIX s \<and> is_sha256 (drop (length ALERT_ID_PREFIX) s)"

text \<open>\<^verbatim>\<open>ProducerRecordDisposition.__post_init__\<close>\<close>

definition valid_record_disposition :: "record_disposition \<Rightarrow> bool" where
  "valid_record_disposition r \<longleftrightarrow>
     1 \<le> rd_record_index r \<and> rd_record_index r \<le> int MAX_RECORDS \<and>
     rd_disposition r \<in> set RESPONSE_DISPOSITIONS \<and> rd_reason r \<in> set RESPONSE_REASONS \<and>
     (case rd_predicted_class r of None \<Rightarrow> True | Some c \<Rightarrow> c \<in> set [''Normal'', ''Attack'']) \<and>
     (rd_predicted_class r = None) = (rd_attack_probability r = None) \<and>
     (case rd_attack_probability r of None \<Rightarrow> True | Some p \<Rightarrow> is_probability p) \<and>
     (case rd_alert_candidate_id r of None \<Rightarrow> True | Some a \<Rightarrow>
        is_alert_id a \<and> rd_predicted_class r = Some ''Attack'' \<and>
        rd_disposition r \<in> set [''created'', ''existing''])"

record producer_response =
  pr_schema_version :: string
  pr_correlation_id :: string
  pr_reason :: string
  pr_records :: "record_disposition list"

definition v2_record_valid :: "record_disposition \<Rightarrow> bool" where
  "v2_record_valid r \<longleftrightarrow>
     (rd_disposition r \<in> set [''created'', ''existing''] \<and>
      rd_reason r = (if rd_disposition r = ''created'' then ''alert_candidate_created''
                     else ''alert_candidate_already_exists'') \<and>
      rd_predicted_class r = Some ''Attack'' \<and> rd_attack_probability r \<noteq> None \<and>
      rd_alert_candidate_id r \<noteq> None) \<or>
     (rd_disposition r = ''not_actionable'' \<and> rd_reason r = ''inference_not_actionable'' \<and>
      rd_predicted_class r = Some ''Normal'' \<and> rd_attack_probability r \<noteq> None \<and>
      rd_alert_candidate_id r = None) \<or>
     (rd_disposition r = ''rejected'' \<and> rd_reason r = ''inference_rejected'' \<and>
      rd_predicted_class r = None \<and> rd_attack_probability r = None \<and> rd_alert_candidate_id r = None)"

text \<open>\<^verbatim>\<open>ProducerResponse.__post_init__\<close>\<close>

definition valid_response :: "producer_response \<Rightarrow> bool" where
  "valid_response r \<longleftrightarrow>
     pr_schema_version r \<in> set [INGEST_RESPONSE_SCHEMA, ORCHESTRATOR_RESPONSE_SCHEMA] \<and>
     is_uuid4 (pr_correlation_id r) \<and> pr_reason r \<in> set RESPONSE_REASONS \<and>
     length (pr_records r) \<le> MAX_RECORDS \<and> list_all valid_record_disposition (pr_records r) \<and>
     map rd_record_index (pr_records r) = [1..int (length (pr_records r))] \<and>
     (pr_schema_version r = INGEST_RESPONSE_SCHEMA \<longrightarrow>
        pr_reason r \<in> set LEGACY_RESPONSE_REASONS \<and>
        list_all (\<lambda>d. rd_reason d \<in> set LEGACY_RESPONSE_REASONS \<and> rd_predicted_class d = None \<and>
           rd_attack_probability d = None \<and> rd_alert_candidate_id d = None) (pr_records r)) \<and>
     (pr_schema_version r = ORCHESTRATOR_RESPONSE_SCHEMA \<longrightarrow>
        pr_reason r \<in> set V2_TOP_LEVEL_REASONS \<and>
        (pr_reason r = ''request_completed'') = (pr_records r \<noteq> []) \<and>
        list_all v2_record_valid (pr_records r))"

section \<open>Serialization\<close>

definition opt_member :: "string \<Rightarrow> ('a \<Rightarrow> json) \<Rightarrow> 'a option \<Rightarrow> (string \<times> json) list" where
  "opt_member k f v = (case v of None \<Rightarrow> [] | Some x \<Rightarrow> [(k, f x)])"

definition record_json :: "record_disposition \<Rightarrow> json" where
  "record_json r = JObj
     ([(''record_index'', JInt (rd_record_index r)), (''disposition'', JStr (rd_disposition r)),
       (''reason'', JStr (rd_reason r))] @
      (case rd_predicted_class r of None \<Rightarrow> []
       | Some c \<Rightarrow> [(''predicted_class'', JStr c),
           (''attack_probability'', (case rd_attack_probability r of None \<Rightarrow> JNull | Some p \<Rightarrow> JFloat p))]) @
      opt_member ''alert_candidate_id'' JStr (rd_alert_candidate_id r))"

definition response_json :: "producer_response \<Rightarrow> json" where
  "response_json r = JObj
     [(''schema_version'', JStr (pr_schema_version r)), (''correlation_id'', JStr (pr_correlation_id r)),
      (''reason'', JStr (pr_reason r)), (''records'', JArr (map record_json (pr_records r)))]"

definition serialize_producer_response ::
  "(pyfloat \<Rightarrow> string) \<Rightarrow> producer_response \<Rightarrow> adm_error + string" where
  "serialize_producer_response frepr r =
     (let encoded = json_dumps frepr (response_json r) @ [CHR 0x0A] in
      if MAX_RESPONSE_BYTES < length encoded then Inl response_overflow else Inr encoded)"

section \<open>Decoding\<close>

definition present :: "(string \<times> json) list \<Rightarrow> string \<Rightarrow> json option" where
  "present kvs k = (case obj_get kvs k of Some JNull \<Rightarrow> None | v \<Rightarrow> v)"

definition as_str :: "json option \<Rightarrow> adm_error + string option" where
  "as_str v = (case v of None \<Rightarrow> Inr None | Some (JStr s) \<Rightarrow> Inr (Some s) | _ \<Rightarrow> Inl response_invalid)"

definition as_float :: "json option \<Rightarrow> adm_error + pyfloat option" where
  "as_float v = (case v of None \<Rightarrow> Inr None | Some (JFloat x) \<Rightarrow> Inr (Some x) | _ \<Rightarrow> Inl response_invalid)"

definition base_keys :: "string list" where
  "base_keys = [''record_index'', ''disposition'', ''reason'']"

definition v2_keys :: "string list" where
  "v2_keys = base_keys @ [''predicted_class'', ''attack_probability'', ''alert_candidate_id'']"

definition expected_keys :: "record_disposition \<Rightarrow> string list" where
  "expected_keys r = base_keys @
     (if rd_predicted_class r \<noteq> None then [''predicted_class'', ''attack_probability''] else []) @
     (if rd_alert_candidate_id r \<noteq> None then [''alert_candidate_id''] else [])"

definition decode_record_disposition :: "string \<Rightarrow> json \<Rightarrow> adm_error + record_disposition" where
  "decode_record_disposition schema v = (case v of
     JObj kvs \<Rightarrow>
       (let keys = set (map fst kvs);
            allowed = set (if schema = INGEST_RESPONSE_SCHEMA then base_keys else v2_keys) in
        if \<not> set base_keys \<subseteq> keys \<or> \<not> keys \<subseteq> allowed then Inl response_invalid
        else if (''predicted_class'' \<in> keys) \<noteq> (''attack_probability'' \<in> keys)
        then Inl response_invalid
        else case (obj_get kvs ''record_index'', obj_get kvs ''disposition'', obj_get kvs ''reason'') of
            (Some (JInt i), Some (JStr d), Some (JStr reason)) \<Rightarrow>
              bindE (as_str (present kvs ''predicted_class'')) (\<lambda>c.
              bindE (as_float (present kvs ''attack_probability'')) (\<lambda>p.
              bindE (as_str (present kvs ''alert_candidate_id'')) (\<lambda>a.
                let r = \<lparr>rd_record_index = i, rd_disposition = d, rd_reason = reason,
                         rd_predicted_class = c, rd_attack_probability = p,
                         rd_alert_candidate_id = a\<rparr> in
                if \<not> valid_record_disposition r then Inl response_invalid
                else if keys \<noteq> set (expected_keys r) then Inl response_invalid
                else Inr r)))
          | _ \<Rightarrow> Inl response_invalid)
   | _ \<Rightarrow> Inl response_invalid)"

definition decode_response_payload :: "(string \<times> json) list \<Rightarrow> adm_error + producer_response" where
  "decode_response_payload kvs =
     (if set (map fst kvs) \<noteq> set [''schema_version'', ''correlation_id'', ''reason'', ''records'']
      then Inl response_invalid
      else case (obj_get kvs ''records'', obj_get kvs ''schema_version'') of
          (Some (JArr vs), Some (JStr schema)) \<Rightarrow>
            if schema \<notin> set [INGEST_RESPONSE_SCHEMA, ORCHESTRATOR_RESPONSE_SCHEMA]
            then Inl response_invalid
            else bindE (mapE (decode_record_disposition schema) vs) (\<lambda>rs.
              case (obj_get kvs ''correlation_id'', obj_get kvs ''reason'') of
                (Some (JStr cid), Some (JStr reason)) \<Rightarrow>
                  (let r = \<lparr>pr_schema_version = schema, pr_correlation_id = cid, pr_reason = reason,
                            pr_records = rs\<rparr> in
                   if valid_response r then Inr r else Inl response_invalid)
              | _ \<Rightarrow> Inl response_invalid)
        | _ \<Rightarrow> Inl response_invalid)"

definition decode_producer_response :: "(string \<Rightarrow> pyfloat) \<Rightarrow> string \<Rightarrow> adm_error + producer_response" where
  "decode_producer_response fparse encoded =
     (if encoded = [] \<or> MAX_RESPONSE_BYTES < length encoded then Inl response_invalid
      else if \<not> utf8_valid encoded then Inl response_invalid
      else bindE (enforce_json_depth encoded) (\<lambda>_.
        case json_loads fparse encoded of
          Some (JObj kvs) \<Rightarrow> decode_response_payload kvs
        | _ \<Rightarrow> Inl response_invalid))"

lemma decode_producer_response_valid:
  "decode_producer_response fparse b = Inr r \<Longrightarrow> valid_response r \<and> b \<noteq> [] \<and> length b \<le> MAX_RESPONSE_BYTES"
  by (auto simp: decode_producer_response_def decode_response_payload_def Let_def
      split: bindE_splits if_splits option.splits json.splits)

end
