(* ===== verification/ReplayJournal.thy ===== *)
theory ReplayJournal
  imports Response
begin

text \<open>
  The durable replay journal of \<^verbatim>\<open>db/producer_replay_journal.py\<close>: the table
  \<^verbatim>\<open>replay_requests\<close> as the list of its rows with their CHECK constraints and
  unique indexes, and the three transactions \<^verbatim>\<open>claim\<close>, \<^verbatim>\<open>complete\<close> and
  \<^verbatim>\<open>recover_abandoned_generation\<close>.  A journal object is its service generation
  and a connection to the table; several generations act on one table.  The
  ownership token of a claim, the clock values and the engine's fault are
  arguments.
\<close>

section \<open>Rows\<close>

abbreviation REPLAY_RECORD_SCHEMA :: string where
  "REPLAY_RECORD_SCHEMA \<equiv> ''producer_replay_journal_record_v1''"

datatype journal_error =
    JE_unavailable | JE_busy | JE_write_failed | JE_record_invalid | JE_request_invalid
  | JE_replay_rejected | JE_claim_not_active | JE_cached_response_invalid | JE_recovery_request_invalid

datatype replay_state = In_progress | Completed | Outcome_unknown

record journal_row =
  jr_record_schema :: string
  jr_request_id :: string
  jr_producer_id :: string
  jr_credential_id :: string
  jr_nonce_sha256 :: string
  jr_body_sha256 :: string
  jr_produced_at :: string
  jr_received_at :: string
  jr_first_correlation_id :: string
  jr_method :: string
  jr_target :: string
  jr_content_type :: string
  jr_content_length :: int
  jr_source_contract :: string
  jr_record_count :: int
  jr_ordered_records_sha256 :: string
  jr_state :: replay_state
  jr_generation :: string
  jr_claim_token_sha256 :: "string option"
  jr_claimed_at :: string
  jr_completed_at :: "string option"
  jr_recovered_at :: "string option"
  jr_response_bytes :: "string option"
  jr_response_sha256 :: "string option"

definition len_between :: "nat \<Rightarrow> nat \<Rightarrow> string \<Rightarrow> bool" where
  "len_between lo hi s \<longleftrightarrow> lo \<le> length s \<and> length s \<le> hi"

definition null_or :: "('a \<Rightarrow> bool) \<Rightarrow> 'a option \<Rightarrow> bool" where
  "null_or p v \<longleftrightarrow> (case v of None \<Rightarrow> True | Some x \<Rightarrow> p x)"

text \<open>The table CHECK that ties the nullable columns to the state.\<close>

definition state_columns_ok :: "journal_row \<Rightarrow> bool" where
  "state_columns_ok r \<longleftrightarrow> (case jr_state r of
     In_progress \<Rightarrow> jr_claim_token_sha256 r \<noteq> None \<and> jr_completed_at r = None \<and>
       jr_recovered_at r = None \<and> jr_response_bytes r = None \<and> jr_response_sha256 r = None
   | Completed \<Rightarrow> jr_claim_token_sha256 r = None \<and> jr_completed_at r \<noteq> None \<and>
       jr_recovered_at r = None \<and> jr_response_bytes r \<noteq> None \<and> jr_response_sha256 r \<noteq> None
   | Outcome_unknown \<Rightarrow> jr_claim_token_sha256 r = None \<and> jr_completed_at r = None \<and>
       jr_recovered_at r \<noteq> None \<and> jr_response_bytes r = None \<and> jr_response_sha256 r = None)"

definition row_check :: "journal_row \<Rightarrow> bool" where
  "row_check r \<longleftrightarrow>
     jr_record_schema r = REPLAY_RECORD_SCHEMA \<and> length (jr_request_id r) = 36 \<and>
     len_between 1 128 (jr_producer_id r) \<and> is_sha256 (jr_credential_id r) \<and>
     is_sha256 (jr_nonce_sha256 r) \<and> is_sha256 (jr_body_sha256 r) \<and>
     len_between 20 32 (jr_produced_at r) \<and> len_between 20 32 (jr_received_at r) \<and>
     length (jr_first_correlation_id r) = 36 \<and> jr_method r = ''POST'' \<and>
     jr_target r = ''/v1/ingest/unsw-registered'' \<and> jr_content_type r = ''application/json'' \<and>
     1 \<le> jr_content_length r \<and> jr_content_length r \<le> int MAX_REQUEST_BODY_BYTES \<and>
     len_between 1 64 (jr_source_contract r) \<and>
     1 \<le> jr_record_count r \<and> jr_record_count r \<le> int MAX_RECORDS \<and>
     is_sha256 (jr_ordered_records_sha256 r) \<and> length (jr_generation r) = 36 \<and>
     null_or is_sha256 (jr_claim_token_sha256 r) \<and> len_between 20 32 (jr_claimed_at r) \<and>
     null_or (len_between 20 32) (jr_completed_at r) \<and> null_or (len_between 20 32) (jr_recovered_at r) \<and>
     null_or (len_between 1 MAX_RESPONSE_BYTES) (jr_response_bytes r) \<and>
     null_or is_sha256 (jr_response_sha256 r) \<and> state_columns_ok r"

record replay_claim =
  rc_request_id :: string
  rc_generation :: string
  rc_ownership_token :: string

datatype claim_reason = CR_request_claimed | CR_request_in_progress | CR_request_completed | CR_outcome_unknown

record claim_result =
  cl_disposition :: replay_state
  cl_reason :: claim_reason
  cl_claim :: "replay_claim option"
  cl_cached_response :: "string option"
  cl_first_correlation_id :: string

section \<open>Evidence\<close>

definition ordered_records_sha256 :: "event_reference list \<Rightarrow> string" where
  "ordered_records_sha256 rs = sha256_hex (''threatfusion:producer-replay-records'' @ [CHR 0x00] @
     concat (map (\<lambda>r. er_member_sha256 r @ be_bytes 8 (nat (er_row_number r))) rs))"

type_synonym evidence =
  "string \<times> string \<times> string \<times> string \<times> string \<times> string \<times> string \<times> string \<times> string \<times> int \<times> string \<times> int \<times> string"

definition record_evidence :: "admission_record \<Rightarrow> evidence" where
  "record_evidence r = (ar_producer_id r, ar_credential_id r, ar_request_id r, ar_nonce_sha256 r,
     ar_body_sha256 r, isoformat (ar_produced_at r), ar_method r, ar_target r, ar_content_type r,
     ar_content_length r, ar_source_contract r, int (length (ar_records r)),
     ordered_records_sha256 (ar_records r))"

definition row_evidence :: "journal_row \<Rightarrow> evidence" where
  "row_evidence r = (jr_producer_id r, jr_credential_id r, jr_request_id r, jr_nonce_sha256 r,
     jr_body_sha256 r, jr_produced_at r, jr_method r, jr_target r, jr_content_type r,
     jr_content_length r, jr_source_contract r, jr_record_count r, jr_ordered_records_sha256 r)"

section \<open>Transactions\<close>

definition database_error :: "sqlite_error \<Rightarrow> journal_error" where
  "database_error e = (case e of Sqlite_busy \<Rightarrow> JE_busy | Sqlite_other \<Rightarrow> JE_write_failed)"

text \<open>
  The frame of every operation: connect, begin, run the body, commit.  The body
  sees the table and gives the new table or an error; an error of the body or
  of the engine rolls back.
\<close>

definition transaction ::
  "sqlite_fault \<Rightarrow> journal_row list \<Rightarrow> journal_error + (journal_row list \<times> 'a) \<Rightarrow>
     journal_row list \<times> (journal_error + 'a)" where
  "transaction fault t body = (case fault of
     Fault_connect \<Rightarrow> (t, Inl JE_unavailable)
   | Fault_begin e \<Rightarrow> (t, Inl (database_error e))
   | _ \<Rightarrow> (case body of Inl e \<Rightarrow> (t, Inl e)
       | Inr (t', x) \<Rightarrow> (case fault of Fault_write e \<Rightarrow> (t, Inl (database_error e)) | _ \<Rightarrow> (t', Inr x))))"

definition existing_rows :: "journal_row list \<Rightarrow> admission_record \<Rightarrow> journal_row list" where
  "existing_rows t r = select_where
     (\<lambda>x. jr_request_id x = ar_request_id r \<or> jr_nonce_sha256 x = ar_nonce_sha256 r) t"

definition completed_response :: "(string \<Rightarrow> pyfloat) \<Rightarrow> journal_row \<Rightarrow> journal_error + string" where
  "completed_response fparse row = (case (jr_response_bytes row, jr_response_sha256 row) of
     (Some response, Some digest) \<Rightarrow>
       if sha256_hex response \<noteq> digest then Inl JE_record_invalid
       else (case decode_producer_response fparse response of Inl _ \<Rightarrow> Inl JE_record_invalid
         | Inr decoded \<Rightarrow>
             if pr_correlation_id decoded \<noteq> jr_first_correlation_id row then Inl JE_record_invalid
             else Inr response)
   | _ \<Rightarrow> Inl JE_record_invalid)"

definition replayed :: "replay_state \<Rightarrow> claim_reason \<Rightarrow> string option \<Rightarrow> journal_row \<Rightarrow> claim_result" where
  "replayed st reason cached row = \<lparr>cl_disposition = st, cl_reason = reason, cl_claim = None,
     cl_cached_response = cached, cl_first_correlation_id = jr_first_correlation_id row\<rparr>"

definition new_row :: "string \<Rightarrow> admission_record \<Rightarrow> datetime \<Rightarrow> string \<Rightarrow> journal_row" where
  "new_row gen r claimed_at token = \<lparr>jr_record_schema = REPLAY_RECORD_SCHEMA,
     jr_request_id = ar_request_id r, jr_producer_id = ar_producer_id r,
     jr_credential_id = ar_credential_id r, jr_nonce_sha256 = ar_nonce_sha256 r,
     jr_body_sha256 = ar_body_sha256 r, jr_produced_at = isoformat (ar_produced_at r),
     jr_received_at = isoformat (ar_received_at r), jr_first_correlation_id = ar_correlation_id r,
     jr_method = ar_method r, jr_target = ar_target r, jr_content_type = ar_content_type r,
     jr_content_length = ar_content_length r, jr_source_contract = ar_source_contract r,
     jr_record_count = int (length (ar_records r)),
     jr_ordered_records_sha256 = ordered_records_sha256 (ar_records r), jr_state = In_progress,
     jr_generation = gen, jr_claim_token_sha256 = Some (sha256_hex token),
     jr_claimed_at = isoformat claimed_at, jr_completed_at = None, jr_recovered_at = None,
     jr_response_bytes = None, jr_response_sha256 = None\<rparr>"

text \<open>INSERT under the CHECK constraints, the primary key and the unique indexes.\<close>

definition insert_row :: "journal_row list \<Rightarrow> journal_row \<Rightarrow> journal_error + journal_row list" where
  "insert_row t row =
     (if row_check row \<and> jr_request_id row \<notin> set (map jr_request_id t) \<and>
         jr_nonce_sha256 row \<notin> set (map jr_nonce_sha256 t)
      then Inr (t @ [row]) else Inl JE_write_failed)"

text \<open>UPDATE under the CHECK constraints (the key columns are not assigned).\<close>

definition update_rows ::
  "(journal_row \<Rightarrow> bool) \<Rightarrow> (journal_row \<Rightarrow> journal_row) \<Rightarrow> journal_row list \<Rightarrow> journal_error + journal_row list" where
  "update_rows p f t = (if list_all (\<lambda>r. p r \<longrightarrow> row_check (f r)) t
     then Inr (update_where p f t) else Inl JE_write_failed)"

definition claim_body ::
  "(string \<Rightarrow> pyfloat) \<Rightarrow> string \<Rightarrow> journal_row list \<Rightarrow> admission_record \<Rightarrow> datetime \<Rightarrow> string \<Rightarrow>
     journal_error + (journal_row list \<times> claim_result)" where
  "claim_body fparse gen t r claimed_at token = (case existing_rows t r of
     [] \<Rightarrow>
       if \<not> valid_admission_record r then Inl JE_request_invalid
       else bindE (insert_row t (new_row gen r claimed_at token)) (\<lambda>t'.
         Inr (t', \<lparr>cl_disposition = In_progress, cl_reason = CR_request_claimed,
             cl_claim = Some \<lparr>rc_request_id = ar_request_id r, rc_generation = gen,
               rc_ownership_token = token\<rparr>,
             cl_cached_response = None, cl_first_correlation_id = ar_correlation_id r\<rparr>))
   | row # others \<Rightarrow>
       if others \<noteq> [] \<or> row_evidence row \<noteq> record_evidence r then Inl JE_replay_rejected
       else (case jr_state row of
           In_progress \<Rightarrow> Inr (t, replayed In_progress CR_request_in_progress None row)
         | Completed \<Rightarrow> bindE (completed_response fparse row) (\<lambda>response.
             Inr (t, replayed Completed CR_request_completed (Some response) row))
         | Outcome_unknown \<Rightarrow> Inr (t, replayed Outcome_unknown CR_outcome_unknown None row)))"

definition claim ::
  "(string \<Rightarrow> pyfloat) \<Rightarrow> string \<Rightarrow> sqlite_fault \<Rightarrow> journal_row list \<Rightarrow> admission_record \<Rightarrow>
     datetime option \<Rightarrow> string \<Rightarrow> journal_row list \<times> (journal_error + claim_result)" where
  "claim fparse gen fault t r claimed_at token = (case claimed_at of
     None \<Rightarrow> (t, Inl JE_request_invalid)
   | Some ts \<Rightarrow> transaction fault t (claim_body fparse gen t r ts token))"

definition complete_row :: "datetime \<Rightarrow> string \<Rightarrow> journal_row \<Rightarrow> journal_row" where
  "complete_row ts response row = row\<lparr>jr_state := Completed, jr_claim_token_sha256 := None,
     jr_completed_at := Some (isoformat ts), jr_response_bytes := Some response,
     jr_response_sha256 := Some (sha256_hex response)\<rparr>"

definition complete_body ::
  "string \<Rightarrow> journal_row list \<Rightarrow> replay_claim \<Rightarrow> string \<Rightarrow> producer_response \<Rightarrow> datetime \<Rightarrow>
     journal_error + (journal_row list \<times> string)" where
  "complete_body gen t c response decoded ts =
     (case fetchone (\<lambda>x. jr_request_id x = rc_request_id c) t of
        None \<Rightarrow> Inl JE_claim_not_active
      | Some row \<Rightarrow>
          if jr_state row \<noteq> In_progress \<or> rc_generation c \<noteq> gen \<or> jr_generation row \<noteq> gen \<or>
             jr_claim_token_sha256 row \<noteq> Some (sha256_hex (rc_ownership_token c)) \<or>
             pr_correlation_id decoded \<noteq> jr_first_correlation_id row
          then Inl JE_claim_not_active
          else bindE (update_rows (\<lambda>x. jr_request_id x = rc_request_id c) (complete_row ts response) t)
            (\<lambda>t'. Inr (t', response)))"

definition complete ::
  "(string \<Rightarrow> pyfloat) \<Rightarrow> string \<Rightarrow> sqlite_fault \<Rightarrow> journal_row list \<Rightarrow> replay_claim \<Rightarrow> string \<Rightarrow>
     datetime option \<Rightarrow> journal_row list \<times> (journal_error + string)" where
  "complete fparse gen fault t c response completed_at = (case completed_at of
     None \<Rightarrow> (t, Inl JE_claim_not_active)
   | Some ts \<Rightarrow>
      if \<not> is_uuid4 (rc_request_id c) \<or> \<not> is_uuid4 (rc_generation c) \<or>
         \<not> is_b64url_32 (rc_ownership_token c)
      then (t, Inl JE_claim_not_active)
      else if \<not> len_between 1 MAX_RESPONSE_BYTES response then (t, Inl JE_cached_response_invalid)
      else (case decode_producer_response fparse response of
          Inl _ \<Rightarrow> (t, Inl JE_cached_response_invalid)
        | Inr decoded \<Rightarrow> transaction fault t (complete_body gen t c response decoded ts)))"

definition recover_row :: "datetime \<Rightarrow> journal_row \<Rightarrow> journal_row" where
  "recover_row ts row = row\<lparr>jr_state := Outcome_unknown, jr_claim_token_sha256 := None,
     jr_recovered_at := Some (isoformat ts)\<rparr>"

definition recover_abandoned_generation ::
  "string \<Rightarrow> sqlite_fault \<Rightarrow> journal_row list \<Rightarrow> string \<Rightarrow> datetime option \<Rightarrow>
     journal_row list \<times> (journal_error + nat)" where
  "recover_abandoned_generation gen fault t abandoned recovered_at = (case recovered_at of
     None \<Rightarrow> (t, Inl JE_recovery_request_invalid)
   | Some ts \<Rightarrow>
      if \<not> is_uuid4 abandoned \<or> abandoned = gen then (t, Inl JE_recovery_request_invalid)
      else (let p = (\<lambda>x. jr_state x = In_progress \<and> jr_generation x = abandoned) in
        transaction fault t (bindE (update_rows p (recover_row ts) t) (\<lambda>t'. Inr (t', rowcount p t)))))"

end
