(* ===== verification/Admission_Facts.thy ===== *)
theory Admission_Facts
  imports Admission
begin

text \<open>
  What producer admission promises: an admitted record is valid, was sent by an
  enabled, unrevoked, currently valid registered certificate over TLS 1.3, and
  describes exactly the body that was read; a request is admitted exactly under these
  conditions, and every refusal carries the attempt's correlation identifier and a
  security event of a fixed set.
\<close>

section \<open>Shape of the refusals\<close>

text \<open>Plain request errors: status 400 with the generic event.\<close>

definition plain_error :: "adm_error \<Rightarrow> bool" where
  "plain_error e \<longleftrightarrow> ae_status e = 400 \<and> ae_event e = EV_invalid_request"

lemma plain_fail400 [simp, intro!]: "plain_error (fail400 c)"
  by (simp add: plain_error_def fail_with_def)

lemma depth_scan_plain: "depth_scan d i x s = Inl e \<Longrightarrow> plain_error e"
  by (induction d i x s rule: depth_scan.induct) (auto split: if_splits)

lemma decode_reference_plain: "decode_reference v = Inl e \<Longrightarrow> plain_error e"
  by (auto simp: decode_reference_def Let_def split: json.splits option.splits if_splits)

lemma decode_references_plain: "decode_references seen vs = Inl e \<Longrightarrow> plain_error e"
  by (induction vs arbitrary: seen e)
    (auto dest: decode_reference_plain split: sum.splits if_splits)

lemma parse_timestamp_plain: "parse_timestamp v = Inl e \<Longrightarrow> plain_error e"
  by (auto simp: parse_timestamp_def split: option.splits if_splits)

lemma decode_payload_plain: "decode_payload kvs = Inl e \<Longrightarrow> plain_error e"
  unfolding decode_payload_def Let_def
  by (auto dest: parse_timestamp_plain decode_references_plain
      split: bindE_splits option.splits if_splits json.splits)

lemma decode_envelope_plain: "decode_producer_envelope fp b = Inl e \<Longrightarrow> plain_error e"
  unfolding decode_producer_envelope_def enforce_json_depth_def
  by (auto dest: depth_scan_plain decode_payload_plain
      split: bindE_splits option.splits if_splits json.splits)

definition body_events :: "sec_event set" where
  "body_events = {EV_invalid_request, EV_request_too_large, EV_body_incomplete}"

lemma read_loop_event:
  "read_loop rd remaining observed acc st = Inl e \<Longrightarrow>
     ae_event e \<in> body_events \<and> ae_code e \<noteq> AC_request_time_invalid"
proof (induction rd remaining observed acc st rule: read_loop.induct)
  case (1 rd remaining observed acc st)
  let ?q = "min BODY_READ_CHUNK_BYTES remaining"
  have nz: "remaining \<noteq> 0" using "1.prems" by (cases remaining) auto
  show ?case
  proof (cases "rd st ?q")
    case (Pair rr st')
    show ?thesis
    proof (cases rr)
      case (Read_bytes chunk)
      let ?big = "?q < length chunk \<or> MAX_REQUEST_BODY_BYTES < observed + length chunk"
      show ?thesis
      proof (cases "chunk = [] \<or> ?big")
        case True
        then show ?thesis
          using "1.prems" nz Pair Read_bytes
          by (subst (asm) read_loop.simps)
            (auto simp: Let_def body_truncated_def request_too_large_def fail_with_def
              body_events_def split: if_splits)
      next
        case False
        then have "read_loop rd (remaining - length chunk) (observed + length chunk) (acc @ chunk) st' =
            Inl e"
          using "1.prems" nz Pair Read_bytes read_loop_step [of rd st remaining chunk st' observed acc]
          by (simp add: not_less)
        then show ?thesis
          using "1.IH" [OF nz refl] Pair Read_bytes False by auto
      qed
    qed (use "1.prems" nz Pair in \<open>subst (asm) read_loop.simps,
        auto simp: Let_def body_truncated_def body_read_failed_def fail_with_def body_events_def\<close>)+
  qed
qed

lemma read_bounded_body_event:
  "read_bounded_body rd st n = Inl e \<Longrightarrow>
     ae_event e \<in> body_events \<and> ae_code e \<noteq> AC_request_time_invalid"
  unfolding read_bounded_body_def
  by (auto simp: request_too_large_def body_read_failed_def fail_with_def
      body_events_def dest: read_loop_event [unfolded body_events_def]
      split: bindE_splits if_splits read_result.splits)

definition auth_events :: "sec_event set" where
  "auth_events = {EV_authentication_failed, EV_credential_disabled, EV_credential_revoked,
     EV_credential_not_yet_valid, EV_credential_expired}"

lemma authenticate_Inl:
  "authenticate reg peer now = Inl e \<Longrightarrow>
     ae_code e = AC_request_unauthorized \<and> ae_status e = 401 \<and> ae_event e \<in> auth_events"
  by (auto simp: authenticate_def fail_with_def auth_events_def split: option.splits if_splits)

lemma validate_request_time_Inr:
  "validate_request_time p now = Inr u \<longleftrightarrow>
     (\<exists>t. now = Some t \<and> dt_minus p t \<le> seconds 60 \<and> - seconds 300 \<le> dt_minus p t)"
  by (auto simp: validate_request_time_def Let_def not_less split: option.splits if_splits)

lemma admit_body_event:
  "admit_body cid fp producer n now body = Inl e \<Longrightarrow>
     plain_error e \<or> (ae_event e \<in> {EV_producer_mismatch, EV_source_contract_denied,
       EV_clock_unavailable, EV_internal_error} \<and> ae_code e \<noteq> AC_request_time_invalid)"
  unfolding admit_body_def
  by (auto simp: fail_with_def plain_error_def validate_request_time_def Let_def
      dest: decode_envelope_plain [unfolded plain_error_def]
      split: bindE_splits if_splits option.splits)

section \<open>Decoded envelopes\<close>

lemma decode_payload_valid: "decode_payload kvs = Inr e \<Longrightarrow> valid_envelope e"
  unfolding decode_payload_def Let_def
  by (auto split: bindE_splits option.splits if_splits json.splits)

lemma decode_envelope_valid:
  "decode_producer_envelope fp body = Inr e \<Longrightarrow>
     valid_envelope e \<and> body \<noteq> [] \<and> length body \<le> MAX_REQUEST_BODY_BYTES"
  unfolding decode_producer_envelope_def
  by (auto simp: not_less dest: decode_payload_valid
      split: bindE_splits if_splits option.splits json.splits)

lemma admit_body_Inr:
  assumes "admit_body cid fp producer n now body = Inr r"
  obtains e t where "decode_producer_envelope fp body = Inr e" "now = Some t"
    "en_producer_id e = ap_producer_id producer" "en_source_contract e \<in> set (ap_contracts producer)"
    "dt_minus (en_produced_at e) t \<le> seconds 60" "- seconds 300 \<le> dt_minus (en_produced_at e) t"
    "r = admission_record_of cid producer e body n t" "valid_admission_record r"
  using assms unfolding admit_body_def
  by (auto simp: validate_request_time_Inr Let_def split: bindE_splits if_splits option.splits)

section \<open>Concrete inputs\<close>

definition sample_cert :: certificate_record where
  "sample_cert = \<lparr>cr_producer_id = REGISTERED_UNSW_PRODUCER_ID,
     cr_producer_type = REGISTERED_UNSW_PRODUCER_TYPE, cr_uri_san = REGISTERED_UNSW_URI_SAN,
     cr_certificate_sha256 = replicate 64 CHR ''a'', cr_enabled = True, cr_revoked = False,
     cr_not_before = Datetime 2026 9 1 0 0 0 0, cr_not_after = Datetime 2026 11 1 0 0 0 0,
     cr_contracts = [REGISTERED_UNSW_SOURCE_CONTRACT]\<rparr>"

definition sample_peer :: peer_evidence where
  "sample_peer = \<lparr>pe_tls_version = TLS_VERSION, pe_chain_authenticated = True,
     pe_client_auth_eku = True, pe_certificate_sha256 = replicate 64 CHR ''a'',
     pe_uri_sans = [REGISTERED_UNSW_URI_SAN]\<rparr>"

definition sample_now :: datetime where
  "sample_now = Datetime 2026 9 12 12 0 30 0"

definition sample_correlation :: string where
  "sample_correlation = ''11111111-1111-4111-8111-111111111111''"

definition sample_payload :: json where
  "sample_payload = JObj [
     (''schema_version'', JStr REQUEST_SCHEMA),
     (''producer_id'', JStr REGISTERED_UNSW_PRODUCER_ID),
     (''request_id'', JStr ''22222222-2222-4222-8222-222222222222''),
     (''produced_at'', JStr ''2026-09-12T12:00:00Z''),
     (''nonce'', JStr (replicate 43 CHR ''A'')),
     (''source_contract'', JStr REGISTERED_UNSW_SOURCE_CONTRACT),
     (''records'', JArr [JObj [(''source_member_sha256'', JStr (replicate 64 CHR ''b'')),
        (''row_number'', JInt 1)]])]"

definition sample_body :: string where
  "sample_body = json_dumps (\<lambda>_. []) sample_payload"

definition sample_envelope :: envelope where
  "sample_envelope = \<lparr>en_schema_version = REQUEST_SCHEMA,
     en_producer_id = REGISTERED_UNSW_PRODUCER_ID,
     en_request_id = ''22222222-2222-4222-8222-222222222222'',
     en_produced_at = Datetime 2026 9 12 12 0 0 0, en_nonce = replicate 43 CHR ''A'',
     en_source_contract = REGISTERED_UNSW_SOURCE_CONTRACT,
     en_records = [\<lparr>er_member_sha256 = replicate 64 CHR ''b'', er_row_number = 1\<rparr>]\<rparr>"

lemma sample_registry: "make_registry [sample_cert] = Inr [sample_cert]"
  by code_simp

lemma sample_decode: "decode_producer_envelope (\<lambda>_. NaN) sample_body = Inr sample_envelope"
  by code_simp

lemma sample_body_length: "length sample_body = 397"
  by code_simp

lemma sample_body_read:
  "read_bounded_body bytesio_read sample_body 397 = Inr sample_body"
  by (simp add: read_bounded_body_bytesio sample_body_length MAX_REQUEST_BODY_BYTES_def)

lemma sample_admitted:
  "admit_producer_request sample_correlation (\<lambda>_. NaN) [sample_cert] sample_peer INGEST_METHOD
     INGEST_TARGET JSON_CONTENT_TYPE 397 bytesio_read sample_body (Some sample_now) =
   Inr (admission_record_of sample_correlation
     \<lparr>ap_producer_id = REGISTERED_UNSW_PRODUCER_ID, ap_credential_id = replicate 64 CHR ''a'',
      ap_contracts = [REGISTERED_UNSW_SOURCE_CONTRACT]\<rparr> sample_envelope sample_body 397 sample_now)"
proof -
  have a: "authenticate [sample_cert] sample_peer (Some sample_now) =
      Inr \<lparr>ap_producer_id = REGISTERED_UNSW_PRODUCER_ID, ap_credential_id = replicate 64 CHR ''a'',
        ap_contracts = [REGISTERED_UNSW_SOURCE_CONTRACT]\<rparr>" by code_simp
  have t: "validate_request_time (en_produced_at sample_envelope) (Some sample_now) = Inr ()"
    by code_simp
  have v: "is_uuid4 sample_correlation" "is_sha256 (replicate 64 CHR ''a'')"
    "is_uuid4 (en_request_id sample_envelope)" "sample_correlation \<noteq> en_request_id sample_envelope"
    "valid_datetime (en_produced_at sample_envelope)" "valid_datetime sample_now"
    "list_all valid_reference (en_records sample_envelope)"
    "card (set (map reference_identity (en_records sample_envelope))) =
      length (en_records sample_envelope)"
    by code_simp+
  have l: "int MAX_REQUEST_BODY_BYTES = 131072" "MAX_RECORDS = 256"
    by (simp_all add: MAX_REQUEST_BODY_BYTES_def MAX_RECORDS_def)
  show ?thesis
    using v
    by (simp add: admit_producer_request_def a sample_body_read admit_body_def sample_decode t
        valid_admission_record_def admission_record_of_def l Let_def)
      (simp add: sample_envelope_def)
qed

lemma admit_valid:
  "admit_producer_request cid fparse reg peer req_method target content_type n rd st now = Inr r \<Longrightarrow>
     valid_admission_record r"
  by (auto simp: admit_producer_request_def split: bindE_splits if_splits elim: admit_body_Inr)

definition sample_record :: admission_record where
  "sample_record = admission_record_of sample_correlation
     \<lparr>ap_producer_id = REGISTERED_UNSW_PRODUCER_ID, ap_credential_id = replicate 64 CHR ''a'',
      ap_contracts = [REGISTERED_UNSW_SOURCE_CONTRACT]\<rparr> sample_envelope sample_body 397 sample_now"

lemma sample_record_valid: "valid_admission_record sample_record"
  unfolding sample_record_def by (rule admit_valid [OF sample_admitted])

lemma sample_record_ids:
  "ar_correlation_id sample_record = sample_correlation"
  "ar_request_id sample_record = en_request_id sample_envelope"
  by (simp_all add: sample_record_def admission_record_of_def)

section \<open>The admission contract\<close>

text \<open>C2: An admitted request is a valid admission record, sent over TLS 1.3 with an authenticated
  client certificate that is registered, enabled, not revoked and inside its validity interval at
  the trusted time; the record binds that credential, the digest and length of exactly the body that
  was read, and a production time between 300 seconds before and 60 seconds after the trusted time.\<close>

theorem admit_sound:
  assumes reg: "make_registry rs = Inr reg"
    and adm: "admit_producer_request cid fparse reg peer req_method target content_type n rd st now =
      Inr r"
  shows "valid_admission_record r \<and> ar_correlation_id r = cid \<and>
    req_method = INGEST_METHOD \<and> target = INGEST_TARGET \<and> content_type = JSON_CONTENT_TYPE \<and>
    pe_tls_version peer = TLS_VERSION \<and> pe_chain_authenticated peer \<and> pe_client_auth_eku peer \<and>
    (\<exists>t c body. now = Some t \<and> c \<in> set reg \<and> cr_enabled c \<and> \<not> cr_revoked c \<and>
       cr_not_before c \<le> t \<and> t < cr_not_after c \<and>
       pe_certificate_sha256 peer = cr_certificate_sha256 c \<and>
       ar_credential_id r = cr_certificate_sha256 c \<and> ar_received_at r = t \<and>
       read_bounded_body rd st n = Inr body \<and> int (length body) = n \<and>
       ar_content_length r = n \<and> ar_body_sha256 r = sha256_hex body \<and>
       - seconds 300 \<le> dt_minus (ar_produced_at r) t \<and> dt_minus (ar_produced_at r) t \<le> seconds 60)"
proof -
  obtain p body where p: "authenticate reg peer now = Inr p"
    and route: "req_method = INGEST_METHOD" "target = INGEST_TARGET" "content_type = JSON_CONTENT_TYPE"
    and body: "read_bounded_body rd st n = Inr body"
    and ab: "admit_body cid fparse p n now body = Inr r"
    using adm by (auto simp: admit_producer_request_def split: bindE_splits if_splits)
  obtain e t where "now = Some t" and w: "dt_minus (en_produced_at e) t \<le> seconds 60"
      "- seconds 300 \<le> dt_minus (en_produced_at e) t"
    and r: "r = admission_record_of cid p e body n t" "valid_admission_record r"
    using ab by (rule admit_body_Inr)
  moreover have "int (length body) = n" using read_bounded_body_length [OF body] by simp
  ultimately show ?thesis
    using p [unfolded authenticate_Inr_iff [OF reg]] route body
    by (auto simp: admission_record_of_def)
qed

theorem admit_sound_witness:
  "\<exists>r. admit_producer_request sample_correlation (\<lambda>_. NaN) [sample_cert] sample_peer INGEST_METHOD
     INGEST_TARGET JSON_CONTENT_TYPE 397 bytesio_read sample_body (Some sample_now) = Inr r \<and>
   valid_admission_record r \<and> ar_body_sha256 r = sha256_hex sample_body"
  using admit_sound [OF sample_registry sample_admitted] sample_admitted sample_body_read
  by auto

text \<open>A registered, enabled, unrevoked and currently valid credential, presented over TLS 1.3.\<close>

definition good_credential :: "certificate_record list \<Rightarrow> peer_evidence \<Rightarrow> datetime \<Rightarrow> certificate_record \<Rightarrow> bool" where
  "good_credential reg peer t c \<longleftrightarrow> c \<in> set reg \<and> pe_tls_version peer = TLS_VERSION \<and>
     pe_chain_authenticated peer \<and> pe_client_auth_eku peer \<and> pe_certificate_sha256 peer = cr_certificate_sha256 c \<and>
     pe_uri_sans peer = [REGISTERED_UNSW_URI_SAN] \<and> cr_enabled c \<and> \<not> cr_revoked c \<and>
     cr_not_before c \<le> t \<and> t < cr_not_after c"

definition producer_of :: "certificate_record \<Rightarrow> admitted_producer" where
  "producer_of c = \<lparr>ap_producer_id = REGISTERED_UNSW_PRODUCER_ID, ap_credential_id = cr_certificate_sha256 c,
     ap_contracts = [REGISTERED_UNSW_SOURCE_CONTRACT]\<rparr>"

lemma authenticate_good:
  "make_registry rs = Inr reg \<Longrightarrow>
     authenticate reg peer (Some t) = Inr p \<longleftrightarrow> (\<exists>c. good_credential reg peer t c \<and> p = producer_of c)"
  by (auto simp: authenticate_Inr_iff good_credential_def producer_of_def)

lemma record_of_valid:
  assumes "valid_envelope e" "en_producer_id e = REGISTERED_UNSW_PRODUCER_ID"
    "en_source_contract e = REGISTERED_UNSW_SOURCE_CONTRACT" "valid_datetime t" "is_sha256 (cr_certificate_sha256 c)"
    "1 \<le> length body" "length body \<le> MAX_REQUEST_BODY_BYTES"
  shows "valid_admission_record (admission_record_of cid (producer_of c) e body (int (length body)) t) \<longleftrightarrow>
    is_uuid4 cid \<and> cid \<noteq> en_request_id e"
  using assms by (auto simp: valid_admission_record_def admission_record_of_def producer_of_def valid_envelope_def)

text \<open>C32: Admission is exact.  With a registry its constructor accepts, a valid trusted time and the body as
  the orchestrator passes it, a request is admitted with a record if and only if its credential is
  registered, enabled, unrevoked, currently valid and presented over TLS 1.3 under the registered name,
  its method, target and content type are the fixed ones, the declared length is that of the body, the
  body decodes to an envelope of the registered producer and contract produced at most 300 seconds before
  and 60 seconds after the trusted time, and the attempt's identifier is a fresh UUID; the record is the
  one of exactly this envelope, body, credential and time.  Every other request is refused, with the
  attempt's identifier, and whatever is wrong with a credential, with the same unauthorized code and
  status.\<close>

theorem admit_exact:
  fixes cid fparse peer req_method target content_type n body
  assumes "make_registry rs = Inr reg" "valid_datetime t"
  defines "answer \<equiv> admit_producer_request cid fparse reg peer req_method target content_type n bytesio_read body (Some t)"
  shows "(answer = Inr r \<longleftrightarrow>
      (\<exists>c e. good_credential reg peer t c \<and>
         req_method = INGEST_METHOD \<and> target = INGEST_TARGET \<and> content_type = JSON_CONTENT_TYPE \<and>
         n = int (length body) \<and> decode_producer_envelope fparse body = Inr e \<and>
         en_producer_id e = REGISTERED_UNSW_PRODUCER_ID \<and> en_source_contract e = REGISTERED_UNSW_SOURCE_CONTRACT \<and>
         dt_minus (en_produced_at e) t \<le> seconds 60 \<and> - seconds 300 \<le> dt_minus (en_produced_at e) t \<and>
         is_uuid4 cid \<and> cid \<noteq> en_request_id e \<and> r = admission_record_of cid (producer_of c) e body n t)) \<and>
    (\<forall>e. answer = Inl e \<longrightarrow> ae_correlation e = Some cid \<and>
       ((\<exists>c. good_credential reg peer t c) \<or> ae_code e = AC_request_unauthorized \<and> ae_status e = 401))"
proof
  have cert: "is_sha256 (cr_certificate_sha256 c)" if "good_credential reg peer t c" for c
    using that make_registry_InrD [OF assms(1)] by (auto simp: good_credential_def valid_certificate_record_def)
  show "answer = Inr r \<longleftrightarrow>
      (\<exists>c e. good_credential reg peer t c \<and>
         req_method = INGEST_METHOD \<and> target = INGEST_TARGET \<and> content_type = JSON_CONTENT_TYPE \<and>
         n = int (length body) \<and> decode_producer_envelope fparse body = Inr e \<and>
         en_producer_id e = REGISTERED_UNSW_PRODUCER_ID \<and> en_source_contract e = REGISTERED_UNSW_SOURCE_CONTRACT \<and>
         dt_minus (en_produced_at e) t \<le> seconds 60 \<and> - seconds 300 \<le> dt_minus (en_produced_at e) t \<and>
         is_uuid4 cid \<and> cid \<noteq> en_request_id e \<and> r = admission_record_of cid (producer_of c) e body n t)"
    (is "_ \<longleftrightarrow> (\<exists>c e. ?admits c e)")
  proof
    assume "answer = Inr r"
    then obtain p b where p: "authenticate reg peer (Some t) = Inr p"
      and route: "req_method = INGEST_METHOD" "target = INGEST_TARGET" "content_type = JSON_CONTENT_TYPE"
      and b: "read_bounded_body bytesio_read body n = Inr b" and ab: "admit_body cid fparse p n (Some t) b = Inr r"
      by (auto simp: answer_def admit_producer_request_def split: bindE_splits if_splits)
    obtain c where c: "good_credential reg peer t c" "p = producer_of c" using p authenticate_good [OF assms(1)] by blast
    have n: "n = int (length body)" "b = body"
      using b read_bounded_body_length [OF b] read_bounded_body_bytesio [of n body] by (auto split: if_splits)
    obtain e where e: "decode_producer_envelope fparse body = Inr e" "en_producer_id e = ap_producer_id p"
      "en_source_contract e \<in> set (ap_contracts p)" "dt_minus (en_produced_at e) t \<le> seconds 60"
      "- seconds 300 \<le> dt_minus (en_produced_at e) t" "r = admission_record_of cid p e body n t" "valid_admission_record r"
      using ab unfolding n(2) by (rule admit_body_Inr) auto
    have "1 \<le> length body" "length body \<le> MAX_REQUEST_BODY_BYTES" using decode_envelope_valid [OF e(1)] by (auto simp: Suc_le_eq)
    with record_of_valid [of e t c body cid] e c cert [OF c(1)] n(1) assms(2) decode_envelope_valid [OF e(1)]
    have "?admits c e" using route by (simp add: producer_of_def)
    then show "\<exists>c e. ?admits c e" by blast
  next
    assume "\<exists>c e. ?admits c e"
    then obtain c e where a: "?admits c e" by blast
    note v = decode_envelope_valid [OF a [THEN conjunct2, THEN conjunct2, THEN conjunct2, THEN conjunct2, THEN conjunct2, THEN conjunct1]]
    then have l: "1 \<le> length body" "length body \<le> MAX_REQUEST_BODY_BYTES" by (auto simp: Suc_le_eq)
    have "authenticate reg peer (Some t) = Inr (producer_of c)" using a authenticate_good [OF assms(1)] by blast
    moreover have "read_bounded_body bytesio_read body n = Inr body" using a l by (simp add: read_bounded_body_bytesio)
    moreover have "validate_request_time (en_produced_at e) (Some t) = Inr ()"
      using a by (simp add: validate_request_time_Inr)
    moreover have "valid_admission_record r"
      using a v l record_of_valid [of e t c body cid] cert [of c] assms(2) by blast
    ultimately show "answer = Inr r"
      using a by (simp add: answer_def admit_producer_request_def admit_body_def producer_of_def Let_def)
  qed
  show "\<forall>e. answer = Inl e \<longrightarrow> ae_correlation e = Some cid \<and>
       ((\<exists>c. good_credential reg peer t c) \<or> ae_code e = AC_request_unauthorized \<and> ae_status e = 401)"
    using authenticate_good [OF assms(1), of peer t]
    by (cases "authenticate reg peer (Some t)")
      (auto simp: answer_def admit_producer_request_def mapErr_eq_Inl for_attempt_def dest!: authenticate_Inl split: if_splits)
qed

text \<open>The sample attempt under an identifier that is not a UUID is refused under that identifier.\<close>

theorem admit_exact_witness:
  "\<exists>e. admit_producer_request ''attempt'' (\<lambda>_. NaN) [sample_cert] sample_peer INGEST_METHOD INGEST_TARGET
     JSON_CONTENT_TYPE 397 bytesio_read sample_body (Some sample_now) = Inl e \<and> ae_correlation e = Some ''attempt''"
proof -
  have v: "valid_datetime sample_now" "\<not> is_uuid4 ''attempt''" by code_simp+
  note x = admit_exact [OF sample_registry v(1), of "''attempt''" "\<lambda>_. NaN" sample_peer INGEST_METHOD INGEST_TARGET
      JSON_CONTENT_TYPE 397 sample_body]
  then show ?thesis using v(2)
    by (cases "admit_producer_request ''attempt'' (\<lambda>_. NaN) [sample_cert] sample_peer INGEST_METHOD INGEST_TARGET
       JSON_CONTENT_TYPE 397 bytesio_read sample_body (Some sample_now)") blast+
qed

section \<open>What modelling showed\<close>

text \<open>No refusal is reported under the event for an invalid time, although the code for one exists: a stale or
  malformed time is reported under the generic event for an invalid request.\<close>

theorem time_event_unreachable:
  assumes "admit_producer_request cid fparse reg peer req_method target content_type n rd st now = Inl e"
  shows "ae_correlation e = Some cid \<and>
    ae_event e \<in> auth_events \<union> body_events \<union> {EV_producer_mismatch, EV_source_contract_denied,
       EV_clock_unavailable, EV_internal_error} \<and>
    ae_event e \<noteq> EV_request_time_invalid \<and>
    (ae_code e = AC_request_time_invalid \<longrightarrow> ae_event e = EV_invalid_request)"
proof -
  have "ae_correlation e = Some cid \<and>
    ae_event e \<in> auth_events \<union> body_events \<union> {EV_producer_mismatch, EV_source_contract_denied,
       EV_clock_unavailable, EV_internal_error} \<and>
    (ae_code e = AC_request_time_invalid \<longrightarrow> ae_event e = EV_invalid_request)"
    using assms
    by (auto simp: admit_producer_request_def mapErr_eq_Inl for_attempt_def plain_error_def
        body_events_def fail_with_def
        dest!: authenticate_Inl read_bounded_body_event admit_body_event
        split: bindE_splits if_splits)
  then show ?thesis by (auto simp: auth_events_def body_events_def)
qed

theorem time_event_unreachable_witness:
  "\<exists>e. admit_producer_request sample_correlation (\<lambda>_. NaN) [sample_cert] sample_peer INGEST_METHOD
     INGEST_TARGET JSON_CONTENT_TYPE 397 bytesio_read sample_body
     (Some (Datetime 2026 9 12 12 5 30 0)) = Inl e \<and>
   ae_code e = AC_request_time_invalid \<and> ae_event e = EV_invalid_request"
proof -
  let ?now = "Datetime 2026 9 12 12 5 30 0" and ?e = "for_attempt sample_correlation (fail400 AC_request_time_invalid)"
  have a: "authenticate [sample_cert] sample_peer (Some ?now) =
      Inr \<lparr>ap_producer_id = REGISTERED_UNSW_PRODUCER_ID, ap_credential_id = replicate 64 CHR ''a'',
        ap_contracts = [REGISTERED_UNSW_SOURCE_CONTRACT]\<rparr>" by code_simp
  have t: "validate_request_time (en_produced_at sample_envelope) (Some ?now) =
      Inl (fail400 AC_request_time_invalid)" by code_simp
  have "admit_producer_request sample_correlation (\<lambda>_. NaN) [sample_cert] sample_peer INGEST_METHOD
     INGEST_TARGET JSON_CONTENT_TYPE 397 bytesio_read sample_body (Some ?now) = Inl ?e"
    by (simp add: admit_producer_request_def a sample_body_read admit_body_def sample_decode t)
      (simp add: sample_envelope_def)
  moreover have c: "ae_code ?e = AC_request_time_invalid" by (simp add: for_attempt_def fail_with_def)
  ultimately show ?thesis
    using time_event_unreachable [of sample_correlation "\<lambda>_. NaN" "[sample_cert]" sample_peer INGEST_METHOD
        INGEST_TARGET JSON_CONTENT_TYPE 397 bytesio_read sample_body "Some ?now" ?e]
    by auto
qed

end
