(* ===== verification/Response_Facts.thy ===== *)
theory Response_Facts
  imports Response Admission_Facts
begin

text \<open>
  The response codec: what the serializer emits is ASCII, within the byte
  ceiling and decodes to the same response; and the one schema-valid family of
  responses that does not fit the ceiling.
\<close>

section \<open>Printed text is ASCII and shallow\<close>

lemma ascii_append [simp]: "ascii (s @ t) \<longleftrightarrow> ascii s \<and> ascii t"
  by (simp add: ascii_def)

lemma ascii_Cons [simp]: "ascii (c # t) \<longleftrightarrow> of_char c < (128 :: nat) \<and> ascii t"
  by (simp add: ascii_def)

lemma ascii_Nil [simp]: "ascii []"
  by (simp add: ascii_def)

lemma utf8_valid_ascii: "ascii s \<Longrightarrow> utf8_valid s"
  by (induction s) (auto simp: byte_in_def)

definition hex_char :: "nat \<Rightarrow> char" where
  "hex_char d = (if d < 10 then char_of (48 + d) else char_of (87 + d))"

lemma hex_char_plain:
  assumes "d < 16"
  shows "of_char (hex_char d) < (128 :: nat) \<and> hex_char d \<noteq> CHR 0x22 \<and> hex_char d \<noteq> CHR 0x5C"
proof -
  have "\<forall>d \<in> set [0..<16]. of_char (hex_char d) < (128 :: nat) \<and> hex_char d \<noteq> CHR 0x22 \<and> hex_char d \<noteq> CHR 0x5C"
    by code_simp
  with assms show ?thesis by simp
qed

lemma hex4_alt: "hex4 n = [hex_char (n div 4096 mod 16), hex_char (n div 256 mod 16),
    hex_char (n div 16 mod 16), hex_char (n mod 16)]"
  by (simp only: hex4_def hex_char_def list.map)

lemma esc_char_ascii: "ascii (esc_char c)"
  by (auto simp: esc_char_def hex4_alt hex_char_plain Let_def)

lemma quoted_ascii: "ascii (quoted s)"
  by (induction s) (auto simp: quoted_def esc_char_ascii)

lemma depth_scan_esc_char:
  "depth_scan d True False (esc_char c @ r) = depth_scan d True False r"
  by (auto simp: esc_char_def hex4_alt hex_char_plain Let_def)

lemma depth_scan_quoted:
  "depth_scan d False False (quoted s @ r) = depth_scan d False False r"
proof -
  have "depth_scan d True False (concat (map esc_char s) @ CHR 0x22 # r) = depth_scan d False False r" for r
    by (induction s) (simp_all add: depth_scan_esc_char)
  then show ?thesis by (simp add: quoted_def)
qed

text \<open>Number characters are neither quotes nor brackets.\<close>

definition number_char :: "char \<Rightarrow> bool" where
  "number_char c \<longleftrightarrow> is_digit c \<or> c \<in> set ''+-.eE''"

lemma number_char_plain:
  assumes "number_char c"
  shows "of_char c < (128 :: nat)" "c \<noteq> CHR 0x22" "c \<notin> set ''[]{}''"
proof -
  have "\<forall>c \<in> set (CHR 0x22 # ''[]{}''). \<not> number_char c" by code_simp
  with assms have "c \<notin> set (CHR 0x22 # ''[]{}'')" by blast
  then show "c \<noteq> CHR 0x22" "c \<notin> set ''[]{}''" by auto
  show "of_char c < (128 :: nat)"
    using assms by (auto simp: number_char_def is_digit_def char_in_def less_eq_char_def)
qed

lemma depth_scan_number:
  "list_all number_char t \<Longrightarrow> depth_scan d False False (t @ r) = depth_scan d False False r"
proof (induction t)
  case (Cons c t)
  then show ?case using number_char_plain [of c] by simp
qed simp

lemma number_ascii: "list_all number_char t \<Longrightarrow> ascii t"
  by (induction t) (auto dest: number_char_plain)

lemma dec_int_number: "list_all number_char (dec_int i)"
proof -
  have "list_all number_char (dec_digits n)" for n
    using dec_digits_digits [of n] by (auto simp: list_all_iff number_char_def)
  then show ?thesis by (simp add: dec_int_def number_char_def)
qed

lemma float_text_number:
  assumes "float_text t"
  shows "list_all number_char t"
proof -
  have tw: "list_all number_char (takeWhile is_digit s)" for s
    by (auto simp: list_all_iff number_char_def dest: set_takeWhileD)
  obtain ip r1 fp r2 ep r3 where e: "int_part t = Some (ip, r1)" "frac_part r1 = (fp, r2)"
    "exp_part r2 = (ep, r3)" "ip @ fp @ ep = t"
    using assms by (auto simp: float_text_def Let_def split: option.splits prod.splits)
  have "list_all number_char ip"
    using e(1) tw by (auto simp: int_part_def span_digits_def number_char_def is_digit_def char_in_def
        less_eq_char_def split: list.splits if_splits)
  moreover have "list_all number_char fp"
    using e(2) tw by (auto simp: frac_part_def number_char_def split: list.splits if_splits)
  moreover have "list_all number_char ep"
    using e(3) tw by (auto simp: exp_part_def number_char_def Let_def split: list.splits if_splits)
  ultimately show ?thesis using e(4) [symmetric] by simp
qed

fun json_depth :: "json \<Rightarrow> int" where
  "json_depth (JArr xs) = 1 + foldr (max \<circ> json_depth) xs 0"
| "json_depth (JObj kvs) = 1 + foldr (\<lambda>(k, n) m. max n m) (map (\<lambda>(k, v). (k, json_depth v)) kvs) 0"
| "json_depth _ = 0"

definition shallow :: "(pyfloat \<Rightarrow> string) \<Rightarrow> int \<Rightarrow> json \<Rightarrow> bool" where
  "shallow frepr k j \<longleftrightarrow> (\<forall>d r. 0 \<le> d \<longrightarrow> d + k \<le> MAX_JSON_DEPTH \<longrightarrow>
     depth_scan d False False (json_dumps frepr j @ r) = depth_scan d False False r)"

lemma depth_scan_join:
  assumes "\<And>t r. t \<in> set ts \<Longrightarrow> depth_scan d False False (t @ r) = depth_scan d False False r"
  shows "depth_scan d False False (join '','' ts @ r) = depth_scan d False False r"
  using assms by (induction ts) (auto simp: join_Cons)

lemma shallow_mono: "shallow frepr k j \<Longrightarrow> k \<le> l \<Longrightarrow> shallow frepr l j"
  by (auto simp: shallow_def)

lemma shallow_scalar: "shallow frepr 0 (JStr s)" "shallow frepr 0 (JInt i)" "shallow frepr 0 JNull"
  "shallow frepr 0 (JBool b)" "float_text (frepr x) \<Longrightarrow> shallow frepr 0 (JFloat x)"
  by (auto simp: shallow_def depth_scan_quoted depth_scan_number dec_int_number float_text_number)

lemma shallow_JArr:
  assumes "\<And>x. x \<in> set xs \<Longrightarrow> shallow frepr k x" "0 \<le> k"
  shows "shallow frepr (k + 1) (JArr xs)"
proof -
  have "depth_scan d False False (json_dumps frepr (JArr xs) @ r) = depth_scan d False False r"
    if "0 \<le> d" "d + (k + 1) \<le> MAX_JSON_DEPTH" for d r
  proof -
    have "depth_scan (d + 1) False False (join '','' (map (json_dumps frepr) xs) @ CHR '']'' # r) =
        depth_scan (d + 1) False False (CHR '']'' # r)"
      by (rule depth_scan_join) (use assms that in \<open>auto simp: shallow_def\<close>)
    then show ?thesis using that assms(2) by simp
  qed
  then show ?thesis by (simp add: shallow_def)
qed

lemma shallow_JObj:
  assumes "\<And>n v. (n, v) \<in> set kvs \<Longrightarrow> shallow frepr k v" "0 \<le> k"
  shows "shallow frepr (k + 1) (JObj kvs)"
proof -
  let ?ts = "map (\<lambda>(n, v). quoted n @ '':'' @ json_dumps frepr v) (sort_key fst kvs)"
  have "depth_scan d False False (json_dumps frepr (JObj kvs) @ r) = depth_scan d False False r"
    if d: "0 \<le> d" "d + (k + 1) \<le> MAX_JSON_DEPTH" for d r
  proof -
    have "depth_scan (d + 1) False False (join '','' ?ts @ CHR ''}'' # r) =
        depth_scan (d + 1) False False (CHR ''}'' # r)"
    proof (rule depth_scan_join)
      fix t q assume "t \<in> set ?ts"
      then obtain n v where t: "t = quoted n @ '':'' @ json_dumps frepr v" "(n, v) \<in> set kvs" by auto
      with assms(1) d have "depth_scan (d + 1) False False (json_dumps frepr v @ q) = depth_scan (d + 1) False False q"
        by (auto simp: shallow_def)
      with t show "depth_scan (d + 1) False False (t @ q) = depth_scan (d + 1) False False q"
        by (simp add: depth_scan_quoted)
    qed
    then show ?thesis using d assms(2) by (simp add: json_dumps_obj del: json_dumps.simps(7))
  qed
  then show ?thesis by (simp add: shallow_def)
qed

lemma join_ascii: "(\<And>t. t \<in> set ts \<Longrightarrow> ascii t) \<Longrightarrow> ascii (join '','' ts)"
  by (induction ts) (auto simp: join_Cons)

lemma json_dumps_ascii: "json_ok frepr hk j \<Longrightarrow> ascii (json_dumps frepr j)"
proof (induction j)
  case (JArr xs)
  have "ascii (join '','' (map (json_dumps frepr) xs))"
    by (rule join_ascii) (use JArr in \<open>auto simp: list_all_iff\<close>)
  then show ?case by simp
next
  case (JObj kvs)
  have "ascii (json_dumps frepr v)" if "(k, v) \<in> set kvs" for k v
    using JObj that by (fastforce simp: list_all_iff)
  then have "ascii (join '','' (map (\<lambda>(k, v). quoted k @ '':'' @ json_dumps frepr v) (sort_key fst kvs)))"
    by (intro join_ascii) (auto simp: quoted_ascii)
  then show ?case by (simp add: json_dumps_obj del: json_dumps.simps(7))
qed (auto simp: quoted_ascii number_ascii dec_int_number float_text_number)


section \<open>The round trip\<close>

text \<open>The float conversions on a response: the printed text is a JSON number that reads back.\<close>

definition floats_ok :: "(pyfloat \<Rightarrow> string) \<Rightarrow> (string \<Rightarrow> pyfloat) \<Rightarrow> producer_response \<Rightarrow> bool" where
  "floats_ok frepr fparse r \<longleftrightarrow> list_all (\<lambda>d. case rd_attack_probability d of None \<Rightarrow> True
     | Some p \<Rightarrow> float_text (frepr p) \<and> fparse (frepr p) = p) (pr_records r)"

lemma hex_ascii: "is_lower_hex c \<Longrightarrow> of_char c < (128 :: nat)"
  by (auto simp: is_lower_hex_def is_digit_def char_in_def less_eq_char_def)

lemma uuid4_chars: "is_uuid4 s \<Longrightarrow> c \<in> set s \<Longrightarrow> c = CHR ''-'' \<or> is_lower_hex c"
proof -
  assume u: "is_uuid4 s" and c: "c \<in> set s"
  from u have len: "length s = 36"
    and all: "\<And>i. i \<in> set [0..<36] \<Longrightarrow> if i \<in> {8, 13, 18, 23} then s ! i = CHR ''-'' else is_lower_hex (s ! i)"
    unfolding is_uuid4_def by blast+
  from c obtain i where i: "i < length s" "s ! i = c" unfolding in_set_conv_nth by blast
  have "i \<in> set [0..<36]" unfolding set_upt atLeastLessThan_iff using i(1) len by linarith
  from all [OF this, unfolded i(2)] show ?thesis by metis
qed

lemma uuid4_ascii: "is_uuid4 s \<Longrightarrow> ascii s"
  using uuid4_chars hex_ascii by (fastforce simp: ascii_def list_all_iff)

lemma alert_id_ascii:
  assumes "is_alert_id s"
  shows "ascii s"
proof -
  obtain t where t: "s = ALERT_ID_PREFIX @ t" "is_sha256 t"
    using assms by (auto simp: is_alert_id_def starts_with_iff)
  have "ascii ALERT_ID_PREFIX" by code_simp
  moreover have "ascii t" using t(2) hex_ascii by (auto simp: is_sha256_def ascii_def list_all_iff)
  ultimately show ?thesis using t(1) by simp
qed

lemma constant_ascii:
  "s \<in> set RESPONSE_REASONS \<Longrightarrow> ascii s" "s \<in> set RESPONSE_DISPOSITIONS \<Longrightarrow> ascii s"
proof -
  have "list_all ascii RESPONSE_REASONS" "list_all ascii RESPONSE_DISPOSITIONS" by code_simp+
  then show "s \<in> set RESPONSE_REASONS \<Longrightarrow> ascii s" "s \<in> set RESPONSE_DISPOSITIONS \<Longrightarrow> ascii s"
    by (auto simp: list_all_iff)
qed

lemma small_int_text: "1 \<le> i \<Longrightarrow> i \<le> 256 \<Longrightarrow> length (dec_int i) \<le> 4300"
proof -
  assume "1 \<le> i" "i \<le> 256"
  then have "i \<in> set [1..256]" by simp
  moreover have "list_all (\<lambda>i. length (dec_int i) \<le> 4300) [1..256]" by code_simp
  ultimately show ?thesis by (auto simp: list_all_iff)
qed

lemma record_json_ok:
  assumes "valid_record_disposition r"
    and "\<And>p. rd_attack_probability r = Some p \<Longrightarrow> float_text (frepr p) \<and> fparse (frepr p) = p"
  shows "json_ok frepr (strict_hooks fparse) (record_json r)"
  using assms small_int_text [of "rd_record_index r"]
  by (auto simp: record_json_def valid_record_disposition_def opt_member_def MAX_RECORDS_def
      constant_ascii alert_id_ascii is_probability_def strict_hooks_def split: option.splits)

lemma record_json_shallow:
  assumes "\<And>p. rd_attack_probability r = Some p \<Longrightarrow> float_text (frepr p)"
  shows "shallow frepr (0 + 1) (record_json r)"
  unfolding record_json_def
  by (rule shallow_JObj) (use assms in \<open>auto simp: opt_member_def shallow_scalar split: option.splits\<close>)

lemma response_json_ok:
  assumes "valid_response r" "floats_ok frepr fparse r"
  shows "json_ok frepr (strict_hooks fparse) (response_json r)"
proof -
  have "json_ok frepr (strict_hooks fparse) (record_json d)" if "d \<in> set (pr_records r)" for d
    by (rule record_json_ok)
      (use assms that in \<open>auto simp: valid_response_def floats_ok_def list_all_iff split: option.splits\<close>)
  moreover have "ascii (pr_schema_version r)"
    using assms(1) by (auto simp: valid_response_def ascii_def)
  ultimately show ?thesis
    using assms(1)
    by (auto simp: response_json_def valid_response_def uuid4_ascii constant_ascii list_all_iff)
qed

lemma response_json_shallow:
  assumes "valid_response r" "floats_ok frepr fparse r"
  shows "enforce_json_depth (json_dumps frepr (response_json r) @ [CHR 0x0A]) = Inr ()"
proof -
  have rec: "shallow frepr 1 (record_json d)" if "d \<in> set (pr_records r)" for d
    using record_json_shallow [of d frepr] assms that
    by (auto simp: floats_ok_def list_all_iff split: option.splits)
  have "shallow frepr (1 + 1) (JArr (map record_json (pr_records r)))"
    by (rule shallow_JArr) (use rec in auto)
  then have "shallow frepr (2 + 1) (response_json r)"
    unfolding response_json_def
    by (intro shallow_JObj) (auto intro: shallow_mono [OF shallow_scalar(1)])
  then show ?thesis
    by (auto simp: enforce_json_depth_def shallow_def MAX_JSON_DEPTH_def)
qed

lemma response_json_norm:
  "json_norm (response_json r) = JObj
     [(''correlation_id'', JStr (pr_correlation_id r)), (''reason'', JStr (pr_reason r)),
      (''records'', JArr (map (json_norm \<circ> record_json) (pr_records r))),
      (''schema_version'', JStr (pr_schema_version r))]"
  by (simp add: response_json_def)

lemma decode_record_json:
  assumes "valid_record_disposition r"
    and "schema = INGEST_RESPONSE_SCHEMA \<Longrightarrow> rd_predicted_class r = None \<and> rd_alert_candidate_id r = None"
  shows "decode_record_disposition schema (json_norm (record_json r)) = Inr r"
proof -
  consider (none) "rd_predicted_class r = None" "rd_attack_probability r = None" "rd_alert_candidate_id r = None"
    | (noid) c p where "rd_predicted_class r = Some c" "rd_attack_probability r = Some p"
        "rd_alert_candidate_id r = None"
    | (id) c p a where "rd_predicted_class r = Some c" "rd_attack_probability r = Some p"
        "rd_alert_candidate_id r = Some a"
    using assms(1) by (auto simp: valid_record_disposition_def split: option.splits)
  moreover obtain i d q c p a where r: "r = \<lparr>rd_record_index = i, rd_disposition = d, rd_reason = q,
      rd_predicted_class = c, rd_attack_probability = p, rd_alert_candidate_id = a\<rparr>"
    by (cases r) auto
  ultimately show ?thesis
  proof cases
    case none
    then have "json_norm (record_json r) = JObj [(''disposition'', JStr (rd_disposition r)),
        (''reason'', JStr (rd_reason r)), (''record_index'', JInt (rd_record_index r))]"
      by (simp add: record_json_def opt_member_def)
    with none assms show ?thesis
      by (auto simp: decode_record_disposition_def r base_keys_def v2_keys_def obj_get_def present_def as_str_def
          as_float_def expected_keys_def Let_def)
  next
    case noid
    then have "json_norm (record_json r) = JObj [(''attack_probability'', JFloat p),
        (''disposition'', JStr (rd_disposition r)), (''predicted_class'', JStr c),
        (''reason'', JStr (rd_reason r)), (''record_index'', JInt (rd_record_index r))]"
      by (simp add: record_json_def opt_member_def)
    with noid assms show ?thesis
      by (auto simp: decode_record_disposition_def r base_keys_def v2_keys_def obj_get_def present_def as_str_def
          as_float_def expected_keys_def Let_def)
  next
    case id
    then have "json_norm (record_json r) = JObj [(''alert_candidate_id'', JStr a),
        (''attack_probability'', JFloat p),
        (''disposition'', JStr (rd_disposition r)), (''predicted_class'', JStr c),
        (''reason'', JStr (rd_reason r)), (''record_index'', JInt (rd_record_index r))]"
      by (simp add: record_json_def opt_member_def)
    with id assms show ?thesis
      by (auto simp: decode_record_disposition_def r base_keys_def v2_keys_def obj_get_def present_def as_str_def
          as_float_def expected_keys_def Let_def)
  qed
qed

lemma decode_records_json:
  assumes "valid_response r"
  shows "mapE (decode_record_disposition (pr_schema_version r)) (map (json_norm \<circ> record_json) (pr_records r)) =
    Inr (pr_records r)"
proof -
  have "decode_record_disposition (pr_schema_version r) (json_norm (record_json d)) = Inr d"
    if "d \<in> set (pr_records r)" for d
    by (rule decode_record_json) (use assms that in \<open>auto simp: valid_response_def list_all_iff\<close>)
  moreover have "mapE f (map g xs) = Inr xs" if "\<And>d. d \<in> set xs \<Longrightarrow> f (g d) = Inr d"
    for f :: "json \<Rightarrow> adm_error + record_disposition" and g xs
    using that by (induction xs) auto
  ultimately show ?thesis by simp
qed

lemma decode_response_json:
  assumes "valid_response r"
  shows "decode_response_payload [(''correlation_id'', JStr (pr_correlation_id r)), (''reason'', JStr (pr_reason r)),
      (''records'', JArr (map (json_norm \<circ> record_json) (pr_records r))),
      (''schema_version'', JStr (pr_schema_version r))] = Inr r"
  using decode_records_json [OF assms] assms
  by (auto simp: decode_response_payload_def obj_get_def valid_response_def Let_def)

lemma serialize_decode:
  assumes "valid_response r" "floats_ok frepr fparse r"
    and "serialize_producer_response frepr r = Inr b"
  shows "decode_producer_response fparse b = Inr r" "ascii b" "last b = CHR 0x0A"
    "length b \<le> MAX_RESPONSE_BYTES"
proof -
  have b: "b = json_dumps frepr (response_json r) @ [CHR 0x0A]" "length b \<le> MAX_RESPONSE_BYTES"
    using assms(3) by (auto simp: serialize_producer_response_def Let_def split: if_splits)
  note ok = response_json_ok [OF assms(1,2)]
  show asc: "ascii b" using json_dumps_ascii [OF ok] b(1) by (simp add: ascii_def)
  show "decode_producer_response fparse b = Inr r"
    using b utf8_valid_ascii [OF asc] response_json_shallow [OF assms(1,2)] json_roundtrip(2) [OF ok]
      decode_response_json [OF assms(1)]
    by (auto simp: decode_producer_response_def response_json_norm)
  show "last b = CHR 0x0A" "length b \<le> MAX_RESPONSE_BYTES" using b by simp_all
qed

text \<open>C31: The response codec round-trips: a valid response that the serializer accepts decodes to
  the same response, from bytes that are ASCII, end with a newline and stay within the 65,536-byte
  ceiling, whenever float texts are JSON numbers that parse back to their value.\<close>

theorem response_roundtrip:
  assumes "valid_response r" "floats_ok frepr fparse r"
    and "serialize_producer_response frepr r = Inr b"
  shows "decode_producer_response fparse b = Inr r \<and> ascii b \<and> last b = CHR 0x0A \<and>
    length b \<le> MAX_RESPONSE_BYTES"
  using serialize_decode [OF assms] by blast

definition sample_response :: producer_response where
  "sample_response = \<lparr>pr_schema_version = ORCHESTRATOR_RESPONSE_SCHEMA,
     pr_correlation_id = sample_correlation, pr_reason = ''request_completed'',
     pr_records = [\<lparr>rd_record_index = 1, rd_disposition = ''existing'',
       rd_reason = ''alert_candidate_already_exists'', rd_predicted_class = Some ''Attack'',
       rd_attack_probability = Some (Fin (1 / 2)),
       rd_alert_candidate_id = Some (ALERT_ID_PREFIX @ replicate 64 CHR ''b'')\<rparr>]\<rparr>"

lemma sample_response_ok:
  "valid_response sample_response" "floats_ok (\<lambda>_. ''0.5'') (\<lambda>_. Fin (1 / 2)) sample_response"
  by code_simp+

lemma sample_response_serialized:
  obtains b where "serialize_producer_response (\<lambda>_. ''0.5'') sample_response = Inr b"
proof -
  have "isOk (serialize_producer_response (\<lambda>_. ''0.5'') sample_response)" by code_simp
  then show ?thesis
    using that by (cases "serialize_producer_response (\<lambda>_. ''0.5'') sample_response") auto
qed

theorem response_roundtrip_witness:
  "\<exists>b. serialize_producer_response (\<lambda>_. ''0.5'') sample_response = Inr b \<and>
     decode_producer_response (\<lambda>_. Fin (1 / 2)) b = Inr sample_response"
proof -
  obtain b where b: "serialize_producer_response (\<lambda>_. ''0.5'') sample_response = Inr b"
    by (rule sample_response_serialized)
  with response_roundtrip [OF sample_response_ok b] show ?thesis by blast
qed

section \<open>Responses that do not fit\<close>

definition printable :: "string \<Rightarrow> bool" where
  "printable s \<longleftrightarrow> list_all (\<lambda>c. 32 \<le> (of_char c :: nat) \<and> (of_char c :: nat) \<le> 126 \<and>
     c \<noteq> CHR 0x22 \<and> c \<noteq> CHR 0x5C) s"

lemma length_quoted: "printable s \<Longrightarrow> length (quoted s) = length s + 2"
  by (induction s) (auto simp: quoted_def printable_def esc_char_def Let_def)

lemma length_join: "ts \<noteq> [] \<Longrightarrow> length (join '','' ts) + 1 = sum_list (map length ts) + length ts"
  by (induction ts) (auto simp: join_Cons)

lemma hex_printable: "is_lower_hex c \<Longrightarrow> 32 \<le> (of_char c :: nat) \<and> (of_char c :: nat) \<le> 126 \<and>
     c \<noteq> CHR 0x22 \<and> c \<noteq> CHR 0x5C"
  by (auto simp: is_lower_hex_def is_digit_def char_in_def less_eq_char_def)

lemma alert_id_printable: "is_alert_id a \<Longrightarrow> printable a \<and> length a = 83"
proof -
  assume "is_alert_id a"
  then obtain t where t: "a = ALERT_ID_PREFIX @ t" "is_sha256 t"
    by (auto simp: is_alert_id_def starts_with_iff)
  moreover have "printable ALERT_ID_PREFIX" "length ALERT_ID_PREFIX = 19" by code_simp+
  moreover have "printable t" using t(2) hex_printable by (auto simp: is_sha256_def printable_def list_all_iff)
  ultimately show ?thesis by (simp add: printable_def is_sha256_def)
qed

lemma uuid4_printable: "is_uuid4 s \<Longrightarrow> printable s \<and> length s = 36"
proof -
  assume u: "is_uuid4 s"
  have "printable s" using uuid4_chars [OF u] hex_printable by (fastforce simp: printable_def list_all_iff)
  moreover have "length s = 36" using u unfolding is_uuid4_def by blast
  ultimately show ?thesis by blast
qed

text \<open>The response for 256 records that are all attacks with one disposition.\<close>

definition attack_record :: "string \<Rightarrow> string \<Rightarrow> rat \<Rightarrow> (int \<Rightarrow> string) \<Rightarrow> int \<Rightarrow> record_disposition" where
  "attack_record disposition reason p ids i = \<lparr>rd_record_index = i, rd_disposition = disposition,
     rd_reason = reason, rd_predicted_class = Some ''Attack'', rd_attack_probability = Some (Fin p),
     rd_alert_candidate_id = Some (ids i)\<rparr>"

definition full_response :: "string \<Rightarrow> string \<Rightarrow> rat \<Rightarrow> string \<Rightarrow> (int \<Rightarrow> string) \<Rightarrow> producer_response" where
  "full_response disposition reason p cid ids = \<lparr>pr_schema_version = ORCHESTRATOR_RESPONSE_SCHEMA,
     pr_correlation_id = cid, pr_reason = ''request_completed'',
     pr_records = map (attack_record disposition reason p ids) [1..256]\<rparr>"

lemma attack_record_length:
  assumes "is_alert_id (ids i)" "printable disposition" "printable reason"
  shows "length (json_dumps frepr (record_json (attack_record disposition reason p ids i))) =
    202 + length disposition + length reason + length (frepr (Fin p)) + length (dec_int i)"
proof -
  have q: "length (quoted (ids i)) = 85" "length (quoted disposition) = length disposition + 2"
    "length (quoted reason) = length reason + 2" "length (quoted ''Attack'') = 8"
    "length (quoted ''alert_candidate_id'') = 20" "length (quoted ''attack_probability'') = 20"
    "length (quoted ''disposition'') = 13" "length (quoted ''predicted_class'') = 17"
    "length (quoted ''reason'') = 8" "length (quoted ''record_index'') = 14"
    using alert_id_printable [OF assms(1)] assms(2,3)
    by (simp_all add: length_quoted) (simp_all add: length_quoted printable_def)
  show ?thesis
    by (simp add: record_json_def attack_record_def opt_member_def q)
qed

lemma index_text_total: "sum_list (map (\<lambda>i. length (dec_int i)) [1..256]) = 660"
  by code_simp

lemma full_response_length:
  assumes "\<And>i. is_alert_id (ids i)" "printable disposition" "printable reason" "is_uuid4 cid"
  shows "length (json_dumps frepr (response_json (full_response disposition reason p cid ids)) @ [CHR 0x0A]) =
    256 * (203 + length disposition + length reason + length (frepr (Fin p))) + 806"
proof -
  let ?ts = "map (\<lambda>i. json_dumps frepr (record_json (attack_record disposition reason p ids i))) [1..256]"
  have ne: "[1..256::int] \<noteq> []" by simp
  have sum: "sum_list (map (\<lambda>i. K + length (dec_int i)) xs) =
      length xs * K + sum_list (map (\<lambda>i. length (dec_int i)) xs)" for K and xs :: "int list"
    by (induction xs) auto
  have len: "length [1..256::int] = 256" by simp
  have "length (join '','' ?ts) + 1 = sum_list (map length ?ts) + 256"
    using length_join [of ?ts] ne len by (simp only: length_map) simp
  also have "map length ?ts = map (\<lambda>i. (202 + length disposition + length reason + length (frepr (Fin p))) +
      length (dec_int i)) [1..256]"
    by (simp only: map_map comp_def attack_record_length [OF assms(1-3)] cong: map_cong)
  also have "sum_list \<dots> = 256 * (202 + length disposition + length reason + length (frepr (Fin p))) + 660"
    by (simp only: sum len index_text_total)
  finally have J: "length (join '','' ?ts) =
      256 * (203 + length disposition + length reason + length (frepr (Fin p))) + 659" by simp
  have q: "length (quoted cid) = 38" "length (quoted ''request_completed'') = 19"
    "length (quoted ORCHESTRATOR_RESPONSE_SCHEMA) = 29"
    "length (quoted ''correlation_id'') = 16" "length (quoted ''reason'') = 8"
    "length (quoted ''records'') = 9" "length (quoted ''schema_version'') = 16"
    using uuid4_printable [OF assms(4)]
    by (simp_all add: length_quoted) (simp_all add: length_quoted printable_def)
  show ?thesis
    using J by (simp add: response_json_def full_response_def q comp_def)
qed


lemma full_response_valid:
  assumes "\<And>i. is_alert_id (ids i)" "is_uuid4 cid" "0 \<le> p" "p \<le> 1"
    and "(disposition, reason) \<in> {(''created'', ''alert_candidate_created''),
      (''existing'', ''alert_candidate_already_exists'')}"
  shows "valid_response (full_response disposition reason p cid ids)"
proof -
  have "map rd_record_index (map (attack_record disposition reason p ids) [1..256]) = [1..256]"
    by (simp add: attack_record_def comp_def)
  moreover have "length [1..256::int] = 256" by simp
  moreover have "valid_record_disposition (attack_record disposition reason p ids i) \<and>
      v2_record_valid (attack_record disposition reason p ids i)" if "i \<in> set [1..256]" for i
  proof -
    have "1 \<le> i" "i \<le> 256" using that by simp_all
    with assms show ?thesis
      by (auto simp: valid_record_disposition_def v2_record_valid_def attack_record_def MAX_RECORDS_def
          RESPONSE_DISPOSITIONS_def RESPONSE_REASONS_def LEGACY_RESPONSE_REASONS_def is_probability_iff)
  qed
  ultimately show ?thesis
    using assms(2)
    by (simp add: valid_response_def full_response_def MAX_RECORDS_def RESPONSE_REASONS_def
        LEGACY_RESPONSE_REASONS_def V2_TOP_LEVEL_REASONS_def list_all_iff del: upto.simps)
qed

text \<open>The byte ceiling does not cover every valid response: with 256 records that are all attacks
  and probabilities whose text has 18 characters, the valid response whose candidates were all created
  serializes within the ceiling, while the valid response whose candidates all existed already is
  refused by the serializer.\<close>

theorem full_existing_response_refused:
  assumes "\<And>i. is_alert_id (ids i)" "is_uuid4 cid" "0 \<le> p" "p \<le> 1" "length (frepr (Fin p)) = 18"
  shows "valid_response (full_response ''created'' ''alert_candidate_created'' p cid ids) \<and>
    isOk (serialize_producer_response frepr
      (full_response ''created'' ''alert_candidate_created'' p cid ids)) \<and>
    valid_response (full_response ''existing'' ''alert_candidate_already_exists'' p cid ids) \<and>
    serialize_producer_response frepr
      (full_response ''existing'' ''alert_candidate_already_exists'' p cid ids) = Inl response_overflow"
proof -
  have pr: "printable ''created''" "printable ''alert_candidate_created''" "printable ''existing''"
    "printable ''alert_candidate_already_exists''" by code_simp+
  have "length (json_dumps frepr (response_json
      (full_response ''created'' ''alert_candidate_created'' p cid ids)) @ [CHR 0x0A]) = 65062"
    using full_response_length [OF assms(1) pr(1,2) assms(2), of frepr p] assms(5) by simp
  moreover have "length (json_dumps frepr (response_json
      (full_response ''existing'' ''alert_candidate_already_exists'' p cid ids)) @ [CHR 0x0A]) = 67110"
    using full_response_length [OF assms(1) pr(3,4) assms(2), of frepr p] assms(5) by simp
  ultimately show ?thesis
    using full_response_valid [OF assms(1-4)]
    by (simp add: serialize_producer_response_def MAX_RESPONSE_BYTES_def Let_def)
qed

theorem full_existing_response_refused_witness:
  "valid_response (full_response ''existing'' ''alert_candidate_already_exists'' (1 / 3)
      sample_correlation (\<lambda>_. ALERT_ID_PREFIX @ replicate 64 CHR ''c'')) \<and>
   serialize_producer_response (\<lambda>_. ''0.3333333333333333'')
     (full_response ''existing'' ''alert_candidate_already_exists'' (1 / 3)
      sample_correlation (\<lambda>_. ALERT_ID_PREFIX @ replicate 64 CHR ''c'')) = Inl response_overflow"
proof -
  have "is_alert_id (ALERT_ID_PREFIX @ replicate 64 CHR ''c'')" "is_uuid4 sample_correlation" by code_simp+
  then show ?thesis
    using full_existing_response_refused [of "\<lambda>_. ALERT_ID_PREFIX @ replicate 64 CHR ''c''"
        sample_correlation "1 / 3" "\<lambda>_. ''0.3333333333333333''"] by simp
qed

end
