(* ===== verification/ReplayJournal_Facts.thy ===== *)
theory ReplayJournal_Facts
  imports ReplayJournal Response_Facts
begin

text \<open>
  What the replay journal promises over every sequence of transactions of any
  generations, with any engine faults between: keys stay unique and rows well
  formed, a request is claimed ts most once, terminal rows never change, and a
  completed response is returned byte for byte.
\<close>

section \<open>Runs\<close>

datatype journal_command =
    Do_claim string sqlite_fault admission_record "datetime option" string
  | Do_complete string sqlite_fault replay_claim string "datetime option"
  | Do_recover string sqlite_fault string "datetime option"

fun journal_step :: "(string \<Rightarrow> pyfloat) \<Rightarrow> journal_row list \<Rightarrow> journal_command \<Rightarrow> journal_row list" where
  "journal_step fparse t (Do_claim gen fault r ts token) = fst (claim fparse gen fault t r ts token)"
| "journal_step fparse t (Do_complete gen fault c response ts) = fst (complete fparse gen fault t c response ts)"
| "journal_step fparse t (Do_recover gen fault abandoned ts) =
     fst (recover_abandoned_generation gen fault t abandoned ts)"

definition journal_inv :: "(string \<Rightarrow> pyfloat) \<Rightarrow> journal_row list \<Rightarrow> bool" where
  "journal_inv fparse t \<longleftrightarrow>
     distinct (map jr_request_id t) \<and> distinct (map jr_nonce_sha256 t) \<and>
     (\<forall>r \<in> set t. row_check r \<and>
        (jr_state r = Completed \<longrightarrow> completed_response fparse r = Inr (the (jr_response_bytes r))))"

text \<open>What a later row keeps of an earlier one.\<close>

definition row_extends :: "journal_row \<Rightarrow> journal_row \<Rightarrow> bool" where
  "row_extends r r' \<longleftrightarrow> row_evidence r' = row_evidence r \<and>
     jr_first_correlation_id r' = jr_first_correlation_id r \<and> jr_generation r' = jr_generation r \<and>
     (jr_state r = In_progress \<or> r' = r)"

definition journal_extends :: "journal_row list \<Rightarrow> journal_row list \<Rightarrow> bool" where
  "journal_extends t t' \<longleftrightarrow> (\<forall>r \<in> set t. \<exists>r' \<in> set t'. row_extends r r')"

lemma row_extends_refl [simp]: "row_extends r r"
  by (simp add: row_extends_def)

lemma row_extends_trans: "row_extends a b \<Longrightarrow> row_extends b c \<Longrightarrow> row_extends a c"
  by (auto simp: row_extends_def)

lemma journal_extends_refl [simp]: "journal_extends t t"
  by (auto simp: journal_extends_def intro: row_extends_refl)

lemma transaction_disj:
  "(\<exists>e. transaction fault t body = (t, Inl e)) \<or>
   (\<exists>t' x. body = Inr (t', x) \<and> transaction fault t body = (t', Inr x))"
  by (cases fault; cases body) (auto simp: transaction_def)

lemma transaction_cases:
  obtains (same) e where "transaction fault t body = (t, Inl e)"
  | (committed) t' x where "body = Inr (t', x)" "transaction fault t body = (t', Inr x)"
  using transaction_disj by blast

lemma transaction_No_fault:
  "transaction No_fault t body = (case body of Inl e \<Rightarrow> (t, Inl e) | Inr (t', x) \<Rightarrow> (t', Inr x))"
  by (cases body) (auto simp: transaction_def)

lemma transaction_InrD: "transaction fault t body = (t', Inr x) \<Longrightarrow> body = Inr (t', x)"
  using transaction_disj [of fault t body] by auto

section \<open>The three bodies\<close>

lemma insert_row_InrD:
  assumes "insert_row t row = Inr t'"
  shows "t' = t @ [row]" "row_check row" "jr_request_id row \<notin> set (map jr_request_id t)"
    "jr_nonce_sha256 row \<notin> set (map jr_nonce_sha256 t)"
  using assms by (auto simp: insert_row_def split: if_splits)

lemma claim_body_InrD:
  assumes "claim_body fparse gen t r ts token = Inr (t', res)"
  shows "(cl_reason res = CR_request_claimed \<and> existing_rows t r = [] \<and> valid_admission_record r \<and>
      insert_row t (new_row gen r ts token) = Inr t' \<and>
      cl_claim res = Some \<lparr>rc_request_id = ar_request_id r, rc_generation = gen, rc_ownership_token = token\<rparr>) \<or>
    (t' = t \<and> cl_reason res \<noteq> CR_request_claimed \<and> cl_claim res = None)"
  using assms
  by (auto simp: claim_body_def replayed_def split: list.splits if_splits replay_state.splits bindE_splits)

lemma claim_body_inv:
  assumes "journal_inv fparse t" "claim_body fparse gen t r ts token = Inr (t', res)"
  shows "journal_inv fparse t'" "journal_extends t t'"
proof -
  have "t' = t \<or> insert_row t (new_row gen r ts token) = Inr t'"
    using claim_body_InrD [OF assms(2)] by blast
  then have *: "t' = t \<or> (t' = t @ [new_row gen r ts token] \<and> row_check (new_row gen r ts token) \<and>
      jr_request_id (new_row gen r ts token) \<notin> set (map jr_request_id t) \<and>
      jr_nonce_sha256 (new_row gen r ts token) \<notin> set (map jr_nonce_sha256 t))"
    using insert_row_InrD by metis
  moreover have "jr_state (new_row gen r ts token) \<noteq> Completed" by (simp add: new_row_def)
  ultimately show "journal_inv fparse t'"
    using assms(1) by (auto simp: journal_inv_def)
  show "journal_extends t t'"
    using * by (auto simp: journal_extends_def intro: row_extends_refl)
qed

lemma update_rows_InrD:
  assumes "update_rows p f t = Inr t'"
  shows "t' = update_where p f t" "\<And>r. r \<in> set t \<Longrightarrow> p r \<Longrightarrow> row_check (f r)"
  using assms by (auto simp: update_rows_def list_all_iff split: if_splits)

lemma update_where_inv:
  assumes "journal_inv fparse t"
    and keys: "\<And>r. jr_request_id (f r) = jr_request_id r" "\<And>r. jr_nonce_sha256 (f r) = jr_nonce_sha256 r"
    and new: "\<And>r. r \<in> set t \<Longrightarrow> p r \<Longrightarrow> row_check (f r) \<and> row_extends r (f r) \<and>
      (jr_state (f r) = Completed \<longrightarrow> completed_response fparse (f r) = Inr (the (jr_response_bytes (f r))))"
  shows "journal_inv fparse (update_where p f t)" "journal_extends t (update_where p f t)"
proof -
  show "journal_inv fparse (update_where p f t)"
    using assms by (auto simp: journal_inv_def update_where_keys set_update_where)
  have "row_extends r (if p r then f r else r)" if "r \<in> set t" for r
    using new [OF that] by simp
  then show "journal_extends t (update_where p f t)"
    unfolding journal_extends_def set_update_where by blast
qed

lemma complete_body_InrD:
  assumes "complete_body gen t c response decoded ts = Inr (t', b)"
  obtains row where "fetchone (\<lambda>x. jr_request_id x = rc_request_id c) t = Some row"
    "jr_state row = In_progress" "rc_generation c = gen" "jr_generation row = gen"
    "jr_claim_token_sha256 row = Some (sha256_hex (rc_ownership_token c))"
    "pr_correlation_id decoded = jr_first_correlation_id row"
    "update_rows (\<lambda>x. jr_request_id x = rc_request_id c) (complete_row ts response) t = Inr t'"
    "b = response"
  using assms
  by (auto simp: complete_body_def split: option.splits if_splits bindE_splits)

lemma complete_row_simps [simp]:
  "jr_request_id (complete_row ts b r) = jr_request_id r"
  "jr_nonce_sha256 (complete_row ts b r) = jr_nonce_sha256 r"
  "row_evidence (complete_row ts b r) = row_evidence r"
  "jr_first_correlation_id (complete_row ts b r) = jr_first_correlation_id r"
  "jr_generation (complete_row ts b r) = jr_generation r"
  "jr_state (complete_row ts b r) = Completed"
  "jr_response_bytes (complete_row ts b r) = Some b"
  "jr_response_sha256 (complete_row ts b r) = Some (sha256_hex b)"
  by (simp_all add: complete_row_def row_evidence_def)

lemma recover_row_simps [simp]:
  "jr_request_id (recover_row ts r) = jr_request_id r"
  "jr_nonce_sha256 (recover_row ts r) = jr_nonce_sha256 r"
  "row_evidence (recover_row ts r) = row_evidence r"
  "jr_first_correlation_id (recover_row ts r) = jr_first_correlation_id r"
  "jr_generation (recover_row ts r) = jr_generation r"
  "jr_state (recover_row ts r) = Outcome_unknown"
  by (simp_all add: recover_row_def row_evidence_def)

lemma completed_response_complete_row:
  assumes "decode_producer_response fparse b = Inr decoded"
    "pr_correlation_id decoded = jr_first_correlation_id r"
  shows "completed_response fparse (complete_row ts b r) = Inr b"
  using assms by (simp add: completed_response_def)

lemma request_id_unique:
  "journal_inv fparse t \<Longrightarrow> r \<in> set t \<Longrightarrow> r' \<in> set t \<Longrightarrow> jr_request_id r = jr_request_id r' \<Longrightarrow> r = r'"
  by (auto simp: journal_inv_def distinct_map inj_on_def)

lemma nonce_unique:
  "journal_inv fparse t \<Longrightarrow> r \<in> set t \<Longrightarrow> r' \<in> set t \<Longrightarrow> jr_nonce_sha256 r = jr_nonce_sha256 r' \<Longrightarrow> r = r'"
  by (auto simp: journal_inv_def distinct_map inj_on_def)

lemma complete_body_inv:
  assumes "journal_inv fparse t" "complete_body gen t c response decoded ts = Inr (t', b)"
    "decode_producer_response fparse response = Inr decoded"
  shows "journal_inv fparse t'" "journal_extends t t'"
proof -
  from assms(2) obtain row where row: "fetchone (\<lambda>x. jr_request_id x = rc_request_id c) t = Some row"
    "jr_state row = In_progress" "pr_correlation_id decoded = jr_first_correlation_id row"
    "update_rows (\<lambda>x. jr_request_id x = rc_request_id c) (complete_row ts response) t = Inr t'"
    by (rule complete_body_InrD)
  note t' = update_rows_InrD [OF row(4)]
  have "r = row" if "r \<in> set t" "jr_request_id r = rc_request_id c" for r
    using request_id_unique [OF assms(1) that(1), of row] that(2) fetchone_SomeD [OF row(1)] by simp
  with row t'(2) completed_response_complete_row [OF assms(3)]
  have "\<And>r. r \<in> set t \<Longrightarrow> jr_request_id r = rc_request_id c \<Longrightarrow>
      row_check (complete_row ts response r) \<and> row_extends r (complete_row ts response r) \<and>
      completed_response fparse (complete_row ts response r) = Inr response"
    by (auto simp: row_extends_def)
  then show "journal_inv fparse t'" "journal_extends t t'"
    unfolding t'(1) by (intro update_where_inv [OF assms(1)]; auto)+
qed

lemma recover_body_inv:
  assumes "journal_inv fparse t"
    "update_rows (\<lambda>x. jr_state x = In_progress \<and> jr_generation x = g) (recover_row ts) t = Inr t'"
  shows "journal_inv fparse t'" "journal_extends t t'"
proof -
  note t' = update_rows_InrD [OF assms(2)]
  have "\<And>r. r \<in> set t \<Longrightarrow> jr_state r = In_progress \<and> jr_generation r = g \<Longrightarrow>
      row_check (recover_row ts r) \<and> row_extends r (recover_row ts r)"
    using t'(2) by (auto simp: row_extends_def)
  then show "journal_inv fparse t'" "journal_extends t t'"
    unfolding t'(1) by (intro update_where_inv [OF assms(1)]; auto)+
qed

lemma claim_inv:
  assumes "journal_inv fparse t"
  shows "journal_inv fparse (fst (claim fparse gen fault t r ts token))"
    "journal_extends t (fst (claim fparse gen fault t r ts token))"
proof -
  have "journal_inv fparse (fst (transaction fault t (claim_body fparse gen t r a token))) \<and>
      journal_extends t (fst (transaction fault t (claim_body fparse gen t r a token)))" for a
    by (cases rule: transaction_cases [of fault t "claim_body fparse gen t r a token"])
      (auto simp: assms claim_body_inv [OF assms])
  then show "journal_inv fparse (fst (claim fparse gen fault t r ts token))"
    "journal_extends t (fst (claim fparse gen fault t r ts token))"
    by (auto simp: claim_def assms split: option.split)
qed

lemma complete_inv:
  assumes "journal_inv fparse t"
  shows "journal_inv fparse (fst (complete fparse gen fault t c b ts))"
    "journal_extends t (fst (complete fparse gen fault t c b ts))"
proof -
  have "journal_inv fparse (fst (transaction fault t (complete_body gen t c b d a))) \<and>
      journal_extends t (fst (transaction fault t (complete_body gen t c b d a)))"
    if "decode_producer_response fparse b = Inr d" for a d
    by (cases rule: transaction_cases [of fault t "complete_body gen t c b d a"])
      (auto simp: assms complete_body_inv [OF assms _ that])
  then show "journal_inv fparse (fst (complete fparse gen fault t c b ts))"
    "journal_extends t (fst (complete fparse gen fault t c b ts))"
    by (auto simp: complete_def assms split: option.split sum.split)
qed

lemma recover_inv:
  assumes "journal_inv fparse t"
  shows "journal_inv fparse (fst (recover_abandoned_generation gen fault t g ts))"
    "journal_extends t (fst (recover_abandoned_generation gen fault t g ts))"
proof -
  let ?p = "\<lambda>x. jr_state x = In_progress \<and> jr_generation x = g"
  let ?b = "\<lambda>a. bindE (update_rows ?p (recover_row a) t) (\<lambda>t'. Inr (t', rowcount ?p t))"
  have "journal_inv fparse (fst (transaction fault t (?b a))) \<and> journal_extends t (fst (transaction fault t (?b a)))" for a
    by (cases rule: transaction_cases [of fault t "?b a"])
      (auto simp: assms bindE_eq_Inr dest: recover_body_inv [OF assms])
  then show "journal_inv fparse (fst (recover_abandoned_generation gen fault t g ts))"
    "journal_extends t (fst (recover_abandoned_generation gen fault t g ts))"
    by (auto simp: recover_abandoned_generation_def assms Let_def split: option.split)
qed

interpretation journal: monotone_machine "journal_step fparse" "\<lambda>t. t = []" "journal_inv fparse" journal_extends
proof
  show "journal_inv fparse t" if "t = []" for t
    using that by (simp add: journal_inv_def)
  show "journal_inv fparse (journal_step fparse t c)" if "journal_inv fparse t" for t c
    using that by (cases c) (auto intro: claim_inv complete_inv recover_inv)
  show "journal_extends t t" for t by simp
  show "journal_extends a c" if "journal_extends a b" "journal_extends b c" for a b c
    using that by (meson journal_extends_def row_extends_trans)
  show "journal_extends t (journal_step fparse t c)" if "journal_inv fparse t" for t c
    using that by (cases c) (auto intro: claim_inv complete_inv recover_inv)
qed


section \<open>Consequences\<close>

lemma row_evidence_new_row: "row_evidence (new_row gen r ts token) = record_evidence r"
  by (simp add: row_evidence_def record_evidence_def new_row_def)

lemma new_row_correlation: "jr_first_correlation_id (new_row gen r ts token) = ar_correlation_id r"
  by (simp add: new_row_def)

lemma record_evidence_keys:
  "record_evidence r = row_evidence row \<Longrightarrow> ar_request_id r = jr_request_id row \<and> ar_nonce_sha256 r = jr_nonce_sha256 row"
  by (simp add: row_evidence_def record_evidence_def)

lemma filter_unique:
  assumes "distinct t" "x \<in> set t" "\<And>y. y \<in> set t \<Longrightarrow> p y \<longleftrightarrow> y = x"
  shows "filter p t = [x]"
proof -
  have "filter p t = filter (\<lambda>y. y = x) t" using assms(3) by (intro filter_cong) auto
  also have "\<dots> = [x]"
    using assms(1,2) by (induction t) (auto simp: filter_empty_conv)
  finally show ?thesis .
qed

text \<open>Looking a journalled request up by matching evidence finds exactly its row.\<close>

lemma existing_rows_match:
  assumes "journal_inv fparse t" "row \<in> set t" "record_evidence r = row_evidence row"
  shows "existing_rows t r = [row]"
proof -
  note k = record_evidence_keys [OF assms(3)]
  have "distinct t" using assms(1) by (auto simp: journal_inv_def distinct_map)
  then show ?thesis
    unfolding existing_rows_def select_where_def
    by (rule filter_unique [OF _ assms(2)])
      (use k request_id_unique [OF assms(1) _ assms(2)] nonce_unique [OF assms(1) _ assms(2)] in auto)
qed

definition replay_answer :: "journal_row \<Rightarrow> claim_result" where
  "replay_answer row = (case jr_state row of
     In_progress \<Rightarrow> replayed In_progress CR_request_in_progress None row
   | Completed \<Rightarrow> replayed Completed CR_request_completed (jr_response_bytes row) row
   | Outcome_unknown \<Rightarrow> replayed Outcome_unknown CR_outcome_unknown None row)"

lemma claim_matching_row:
  assumes "journal_inv fparse t" "row \<in> set t" "record_evidence r = row_evidence row"
  shows "claim fparse gen No_fault t r (Some ts) token = (t, Inr (replay_answer row))"
proof -
  have ok: "row_check row" "jr_state row = Completed \<Longrightarrow> completed_response fparse row = Inr (the (jr_response_bytes row))"
    using assms(1,2) by (auto simp: journal_inv_def)
  have "jr_response_bytes row \<noteq> None" if "jr_state row = Completed"
    using ok(1) that by (simp add: row_check_def state_columns_ok_def)
  with ok(2) show ?thesis
    using assms(3)
    by (cases "jr_state row")
      (auto simp: claim_def transaction_No_fault claim_body_def existing_rows_match [OF assms] replay_answer_def)
qed

lemma claim_conflicting_row:
  assumes "journal_inv fparse t" "row \<in> set t"
    "jr_request_id row = ar_request_id r \<or> jr_nonce_sha256 row = ar_nonce_sha256 r"
    "record_evidence r \<noteq> row_evidence row"
  shows "claim fparse gen No_fault t r (Some ts) token = (t, Inl JE_replay_rejected)"
proof -
  have "row \<in> set (existing_rows t r)" using assms(2,3) by (auto simp: existing_rows_def select_where_def)
  with assms(4) show ?thesis
    by (auto simp: claim_def transaction_No_fault claim_body_def split: list.split)
qed

lemma claim_claimedD:
  assumes "claim fparse gen fault t r ts token = (t', Inr res)" "cl_reason res = CR_request_claimed"
  obtains a where "ts = Some a" "t' = t @ [new_row gen r a token]" "existing_rows t r = []"
    "cl_claim res = Some \<lparr>rc_request_id = ar_request_id r, rc_generation = gen, rc_ownership_token = token\<rparr>"
proof -
  obtain a where a: "ts = Some a" using assms(1) by (auto simp: claim_def split: option.splits)
  have "claim_body fparse gen t r a token = Inr (t', res)"
    using assms(1) a by (auto simp: claim_def dest: transaction_InrD)
  from claim_body_InrD [OF this] assms(2)
  have b: "existing_rows t r = []" "insert_row t (new_row gen r a token) = Inr t'"
    "cl_claim res = Some \<lparr>rc_request_id = ar_request_id r, rc_generation = gen, rc_ownership_token = token\<rparr>"
    by auto
  show ?thesis by (rule that [OF a insert_row_InrD(1) [OF b(2)] b(1) b(3)])
qed

lemma claim_not_claimed:
  assumes "row \<in> set t" "jr_request_id row = ar_request_id r \<or> jr_nonce_sha256 row = ar_nonce_sha256 r"
    "claim fparse gen fault t r ts token = (t', Inr res)"
  shows "cl_reason res \<noteq> CR_request_claimed"
proof
  assume "cl_reason res = CR_request_claimed"
  then have "existing_rows t r = []" using claim_claimedD [OF assms(3)] by blast
  with assms(1,2) show False by (auto simp: existing_rows_def select_where_def filter_empty_conv)
qed

lemma later_row:
  assumes "journal_inv fparse s" "row \<in> set s"
  obtains row' where "row' \<in> set (foldl (journal_step fparse) s cs)" "row_extends row row'"
  using journal.extends_run [OF assms(1), of cs] assms(2) by (auto simp: journal_extends_def)

lemma uuid4_length: "is_uuid4 s \<Longrightarrow> length s = 36"
  unfolding is_uuid4_def by blast

lemma iso_len: "len_between 20 32 (isoformat d)"
  by (simp add: len_between_def length_isoformat)

lemma new_row_check:
  assumes "valid_admission_record r" "is_uuid4 gen"
  shows "row_check (new_row gen r ts token)"
proof -
  have "length (ar_request_id r) = 36" "length (ar_correlation_id r) = 36" "length gen = 36"
    using assms by (simp_all add: valid_admission_record_def uuid4_length)
  moreover have "is_sha256 (ordered_records_sha256 rs)" for rs
    by (simp add: ordered_records_sha256_def)
  ultimately show ?thesis
    using assms
    by (simp add: row_check_def new_row_def iso_len null_or_def state_columns_ok_def valid_admission_record_def
        MAX_REQUEST_BODY_BYTES_def MAX_RECORDS_def) (simp add: len_between_def)
qed

lemma claim_unjournalled:
  assumes "valid_admission_record r" "is_uuid4 gen" "existing_rows t r = []"
  shows "claim fparse gen No_fault t r (Some ts) token = (t @ [new_row gen r ts token],
    Inr \<lparr>cl_disposition = In_progress, cl_reason = CR_request_claimed,
      cl_claim = Some \<lparr>rc_request_id = ar_request_id r, rc_generation = gen, rc_ownership_token = token\<rparr>,
      cl_cached_response = None, cl_first_correlation_id = ar_correlation_id r\<rparr>)"
proof -
  have "insert_row t (new_row gen r ts token) = Inr (t @ [new_row gen r ts token])"
    using new_row_check [OF assms(1,2), of ts token] assms(3)
    by (auto simp: insert_row_def new_row_def existing_rows_def select_where_def filter_empty_conv)
  then show ?thesis
    using assms by (simp add: claim_def transaction_No_fault claim_body_def)
qed

text \<open>Commands that leave an active row of one generation alone.\<close>

definition spares :: "journal_row \<Rightarrow> journal_command \<Rightarrow> bool" where
  "spares row c = (case c of Do_claim _ _ _ _ _ \<Rightarrow> True
     | Do_complete _ _ cl _ _ \<Rightarrow> rc_request_id cl \<noteq> jr_request_id row
     | Do_recover _ _ abandoned _ \<Rightarrow> abandoned \<noteq> jr_generation row)"

lemma spares_step:
  assumes "row \<in> set t" "spares row c"
  shows "row \<in> set (journal_step fparse t c)"
proof (cases c)
  case (Do_claim gen fault r ts token)
  have "row \<in> set (fst (transaction fault t (claim_body fparse gen t r a token)))" for a
    by (cases rule: transaction_cases [of fault t "claim_body fparse gen t r a token"])
      (use assms(1) in \<open>auto dest!: claim_body_InrD insert_row_InrD(1)\<close>)
  then show ?thesis using Do_claim assms(1) by (auto simp: claim_def split: option.split)
next
  case (Do_complete gen fault cl b ts)
  have "row \<in> set (fst (transaction fault t (complete_body gen t cl b d a)))" for a d
  proof (cases rule: transaction_cases [of fault t "complete_body gen t cl b d a"])
    case (committed t' x)
    have "t' = update_where (\<lambda>x. jr_request_id x = rc_request_id cl) (complete_row a b) t"
      by (rule complete_body_InrD [OF committed(1)]) (rule update_rows_InrD(1))
    with assms Do_complete committed(2) show ?thesis
      by (force simp: set_update_where spares_def)
  qed (use assms(1) in simp)
  then show ?thesis using Do_complete assms(1) by (auto simp: complete_def split: option.split sum.split)
next
  case (Do_recover gen fault g ts)
  let ?p = "\<lambda>x. jr_state x = In_progress \<and> jr_generation x = g"
  have "row \<in> set (fst (transaction fault t (bindE (update_rows ?p (recover_row a) t) (\<lambda>t'. Inr (t', rowcount ?p t)))))" for a
  proof (cases rule: transaction_cases [of fault t "bindE (update_rows ?p (recover_row a) t) (\<lambda>t'. Inr (t', rowcount ?p t))"])
    case (committed t' x)
    then have "t' = update_where ?p (recover_row a) t"
      by (auto simp: bindE_eq_Inr dest: update_rows_InrD(1))
    with assms Do_recover committed(2) show ?thesis
      by (force simp: set_update_where spares_def)
  qed (use assms(1) in simp)
  then show ?thesis
    using Do_recover assms(1) by (auto simp: recover_abandoned_generation_def Let_def split: option.split)
qed

lemma spares_run: "row \<in> set t \<Longrightarrow> list_all (spares row) cs \<Longrightarrow> row \<in> set (foldl (journal_step fparse) t cs)"
  by (induction cs arbitrary: t) (auto intro: spares_step)

lemma complete_row_check:
  assumes "row_check row" "jr_state row = In_progress" "len_between 1 MAX_RESPONSE_BYTES b"
  shows "row_check (complete_row ts b row)"
  using assms by (simp add: row_check_def complete_row_def state_columns_ok_def null_or_def iso_len)

lemma complete_active_row:
  assumes inv: "journal_inv fparse t" and row: "row \<in> set t" "jr_state row = In_progress"
    "jr_claim_token_sha256 row = Some (sha256_hex token)" "jr_generation row = gen"
    and ids: "is_uuid4 (jr_request_id row)" "is_uuid4 gen" "is_b64url_32 token"
    and resp: "decode_producer_response fparse b = Inr d" "pr_correlation_id d = jr_first_correlation_id row"
  shows "complete fparse gen No_fault t
      \<lparr>rc_request_id = jr_request_id row, rc_generation = gen, rc_ownership_token = token\<rparr> b (Some ts) =
    (update_where (\<lambda>x. jr_request_id x = jr_request_id row) (complete_row ts b) t, Inr b)"
proof -
  have len: "len_between 1 MAX_RESPONSE_BYTES b"
    using decode_producer_response_valid [OF resp(1)] by (auto simp: len_between_def Suc_le_eq)
  have f: "fetchone (\<lambda>x. jr_request_id x = jr_request_id row) t = Some row"
    using inv row(1) by (intro fetchone_key_unique) (simp_all add: journal_inv_def)
  have "x = row" if "x \<in> set t" "jr_request_id x = jr_request_id row" for x
    using request_id_unique [OF inv that(1) row(1) that(2)] .
  then have "list_all (\<lambda>r. jr_request_id r = jr_request_id row \<longrightarrow> row_check (complete_row ts b r)) t"
    using complete_row_check [OF _ row(2) len] inv row(1) by (auto simp: list_all_iff journal_inv_def)
  then show ?thesis
    using f row ids resp len
    by (simp add: complete_def transaction_No_fault complete_body_def update_rows_def)
qed

section \<open>The contract of the journal\<close>

text \<open>In every state of the replay journal that transactions of any service generations, in any
  order and with any database faults, can reach from an empty table, request identifiers and nonces
  are unique, every row satisfies the table's constraints, and every completed row still yields its
  cached response (digest, schema and correlation identifier all check).\<close>

theorem journal_wellformed:
  "let t = foldl (journal_step fparse) [] cs in
     distinct (map jr_request_id t) \<and> distinct (map jr_nonce_sha256 t) \<and> list_all row_check t \<and>
     list_all (\<lambda>r. completed_response fparse r = Inr (the (jr_response_bytes r)))
       (filter (\<lambda>r. jr_state r = Completed) t)"
  using journal.inv_from_start [OF refl, of fparse cs]
  by (auto simp: Let_def journal_inv_def list_all_iff)

text \<open>C8: A request is claimed at most once.  After a claim of a record was granted, in every later
  state no record with the same request identifier or the same nonce is granted a claim; a record with
  identical evidence is answered without a claim and with the first attempt's correlation identifier,
  and one with different evidence is rejected as a replay.\<close>

theorem claim_at_most_once:
  assumes "claim fparse gen fault (foldl (journal_step fparse) [] cs) r ts token = (s, Inr res)"
    and "cl_reason res = CR_request_claimed"
    and "ar_request_id r' = ar_request_id r \<or> ar_nonce_sha256 r' = ar_nonce_sha256 r"
  shows "let t = foldl (journal_step fparse) s cs' in
    (\<forall>gen' fault' ts' token' t' res'. claim fparse gen' fault' t r' ts' token' = (t', Inr res') \<longrightarrow>
       cl_reason res' \<noteq> CR_request_claimed) \<and>
    (\<forall>gen' ts' token'. snd (claim fparse gen' No_fault t r' (Some ts') token') =
       (if record_evidence r' = record_evidence r
        then Inr (replay_answer (the (fetchone (\<lambda>x. jr_request_id x = ar_request_id r) t)))
        else Inl JE_replay_rejected)) \<and>
    cl_first_correlation_id (replay_answer (the (fetchone (\<lambda>x. jr_request_id x = ar_request_id r) t))) =
      ar_correlation_id r"
proof -
  let ?s0 = "foldl (journal_step fparse) [] cs" and ?t = "foldl (journal_step fparse) s cs'"
  obtain a where s: "s = ?s0 @ [new_row gen r a token]"
    using claim_claimedD [OF assms(1,2)] by metis
  have "journal_inv fparse ?s0" by (rule journal.inv_from_start) simp
  from claim_inv(1) [OF this, of gen fault r ts token] have inv: "journal_inv fparse s"
    by (simp add: assms(1))
  obtain row where row: "row \<in> set ?t" "row_extends (new_row gen r a token) row"
    using later_row [OF inv, of "new_row gen r a token" cs'] s by auto
  have inv_t: "journal_inv fparse ?t" by (rule journal.inv_run [OF inv])
  have ev: "row_evidence row = record_evidence r" "jr_first_correlation_id row = ar_correlation_id r"
    using row(2) by (auto simp: row_extends_def row_evidence_new_row new_row_correlation)
  note k = record_evidence_keys [OF ev(1) [symmetric]]
  have f: "fetchone (\<lambda>x. jr_request_id x = ar_request_id r) ?t = Some row"
    using fetchone_key_unique [of jr_request_id ?t row] inv_t row(1) k by (simp add: journal_inv_def)
  have hit: "jr_request_id row = ar_request_id r' \<or> jr_nonce_sha256 row = ar_nonce_sha256 r'"
    using assms(3) k by auto
  show ?thesis
    unfolding Let_def
  proof (intro conjI allI impI)
    show "cl_reason res' \<noteq> CR_request_claimed"
      if "claim fparse gen' fault' ?t r' ts' token' = (t', Inr res')" for gen' fault' ts' token' t' res'
      using claim_not_claimed [OF row(1) hit that] .
    show "snd (claim fparse gen' No_fault ?t r' (Some ts') token') =
       (if record_evidence r' = record_evidence r
        then Inr (replay_answer (the (fetchone (\<lambda>x. jr_request_id x = ar_request_id r) ?t)))
        else Inl JE_replay_rejected)" for gen' ts' token'
      using claim_matching_row [OF inv_t row(1)] claim_conflicting_row [OF inv_t row(1) hit] ev f
      by simp
    show "cl_first_correlation_id (replay_answer (the (fetchone (\<lambda>x. jr_request_id x = ar_request_id r) ?t))) =
        ar_correlation_id r"
      using f ev(2) by (simp add: replay_answer_def replayed_def split: replay_state.split)
  qed
qed


definition sample_generation :: string where
  "sample_generation = ''22222222-2222-4222-8222-222222222222''"

definition sample_owner_token :: string where
  "sample_owner_token = replicate 42 CHR ''b'' @ ''A''"

lemma sample_journal_shapes: "is_uuid4 sample_generation" "is_b64url_32 sample_owner_token"
  by code_simp+

lemma sample_claimed:
  "claim fparse sample_generation No_fault (foldl (journal_step fparse) [] []) sample_record
     (Some sample_now) sample_owner_token =
   ([new_row sample_generation sample_record sample_now sample_owner_token],
    Inr \<lparr>cl_disposition = In_progress, cl_reason = CR_request_claimed,
      cl_claim = Some \<lparr>rc_request_id = ar_request_id sample_record, rc_generation = sample_generation,
        rc_ownership_token = sample_owner_token\<rparr>,
      cl_cached_response = None, cl_first_correlation_id = ar_correlation_id sample_record\<rparr>)"
  using claim_unjournalled [OF sample_record_valid sample_journal_shapes(1), of "[]"]
  by (simp add: existing_rows_def select_where_def)

theorem claim_at_most_once_witness:
  "snd (claim (\<lambda>_. NaN) sample_generation No_fault
     [new_row sample_generation sample_record sample_now sample_owner_token]
     (sample_record\<lparr>ar_body_sha256 := replicate 64 CHR ''0''\<rparr>) (Some sample_now) sample_owner_token) =
   (if record_evidence (sample_record\<lparr>ar_body_sha256 := replicate 64 CHR ''0''\<rparr>) = record_evidence sample_record
    then Inr (replay_answer (new_row sample_generation sample_record sample_now sample_owner_token))
    else Inl JE_replay_rejected)"
  using claim_at_most_once [OF sample_claimed, of "sample_record\<lparr>ar_body_sha256 := replicate 64 CHR ''0''\<rparr>"
      "\<lambda>_. NaN" "[]"]
  by (simp add: Let_def new_row_def)

text \<open>C20: A request runs to completion and its response is replayed byte for byte.  For a valid
  record that the journal does not know, a claim is granted; as long as no other transaction completes
  that request or recovers its generation, its owner can complete it with any decodable response for
  the first correlation identifier; and in every state after that, a repeat of the request is answered
  with exactly those bytes and that identifier.\<close>

theorem claim_complete_replay:
  assumes "s = foldl (journal_step fparse) [] cs" "existing_rows s r = []"
    and "valid_admission_record r" "is_uuid4 gen" "is_b64url_32 token"
    and "list_all (spares (new_row gen r ts token)) cs1"
    and "decode_producer_response fparse b = Inr d" "pr_correlation_id d = ar_correlation_id r"
  shows "\<exists>s1 res c s2. claim fparse gen No_fault s r (Some ts) token = (s1, Inr res) \<and>
    cl_claim res = Some c \<and>
    complete fparse gen No_fault (foldl (journal_step fparse) s1 cs1) c b (Some ts') = (s2, Inr b) \<and>
    (\<forall>cs2 r' gen' ts'' token'. record_evidence r' = record_evidence r \<longrightarrow>
      snd (claim fparse gen' No_fault (foldl (journal_step fparse) s2 cs2) r' (Some ts'') token') =
      Inr \<lparr>cl_disposition = Completed, cl_reason = CR_request_completed, cl_claim = None,
        cl_cached_response = Some b, cl_first_correlation_id = ar_correlation_id r\<rparr>)"
proof -
  let ?row = "new_row gen r ts token" and ?s1 = "s @ [new_row gen r ts token]"
  let ?c = "\<lparr>rc_request_id = ar_request_id r, rc_generation = gen, rc_ownership_token = token\<rparr>"
  let ?t = "foldl (journal_step fparse) ?s1 cs1"
  let ?s2 = "update_where (\<lambda>x. jr_request_id x = jr_request_id ?row) (complete_row ts' b) ?t"
  note cl = claim_unjournalled [OF assms(3,4,2), of fparse ts token]
  have inv_s: "journal_inv fparse s" unfolding assms(1) by (rule journal.inv_from_start) simp
  have inv_t: "journal_inv fparse ?t"
    using journal.inv_run [OF claim_inv(1) [OF inv_s, of gen No_fault r "Some ts" token], of cs1] cl by simp
  have row: "?row \<in> set ?t" by (rule spares_run) (use assms(6) in auto)
  have u: "is_uuid4 (jr_request_id ?row)" using assms(3) by (simp add: new_row_def valid_admission_record_def)
  have rs: "jr_state ?row = In_progress" "jr_claim_token_sha256 ?row = Some (sha256_hex token)"
    "jr_generation ?row = gen" "jr_request_id ?row = ar_request_id r"
    by (simp_all add: new_row_def)
  have co: "complete fparse gen No_fault ?t ?c b (Some ts') = (?s2, Inr b)"
    using complete_active_row [OF inv_t row rs(1-3) u assms(4,5,7)] assms(8) rs(4)
    by (simp add: new_row_correlation)
  have inv2: "journal_inv fparse ?s2"
    using complete_inv(1) [OF inv_t, of gen No_fault ?c b "Some ts'"] co by simp
  have done2: "complete_row ts' b ?row \<in> set ?s2" using row by (force simp: set_update_where)
  have "snd (claim fparse gen' No_fault (foldl (journal_step fparse) ?s2 cs2) r' (Some ts'') token') =
      Inr \<lparr>cl_disposition = Completed, cl_reason = CR_request_completed, cl_claim = None,
        cl_cached_response = Some b, cl_first_correlation_id = ar_correlation_id r\<rparr>"
    if "record_evidence r' = record_evidence r" for cs2 r' gen' ts'' token'
  proof -
    let ?u = "foldl (journal_step fparse) ?s2 cs2"
    obtain row' where "row' \<in> set ?u" "row_extends (complete_row ts' b ?row) row'"
      using later_row [OF inv2 done2] by blast
    then have "complete_row ts' b ?row \<in> set ?u" by (auto simp: row_extends_def)
    from claim_matching_row [OF journal.inv_run [OF inv2] this, of r' gen' ts'' token'] that
    show ?thesis by (simp add: row_evidence_new_row replay_answer_def replayed_def new_row_correlation)
  qed
  with cl co show ?thesis by auto
qed

theorem claim_complete_replay_witness:
  "\<exists>b s1 res c s2. claim (\<lambda>_. Fin (1 / 2)) sample_generation No_fault [] sample_record (Some sample_now)
      sample_owner_token = (s1, Inr res) \<and> cl_claim res = Some c \<and>
    complete (\<lambda>_. Fin (1 / 2)) sample_generation No_fault s1 c b (Some sample_now) = (s2, Inr b) \<and>
    snd (claim (\<lambda>_. Fin (1 / 2)) sample_generation No_fault s2 sample_record (Some sample_now)
      sample_owner_token) =
      Inr \<lparr>cl_disposition = Completed, cl_reason = CR_request_completed, cl_claim = None,
        cl_cached_response = Some b, cl_first_correlation_id = sample_correlation\<rparr>"
proof -
  obtain b where b: "serialize_producer_response (\<lambda>_. ''0.5'') sample_response = Inr b"
    by (rule sample_response_serialized)
  note d = serialize_decode(1) [OF sample_response_ok b]
  have c: "pr_correlation_id sample_response = ar_correlation_id sample_record"
    by (simp add: sample_response_def sample_record_ids)
  have e: "existing_rows [] sample_record = []" by (simp add: existing_rows_def select_where_def)
  obtain s1 res c s2 where "claim (\<lambda>_. Fin (1 / 2)) sample_generation No_fault [] sample_record
      (Some sample_now) sample_owner_token = (s1, Inr res)" "cl_claim res = Some c"
    "complete (\<lambda>_. Fin (1 / 2)) sample_generation No_fault (foldl (journal_step (\<lambda>_. Fin (1 / 2))) s1 [])
      c b (Some sample_now) = (s2, Inr b)"
    and replay: "\<And>cs2 r' gen' ts'' token'. record_evidence r' = record_evidence sample_record \<Longrightarrow>
      snd (claim (\<lambda>_. Fin (1 / 2)) gen' No_fault (foldl (journal_step (\<lambda>_. Fin (1 / 2))) s2 cs2) r'
        (Some ts'') token') =
      Inr \<lparr>cl_disposition = Completed, cl_reason = CR_request_completed, cl_claim = None,
        cl_cached_response = Some b, cl_first_correlation_id = ar_correlation_id sample_record\<rparr>"
    using claim_complete_replay [OF foldl_Nil [symmetric] e sample_record_valid sample_journal_shapes
        list.pred_inject(1) d c] by blast
  with replay [OF refl, of sample_generation "[]" sample_now sample_owner_token] show ?thesis
    unfolding foldl_Nil sample_record_ids by blast
qed

text \<open>Completion needs the exact owner.  A completion succeeds only for an in-progress row of the
  caller's own generation whose stored token digest is the digest of the presented token and whose
  first correlation identifier is the response's; it rewrites that row only and returns the response
  unchanged.\<close>

theorem complete_only_by_owner:
  assumes "complete fparse gen fault (foldl (journal_step fparse) [] cs) c b ts = (t', Inr b')"
  shows "b' = b \<and> rc_generation c = gen \<and> (\<exists>a d row pre post.
    ts = Some a \<and> decode_producer_response fparse b = Inr d \<and>
    foldl (journal_step fparse) [] cs = pre @ row # post \<and>
    t' = pre @ complete_row a b row # post \<and>
    jr_request_id row = rc_request_id c \<and> jr_state row = In_progress \<and> jr_generation row = gen \<and>
    jr_claim_token_sha256 row = Some (sha256_hex (rc_ownership_token c)) \<and>
    jr_first_correlation_id row = pr_correlation_id d)"
proof -
  let ?t = "foldl (journal_step fparse) [] cs" and ?p = "\<lambda>x. jr_request_id x = rc_request_id c"
  obtain a d where ad: "ts = Some a" "decode_producer_response fparse b = Inr d"
    "transaction fault ?t (complete_body gen ?t c b d a) = (t', Inr b')"
    using assms by (auto simp: complete_def split: option.splits if_splits sum.splits)
  obtain row where row: "fetchone ?p ?t = Some row" "jr_state row = In_progress" "rc_generation c = gen"
    "jr_generation row = gen" "jr_claim_token_sha256 row = Some (sha256_hex (rc_ownership_token c))"
    "pr_correlation_id d = jr_first_correlation_id row"
    "update_rows ?p (complete_row a b) ?t = Inr t'" "b' = b"
    by (rule complete_body_InrD [OF transaction_InrD [OF ad(3)]])
  have inv: "journal_inv fparse ?t" by (rule journal.inv_from_start) simp
  obtain pre post where split: "?t = pre @ row # post"
    using fetchone_SomeD [OF row(1)] by (auto simp: in_set_conv_decomp)
  have k: "jr_request_id row = rc_request_id c" using fetchone_SomeD [OF row(1)] by simp
  have "distinct (map jr_request_id (pre @ row # post))"
    using inv split by (simp add: journal_inv_def)
  then have "\<not> ?p x" if "x \<in> set pre \<or> x \<in> set post" for x
    using that unfolding map_append list.map distinct_append distinct.simps(2) set_map k [symmetric]
    by (metis IntI empty_iff imageI list.set_intros(1) list.simps(15))
  then have keep: "map (\<lambda>r. if ?p r then complete_row a b r else r) pre = pre"
    "map (\<lambda>r. if ?p r then complete_row a b r else r) post = post"
    by (simp_all add: map_idI)
  have "t' = map (\<lambda>r. if ?p r then complete_row a b r else r) (pre @ row # post)"
    using update_rows_InrD(1) [OF row(7)] unfolding update_where_def split .
  then have "t' = pre @ complete_row a b row # post"
    using keep k by simp
  then show ?thesis
    using ad(1,2) row(2-6,8) split k by (intro conjI exI [of _ a] exI [of _ d] exI [of _ row]
        exI [of _ pre] exI [of _ post]) simp_all
qed


abbreviation half :: "string \<Rightarrow> pyfloat" where "half \<equiv> (\<lambda>_. Fin (1 / 2))"

definition sample_claim :: replay_claim where
  "sample_claim = \<lparr>rc_request_id = ar_request_id sample_record, rc_generation = sample_generation,
     rc_ownership_token = sample_owner_token\<rparr>"

definition sample_claim_command :: journal_command where
  "sample_claim_command = Do_claim sample_generation No_fault sample_record (Some sample_now) sample_owner_token"

lemma sample_claim_run:
  "foldl (journal_step half) [] [sample_claim_command] =
     [new_row sample_generation sample_record sample_now sample_owner_token]"
  using sample_claimed [of half] by (simp add: sample_claim_command_def)

lemma sample_completed:
  obtains b t' where "complete half sample_generation No_fault
    (foldl (journal_step half) [] [sample_claim_command]) sample_claim b (Some sample_now) = (t', Inr b)"
proof -
  obtain b where b: "serialize_producer_response (\<lambda>_. ''0.5'') sample_response = Inr b"
    by (rule sample_response_serialized)
  let ?row = "new_row sample_generation sample_record sample_now sample_owner_token"
  have inv: "journal_inv half [?row]"
    using journal.inv_from_start [OF refl, of half "[sample_claim_command]"] unfolding sample_claim_run .
  have r: "?row \<in> set [?row]" "jr_state ?row = In_progress"
    "jr_claim_token_sha256 ?row = Some (sha256_hex sample_owner_token)" "jr_generation ?row = sample_generation"
    "is_uuid4 (jr_request_id ?row)" "pr_correlation_id sample_response = jr_first_correlation_id ?row"
    "jr_request_id ?row = ar_request_id sample_record"
    using sample_record_valid
    by (simp_all add: new_row_def sample_response_def sample_record_ids valid_admission_record_def)
  from complete_active_row [OF inv r(1-5) sample_journal_shapes serialize_decode(1) [OF sample_response_ok b] r(6),
      of sample_now] that show ?thesis
    unfolding sample_claim_run sample_claim_def r(7) by blast
qed

theorem complete_only_by_owner_witness:
  "\<exists>b t' row. complete half sample_generation No_fault
      (foldl (journal_step half) [] [sample_claim_command]) sample_claim b (Some sample_now) = (t', Inr b) \<and>
    row \<in> set (foldl (journal_step half) [] [sample_claim_command]) \<and>
    jr_claim_token_sha256 row = Some (sha256_hex (rc_ownership_token sample_claim))"
proof -
  obtain b t' where c: "complete half sample_generation No_fault
    (foldl (journal_step half) [] [sample_claim_command]) sample_claim b (Some sample_now) = (t', Inr b)"
    by (rule sample_completed)
  from complete_only_by_owner [OF c] obtain row pre post where
    "foldl (journal_step half) [] [sample_claim_command] = pre @ row # post"
    "jr_claim_token_sha256 row = Some (sha256_hex (rc_ownership_token sample_claim))" by blast
  with c show ?thesis by (metis in_set_conv_decomp)
qed

text \<open>Recovery of an abandoned generation marks exactly its in-progress rows as of unknown
  outcome, counts them, leaves every other row alone and removes their ownership for good: in every
  later state no completion of one of those requests succeeds, and a repeat of one is answered as of
  unknown outcome.\<close>

theorem recovery_is_final:
  assumes "recover_abandoned_generation gen fault (foldl (journal_step fparse) [] cs) g ts = (t', Inr n)"
  shows "\<exists>a. ts = Some a \<and>
    (let t = foldl (journal_step fparse) [] cs; p = (\<lambda>x. jr_state x = In_progress \<and> jr_generation x = g) in
     t' = map (\<lambda>r. if p r then recover_row a r else r) t \<and> n = length (filter p t) \<and>
     (\<forall>row \<in> set (filter p t). \<forall>cs'. let u = foldl (journal_step fparse) t' cs' in
        (\<forall>gen' fault' c b ts' u' b'. rc_request_id c = jr_request_id row \<longrightarrow>
           complete fparse gen' fault' u c b ts' \<noteq> (u', Inr b')) \<and>
        (\<forall>r gen' ts' token. record_evidence r = row_evidence row \<longrightarrow>
           snd (claim fparse gen' No_fault u r (Some ts') token) =
             Inr (replayed Outcome_unknown CR_outcome_unknown None row))))"
proof -
  let ?t = "foldl (journal_step fparse) [] cs" and ?p = "\<lambda>x. jr_state x = In_progress \<and> jr_generation x = g"
  obtain a where a: "ts = Some a"
    and tr: "transaction fault ?t (bindE (update_rows ?p (recover_row a) ?t) (\<lambda>t'. Inr (t', rowcount ?p ?t))) = (t', Inr n)"
    using assms by (auto simp: recover_abandoned_generation_def Let_def split: option.splits if_splits)
  from transaction_InrD [OF tr] have up: "update_rows ?p (recover_row a) ?t = Inr t'" "n = rowcount ?p ?t"
    by (auto simp: bindE_eq_Inr)
  have t': "t' = map (\<lambda>r. if ?p r then recover_row a r else r) ?t"
    using update_rows_InrD(1) [OF up(1)] by (simp add: update_where_def)
  have inv: "journal_inv fparse ?t" by (rule journal.inv_from_start) simp
  note inv' = recover_body_inv(1) [OF inv up(1)]
  have final: "(\<forall>gen' fault' c b ts' u' b'. rc_request_id c = jr_request_id row \<longrightarrow>
        complete fparse gen' fault' (foldl (journal_step fparse) t' cs') c b ts' \<noteq> (u', Inr b')) \<and>
      (\<forall>r gen' ts' token. record_evidence r = row_evidence row \<longrightarrow>
        snd (claim fparse gen' No_fault (foldl (journal_step fparse) t' cs') r (Some ts') token) =
          Inr (replayed Outcome_unknown CR_outcome_unknown None row))"
    if row: "row \<in> set (filter ?p ?t)" for row cs'
  proof -
    let ?u = "foldl (journal_step fparse) t' cs'"
    have "recover_row a row \<in> set t'" using row by (force simp: t')
    then obtain row' where "row' \<in> set ?u" "row_extends (recover_row a row) row'"
      using later_row [OF inv'] by blast
    then have mem: "recover_row a row \<in> set ?u" by (auto simp: row_extends_def)
    have inv_u: "journal_inv fparse ?u" by (rule journal.inv_run [OF inv'])
    have "complete fparse gen' fault' ?u c b ts' \<noteq> (u', Inr b')"
      if c: "rc_request_id c = jr_request_id row" for gen' fault' c b ts' u' b'
    proof
      assume "complete fparse gen' fault' ?u c b ts' = (u', Inr b')"
      then obtain d x where "transaction fault' ?u (complete_body gen' ?u c b d x) = (u', Inr b')"
        by (auto simp: complete_def split: option.splits if_splits sum.splits)
      from complete_body_InrD [OF transaction_InrD [OF this]] obtain q
        where "fetchone (\<lambda>x. jr_request_id x = rc_request_id c) ?u = Some q" "jr_state q = In_progress" .
      moreover have "fetchone (\<lambda>x. jr_request_id x = jr_request_id (recover_row a row)) ?u = Some (recover_row a row)"
        using inv_u mem by (intro fetchone_key_unique) (simp_all add: journal_inv_def)
      ultimately show False using c by auto
    qed
    moreover have "snd (claim fparse gen' No_fault ?u r (Some ts') token) =
        Inr (replayed Outcome_unknown CR_outcome_unknown None row)"
      if "record_evidence r = row_evidence row" for r gen' ts' token
      using claim_matching_row [OF inv_u mem, of r gen' ts' token] that
      by (simp add: replay_answer_def replayed_def)
    ultimately show ?thesis by blast
  qed
  show ?thesis
    by (rule exI [of _ a]) (use a t' up(2) final in \<open>simp add: Let_def rowcount_def\<close>)
qed

theorem recovery_is_final_witness:
  "\<exists>t'. recover_abandoned_generation sample_correlation No_fault
      (foldl (journal_step half) [] [sample_claim_command]) sample_generation (Some sample_now) = (t', Inr 1) \<and>
    (\<forall>b u' b'. complete half sample_generation No_fault t' sample_claim b (Some sample_now) \<noteq> (u', Inr b'))"
proof -
  let ?row = "new_row sample_generation sample_record sample_now sample_owner_token"
  have check: "row_check (recover_row sample_now ?row)"
    using new_row_check [OF sample_record_valid sample_journal_shapes(1), of sample_now sample_owner_token]
    by (simp add: row_check_def recover_row_def new_row_def state_columns_ok_def null_or_def iso_len)
  have p: "jr_state ?row = In_progress" "jr_generation ?row = sample_generation"
    "rc_request_id sample_claim = jr_request_id ?row"
    by (simp_all add: new_row_def sample_claim_def)
  have neq: "sample_generation \<noteq> sample_correlation" by code_simp
  have rec: "recover_abandoned_generation sample_correlation No_fault
      (foldl (journal_step half) [] [sample_claim_command]) sample_generation (Some sample_now) =
      ([recover_row sample_now ?row], Inr 1)"
    unfolding sample_claim_run
    using check p neq sample_journal_shapes(1)
    by (simp add: recover_abandoned_generation_def transaction_No_fault update_rows_def update_where_def
        rowcount_def Let_def)
  have mem: "?row \<in> set (filter (\<lambda>x. jr_state x = In_progress \<and> jr_generation x = sample_generation)
      (foldl (journal_step half) [] [sample_claim_command]))"
    unfolding sample_claim_run using p by simp
  have "complete half sample_generation No_fault (foldl (journal_step half) [recover_row sample_now ?row] [])
      sample_claim b (Some sample_now) \<noteq> (u', Inr b')" for b u' b'
    using recovery_is_final [OF rec] mem p(3) unfolding Let_def by blast
  with rec show ?thesis unfolding foldl_Nil by blast
qed

end
