(* ===== verification/SecurityAudit.thy ===== *)
theory SecurityAudit
  imports Admission "HOL-Library.Sublist"
begin

text \<open>
  The producer security audit of \<^verbatim>\<open>db/producer_security_audit.py\<close>: the fixed
  taxonomy of events, the event contract, and the bounded append-only table with
  its \<^verbatim>\<open>append\<close> and \<^verbatim>\<open>list\<close>.  Rows hold the event time as the text of
  \<^verbatim>\<open>isoformat()\<close>, which is what SQLite compares.
\<close>

section \<open>Events\<close>

abbreviation AUDIT_EVENT_SCHEMA :: string where
  "AUDIT_EVENT_SCHEMA \<equiv> ''producer_security_audit_event_v2''"

definition MAX_AUDIT_EVENTS :: nat where "MAX_AUDIT_EVENTS = 100000"
definition MAX_AUDIT_LIST_LIMIT :: int where "MAX_AUDIT_LIST_LIMIT = 100"

type_synonym taxonomy = "string \<times> string \<times> string \<times> string"

definition EVENT_DISPOSITIONS :: "taxonomy list" where
  "EVENT_DISPOSITIONS =
    [(''authentication_rejected'', ''authentication'', ''rejected'', ''authentication_failed''),
     (''authentication_rejected'', ''authentication'', ''rejected'', ''credential_disabled''),
     (''authentication_rejected'', ''authentication'', ''rejected'', ''credential_revoked''),
     (''authentication_rejected'', ''authentication'', ''rejected'', ''credential_not_yet_valid''),
     (''authentication_rejected'', ''authentication'', ''rejected'', ''credential_expired''),
     (''producer_admission_rejected'', ''admission'', ''rejected'', ''producer_mismatch''),
     (''producer_admission_rejected'', ''admission'', ''rejected'', ''source_contract_denied''),
     (''producer_admission_rejected'', ''admission'', ''rejected'', ''invalid_request''),
     (''producer_admission_rejected'', ''admission'', ''rejected'', ''request_time_invalid''),
     (''producer_admission_rejected'', ''admission'', ''rejected'', ''request_too_large''),
     (''producer_admission_rejected'', ''admission'', ''rejected'', ''body_incomplete''),
     (''rate_limited'', ''rate_control'', ''rejected'', ''rate_limited''),
     (''server_busy'', ''concurrency_control'', ''rejected'', ''server_busy''),
     (''request_admitted'', ''admission'', ''admitted'', ''request_admitted''),
     (''replay_in_progress'', ''replay'', ''deferred'', ''request_in_progress''),
     (''replay_conflict'', ''replay'', ''rejected'', ''request_replay_rejected''),
     (''replay_outcome_unknown'', ''replay'', ''unknown'', ''outcome_unknown''),
     (''request_completed'', ''completion'', ''completed'', ''request_completed''),
     (''startup_recovery'', ''recovery'', ''completed'', ''recovery_completed''),
     (''internal_failure'', ''internal'', ''failed'', ''internal_error''),
     (''internal_failure'', ''internal'', ''failed'', ''registry_invalid''),
     (''internal_failure'', ''internal'', ''failed'', ''clock_unavailable''),
     (''internal_failure'', ''processing'', ''failed'', ''request_timeout''),
     (''internal_failure'', ''processing'', ''failed'', ''processing_timeout''),
     (''internal_failure'', ''audit'', ''failed'', ''audit_unavailable'')]"

datatype audit_error =
    AE_event_invalid | AE_trusted_time_unavailable | AE_unavailable | AE_busy | AE_write_failed
  | AE_read_failed | AE_record_invalid | AE_identity_conflict | AE_capacity_reached | AE_list_limit_invalid

text \<open>An event; the time is a \<^typ>\<open>datetime\<close> in an event and its text in a row.\<close>

record 't audit_fields =
  sa_schema_version :: string
  sa_audit_event_id :: string
  sa_event_time :: 't
  sa_correlation_id :: "string option"
  sa_event_type :: string
  sa_processing_stage :: string
  sa_outcome :: string
  sa_reason_code :: string
  sa_producer_id :: "string option"
  sa_source_contract_id :: "string option"
  sa_credential_sha256 :: "string option"
  sa_request_id_sha256 :: "string option"
  sa_body_sha256 :: "string option"

type_synonym audit_event = "datetime audit_fields"
type_synonym audit_row = "string audit_fields"

definition opt_ok :: "('a \<Rightarrow> bool) \<Rightarrow> 'a option \<Rightarrow> bool" where
  "opt_ok p v \<longleftrightarrow> (case v of None \<Rightarrow> True | Some x \<Rightarrow> p x)"

definition event_taxonomy :: "'t audit_fields \<Rightarrow> taxonomy" where
  "event_taxonomy e = (sa_event_type e, sa_processing_stage e, sa_outcome e, sa_reason_code e)"

definition valid_audit_event :: "audit_event \<Rightarrow> bool" where
  "valid_audit_event e \<longleftrightarrow>
     sa_schema_version e = AUDIT_EVENT_SCHEMA \<and> is_uuid4 (sa_audit_event_id e) \<and>
     valid_datetime (sa_event_time e) \<and> opt_ok is_uuid4 (sa_correlation_id e) \<and>
     event_taxonomy e \<in> set EVENT_DISPOSITIONS \<and>
     opt_ok (\<lambda>p. p = REGISTERED_UNSW_PRODUCER_ID) (sa_producer_id e) \<and>
     opt_ok (\<lambda>c. c = REGISTERED_UNSW_SOURCE_CONTRACT) (sa_source_contract_id e) \<and>
     opt_ok is_sha256 (sa_credential_sha256 e) \<and> opt_ok is_sha256 (sa_request_id_sha256 e) \<and>
     opt_ok is_sha256 (sa_body_sha256 e)"

record audit_evidence =
  ad_correlation_id :: "string option"
  ad_producer_id :: "string option"
  ad_source_contract_id :: "string option"
  ad_credential_sha256 :: "string option"
  ad_request_id_sha256 :: "string option"
  ad_body_sha256 :: "string option"

text \<open>
  \<^verbatim>\<open>create_producer_security_audit_event\<close>: the event identifier is what
  \<^verbatim>\<open>uuid.uuid4()\<close> returns, the time what the trusted clock returns.
\<close>

definition create_audit_event ::
  "taxonomy \<Rightarrow> audit_evidence \<Rightarrow> datetime option \<Rightarrow> string \<Rightarrow> audit_error + audit_event" where
  "create_audit_event tax ev now event_id = (case now of
     None \<Rightarrow> Inl AE_trusted_time_unavailable
   | Some t \<Rightarrow>
      (let (ty, stage, outcome, reason) = tax;
           e = \<lparr>sa_schema_version = AUDIT_EVENT_SCHEMA, sa_audit_event_id = event_id, sa_event_time = t,
                sa_correlation_id = ad_correlation_id ev, sa_event_type = ty,
                sa_processing_stage = stage, sa_outcome = outcome, sa_reason_code = reason,
                sa_producer_id = ad_producer_id ev, sa_source_contract_id = ad_source_contract_id ev,
                sa_credential_sha256 = ad_credential_sha256 ev,
                sa_request_id_sha256 = ad_request_id_sha256 ev, sa_body_sha256 = ad_body_sha256 ev\<rparr>
       in if valid_audit_event e then Inr e else Inl AE_event_invalid))"

section \<open>Rows\<close>

text \<open>\<^verbatim>\<open>_values\<close>, \<^verbatim>\<open>_event\<close> and \<^verbatim>\<open>_equivalent\<close>.\<close>

definition with_time :: "'u \<Rightarrow> 't audit_fields \<Rightarrow> 'u audit_fields" where
  "with_time t e = \<lparr>sa_schema_version = sa_schema_version e, sa_audit_event_id = sa_audit_event_id e,
     sa_event_time = t, sa_correlation_id = sa_correlation_id e, sa_event_type = sa_event_type e,
     sa_processing_stage = sa_processing_stage e, sa_outcome = sa_outcome e,
     sa_reason_code = sa_reason_code e, sa_producer_id = sa_producer_id e,
     sa_source_contract_id = sa_source_contract_id e, sa_credential_sha256 = sa_credential_sha256 e,
     sa_request_id_sha256 = sa_request_id_sha256 e, sa_body_sha256 = sa_body_sha256 e\<rparr>"

definition audit_values :: "audit_event \<Rightarrow> audit_row" where
  "audit_values e = with_time (isoformat (sa_event_time e)) e"

definition event_of_row :: "audit_row \<Rightarrow> audit_error + audit_event" where
  "event_of_row r = (case fromisoformat_utc (sa_event_time r) of
     None \<Rightarrow> Inl AE_record_invalid
   | Some t \<Rightarrow> (let e = with_time t r in if valid_audit_event e then Inr e else Inl AE_record_invalid))"

definition audit_equivalent :: "audit_event \<Rightarrow> audit_event \<Rightarrow> bool" where
  "audit_equivalent stored attempted \<longleftrightarrow>
     with_time () (stored\<lparr>sa_correlation_id := None\<rparr>) = with_time () (attempted\<lparr>sa_correlation_id := None\<rparr>)"

text \<open>The table's CHECK constraints.\<close>

definition audit_row_check :: "audit_row \<Rightarrow> bool" where
  "audit_row_check r \<longleftrightarrow>
     sa_schema_version r = AUDIT_EVENT_SCHEMA \<and> length (sa_audit_event_id r) = 36 \<and>
     25 \<le> length (sa_event_time r) \<and> length (sa_event_time r) \<le> 32 \<and>
     opt_ok (\<lambda>c. length c = 36) (sa_correlation_id r) \<and> event_taxonomy r \<in> set EVENT_DISPOSITIONS \<and>
     opt_ok (\<lambda>p. p = REGISTERED_UNSW_PRODUCER_ID) (sa_producer_id r) \<and>
     opt_ok (\<lambda>c. c = REGISTERED_UNSW_SOURCE_CONTRACT) (sa_source_contract_id r) \<and>
     opt_ok is_sha256 (sa_credential_sha256 r) \<and> opt_ok is_sha256 (sa_request_id_sha256 r) \<and>
     opt_ok is_sha256 (sa_body_sha256 r)"

datatype append_disposition = Audit_created | Audit_existing

definition audit_database_error :: "bool \<Rightarrow> sqlite_error \<Rightarrow> audit_error" where
  "audit_database_error write e = (case e of Sqlite_busy \<Rightarrow> AE_busy
     | Sqlite_other \<Rightarrow> if write then AE_write_failed else AE_read_failed)"

text \<open>The body of \<^verbatim>\<open>append\<close> between begin and commit.\<close>

definition append_body ::
  "nat \<Rightarrow> audit_row list \<Rightarrow> audit_event \<Rightarrow> audit_error + (audit_row list \<times> append_disposition \<times> string)" where
  "append_body capacity t e =
     (case fetchone (\<lambda>r. sa_audit_event_id r = sa_audit_event_id e) t of
        Some row \<Rightarrow> bindE (event_of_row row) (\<lambda>stored.
          if \<not> audit_equivalent stored e then Inl AE_identity_conflict
          else Inr (t, Audit_existing, sa_audit_event_id stored))
      | None \<Rightarrow>
          if capacity \<le> length t then Inl AE_capacity_reached
          else if \<not> audit_row_check (audit_values e) then Inl AE_write_failed
          else Inr (t @ [audit_values e], Audit_created, sa_audit_event_id e))"

definition append_event ::
  "nat \<Rightarrow> sqlite_fault \<Rightarrow> audit_row list \<Rightarrow> audit_event \<Rightarrow>
     audit_row list \<times> (audit_error + append_disposition \<times> string)" where
  "append_event capacity fault t e =
     (if \<not> valid_audit_event e then (t, Inl AE_event_invalid)
      else case fault of
        Fault_connect \<Rightarrow> (t, Inl AE_unavailable)
      | Fault_begin err \<Rightarrow> (t, Inl (audit_database_error True err))
      | _ \<Rightarrow> (case append_body capacity t e of
          Inl err \<Rightarrow> (t, Inl err)
        | Inr (t', res) \<Rightarrow> (case fault of
            Fault_write err \<Rightarrow> (t, Inl (audit_database_error True err)) | _ \<Rightarrow> (t', Inr res))))"

text \<open>\<^verbatim>\<open>list\<close>: ORDER BY event_time, audit_event_id (both compared as text) LIMIT.\<close>

definition audit_order :: "audit_row \<Rightarrow> string \<times> string" where
  "audit_order r = (sa_event_time r, sa_audit_event_id r)"

definition list_events :: "sqlite_fault \<Rightarrow> audit_row list \<Rightarrow> int \<Rightarrow> audit_error + audit_event list" where
  "list_events fault t limit =
     (if limit < 1 \<or> MAX_AUDIT_LIST_LIMIT < limit then Inl AE_list_limit_invalid
      else case fault of
        Fault_connect \<Rightarrow> Inl AE_unavailable
      | No_fault \<Rightarrow> mapE event_of_row (take (nat limit) (sort_key audit_order t))
      | Fault_begin err \<Rightarrow> Inl (audit_database_error False err)
      | Fault_write err \<Rightarrow> Inl (audit_database_error False err))"

section \<open>Rows hold events\<close>

lemma with_time_simps [simp]:
  "with_time u (with_time t e) = with_time u e" "with_time (sa_event_time e) e = e"
  "sa_event_time (with_time t e) = t" "sa_audit_event_id (with_time t e) = sa_audit_event_id e"
  "sa_correlation_id (with_time t e) = sa_correlation_id e"
  "event_taxonomy (with_time t e) = event_taxonomy e"
  "sa_schema_version (with_time t e) = sa_schema_version e"
  "sa_producer_id (with_time t e) = sa_producer_id e"
  "sa_source_contract_id (with_time t e) = sa_source_contract_id e"
  "sa_credential_sha256 (with_time t e) = sa_credential_sha256 e"
  "sa_request_id_sha256 (with_time t e) = sa_request_id_sha256 e"
  "sa_body_sha256 (with_time t e) = sa_body_sha256 e"
  by (simp_all add: with_time_def event_taxonomy_def)

lemma event_of_row_values [simp]:
  assumes "valid_audit_event e"
  shows "event_of_row (audit_values e) = Inr e"
proof -
  have "valid_datetime (sa_event_time e)" using assms by (simp add: valid_audit_event_def)
  then show ?thesis
    using assms by (simp add: event_of_row_def audit_values_def fromisoformat_isoformat Let_def)
qed

lemma audit_values_check:
  assumes "valid_audit_event e"
  shows "audit_row_check (audit_values e)"
proof -
  have u: "is_uuid4 x \<Longrightarrow> length x = 36" for x unfolding is_uuid4_def by blast
  show ?thesis
    using assms u
    by (auto simp: audit_row_check_def valid_audit_event_def audit_values_def length_isoformat opt_ok_def
        split: option.splits)
qed

definition audit_inv :: "nat \<Rightarrow> audit_row list \<Rightarrow> bool" where
  "audit_inv capacity t \<longleftrightarrow> length t \<le> capacity \<and> distinct (map sa_audit_event_id t) \<and>
     (\<forall>r \<in> set t. \<exists>e. valid_audit_event e \<and> r = audit_values e)"


section \<open>Runs\<close>

definition audit_step :: "nat \<Rightarrow> audit_row list \<Rightarrow> sqlite_fault \<times> audit_event \<Rightarrow> audit_row list" where
  "audit_step capacity t c = fst (append_event capacity (fst c) t (snd c))"

lemma append_event_table:
  "fst (append_event capacity fault t e) = t \<or>
   (valid_audit_event e \<and> length t < capacity \<and>
    sa_audit_event_id e \<notin> set (map sa_audit_event_id t) \<and>
    fst (append_event capacity fault t e) = t @ [audit_values e])"
proof -
  have "t' = t \<or> (length t < capacity \<and> sa_audit_event_id e \<notin> set (map sa_audit_event_id t) \<and>
      t' = t @ [audit_values e])" if "append_body capacity t e = Inr (t', res)" for t' res
    using that by (auto simp: append_body_def fetchone_None_iff split: option.splits bindE_splits if_splits)
  then show ?thesis
    by (cases fault; cases "append_body capacity t e") (auto simp: append_event_def)
qed

lemma audit_step_inv:
  assumes "audit_inv capacity t"
  shows "audit_inv capacity (audit_step capacity t c)" "prefix t (audit_step capacity t c)"
  using append_event_table [of capacity "fst c" t "snd c"] assms
  by (auto simp: audit_inv_def audit_step_def audit_values_def)

interpretation audit: monotone_machine "audit_step capacity" "\<lambda>t. t = []" "audit_inv capacity" prefix
proof
  show "audit_inv capacity t" if "t = []" for t using that by (simp add: audit_inv_def)
qed (auto intro: audit_step_inv prefix_order.trans)

section \<open>Refinement of an abstract log\<close>

text \<open>The log the table stands for: the list of events, with an append that knows no rows.\<close>

definition log_append :: "nat \<Rightarrow> audit_event list \<Rightarrow> audit_event \<Rightarrow>
    audit_event list \<times> (audit_error + append_disposition \<times> string)" where
  "log_append capacity es e =
     (case fetchone (\<lambda>s. sa_audit_event_id s = sa_audit_event_id e) es of
        Some s \<Rightarrow> (es, if audit_equivalent s e then Inr (Audit_existing, sa_audit_event_id e)
                       else Inl AE_identity_conflict)
      | None \<Rightarrow> if length es < capacity then (es @ [e], Inr (Audit_created, sa_audit_event_id e))
                else (es, Inl AE_capacity_reached))"

lemma audit_values_id [simp]: "sa_audit_event_id (audit_values e) = sa_audit_event_id e"
  by (simp add: audit_values_def)

lemma append_event_log:
  assumes "list_all valid_audit_event es" "valid_audit_event e"
  shows "append_event capacity No_fault (map audit_values es) e =
    map_prod (map audit_values) id (log_append capacity es e)"
proof (cases "fetchone (\<lambda>s. sa_audit_event_id s = sa_audit_event_id e) es")
  case None
  then show ?thesis
    using audit_values_check [OF assms(2)] assms(2)
    by (simp add: append_event_def append_body_def fetchone_map comp_def log_append_def)
next
  case (Some s)
  then have "valid_audit_event s" "sa_audit_event_id s = sa_audit_event_id e"
    using assms(1) by (auto dest!: fetchone_SomeD simp: list_all_iff)
  with Some assms(2) show ?thesis
    by (simp add: append_event_def append_body_def fetchone_map comp_def log_append_def)
qed

lemma audit_table_log:
  assumes "audit_inv capacity t"
  obtains es where "t = map audit_values es" "list_all valid_audit_event es"
    "distinct (map sa_audit_event_id es)"
proof -
  have "\<exists>es. t = map audit_values es \<and> list_all valid_audit_event es"
    if "\<forall>r \<in> set t. \<exists>e. valid_audit_event e \<and> r = audit_values e" for t
    using that
  proof (induction t)
    case (Cons r t)
    then obtain e es where "r = audit_values e" "valid_audit_event e" "t = map audit_values es"
      "list_all valid_audit_event es" by auto
    then have "r # t = map audit_values (e # es) \<and> list_all valid_audit_event (e # es)" by simp
    then show ?case by (rule exI)
  qed simp
  with assms obtain es where es: "t = map audit_values es" "list_all valid_audit_event es"
    by (auto simp: audit_inv_def)
  then have "distinct (map sa_audit_event_id es)" using assms by (simp add: audit_inv_def comp_def)
  with es that show ?thesis by blast
qed

section \<open>Order\<close>

definition chronological :: "audit_event \<Rightarrow> datetime \<times> string" where
  "chronological e = (sa_event_time e, sa_audit_event_id e)"

lemma audit_order_le_iff:
  assumes "valid_audit_event a" "valid_audit_event b"
  shows "audit_order (audit_values a) \<le> audit_order (audit_values b) \<longleftrightarrow> chronological a \<le> chronological b"
proof -
  have v: "valid_datetime (sa_event_time a)" "valid_datetime (sa_event_time b)"
    using assms by (auto simp: valid_audit_event_def)
  show ?thesis
    using isoformat_less_iff [OF v] isoformat_inject [OF v]
    by (auto simp: audit_order_def chronological_def audit_values_def less_eq_prod_def)
qed

section \<open>The contract of the audit\<close>

text \<open>The audit table is append-only and bounded: along every sequence of appends, with any
  events and any database faults, each later table extends each earlier one, holds at most the
  configured number of events, and never two with the same identifier.\<close>

theorem audit_append_only:
  "let t = foldl (audit_step capacity) [] cs; u = foldl (audit_step capacity) [] (cs @ cs') in
     prefix t u \<and> length u \<le> capacity \<and> distinct (map sa_audit_event_id u)"
proof -
  let ?t = "foldl (audit_step capacity) [] cs"
  have inv: "audit_inv capacity ?t" by (rule audit.inv_from_start) simp
  have "audit_inv capacity (foldl (audit_step capacity) [] (cs @ cs'))"
    by (rule audit.inv_from_start) simp
  then show ?thesis
    using audit.extends_run [OF inv, of cs'] by (simp add: Let_def audit_inv_def)
qed

text \<open>In every reachable table the stored rows read back as the valid events that were appended,
  and an append of a valid event without a database fault is exactly an append to that log of events:
  a new identifier is added while there is room and refused when there is none, a repeat that differs
  at most in time and correlation is accepted without change, any other repeat is a conflict.\<close>

theorem audit_append_refines_log:
  assumes "t = foldl (audit_step capacity) [] cs" "valid_audit_event e"
  shows "\<exists>es. mapE event_of_row t = Inr es \<and> list_all valid_audit_event es \<and>
    (let (t', r) = append_event capacity No_fault t e; (es', r') = log_append capacity es e in
     r = r' \<and> mapE event_of_row t' = Inr es')"
proof -
  have "audit_inv capacity t" unfolding assms(1) by (rule audit.inv_from_start) simp
  then obtain es where es: "t = map audit_values es" "list_all valid_audit_event es"
    by (rule audit_table_log)
  have read: "mapE event_of_row (map audit_values xs) = Inr xs" if "list_all valid_audit_event xs" for xs
    using that by (induction xs) auto
  obtain es' r' where la: "log_append capacity es e = (es', r')" by (cases "log_append capacity es e")
  then have "list_all valid_audit_event es'"
    using es(2) assms(2) by (auto simp: log_append_def split: option.splits if_splits)
  with read es la append_event_log [OF es(2) assms(2), of capacity] show ?thesis
    by (intro exI [of _ es]) (simp add: Let_def)
qed

definition sample_event :: "string \<Rightarrow> datetime \<Rightarrow> audit_event" where
  "sample_event i t = \<lparr>sa_schema_version = AUDIT_EVENT_SCHEMA, sa_audit_event_id = i, sa_event_time = t,
     sa_correlation_id = None, sa_event_type = ''rate_limited'', sa_processing_stage = ''rate_control'',
     sa_outcome = ''rejected'', sa_reason_code = ''rate_limited'',
     sa_producer_id = Some REGISTERED_UNSW_PRODUCER_ID, sa_source_contract_id = None,
     sa_credential_sha256 = None, sa_request_id_sha256 = None, sa_body_sha256 = None\<rparr>"

abbreviation event_a :: audit_event where
  "event_a \<equiv> sample_event ''aaaaaaaa-aaaa-4aaa-8aaa-aaaaaaaaaaaa'' (Datetime 2026 9 12 12 0 0 500000)"

abbreviation event_b :: audit_event where
  "event_b \<equiv> sample_event ''bbbbbbbb-bbbb-4bbb-8bbb-bbbbbbbbbbbb'' (Datetime 2026 9 12 12 0 0 0)"

lemma sample_events_valid: "valid_audit_event event_a" "valid_audit_event event_b"
  by code_simp+

theorem audit_append_refines_log_witness:
  "\<exists>es. mapE event_of_row (foldl (audit_step 2) [] [(No_fault, event_a)]) = Inr es \<and>
    snd (append_event 2 No_fault (foldl (audit_step 2) [] [(No_fault, event_a)]) event_b) =
      snd (log_append 2 es event_b)"
  using audit_append_refines_log [OF refl sample_events_valid(2), of 2 "[(No_fault, event_a)]"]
  unfolding Let_def split_beta by blast

text \<open>Listing returns the earliest events in chronological order: although the database orders
  the texts of the times, in every reachable table a listing with an admissible limit returns the first
  that many of the logged events ordered by time and then identifier.\<close>

theorem audit_list_chronological:
  assumes "t = foldl (audit_step capacity) [] cs" "1 \<le> limit" "limit \<le> MAX_AUDIT_LIST_LIMIT"
  shows "\<exists>es. mapE event_of_row t = Inr es \<and>
    list_events No_fault t limit = Inr (take (nat limit) (sort_key chronological es))"
proof -
  have "audit_inv capacity t" unfolding assms(1) by (rule audit.inv_from_start) simp
  then obtain es where es: "t = map audit_values es" "list_all valid_audit_event es"
    by (rule audit_table_log)
  have read: "mapE event_of_row (map audit_values xs) = Inr xs" if "\<forall>e \<in> set xs. valid_audit_event e" for xs
    using that by (induction xs) auto
  have "sort_key audit_order (map audit_values es) = map audit_values (sort_key chronological es)"
    by (rule sort_key_map) (use es(2) audit_order_le_iff in \<open>auto simp: list_all_iff\<close>)
  moreover have "\<forall>e \<in> set (take (nat limit) (sort_key chronological es)). valid_audit_event e"
    using es(2) by (auto simp: list_all_iff dest: in_set_takeD)
  ultimately show ?thesis
    using assms(2,3) es read by (auto simp: list_events_def take_map list_all_iff)
qed

theorem audit_list_chronological_witness:
  "\<exists>es. mapE event_of_row (foldl (audit_step 5) [] [(No_fault, event_a), (No_fault, event_b)]) = Inr es \<and>
    list_events No_fault (foldl (audit_step 5) [] [(No_fault, event_a), (No_fault, event_b)]) 2 =
      Inr (take 2 (sort_key chronological es))"
  using audit_list_chronological [OF refl, of 2 5 "[(No_fault, event_a), (No_fault, event_b)]"]
  by (simp add: MAX_AUDIT_LIST_LIMIT_def)

end
