(* ===== verification/AlertStore.thy ===== *)
theory AlertStore
  imports Response
begin

text \<open>
  Alert candidates: the contract and its stable identifiers
  (\<^verbatim>\<open>schemas/alert_candidate.py\<close>), the immutable-row repository
  (\<^verbatim>\<open>db/alert_repository.py\<close>) and the Attack-only construction
  (\<^verbatim>\<open>alerts/network_alerts.py\<close>).  The inference boundary is a parameter: it
  answers a registered reference with a result or a rejection code.
\<close>

section \<open>The candidate contract\<close>

abbreviation ALERT_CANDIDATE_SCHEMA :: string where "ALERT_CANDIDATE_SCHEMA \<equiv> ''alert_candidate_v1''"
abbreviation SOURCE_EVENT_ID_SCHEMA :: string where
  "SOURCE_EVENT_ID_SCHEMA \<equiv> ''unsw_registered_source_event_v1''"
abbreviation DETECTOR_IDENTITY :: string where
  "DETECTOR_IDENTITY \<equiv> ''threatfusion.unsw_network_classifier''"
abbreviation DETECTOR_VERSION :: string where "DETECTOR_VERSION \<equiv> ''v1''"
abbreviation DECISION_POLICY_VERSION :: string where
  "DECISION_POLICY_VERSION \<equiv> ''attack_probability_gte_0.5_v1''"
abbreviation FEATURE_CONTRACT :: string where "FEATURE_CONTRACT \<equiv> ''network_behavior_v1''"
abbreviation SOURCE_REPRESENTATION :: string where
  "SOURCE_REPRESENTATION \<equiv> ''unsw_nb15.argus.raw_49.transaction_bytes.v1''"

definition MODEL_VERSIONS :: "(string \<times> string) list" where
  "MODEL_VERSIONS = [(''random_forest'', ''network_random_forest_baseline_v1''),
     (''logistic_regression'', ''network_logistic_baseline_v1'')]"

datatype candidate_error =
    CE_source_event_identity_invalid | CE_invalid | CE_identity_mismatch | CE_inference_not_actionable

definition is_source_event_id :: "string \<Rightarrow> bool" where
  "is_source_event_id s \<longleftrightarrow> starts_with (SOURCE_EVENT_ID_SCHEMA @ '':'') s \<and>
     is_sha256 (drop (length (SOURCE_EVENT_ID_SCHEMA @ '':'')) s)"

definition derive_source_event_id ::
  "string \<Rightarrow> string \<Rightarrow> string \<Rightarrow> int \<Rightarrow> candidate_error + string" where
  "derive_source_event_id source_rep manifest_sha256 member_sha256 row_number =
     (if source_rep \<noteq> SOURCE_REPRESENTATION \<or> \<not> is_sha256 manifest_sha256 \<or>
         \<not> is_sha256 member_sha256 \<or> row_number \<le> 0
      then Inl CE_source_event_identity_invalid
      else Inr (SOURCE_EVENT_ID_SCHEMA @ '':'' @ identity_digest ''threatfusion:source-event''
        [SOURCE_EVENT_ID_SCHEMA, source_rep, manifest_sha256, member_sha256, dec_int row_number]))"

text \<open>The seven parts of an alert identity, in the order of the call.\<close>

definition derive_alert_candidate_id :: "string list \<Rightarrow> string" where
  "derive_alert_candidate_id parts = ALERT_CANDIDATE_SCHEMA @ '':'' @
     identity_digest ''threatfusion:alert-candidate'' (ALERT_CANDIDATE_SCHEMA # parts)"

record 't alert_fields =
  ac_schema_version :: string
  ac_alert_candidate_id :: string
  ac_source_event_id :: string
  ac_correlation_id :: string
  ac_detector_identity :: string
  ac_detector_version :: string
  ac_model_identity :: string
  ac_model_version :: string
  ac_model_artifact_sha256 :: string
  ac_feature_contract :: string
  ac_source_representation :: string
  ac_observed_at :: 't
  ac_created_at :: 't
  ac_score :: pyfloat
  ac_threshold :: pyfloat
  ac_policy_version :: string
  ac_decision :: string
  ac_inference_status :: string
  ac_reason :: string

type_synonym alert_candidate = "datetime alert_fields"
type_synonym alert_row = "string alert_fields"

definition is_plain_text :: "string \<Rightarrow> bool" where
  "is_plain_text s \<longleftrightarrow> 0 < length s \<and> length s \<le> 256"

definition identity_parts :: "'t alert_fields \<Rightarrow> string list" where
  "identity_parts c = [ac_source_event_id c, ac_detector_identity c, ac_detector_version c,
     ac_model_identity c, ac_model_version c, ac_model_artifact_sha256 c, ac_policy_version c]"

definition candidate_fields_ok :: "alert_candidate \<Rightarrow> bool" where
  "candidate_fields_ok c \<longleftrightarrow>
     ac_schema_version c = ALERT_CANDIDATE_SCHEMA \<and>
     list_all is_plain_text [ac_alert_candidate_id c, ac_source_event_id c, ac_correlation_id c,
       ac_detector_identity c, ac_detector_version c, ac_model_identity c, ac_model_version c,
       ac_model_artifact_sha256 c, ac_feature_contract c, ac_source_representation c,
       ac_policy_version c, ac_reason c] \<and>
     ac_detector_identity c = DETECTOR_IDENTITY \<and> ac_detector_version c = DETECTOR_VERSION \<and>
     map_of MODEL_VERSIONS (ac_model_identity c) = Some (ac_model_version c) \<and>
     is_sha256 (ac_model_artifact_sha256 c) \<and> ac_feature_contract c = FEATURE_CONTRACT \<and>
     ac_source_representation c = SOURCE_REPRESENTATION \<and>
     ac_policy_version c = DECISION_POLICY_VERSION \<and> is_source_event_id (ac_source_event_id c) \<and>
     ac_decision c = ''Attack'' \<and> ac_inference_status c = ''completed'' \<and>
     ac_reason c = ''inference_succeeded'' \<and>
     is_probability (ac_score c) \<and> is_probability (ac_threshold c) \<and>
     valid_datetime (ac_observed_at c) \<and> valid_datetime (ac_created_at c) \<and>
     is_uuid (ac_correlation_id c)"

text \<open>\<^verbatim>\<open>AlertCandidate.__post_init__\<close>\<close>

definition make_alert_candidate :: "alert_candidate \<Rightarrow> candidate_error + alert_candidate" where
  "make_alert_candidate c =
     (if \<not> candidate_fields_ok c then Inl CE_invalid
      else if ac_alert_candidate_id c \<noteq> derive_alert_candidate_id (identity_parts c)
      then Inl CE_identity_mismatch else Inr c)"

definition valid_alert_candidate :: "alert_candidate \<Rightarrow> bool" where
  "valid_alert_candidate c \<longleftrightarrow> candidate_fields_ok c \<and>
     ac_alert_candidate_id c = derive_alert_candidate_id (identity_parts c)"

lemma make_alert_candidate_Inr: "make_alert_candidate c = Inr d \<longleftrightarrow> valid_alert_candidate c \<and> d = c"
  by (auto simp: make_alert_candidate_def valid_alert_candidate_def)

section \<open>The repository\<close>

datatype alert_error =
    DE_corrupt | DE_unavailable | DE_busy | DE_write_failed | DE_read_failed | DE_record_invalid
  | DE_identity_conflict | DE_id_invalid | DE_limit_invalid | DE_offset_invalid

text \<open>\<^verbatim>\<open>_connect\<close> can also report a corrupt file.\<close>

datatype alert_fault = AF sqlite_fault | AF_corrupt

definition MAX_ALERT_LIST_LIMIT :: int where "MAX_ALERT_LIST_LIMIT = 100"
definition MAX_ALERT_LIST_OFFSET :: int where "MAX_ALERT_LIST_OFFSET = 1000000"
definition MODEL_SCORE_RETRY_ABS_TOLERANCE :: pyfloat where
  "MODEL_SCORE_RETRY_ABS_TOLERANCE = fl_round (1 / 10 ^ 15)"

definition with_times :: "'u \<Rightarrow> 'u \<Rightarrow> 't alert_fields \<Rightarrow> 'u alert_fields" where
  "with_times observed created c = \<lparr>ac_schema_version = ac_schema_version c,
     ac_alert_candidate_id = ac_alert_candidate_id c, ac_source_event_id = ac_source_event_id c,
     ac_correlation_id = ac_correlation_id c, ac_detector_identity = ac_detector_identity c,
     ac_detector_version = ac_detector_version c, ac_model_identity = ac_model_identity c,
     ac_model_version = ac_model_version c, ac_model_artifact_sha256 = ac_model_artifact_sha256 c,
     ac_feature_contract = ac_feature_contract c, ac_source_representation = ac_source_representation c,
     ac_observed_at = observed, ac_created_at = created, ac_score = ac_score c,
     ac_threshold = ac_threshold c, ac_policy_version = ac_policy_version c, ac_decision = ac_decision c,
     ac_inference_status = ac_inference_status c, ac_reason = ac_reason c\<rparr>"

definition alert_values :: "alert_candidate \<Rightarrow> alert_row" where
  "alert_values c = with_times (isoformat (ac_observed_at c)) (isoformat (ac_created_at c)) c"

definition candidate_of_row :: "alert_row \<Rightarrow> alert_error + alert_candidate" where
  "candidate_of_row r =
     (case (fromisoformat_utc (ac_observed_at r), fromisoformat_utc (ac_created_at r)) of
        (Some observed, Some created) \<Rightarrow>
          (case make_alert_candidate (with_times observed created r) of
             Inl _ \<Rightarrow> Inl DE_record_invalid | Inr c \<Rightarrow> Inr c)
      | _ \<Rightarrow> Inl DE_record_invalid)"

definition stable_content :: "alert_candidate \<Rightarrow> alert_candidate" where
  "stable_content c = c\<lparr>ac_correlation_id := [], ac_created_at := Datetime 0 0 0 0 0 0 0, ac_score := NaN\<rparr>"

definition is_close :: "pyfloat \<Rightarrow> pyfloat \<Rightarrow> bool" where
  "is_close a b \<longleftrightarrow> fl_eq a b \<or> (is_finite a \<and> is_finite b \<and>
     fl_le (fl_abs (fl_sub b a)) MODEL_SCORE_RETRY_ABS_TOLERANCE)"

definition same_detection_evidence :: "alert_candidate \<Rightarrow> alert_candidate \<Rightarrow> bool" where
  "same_detection_evidence stored attempted \<longleftrightarrow>
     stable_content stored = stable_content attempted \<and> is_close (ac_score stored) (ac_score attempted)"

datatype insert_disposition = Alert_created | Alert_existing

definition alert_row_check :: "alert_row \<Rightarrow> bool" where
  "alert_row_check r \<longleftrightarrow> ac_decision r = ''Attack'' \<and> ac_inference_status r = ''completed'' \<and>
     ac_reason r = ''inference_succeeded''"

definition insert_alert_body ::
  "alert_row list \<Rightarrow> alert_candidate \<Rightarrow>
     alert_error + (alert_row list \<times> insert_disposition \<times> alert_candidate)" where
  "insert_alert_body t c =
     (case fetchone (\<lambda>r. ac_alert_candidate_id r = ac_alert_candidate_id c) t of
        None \<Rightarrow> if alert_row_check (alert_values c) then Inr (t @ [alert_values c], Alert_created, c)
                else Inl DE_write_failed
      | Some row \<Rightarrow> bindE (candidate_of_row row) (\<lambda>stored.
          if \<not> same_detection_evidence stored c then Inl DE_identity_conflict
          else Inr (t, Alert_existing, stored)))"

definition alert_write_error :: "sqlite_error \<Rightarrow> alert_error" where
  "alert_write_error e = (case e of Sqlite_busy \<Rightarrow> DE_busy | Sqlite_other \<Rightarrow> DE_write_failed)"

definition insert_alert ::
  "alert_fault \<Rightarrow> alert_row list \<Rightarrow> alert_candidate \<Rightarrow>
     alert_row list \<times> (alert_error + insert_disposition \<times> alert_candidate)" where
  "insert_alert fault t c = (case fault of
     AF_corrupt \<Rightarrow> (t, Inl DE_corrupt)
   | AF Fault_connect \<Rightarrow> (t, Inl DE_unavailable)
   | AF (Fault_begin e) \<Rightarrow> (t, Inl (alert_write_error e))
   | AF (Fault_write e) \<Rightarrow> (case insert_alert_body t c of
        Inl err \<Rightarrow> (t, Inl err) | Inr _ \<Rightarrow> (t, Inl (alert_write_error e)))
   | AF No_fault \<Rightarrow> (case insert_alert_body t c of
        Inl err \<Rightarrow> (t, Inl err) | Inr (t', res) \<Rightarrow> (t', Inr res)))"

definition read_table :: "alert_fault \<Rightarrow> alert_row list \<Rightarrow> (alert_row list \<Rightarrow> alert_error + 'a) \<Rightarrow> alert_error + 'a" where
  "read_table fault t f = (case fault of
     AF_corrupt \<Rightarrow> Inl DE_corrupt
   | AF Fault_connect \<Rightarrow> Inl DE_unavailable
   | AF No_fault \<Rightarrow> f t
   | AF _ \<Rightarrow> Inl DE_read_failed)"

definition get_alert :: "alert_fault \<Rightarrow> alert_row list \<Rightarrow> string \<Rightarrow> alert_error + alert_candidate option" where
  "get_alert fault t i =
     (if 128 < length i then Inl DE_id_invalid
      else read_table fault t (\<lambda>t. case fetchone (\<lambda>r. ac_alert_candidate_id r = i) t of
         None \<Rightarrow> Inr None | Some row \<Rightarrow> bindE (candidate_of_row row) (\<lambda>c. Inr (Some c))))"

definition alert_order :: "alert_row \<Rightarrow> string \<times> string" where
  "alert_order r = (ac_created_at r, ac_alert_candidate_id r)"

definition list_alerts :: "alert_fault \<Rightarrow> alert_row list \<Rightarrow> int \<Rightarrow> int \<Rightarrow> alert_error + alert_candidate list" where
  "list_alerts fault t limit offset =
     (if limit < 1 \<or> MAX_ALERT_LIST_LIMIT < limit then Inl DE_limit_invalid
      else if offset < 0 \<or> MAX_ALERT_LIST_OFFSET < offset then Inl DE_offset_invalid
      else read_table fault t (\<lambda>t.
        mapE candidate_of_row (take (nat limit) (drop (nat offset) (sort_key alert_order t)))))"

section \<open>From inference to candidates\<close>

record inference_result =
  ir_correlation_id :: string
  ir_model_identity :: string
  ir_model_version :: string
  ir_contract_identity :: string
  ir_source_representation :: string
  ir_attack_probability :: "pyfloat option"
  ir_decision_threshold :: pyfloat
  ir_predicted_class :: "string option"
  ir_status :: string
  ir_reason :: string
  ir_processed_at :: string
  ir_latency_ms :: pyfloat

record registered_result =
  rr_source_event_id :: string
  rr_observed_at :: datetime
  rr_model_artifact_sha256 :: string
  rr_inference :: inference_result

definition candidate_of_result :: "registered_result \<Rightarrow> pyfloat \<Rightarrow> datetime \<Rightarrow> alert_candidate" where
  "candidate_of_result reg p created = (let r = rr_inference reg in
     \<lparr>ac_schema_version = ALERT_CANDIDATE_SCHEMA,
      ac_alert_candidate_id = derive_alert_candidate_id [rr_source_event_id reg, DETECTOR_IDENTITY,
        DETECTOR_VERSION, ir_model_identity r, ir_model_version r, rr_model_artifact_sha256 reg,
        DECISION_POLICY_VERSION],
      ac_source_event_id = rr_source_event_id reg, ac_correlation_id = ir_correlation_id r,
      ac_detector_identity = DETECTOR_IDENTITY, ac_detector_version = DETECTOR_VERSION,
      ac_model_identity = ir_model_identity r, ac_model_version = ir_model_version r,
      ac_model_artifact_sha256 = rr_model_artifact_sha256 reg,
      ac_feature_contract = ir_contract_identity r,
      ac_source_representation = ir_source_representation r,
      ac_observed_at = rr_observed_at reg, ac_created_at = created, ac_score = p,
      ac_threshold = ir_decision_threshold r, ac_policy_version = DECISION_POLICY_VERSION,
      ac_decision = ''Attack'', ac_inference_status = ''completed'', ac_reason = ''inference_succeeded''\<rparr>)"

definition build_alert_candidate :: "registered_result \<Rightarrow> datetime \<Rightarrow> candidate_error + alert_candidate" where
  "build_alert_candidate reg created = (let r = rr_inference reg in
     if ir_status r \<noteq> ''completed'' \<or> ir_reason r \<noteq> ''inference_succeeded'' \<or>
        ir_predicted_class r \<noteq> Some ''Attack''
     then Inl CE_inference_not_actionable
     else (case ir_attack_probability r of None \<Rightarrow> Inl CE_inference_not_actionable
       | Some p \<Rightarrow> make_alert_candidate (candidate_of_result reg p created)))"

datatype workflow_result =
    Not_actionable string
  | Persisted insert_disposition alert_candidate

text \<open>
  \<^verbatim>\<open>infer_and_persist_registered_attack\<close>: the boundary's answer is a rejection
  code or a registered result; candidate and repository errors propagate.
\<close>

definition infer_and_persist_registered_attack ::
  "string + registered_result \<Rightarrow> alert_fault \<Rightarrow> alert_row list \<Rightarrow> datetime \<Rightarrow>
     alert_row list \<times> ((candidate_error + alert_error) + workflow_result)" where
  "infer_and_persist_registered_attack answer fault t created = (case answer of
     Inl code \<Rightarrow> (t, Inr (Not_actionable code))
   | Inr reg \<Rightarrow>
      if ir_status (rr_inference reg) \<noteq> ''completed'' \<or> ir_predicted_class (rr_inference reg) \<noteq> Some ''Attack''
      then (t, Inr (Not_actionable (ir_reason (rr_inference reg))))
      else (case build_alert_candidate reg created of
          Inl e \<Rightarrow> (t, Inl (Inl e))
        | Inr c \<Rightarrow> (case insert_alert fault t c of
            (t', Inl e) \<Rightarrow> (t', Inl (Inr e))
          | (t', Inr (d, stored)) \<Rightarrow> (t', Inr (Persisted d stored)))))"

end
