(* ===== verification/AlertStore_Facts.thy ===== *)
theory AlertStore_Facts
  imports AlertStore "HOL-Library.Sublist"
begin

text \<open>
  The alert store keeps the first row of every identity, accepts only repeats of
  the same evidence, and pages in creation order; identities are as strong as the
  hash they are built from.
\<close>

section \<open>Rows hold candidates\<close>

lemma with_times_with_times [simp]: "with_times a b (with_times u v r) = with_times a b r"
  by (simp add: with_times_def)

lemma with_times_simps [simp]:
  "with_times (ac_observed_at c) (ac_created_at c) c = c"
  "ac_observed_at (with_times a b r) = a" "ac_created_at (with_times a b r) = b"
  "ac_alert_candidate_id (with_times a b r) = ac_alert_candidate_id r"
  by (simp_all add: with_times_def)

lemma alert_values_id [simp]: "ac_alert_candidate_id (alert_values c) = ac_alert_candidate_id c"
  by (simp add: alert_values_def)

lemma candidate_of_row_values [simp]:
  assumes "valid_alert_candidate c"
  shows "candidate_of_row (alert_values c) = Inr c"
proof -
  have "valid_datetime (ac_observed_at c)" "valid_datetime (ac_created_at c)"
    using assms by (auto simp: valid_alert_candidate_def candidate_fields_ok_def)
  then have "fromisoformat_utc (isoformat (ac_observed_at c)) = Some (ac_observed_at c)"
    "fromisoformat_utc (isoformat (ac_created_at c)) = Some (ac_created_at c)"
    by (simp_all add: fromisoformat_isoformat)
  moreover have "make_alert_candidate c = Inr c" using assms by (simp add: make_alert_candidate_Inr)
  ultimately show ?thesis by (simp add: candidate_of_row_def alert_values_def)
qed

lemma alert_values_check: "valid_alert_candidate c \<Longrightarrow> alert_row_check (alert_values c)"
  by (simp add: alert_row_check_def alert_values_def with_times_def valid_alert_candidate_def
      candidate_fields_ok_def)

definition alert_inv :: "alert_row list \<Rightarrow> bool" where
  "alert_inv t \<longleftrightarrow> (\<exists>cs. t = map alert_values cs \<and> list_all valid_alert_candidate cs \<and>
     distinct (map ac_alert_candidate_id cs))"

text \<open>A caller constructs a candidate, which validates it, and inserts it.\<close>

definition alert_step :: "alert_row list \<Rightarrow> alert_fault \<times> alert_candidate \<Rightarrow> alert_row list" where
  "alert_step t x = (case make_alert_candidate (snd x) of Inl _ \<Rightarrow> t
     | Inr c \<Rightarrow> fst (insert_alert (fst x) t c))"

lemma insert_alert_body_known:
  assumes "list_all valid_alert_candidate cs"
    "fetchone (\<lambda>s. ac_alert_candidate_id s = ac_alert_candidate_id c) cs = Some s"
  shows "insert_alert_body (map alert_values cs) c =
    (if same_detection_evidence s c then Inr (map alert_values cs, Alert_existing, s)
     else Inl DE_identity_conflict)"
proof -
  have "valid_alert_candidate s" using assms by (auto dest!: fetchone_SomeD simp: list_all_iff)
  then show ?thesis using assms(2) by (simp add: insert_alert_body_def fetchone_map comp_def)
qed

lemma insert_alert_body_new:
  assumes "fetchone (\<lambda>s. ac_alert_candidate_id s = ac_alert_candidate_id c) cs = None"
    "valid_alert_candidate c"
  shows "insert_alert_body (map alert_values cs) c = Inr (map alert_values (cs @ [c]), Alert_created, c)"
  using assms alert_values_check [OF assms(2)]
  by (simp add: insert_alert_body_def fetchone_map comp_def)

lemma insert_alert_table:
  assumes "list_all valid_alert_candidate cs" "valid_alert_candidate c"
  shows "fst (insert_alert fault (map alert_values cs) c) \<in> {map alert_values cs} \<union>
    (if fetchone (\<lambda>s. ac_alert_candidate_id s = ac_alert_candidate_id c) cs = None
     then {map alert_values (cs @ [c])} else {})"
proof (cases "fetchone (\<lambda>s. ac_alert_candidate_id s = ac_alert_candidate_id c) cs")
  case None
  then show ?thesis
    using insert_alert_body_new [OF None assms(2)]
    by (simp add: insert_alert_def split: alert_fault.split sqlite_fault.split)
next
  case (Some s)
  then show ?thesis
    using insert_alert_body_known [OF assms(1) Some]
    by (simp add: insert_alert_def split: alert_fault.split sqlite_fault.split)
qed

lemma alert_step_inv:
  assumes "alert_inv t"
  shows "alert_inv (alert_step t x)" "prefix t (alert_step t x)"
proof -
  obtain cs where cs: "t = map alert_values cs" "list_all valid_alert_candidate cs"
    "distinct (map ac_alert_candidate_id cs)" using assms by (auto simp: alert_inv_def)
  have "alert_step t x = t \<or> (\<exists>c. valid_alert_candidate c \<and>
      fetchone (\<lambda>s. ac_alert_candidate_id s = ac_alert_candidate_id c) cs = None \<and>
      alert_step t x = map alert_values (cs @ [c]))"
    using insert_alert_table [OF cs(2), of "snd x" "fst x"]
    by (auto simp: alert_step_def make_alert_candidate_Inr cs(1) split: sum.split if_splits)
  then have "alert_inv (alert_step t x) \<and> prefix t (alert_step t x)"
  proof (elim disjE exE conjE)
    fix c assume c: "valid_alert_candidate c"
      "fetchone (\<lambda>s. ac_alert_candidate_id s = ac_alert_candidate_id c) cs = None"
      "alert_step t x = map alert_values (cs @ [c])"
    then have "list_all valid_alert_candidate (cs @ [c]) \<and> distinct (map ac_alert_candidate_id (cs @ [c]))"
      using cs by (auto simp: fetchone_None_iff)
    with c(3) cs(1) show ?thesis unfolding alert_inv_def by (metis map_append prefixI)
  qed (use assms in simp)
  then show "alert_inv (alert_step t x)" "prefix t (alert_step t x)" by auto
qed

interpretation alerts: monotone_machine alert_step "\<lambda>t. t = []" alert_inv prefix
proof
  show "alert_inv t" if "t = []" for t using that by (simp add: alert_inv_def)
qed (auto intro: alert_step_inv prefix_order.trans)


section \<open>Reading and repeating\<close>

lemma derived_id_length: "length (derive_alert_candidate_id ps) = 83"
proof -
  have "length (identity_digest d ps) = 64" for d ps
    using identity_digest_shape [of d ps] by (simp add: is_sha256_def)
  then show ?thesis by (simp add: derive_alert_candidate_id_def)
qed

lemma derived_alert_id: "is_alert_id (derive_alert_candidate_id ps)"
  by (simp add: is_alert_id_def derive_alert_candidate_id_def ALERT_ID_PREFIX_def starts_with_def)

lemma get_alert_stored:
  assumes "alert_inv t" "alert_values c \<in> set t" "valid_alert_candidate c"
  shows "get_alert (AF No_fault) t (ac_alert_candidate_id c) = Inr (Some c)"
    "ac_alert_candidate_id d = ac_alert_candidate_id c \<Longrightarrow> insert_alert (AF No_fault) t d =
       (t, if same_detection_evidence c d then Inr (Alert_existing, c) else Inl DE_identity_conflict)"
proof -
  obtain cs where cs: "t = map alert_values cs" "list_all valid_alert_candidate cs"
    "distinct (map ac_alert_candidate_id cs)" using assms(1) by (auto simp: alert_inv_def)
  obtain c' where c': "c' \<in> set cs" "alert_values c' = alert_values c" using assms(2) cs(1) by auto
  have "valid_alert_candidate c'" using c'(1) cs(2) by (simp add: list_all_iff)
  then have "c' = c" using c'(2) assms(3) by (metis candidate_of_row_values sum.inject(2))
  then have "c \<in> set cs" using c' by simp
  then have f: "fetchone (\<lambda>s. ac_alert_candidate_id s = ac_alert_candidate_id c) cs = Some c"
    by (rule fetchone_key_unique [OF cs(3)])
  have "length (ac_alert_candidate_id c) \<le> 128"
    using assms(3) derived_id_length by (simp add: valid_alert_candidate_def)
  then show "get_alert (AF No_fault) t (ac_alert_candidate_id c) = Inr (Some c)"
    using f assms(3) by (simp add: get_alert_def read_table_def cs(1) fetchone_map comp_def)
  show "insert_alert (AF No_fault) t d =
       (t, if same_detection_evidence c d then Inr (Alert_existing, c) else Inl DE_identity_conflict)"
    if "ac_alert_candidate_id d = ac_alert_candidate_id c"
    using insert_alert_body_known [OF cs(2), of d c] f that
    by (simp add: insert_alert_def cs(1))
qed

lemma insert_created:
  assumes "insert_alert fault t c = (t', Inr (Alert_created, c'))" "alert_inv t" "valid_alert_candidate c"
  shows "c' = c" "t' = t @ [alert_values c]"
  using assms(1)
  by (auto simp: insert_alert_def insert_alert_body_def split: alert_fault.splits sqlite_fault.splits
      sum.splits option.splits if_splits bindE_splits)

section \<open>The contract of the store\<close>

text \<open>C19: The first stored candidate of an identity is permanent.  Once an insertion created a
  candidate, every later table returns exactly that candidate for its identifier, answers a repeat with
  the same evidence and a score within the tolerance of the first one with the first candidate, and
  refuses any other candidate with that identifier, in each case without changing the table.\<close>

theorem alert_first_write_wins:
  assumes "valid_alert_candidate c"
    and "insert_alert fault (foldl alert_step [] xs) c = (t', Inr (Alert_created, c'))"
  shows "let u = foldl alert_step t' ys in
    get_alert (AF No_fault) u (ac_alert_candidate_id c) = Inr (Some c) \<and>
    (\<forall>d. ac_alert_candidate_id d = ac_alert_candidate_id c \<longrightarrow>
       insert_alert (AF No_fault) u d =
         (u, if stable_content c = stable_content d \<and> is_close (ac_score c) (ac_score d)
             then Inr (Alert_existing, c) else Inl DE_identity_conflict))"
proof -
  let ?t = "foldl alert_step [] xs" and ?u = "foldl alert_step t' ys"
  have inv: "alert_inv ?t" by (rule alerts.inv_from_start) simp
  have t': "t' = ?t @ [alert_values c]" by (rule insert_created(2) [OF assms(2) inv assms(1)])
  have "alert_step ?t (fault, c) = t'"
    using assms by (simp add: alert_step_def make_alert_candidate_Inr [THEN iffD2])
  then have inv': "alert_inv t'" using alert_step_inv(1) [OF inv, of "(fault, c)"] by simp
  have "prefix t' ?u" by (rule alerts.extends_run [OF inv'])
  then have mem: "alert_values c \<in> set ?u" using t' by (auto simp: prefix_def)
  have inv_u: "alert_inv ?u" by (rule alerts.inv_run [OF inv'])
  show ?thesis
    unfolding Let_def same_detection_evidence_def [symmetric]
    using get_alert_stored [OF inv_u mem assms(1)] by blast
qed

definition sample_alert :: alert_candidate where
  "sample_alert = \<lparr>ac_schema_version = ALERT_CANDIDATE_SCHEMA,
     ac_alert_candidate_id = derive_alert_candidate_id [SOURCE_EVENT_ID_SCHEMA @ '':'' @ replicate 64 CHR ''d'',
       DETECTOR_IDENTITY, DETECTOR_VERSION, ''random_forest'', ''network_random_forest_baseline_v1'',
       replicate 64 CHR ''e'', DECISION_POLICY_VERSION],
     ac_source_event_id = SOURCE_EVENT_ID_SCHEMA @ '':'' @ replicate 64 CHR ''d'',
     ac_correlation_id = ''33333333-3333-4333-8333-333333333333'',
     ac_detector_identity = DETECTOR_IDENTITY, ac_detector_version = DETECTOR_VERSION,
     ac_model_identity = ''random_forest'', ac_model_version = ''network_random_forest_baseline_v1'',
     ac_model_artifact_sha256 = replicate 64 CHR ''e'', ac_feature_contract = FEATURE_CONTRACT,
     ac_source_representation = SOURCE_REPRESENTATION, ac_observed_at = Datetime 2026 9 12 12 0 0 0,
     ac_created_at = Datetime 2026 9 12 12 0 30 0, ac_score = Fin (3 / 4), ac_threshold = Fin (1 / 2),
     ac_policy_version = DECISION_POLICY_VERSION, ac_decision = ''Attack'',
     ac_inference_status = ''completed'', ac_reason = ''inference_succeeded''\<rparr>"

lemma sample_alert_valid: "valid_alert_candidate sample_alert"
proof -
  have t: "is_plain_text (ac_alert_candidate_id sample_alert)"
    by (simp add: sample_alert_def is_plain_text_def derived_id_length)
  have "list_all is_plain_text [SOURCE_EVENT_ID_SCHEMA @ '':'' @ replicate 64 CHR ''d'',
      ''33333333-3333-4333-8333-333333333333'', DETECTOR_IDENTITY, DETECTOR_VERSION, ''random_forest'',
      ''network_random_forest_baseline_v1'', replicate 64 CHR ''e'', FEATURE_CONTRACT, SOURCE_REPRESENTATION,
      DECISION_POLICY_VERSION, ''inference_succeeded'']"
    "is_sha256 (replicate 64 CHR ''e'')" "is_source_event_id (SOURCE_EVENT_ID_SCHEMA @ '':'' @ replicate 64 CHR ''d'')"
    "map_of MODEL_VERSIONS ''random_forest'' = Some ''network_random_forest_baseline_v1''"
    "valid_datetime (Datetime 2026 9 12 12 0 0 0)" "valid_datetime (Datetime 2026 9 12 12 0 30 0)"
    "is_uuid ''33333333-3333-4333-8333-333333333333''" "is_probability (Fin (3 / 4))" "is_probability (Fin (1 / 2))"
    by code_simp+
  with t show ?thesis
    by (simp add: valid_alert_candidate_def candidate_fields_ok_def identity_parts_def sample_alert_def)
qed

theorem alert_first_write_wins_witness:
  "\<exists>t'. insert_alert (AF No_fault) (foldl alert_step [] []) sample_alert = (t', Inr (Alert_created, sample_alert)) \<and>
     get_alert (AF No_fault) t' (ac_alert_candidate_id sample_alert) = Inr (Some sample_alert)"
proof -
  have ins: "insert_alert (AF No_fault) (foldl alert_step [] []) sample_alert =
      ([alert_values sample_alert], Inr (Alert_created, sample_alert))"
    using insert_alert_body_new [of sample_alert "[]"] sample_alert_valid by (simp add: insert_alert_def)
  with alert_first_write_wins [OF sample_alert_valid ins, of "[]"] show ?thesis by (simp add: Let_def)
qed

text \<open>Alert identifiers name detections: two valid candidates share an identifier only if they
  agree on the source event, the detector, the model, its version and artifact and the decision policy,
  unless their identity messages are an explicit SHA-256 collision.\<close>

theorem alert_identity_binding:
  assumes "valid_alert_candidate c" "valid_alert_candidate d"
    and "ac_alert_candidate_id c = ac_alert_candidate_id d"
  shows "identity_parts c = identity_parts d \<or>
    sha256_collision
      (identity_message ''threatfusion:alert-candidate'' (ALERT_CANDIDATE_SCHEMA # identity_parts c))
      (identity_message ''threatfusion:alert-candidate'' (ALERT_CANDIDATE_SCHEMA # identity_parts d))"
proof -
  have u: "length (utf8 s) \<le> 2 * length s" for s
    by (induction s) (auto simp: utf8_char_def Let_def)
  have fits: "part_fits s" if "is_plain_text s" for s
  proof -
    have "length (utf8 s) \<le> 512" using u [of s] that by (simp add: is_plain_text_def)
    then show ?thesis by (simp add: part_fits_def)
  qed
  have plain: "\<forall>p \<in> set (ALERT_CANDIDATE_SCHEMA # identity_parts x). part_fits p"
    if "valid_alert_candidate x" for x
    using that
    by (auto simp: valid_alert_candidate_def candidate_fields_ok_def identity_parts_def intro!: fits)
      (simp_all add: is_plain_text_def)
  have "identity_digest ''threatfusion:alert-candidate'' (ALERT_CANDIDATE_SCHEMA # identity_parts c) =
      identity_digest ''threatfusion:alert-candidate'' (ALERT_CANDIDATE_SCHEMA # identity_parts d)"
    using assms by (simp add: valid_alert_candidate_def derive_alert_candidate_id_def)
  from identity_digest_collision [OF plain [OF assms(1)] plain [OF assms(2)] this] show ?thesis by blast
qed

theorem alert_identity_binding_witness:
  "identity_parts sample_alert = identity_parts (sample_alert\<lparr>ac_score := Fin 1\<rparr>) \<or>
    sha256_collision
      (identity_message ''threatfusion:alert-candidate'' (ALERT_CANDIDATE_SCHEMA # identity_parts sample_alert))
      (identity_message ''threatfusion:alert-candidate''
        (ALERT_CANDIDATE_SCHEMA # identity_parts (sample_alert\<lparr>ac_score := Fin 1\<rparr>)))"
proof -
  have "valid_alert_candidate (sample_alert\<lparr>ac_score := Fin 1\<rparr>)"
    using sample_alert_valid
    unfolding valid_alert_candidate_def candidate_fields_ok_def identity_parts_def
    by (auto simp: is_probability_iff)
  from alert_identity_binding [OF sample_alert_valid this] show ?thesis by simp
qed

definition creation_order :: "alert_candidate \<Rightarrow> datetime \<times> string" where
  "creation_order c = (ac_created_at c, ac_alert_candidate_id c)"

lemma alert_order_le_iff:
  assumes "valid_alert_candidate a" "valid_alert_candidate b"
  shows "alert_order (alert_values a) \<le> alert_order (alert_values b) \<longleftrightarrow> creation_order a \<le> creation_order b"
proof -
  have v: "valid_datetime (ac_created_at a)" "valid_datetime (ac_created_at b)"
    using assms by (auto simp: valid_alert_candidate_def candidate_fields_ok_def)
  show ?thesis
    using isoformat_less_iff [OF v] isoformat_inject [OF v]
    by (auto simp: alert_order_def creation_order_def alert_values_def less_eq_prod_def)
qed

text \<open>Listing pages through the stored candidates in the order of their creation times and
  identifiers: in every reachable table a page with admissible limit and offset is that slice of the
  chronologically sorted candidates, although the database sorts the texts of the times.\<close>

theorem alert_pages_chronological:
  assumes "t = foldl alert_step [] xs" "1 \<le> limit" "limit \<le> MAX_ALERT_LIST_LIMIT"
    and "0 \<le> offset" "offset \<le> MAX_ALERT_LIST_OFFSET"
  shows "\<exists>cs. mapE candidate_of_row t = Inr cs \<and> list_all valid_alert_candidate cs \<and>
    list_alerts (AF No_fault) t limit offset =
      Inr (take (nat limit) (drop (nat offset) (sort_key creation_order cs)))"
proof -
  have "alert_inv t" unfolding assms(1) by (rule alerts.inv_from_start) simp
  then obtain cs where cs: "t = map alert_values cs" "list_all valid_alert_candidate cs"
    by (auto simp: alert_inv_def)
  have read: "mapE candidate_of_row (map alert_values xs) = Inr xs"
    if "\<forall>c \<in> set xs. valid_alert_candidate c" for xs
    using that by (induction xs) auto
  have "sort_key alert_order (map alert_values cs) = map alert_values (sort_key creation_order cs)"
    by (rule sort_key_map) (use cs(2) alert_order_le_iff in \<open>auto simp: list_all_iff\<close>)
  moreover have "\<forall>c \<in> set (take (nat limit) (drop (nat offset) (sort_key creation_order cs))). valid_alert_candidate c"
    using cs(2) by (auto simp: list_all_iff dest!: in_set_takeD in_set_dropD)
  ultimately show ?thesis
    using assms(2-5) cs read
    by (intro exI [of _ cs])
      (simp add: list_alerts_def read_table_def take_map drop_map list_all_iff)
qed

theorem alert_pages_chronological_witness:
  "\<exists>cs. mapE candidate_of_row (foldl alert_step [] [(AF No_fault, sample_alert)]) = Inr cs \<and>
    list_alerts (AF No_fault) (foldl alert_step [] [(AF No_fault, sample_alert)]) 10 0 =
      Inr (take 10 (drop 0 (sort_key creation_order cs)))"
  using alert_pages_chronological [OF refl, of 10 0 "[(AF No_fault, sample_alert)]"]
  by (simp add: MAX_ALERT_LIST_LIMIT_def MAX_ALERT_LIST_OFFSET_def) blast

text \<open>Only attacks become alerts.  The workflow changes the table only for a completed inference
  that predicted an attack with a probability, and what it then stores and returns is a valid candidate
  that carries the event, model and score of that inference.\<close>

theorem only_attacks_persist:
  assumes "infer_and_persist_registered_attack answer fault t created = (t', r)" "t' \<noteq> t"
  shows "\<exists>reg p c. answer = Inr reg \<and> ir_status (rr_inference reg) = ''completed'' \<and>
    ir_predicted_class (rr_inference reg) = Some ''Attack'' \<and>
    ir_attack_probability (rr_inference reg) = Some p \<and> is_probability p \<and>
    r = Inr (Persisted Alert_created c) \<and> t' = t @ [alert_values c] \<and> valid_alert_candidate c \<and>
    ac_source_event_id c = rr_source_event_id reg \<and> ac_score c = p \<and> ac_created_at c = created \<and>
    ac_model_artifact_sha256 c = rr_model_artifact_sha256 reg"
proof -
  obtain reg c where reg: "answer = Inr reg" "build_alert_candidate reg created = Inr c"
    "t' = fst (insert_alert fault t c)"
    and r: "r = (case snd (insert_alert fault t c) of Inl e \<Rightarrow> Inl (Inr e) | Inr (d, s) \<Rightarrow> Inr (Persisted d s))"
    using assms
    by (auto simp: infer_and_persist_registered_attack_def split: sum.splits if_splits prod.splits)
  obtain p where p: "ir_status (rr_inference reg) = ''completed''"
    "ir_predicted_class (rr_inference reg) = Some ''Attack''"
    "ir_attack_probability (rr_inference reg) = Some p"
    "c = candidate_of_result reg p created" "valid_alert_candidate c"
    using reg(2) by (auto simp: build_alert_candidate_def Let_def make_alert_candidate_Inr
        split: if_splits option.splits)
  have "is_probability p"
    using p(4,5) by (simp add: valid_alert_candidate_def candidate_fields_ok_def candidate_of_result_def Let_def)
  moreover have "insert_alert fault t c = (t @ [alert_values c], Inr (Alert_created, c))"
    using reg(3) assms(2)
    by (auto simp: insert_alert_def insert_alert_body_def split: alert_fault.splits sqlite_fault.splits
        sum.splits option.splits if_splits bindE_splits)
  ultimately show ?thesis
    using reg p r by (auto simp: candidate_of_result_def Let_def)
qed

definition sample_inference :: inference_result where
  "sample_inference = \<lparr>ir_correlation_id = ''33333333-3333-4333-8333-333333333333'',
     ir_model_identity = ''random_forest'', ir_model_version = ''network_random_forest_baseline_v1'',
     ir_contract_identity = FEATURE_CONTRACT, ir_source_representation = SOURCE_REPRESENTATION,
     ir_attack_probability = Some (Fin (3 / 4)), ir_decision_threshold = Fin (1 / 2),
     ir_predicted_class = Some ''Attack'', ir_status = ''completed'', ir_reason = ''inference_succeeded'',
     ir_processed_at = ''2026-09-22T00:00:00+00:00'', ir_latency_ms = Fin 0\<rparr>"

definition sample_registered :: registered_result where
  "sample_registered = \<lparr>rr_source_event_id = SOURCE_EVENT_ID_SCHEMA @ '':'' @ replicate 64 CHR ''d'',
     rr_observed_at = Datetime 2026 9 12 12 0 0 0, rr_model_artifact_sha256 = replicate 64 CHR ''e'',
     rr_inference = sample_inference\<rparr>"

lemma sample_build: "build_alert_candidate sample_registered (Datetime 2026 9 12 12 0 30 0) = Inr sample_alert"
proof -
  have "candidate_of_result sample_registered (Fin (3 / 4)) (Datetime 2026 9 12 12 0 30 0) = sample_alert"
    by (simp add: candidate_of_result_def sample_registered_def sample_inference_def sample_alert_def)
  then show ?thesis
    using sample_alert_valid
    by (simp add: build_alert_candidate_def make_alert_candidate_Inr sample_registered_def sample_inference_def)
qed

theorem only_attacks_persist_witness:
  "\<exists>c. infer_and_persist_registered_attack (Inr sample_registered) (AF No_fault) []
      (Datetime 2026 9 12 12 0 30 0) = ([alert_values c], Inr (Persisted Alert_created c)) \<and>
    valid_alert_candidate c \<and> ac_score c = Fin (3 / 4)"
proof -
  have w: "infer_and_persist_registered_attack (Inr sample_registered) (AF No_fault) []
      (Datetime 2026 9 12 12 0 30 0) = ([alert_values sample_alert], Inr (Persisted Alert_created sample_alert))"
    using insert_alert_body_new [of sample_alert "[]"] sample_alert_valid sample_build
    by (simp add: infer_and_persist_registered_attack_def insert_alert_def sample_registered_def sample_inference_def)
  from only_attacks_persist [OF w] w show ?thesis
    by (auto simp: sample_registered_def sample_inference_def)
qed

end
