(* ===== verification/Provenance.thy ===== *)
theory Provenance
  imports Datetime
begin

text \<open>
  The provenance descriptor of an alert, \<^verbatim>\<open>EntityProvenanceContract\<close> of
  \<^verbatim>\<open>alerts/correlation_engine.py\<close>: its fields, the addresses read from its endpoint
  identifiers, and the fail-closed verification that the correlation engine and the
  response engine both rely on.
\<close>

record provenance =
  pv_entity_namespace_id :: "string option"
  pv_clock_synchronized :: bool
  pv_src_entity_id :: "string option"
  pv_dst_entity_id :: "string option"
  pv_protocol :: "string option"
  pv_service_or_port :: "string option"
  pv_observed_at_utc :: "string option"
  pv_validity_start_utc :: "string option"
  pv_validity_end_utc :: "string option"
  pv_address_reuse_or_nat :: bool
  pv_max_clock_skew_seconds :: pyfloat
  pv_source_mode :: "string option"
  pv_entity_role :: "string option"
  pv_clock_origin :: "string option"

definition default_provenance :: provenance where
  "default_provenance = \<lparr>pv_entity_namespace_id = None, pv_clock_synchronized = False,
     pv_src_entity_id = None, pv_dst_entity_id = None, pv_protocol = None, pv_service_or_port = None,
     pv_observed_at_utc = None, pv_validity_start_utc = None, pv_validity_end_utc = None,
     pv_address_reuse_or_nat = False, pv_max_clock_skew_seconds = Fin 0, pv_source_mode = None,
     pv_entity_role = None, pv_clock_origin = None\<rparr>"

definition MAX_ALLOWABLE_CLOCK_SKEW_SECONDS :: pyfloat where
  "MAX_ALLOWABLE_CLOCK_SKEW_SECONDS = Fin 5"

section \<open>Addresses\<close>

definition entity_prefixes :: "string list" where
  "entity_prefixes = [''attacker:'', ''victim:'', ''client:'', ''server:'', ''sensor:'', ''node:'',
     ''host:'', ''vm:'']"

fun strip_prefix :: "string list \<Rightarrow> string \<Rightarrow> string" where
  "strip_prefix [] val = val"
| "strip_prefix (p # ps) val = (if starts_with p val then drop (length p) val else strip_prefix ps val)"

definition src_ip :: "provenance \<Rightarrow> string option" where
  "src_ip p = (case pv_src_entity_id p of
     None \<Rightarrow> None | Some v \<Rightarrow> if v = [] then None else Some (strip_prefix entity_prefixes v))"

definition dst_ip :: "provenance \<Rightarrow> string option" where
  "dst_ip p = (case pv_dst_entity_id p of
     None \<Rightarrow> None | Some v \<Rightarrow> if v = [] then None else Some (strip_prefix entity_prefixes v))"

section \<open>Verification\<close>

text \<open>\<open>absent v\<close> is the guard \<^verbatim>\<open>not v or not v.strip()\<close>, \<open>or_empty v\<close> the text of \<^verbatim>\<open>v or ""\<close>.\<close>

definition absent :: "string option \<Rightarrow> bool" where
  "absent v \<longleftrightarrow> (case v of None \<Rightarrow> True | Some s \<Rightarrow> blank s)"

definition or_empty :: "string option \<Rightarrow> string" where
  "or_empty v = (case v of None \<Rightarrow> [] | Some s \<Rightarrow> s)"

text \<open>
  The \<^verbatim>\<open>try\<close> block: the outer result is absent when a text does not parse (the
  handler's \<^verbatim>\<open>invalid_timestamp_bounds\<close>), the inner one says whether the observation
  lies in the interval.  The end is parsed only when the start did not already refuse.
\<close>

definition within_validity :: "iso_parser \<Rightarrow> string \<Rightarrow> string \<Rightarrow> string \<Rightarrow> bool option" where
  "within_validity rd obs v_start v_end =
     (case parse_instant rd obs of None \<Rightarrow> None
      | Some t \<Rightarrow>
         (case (if v_start = [] then Some True else map_option (\<lambda>a. a \<le> t) (parse_instant rd v_start)) of
            None \<Rightarrow> None
          | Some False \<Rightarrow> Some False
          | Some True \<Rightarrow>
             (if v_end = [] then Some True else map_option (\<lambda>b. t \<le> b) (parse_instant rd v_end))))"

definition verification_rejection_reason :: "iso_parser \<Rightarrow> provenance \<Rightarrow> string option" where
  "verification_rejection_reason rd p =
     (if absent (pv_entity_namespace_id p) then Some ''missing_entity_namespace''
      else if \<not> pv_clock_synchronized p then Some ''clock_not_synchronized''
      else if absent (pv_src_entity_id p) then Some ''missing_src_entity_id''
      else if absent (pv_dst_entity_id p) then Some ''missing_dst_entity_id''
      else if pv_address_reuse_or_nat p then Some ''nat_address_reuse_ambiguous''
      else if fl_less MAX_ALLOWABLE_CLOCK_SKEW_SECONDS (pv_max_clock_skew_seconds p)
        then Some ''clock_skew_exceeded''
      else if or_empty (pv_observed_at_utc p) = [] then None
      else case within_validity rd (or_empty (pv_observed_at_utc p))
                  (or_empty (pv_validity_start_utc p)) (or_empty (pv_validity_end_utc p)) of
          None \<Rightarrow> Some ''invalid_timestamp_bounds''
        | Some inside \<Rightarrow> if inside then None else Some ''outside_entity_validity_interval'')"

definition is_verified :: "iso_parser \<Rightarrow> provenance \<Rightarrow> bool" where
  "is_verified rd p \<longleftrightarrow> verification_rejection_reason rd p = None"

lemma is_verified_named:
  assumes "is_verified rd p"
  shows "\<not> absent (pv_entity_namespace_id p)" "pv_clock_synchronized p"
    "\<not> absent (pv_src_entity_id p)" "\<not> absent (pv_dst_entity_id p)" "\<not> pv_address_reuse_or_nat p"
    "\<not> fl_less (Fin 5) (pv_max_clock_skew_seconds p)"
  using assms
  by (auto simp: is_verified_def verification_rejection_reason_def MAX_ALLOWABLE_CLOCK_SKEW_SECONDS_def
      split: if_splits)

lemma within_validity_Some_True:
  "within_validity rd obs v_start v_end = Some True \<longleftrightarrow>
     (\<exists>t. parse_instant rd obs = Some t \<and>
        (v_start = [] \<or> (\<exists>a. parse_instant rd v_start = Some a \<and> a \<le> t)) \<and>
        (v_end = [] \<or> (\<exists>b. parse_instant rd v_end = Some b \<and> t \<le> b)))"
  by (auto simp: within_validity_def split: option.splits bool.splits)

definition sample_provenance :: "string \<Rightarrow> string \<Rightarrow> string \<Rightarrow> provenance" where
  "sample_provenance src dst obs = default_provenance
     \<lparr>pv_entity_namespace_id := Some ''lab'', pv_clock_synchronized := True,
      pv_src_entity_id := Some src, pv_dst_entity_id := Some dst, pv_observed_at_utc := Some obs\<rparr>"

text \<open>Verification is fail-closed.  A descriptor is verified only when it names a namespace and two
  endpoints, its clock is synchronized, its addresses are not reused, its clock skew is not above the
  bound, and an observation time, when given, parses and lies between the validity bounds that are
  given; and it is verified whenever all of this holds.\<close>

theorem verified_iff:
  "is_verified rd p \<longleftrightarrow>
     \<not> absent (pv_entity_namespace_id p) \<and> pv_clock_synchronized p \<and>
     \<not> absent (pv_src_entity_id p) \<and> \<not> absent (pv_dst_entity_id p) \<and>
     \<not> pv_address_reuse_or_nat p \<and> \<not> fl_less (Fin 5) (pv_max_clock_skew_seconds p) \<and>
     (let obs = or_empty (pv_observed_at_utc p); lo = or_empty (pv_validity_start_utc p);
          hi = or_empty (pv_validity_end_utc p) in
      obs = [] \<or> (\<exists>t. parse_instant rd obs = Some t \<and>
        (lo = [] \<or> (\<exists>a. parse_instant rd lo = Some a \<and> a \<le> t)) \<and>
        (hi = [] \<or> (\<exists>b. parse_instant rd hi = Some b \<and> t \<le> b))))"
  unfolding Let_def within_validity_Some_True [symmetric]
  by (auto simp: is_verified_def verification_rejection_reason_def MAX_ALLOWABLE_CLOCK_SKEW_SECONDS_def
      split: option.splits)

text \<open>The validity interval binds only an observation time carried by the descriptor itself: without
  one, a descriptor whose interval has ended, or whose bounds are not even times, is still verified,
  although the correlation engine then dates the alert by the candidate's own observation time.\<close>

theorem validity_needs_observation:
  "is_verified rd (p\<lparr>pv_observed_at_utc := None, pv_validity_start_utc := v_start, pv_validity_end_utc := v_end\<rparr>)
     \<longleftrightarrow> is_verified rd (p\<lparr>pv_observed_at_utc := None, pv_validity_start_utc := None, pv_validity_end_utc := None\<rparr>)"
  by (simp add: is_verified_def verification_rejection_reason_def or_empty_def)

end
