(* ===== verification/SoarLedger.thy ===== *)
theory SoarLedger
  imports Provenance Json Digest
begin

text \<open>
  \<^verbatim>\<open>soar/playbook_ledger.py\<close>: the response playbook records, the keyed audit chain
  with its sealed head, the resolution of the ledger secret, and the approval-gated
  engine.  The store is a record of its three tables; every operation takes the fault
  of its connection and the values it reads from its environment (clock readings,
  random identifiers) as arguments.  The fault of a transaction leaves the tables as
  they were and raises.
\<close>

section \<open>Data\<close>

definition SOAR_AUDIT_GENESIS_HASH :: string where
  "SOAR_AUDIT_GENESIS_HASH = replicate 64 CHR ''0''"

datatype soar_error =
    Soar_error string
  | Soar_state_transition_error string
  | Soar_optimistic_concurrency_error string
  | Value_error string
  | Key_error string
  | Sqlite_raised

record soar_audit_entry =
  se_event_id :: string
  se_playbook_id :: string
  se_action :: string
  se_actor_id :: string
  se_old_state :: string
  se_new_state :: string
  se_reason :: "string option"
  se_snapshot :: "string option"
  se_timestamp_utc :: string
  se_prev_entry_sha256 :: string
  se_entry_sha256 :: string

record soar_audit_row = soar_audit_entry +
  se_sequence_id :: "int option"
  se_candidate_id :: "string option"
  se_canonical_entry_sha256 :: "string option"

record soar_seal =
  sl_expected_count :: int
  sl_head_entry_sha256 :: string
  sl_head_seal_hmac :: string

record soar_record =
  sp_playbook_id :: string
  sp_candidate_id :: string
  sp_action_type :: string
  sp_target_entity :: string
  sp_state :: string
  sp_version :: int
  sp_actor_id :: "string option"
  sp_decision_reason :: "string option"
  sp_pre_action_snapshot :: "string option"
  sp_execution_evidence :: "string option"
  sp_rollback_reason :: "string option"
  sp_created_at_utc :: string
  sp_updated_at_utc :: string
  sp_t_approval_queued :: "pyfloat option"
  sp_t_callback_verified :: "pyfloat option"
  sp_t_response :: "pyfloat option"

record soar_db =
  sd_records :: "soar_record list"
  sd_audit :: "soar_audit_row list"
  sd_seal :: "soar_seal option"

definition new_soar_db :: soar_db where
  "new_soar_db = \<lparr>sd_records = [], sd_audit = [], sd_seal = None\<rparr>"

definition json_opt :: "string option \<Rightarrow> json" where
  "json_opt v = (case v of None \<Rightarrow> JNull | Some s \<Rightarrow> JStr s)"

definition audit_entry_to_dict :: "soar_audit_entry \<Rightarrow> json" where
  "audit_entry_to_dict e = JObj [
     (''event_id'', JStr (se_event_id e)), (''playbook_id'', JStr (se_playbook_id e)),
     (''action'', JStr (se_action e)), (''actor_id'', JStr (se_actor_id e)),
     (''old_state'', JStr (se_old_state e)), (''new_state'', JStr (se_new_state e)),
     (''reason'', json_opt (se_reason e)), (''snapshot'', json_opt (se_snapshot e)),
     (''timestamp_utc'', JStr (se_timestamp_utc e)),
     (''prev_entry_sha256'', JStr (se_prev_entry_sha256 e)),
     (''entry_sha256'', JStr (se_entry_sha256 e))]"

text \<open>A value between apostrophes in a message.\<close>

definition sq :: "string \<Rightarrow> string" where
  "sq s = [CHR 0x27] @ s @ [CHR 0x27]"

section \<open>Keyed digests\<close>

text \<open>
  No payload holds a float, so the float printer is irrelevant; \<open>no_float\<close> stands in
  its place.  The environment variable is an argument.
\<close>

definition no_float :: "pyfloat \<Rightarrow> string" where
  "no_float x = ''null''"

definition ledger_hmac :: "string option \<Rightarrow> string option \<Rightarrow> string \<Rightarrow> soar_error + string" where
  "ledger_hmac environ secret canonical_repr =
     (let key = (case secret of Some s \<Rightarrow> s | None \<Rightarrow> or_empty environ) in
      if key = [] then Inl (Soar_error ''missing_ledger_secret'')
      else Inr (hmac_sha256_hex (utf8 key) (utf8 canonical_repr)))"

definition entry_payload ::
  "string \<Rightarrow> string \<Rightarrow> string \<Rightarrow> string \<Rightarrow> string \<Rightarrow> string \<Rightarrow> string option \<Rightarrow> string option \<Rightarrow>
   string \<Rightarrow> string \<Rightarrow> json" where
  "entry_payload event_id playbook_id action actor_id old_state new_state reason snapshot
     timestamp_utc prev_entry_sha256 = JObj [
       (''event_id'', JStr event_id), (''playbook_id'', JStr playbook_id), (''action'', JStr action),
       (''actor_id'', JStr actor_id), (''old_state'', JStr old_state), (''new_state'', JStr new_state),
       (''reason'', json_opt reason), (''snapshot'', json_opt snapshot),
       (''timestamp_utc'', JStr timestamp_utc), (''prev_entry_sha256'', JStr prev_entry_sha256)]"

definition compute_soar_audit_entry_hash ::
  "string option \<Rightarrow> string \<Rightarrow> string \<Rightarrow> string \<Rightarrow> string \<Rightarrow> string \<Rightarrow> string \<Rightarrow> string option \<Rightarrow>
   string option \<Rightarrow> string \<Rightarrow> string \<Rightarrow> string option \<Rightarrow> soar_error + string" where
  "compute_soar_audit_entry_hash environ event_id playbook_id action actor_id old_state new_state
     reason snapshot timestamp_utc prev_entry_sha256 ledger_secret =
     ledger_hmac environ ledger_secret
       (json_dumps no_float (entry_payload event_id playbook_id action actor_id old_state new_state
          reason snapshot timestamp_utc prev_entry_sha256))"

definition canonical_payload ::
  "string \<Rightarrow> int \<Rightarrow> string \<Rightarrow> string \<Rightarrow> string \<Rightarrow> string \<Rightarrow> string option \<Rightarrow> string \<Rightarrow> json" where
  "canonical_payload prev_entry_sha256 sequence_id playbook_id candidate_id state actor reason
     timestamp_utc = JObj [
       (''actor'', JStr actor), (''candidate_id'', JStr candidate_id), (''playbook_id'', JStr playbook_id),
       (''prev_entry_sha256'', JStr prev_entry_sha256), (''reason'', JStr (or_empty reason)),
       (''sequence_id'', JInt sequence_id), (''state'', JStr state),
       (''timestamp_utc'', JStr timestamp_utc)]"

definition compute_canonical_audit_entry_hash ::
  "string option \<Rightarrow> string \<Rightarrow> int \<Rightarrow> string \<Rightarrow> string \<Rightarrow> string \<Rightarrow> string \<Rightarrow> string option \<Rightarrow> string \<Rightarrow>
   string option \<Rightarrow> soar_error + string" where
  "compute_canonical_audit_entry_hash environ prev_entry_sha256 sequence_id playbook_id candidate_id
     state actor reason timestamp_utc ledger_secret =
     ledger_hmac environ ledger_secret
       (json_dumps no_float (canonical_payload prev_entry_sha256 sequence_id playbook_id candidate_id
          state actor reason timestamp_utc))"

definition seal_material :: "int \<Rightarrow> string \<Rightarrow> string" where
  "seal_material expected_count head_entry_sha256 = dec_int expected_count @ '':'' @ head_entry_sha256"

definition seal_head_hmac :: "string \<Rightarrow> int \<Rightarrow> string \<Rightarrow> soar_error + string" where
  "seal_head_hmac secret expected_count head_entry_sha256 =
     (if secret = [] then Inl (Soar_error ''missing_ledger_secret'')
      else Inr (hmac_sha256_hex (utf8 secret) (utf8 (seal_material expected_count head_entry_sha256))))"

section \<open>The ledger secret\<close>

text \<open>
  What stands at the sidecar path, and what the operating system does to the calls on
  it: whether the text can be read, whether the exclusive create fails, whether the
  write fails, and a file another process creates between the check and the create.
\<close>

datatype key_path = Kp_absent | Kp_symlink | Kp_file string | Kp_other

record key_calls =
  kc_read_fails :: bool
  kc_create_fails :: bool
  kc_write_fails :: bool
  kc_race :: "string option"

definition calm :: key_calls where
  "calm = \<lparr>kc_read_fails = False, kc_create_fails = False, kc_write_fails = False, kc_race = None\<rparr>"

definition read_sidecar_key :: "key_calls \<Rightarrow> key_path \<Rightarrow> string" where
  "read_sidecar_key k p = (case p of
     Kp_file t \<Rightarrow> if kc_read_fails k then [] else py_strip t
   | _ \<Rightarrow> [])"

definition write_sidecar_key :: "key_calls \<Rightarrow> key_path \<Rightarrow> string \<Rightarrow> key_path \<times> string" where
  "write_sidecar_key k p key =
     (if key = [] then (p, [])
      else if p = Kp_symlink then (p, [])
      else let existing = read_sidecar_key k p in
      if existing \<noteq> [] then (p, existing)
      else let p = (case (p, kc_race k) of (Kp_absent, Some t) \<Rightarrow> Kp_file t | _ \<Rightarrow> p) in
      if p \<noteq> Kp_absent then (p, if kc_create_fails k then [] else read_sidecar_key k p)
      else if kc_create_fails k then (p, [])
      else if kc_write_fails k then (Kp_file [], [])
      else (Kp_file (key @ [CHR 0x0A]), key))"

definition resolve_ledger_secret ::
  "key_calls \<Rightarrow> string option \<Rightarrow> string \<Rightarrow> key_path \<Rightarrow> string option \<Rightarrow> key_path \<times> string" where
  "resolve_ledger_secret k environ token p ledger_secret =
     (if or_empty ledger_secret \<noteq> [] then
        (if environ = None then fst (write_sidecar_key k p (or_empty ledger_secret)) else p,
         or_empty ledger_secret)
      else if or_empty environ \<noteq> [] then (p, or_empty environ)
      else let stored = read_sidecar_key k p in
        if stored \<noteq> [] then (p, stored) else write_sidecar_key k p token)"

section \<open>The record table\<close>

text \<open>\<^verbatim>\<open>INSERT OR REPLACE\<close> removes the row of the same key and appends the new one.\<close>

definition stored_record :: "soar_record \<Rightarrow> soar_record" where
  "stored_record r = r\<lparr>sp_t_approval_queued := real_column (sp_t_approval_queued r),
     sp_t_callback_verified := real_column (sp_t_callback_verified r),
     sp_t_response := real_column (sp_t_response r)\<rparr>"

definition save_record :: "sqlite_fault \<Rightarrow> soar_db \<Rightarrow> soar_record \<Rightarrow> soar_db \<times> (soar_error + unit)" where
  "save_record fault db r =
     (if fault \<noteq> No_fault then (db, Inl Sqlite_raised)
      else (db\<lparr>sd_records := filter (\<lambda>x. sp_playbook_id x \<noteq> sp_playbook_id r) (sd_records db)
               @ [stored_record r]\<rparr>, Inr ()))"

definition get_record :: "sqlite_fault \<Rightarrow> soar_db \<Rightarrow> string \<Rightarrow> soar_error + soar_record option" where
  "get_record fault db playbook_id =
     (if fault \<noteq> No_fault then Inl Sqlite_raised
      else Inr (fetchone (\<lambda>r. sp_playbook_id r = playbook_id) (sd_records db)))"

definition list_records_for_candidate ::
  "sqlite_fault \<Rightarrow> soar_db \<Rightarrow> string \<Rightarrow> soar_error + soar_record list" where
  "list_records_for_candidate fault db candidate_id =
     (if fault \<noteq> No_fault then Inl Sqlite_raised
      else Inr (sort_key sp_created_at_utc
        (select_where (\<lambda>r. sp_candidate_id r = candidate_id) (sd_records db))))"

text \<open>
  \<^verbatim>\<open>timestamp()\<close> of a naive creation time uses the process's local offset, an
  argument here; the engine itself only writes aware times.
\<close>

definition record_callback_verification ::
  "iso_parser \<Rightarrow> int \<Rightarrow> sqlite_fault \<Rightarrow> sqlite_fault \<Rightarrow> datetime \<Rightarrow> soar_db \<Rightarrow> string \<Rightarrow> pyfloat \<Rightarrow> pyfloat option \<Rightarrow>
     soar_db \<times> (soar_error + pyfloat)" where
  "record_callback_verification rd local_offset read_fault write_fault now db playbook_id t_callback_verified
     t_approval_queued =
     (case bindE (get_record read_fault db playbook_id) (\<lambda>found. bindE
         (someE found (Soar_state_transition_error (''Playbook '' @ sq playbook_id @ '' not found'')))
         (\<lambda>record. case t_approval_queued of Some t \<Rightarrow> Inr t
          | None \<Rightarrow> (case sp_t_approval_queued record of Some t \<Rightarrow> Inr t
             | None \<Rightarrow> (case rd (replace_z (sp_created_at_utc record)) of
                  None \<Rightarrow> Inl (Value_error ''Invalid isoformat string'')
                | Some (wall, off) \<Rightarrow> Inr (Fin (micros_timestamp
                    (wall - (case off of None \<Rightarrow> local_offset | Some d \<Rightarrow> d)))))))) of
        Inl e \<Rightarrow> (db, Inl e)
      | Inr approval_time \<Rightarrow>
         (let t_resp = round6 (fl_max (Fin 0) (fl_sub t_callback_verified approval_time)) in
          if write_fault \<noteq> No_fault then (db, Inl Sqlite_raised)
          else (db\<lparr>sd_records := update_where (\<lambda>r. sp_playbook_id r = playbook_id)
             (\<lambda>r. r\<lparr>sp_t_approval_queued := real_column (Some approval_time),
                    sp_t_callback_verified := real_column (Some t_callback_verified),
                    sp_t_response := real_column (Some t_resp),
                    sp_updated_at_utc := isoformat now\<rparr>) (sd_records db)\<rparr>, Inr t_resp)))"

definition list_response_timings ::
  "sqlite_fault \<Rightarrow> soar_db \<Rightarrow> soar_error + (string \<times> string \<times> string \<times> pyfloat option \<times> pyfloat option \<times>
     pyfloat option) list" where
  "list_response_timings fault db =
     (if fault \<noteq> No_fault then Inl Sqlite_raised
      else Inr (map (\<lambda>r. (sp_playbook_id r, sp_candidate_id r, sp_state r, sp_t_approval_queued r,
             sp_t_callback_verified r, sp_t_response r))
          (sort_key sp_created_at_utc (select_where (\<lambda>r. sp_t_response r \<noteq> None) (sd_records db)))))"

section \<open>The audit chain\<close>

text \<open>
  The body of \<^verbatim>\<open>append_audit_event\<close> between begin and commit.  The identifier is a
  primary key: a repeated one is refused by the database.
\<close>

definition chain_head :: "soar_audit_row list \<Rightarrow> string" where
  "chain_head rows = (if rows = [] \<or> se_entry_sha256 (last rows) = [] then SOAR_AUDIT_GENESIS_HASH
     else se_entry_sha256 (last rows))"

definition record_candidate :: "soar_db \<Rightarrow> string \<Rightarrow> string" where
  "record_candidate db playbook_id =
     (case fetchone (\<lambda>r. sp_playbook_id r = playbook_id) (sd_records db) of
        None \<Rightarrow> [] | Some r \<Rightarrow> sp_candidate_id r)"

definition append_audit_event ::
  "string \<Rightarrow> sqlite_fault \<Rightarrow> string \<Rightarrow> datetime \<Rightarrow> soar_db \<Rightarrow> string \<Rightarrow> string \<Rightarrow> string \<Rightarrow> string \<Rightarrow> string \<Rightarrow>
   string option \<Rightarrow> string option \<Rightarrow> soar_db \<times> (soar_error + soar_audit_entry)" where
  "append_audit_event secret fault hex now db playbook_id action actor_id old_state new_state
     reason snapshot =
     (let event_id = ''soar_audit:'' @ hex; stamp = isoformat now in
      if fault \<noteq> No_fault then (db, Inl Sqlite_raised)
      else
      (let prev_hash = chain_head (sd_audit db);
           sequence_id = int (length (sd_audit db)) + 1;
           candidate_id = record_candidate db playbook_id
       in case bindE (compute_soar_audit_entry_hash None event_id playbook_id action actor_id old_state
              new_state reason snapshot stamp prev_hash (Some secret)) (\<lambda>entry_hash.
            bindE (compute_canonical_audit_entry_hash None prev_hash sequence_id playbook_id candidate_id
              new_state actor_id reason stamp (Some secret)) (\<lambda>canonical_hash.
            bindE (requireE (event_id \<notin> set (map se_event_id (sd_audit db))) Sqlite_raised) (\<lambda>_.
            bindE (seal_head_hmac secret sequence_id entry_hash) (\<lambda>seal.
              Inr (entry_hash, canonical_hash, seal))))) of
          Inl e \<Rightarrow> (db, Inl e)
        | Inr (entry_hash, canonical_hash, seal) \<Rightarrow>
           (let row = \<lparr>se_event_id = event_id, se_playbook_id = playbook_id, se_action = action,
                  se_actor_id = actor_id, se_old_state = old_state, se_new_state = new_state,
                  se_reason = reason, se_snapshot = snapshot, se_timestamp_utc = stamp,
                  se_prev_entry_sha256 = prev_hash, se_entry_sha256 = entry_hash,
                  se_sequence_id = Some sequence_id, se_candidate_id = Some candidate_id,
                  se_canonical_entry_sha256 = Some canonical_hash\<rparr>
            in (db\<lparr>sd_audit := sd_audit db @ [row],
                   sd_seal := Some \<lparr>sl_expected_count = sequence_id, sl_head_entry_sha256 = entry_hash,
                                   sl_head_seal_hmac = seal\<rparr>\<rparr>,
                Inr (soar_audit_entry.truncate row)))))"

definition list_audit_events ::
  "sqlite_fault \<Rightarrow> soar_db \<Rightarrow> string \<Rightarrow> soar_error + soar_audit_row list" where
  "list_audit_events fault db playbook_id =
     (if fault \<noteq> No_fault then Inl Sqlite_raised
      else Inr (sort_key se_timestamp_utc (select_where (\<lambda>r. se_playbook_id r = playbook_id) (sd_audit db))))"

definition row_to_audit_entry :: "soar_audit_row \<Rightarrow> soar_audit_entry" where
  "row_to_audit_entry row = soar_audit_entry.truncate row"

definition list_audit_entries ::
  "sqlite_fault \<Rightarrow> soar_db \<Rightarrow> string \<Rightarrow> soar_error + soar_audit_entry list" where
  "list_audit_entries fault db playbook_id =
     (if fault \<noteq> No_fault then Inl Sqlite_raised
      else Inr (map row_to_audit_entry
        (sort_key se_timestamp_utc (select_where (\<lambda>r. se_playbook_id r = playbook_id) (sd_audit db)))))"

definition row_entry_hash :: "string \<Rightarrow> soar_audit_row \<Rightarrow> soar_error + string" where
  "row_entry_hash secret row = compute_soar_audit_entry_hash None (se_event_id row) (se_playbook_id row)
     (se_action row) (se_actor_id row) (se_old_state row) (se_new_state row) (se_reason row)
     (se_snapshot row) (se_timestamp_utc row) (se_prev_entry_sha256 row) (Some secret)"

definition row_canonical_hash :: "string \<Rightarrow> nat \<Rightarrow> soar_audit_row \<Rightarrow> soar_error + string" where
  "row_canonical_hash secret idx row = compute_canonical_audit_entry_hash None
     (se_prev_entry_sha256 row)
     (case se_sequence_id row of Some n \<Rightarrow> n | None \<Rightarrow> int idx + 1)
     (se_playbook_id row) (or_empty (se_candidate_id row)) (se_new_state row) (se_actor_id row)
     (se_reason row) (se_timestamp_utc row) (Some secret)"

definition broken_at :: "nat \<Rightarrow> soar_audit_row \<Rightarrow> string \<Rightarrow> string" where
  "broken_at idx row what = ''SOAR audit chain broken at row index '' @ dec_int (int idx) @ '' (event_id='' @
     se_event_id row @ ''): '' @ what"

text \<open>One iteration of the verification loop: the message of the failure, if any.\<close>

definition verify_row :: "string \<Rightarrow> nat \<Rightarrow> string \<Rightarrow> soar_audit_row \<Rightarrow> soar_error + string option" where
  "verify_row secret idx expected_prev row =
     (if se_prev_entry_sha256 row \<noteq> expected_prev then
        Inr (Some (broken_at idx row (''prev_entry_sha256 '' @ sq (se_prev_entry_sha256 row) @
          '' != expected '' @ sq expected_prev)))
      else bindE (row_entry_hash secret row) (\<lambda>recomputed.
        if recomputed \<noteq> se_entry_sha256 row then
          Inr (Some (broken_at idx row (''recomputed hash '' @ sq recomputed @
            '' != stored entry_sha256 '' @ sq (se_entry_sha256 row))))
        else if se_sequence_id row \<noteq> None \<and> se_sequence_id row \<noteq> Some (int idx + 1) then
          Inr (Some (broken_at idx row (''sequence_id '' @ dec_int (the (se_sequence_id row)) @
            '' != '' @ dec_int (int idx + 1))))
        else if or_empty (se_canonical_entry_sha256 row) = [] then Inr None
        else bindE (row_canonical_hash secret idx row) (\<lambda>canonical.
          if canonical \<noteq> or_empty (se_canonical_entry_sha256 row) then
            Inr (Some (broken_at idx row (''recomputed hash '' @ sq canonical @
              '' != stored canonical_entry_sha256 '' @ sq (or_empty (se_canonical_entry_sha256 row)))))
          else Inr None)))"

fun verify_rows :: "string \<Rightarrow> nat \<Rightarrow> string \<Rightarrow> soar_audit_row list \<Rightarrow> soar_error + string option" where
  "verify_rows secret idx expected_prev [] = Inr None"
| "verify_rows secret idx expected_prev (row # rows) =
     bindE (verify_row secret idx expected_prev row) (\<lambda>failure. case failure of
        Some message \<Rightarrow> Inr (Some message)
      | None \<Rightarrow> verify_rows secret (Suc idx) (se_entry_sha256 row) rows)"

text \<open>The stored seal is a text of ASCII characters, as the engine writes it; for another one, put there from
  outside, \<^verbatim>\<open>hmac.compare_digest\<close> raises \<^verbatim>\<open>TypeError\<close> where the model answers with the mismatch.\<close>

definition verify_audit_chain_integrity ::
  "string \<Rightarrow> sqlite_fault \<Rightarrow> soar_db \<Rightarrow> string option \<Rightarrow> bool \<Rightarrow> soar_error + bool \<times> string" where
  "verify_audit_chain_integrity secret fault db playbook_id require_non_empty =
     (if secret = [] then Inr (False, ''missing_ledger_secret'')
      else if fault \<noteq> No_fault then Inl Sqlite_raised
      else let all_rows = sd_audit db in
      if all_rows = [] then Inr (False, ''empty ledger'')
      else if require_non_empty \<and> sd_seal db = None then Inr (False, ''empty ledger'')
      else bindE (verify_rows secret 0 SOAR_AUDIT_GENESIS_HASH all_rows) (\<lambda>failure. case failure of
        Some message \<Rightarrow> Inr (False, message)
      | None \<Rightarrow>
        (case sd_seal db of None \<Rightarrow> Inr (False, ''empty ledger'')
         | Some seal \<Rightarrow>
            bindE (seal_head_hmac secret (sl_expected_count seal) (sl_head_entry_sha256 seal))
             (\<lambda>expected_seal.
              if sl_expected_count seal \<noteq> int (length all_rows) \<or>
                 sl_head_entry_sha256 seal \<noteq> se_entry_sha256 (last all_rows) \<or>
                 expected_seal \<noteq> sl_head_seal_hmac seal
              then Inr (False, ''SOAR audit head seal mismatch'')
              else (case playbook_id of
                  None \<Rightarrow> Inr (True, ''SOAR audit chain verified: '' @ dec_int (int (length all_rows)) @
                    '' entries valid (whole ledger)'')
                | Some p \<Rightarrow>
                   (let rows = filter (\<lambda>r. se_playbook_id r = p) all_rows in
                    if rows = [] then Inr (False, ''empty ledger'')
                    else Inr (True, ''SOAR audit chain verified: '' @ dec_int (int (length rows)) @
                      '' entries valid (playbook '' @ sq p @ '')'')))))))"

end
