(* ===== verification/SoarEngine.thy ===== *)
theory SoarEngine
  imports SoarLedger
begin

text \<open>
  \<^verbatim>\<open>ApprovalGatedSoarEngine\<close> of \<^verbatim>\<open>soar/playbook_ledger.py\<close>: recommendation, analyst
  decision, simulated execution and rollback.  Each operation reads the record, saves
  the updated one and then appends its audit event, in separate transactions, as the
  code does; a fault of the last leaves the record saved.  A command is one step of the
  model: the commands run one after the other.  The code takes no lock around the three
  transactions and saves without a predicate on the version, so commands of several
  threads or processes may overlap; what then happens to two decisions is modelled apart
  (\<open>decide_save\<close> and \<open>overlapping_decisions\<close> in \<^verbatim>\<open>SoarEngine_Facts\<close>).
\<close>

text \<open>What one operation reads from outside: two clock readings, a random identifier, and the
  fault of each of its connections.\<close>

record soar_env =
  en_now :: datetime
  en_event_hex :: string
  en_event_now :: datetime
  en_read_fault :: sqlite_fault
  en_verify_fault :: sqlite_fault
  en_save_fault :: sqlite_fault
  en_audit_fault :: sqlite_fault

text \<open>Saving a record and then appending its event.\<close>

definition save_and_audit ::
  "string \<Rightarrow> soar_env \<Rightarrow> soar_db \<Rightarrow> soar_record \<Rightarrow> string \<Rightarrow> string \<Rightarrow> string \<Rightarrow> string \<Rightarrow> string option \<Rightarrow>
   string option \<Rightarrow> soar_db \<times> (soar_error + soar_record)" where
  "save_and_audit secret env db updated action actor_id old_state new_state reason snapshot =
     (case save_record (en_save_fault env) db updated of
        (db', Inl e) \<Rightarrow> (db', Inl e)
      | (db', Inr _) \<Rightarrow>
         (case append_audit_event secret (en_audit_fault env) (en_event_hex env) (en_event_now env) db'
                 (sp_playbook_id updated) action actor_id old_state new_state reason snapshot of
            (db'', Inl e) \<Rightarrow> (db'', Inl e)
          | (db'', Inr _) \<Rightarrow> (db'', Inr updated)))"

section \<open>Recommendation\<close>

definition pending_record ::
  "string \<Rightarrow> string \<Rightarrow> string \<Rightarrow> string \<Rightarrow> string \<Rightarrow> pyfloat \<Rightarrow> soar_record" where
  "pending_record rec_id candidate_id action_type target_entity now_str queued_epoch =
     \<lparr>sp_playbook_id = rec_id, sp_candidate_id = candidate_id, sp_action_type = action_type,
      sp_target_entity = target_entity, sp_state = ''pending_approval'', sp_version = 1,
      sp_actor_id = None, sp_decision_reason = None, sp_pre_action_snapshot = None,
      sp_execution_evidence = None, sp_rollback_reason = None, sp_created_at_utc = now_str,
      sp_updated_at_utc = now_str, sp_t_approval_queued = Some queued_epoch,
      sp_t_callback_verified = None, sp_t_response = None\<rparr>"

text \<open>The records of a recommendation; \<open>hex1\<close> and \<open>hex2\<close> are the two \<^verbatim>\<open>uuid4().hex\<close> values.\<close>

definition recommended_records ::
  "iso_parser \<Rightarrow> datetime \<Rightarrow> string \<Rightarrow> string \<Rightarrow> string \<Rightarrow> provenance option \<Rightarrow> pyfloat option \<Rightarrow>
   soar_record list" where
  "recommended_records rd now hex1 hex2 candidate_id prov t_approval_queued =
     (let now_str = isoformat now;
          queued_epoch = (case t_approval_queued of Some t \<Rightarrow> t | None \<Rightarrow> Fin (timestamp now));
          rec_id = ''soar:'' @ take 12 hex1; rec_id2 = ''soar:'' @ take 12 hex2
      in case prov of
        Some p \<Rightarrow> if is_verified rd p then
            (let ip = or_empty (src_ip p) in
             (if ip = [] then [] else
                [pending_record rec_id candidate_id ''verify_and_contain_lab_source_ip'' ip now_str queued_epoch]) @
             [pending_record (if ip = [] then rec_id else rec_id2) candidate_id
                ''capture_pcaps_on_victim_sensor''
                (if or_empty (pv_entity_namespace_id p) = [] then ''azure-suricata-edge-01''
                 else or_empty (pv_entity_namespace_id p)) now_str queued_epoch])
          else [pending_record rec_id candidate_id ''escalate_flow_anomaly_for_packet_inspection''
                  candidate_id now_str queued_epoch]
      | None \<Rightarrow> [pending_record rec_id candidate_id ''escalate_flow_anomaly_for_packet_inspection''
                  candidate_id now_str queued_epoch])"

text \<open>The final loop: each record is saved and its event appended, with its own environment.\<close>

fun save_recommended ::
  "string \<Rightarrow> string \<Rightarrow> soar_db \<Rightarrow> (soar_env \<times> soar_record) list \<Rightarrow> soar_db \<times> (soar_error + unit)" where
  "save_recommended secret candidate_id db [] = (db, Inr ())"
| "save_recommended secret candidate_id db ((env, r) # rest) =
     (case save_and_audit secret env db r ''recommend_action'' ''system:recommendation_engine''
             ''none'' ''pending_approval''
             (Some (''Recommended action '' @ sp_action_type r @ '' for candidate '' @ candidate_id)) None of
        (db', Inl e) \<Rightarrow> (db', Inl e)
      | (db', Inr _) \<Rightarrow> save_recommended secret candidate_id db' rest)"

definition recommend_actions_for_alert ::
  "iso_parser \<Rightarrow> string \<Rightarrow> soar_env \<Rightarrow> soar_env \<Rightarrow> string \<Rightarrow> string \<Rightarrow> soar_db \<Rightarrow> string \<Rightarrow> provenance option \<Rightarrow>
   pyfloat option \<Rightarrow> soar_db \<times> (soar_error + soar_record list)" where
  "recommend_actions_for_alert rd secret env1 env2 hex1 hex2 db candidate_id prov t_approval_queued =
     (let records = recommended_records rd (en_now env1) hex1 hex2 candidate_id prov t_approval_queued in
      case save_recommended secret candidate_id db (zip [env1, env2] records) of
        (db', Inl e) \<Rightarrow> (db', Inl e)
      | (db', Inr _) \<Rightarrow> (db', Inr records))"

section \<open>Decision, execution, rollback\<close>

definition not_found :: "string \<Rightarrow> soar_error" where
  "not_found playbook_id = Key_error (''Playbook record '' @ playbook_id @ '' not found'')"

definition lock_conflict :: "string \<Rightarrow> int \<Rightarrow> int \<Rightarrow> soar_error" where
  "lock_conflict playbook_id expected found = Soar_optimistic_concurrency_error
     (''Optimistic lock conflict on '' @ playbook_id @ '': expected version '' @ dec_int expected @
      '', found '' @ dec_int found)"

text \<open>The guards every operation on an existing record starts with, in the order of the code.\<close>

definition guarded_record ::
  "soar_env \<Rightarrow> soar_db \<Rightarrow> string \<Rightarrow> string \<Rightarrow> (soar_record \<Rightarrow> string) \<Rightarrow> int \<Rightarrow> soar_error + soar_record" where
  "guarded_record env db playbook_id from_state message expected_version =
     bindE (get_record (en_read_fault env) db playbook_id) (\<lambda>found.
     bindE (someE found (not_found playbook_id)) (\<lambda>record.
     bindE (requireE (sp_state record = from_state) (Soar_state_transition_error (message record))) (\<lambda>_.
     bindE (requireE (sp_version record = expected_version)
              (lock_conflict playbook_id expected_version (sp_version record))) (\<lambda>_.
       Inr record))))"

definition decide_guard ::
  "soar_env \<Rightarrow> soar_db \<Rightarrow> string \<Rightarrow> string \<Rightarrow> string \<Rightarrow> string \<Rightarrow> int \<Rightarrow> soar_error + soar_record" where
  "decide_guard env db playbook_id actor_id decision reason expected_version =
     bindE (requireE (\<not> blank actor_id) (Value_error ''actor_id is required for SOAR decision'')) (\<lambda>_.
     bindE (requireE (\<not> blank reason) (Value_error ''Non-empty reason is required for SOAR decision'')) (\<lambda>_.
     bindE (requireE (decision = ''approve'' \<or> decision = ''reject'')
              (Value_error (''decision must be '' @ sq ''approve'' @ '' or '' @ sq ''reject''))) (\<lambda>_.
       guarded_record env db playbook_id ''pending_approval''
         (\<lambda>r. ''Cannot decide action '' @ playbook_id @ '' in state '' @ sq (sp_state r) @
            ''; action must be in '' @ sq ''pending_approval'' @ '' state.'')
         expected_version)))"

definition decide_recommendation ::
  "string \<Rightarrow> soar_env \<Rightarrow> soar_db \<Rightarrow> string \<Rightarrow> string \<Rightarrow> string \<Rightarrow> string \<Rightarrow> int \<Rightarrow>
   soar_db \<times> (soar_error + soar_record)" where
  "decide_recommendation secret env db playbook_id actor_id decision reason expected_version =
     (case decide_guard env db playbook_id actor_id decision reason expected_version of
        Inl e \<Rightarrow> (db, Inl e)
      | Inr record \<Rightarrow>
         (let new_state = (if decision = ''approve'' then ''approved'' else ''rejected'') in
          save_and_audit secret env db
            (record\<lparr>sp_state := new_state, sp_version := sp_version record + 1,
                    sp_actor_id := Some actor_id, sp_decision_reason := Some reason,
                    sp_updated_at_utc := isoformat (en_now env)\<rparr>)
            (''analyst_'' @ decision) actor_id (sp_state record) new_state (Some reason) None))"

definition execute_guard ::
  "soar_env \<Rightarrow> soar_db \<Rightarrow> string \<Rightarrow> string \<Rightarrow> int \<Rightarrow> soar_error + soar_record" where
  "execute_guard env db playbook_id actor_id expected_version =
     bindE (requireE (\<not> blank actor_id) (Value_error ''actor_id is required to execute action'')) (\<lambda>_.
       guarded_record env db playbook_id ''approved''
         (\<lambda>r. ''Cannot execute action '' @ playbook_id @ '' in state '' @ sq (sp_state r) @
            ''. Action must be explicitly '' @ sq ''approved'' @ '' by an analyst before execution.'')
         expected_version)"

definition pre_snapshot :: "soar_record \<Rightarrow> string \<Rightarrow> json" where
  "pre_snapshot record now_str = JObj [(''target_entity'', JStr (sp_target_entity record)),
     (''routing_table_state'', JStr ''active''), (''access_control_rule'', JStr ''ALLOW''),
     (''snapshot_captured_at_utc'', JStr now_str)]"

definition execution_evidence :: "soar_record \<Rightarrow> string \<Rightarrow> string \<Rightarrow> json" where
  "execution_evidence record actor_id now_str = JObj [
     (''execution_mode'', JStr ''simulated_safe_isolation''),
     (''command'', JStr (''iptables -I FORWARD -s '' @ sp_target_entity record @ '' -j DROP'')),
     (''exit_code'', JInt 0), (''executed_by'', JStr actor_id), (''executed_at_utc'', JStr now_str)]"

definition execute_approved_action ::
  "string \<Rightarrow> soar_env \<Rightarrow> soar_db \<Rightarrow> string \<Rightarrow> string \<Rightarrow> int \<Rightarrow> soar_db \<times> (soar_error + soar_record)" where
  "execute_approved_action secret env db playbook_id actor_id expected_version =
     (case execute_guard env db playbook_id actor_id expected_version of
        Inl e \<Rightarrow> (db, Inl e)
      | Inr record \<Rightarrow>
         (let now_str = isoformat (en_now env);
              snapshot = json_dumps_plain no_float (pre_snapshot record now_str) in
          save_and_audit secret env db
            (record\<lparr>sp_state := ''executed_simulated'', sp_version := sp_version record + 1,
                    sp_actor_id := Some actor_id, sp_pre_action_snapshot := Some snapshot,
                    sp_execution_evidence :=
                      Some (json_dumps_plain no_float (execution_evidence record actor_id now_str)),
                    sp_updated_at_utc := now_str\<rparr>)
            ''execute_simulated_action'' actor_id (sp_state record) ''executed_simulated''
            (Some (''Executed simulated containment for target '' @ sp_target_entity record))
            (Some snapshot)))"

definition rollback_guard ::
  "string \<Rightarrow> soar_env \<Rightarrow> soar_db \<Rightarrow> string \<Rightarrow> string \<Rightarrow> string \<Rightarrow> int \<Rightarrow> soar_error + soar_record" where
  "rollback_guard secret env db playbook_id actor_id rollback_reason expected_version =
     bindE (requireE (\<not> blank actor_id) (Value_error ''actor_id is required to rollback action'')) (\<lambda>_.
     bindE (requireE (\<not> blank rollback_reason) (Value_error ''Non-empty rollback_reason is required'')) (\<lambda>_.
     bindE (guarded_record env db playbook_id ''executed_simulated''
         (\<lambda>r. ''Cannot rollback action '' @ playbook_id @ '' in state '' @ sq (sp_state r) @
            ''. Action must be in '' @ sq ''executed_simulated'' @ '' state.'')
         expected_version) (\<lambda>record.
     bindE (requireE (sp_actor_id record = Some (py_strip actor_id))
              (Soar_state_transition_error (''Cannot rollback action '' @ playbook_id @
                 '': actor does not match the executor.''))) (\<lambda>_.
     bindE (verify_audit_chain_integrity secret (en_verify_fault env) db (Some playbook_id) True)
       (\<lambda>(chain_ok, chain_message).
     bindE (requireE chain_ok (Soar_state_transition_error (''Cannot rollback action '' @ playbook_id @
                 '': audit chain verification failed ('' @ chain_message @ '').''))) (\<lambda>_.
       Inr record))))))"

definition rollback_executed_action ::
  "string \<Rightarrow> soar_env \<Rightarrow> soar_db \<Rightarrow> string \<Rightarrow> string \<Rightarrow> string \<Rightarrow> int \<Rightarrow>
   soar_db \<times> (soar_error + soar_record)" where
  "rollback_executed_action secret env db playbook_id actor_id rollback_reason expected_version =
     (case rollback_guard secret env db playbook_id actor_id rollback_reason expected_version of
        Inl e \<Rightarrow> (db, Inl e)
      | Inr record \<Rightarrow>
          save_and_audit secret env db
            (record\<lparr>sp_state := ''rolled_back'', sp_version := sp_version record + 1,
                    sp_actor_id := Some actor_id, sp_rollback_reason := Some rollback_reason,
                    sp_updated_at_utc := isoformat (en_now env)\<rparr>)
            ''rollback_action'' actor_id (sp_state record) ''rolled_back'' (Some rollback_reason)
            (sp_pre_action_snapshot record))"

section \<open>Commands\<close>

datatype soar_command =
    Recommend soar_env soar_env string string string "provenance option" "pyfloat option"
  | Decide soar_env string string string string int
  | Execute soar_env string string int
  | Rollback soar_env string string string int
  | Callback int sqlite_fault sqlite_fault datetime string pyfloat "pyfloat option"

fun soar_step :: "iso_parser \<Rightarrow> string \<Rightarrow> soar_db \<Rightarrow> soar_command \<Rightarrow> soar_db" where
  "soar_step rd secret db (Recommend env1 env2 hex1 hex2 cand prov t) =
     fst (recommend_actions_for_alert rd secret env1 env2 hex1 hex2 db cand prov t)"
| "soar_step rd secret db (Decide env p actor decision reason v) =
     fst (decide_recommendation secret env db p actor decision reason v)"
| "soar_step rd secret db (Execute env p actor v) = fst (execute_approved_action secret env db p actor v)"
| "soar_step rd secret db (Rollback env p actor reason v) =
     fst (rollback_executed_action secret env db p actor reason v)"
| "soar_step rd secret db (Callback off rfault wfault now p t queued) =
     fst (record_callback_verification rd off rfault wfault now db p t queued)"

end
