(* ===== verification/SoarLedger_Facts.thy ===== *)
theory SoarLedger_Facts
  imports SoarLedger Json_Facts
begin

text \<open>
  The audit chain of the response ledger: what its verification accepts, that an append
  keeps it acceptable, and that two ledgers accepted under the same sealed head agree on
  every field the chain covers, or exhibit two different texts with the same keyed digest.
\<close>

section \<open>The texts the chain covers\<close>

text \<open>The text of an optional value, printed as a JSON string or as null.\<close>

definition opt_text :: "string option \<Rightarrow> string" where
  "opt_text v = json_dumps no_float (json_opt v)"

lemma opt_text_simps: "opt_text None = ''null''" "opt_text (Some s) = quoted s"
  by (simp_all add: opt_text_def json_opt_def)

lemma opt_text_prefix_free: "opt_text a @ x = opt_text b @ y \<longleftrightarrow> a = b \<and> x = y"
proof -
  have n: "quoted s @ u \<noteq> ''null'' @ w" for s u w by (simp add: quoted_def)
  show ?thesis
    by (cases a; cases b)
      (auto simp: opt_text_simps quoted_prefix_free simp del: append_Cons append_Cons_eq_iff
        dest: n [THEN notE] n [THEN notE, OF sym])
qed

text \<open>The payload printed with its keys in order.\<close>

lemma entry_text:
  "json_dumps no_float (entry_payload event_id playbook_id action actor_id old_state new_state reason
     snapshot timestamp_utc prev) =
   ''{'' @ quoted ''action'' @ '':'' @ quoted action @ '','' @ quoted ''actor_id'' @ '':'' @ quoted actor_id @
   '','' @ quoted ''event_id'' @ '':'' @ quoted event_id @ '','' @ quoted ''new_state'' @ '':'' @ quoted new_state @
   '','' @ quoted ''old_state'' @ '':'' @ quoted old_state @ '','' @ quoted ''playbook_id'' @ '':'' @
   quoted playbook_id @ '','' @ quoted ''prev_entry_sha256'' @ '':'' @ quoted prev @ '','' @
   quoted ''reason'' @ '':'' @ opt_text reason @ '','' @ quoted ''snapshot'' @ '':'' @ opt_text snapshot @
   '','' @ quoted ''timestamp_utc'' @ '':'' @ quoted timestamp_utc @ ''}''"
  unfolding entry_payload_def json_dumps_obj by (simp add: opt_text_def)

lemma entry_text_inject:
  "json_dumps no_float (entry_payload e p a ac os ns r s t v) =
   json_dumps no_float (entry_payload e' p' a' ac' os' ns' r' s' t' v') \<longleftrightarrow>
   e = e' \<and> p = p' \<and> a = a' \<and> ac = ac' \<and> os = os' \<and> ns = ns' \<and> r = r' \<and> s = s' \<and> t = t' \<and> v = v'"
  unfolding entry_text same_append_eq quoted_prefix_free opt_text_prefix_free by blast

section \<open>What verification accepts\<close>

text \<open>The digest of a text under a present secret.\<close>

definition keyed :: "string \<Rightarrow> string \<Rightarrow> string" where
  "keyed secret m = hmac_sha256_hex (utf8 secret) (utf8 m)"

lemma keyed_shape [simp]: "is_sha256 (keyed secret m)"
  by (simp add: keyed_def)

lemma keyed_neq_Nil [simp]: "keyed secret m \<noteq> []" "[] \<noteq> keyed secret m"
  using keyed_shape [of secret m] by (auto simp: is_sha256_def)

lemma ledger_hmac_keyed [simp]: "secret \<noteq> [] \<Longrightarrow> ledger_hmac environ (Some secret) m = Inr (keyed secret m)"
  by (simp add: ledger_hmac_def keyed_def)

lemma seal_head_keyed [simp]:
  "secret \<noteq> [] \<Longrightarrow> seal_head_hmac secret n h = Inr (keyed secret (seal_material n h))"
  by (simp add: seal_head_hmac_def keyed_def)

definition entry_text_of :: "soar_audit_row \<Rightarrow> string" where
  "entry_text_of row = json_dumps no_float (entry_payload (se_event_id row) (se_playbook_id row)
     (se_action row) (se_actor_id row) (se_old_state row) (se_new_state row) (se_reason row)
     (se_snapshot row) (se_timestamp_utc row) (se_prev_entry_sha256 row))"

definition canonical_text_of :: "nat \<Rightarrow> soar_audit_row \<Rightarrow> string" where
  "canonical_text_of idx row = json_dumps no_float (canonical_payload (se_prev_entry_sha256 row)
     (case se_sequence_id row of Some n \<Rightarrow> n | None \<Rightarrow> int idx + 1) (se_playbook_id row)
     (or_empty (se_candidate_id row)) (se_new_state row) (se_actor_id row) (se_reason row)
     (se_timestamp_utc row))"

definition row_accepted :: "string \<Rightarrow> nat \<Rightarrow> string \<Rightarrow> soar_audit_row \<Rightarrow> bool" where
  "row_accepted secret idx prev row \<longleftrightarrow> se_prev_entry_sha256 row = prev \<and>
     se_entry_sha256 row = keyed secret (entry_text_of row) \<and>
     (se_sequence_id row = None \<or> se_sequence_id row = Some (int idx + 1)) \<and>
     (or_empty (se_canonical_entry_sha256 row) = [] \<or>
      or_empty (se_canonical_entry_sha256 row) = keyed secret (canonical_text_of idx row))"

fun rows_accepted :: "string \<Rightarrow> nat \<Rightarrow> string \<Rightarrow> soar_audit_row list \<Rightarrow> bool" where
  "rows_accepted secret idx prev [] = True"
| "rows_accepted secret idx prev (row # rows) =
     (row_accepted secret idx prev row \<and> rows_accepted secret (Suc idx) (se_entry_sha256 row) rows)"

lemma verify_row_iff:
  "secret \<noteq> [] \<Longrightarrow> verify_row secret idx prev row = Inr None \<longleftrightarrow> row_accepted secret idx prev row"
  by (auto simp: verify_row_def row_accepted_def row_entry_hash_def row_canonical_hash_def
      compute_soar_audit_entry_hash_def compute_canonical_audit_entry_hash_def entry_text_of_def
      canonical_text_of_def)

lemma verify_row_ok: "secret \<noteq> [] \<Longrightarrow> \<exists>f. verify_row secret idx prev row = Inr f"
  by (simp add: verify_row_def row_entry_hash_def row_canonical_hash_def
      compute_soar_audit_entry_hash_def compute_canonical_audit_entry_hash_def)

lemma verify_rows_iff:
  assumes "secret \<noteq> []"
  shows "verify_rows secret idx prev rows = Inr None \<longleftrightarrow> rows_accepted secret idx prev rows"
proof (induction rows arbitrary: idx prev)
  case (Cons row rows)
  obtain f where "verify_row secret idx prev row = Inr f" using verify_row_ok [OF assms] by blast
  with Cons verify_row_iff [OF assms, of idx prev row] show ?case by (cases f) auto
qed simp

lemma verify_rows_ok: "secret \<noteq> [] \<Longrightarrow> \<exists>f. verify_rows secret idx prev rows = Inr f"
proof (induction rows arbitrary: idx prev)
  case (Cons row rows)
  obtain f where "verify_row secret idx prev row = Inr f" using verify_row_ok [OF Cons.prems] by blast
  with Cons show ?case by (cases f) auto
qed simp

definition head_sealed :: "string \<Rightarrow> soar_db \<Rightarrow> bool" where
  "head_sealed secret db \<longleftrightarrow> (\<exists>seal. sd_seal db = Some seal \<and>
     sl_expected_count seal = int (length (sd_audit db)) \<and>
     sl_head_entry_sha256 seal = se_entry_sha256 (last (sd_audit db)) \<and>
     sl_head_seal_hmac seal = keyed secret (seal_material (sl_expected_count seal) (sl_head_entry_sha256 seal)))"

lemma verify_true_iff:
  assumes "secret \<noteq> []"
  shows "(\<exists>m. verify_audit_chain_integrity secret No_fault db p ne = Inr (True, m)) \<longleftrightarrow>
     sd_audit db \<noteq> [] \<and> rows_accepted secret 0 SOAR_AUDIT_GENESIS_HASH (sd_audit db) \<and>
     head_sealed secret db \<and> (case p of None \<Rightarrow> True | Some q \<Rightarrow> q \<in> set (map se_playbook_id (sd_audit db)))"
proof -
  obtain f where f: "verify_rows secret 0 SOAR_AUDIT_GENESIS_HASH (sd_audit db) = Inr f"
    using verify_rows_ok [OF assms] by blast
  with verify_rows_iff [OF assms, of 0 SOAR_AUDIT_GENESIS_HASH "sd_audit db"]
  have "f = None \<longleftrightarrow> rows_accepted secret 0 SOAR_AUDIT_GENESIS_HASH (sd_audit db)" by simp
  with f assms show ?thesis
    by (cases f; cases "sd_seal db"; cases p)
      (auto simp: verify_audit_chain_integrity_def Let_def head_sealed_def filter_empty_conv image_iff)
qed

section \<open>Appending\<close>

lemma rows_accepted_snoc:
  "rows_accepted secret idx prev (rows @ [row]) \<longleftrightarrow> rows_accepted secret idx prev rows \<and>
     row_accepted secret (idx + length rows) (if rows = [] then prev else se_entry_sha256 (last rows)) row"
  by (induction rows arbitrary: idx prev) auto

text \<open>Either nothing changed and the append raised, or one accepted row follows the head and is sealed.\<close>

lemma append_audit_cases:
  assumes "append_audit_event secret fault hex now db p action actor old_state new_state reason snapshot = (db', res)"
  obtains (failed) e where "db' = db" "res = Inl e"
  | (appended) row where "secret \<noteq> []" "fault = No_fault" "sd_audit db' = sd_audit db @ [row]"
      "row_accepted secret (length (sd_audit db)) (chain_head (sd_audit db)) row"
      "sd_records db' = sd_records db" "head_sealed secret db'" "res = Inr (row_to_audit_entry row)"
      "se_playbook_id row = p" "se_action row = action" "se_actor_id row = actor"
      "se_old_state row = old_state" "se_new_state row = new_state" "se_reason row = reason"
      "se_snapshot row = snapshot" "se_event_id row \<notin> set (map se_event_id (sd_audit db))"
proof (cases "secret = [] \<or> fault \<noteq> No_fault \<or> ''soar_audit:'' @ hex \<in> set (map se_event_id (sd_audit db))")
  case True
  have "\<exists>e. append_audit_event secret fault hex now db p action actor old_state new_state reason snapshot = (db, Inl e)"
  proof (cases "secret = [] \<or> fault \<noteq> No_fault")
    case True
    then show ?thesis
      by (auto simp: append_audit_event_def Let_def compute_soar_audit_entry_hash_def ledger_hmac_def)
  next
    case False
    with True have "\<not> (''soar_audit:'' @ hex \<notin> set (map se_event_id (sd_audit db)))" by blast
    with False show ?thesis
      by (simp add: append_audit_event_def Let_def compute_soar_audit_entry_hash_def
          compute_canonical_audit_entry_hash_def del: set_map)
  qed
  with assms failed show thesis by auto
next
  case False
  with assms show thesis
    by (intro appended [of "last (sd_audit db')"])
      (auto simp: append_audit_event_def Let_def compute_soar_audit_entry_hash_def
        compute_canonical_audit_entry_hash_def row_accepted_def entry_text_of_def canonical_text_of_def
        head_sealed_def row_to_audit_entry_def or_empty_def)
qed

definition chain_inv :: "string \<Rightarrow> soar_db \<Rightarrow> bool" where
  "chain_inv secret db \<longleftrightarrow> distinct (map se_event_id (sd_audit db)) \<and>
     rows_accepted secret 0 SOAR_AUDIT_GENESIS_HASH (sd_audit db) \<and>
     (if sd_audit db = [] then sd_seal db = None else head_sealed secret db)"

lemma rows_accepted_hash_neq_Nil:
  "rows_accepted secret idx prev rows \<Longrightarrow> row \<in> set rows \<Longrightarrow> se_entry_sha256 row \<noteq> []"
  by (induction rows arbitrary: idx prev) (auto simp: row_accepted_def)

lemma chain_head_accepted:
  "rows_accepted secret 0 SOAR_AUDIT_GENESIS_HASH rows \<Longrightarrow>
     chain_head rows = (if rows = [] then SOAR_AUDIT_GENESIS_HASH else se_entry_sha256 (last rows))"
  by (auto simp: chain_head_def dest: rows_accepted_hash_neq_Nil [of _ _ _ _ "last rows"])

lemma append_chain_inv:
  assumes "chain_inv secret db"
  shows "chain_inv secret (fst (append_audit_event secret fault hex now db p action actor old_state new_state
    reason snapshot))"
proof -
  obtain db' res where a: "append_audit_event secret fault hex now db p action actor old_state new_state
      reason snapshot = (db', res)" by fastforce
  then have "chain_inv secret db'"
  proof (cases rule: append_audit_cases)
    case (appended row)
    then show ?thesis
      using assms chain_head_accepted [of secret "sd_audit db"]
      by (auto simp: chain_inv_def rows_accepted_snoc)
  qed (use assms in simp)
  with a show ?thesis by simp
qed

section \<open>Tamper evidence\<close>

text \<open>Two different texts with the same digest under the ledger's secret.\<close>

definition hmac_collision :: "string \<Rightarrow> string \<Rightarrow> string \<Rightarrow> bool" where
  "hmac_collision secret m n \<longleftrightarrow> m \<noteq> n \<and> keyed secret m = keyed secret n"

text \<open>The fields of an entry that its text covers.\<close>

lemma entry_text_of_inject:
  "entry_text_of a = entry_text_of b \<longleftrightarrow>
     se_event_id a = se_event_id b \<and> se_playbook_id a = se_playbook_id b \<and> se_action a = se_action b \<and>
     se_actor_id a = se_actor_id b \<and> se_old_state a = se_old_state b \<and> se_new_state a = se_new_state b \<and>
     se_reason a = se_reason b \<and> se_snapshot a = se_snapshot b \<and>
     se_timestamp_utc a = se_timestamp_utc b \<and> se_prev_entry_sha256 a = se_prev_entry_sha256 b"
  unfolding entry_text_of_def entry_text_inject by blast

lemma rows_agree:
  assumes "rows_accepted secret idx prev xs" "rows_accepted secret idx prev ys"
    and "length xs = length ys" "xs \<noteq> [] \<Longrightarrow> se_entry_sha256 (last xs) = se_entry_sha256 (last ys)"
    and "\<not> (\<exists>i < length xs. hmac_collision secret (entry_text_of (xs ! i)) (entry_text_of (ys ! i)))"
  shows "map row_to_audit_entry xs = map row_to_audit_entry ys"
  using assms
proof (induction xs arbitrary: ys rule: rev_induct)
  case (snoc x xs)
  obtain y ys' where ys: "ys = ys' @ [y]" "length ys' = length xs"
    using snoc.prems(3) by (metis length_append_singleton length_Suc_conv_rev)
  have acc: "rows_accepted secret idx prev xs" "rows_accepted secret idx prev ys'"
    "row_accepted secret (idx + length xs) (if xs = [] then prev else se_entry_sha256 (last xs)) x"
    "row_accepted secret (idx + length xs) (if xs = [] then prev else se_entry_sha256 (last ys')) y"
    using snoc.prems(1,2) ys by (auto simp: rows_accepted_snoc split: if_splits)
  have h: "se_entry_sha256 x = se_entry_sha256 y" using snoc.prems(4) ys by simp
  have "\<not> hmac_collision secret (entry_text_of x) (entry_text_of y)"
    using snoc.prems(5) ys by (metis length_append_singleton lessI nth_append_length)
  with acc(3,4) h have t: "entry_text_of x = entry_text_of y"
    by (auto simp: row_accepted_def hmac_collision_def)
  then have "row_to_audit_entry x = row_to_audit_entry y"
    using h by (simp add: row_to_audit_entry_def entry_text_of_inject soar_audit_entry.defs)
  moreover have "map row_to_audit_entry xs = map row_to_audit_entry ys'"
  proof (rule snoc.IH [OF acc(1,2)])
    show "length xs = length ys'" using ys by simp
    show "se_entry_sha256 (last xs) = se_entry_sha256 (last ys')" if "xs \<noteq> []"
      using acc(3,4) t that by (simp add: row_accepted_def entry_text_of_inject)
    show "\<not> (\<exists>i < length xs. hmac_collision secret (entry_text_of (xs ! i)) (entry_text_of (ys' ! i)))"
      using snoc.prems(5) ys by (metis length_append_singleton less_SucI nth_append)
  qed
  ultimately show ?case using ys by simp
qed simp

lemma verify_true_secret:
  "verify_audit_chain_integrity secret fault db p ne = Inr (True, m) \<Longrightarrow> secret \<noteq> [] \<and> fault = No_fault"
  by (auto simp: verify_audit_chain_integrity_def split: if_splits)

text \<open>A ledger with one event, appended to an empty store.\<close>

definition sample_ledger :: soar_db where
  "sample_ledger = fst (append_audit_event ''k'' No_fault ''00'' (Datetime 2026 1 1 0 0 0 0) new_soar_db
     ''soar:1'' ''recommend_action'' ''system'' ''none'' ''pending_approval'' None None)"

lemma sample_ledger_verifies:
  "\<exists>m. verify_audit_chain_integrity ''k'' No_fault sample_ledger None True = Inr (True, m)"
  "length (sd_audit sample_ledger) = 1"
proof -
  have inv: "chain_inv ''k'' sample_ledger"
    unfolding sample_ledger_def by (rule append_chain_inv) (simp add: chain_inv_def new_soar_db_def)
  show l: "length (sd_audit sample_ledger) = 1"
    by (simp add: sample_ledger_def append_audit_event_def new_soar_db_def Let_def
        compute_soar_audit_entry_hash_def compute_canonical_audit_entry_hash_def)
  show "\<exists>m. verify_audit_chain_integrity ''k'' No_fault sample_ledger None True = Inr (True, m)"
    using inv l by (subst verify_true_iff) (auto simp: chain_inv_def split: if_splits)
qed

text \<open>C12: The ledger is tamper-evident.  When two ledgers are both accepted under the same sealed head,
  they have the same number of entries, and either every entry agrees on all its chained fields, or at
  some position the two stored entries have different texts with the same keyed digest.\<close>

theorem soar_tamper_evident:
  assumes "verify_audit_chain_integrity secret fault db p ne = Inr (True, m)"
    and "verify_audit_chain_integrity secret fault' db' p' ne' = Inr (True, m')"
    and "sd_seal db = sd_seal db'"
  shows "length (sd_audit db) = length (sd_audit db') \<and>
    (map row_to_audit_entry (sd_audit db) = map row_to_audit_entry (sd_audit db') \<or>
     (\<exists>i < length (sd_audit db).
        hmac_collision secret (entry_text_of (sd_audit db ! i)) (entry_text_of (sd_audit db' ! i))))"
proof -
  have s: "secret \<noteq> []" "fault = No_fault" "fault' = No_fault" using assms verify_true_secret by blast+
  have a: "rows_accepted secret 0 SOAR_AUDIT_GENESIS_HASH (sd_audit db)" "head_sealed secret db"
    "rows_accepted secret 0 SOAR_AUDIT_GENESIS_HASH (sd_audit db')" "head_sealed secret db'"
    using verify_true_iff [OF s(1)] assms(1,2) s by blast+
  then have l: "length (sd_audit db) = length (sd_audit db')"
    and h: "se_entry_sha256 (last (sd_audit db)) = se_entry_sha256 (last (sd_audit db'))"
    using assms(3) by (auto simp: head_sealed_def)
  show ?thesis using rows_agree [OF a(1,3) l] l h by blast
qed

section \<open>What the chain does not cover\<close>

definition forget_candidate :: "string option \<Rightarrow> soar_audit_row \<Rightarrow> soar_audit_row" where
  "forget_candidate c row = row\<lparr>se_candidate_id := c, se_sequence_id := None, se_canonical_entry_sha256 := None\<rparr>"

lemma forget_candidate_fields [simp]:
  "se_entry_sha256 (forget_candidate c row) = se_entry_sha256 row"
  "se_playbook_id (forget_candidate c row) = se_playbook_id row"
  "row_accepted secret idx prev row \<Longrightarrow> row_accepted secret idx prev (forget_candidate c row)"
  by (simp_all add: forget_candidate_def row_accepted_def entry_text_of_def or_empty_def)

lemma rows_accepted_forget:
  "rows_accepted secret idx prev rows \<Longrightarrow> rows_accepted secret idx prev (map (forget_candidate c) rows)"
  by (induction rows arbitrary: idx prev) auto

lemma forget_candidate_verifies:
  assumes "verify_audit_chain_integrity secret fault db p ne = Inr (True, m)"
  shows "\<exists>m'. verify_audit_chain_integrity secret fault
    (db\<lparr>sd_audit := map (forget_candidate c) (sd_audit db)\<rparr>) p ne = Inr (True, m')"
proof -
  have s: "secret \<noteq> []" "fault = No_fault" using assms verify_true_secret by blast+
  have "sd_audit db \<noteq> []" "rows_accepted secret 0 SOAR_AUDIT_GENESIS_HASH (sd_audit db)" "head_sealed secret db"
    "case p of None \<Rightarrow> True | Some q \<Rightarrow> q \<in> set (map se_playbook_id (sd_audit db))"
    using verify_true_iff [OF s(1)] assms s(2) by blast+
  then show ?thesis
    unfolding s(2) verify_true_iff [OF s(1)]
    by (auto simp: rows_accepted_forget head_sealed_def last_map comp_def split: option.splits)
qed

definition rewritten_ledger :: soar_db where
  "rewritten_ledger = sample_ledger\<lparr>sd_audit := map (forget_candidate (Some ''other'')) (sd_audit sample_ledger)\<rparr>"

theorem soar_tamper_evident_witness:
  "map row_to_audit_entry (sd_audit sample_ledger) = map row_to_audit_entry (sd_audit rewritten_ledger) \<or>
     (\<exists>i < 1. hmac_collision ''k'' (entry_text_of (sd_audit sample_ledger ! i))
        (entry_text_of (sd_audit rewritten_ledger ! i)))"
proof -
  obtain m where m: "verify_audit_chain_integrity ''k'' No_fault sample_ledger None True = Inr (True, m)"
    using sample_ledger_verifies(1) by blast
  obtain m' where "verify_audit_chain_integrity ''k'' No_fault rewritten_ledger None True = Inr (True, m')"
    using forget_candidate_verifies [OF m] unfolding rewritten_ledger_def by blast
  from soar_tamper_evident [OF m this] have "sd_seal sample_ledger = sd_seal rewritten_ledger \<Longrightarrow> ?thesis"
    unfolding sample_ledger_verifies(2) by blast
  then show ?thesis by (simp add: rewritten_ledger_def)
qed

text \<open>The candidate an entry is about is not tamper-evident: rewriting it in every row, while
  clearing the sequence numbers and the second digest that covers it, leaves the ledger accepted.  No
  key is needed for this rewrite.\<close>

theorem candidate_rewrite_accepted:
  assumes "verify_audit_chain_integrity secret fault db p ne = Inr (True, m)"
  shows "\<exists>m'. verify_audit_chain_integrity secret fault
    (db\<lparr>sd_audit := map (forget_candidate c) (sd_audit db)\<rparr>) p ne = Inr (True, m')"
  by (rule forget_candidate_verifies [OF assms])

theorem candidate_rewrite_accepted_witness:
  "\<exists>m'. verify_audit_chain_integrity ''k'' No_fault
    (sample_ledger\<lparr>sd_audit := map (forget_candidate (Some ''other'')) (sd_audit sample_ledger)\<rparr>) None True =
      Inr (True, m')"
  using candidate_rewrite_accepted sample_ledger_verifies(1) by blast

section \<open>The secret\<close>

text \<open>A ledger that resolved its own secret is reopened with it.  When neither a secret nor the
  environment variable is given, a resolution that yields a key, whatever the file system did during
  it, leaves the sidecar so that every later undisturbed resolution yields the same key, whatever
  fresh token it draws.\<close>

theorem secret_reopened:
  assumes "resolve_ledger_secret k None token p None = (p', key)" "key \<noteq> []" "py_strip (token @ [CHR 0x0A]) = token"
  shows "resolve_ledger_secret calm None token' p' None = (p', key)"
  using assms
  by (auto simp: resolve_ledger_secret_def write_sidecar_key_def read_sidecar_key_def Let_def or_empty_def
      calm_def split: if_splits key_path.splits option.splits)

theorem secret_reopened_witness:
  "resolve_ledger_secret calm None ''ff'' (Kp_file (''a0'' @ [CHR 0x0A])) None = (Kp_file (''a0'' @ [CHR 0x0A]), ''a0'')"
proof (rule secret_reopened)
  show "resolve_ledger_secret calm None ''a0'' Kp_absent None = (Kp_file (''a0'' @ [CHR 0x0A]), ''a0'')" by code_simp
qed code_simp+

text \<open>An explicit secret with white space around it is written as given and read back without it, so a
  process that relies on the sidecar works with another key.\<close>

theorem padded_secret_reopened_stripped:
  "resolve_ledger_secret calm None ''t'' Kp_absent (Some '' s'') = (Kp_file ('' s'' @ [CHR 0x0A]), '' s'') \<and>
   resolve_ledger_secret calm None ''t'' (Kp_file ('' s'' @ [CHR 0x0A])) None = (Kp_file ('' s'' @ [CHR 0x0A]), ''s'')"
  by code_simp

end
