(* ===== verification/SoarEngine_Facts.thy ===== *)
theory SoarEngine_Facts
  imports SoarEngine SoarLedger_Facts "HOL-Library.Sublist"
begin

text \<open>
  The approval-gated engine as a state machine: every command moves each record along the
  allowed transitions only, the audit chain stays acceptable and only grows, execution
  presupposes an analyst's approval, and a version can be used only once.
\<close>

section \<open>Frames\<close>

text \<open>A record without its timing columns, which callbacks may rewrite at any time.\<close>

definition core :: "soar_record \<Rightarrow> soar_record" where
  "core r = r\<lparr>sp_updated_at_utc := [], sp_t_approval_queued := None, sp_t_callback_verified := None,
     sp_t_response := None\<rparr>"

lemma core_stored [simp]: "core (stored_record r) = core r"
  by (simp add: core_def stored_record_def)

text \<open>What a predicate on the store has to respect for every command to keep it.\<close>

lemma save_and_audit_keeps:
  assumes "P db" "\<And>f d r. P d \<Longrightarrow> P (fst (save_record f d r))"
    and "\<And>f h n d p a ac os ns r s. P d \<Longrightarrow> P (fst (append_audit_event secret f h n d p a ac os ns r s))"
  shows "P (fst (save_and_audit secret env db updated action actor old_state new_state reason snapshot))"
proof -
  obtain db1 r1 where 1: "save_record (en_save_fault env) db updated = (db1, r1)" by fastforce
  obtain db2 r2 where 2: "append_audit_event secret (en_audit_fault env) (en_event_hex env) (en_event_now env) db1
      (sp_playbook_id updated) action actor old_state new_state reason snapshot = (db2, r2)" by fastforce
  have "P db1" using assms(1,2) 1 by (metis fst_conv)
  moreover have "P db2" using assms(3) [OF \<open>P db1\<close>] 2 by (metis fst_conv)
  ultimately show ?thesis by (cases r1; cases r2) (simp_all add: save_and_audit_def 1 2)
qed

lemma save_recommended_keeps:
  assumes "P db" "\<And>f d r. P d \<Longrightarrow> P (fst (save_record f d r))"
    and "\<And>f h n d p a ac os ns r s. P d \<Longrightarrow> P (fst (append_audit_event secret f h n d p a ac os ns r s))"
  shows "P (fst (save_recommended secret cand db xs))"
  using assms(1)
proof (induction xs arbitrary: db)
  case (Cons x xs)
  obtain env r where x: "x = (env, r)" by fastforce
  obtain db' res where sa: "save_and_audit secret env db r ''recommend_action'' ''system:recommendation_engine''
      ''none'' ''pending_approval'' (Some (''Recommended action '' @ sp_action_type r @ '' for candidate '' @ cand))
      None = (db', res)" by fastforce
  have "P db'" using save_and_audit_keeps [where P = P, OF Cons.prems assms(2,3)] sa by (metis fst_conv)
  with Cons.IH x sa show ?case by (cases res) auto
qed simp

lemma soar_step_keeps:
  assumes "P db" "\<And>f d r. P d \<Longrightarrow> P (fst (save_record f d r))"
    and "\<And>f h n d p a ac os ns r s. P d \<Longrightarrow> P (fst (append_audit_event secret f h n d p a ac os ns r s))"
    and "\<And>d q f. P d \<Longrightarrow> (\<And>r. core (f r) = core r) \<Longrightarrow> P (d\<lparr>sd_records := update_where q f (sd_records d)\<rparr>)"
  shows "P (soar_step rd secret db c)"
proof (cases c)
  case (Recommend e1 e2 h1 h2 cand prov t)
  have "P (fst (save_recommended secret cand db xs))" for xs by (rule save_recommended_keeps [OF assms(1-3)])
  then show ?thesis
    unfolding Recommend by (auto simp: recommend_actions_for_alert_def Let_def split: prod.splits sum.splits)
      (metis fst_conv)+
next
  case (Callback off rf w now p t q)
  then show ?thesis
    using assms(1) by (auto simp: record_callback_verification_def Let_def core_def intro!: assms(4) split: sum.splits)
qed (auto simp: decide_recommendation_def execute_approved_action_def rollback_executed_action_def Let_def
    intro!: save_and_audit_keeps [OF assms(1-3)] assms(1) split: sum.splits)

lemma save_record_audit [simp]:
  "sd_audit (fst (save_record f d r)) = sd_audit d" "sd_seal (fst (save_record f d r)) = sd_seal d"
  by (simp_all add: save_record_def)

lemma chain_inv_same_audit:
  "chain_inv secret d \<Longrightarrow> sd_audit d' = sd_audit d \<Longrightarrow> sd_seal d' = sd_seal d \<Longrightarrow> chain_inv secret d'"
  by (auto simp: chain_inv_def head_sealed_def split: if_splits)

lemma soar_step_chain_inv: "chain_inv secret db \<Longrightarrow> chain_inv secret (soar_step rd secret db c)"
  by (rule soar_step_keeps [where P = "chain_inv secret"]) (auto intro: append_chain_inv chain_inv_same_audit)

lemma append_audit_prefix:
  "prefix (sd_audit d) (sd_audit (fst (append_audit_event secret f h n d p a ac os ns r s)))"
  by (rule append_audit_cases [OF surjective_pairing [of "append_audit_event secret f h n d p a ac os ns r s"]])
    auto

lemma soar_step_audit_prefix: "prefix (sd_audit db) (sd_audit (soar_step rd secret db c))"
  by (rule soar_step_keeps [where P = "\<lambda>d. prefix (sd_audit db) (sd_audit d)"])
    (auto intro: prefix_order.trans [OF _ append_audit_prefix])

lemma append_audit_records [simp]:
  "sd_records (fst (append_audit_event secret f h n d p a ac os ns r s)) = sd_records d"
  by (rule append_audit_cases [OF surjective_pairing [of "append_audit_event secret f h n d p a ac os ns r s"]])
    auto

section \<open>Transitions of a record\<close>

text \<open>\<open>soar_move secret db c r r'\<close>: on the ledger \<open>db\<close> the command \<open>c\<close> may turn the record \<open>r\<close> into \<open>r'\<close>.\<close>

inductive soar_move :: "string \<Rightarrow> soar_db \<Rightarrow> soar_command \<Rightarrow> soar_record \<Rightarrow> soar_record \<Rightarrow> bool"
  for secret :: string and db :: soar_db where
  keep: "core r' = core r \<Longrightarrow> soar_move secret db c r r'"
| approve: "\<not> blank actor \<Longrightarrow> \<not> blank reason \<Longrightarrow> sp_playbook_id r = p \<Longrightarrow> sp_state r = ''pending_approval'' \<Longrightarrow>
    sp_version r = v \<Longrightarrow>
    core r' = core (r\<lparr>sp_state := ''approved'', sp_version := v + 1, sp_actor_id := Some actor,
      sp_decision_reason := Some reason\<rparr>) \<Longrightarrow>
    soar_move secret db (Decide env p actor ''approve'' reason v) r r'"
| reject: "\<not> blank actor \<Longrightarrow> \<not> blank reason \<Longrightarrow> sp_playbook_id r = p \<Longrightarrow> sp_state r = ''pending_approval'' \<Longrightarrow>
    sp_version r = v \<Longrightarrow>
    core r' = core (r\<lparr>sp_state := ''rejected'', sp_version := v + 1, sp_actor_id := Some actor,
      sp_decision_reason := Some reason\<rparr>) \<Longrightarrow>
    soar_move secret db (Decide env p actor ''reject'' reason v) r r'"
| execute: "\<not> blank actor \<Longrightarrow> sp_playbook_id r = p \<Longrightarrow> sp_state r = ''approved'' \<Longrightarrow> sp_version r = v \<Longrightarrow>
    core r' = core (r\<lparr>sp_state := ''executed_simulated'', sp_version := v + 1, sp_actor_id := Some actor,
      sp_pre_action_snapshot := Some snap, sp_execution_evidence := Some evidence\<rparr>) \<Longrightarrow>
    soar_move secret db (Execute env p actor v) r r'"
| rollback: "\<not> blank actor \<Longrightarrow> \<not> blank reason \<Longrightarrow> sp_playbook_id r = p \<Longrightarrow> sp_state r = ''executed_simulated'' \<Longrightarrow>
    sp_version r = v \<Longrightarrow> sp_actor_id r = Some (py_strip actor) \<Longrightarrow>
    verify_audit_chain_integrity secret (en_verify_fault env) db (Some p) True = Inr (True, m) \<Longrightarrow>
    core r' = core (r\<lparr>sp_state := ''rolled_back'', sp_version := v + 1, sp_actor_id := Some actor,
      sp_rollback_reason := Some reason\<rparr>) \<Longrightarrow>
    soar_move secret db (Rollback env p actor reason v) r r'"

lemma guarded_record_InrD:
  assumes "guarded_record env db p from_state msg v = Inr r"
  shows "r \<in> set (sd_records db)" "sp_playbook_id r = p" "sp_state r = from_state" "sp_version r = v"
  using assms fetchone_SomeD [of "\<lambda>r. sp_playbook_id r = p" "sd_records db" r]
  by (auto simp: guarded_record_def get_record_def bindE_eq_Inr split: if_splits)

lemma save_and_audit_records:
  "set (sd_records (fst (save_and_audit secret env db updated action actor old_state new_state reason snapshot)))
     \<subseteq> set (sd_records db) \<union> {stored_record updated}"
proof -
  have "sd_records (fst (save_and_audit secret env db updated action actor old_state new_state reason snapshot))
      = sd_records (fst (save_record (en_save_fault env) db updated))"
    by (simp add: save_and_audit_def split: prod.splits sum.splits) (metis append_audit_records fst_conv)
  then show ?thesis by (auto simp: save_record_def)
qed

lemma save_recommended_records:
  "set (sd_records (fst (save_recommended secret cand db xs))) \<subseteq>
     set (sd_records db) \<union> stored_record ` snd ` set xs"
proof (induction xs arbitrary: db)
  case (Cons x xs)
  obtain env r where x: "x = (env, r)" by fastforce
  obtain db' res where sa: "save_and_audit secret env db r ''recommend_action'' ''system:recommendation_engine''
      ''none'' ''pending_approval'' (Some (''Recommended action '' @ sp_action_type r @ '' for candidate '' @ cand))
      None = (db', res)" by fastforce
  have "set (sd_records db') \<subseteq> set (sd_records db) \<union> {stored_record r}"
    using save_and_audit_records sa by (metis fst_conv)
  with Cons.IH [of db'] x sa show ?case by (cases res) auto
qed simp

definition fresh_pending :: "soar_record \<Rightarrow> bool" where
  "fresh_pending r \<longleftrightarrow> sp_state r = ''pending_approval'' \<and> sp_version r = 1 \<and> sp_actor_id r = None \<and>
     sp_decision_reason r = None \<and> sp_pre_action_snapshot r = None \<and> sp_execution_evidence r = None \<and>
     sp_rollback_reason r = None"

lemma recommended_fresh:
  "r \<in> set (recommended_records rd now h1 h2 cand prov t) \<Longrightarrow> fresh_pending (stored_record r)"
  by (auto simp: recommended_records_def Let_def pending_record_def fresh_pending_def stored_record_def
      split: option.splits if_splits)

text \<open>The records a command recommends, as they are stored: only \<^verbatim>\<open>Recommend\<close> has any.\<close>

definition recommends :: "iso_parser \<Rightarrow> soar_command \<Rightarrow> soar_record list" where
  "recommends rd c = (case c of
     Recommend env1 env2 hex1 hex2 cand prov t \<Rightarrow>
       map stored_record (recommended_records rd (en_now env1) hex1 hex2 cand prov t)
   | _ \<Rightarrow> [])"

lemma recommends_fresh: "r \<in> set (recommends rd c) \<Longrightarrow> fresh_pending r"
  by (auto simp: recommends_def intro: recommended_fresh split: soar_command.splits)

lemma soar_step_moves:
  assumes "r' \<in> set (sd_records (soar_step rd secret db c))"
  shows "r' \<in> set (recommends rd c) \<or> (\<exists>r \<in> set (sd_records db). soar_move secret db c r r')"
proof -
  have stays: "\<exists>r \<in> set (sd_records db). soar_move secret db c r r'" if "r' \<in> set (sd_records db)"
    using that by (blast intro: soar_move.keep)
  have saved: "r' \<in> set (recommends rd c) \<or> (\<exists>r \<in> set (sd_records db). soar_move secret db c r r')"
    if "r' \<in> set (sd_records (fst (save_and_audit secret env db u a ac os ns re sn)))"
      "r \<in> set (sd_records db)" "soar_move secret db c r (stored_record u)" for env u a ac os ns re sn r
    using save_and_audit_records that stays by blast
  show ?thesis
  proof (cases c)
    case (Recommend e1 e2 h1 h2 cand prov t)
    let ?recs = "recommended_records rd (en_now e1) h1 h2 cand prov t"
    have eq: "sd_records (soar_step rd secret db c) =
        sd_records (fst (save_recommended secret cand db (zip [e1, e2] ?recs)))"
      unfolding Recommend by (simp add: recommend_actions_for_alert_def Let_def split: prod.splits sum.splits)
    have "r' \<in> set (sd_records db) \<union> stored_record ` snd ` set (zip [e1, e2] ?recs)"
      using assms unfolding eq by (rule subsetD [OF save_recommended_records])
    then consider "r' \<in> set (sd_records db)" | r where "r \<in> set ?recs" "r' = stored_record r"
      by (auto dest: set_zip_rightD)
    then show ?thesis by cases (use stays in \<open>simp_all add: Recommend recommends_def\<close>)
  next
    case (Decide env p actor decision reason v)
    show ?thesis
    proof (cases "decide_guard env db p actor decision reason v")
      case (Inr r)
      then have r: "r \<in> set (sd_records db)" "sp_playbook_id r = p" "sp_state r = ''pending_approval''" "sp_version r = v"
        and g: "\<not> blank actor" "\<not> blank reason" "decision = ''approve'' \<or> decision = ''reject''"
        by (auto simp: decide_guard_def bindE_eq_Inr dest: guarded_record_InrD)
      have mv: "soar_move secret db c r (stored_record (r\<lparr>sp_state := if decision = ''approve'' then ''approved'' else ''rejected'',
          sp_version := sp_version r + 1, sp_actor_id := Some actor, sp_decision_reason := Some reason,
          sp_updated_at_utc := isoformat (en_now env)\<rparr>))"
        using g(3)
      proof
        assume d: "decision = ''approve''"
        show ?thesis unfolding Decide d by (rule soar_move.approve [OF g(1,2) r(2-4)]) (simp add: core_def stored_record_def r(4))
      next
        assume d: "decision = ''reject''"
        show ?thesis unfolding Decide d by (rule soar_move.reject [OF g(1,2) r(2-4)]) (simp add: core_def stored_record_def r(4))
      qed
      show ?thesis
        by (rule saved [OF _ r(1) mv]) (use assms Inr in \<open>simp add: Decide decide_recommendation_def Let_def\<close>)
    qed (use assms stays in \<open>simp add: Decide decide_recommendation_def\<close>)
  next
    case (Execute env p actor v)
    show ?thesis
    proof (cases "execute_guard env db p actor v")
      case (Inr r)
      then have r: "r \<in> set (sd_records db)" "sp_playbook_id r = p" "sp_state r = ''approved''" "sp_version r = v"
        "\<not> blank actor" by (auto simp: execute_guard_def bindE_eq_Inr dest: guarded_record_InrD)
      have mv: "soar_move secret db c r (stored_record (r\<lparr>sp_state := ''executed_simulated'', sp_version := sp_version r + 1,
          sp_actor_id := Some actor, sp_pre_action_snapshot := Some snap, sp_execution_evidence := Some evidence,
          sp_updated_at_utc := stamp\<rparr>))" for snap evidence stamp
        unfolding Execute by (rule soar_move.execute [OF r(5,2-4)]) (simp add: core_def stored_record_def r(4))
      show ?thesis
        by (rule saved [OF _ r(1) mv]) (use assms Inr in \<open>simp add: Execute execute_approved_action_def Let_def\<close>)
    qed (use assms stays in \<open>simp add: Execute execute_approved_action_def\<close>)
  next
    case (Rollback env p actor reason v)
    show ?thesis
    proof (cases "rollback_guard secret env db p actor reason v")
      case (Inr r)
      then have r: "r \<in> set (sd_records db)" "sp_playbook_id r = p" "sp_state r = ''executed_simulated''" "sp_version r = v"
        "\<not> blank actor" "\<not> blank reason" "sp_actor_id r = Some (py_strip actor)"
        and "\<exists>m. verify_audit_chain_integrity secret (en_verify_fault env) db (Some p) True = Inr (True, m)"
        by (auto simp: rollback_guard_def bindE_eq_Inr dest: guarded_record_InrD)
      then obtain m where m: "verify_audit_chain_integrity secret (en_verify_fault env) db (Some p) True = Inr (True, m)"
        by blast
      have mv: "soar_move secret db c r (stored_record (r\<lparr>sp_state := ''rolled_back'', sp_version := sp_version r + 1,
          sp_actor_id := Some actor, sp_rollback_reason := Some reason, sp_updated_at_utc := stamp\<rparr>))" for stamp
        unfolding Rollback by (rule soar_move.rollback [OF r(5,6,2-4,7) m]) (simp add: core_def stored_record_def r(4))
      show ?thesis
        by (rule saved [OF _ r(1) mv]) (use assms Inr in \<open>simp add: Rollback rollback_executed_action_def\<close>)
    qed (use assms stays in \<open>simp add: Rollback rollback_executed_action_def\<close>)
  next
    case (Callback off rf w now p t q)
    then show ?thesis
      using assms stays
      by (auto simp: record_callback_verification_def Let_def set_update_where core_def
          intro!: soar_move.keep split: sum.splits if_splits)
  qed
qed

section \<open>Invariants of every run\<close>

text \<open>A text that is present and not blank.\<close>

definition given :: "string option \<Rightarrow> bool" where
  "given v \<longleftrightarrow> (case v of None \<Rightarrow> False | Some s \<Rightarrow> \<not> blank s)"

text \<open>The life of a playbook record: what each state implies of its version and its fields.\<close>

definition record_ok :: "soar_record \<Rightarrow> bool" where
  "record_ok r \<longleftrightarrow>
     (if sp_state r = ''pending_approval'' then fresh_pending r
      else if sp_state r = ''approved'' \<or> sp_state r = ''rejected'' then
        sp_version r = 2 \<and> given (sp_actor_id r) \<and> given (sp_decision_reason r) \<and>
        sp_pre_action_snapshot r = None \<and> sp_rollback_reason r = None
      else if sp_state r = ''executed_simulated'' then
        sp_version r = 3 \<and> given (sp_actor_id r) \<and> given (sp_decision_reason r) \<and>
        sp_pre_action_snapshot r \<noteq> None \<and> sp_execution_evidence r \<noteq> None \<and> sp_rollback_reason r = None
      else sp_state r = ''rolled_back'' \<and> sp_version r = 4 \<and> given (sp_actor_id r) \<and>
        given (sp_decision_reason r) \<and> sp_pre_action_snapshot r \<noteq> None \<and>
        sp_execution_evidence r \<noteq> None \<and> given (sp_rollback_reason r))"

lemma core_fields:
  assumes "core a = core b"
  shows "sp_playbook_id a = sp_playbook_id b" "sp_state a = sp_state b" "sp_version a = sp_version b"
    "sp_actor_id a = sp_actor_id b" "sp_decision_reason a = sp_decision_reason b"
    "sp_pre_action_snapshot a = sp_pre_action_snapshot b" "sp_execution_evidence a = sp_execution_evidence b"
    "sp_rollback_reason a = sp_rollback_reason b" "sp_candidate_id a = sp_candidate_id b"
    "sp_target_entity a = sp_target_entity b" "sp_action_type a = sp_action_type b"
  using assms by (cases a; cases b; simp add: core_def)+

lemma record_ok_core: "core a = core b \<Longrightarrow> record_ok a \<longleftrightarrow> record_ok b"
  by (simp add: record_ok_def fresh_pending_def core_fields [of a b])

lemma soar_move_ok: "soar_move secret db c r r' \<Longrightarrow> record_ok r \<Longrightarrow> record_ok r'"
  by (induction rule: soar_move.induct)
    (rule record_ok_core [THEN iffD2], assumption, simp add: record_ok_def fresh_pending_def given_def)+

lemma fresh_pending_ok: "fresh_pending r \<Longrightarrow> record_ok r"
  by (simp add: fresh_pending_def record_ok_def)

definition soar_inv :: "string \<Rightarrow> soar_db \<Rightarrow> bool" where
  "soar_inv secret db \<longleftrightarrow> chain_inv secret db \<and> distinct (map sp_playbook_id (sd_records db)) \<and>
     list_all record_ok (sd_records db)"

lemma distinct_map_filter_key: "distinct (map f xs) \<Longrightarrow> distinct (map f (filter q xs))"
  by (induction xs) auto

lemma soar_step_distinct:
  assumes "distinct (map sp_playbook_id (sd_records db))"
  shows "distinct (map sp_playbook_id (sd_records (soar_step rd secret db c)))"
proof (rule soar_step_keeps [where P = "\<lambda>d. distinct (map sp_playbook_id (sd_records d))"])
  show "distinct (map sp_playbook_id (sd_records (d\<lparr>sd_records := update_where q f (sd_records d)\<rparr>)))"
    if "distinct (map sp_playbook_id (sd_records d))" "\<And>r. core (f r) = core r" for d q f
  proof -
    have "sp_playbook_id (f r) = sp_playbook_id r" for r by (rule core_fields(1) [OF that(2)])
    with that(1) show ?thesis by (simp add: update_where_keys)
  qed
qed (use assms in \<open>auto simp: save_record_def stored_record_def distinct_map_filter_key\<close>)

lemma soar_step_inv:
  assumes "soar_inv secret db"
  shows "soar_inv secret (soar_step rd secret db c)"
proof -
  have "record_ok r'" if "r' \<in> set (sd_records (soar_step rd secret db c))" for r'
    using soar_step_moves [OF that] assms soar_move_ok fresh_pending_ok recommends_fresh unfolding soar_inv_def list_all_iff
    by blast
  then show ?thesis
    using assms soar_step_distinct soar_step_chain_inv by (simp add: soar_inv_def list_all_iff)
qed

interpretation soar: monotone_machine "soar_step rd secret" "\<lambda>d. d = new_soar_db" "soar_inv secret"
  "\<lambda>d d'. prefix (sd_audit d) (sd_audit d')"
proof
  show "soar_inv secret d" if "d = new_soar_db" for d
    using that by (simp add: soar_inv_def chain_inv_def new_soar_db_def)
qed (auto intro: soar_step_inv soar_step_audit_prefix prefix_order.trans)

section \<open>The contract of the engine\<close>

abbreviation soar_run :: "iso_parser \<Rightarrow> string \<Rightarrow> soar_command list \<Rightarrow> soar_db" where
  "soar_run rd secret cs \<equiv> foldl (soar_step rd secret) new_soar_db cs"

text \<open>C35: In every run of the engine, with any database faults, each playbook has one record, whose
  version and fields are those of its state: pending records carry no decision, decided ones an actor
  and a reason, executed ones a snapshot and evidence, rolled-back ones a rollback reason as well; no
  other state occurs.  The audit log only grows, with distinct event identifiers.\<close>

theorem soar_records_wellformed:
  "let db = soar_run rd secret cs; db' = soar_run rd secret (cs @ cs') in
     distinct (map sp_playbook_id (sd_records db)) \<and> list_all record_ok (sd_records db) \<and>
     distinct (map se_event_id (sd_audit db)) \<and> prefix (sd_audit db) (sd_audit db')"
proof -
  have "soar_inv secret (soar_run rd secret cs)" by (rule soar.inv_from_start) simp
  with soar.extends_run [OF this, of rd cs'] show ?thesis
    by (simp add: Let_def soar_inv_def chain_inv_def)
qed

lemma soar_step_keeps_id:
  assumes "p \<in> set (map sp_playbook_id (sd_records db))"
  shows "p \<in> set (map sp_playbook_id (sd_records (soar_step rd secret db c)))"
proof (rule soar_step_keeps [where P = "\<lambda>d. p \<in> set (map sp_playbook_id (sd_records d))"])
  show "p \<in> set (map sp_playbook_id (sd_records (d\<lparr>sd_records := update_where q f (sd_records d)\<rparr>)))"
    if "p \<in> set (map sp_playbook_id (sd_records d))" "\<And>r. core (f r) = core r" for d q f
  proof -
    have "sp_playbook_id (f r) = sp_playbook_id r" for r by (rule core_fields(1) [OF that(2)])
    with that(1) show ?thesis by (simp add: update_where_keys del: set_map)
  qed
qed (use assms in \<open>auto simp: save_record_def stored_record_def image_iff\<close>)

lemma run_ledger_verifies:
  assumes "secret \<noteq> []" "p \<in> Some ` set (map se_playbook_id (sd_audit (soar_run rd secret cs))) \<or>
      p = None \<and> sd_audit (soar_run rd secret cs) \<noteq> []"
  shows "\<exists>m. verify_audit_chain_integrity secret No_fault (soar_run rd secret cs) p ne = Inr (True, m)"
proof -
  have "soar_inv secret (soar_run rd secret cs)" by (rule soar.inv_from_start) simp
  then show ?thesis
    unfolding verify_true_iff [OF assms(1)] using assms(2)
    by (auto simp: soar_inv_def chain_inv_def split: if_splits)
qed

text \<open>C33: Every ledger the engine can produce is accepted by its own verification: with a non-empty
  secret, after any run with any faults that has logged at least one event, the integrity check reports
  success for the whole ledger and for every playbook that has an event.\<close>

theorem soar_chain_verifies:
  assumes "secret \<noteq> []" "p \<in> Some ` set (map se_playbook_id (sd_audit (soar_run rd secret cs))) \<or>
      p = None \<and> sd_audit (soar_run rd secret cs) \<noteq> []"
  shows "\<exists>m. verify_audit_chain_integrity secret No_fault (soar_run rd secret cs) p ne = Inr (True, m)"
  using assms by (rule run_ledger_verifies)

text \<open>C34: Each command moves each record along the approval workflow only.  A record after the command is
  one of the records that a recommendation has just created, pending and at version 1; or some record
  before it, unchanged up to its timing columns, or moved by exactly the transition its command names,
  under that transition's guards on actor, reason, state and version, with the version raised by one, and
  for a rollback only by the executor and after the audit chain of the playbook was verified on the ledger
  at hand.  No command but a recommendation creates a record, and none drops one.\<close>

theorem soar_transitions:
  "list_all (\<lambda>r'. r' \<in> set (recommends rd c) \<and> fresh_pending r' \<or> list_ex (\<lambda>r. soar_move secret db c r r') (sd_records db))
     (sd_records (soar_step rd secret db c)) \<and>
   set (map sp_playbook_id (sd_records db)) \<subseteq> set (map sp_playbook_id (sd_records (soar_step rd secret db c)))"
proof
  show "list_all (\<lambda>r'. r' \<in> set (recommends rd c) \<and> fresh_pending r' \<or> list_ex (\<lambda>r. soar_move secret db c r r') (sd_records db))
     (sd_records (soar_step rd secret db c))"
    using soar_step_moves recommends_fresh by (fastforce simp: list_all_iff list_ex_iff)
qed (use soar_step_keeps_id in blast)

section \<open>Approval before execution\<close>

definition approves :: "string \<Rightarrow> soar_command \<Rightarrow> bool" where
  "approves p c \<longleftrightarrow> (case c of Decide env q actor decision reason v \<Rightarrow>
     q = p \<and> decision = ''approve'' \<and> \<not> blank actor \<and> \<not> blank reason | _ \<Rightarrow> False)"

definition past_approval :: "soar_record \<Rightarrow> bool" where
  "past_approval r \<longleftrightarrow> sp_state r = ''approved'' \<or> sp_state r = ''executed_simulated'' \<or> sp_state r = ''rolled_back''"

lemma move_past_approval:
  "soar_move secret db c r r' \<Longrightarrow> past_approval r' \<Longrightarrow>
     (past_approval r \<and> sp_playbook_id r = sp_playbook_id r') \<or> approves (sp_playbook_id r') c"
  by (induction rule: soar_move.induct)
    (auto simp: past_approval_def approves_def dest: core_fields(1,2))

lemma approved_before:
  "r \<in> set (sd_records (soar_run rd secret cs)) \<Longrightarrow> past_approval r \<Longrightarrow> list_ex (approves (sp_playbook_id r)) cs"
proof (induction cs arbitrary: r rule: rev_induct)
  case Nil
  then show ?case by (simp add: new_soar_db_def)
next
  case (snoc c cs)
  then have "r \<in> set (sd_records (soar_step rd secret (soar_run rd secret cs) c))" by simp
  with soar_step_moves obtain r0 where "r \<in> set (recommends rd c) \<or>
      r0 \<in> set (sd_records (soar_run rd secret cs)) \<and> soar_move secret (soar_run rd secret cs) c r0 r" by blast
  moreover have "\<not> fresh_pending r" using snoc.prems(2) by (auto simp: fresh_pending_def past_approval_def)
  ultimately show ?case
    using snoc.IH [of r0] snoc.prems(2) move_past_approval [of secret "soar_run rd secret cs" c r0 r] recommends_fresh
    by auto
qed

text \<open>C5: Nothing is executed that an analyst did not approve: when, after any sequence of commands, an
  execution of a playbook succeeds, the sequence contains an approval of that playbook by a named actor
  with a stated reason.\<close>

theorem execution_needs_approval:
  assumes "execute_approved_action secret env (soar_run rd secret cs) p actor v = (db', Inr r)"
  shows "list_ex (approves p) cs \<and> \<not> blank actor"
proof -
  obtain r0 where "execute_guard env (soar_run rd secret cs) p actor v = Inr r0"
    using assms by (cases "execute_guard env (soar_run rd secret cs) p actor v")
      (auto simp: execute_approved_action_def)
  then have "r0 \<in> set (sd_records (soar_run rd secret cs))" "sp_state r0 = ''approved''" "sp_playbook_id r0 = p"
    "\<not> blank actor"
    by (auto simp: execute_guard_def bindE_eq_Inr dest: guarded_record_InrD)
  with approved_before [of r0 rd secret cs] show ?thesis by (simp add: past_approval_def)
qed

text \<open>Without faults, and with a new event identifier, saving and auditing succeeds.\<close>

definition quiet :: "soar_env \<Rightarrow> bool" where
  "quiet env \<longleftrightarrow> en_read_fault env = No_fault \<and> en_verify_fault env = No_fault \<and>
     en_save_fault env = No_fault \<and> en_audit_fault env = No_fault"

lemma save_and_audit_ok:
  assumes "secret \<noteq> []" "quiet env" "''soar_audit:'' @ en_event_hex env \<notin> set (map se_event_id (sd_audit db))"
  shows "snd (save_and_audit secret env db updated action actor old_state new_state reason snapshot) = Inr updated"
    "sd_records (fst (save_and_audit secret env db updated action actor old_state new_state reason snapshot)) =
      filter (\<lambda>x. sp_playbook_id x \<noteq> sp_playbook_id updated) (sd_records db) @ [stored_record updated]"
    "map se_event_id (sd_audit (fst (save_and_audit secret env db updated action actor old_state new_state
      reason snapshot))) = map se_event_id (sd_audit db) @ [''soar_audit:'' @ en_event_hex env]"
    "map se_playbook_id (sd_audit (fst (save_and_audit secret env db updated action actor old_state new_state
      reason snapshot))) = map se_playbook_id (sd_audit db) @ [sp_playbook_id updated]"
  using assms
  by (simp_all add: save_and_audit_def save_record_def quiet_def append_audit_event_def Let_def
      compute_soar_audit_entry_hash_def compute_canonical_audit_entry_hash_def del: set_map)

section \<open>Versions\<close>

definition uses_version :: "string \<Rightarrow> int \<Rightarrow> soar_command \<Rightarrow> bool" where
  "uses_version p v c \<longleftrightarrow> (case c of Decide env q actor decision reason w \<Rightarrow> q = p \<and> w = v
     | Execute env q actor w \<Rightarrow> q = p \<and> w = v | Rollback env q actor reason w \<Rightarrow> q = p \<and> w = v | _ \<Rightarrow> False)"

lemma guards_stale:
  assumes "fetchone (\<lambda>r. sp_playbook_id r = p) (sd_records db) = Some r" "sp_version r \<noteq> v"
  shows "\<exists>e. decide_guard env db p actor decision reason v = Inl e"
    "\<exists>e. execute_guard env db p actor v = Inl e" "\<exists>e. rollback_guard secret env db p actor reason v = Inl e"
proof -
  have g: "\<exists>e. guarded_record env db p st msg v = Inl e" for st msg
    using assms by (auto simp: guarded_record_def get_record_def requireE_def)
  show "\<exists>e. decide_guard env db p actor decision reason v = Inl e"
    using g unfolding decide_guard_def requireE_def by (auto simp del: not_None_eq)
  show "\<exists>e. execute_guard env db p actor v = Inl e"
    using g unfolding execute_guard_def requireE_def by auto
  obtain e where "guarded_record env db p ''executed_simulated''
      (\<lambda>r. ''Cannot rollback action '' @ p @ '' in state '' @ sq (sp_state r) @
        ''. Action must be in '' @ sq ''executed_simulated'' @ '' state.'') v = Inl e" using g by blast
  then show "\<exists>e. rollback_guard secret env db p actor reason v = Inl e"
    by (simp only: rollback_guard_def requireE_def) simp
qed

lemma stale_version_no_step:
  assumes "uses_version p v c" "fetchone (\<lambda>r. sp_playbook_id r = p) (sd_records db) = Some r" "sp_version r \<noteq> v"
  shows "soar_step rd secret db c = db"
proof (cases c)
  case (Decide env q actor decision reason w)
  with assms(1) have "q = p" "w = v" by (simp_all add: uses_version_def)
  with Decide guards_stale(1) [OF assms(2,3), of env actor decision reason] show ?thesis
    by (auto simp: decide_recommendation_def)
next
  case (Execute env q actor w)
  with assms(1) have "q = p" "w = v" by (simp_all add: uses_version_def)
  with Execute guards_stale(2) [OF assms(2,3), of env actor] show ?thesis
    by (auto simp: execute_approved_action_def)
next
  case (Rollback env q actor reason w)
  with assms(1) have "q = p" "w = v" by (simp_all add: uses_version_def)
  with Rollback guards_stale(3) [OF assms(2,3), of secret env actor reason] show ?thesis
    by (auto simp: rollback_executed_action_def)
qed (use assms(1) in \<open>simp_all add: uses_version_def\<close>)

text \<open>The playbook has a record, and only beyond version \<open>v\<close>.\<close>

definition newer :: "string \<Rightarrow> int \<Rightarrow> soar_db \<Rightarrow> bool" where
  "newer p v db \<longleftrightarrow> p \<in> set (map sp_playbook_id (sd_records db)) \<and>
     list_all (\<lambda>r. sp_playbook_id r \<noteq> p \<or> v < sp_version r) (sd_records db)"

lemma newer_fetchone:
  assumes "newer p v db"
  shows "\<exists>r. fetchone (\<lambda>r. sp_playbook_id r = p) (sd_records db) = Some r \<and> sp_version r \<noteq> v"
proof (cases "fetchone (\<lambda>r. sp_playbook_id r = p) (sd_records db)")
  case None
  then show ?thesis using assms by (auto simp: newer_def fetchone_None_iff)
next
  case (Some r)
  with fetchone_SomeD [OF Some] assms show ?thesis by (auto simp: newer_def list_all_iff)
qed

lemma soar_move_version: "soar_move secret db c r r' \<Longrightarrow> sp_playbook_id r' = sp_playbook_id r \<and> sp_version r \<le> sp_version r'"
  by (induction rule: soar_move.induct) (auto dest: core_fields(1,3))

lemma newer_step:
  assumes "newer p v db" "p \<notin> set (map sp_playbook_id (recommends rd c))"
  shows "newer p v (soar_step rd secret db c)"
  unfolding newer_def list_all_iff
proof (intro conjI ballI)
  show "p \<in> set (map sp_playbook_id (sd_records (soar_step rd secret db c)))"
    using assms(1) soar_step_keeps_id unfolding newer_def by blast
  fix r' assume "r' \<in> set (sd_records (soar_step rd secret db c))"
  from soar_step_moves [OF this] show "sp_playbook_id r' \<noteq> p \<or> v < sp_version r'"
  proof
    assume "r' \<in> set (recommends rd c)"
    then show ?thesis using assms(2) by auto
  next
    assume "\<exists>r \<in> set (sd_records db). soar_move secret db c r r'"
    then show ?thesis using soar_move_version assms(1) by (fastforce simp: newer_def list_all_iff)
  qed
qed

lemma newer_run:
  "newer p v db \<Longrightarrow> list_all (\<lambda>c. p \<notin> set (map sp_playbook_id (recommends rd c))) cs \<Longrightarrow>
     newer p v (foldl (soar_step rd secret) db cs)"
  by (induction cs arbitrary: db) (simp_all add: newer_step)

lemma save_and_audit_moved:
  assumes "sd_records (fst (save_and_audit secret env db u a ac os ns re sn)) \<noteq> sd_records db"
    and "sp_playbook_id u = p" "sp_version u = w"
  shows "newer p (w - 1) (fst (save_and_audit secret env db u a ac os ns re sn))"
proof -
  have "sd_records (fst (save_and_audit secret env db u a ac os ns re sn))
      = sd_records (fst (save_record (en_save_fault env) db u))"
    by (simp add: save_and_audit_def split: prod.splits sum.splits) (metis append_audit_records fst_conv)
  with assms(1) have eq: "sd_records (fst (save_and_audit secret env db u a ac os ns re sn)) =
      filter (\<lambda>x. sp_playbook_id x \<noteq> sp_playbook_id u) (sd_records db) @ [stored_record u]"
    by (simp add: save_record_def split: if_splits)
  show ?thesis unfolding newer_def eq using assms(2,3) by (auto simp: stored_record_def list_all_iff)
qed

lemma version_moves_on:
  assumes "uses_version p v c" "sd_records (soar_step rd secret db c) \<noteq> sd_records db"
  shows "newer p v (soar_step rd secret db c)"
proof (cases c)
  case (Decide env q actor decision reason w)
  with assms obtain r where r: "q = p" "w = v" "decide_guard env db p actor decision reason v = Inr r"
    by (cases "decide_guard env db p actor decision reason v") (auto simp: uses_version_def decide_recommendation_def)
  then have "sp_playbook_id r = p" "sp_version r = v"
    by (auto simp: decide_guard_def bindE_eq_Inr dest: guarded_record_InrD)
  with Decide r assms(2) show ?thesis
    by (cases "decision = ''approve''"; simp add: decide_recommendation_def Let_def; intro save_and_audit_moved [where w = "v + 1", simplified]; simp)
next
  case (Execute env q actor w)
  with assms obtain r where r: "q = p" "w = v" "execute_guard env db p actor v = Inr r"
    by (cases "execute_guard env db p actor v") (auto simp: uses_version_def execute_approved_action_def)
  then have "sp_playbook_id r = p" "sp_version r = v"
    by (auto simp: execute_guard_def bindE_eq_Inr dest: guarded_record_InrD)
  with Execute r assms(2) show ?thesis
    by (simp add: execute_approved_action_def Let_def) (intro save_and_audit_moved [where w = "v + 1", simplified]; simp)
next
  case (Rollback env q actor reason w)
  with assms obtain r where r: "q = p" "w = v" "rollback_guard secret env db p actor reason v = Inr r"
    by (cases "rollback_guard secret env db p actor reason v") (auto simp: uses_version_def rollback_executed_action_def)
  then have "sp_playbook_id r = p" "sp_version r = v"
    by (auto simp: rollback_guard_def bindE_eq_Inr dest: guarded_record_InrD)
  with Rollback r assms(2) show ?thesis
    by (simp add: rollback_executed_action_def) (intro save_and_audit_moved [where w = "v + 1", simplified]; simp)
qed (use assms(1) in \<open>simp_all add: uses_version_def\<close>)

text \<open>C29: A version is used at most once.  The commands of the engine being executed one at a time, once a
  decision, execution or rollback that expects version \<open>v\<close> of a playbook has changed its record, and
  after any further commands of which none recommends a playbook of the same identifier, every decision,
  execution or rollback that expects version \<open>v\<close> leaves the store as it is, whatever the actor, the
  reason and the faults.  (The code has no lock around its read, check and save: what overlapping commands
  can do is \<open>overlapping_decisions\<close>.)\<close>

theorem version_used_once:
  assumes "uses_version p v c" "uses_version p v c'"
    and "sd_records (soar_step rd secret db c) \<noteq> sd_records db"
    and "list_all (\<lambda>d. p \<notin> set (map sp_playbook_id (recommends rd d))) cs"
  shows "let later = foldl (soar_step rd secret) (soar_step rd secret db c) cs in soar_step rd secret later c' = later"
  using newer_fetchone [OF newer_run [OF version_moves_on [OF assms(1,3)] assms(4)]] stale_version_no_step [OF assms(2)]
  by (fastforce simp: Let_def)

section \<open>Overlapping decisions\<close>

text \<open>The second half of a decision, after its guard has read and checked the record.\<close>

definition decide_save ::
  "string \<Rightarrow> soar_env \<Rightarrow> soar_db \<Rightarrow> string \<Rightarrow> string \<Rightarrow> string \<Rightarrow> soar_record \<Rightarrow> soar_db \<times> (soar_error + soar_record)" where
  "decide_save secret env db actor decision reason record =
     (let new_state = (if decision = ''approve'' then ''approved'' else ''rejected'') in
      save_and_audit secret env db
        (record\<lparr>sp_state := new_state, sp_version := sp_version record + 1, sp_actor_id := Some actor,
           sp_decision_reason := Some reason, sp_updated_at_utc := isoformat (en_now env)\<rparr>)
        (''analyst_'' @ decision) actor (sp_state record) new_state (Some reason) None)"

lemma decide_halves:
  "decide_recommendation secret env db p actor decision reason v =
     (case decide_guard env db p actor decision reason v of Inl e \<Rightarrow> (db, Inl e)
      | Inr record \<Rightarrow> decide_save secret env db actor decision reason record)"
  unfolding decide_recommendation_def decide_save_def ..

text \<open>Two decisions whose guards both ran before either of them saved: both succeed and both are logged, at
  the same version, although they contradict each other, and the record of the first is lost.\<close>

theorem overlapping_decisions:
  assumes "secret \<noteq> []" "quiet env" "quiet env'" "en_event_hex env \<noteq> en_event_hex env'"
    and "\<forall>h \<in> {en_event_hex env, en_event_hex env'}. ''soar_audit:'' @ h \<notin> set (map se_event_id (sd_audit db))"
    and "decide_guard env db p a ''approve'' s v = Inr r" "decide_guard env' db p b ''reject'' s' v = Inr r'"
  shows "\<exists>db1 u db2 u'. decide_save secret env db a ''approve'' s r = (db1, Inr u) \<and>
    decide_save secret env' db1 b ''reject'' s' r' = (db2, Inr u') \<and>
    sp_version u = v + 1 \<and> sp_state u = ''approved'' \<and> sp_version u' = v + 1 \<and> sp_state u' = ''rejected'' \<and>
    map se_playbook_id (sd_audit db2) = map se_playbook_id (sd_audit db) @ [p, p] \<and>
    sd_records db2 = filter (\<lambda>x. sp_playbook_id x \<noteq> p) (sd_records db) @ [stored_record u']"
proof -
  let ?u = "r\<lparr>sp_state := ''approved'', sp_version := sp_version r + 1, sp_actor_id := Some a,
    sp_decision_reason := Some s, sp_updated_at_utc := isoformat (en_now env)\<rparr>"
  let ?u' = "r'\<lparr>sp_state := ''rejected'', sp_version := sp_version r' + 1, sp_actor_id := Some b,
    sp_decision_reason := Some s', sp_updated_at_utc := isoformat (en_now env')\<rparr>"
  have r: "sp_playbook_id r = p" "sp_version r = v" "sp_playbook_id r' = p" "sp_version r' = v"
    using assms(6,7) by (auto simp: decide_guard_def bindE_eq_Inr dest: guarded_record_InrD)
  let ?x = "save_and_audit secret env db ?u (''analyst_'' @ ''approve'') a (sp_state r) ''approved'' (Some s) None"
  have f: "''soar_audit:'' @ en_event_hex env \<notin> set (map se_event_id (sd_audit db))" using assms(5) by blast
  note one = save_and_audit_ok [OF assms(1,2) f, of ?u "''analyst_'' @ ''approve''" a "sp_state r" "''approved''" "Some s" None]
  let ?y = "save_and_audit secret env' (fst ?x) ?u' (''analyst_'' @ ''reject'') b (sp_state r') ''rejected'' (Some s') None"
  have g: "''soar_audit:'' @ en_event_hex env' \<notin> set (map se_event_id (sd_audit (fst ?x)))"
    unfolding one(3) using assms(4,5) by simp
  note two = save_and_audit_ok [OF assms(1,3) g, of ?u' "''analyst_'' @ ''reject''" b "sp_state r'" "''rejected''" "Some s'" None]
  have "decide_save secret env db a ''approve'' s r = (fst ?x, Inr ?u)"
    using one(1) by (simp add: decide_save_def Let_def prod_eq_iff)
  moreover have "decide_save secret env' (fst ?x) b ''reject'' s' r' = (fst ?y, Inr ?u')"
    using two(1) by (simp add: decide_save_def Let_def prod_eq_iff)
  moreover have "map se_playbook_id (sd_audit (fst ?y)) = map se_playbook_id (sd_audit db) @ [p, p]"
    unfolding two(4) one(4) by (simp add: r)
  moreover have "sd_records (fst ?y) = filter (\<lambda>x. sp_playbook_id x \<noteq> p) (sd_records db) @ [stored_record ?u']"
    unfolding two(2) one(2) by (simp add: r stored_record_def)
  moreover have "sp_version ?u = v + 1" "sp_state ?u = ''approved''" "sp_version ?u' = v + 1" "sp_state ?u' = ''rejected''"
    by (simp_all add: r)
  ultimately show ?thesis by blast
qed

section \<open>Rollback\<close>

text \<open>An executed action can be rolled back by its executor: in every ledger the engine produced, when
  a playbook is in the executed state, its executor's name has no surrounding white space and its
  events were logged, a rollback by that actor with a stated reason and the current version succeeds,
  keeps the snapshot taken before the execution, and leaves the record rolled back.\<close>

theorem executed_can_be_rolled_back:
  assumes "secret \<noteq> []" "db = soar_run rd secret cs" "quiet env"
    and "r \<in> set (sd_records db)" "sp_state r = ''executed_simulated''" "sp_actor_id r = Some actor"
    and "py_strip actor = actor" "\<not> blank reason"
    and "sp_playbook_id r \<in> set (map se_playbook_id (sd_audit db))"
    and "''soar_audit:'' @ en_event_hex env \<notin> set (map se_event_id (sd_audit db))"
  shows "\<exists>db' r'. rollback_executed_action secret env db (sp_playbook_id r) actor reason (sp_version r) = (db', Inr r') \<and>
    sp_state r' = ''rolled_back'' \<and> sp_pre_action_snapshot r' = sp_pre_action_snapshot r \<and>
    stored_record r' \<in> set (sd_records db')"
proof -
  have inv: "soar_inv secret db" unfolding assms(2) by (rule soar.inv_from_start) simp
  then have "record_ok r" "distinct (map sp_playbook_id (sd_records db))"
    using assms(4) by (auto simp: soar_inv_def list_all_iff)
  then have found: "fetchone (\<lambda>x. sp_playbook_id x = sp_playbook_id r) (sd_records db) = Some r"
    and "\<not> blank actor"
    using fetchone_key_unique [of sp_playbook_id] assms(4,5,6) by (auto simp: record_ok_def given_def)
  have "\<exists>m. verify_audit_chain_integrity secret No_fault db (Some (sp_playbook_id r)) True = Inr (True, m)"
    unfolding verify_true_iff [OF assms(1)] using inv assms(9)
    by (auto simp: soar_inv_def chain_inv_def split: if_splits)
  then have g: "rollback_guard secret env db (sp_playbook_id r) actor reason (sp_version r) = Inr r"
    using found \<open>\<not> blank actor\<close> assms(3,5-8)
    by (auto simp: rollback_guard_def guarded_record_def get_record_def quiet_def)
  define u where "u = r\<lparr>sp_state := ''rolled_back'', sp_version := sp_version r + 1, sp_actor_id := Some actor,
    sp_rollback_reason := Some reason, sp_updated_at_utc := isoformat (en_now env)\<rparr>"
  note ok = save_and_audit_ok [OF assms(1,3,10), of u "''rollback_action''" actor "sp_state r" "''rolled_back''"
      "Some reason" "sp_pre_action_snapshot r"]
  have "rollback_executed_action secret env db (sp_playbook_id r) actor reason (sp_version r) =
      (fst (save_and_audit secret env db u ''rollback_action'' actor (sp_state r) ''rolled_back'' (Some reason)
         (sp_pre_action_snapshot r)), Inr u)"
    unfolding rollback_executed_action_def g sum.case u_def [symmetric] by (rule prod_eqI) (simp_all add: ok(1))
  moreover have "sp_state u = ''rolled_back''" "sp_pre_action_snapshot u = sp_pre_action_snapshot r"
    by (simp_all add: u_def)
  ultimately show ?thesis using ok(2) by auto
qed

text \<open>An executor whose name was recorded with surrounding white space can never roll the action back,
  and neither can anyone else: the rollback compares the recorded name with the stripped name of the
  caller, while the execution records the name as given.\<close>

theorem padded_executor_never_rolls_back:
  assumes "r \<in> set (sd_records db)" "distinct (map sp_playbook_id (sd_records db))"
    and "sp_actor_id r = Some executor" "py_strip executor \<noteq> executor"
  shows "\<exists>e. rollback_executed_action secret env db (sp_playbook_id r) actor reason v = (db, Inl e)"
proof -
  have "fetchone (\<lambda>x. sp_playbook_id x = sp_playbook_id r) (sd_records db) = Some r"
    by (rule fetchone_key_unique [OF assms(2,1)])
  moreover have "executor \<noteq> py_strip actor" using assms(4) py_strip_idem by metis
  ultimately have "rollback_guard secret env db (sp_playbook_id r) actor reason v \<noteq> Inr x" for x
    using assms(3) by (auto simp: rollback_guard_def guarded_record_def get_record_def bindE_eq_Inr split: if_splits)
  then show ?thesis
    by (cases "rollback_guard secret env db (sp_playbook_id r) actor reason v") (auto simp: rollback_executed_action_def)
qed

section \<open>A sample run\<close>

definition sample_env :: "string \<Rightarrow> soar_env" where
  "sample_env hex = \<lparr>en_now = Datetime 2026 1 1 0 0 0 0, en_event_hex = hex, en_event_now = Datetime 2026 1 1 0 0 0 0,
     en_read_fault = No_fault, en_verify_fault = No_fault, en_save_fault = No_fault, en_audit_fault = No_fault\<rparr>"

abbreviation recommended_now :: soar_command where
  "recommended_now \<equiv> Recommend (sample_env ''1'') (sample_env ''2'') ''a'' ''b'' ''cand'' None (Some (Fin 0))"

abbreviation approved_now :: soar_command where
  "approved_now \<equiv> Decide (sample_env ''3'') ''soar:a'' ''bob'' ''approve'' ''seen'' 1"

abbreviation executed_now :: soar_command where
  "executed_now \<equiv> Execute (sample_env ''4'') ''soar:a'' ''bob'' 2"

abbreviation sample_pending :: soar_record where
  "sample_pending \<equiv> pending_record ''soar:a'' ''cand'' ''escalate_flow_anomaly_for_packet_inspection'' ''cand''
     (isoformat (Datetime 2026 1 1 0 0 0 0)) (Fin 0)"

lemma sample_env_quiet [simp]: "quiet (sample_env h)" "en_event_hex (sample_env h) = h" "en_read_fault (sample_env h) = No_fault"
  "en_now (sample_env h) = Datetime 2026 1 1 0 0 0 0"
  by (simp_all add: sample_env_def quiet_def)

lemma pending_record_fields [simp]:
  "sp_action_type (pending_record i c a t n q) = a" "sp_playbook_id (pending_record i c a t n q) = i"
  "q \<noteq> NaN \<Longrightarrow> stored_record (pending_record i c a t n q) = pending_record i c a t n q"
  by (simp_all add: pending_record_def stored_record_def real_column_def)

lemma sample_recommended:
  defines "db \<equiv> soar_run iso_utc ''k'' [recommended_now]"
  shows "sd_records db = [sample_pending]" "map se_event_id (sd_audit db) = [''soar_audit:1'']"
    "map se_playbook_id (sd_audit db) = [''soar:a'']"
proof -
  have f: "''soar_audit:'' @ en_event_hex (sample_env ''1'') \<notin> set (map se_event_id (sd_audit new_soar_db))"
    by (simp add: new_soar_db_def)
  note ok = save_and_audit_ok [OF _ sample_env_quiet(1) f, of "''k''"]
  have eq: "db = fst (save_and_audit ''k'' (sample_env ''1'') new_soar_db sample_pending ''recommend_action''
      ''system:recommendation_engine'' ''none'' ''pending_approval''
      (Some (''Recommended action '' @ ''escalate_flow_anomaly_for_packet_inspection'' @
        '' for candidate '' @ ''cand'')) None)"
    unfolding db_def
    by (simp add: recommend_actions_for_alert_def recommended_records_def Let_def split_beta ok(1) del: One_nat_def)
  show "sd_records db = [sample_pending]" unfolding eq by (subst ok(2)) (simp_all add: new_soar_db_def)
  show "map se_event_id (sd_audit db) = [''soar_audit:1'']"
    unfolding eq by (subst ok(3)) (simp_all add: new_soar_db_def)
  show "map se_playbook_id (sd_audit db) = [''soar:a'']"
    unfolding eq by (subst ok(4)) (simp_all add: new_soar_db_def)
qed

definition sample_approved :: soar_record where
  "sample_approved = sample_pending\<lparr>sp_state := ''approved'', sp_version := 2, sp_actor_id := Some ''bob'',
     sp_decision_reason := Some ''seen''\<rparr>"

lemma sample_decided:
  defines "db \<equiv> soar_run iso_utc ''k'' [recommended_now, approved_now]"
  shows "sd_records db = [sample_approved]" "map se_event_id (sd_audit db) = [''soar_audit:1'', ''soar_audit:3'']"
    "map se_playbook_id (sd_audit db) = [''soar:a'', ''soar:a'']"
proof -
  let ?db = "soar_run iso_utc ''k'' [recommended_now]"
  have f: "''soar_audit:'' @ en_event_hex (sample_env ''3'') \<notin> set (map se_event_id (sd_audit ?db))"
    unfolding sample_recommended by simp
  note ok = save_and_audit_ok [OF _ sample_env_quiet(1) f, of "''k''"]
  have g: "decide_guard (sample_env ''3'') ?db ''soar:a'' ''bob'' ''approve'' ''seen'' 1 = Inr sample_pending"
    unfolding decide_guard_def guarded_record_def get_record_def sample_recommended
    by (simp add: blank_def py_space_def pending_record_def)
  have eq: "db = fst (save_and_audit ''k'' (sample_env ''3'') ?db sample_approved (''analyst_'' @ ''approve'') ''bob''
      (sp_state sample_pending) ''approved'' (Some ''seen'') None)"
  proof -
    have "db = soar_step iso_utc ''k'' ?db approved_now" by (simp only: db_def foldl.simps)
    also have "\<dots> = fst (save_and_audit ''k'' (sample_env ''3'') ?db sample_approved (''analyst_'' @ ''approve'') ''bob''
        (sp_state sample_pending) ''approved'' (Some ''seen'') None)"
      unfolding soar_step.simps decide_recommendation_def g sum.case Let_def
      by (rule arg_cong [where f = fst]) (simp add: sample_approved_def pending_record_def)
    finally show ?thesis .
  qed
  have r: "stored_record sample_approved = sample_approved" "sp_playbook_id sample_approved = ''soar:a''"
    by (simp_all add: sample_approved_def stored_record_def pending_record_def real_column_def)
  show "sd_records db = [sample_approved]" unfolding eq by (subst ok(2)) (simp_all add: sample_recommended r del: foldl_Cons)
  show "map se_event_id (sd_audit db) = [''soar_audit:1'', ''soar_audit:3'']"
    unfolding eq by (subst ok(3)) (simp_all add: sample_recommended del: foldl_Cons)
  show "map se_playbook_id (sd_audit db) = [''soar:a'', ''soar:a'']"
    unfolding eq by (subst ok(4)) (simp_all add: sample_recommended r del: foldl_Cons)
qed

abbreviation sample_executed :: soar_record where
  "sample_executed \<equiv> sample_approved\<lparr>sp_state := ''executed_simulated'', sp_version := sp_version sample_approved + 1,
     sp_actor_id := Some ''bob'',
     sp_pre_action_snapshot := Some (json_dumps_plain no_float
       (pre_snapshot sample_approved (isoformat (Datetime 2026 1 1 0 0 0 0)))),
     sp_execution_evidence := Some (json_dumps_plain no_float
       (execution_evidence sample_approved ''bob'' (isoformat (Datetime 2026 1 1 0 0 0 0)))),
     sp_updated_at_utc := isoformat (Datetime 2026 1 1 0 0 0 0)\<rparr>"

lemma sample_execution:
  defines "db \<equiv> soar_run iso_utc ''k'' [recommended_now, approved_now]"
    and "db' \<equiv> soar_run iso_utc ''k'' [recommended_now, approved_now, executed_now]"
  shows "execute_approved_action ''k'' (sample_env ''4'') db ''soar:a'' ''bob'' 2 = (db', Inr sample_executed)"
    "sd_records db' = [sample_executed]"
    "map se_event_id (sd_audit db') = [''soar_audit:1'', ''soar_audit:3'', ''soar_audit:4'']"
    "map se_playbook_id (sd_audit db') = [''soar:a'', ''soar:a'', ''soar:a'']"
proof -
  note rec = sample_decided [folded db_def]
  have f: "''soar_audit:'' @ en_event_hex (sample_env ''4'') \<notin> set (map se_event_id (sd_audit db))"
    unfolding rec by simp
  note ok = save_and_audit_ok [OF _ sample_env_quiet(1) f, of "''k''"]
  have a: "sp_playbook_id sample_approved = ''soar:a''" "sp_state sample_approved = ''approved''"
    "sp_version sample_approved = 2"
    by (simp_all add: sample_approved_def pending_record_def)
  have g: "execute_guard (sample_env ''4'') db ''soar:a'' ''bob'' 2 = Inr sample_approved"
    unfolding execute_guard_def guarded_record_def get_record_def rec
    by (simp add: blank_def py_space_def a)
  define x where "x = save_and_audit ''k'' (sample_env ''4'') db sample_executed ''execute_simulated_action'' ''bob''
      (sp_state sample_approved) ''executed_simulated''
      (Some (''Executed simulated containment for target '' @ sp_target_entity sample_approved))
      (Some (json_dumps_plain no_float (pre_snapshot sample_approved (isoformat (Datetime 2026 1 1 0 0 0 0)))))"
  have ex: "execute_approved_action ''k'' (sample_env ''4'') db ''soar:a'' ''bob'' 2 = x"
    unfolding execute_approved_action_def g sum.case Let_def x_def sample_env_quiet(4) by (rule refl)
  have "db' = soar_step iso_utc ''k'' db executed_now" by (simp only: db_def db'_def foldl.simps)
  then have d: "db' = fst x" unfolding soar_step.simps ex .
  have "snd x = Inr sample_executed" unfolding x_def by (rule ok(1)) simp
  then show "execute_approved_action ''k'' (sample_env ''4'') db ''soar:a'' ''bob'' 2 = (db', Inr sample_executed)"
    unfolding ex d by (simp add: prod_eq_iff)
  have st: "stored_record sample_executed = sample_executed"
    by (simp add: stored_record_def sample_approved_def pending_record_def real_column_def)
  show "sd_records db' = [sample_executed]"
    unfolding d x_def by (subst ok(2)) (simp, simp only: rec st, simp add: a)
  show "map se_event_id (sd_audit db') = [''soar_audit:1'', ''soar_audit:3'', ''soar_audit:4'']"
    unfolding d x_def by (subst ok(3)) (simp, simp only: rec, simp)
  show "map se_playbook_id (sd_audit db') = [''soar:a'', ''soar:a'', ''soar:a'']"
    unfolding d x_def by (subst ok(4)) (simp, simp only: rec, simp add: a)
qed

theorem soar_chain_verifies_witness:
  "\<exists>m. verify_audit_chain_integrity ''k'' No_fault (soar_run iso_utc ''k'' [recommended_now, approved_now, executed_now])
     (Some ''soar:a'') True = Inr (True, m)"
  by (rule soar_chain_verifies) (simp, simp only: sample_execution(4), simp)

theorem execution_needs_approval_witness:
  "list_ex (approves ''soar:a'') [recommended_now, approved_now] \<and> \<not> blank ''bob''"
  by (rule execution_needs_approval [OF sample_execution(1)])

theorem version_used_once_witness:
  "let later = soar_run iso_utc ''k'' [recommended_now, approved_now, executed_now] in
   soar_step iso_utc ''k'' later (Decide (sample_env ''5'') ''soar:a'' ''eve'' ''reject'' ''no'' 1) = later"
proof -
  let ?db = "soar_run iso_utc ''k'' [recommended_now]"
  have step: "soar_step iso_utc ''k'' ?db approved_now = soar_run iso_utc ''k'' [recommended_now, approved_now]"
    "foldl (soar_step iso_utc ''k'') (soar_step iso_utc ''k'' ?db approved_now) [executed_now] =
      soar_run iso_utc ''k'' [recommended_now, approved_now, executed_now]" by (simp_all only: foldl.simps)
  have "sd_records (soar_step iso_utc ''k'' ?db approved_now) \<noteq> sd_records ?db"
    unfolding step(1) sample_decided sample_recommended by (simp add: sample_approved_def pending_record_def)
  from version_used_once [OF _ _ this, of "''soar:a''" 1 "Decide (sample_env ''5'') ''soar:a'' ''eve'' ''reject'' ''no'' 1"
      "[executed_now]"]
  show ?thesis unfolding step(2) by (simp add: uses_version_def recommends_def)
qed

theorem overlapping_decisions_witness:
  "\<exists>db1 u db2 u'. decide_save ''k'' (sample_env ''3'') (soar_run iso_utc ''k'' [recommended_now]) ''bob'' ''approve'' ''seen''
      sample_pending = (db1, Inr u) \<and>
    decide_save ''k'' (sample_env ''4'') db1 ''eve'' ''reject'' ''no'' sample_pending = (db2, Inr u') \<and>
    sp_version u = 2 \<and> sp_version u' = 2 \<and> sp_state u \<noteq> sp_state u'"
proof -
  let ?db = "soar_run iso_utc ''k'' [recommended_now]"
  have g: "decide_guard (sample_env h) ?db ''soar:a'' (c # a) d (x # y) 1 = Inr sample_pending"
    if "\<not> py_space c" "\<not> py_space x" "d = ''approve'' \<or> d = ''reject''" for h c a d x y
    unfolding decide_guard_def guarded_record_def get_record_def sample_recommended
    using that by (auto simp: blank_def pending_record_def)
  have "decide_guard (sample_env ''3'') ?db ''soar:a'' ''bob'' ''approve'' ''seen'' 1 = Inr sample_pending"
    "decide_guard (sample_env ''4'') ?db ''soar:a'' ''eve'' ''reject'' ''no'' 1 = Inr sample_pending"
    by (rule g; simp add: py_space_def)+
  from overlapping_decisions [OF _ _ _ _ _ this] show ?thesis unfolding sample_recommended by fastforce
qed

theorem executed_can_be_rolled_back_witness:
  "\<exists>db' r'. rollback_executed_action ''k'' (sample_env ''5'')
      (soar_run iso_utc ''k'' [recommended_now, approved_now, executed_now])
      (sp_playbook_id sample_executed) ''bob'' ''done'' (sp_version sample_executed) = (db', Inr r') \<and>
    sp_state r' = ''rolled_back'' \<and> sp_pre_action_snapshot r' = sp_pre_action_snapshot sample_executed \<and>
    stored_record r' \<in> set (sd_records db')"
proof (rule executed_can_be_rolled_back [OF _ refl])
  show "sample_executed \<in> set (sd_records (soar_run iso_utc ''k'' [recommended_now, approved_now, executed_now]))"
    unfolding sample_execution by simp
  show "sp_playbook_id sample_executed \<in>
      set (map se_playbook_id (sd_audit (soar_run iso_utc ''k'' [recommended_now, approved_now, executed_now])))"
    unfolding sample_execution by (simp add: sample_approved_def pending_record_def)
  show "''soar_audit:'' @ en_event_hex (sample_env ''5'') \<notin>
      set (map se_event_id (sd_audit (soar_run iso_utc ''k'' [recommended_now, approved_now, executed_now])))"
    unfolding sample_execution by simp
  show "py_strip ''bob'' = ''bob''" "\<not> blank ''done''" by code_simp+
qed simp_all

theorem padded_executor_never_rolls_back_witness:
  "\<exists>e. rollback_executed_action ''k'' (sample_env ''5'')
    (new_soar_db\<lparr>sd_records := [sample_executed\<lparr>sp_actor_id := Some '' bob''\<rparr>]\<rparr>)
    (sp_playbook_id (sample_executed\<lparr>sp_actor_id := Some '' bob''\<rparr>)) '' bob'' ''late'' 3 =
    (new_soar_db\<lparr>sd_records := [sample_executed\<lparr>sp_actor_id := Some '' bob''\<rparr>]\<rparr>, Inl e)"
proof (rule padded_executor_never_rolls_back)
  show "py_strip '' bob'' \<noteq> '' bob''" by code_simp
qed simp_all

text \<open>Saving a decision and logging it are two transactions: when the second fails, the approval stands
  although no event of it was logged, and the approved action can then be executed.\<close>

theorem unlogged_approval_stands:
  assumes "secret \<noteq> []" "decide_guard env db p actor ''approve'' reason v = Inr r"
    and "en_save_fault env = No_fault" "en_audit_fault env \<noteq> No_fault"
  shows "\<exists>db'. decide_recommendation secret env db p actor ''approve'' reason v = (db', Inl Sqlite_raised) \<and>
    sd_audit db' = sd_audit db \<and>
    (\<exists>r'. fetchone (\<lambda>x. sp_playbook_id x = p) (sd_records db') = Some r' \<and> sp_state r' = ''approved'')"
proof -
  have p: "sp_playbook_id r = p" using assms(2) by (auto simp: decide_guard_def bindE_eq_Inr dest: guarded_record_InrD)
  have n: "fetchone (\<lambda>x. sp_playbook_id x = p) (filter (\<lambda>x. sp_playbook_id x \<noteq> p) xs) = None" for xs
    by (simp add: fetchone_None_iff)
  show ?thesis
    using assms by (simp add: decide_recommendation_def save_and_audit_def save_record_def append_audit_event_def
        Let_def fetchone_append p n stored_record_def)
qed

end
