(* ===== verification/Correlation.thy ===== *)
theory Correlation
  imports Provenance AlertStore
begin

text \<open>
  The dual-window correlation of \<^verbatim>\<open>alerts/correlation_engine.py\<close>: deduplication,
  provenance gating, the 30-second burst window over equal 5-tuples, the 10-minute campaign
  window over endpoint pairs, and the retention check that closes every correlation.  The
  time of the run, the ISO parser and the printer of floats are arguments.
\<close>

section \<open>Data\<close>

definition BURST_WINDOW_SECONDS :: rat where "BURST_WINDOW_SECONDS = 30"
definition CAMPAIGN_WINDOW_SECONDS :: rat where "CAMPAIGN_WINDOW_SECONDS = 600"

abbreviation INCIDENT_SCHEMA_VERSION :: string where "INCIDENT_SCHEMA_VERSION \<equiv> ''incident_record_v1''"
abbreviation ALERT_REDUCTION_SCHEMA_VERSION :: string where
  "ALERT_REDUCTION_SCHEMA_VERSION \<equiv> ''alert_reduction_summary_v1''"

datatype correlation_error = Correlation_safety_error string

definition derive_incident_id :: "string \<Rightarrow> string list \<Rightarrow> string" where
  "derive_incident_id correlation_rule_id constituent_alert_ids = ''incident_v1:'' @
     identity_digest ''threatfusion:incident''
       (INCIDENT_SCHEMA_VERSION # correlation_rule_id # sort constituent_alert_ids)"

text \<open>An input is a candidate, alone or coupled with its provenance (\<^verbatim>\<open>CorrelatableAlert\<close>).\<close>

datatype alert_input = Plain_alert alert_candidate | Correlatable_alert alert_candidate "provenance option"

fun input_candidate :: "alert_input \<Rightarrow> alert_candidate" where
  "input_candidate (Plain_alert c) = c"
| "input_candidate (Correlatable_alert c p) = c"

record member_justification =
  mj_anchor_alert_id :: string
  mj_delta_seconds :: pyfloat
  mj_matched_relationship_key :: string
  mj_rule_id :: string
  mj_provenance_summary :: string

record incident =
  in_schema_version :: string
  in_incident_id :: string
  in_correlation_mode :: string
  in_window_type :: string
  in_correlation_rule_id :: string
  in_entity_namespace_id :: "string option"
  in_constituent_alert_ids :: "string list"
  in_constituent_alert_count :: int
  in_max_probability_score :: pyfloat
  in_escalated_decision :: string
  in_earliest_observed_at :: string
  in_latest_observed_at :: string
  in_provenance_status :: string
  in_created_at :: string
  in_member_justifications :: "(string \<times> member_justification) list"
  in_t_flow_ingest :: "pyfloat option"
  in_t_rag_grounded :: "pyfloat option"
  in_t_investigation :: "pyfloat option"

record reduction_summary =
  rs_schema_version :: string
  rs_total_alerts :: nat
  rs_total_incidents :: nat
  rs_reduction_ratio :: rat
  rs_critical_alerts_input :: nat
  rs_critical_alerts_retained :: nat
  rs_critical_retention_ratio :: rat

text \<open>A normalized item: the candidate, its provenance and its time.\<close>

type_synonym item = "alert_candidate \<times> provenance \<times> rat"

abbreviation item_id :: "item \<Rightarrow> string" where "item_id it \<equiv> ac_alert_candidate_id (fst it)"
abbreviation item_prov :: "item \<Rightarrow> provenance" where "item_prov it \<equiv> fst (snd it)"
abbreviation item_time :: "item \<Rightarrow> rat" where "item_time it \<equiv> snd (snd it)"

section \<open>Metrics\<close>

definition is_critical_alert :: "alert_candidate \<Rightarrow> bool" where
  "is_critical_alert c \<longleftrightarrow> ac_decision c = ''Attack'' \<or> fl_le (ac_threshold c) (ac_score c)"

text \<open>The loops that keep the first element of every identifier.\<close>

fun dedupe :: "('a \<Rightarrow> string) \<Rightarrow> string list \<Rightarrow> 'a list \<Rightarrow> 'a list" where
  "dedupe k seen [] = []"
| "dedupe k seen (x # xs) =
     (if k x \<in> set seen then dedupe k seen xs else x # dedupe k (k x # seen) xs)"

fun check_incidents :: "alert_candidate list \<Rightarrow> incident list \<Rightarrow> nat \<Rightarrow> correlation_error + nat" where
  "check_incidents cands [] retained = Inr retained"
| "check_incidents cands (inc # incs) retained =
     (let constituents = filter (\<lambda>c. ac_alert_candidate_id c \<in> set (in_constituent_alert_ids inc)) cands;
          critical = length (filter is_critical_alert constituents)
      in if list_ex is_critical_alert constituents then
           (if in_escalated_decision inc \<noteq> ''Attack''
            then Inl (Correlation_safety_error ''critical_decision_downgraded'')
            else check_incidents cands incs (retained + critical))
         else check_incidents cands incs retained)"

definition compute_alert_reduction_metrics ::
  "alert_input list \<Rightarrow> incident list \<Rightarrow> correlation_error + reduction_summary" where
  "compute_alert_reduction_metrics alerts incidents =
     (let unique_candidates = dedupe ac_alert_candidate_id [] (map input_candidate alerts);
          total_alerts = length unique_candidates; total_incidents = length incidents
      in if total_alerts = 0 then
        Inr \<lparr>rs_schema_version = ALERT_REDUCTION_SCHEMA_VERSION, rs_total_alerts = 0, rs_total_incidents = 0,
             rs_reduction_ratio = 0, rs_critical_alerts_input = 0, rs_critical_alerts_retained = 0,
             rs_critical_retention_ratio = 1\<rparr>
      else let assigned = concat (map in_constituent_alert_ids incidents) in
      if \<not> distinct assigned then Inl (Correlation_safety_error ''duplicate_alert_assignment'')
      else if set assigned \<noteq> set (map ac_alert_candidate_id unique_candidates) then
        Inl (Correlation_safety_error ''critical_alert_dropped'')
      else let critical_input = length (filter is_critical_alert unique_candidates) in
      bindE (check_incidents unique_candidates incidents 0) (\<lambda>retained.
        if 0 < critical_input \<and> retained \<noteq> critical_input then
          Inl (Correlation_safety_error ''critical_alert_dropped'')
        else Inr \<lparr>rs_schema_version = ALERT_REDUCTION_SCHEMA_VERSION, rs_total_alerts = total_alerts,
             rs_total_incidents = total_incidents,
             rs_reduction_ratio = nearest53 (1 - nearest53 (rat_of_nat total_incidents / rat_of_nat total_alerts)),
             rs_critical_alerts_input = critical_input, rs_critical_alerts_retained = retained,
             rs_critical_retention_ratio = 1\<rparr>))"

section \<open>Building incidents\<close>

definition parse_timestamp_of :: "iso_parser \<Rightarrow> alert_candidate \<Rightarrow> provenance \<Rightarrow> rat" where
  "parse_timestamp_of rd c p =
     (let text = or_empty (pv_observed_at_utc p) in
      if text = [] then timestamp (ac_observed_at c)
      else case parse_instant rd text of
          Some n \<Rightarrow> micros_timestamp n | None \<Rightarrow> timestamp (ac_observed_at c))"

definition normalize ::
  "iso_parser \<Rightarrow> (string \<Rightarrow> provenance option) \<Rightarrow> alert_input \<Rightarrow> item" where
  "normalize rd provenance_map a =
     (let c = input_candidate a;
          found = provenance_map (ac_alert_candidate_id c);
          p = (case (case a of Correlatable_alert _ (Some q) \<Rightarrow> Some q | _ \<Rightarrow> found) of
                 Some q \<Rightarrow> q | None \<Rightarrow> default_provenance)
      in (c, p, parse_timestamp_of rd c p))"

definition py_opt :: "string option \<Rightarrow> string" where
  "py_opt v = (case v of None \<Rightarrow> ''None'' | Some s \<Rightarrow> s)"

definition py_max :: "pyfloat list \<Rightarrow> pyfloat" where
  "py_max xs = foldl (\<lambda>m x. if fl_less m x then x else m) (hd xs) (tl xs)"

definition status_label :: "string \<Rightarrow> string" where
  "status_label reason =
     (if reason \<in> set [''missing_entity_namespace'', ''clock_not_synchronized'', ''missing_src_entity_id'',
          ''missing_dst_entity_id''] then ''unverified_provenance'' else reason)"

definition singleton_incident ::
  "string \<Rightarrow> string \<Rightarrow> string \<Rightarrow> string \<Rightarrow> string option \<Rightarrow> string \<Rightarrow> string \<Rightarrow> alert_candidate \<Rightarrow> incident" where
  "singleton_incident now_iso mode rule relation ns status summary c =
     \<lparr>in_schema_version = INCIDENT_SCHEMA_VERSION,
      in_incident_id = derive_incident_id rule [ac_alert_candidate_id c],
      in_correlation_mode = mode, in_window_type = ''none'', in_correlation_rule_id = rule,
      in_entity_namespace_id = ns, in_constituent_alert_ids = [ac_alert_candidate_id c],
      in_constituent_alert_count = 1, in_max_probability_score = ac_score c,
      in_escalated_decision = ac_decision c, in_earliest_observed_at = isoformat (ac_observed_at c),
      in_latest_observed_at = isoformat (ac_observed_at c), in_provenance_status = status,
      in_created_at = now_iso,
      in_member_justifications = [(ac_alert_candidate_id c,
        \<lparr>mj_anchor_alert_id = ac_alert_candidate_id c, mj_delta_seconds = Fin 0,
         mj_matched_relationship_key = relation, mj_rule_id = rule, mj_provenance_summary = summary\<rparr>)],
      in_t_flow_ingest = None, in_t_rag_grounded = None, in_t_investigation = None\<rparr>"

definition unverified_incident :: "iso_parser \<Rightarrow> string \<Rightarrow> item \<Rightarrow> incident" where
  "unverified_incident rd now_iso it =
     (let reason = (case verification_rejection_reason rd (item_prov it) of
          Some r \<Rightarrow> r | None \<Rightarrow> ''unverified_provenance'')
      in singleton_incident now_iso ''singleton_unverified_provenance''
           ''corr_singleton_unverified_provenance_v1'' ''none'' None (status_label reason) reason (fst it))"

definition verified_singleton :: "string \<Rightarrow> string \<Rightarrow> item \<Rightarrow> incident" where
  "verified_singleton now_iso ns it = singleton_incident now_iso ''singleton_verified_provenance''
     ''corr_singleton_verified_v1'' ''singleton_verified'' (Some ns) ''verified_entity_bearing''
     (''namespace='' @ ns @ '',clock_synchronized=True'') (fst it)"

text \<open>An incident of a window cluster, whose first item is the anchor.\<close>

definition cluster_incident ::
  "(pyfloat \<Rightarrow> string) \<Rightarrow> string \<Rightarrow> string \<Rightarrow> string \<Rightarrow> string \<Rightarrow> (item \<Rightarrow> string) \<Rightarrow> string \<Rightarrow> item list \<Rightarrow> incident" where
  "cluster_incident frepr now_iso mode window rule relation ns cluster =
     (let cands = map fst cluster; ids = map item_id cluster; anchor = hd cluster;
          stamps = map (\<lambda>c. isoformat (ac_observed_at c)) cands in
     \<lparr>in_schema_version = INCIDENT_SCHEMA_VERSION, in_incident_id = derive_incident_id rule ids,
      in_correlation_mode = mode, in_window_type = window, in_correlation_rule_id = rule,
      in_entity_namespace_id = Some ns, in_constituent_alert_ids = ids,
      in_constituent_alert_count = int (length ids),
      in_max_probability_score = py_max (map ac_score cands),
      in_escalated_decision = (if list_ex (\<lambda>c. ac_decision c = ''Attack'') cands then ''Attack''
        else ac_decision (hd cands)),
      in_earliest_observed_at = foldl min (hd stamps) (tl stamps),
      in_latest_observed_at = foldl max (hd stamps) (tl stamps),
      in_provenance_status = ''verified_entity_bearing'', in_created_at = now_iso,
      in_member_justifications = map (\<lambda>it. (item_id it,
        \<lparr>mj_anchor_alert_id = item_id anchor,
         mj_delta_seconds = round6 (fl_sub (Fin (item_time it)) (Fin (item_time anchor))),
         mj_matched_relationship_key = relation it, mj_rule_id = rule,
         mj_provenance_summary = ''namespace='' @ ns @ '',clock_synchronized=True,skew='' @
           frepr (pv_max_clock_skew_seconds (item_prov it)) @ ''s''\<rparr>)) cluster,
      in_t_flow_ingest = None, in_t_rag_grounded = None, in_t_investigation = None\<rparr>)"

definition five_tuple_text :: "item \<Rightarrow> string" where
  "five_tuple_text it = (let p = item_prov it in py_opt (pv_src_entity_id p) @ '':'' @
     py_opt (pv_dst_entity_id p) @ '':'' @ py_opt (pv_protocol p) @ '':'' @ py_opt (pv_service_or_port p))"

definition pair_text :: "item \<Rightarrow> string" where
  "pair_text it = (let p = item_prov it; ep = sort [or_empty (pv_src_entity_id p), or_empty (pv_dst_entity_id p)]
     in ep ! 0 @ ''<->'' @ ep ! 1)"

definition burst_incident :: "(pyfloat \<Rightarrow> string) \<Rightarrow> string \<Rightarrow> string \<Rightarrow> item list \<Rightarrow> incident" where
  "burst_incident frepr now_iso = cluster_incident frepr now_iso ''burst_correlated'' ''burst_30s''
     ''corr_burst_5tuple_30s_v1'' five_tuple_text"

definition campaign_incident :: "(pyfloat \<Rightarrow> string) \<Rightarrow> string \<Rightarrow> string \<Rightarrow> item list \<Rightarrow> incident" where
  "campaign_incident frepr now_iso = cluster_incident frepr now_iso ''campaign_correlated'' ''campaign_600s''
     ''corr_campaign_entity_pair_600s_v1'' pair_text"

section \<open>Windows and groups\<close>

text \<open>
  The scan of a window: an item within the window of the anchor joins the current cluster,
  any other flushes it and becomes the next anchor.
\<close>

fun cluster_loop :: "rat \<Rightarrow> rat \<Rightarrow> item list \<Rightarrow> item list \<Rightarrow> item list list" where
  "cluster_loop window anchor_t current [] = [current]"
| "cluster_loop window anchor_t current (it # its) =
     (if nearest53 (item_time it - anchor_t) \<le> window then cluster_loop window anchor_t (current @ [it]) its
      else current # cluster_loop window (item_time it) [it] its)"

fun window_clusters :: "rat \<Rightarrow> item list \<Rightarrow> item list list" where
  "window_clusters window [] = []"
| "window_clusters window (it # its) = cluster_loop window (item_time it) [it] its"

text \<open>A \<^verbatim>\<open>defaultdict(list)\<close> filled in order: keys in order of first use.\<close>

fun dict_append :: "'k \<Rightarrow> 'v \<Rightarrow> ('k \<times> 'v list) list \<Rightarrow> ('k \<times> 'v list) list" where
  "dict_append k v [] = [(k, [v])]"
| "dict_append k v ((q, vs) # d) = (if q = k then (q, vs @ [v]) # d else (q, vs) # dict_append k v d)"

definition group_by :: "('v \<Rightarrow> 'k) \<Rightarrow> 'v list \<Rightarrow> ('k \<times> 'v list) list" where
  "group_by k xs = foldl (\<lambda>d x. dict_append (k x) x d) [] xs"

definition chrono_key :: "item \<Rightarrow> rat \<times> string" where
  "chrono_key it = (item_time it, item_id it)"

definition five_tuple :: "item \<Rightarrow> string \<times> string \<times> string \<times> string" where
  "five_tuple it = (let p = item_prov it in (or_empty (pv_src_entity_id p), or_empty (pv_dst_entity_id p),
     py_lower (or_empty (pv_protocol p)), py_lower (or_empty (pv_service_or_port p))))"

definition pair_key :: "item \<Rightarrow> string set" where
  "pair_key it = {or_empty (pv_src_entity_id (item_prov it)), or_empty (pv_dst_entity_id (item_prov it))}"

text \<open>
  Pass 1 yields the burst clusters of every 5-tuple and leaves the clusters of one item;
  pass 2 clusters what is left by endpoint pair, every cluster becoming an incident.
\<close>

definition burst_clusters :: "item list \<Rightarrow> item list list" where
  "burst_clusters ns_items = concat (map (\<lambda>(_, g). window_clusters BURST_WINDOW_SECONDS (sort_key chrono_key g))
     (group_by five_tuple ns_items))"

definition campaign_clusters :: "item list \<Rightarrow> item list list" where
  "campaign_clusters unclustered = concat (map (\<lambda>(_, g). window_clusters CAMPAIGN_WINDOW_SECONDS (sort_key chrono_key g))
     (group_by pair_key unclustered))"

definition campaign_or_single :: "(pyfloat \<Rightarrow> string) \<Rightarrow> string \<Rightarrow> string \<Rightarrow> item list \<Rightarrow> incident" where
  "campaign_or_single frepr now_iso ns cluster =
     (if 2 \<le> length cluster then campaign_incident frepr now_iso ns cluster
      else verified_singleton now_iso ns (hd cluster))"

definition namespace_incidents ::
  "(pyfloat \<Rightarrow> string) \<Rightarrow> string \<Rightarrow> string \<Rightarrow> item list \<Rightarrow> incident list" where
  "namespace_incidents frepr now_iso ns ns_items =
     (let clusters = burst_clusters (sort_key chrono_key ns_items);
          unclustered = concat (filter (\<lambda>c. length c < 2) clusters)
      in map (burst_incident frepr now_iso ns) (filter (\<lambda>c. 2 \<le> length c) clusters) @
         map (campaign_or_single frepr now_iso ns) (campaign_clusters unclustered))"

definition incident_order :: "incident \<Rightarrow> string \<times> string" where
  "incident_order i = (in_earliest_observed_at i, in_incident_id i)"

definition correlate_alert_candidates ::
  "iso_parser \<Rightarrow> (pyfloat \<Rightarrow> string) \<Rightarrow> datetime \<Rightarrow> alert_input list \<Rightarrow> (string \<Rightarrow> provenance option) \<Rightarrow>
     correlation_error + incident list \<times> reduction_summary" where
  "correlate_alert_candidates rd frepr now alerts provenance_map =
     (if alerts = [] then bindE (compute_alert_reduction_metrics [] []) (\<lambda>summary. Inr ([], summary))
      else let deduped_alerts = dedupe (ac_alert_candidate_id \<circ> input_candidate) [] alerts;
          items = map (normalize rd provenance_map) deduped_alerts;
          now_iso = isoformat now;
          unverified_items = filter (\<lambda>it. \<not> is_verified rd (item_prov it)) items;
          verified_items = filter (\<lambda>it. is_verified rd (item_prov it)) items;
          incidents_list = map (unverified_incident rd now_iso) unverified_items @
            concat (map (\<lambda>(ns, ns_items). namespace_incidents frepr now_iso ns ns_items)
              (group_by (\<lambda>it. or_empty (pv_entity_namespace_id (item_prov it))) verified_items));
          incidents = sort_key incident_order incidents_list
      in bindE (compute_alert_reduction_metrics deduped_alerts incidents) (\<lambda>summary.
           Inr (incidents, summary)))"

end
