(* ===== verification/IncidentStore.thy ===== *)
theory IncidentStore
  imports Correlation
begin

text \<open>
  The incident repository of \<^verbatim>\<open>alerts/correlation_engine.py\<close> and the engine that writes to
  it.  The store is a record of its three tables.  A row of \<^verbatim>\<open>incidents\<close> is an incident
  without its constituents; the justification column of a constituent is represented by the
  justification it encodes (absent for the text \<^verbatim>\<open>{}\<close>).  A query that the code ends with
  \<^verbatim>\<open>fetchone()\<close> and no order yields the first row in rowid order.
\<close>

datatype incident_error = Ie_safety string | Ie_sqlite | Ie_correlation correlation_error

record correction =
  co_correction_request_id :: string
  co_alert_candidate_id :: string
  co_original_incident_id :: string
  co_target_incident_id :: string
  co_actor_id :: string
  co_reason :: string
  co_created_at :: string

record constituent =
  cn_incident_id :: string
  cn_alert_candidate_id :: string
  cn_member_justification :: "member_justification option"

record incident_db =
  ib_incidents :: "incident list"
  ib_constituents :: "constituent list"
  ib_corrections :: "correction list"

definition new_incident_db :: incident_db where
  "new_incident_db = \<lparr>ib_incidents = [], ib_constituents = [], ib_corrections = []\<rparr>"

section \<open>Inserting\<close>

definition incident_columns :: "incident \<Rightarrow> incident" where
  "incident_columns inc = inc\<lparr>in_constituent_alert_ids := [], in_member_justifications := [],
     in_t_flow_ingest := real_column (in_t_flow_ingest inc),
     in_t_rag_grounded := real_column (in_t_rag_grounded inc),
     in_t_investigation := real_column (in_t_investigation inc)\<rparr>"

definition constituents_of :: "incident \<Rightarrow> constituent list" where
  "constituents_of inc = map (\<lambda>aid. \<lparr>cn_incident_id = in_incident_id inc, cn_alert_candidate_id = aid,
     cn_member_justification = map_of (in_member_justifications inc) aid\<rparr>) (in_constituent_alert_ids inc)"

text \<open>
  The statements for one incident inside a transaction: a known identifier is left alone; the
  primary key of the constituents refuses a repeated alert, the NOT NULL score a NaN.
\<close>

definition insert_incident_body :: "incident_db \<Rightarrow> incident \<Rightarrow> incident_error + incident_db" where
  "insert_incident_body db inc =
     (if list_ex (\<lambda>r. in_incident_id r = in_incident_id inc) (ib_incidents db) then Inr db
      else if in_max_probability_score inc = NaN then Inl Ie_sqlite
      else if \<not> distinct (map (\<lambda>c. (cn_incident_id c, cn_alert_candidate_id c))
                 (ib_constituents db @ constituents_of inc)) then Inl Ie_sqlite
      else Inr (db\<lparr>ib_incidents := ib_incidents db @ [incident_columns inc],
                   ib_constituents := ib_constituents db @ constituents_of inc\<rparr>))"

text \<open>A transaction: a raised error leaves the store as it was.\<close>

definition in_transaction ::
  "sqlite_fault \<Rightarrow> incident_db \<Rightarrow> incident_error + incident_db \<times> 'a \<Rightarrow> incident_db \<times> (incident_error + 'a)" where
  "in_transaction fault db body = (if fault \<noteq> No_fault then (db, Inl Ie_sqlite)
     else case body of Inl e \<Rightarrow> (db, Inl e) | Inr (db', x) \<Rightarrow> (db', Inr x))"

definition insert_incident ::
  "sqlite_fault \<Rightarrow> incident_db \<Rightarrow> incident \<Rightarrow> incident_db \<times> (incident_error + unit)" where
  "insert_incident fault db inc =
     in_transaction fault db (bindE (insert_incident_body db inc) (\<lambda>db'. Inr (db', ())))"

fun insert_many_body :: "incident_db \<Rightarrow> incident list \<Rightarrow> incident_error + incident_db" where
  "insert_many_body db [] = Inr db"
| "insert_many_body db (inc # incs) = bindE (insert_incident_body db inc) (\<lambda>db'. insert_many_body db' incs)"

definition insert_many ::
  "sqlite_fault \<Rightarrow> incident_db \<Rightarrow> incident list \<Rightarrow> incident_db \<times> (incident_error + unit)" where
  "insert_many fault db incs =
     in_transaction fault db (bindE (insert_many_body db incs) (\<lambda>db'. Inr (db', ())))"

section \<open>Reading\<close>

definition incident_of_row :: "incident_db \<Rightarrow> incident \<Rightarrow> incident" where
  "incident_of_row db row =
     (let cs = sort_key cn_alert_candidate_id (select_where (\<lambda>c. cn_incident_id c = in_incident_id row) (ib_constituents db))
      in row\<lparr>in_constituent_alert_ids := map cn_alert_candidate_id cs,
             in_member_justifications := concat (map (\<lambda>c. case cn_member_justification c of
                None \<Rightarrow> [] | Some j \<Rightarrow> [(cn_alert_candidate_id c, j)]) cs)\<rparr>)"

definition get_incident :: "sqlite_fault \<Rightarrow> incident_db \<Rightarrow> string \<Rightarrow> incident_error + incident option" where
  "get_incident fault db incident_id =
     (if fault \<noteq> No_fault then Inl Ie_sqlite
      else Inr (map_option (incident_of_row db) (fetchone (\<lambda>r. in_incident_id r = incident_id) (ib_incidents db))))"

text \<open>The join of a constituent with its incident, in the order of the constituents.\<close>

definition incident_row_for_alert :: "incident_db \<Rightarrow> string \<Rightarrow> incident option" where
  "incident_row_for_alert db aid =
     (case fetchone (\<lambda>c. cn_alert_candidate_id c = aid \<and>
          list_ex (\<lambda>r. in_incident_id r = cn_incident_id c) (ib_incidents db)) (ib_constituents db) of
        None \<Rightarrow> None
      | Some c \<Rightarrow> fetchone (\<lambda>r. in_incident_id r = cn_incident_id c) (ib_incidents db))"

definition get_incident_for_alert :: "sqlite_fault \<Rightarrow> incident_db \<Rightarrow> string \<Rightarrow> incident_error + incident option" where
  "get_incident_for_alert fault db aid =
     (if fault \<noteq> No_fault then Inl Ie_sqlite
      else Inr (map_option (incident_of_row db) (incident_row_for_alert db aid)))"

text \<open>ORDER BY earliest_observed_at DESC, incident_id ASC LIMIT OFFSET; a negative limit is none.\<close>

definition newest_first :: "incident list \<Rightarrow> incident list" where
  "newest_first rows = rev (sort_key in_earliest_observed_at (rev (sort_key in_incident_id rows)))"

definition list_incidents :: "sqlite_fault \<Rightarrow> incident_db \<Rightarrow> int \<Rightarrow> int \<Rightarrow> incident_error + incident list" where
  "list_incidents fault db limit offset =
     (if fault \<noteq> No_fault then Inl Ie_sqlite
      else let rows = drop (nat offset) (newest_first (ib_incidents db)) in
        Inr (map (\<lambda>r. (incident_of_row db r)\<lparr>in_t_flow_ingest := None, in_t_rag_grounded := None,
               in_t_investigation := None\<rparr>)
             (if limit < 0 then rows else take (nat limit) rows)))"

definition count_incidents :: "sqlite_fault \<Rightarrow> incident_db \<Rightarrow> incident_error + nat" where
  "count_incidents fault db = (if fault \<noteq> No_fault then Inl Ie_sqlite else Inr (length (ib_incidents db)))"

section \<open>Telemetry\<close>

definition record_investigation_telemetry ::
  "sqlite_fault \<Rightarrow> incident_db \<Rightarrow> string \<Rightarrow> pyfloat \<Rightarrow> pyfloat \<Rightarrow> pyfloat option \<Rightarrow>
     incident_db \<times> (incident_error + pyfloat)" where
  "record_investigation_telemetry fault db incident_id t_flow_ingest t_rag_grounded t_investigation =
     (let calc = (case t_investigation of None \<Rightarrow> round6 (fl_max (Fin 0) (fl_sub t_rag_grounded t_flow_ingest))
          | Some t \<Rightarrow> t)
      in in_transaction fault db (Inr (db\<lparr>ib_incidents := update_where (\<lambda>r. in_incident_id r = incident_id)
            (\<lambda>r. r\<lparr>in_t_flow_ingest := real_column (Some t_flow_ingest),
                   in_t_rag_grounded := real_column (Some t_rag_grounded),
                   in_t_investigation := real_column (Some calc)\<rparr>) (ib_incidents db)\<rparr>, calc)))"

definition list_incident_timings ::
  "sqlite_fault \<Rightarrow> incident_db \<Rightarrow> incident_error + (string \<times> pyfloat option \<times> pyfloat option \<times> pyfloat option) list" where
  "list_incident_timings fault db =
     (if fault \<noteq> No_fault then Inl Ie_sqlite
      else Inr (map (\<lambda>r. (in_incident_id r, in_t_flow_ingest r, in_t_rag_grounded r, in_t_investigation r))
        (sort_key in_created_at (select_where (\<lambda>r. in_t_investigation r \<noteq> None) (ib_incidents db)))))"

section \<open>Corrections\<close>

definition split_justification :: "string \<Rightarrow> string \<Rightarrow> string \<Rightarrow> member_justification" where
  "split_justification aid actor_id reason =
     \<lparr>mj_anchor_alert_id = aid, mj_delta_seconds = Fin 0, mj_matched_relationship_key = ''manual_split'',
      mj_rule_id = ''corr_manual_correction_split_v1'',
      mj_provenance_summary = ''manual_split by actor='' @ actor_id @ '': '' @ reason\<rparr>"

definition split_incident :: "string \<Rightarrow> string \<Rightarrow> incident \<Rightarrow> incident" where
  "split_incident target_id now_iso orig =
     \<lparr>in_schema_version = INCIDENT_SCHEMA_VERSION, in_incident_id = target_id,
      in_correlation_mode = ''manual_correction_split'', in_window_type = ''manual'',
      in_correlation_rule_id = ''corr_manual_correction_split_v1'',
      in_entity_namespace_id = in_entity_namespace_id orig, in_constituent_alert_ids = [],
      in_constituent_alert_count = 1, in_max_probability_score = in_max_probability_score orig,
      in_escalated_decision = in_escalated_decision orig,
      in_earliest_observed_at = in_earliest_observed_at orig,
      in_latest_observed_at = in_latest_observed_at orig, in_provenance_status = ''manual_corrected'',
      in_created_at = now_iso, in_member_justifications = [],
      in_t_flow_ingest = None, in_t_rag_grounded = None, in_t_investigation = None\<rparr>"

text \<open>Moving the alert out of an incident that has others: delete, decrement, insert, insert.\<close>

definition split_alert ::
  "incident_db \<Rightarrow> incident \<Rightarrow> string \<Rightarrow> string \<Rightarrow> string \<Rightarrow> string \<Rightarrow> string \<Rightarrow> incident_error + incident_db" where
  "split_alert db orig target_id aid actor_id reason now_iso =
     (let kept = filter (\<lambda>c. \<not> (cn_incident_id c = in_incident_id orig \<and> cn_alert_candidate_id c = aid))
                   (ib_constituents db);
          added = \<lparr>cn_incident_id = target_id, cn_alert_candidate_id = aid,
                   cn_member_justification = Some (split_justification aid actor_id reason)\<rparr>
      in if list_ex (\<lambda>r. in_incident_id r = target_id) (ib_incidents db) then Inl Ie_sqlite
      else if list_ex (\<lambda>c. cn_incident_id c = target_id \<and> cn_alert_candidate_id c = aid) kept then Inl Ie_sqlite
      else Inr (db\<lparr>ib_incidents := update_where (\<lambda>r. in_incident_id r = in_incident_id orig)
                      (\<lambda>r. r\<lparr>in_constituent_alert_count := in_constituent_alert_count r - 1\<rparr>) (ib_incidents db)
                    @ [split_incident target_id now_iso orig],
                   ib_constituents := kept @ [added]\<rparr>))"

definition correction_body ::
  "datetime \<Rightarrow> incident_db \<Rightarrow> string \<Rightarrow> string option \<Rightarrow> string \<Rightarrow> string \<Rightarrow> string \<Rightarrow>
     incident_error + incident_db \<times> (incident + string)" where
  "correction_body now db aid new_incident_id actor_id reason request_id =
     (case fetchone (\<lambda>c. co_correction_request_id c = request_id) (ib_corrections db) of
        Some done_before \<Rightarrow>
          if co_alert_candidate_id done_before = aid \<and> co_actor_id done_before = actor_id then
            (case fetchone (\<lambda>r. in_incident_id r = co_target_incident_id done_before) (ib_incidents db) of
               Some row \<Rightarrow> Inr (db, Inl ((incident_of_row db row)\<lparr>in_t_flow_ingest := None,
                 in_t_rag_grounded := None, in_t_investigation := None\<rparr>))
             | None \<Rightarrow> Inl (Ie_safety ''correction_request_conflict''))
          else Inl (Ie_safety ''correction_request_conflict'')
      | None \<Rightarrow>
        (case incident_row_for_alert db aid of
           None \<Rightarrow> Inl (Ie_safety ''alert_not_found'')
         | Some orig \<Rightarrow>
            (let now_iso = isoformat now;
                 target_id = (if in_constituent_alert_count orig \<le> 1 then in_incident_id orig
                   else if or_empty new_incident_id = []
                     then derive_incident_id ''corr_manual_correction_split_v1'' [aid]
                   else or_empty new_incident_id);
                 entry = \<lparr>co_correction_request_id = request_id, co_alert_candidate_id = aid,
                   co_original_incident_id = in_incident_id orig, co_target_incident_id = target_id,
                   co_actor_id = actor_id, co_reason = reason, co_created_at = now_iso\<rparr>
             in bindE (if in_constituent_alert_count orig \<le> 1 then Inr db
                       else split_alert db orig target_id aid actor_id reason now_iso) (\<lambda>db'.
                  Inr (db'\<lparr>ib_corrections := ib_corrections db' @ [entry]\<rparr>, Inr target_id)))))"

text \<open>
  \<^verbatim>\<open>correct_incident_grouping\<close>: a replay returns from inside the transaction, any other
  success reads the target back on a second connection, after the commit.
\<close>

definition correct_incident_grouping ::
  "sqlite_fault \<Rightarrow> sqlite_fault \<Rightarrow> datetime \<Rightarrow> incident_db \<Rightarrow> string \<Rightarrow> string option \<Rightarrow> string \<Rightarrow> string \<Rightarrow> string \<Rightarrow>
     incident_db \<times> (incident_error + incident option)" where
  "correct_incident_grouping fault read_fault now db aid new_incident_id actor_id reason request_id =
     (if blank aid then (db, Inl (Ie_safety ''alert_candidate_id_required''))
      else if blank actor_id then (db, Inl (Ie_safety ''actor_id_required''))
      else if blank reason then (db, Inl (Ie_safety ''reason_required''))
      else if blank request_id then (db, Inl (Ie_safety ''correction_request_id_required''))
      else case in_transaction fault db (correction_body now db aid new_incident_id actor_id reason request_id) of
          (db', Inl e) \<Rightarrow> (db', Inl e)
        | (db', Inr (Inl inc)) \<Rightarrow> (db', Inr (Some inc))
        | (db', Inr (Inr target_id)) \<Rightarrow> (db', get_incident read_fault db' target_id))"

definition get_grouping_corrections ::
  "sqlite_fault \<Rightarrow> incident_db \<Rightarrow> string option \<Rightarrow> incident_error + correction list" where
  "get_grouping_corrections fault db aid =
     (if fault \<noteq> No_fault then Inl Ie_sqlite
      else Inr (sort_key co_created_at (select_where (\<lambda>c. case aid of None \<Rightarrow> True
         | Some a \<Rightarrow> co_alert_candidate_id c = a) (ib_corrections db))))"

section \<open>The engine\<close>

definition engine_correlate ::
  "iso_parser \<Rightarrow> (pyfloat \<Rightarrow> string) \<Rightarrow> datetime \<Rightarrow> sqlite_fault \<Rightarrow> incident_db option \<Rightarrow> alert_input list \<Rightarrow>
   (string \<Rightarrow> provenance option) \<Rightarrow> incident_db option \<times> (incident_error + incident list \<times> reduction_summary)" where
  "engine_correlate rd frepr now fault repo alerts pm =
     (case correlate_alert_candidates rd frepr now alerts pm of
        Inl e \<Rightarrow> (repo, Inl (Ie_correlation e))
      | Inr (incs, s) \<Rightarrow>
         (case repo of None \<Rightarrow> (None, Inr (incs, s))
          | Some db \<Rightarrow> if incs = [] then (Some db, Inr (incs, s))
             else (case insert_many fault db incs of
                 (db', Inl e) \<Rightarrow> (Some db', Inl e) | (db', Inr _) \<Rightarrow> (Some db', Inr (incs, s)))))"

end
