(* ===== verification/Correlation_Facts.thy ===== *)
theory Correlation_Facts
  imports Correlation AlertStore_Facts "HOL-Library.Multiset"
begin

text \<open>
  Correlation loses nothing and groups only what the windows allow: the incidents partition
  the deduplicated alerts, the retention check can therefore never fail, unverified alerts stay
  alone, every cluster lies within its window and its relation, and the incidents do not depend
  on the order in which the alerts arrive.
\<close>

section \<open>Deduplication\<close>

lemma dedupe_ids:
  "distinct (map k (dedupe k seen xs))" "set (map k (dedupe k seen xs)) = set (map k xs) - set seen"
  "set (dedupe k seen xs) \<subseteq> set xs"
proof (induction k seen xs rule: dedupe.induct)
  case (2 k seen x xs)
  {
    case 1
    then show ?case using "2.IH" by auto
  next
    case 2
    then show ?case using "2.IH" by auto
  next
    case 3
    then show ?case using "2.IH" by auto
  }
qed auto

lemma dedupe_distinct: "distinct (map k xs) \<Longrightarrow> set (map k xs) \<inter> set seen = {} \<Longrightarrow> dedupe k seen xs = xs"
  by (induction k seen xs rule: dedupe.induct) auto

lemma dedupe_map: "map f (dedupe (k \<circ> f) seen xs) = dedupe k seen (map f xs)"
  by (induction "k \<circ> f" seen xs rule: dedupe.induct) auto

section \<open>Groups\<close>

text \<open>A filled dictionary holds, for each key in order of first use, the items of that key.\<close>

definition keys_in_order :: "('v \<Rightarrow> 'k) \<Rightarrow> 'v list \<Rightarrow> 'k list" where
  "keys_in_order k xs = rev (remdups (rev (map k xs)))"

lemma dict_append_map:
  assumes "distinct qs"
  shows "dict_append (k x) x (map (\<lambda>q. (q, filter (\<lambda>y. k y = q) xs)) qs) =
    (if k x \<in> set qs then map (\<lambda>q. (q, filter (\<lambda>y. k y = q) (xs @ [x]))) qs
     else map (\<lambda>q. (q, filter (\<lambda>y. k y = q) xs)) qs @ [(k x, [x])])"
  using assms
proof (induction qs)
  case (Cons q qs)
  have "map (\<lambda>q. (q, filter (\<lambda>y. k y = q) (xs @ [x]))) qs = map (\<lambda>q. (q, filter (\<lambda>y. k y = q) xs)) qs"
    if "k x \<notin> set qs" using that by (intro map_cong) auto
  with Cons show ?case by auto
qed simp

lemma keys_in_order_snoc:
  "keys_in_order k (xs @ [x]) = (if k x \<in> k ` set xs then keys_in_order k xs else keys_in_order k xs @ [k x])"
  by (simp add: keys_in_order_def image_iff)

lemma set_keys_in_order [simp]: "set (keys_in_order k xs) = k ` set xs" "distinct (keys_in_order k xs)"
  by (simp_all add: keys_in_order_def)

lemma group_by_eq: "group_by k xs = map (\<lambda>q. (q, filter (\<lambda>x. k x = q) xs)) (keys_in_order k xs)"
proof (induction xs rule: rev_induct)
  case Nil
  then show ?case by (simp add: group_by_def keys_in_order_def)
next
  case (snoc x xs)
  have "group_by k (xs @ [x]) = dict_append (k x) x (group_by k xs)" by (simp add: group_by_def)
  moreover have "filter (\<lambda>y. k y = k x) xs = []" if "k x \<notin> k ` set xs"
    using that by (simp add: filter_empty_conv) (metis imageI)
  moreover have "map (\<lambda>q. (q, filter (\<lambda>y. k y = q) (xs @ [x]))) (keys_in_order k xs) =
      map (\<lambda>q. (q, filter (\<lambda>y. k y = q) xs)) (keys_in_order k xs)" if "k x \<notin> k ` set xs"
    using that by (intro map_cong) auto
  ultimately show ?case
    unfolding snoc.IH by (simp add: dict_append_map keys_in_order_snoc)
qed

lemma group_by_mem:
  assumes "(q, g) \<in> set (group_by k xs)"
  shows "g = filter (\<lambda>x. k x = q) xs" "q \<in> k ` set xs" "g \<noteq> []"
  using assms by (auto simp: group_by_eq filter_empty_conv)

text \<open>The multiset of what a function makes of every group is a sum over the keys.\<close>

lemma mset_concat_groups:
  "mset (concat (map (\<lambda>(q, g). F q g) (group_by k xs))) =
     (\<Sum>q \<in> k ` set xs. mset (F q (filter (\<lambda>x. k x = q) xs)))"
proof -
  have "mset (concat (map (\<lambda>(q, g). F q g) (group_by k xs))) =
      sum_list (map (\<lambda>q. mset (F q (filter (\<lambda>x. k x = q) xs))) (keys_in_order k xs))"
    by (simp add: group_by_eq mset_concat comp_def)
  also have "\<dots> = (\<Sum>q \<in> set (keys_in_order k xs). mset (F q (filter (\<lambda>x. k x = q) xs)))"
    by (rule sum_list_distinct_conv_sum_set) simp
  finally show ?thesis by simp
qed

lemma sum_filter_mset: "(\<Sum>q \<in> k ` set xs. mset (filter (\<lambda>x. k x = q) xs)) = mset xs"
proof -
  have "finite K \<Longrightarrow> k ` set xs \<subseteq> K \<Longrightarrow> (\<Sum>q \<in> K. mset (filter (\<lambda>x. k x = q) xs)) = mset xs" for K
  proof (induction xs)
    case (Cons x xs)
    have "(\<Sum>q \<in> K. mset (filter (\<lambda>y. k y = q) (x # xs))) =
        (\<Sum>q \<in> K. mset (filter (\<lambda>y. k y = q) xs) + (if q = k x then {#x#} else {#}))"
      by (rule sum.cong) auto
    also have "\<dots> = mset xs + {#x#}" using Cons by (simp add: sum.distrib)
    finally show ?case by simp
  qed simp
  then show ?thesis by simp
qed

lemma concat_twice: "concat (concat xss) = concat (map concat xss)"
  by (induction xss) auto

lemma mset_groups_keep:
  assumes "\<And>q g. mset (concat (F q g)) = mset g"
  shows "mset (concat (concat (map (\<lambda>(q, g). F q g) (group_by k xs)))) = mset xs"
proof -
  have "mset (concat (concat (map (\<lambda>(q, g). F q g) (group_by k xs)))) =
      mset (concat (map (\<lambda>(q, g). concat (F q g)) (group_by k xs)))"
    by (simp add: concat_twice comp_def case_prod_unfold)
  also have "\<dots> = mset xs" unfolding mset_concat_groups assms by (rule sum_filter_mset)
  finally show ?thesis .
qed

section \<open>Windows\<close>

lemma concat_cluster_loop: "concat (cluster_loop w t cur its) = cur @ its"
  by (induction w t cur its rule: cluster_loop.induct) auto

lemma concat_window_clusters [simp]: "concat (window_clusters w its) = its"
  by (cases its) (auto simp: concat_cluster_loop)

lemma cluster_loop_window:
  assumes "c \<in> set (cluster_loop w t cur its)" "cur \<noteq> []" "t = item_time (hd cur)" "0 \<le> w"
    and "\<forall>it \<in> set cur. nearest53 (item_time it - t) \<le> w"
  shows "c \<noteq> [] \<and> (\<forall>it \<in> set c. nearest53 (item_time it - item_time (hd c)) \<le> w)"
  using assms
proof (induction its arbitrary: t cur)
  case (Cons it its)
  show ?case
  proof (cases "nearest53 (item_time it - t) \<le> w")
    case True
    show ?thesis
    proof (rule Cons.IH)
      show "c \<in> set (cluster_loop w t (cur @ [it]) its)" using Cons.prems(1) True by simp
      show "\<forall>x \<in> set (cur @ [it]). nearest53 (item_time x - t) \<le> w" using Cons.prems(5) True by simp
    qed (use Cons.prems in auto)
  next
    case False
    then consider "c = cur" | "c \<in> set (cluster_loop w (item_time it) [it] its)" using Cons.prems(1) by auto
    then show ?thesis
    proof cases
      case 2
      then show ?thesis by (rule Cons.IH) (use Cons.prems(4) in auto)
    qed (use Cons.prems in simp)
  qed
qed simp

lemma window_cluster_span:
  assumes "c \<in> set (window_clusters w its)" "0 \<le> w"
  shows "c \<noteq> []" "\<forall>it \<in> set c. nearest53 (item_time it - item_time (hd c)) \<le> w"
  using assms cluster_loop_window [of c w] by (cases its; fastforce)+

section \<open>Clusters of a namespace\<close>

definition namespace_clusters :: "item list \<Rightarrow> item list list" where
  "namespace_clusters ns_items =
     (let clusters = burst_clusters (sort_key chrono_key ns_items)
      in filter (\<lambda>c. 2 \<le> length c) clusters @
         campaign_clusters (concat (filter (\<lambda>c. length c < 2) clusters)))"

lemma mset_window_groups:
  "mset (concat (concat (map (\<lambda>(q, g). window_clusters w (sort_key f g)) (group_by k xs)))) = mset xs"
  by (rule mset_groups_keep) simp

lemma mset_concat_filter:
  "mset (concat (filter q cs)) + mset (concat (filter (\<lambda>c. \<not> q c) cs)) = mset (concat cs)"
  by (induction cs) auto

lemma namespace_clusters_partition: "mset (concat (namespace_clusters ns_items)) = mset ns_items"
proof -
  let ?cs = "burst_clusters (sort_key chrono_key ns_items)"
  have "mset (concat ?cs) = mset ns_items"
    unfolding burst_clusters_def by (simp only: mset_window_groups mset_sort)
  moreover have "mset (concat (campaign_clusters xs)) = mset xs" for xs
    unfolding campaign_clusters_def by (rule mset_window_groups)
  ultimately show ?thesis
    using mset_concat_filter [of "\<lambda>c. 2 \<le> length c" ?cs]
    by (simp add: namespace_clusters_def Let_def not_le)
qed

text \<open>The anchor is the earliest of its cluster.\<close>

lemma sorted_window_clusters:
  assumes "sorted (map chrono_key its)" "c \<in> set (window_clusters w its)" "it \<in> set c"
  shows "item_time (hd c) \<le> item_time it"
proof -
  obtain a b where "window_clusters w its = a @ c # b" using assms(2) by (auto dest: split_list)
  then have "its = concat a @ c @ concat b" using concat_window_clusters [of w its] by simp
  then have "sorted (map chrono_key c)" using assms(1) by (simp add: sorted_append)
  then have "chrono_key (hd c) \<le> chrono_key it" using assms(3) by (cases c) auto
  then show ?thesis by (auto simp: chrono_key_def less_eq_prod_def)
qed

lemma window_group_cluster:
  assumes "c \<in> set (concat (map (\<lambda>(q, g). window_clusters w (sort_key chrono_key g)) (group_by k xs)))" "0 \<le> w"
  shows "c \<noteq> []" "set c \<subseteq> set xs" "\<forall>it \<in> set c. nearest53 (item_time it - item_time (hd c)) \<le> w"
    "\<forall>it \<in> set c. k it = k (hd c)" "\<forall>it \<in> set c. item_time (hd c) \<le> item_time it"
proof -
  obtain q g where qg: "(q, g) \<in> set (group_by k xs)" "c \<in> set (window_clusters w (sort_key chrono_key g))"
    using assms(1) by auto
  then show ne: "c \<noteq> []" "\<forall>it \<in> set c. nearest53 (item_time it - item_time (hd c)) \<le> w"
    using window_cluster_span assms(2) by blast+
  show "\<forall>it \<in> set c. item_time (hd c) \<le> item_time it"
    using sorted_window_clusters [OF sorted_sort_key qg(2)] by blast
  have "set c \<subseteq> \<Union> (set ` set (window_clusters w (sort_key chrono_key g)))" using qg(2) by blast
  then have sub: "set c \<subseteq> set g" unfolding set_concat [symmetric] concat_window_clusters by simp
  then show "set c \<subseteq> set xs" using group_by_mem(1) [OF qg(1)] by auto
  have "\<forall>it \<in> set c. k it = q" using sub group_by_mem(1) [OF qg(1)] by auto
  then show "\<forall>it \<in> set c. k it = k (hd c)" using ne(1) by simp
qed

lemma campaign_cluster:
  assumes "c \<in> set (campaign_clusters xs)"
  shows "c \<noteq> []" "set c \<subseteq> set xs" "\<forall>it \<in> set c. nearest53 (item_time it - item_time (hd c)) \<le> 600"
    "\<forall>it \<in> set c. pair_key it = pair_key (hd c)" "\<forall>it \<in> set c. item_time (hd c) \<le> item_time it"
proof -
  have "0 \<le> (600 :: rat)" by simp
  note w = window_group_cluster [OF assms [unfolded campaign_clusters_def CAMPAIGN_WINDOW_SECONDS_def] this]
  from w(1) show "c \<noteq> []" .
  from w(2) show "set c \<subseteq> set xs" .
  from w(3) show "\<forall>it \<in> set c. nearest53 (item_time it - item_time (hd c)) \<le> 600" .
  from w(4) show "\<forall>it \<in> set c. pair_key it = pair_key (hd c)" .
  from w(5) show "\<forall>it \<in> set c. item_time (hd c) \<le> item_time it" .
qed

lemma burst_cluster:
  assumes "c \<in> set (burst_clusters xs)"
  shows "c \<noteq> []" "set c \<subseteq> set xs" "\<forall>it \<in> set c. nearest53 (item_time it - item_time (hd c)) \<le> 30"
    "\<forall>it \<in> set c. five_tuple it = five_tuple (hd c)" "\<forall>it \<in> set c. item_time (hd c) \<le> item_time it"
proof -
  have "0 \<le> (30 :: rat)" by simp
  note w = window_group_cluster [OF assms [unfolded burst_clusters_def BURST_WINDOW_SECONDS_def] this]
  from w(1) show "c \<noteq> []" .
  from w(2) show "set c \<subseteq> set xs" .
  from w(3) show "\<forall>it \<in> set c. nearest53 (item_time it - item_time (hd c)) \<le> 30" .
  from w(4) show "\<forall>it \<in> set c. five_tuple it = five_tuple (hd c)" .
  from w(5) show "\<forall>it \<in> set c. item_time (hd c) \<le> item_time it" .
qed

lemma namespace_incident_ids:
  "map in_constituent_alert_ids (namespace_incidents frepr now_iso ns xs) = map (map item_id) (namespace_clusters xs)"
proof -
  have b: "in_constituent_alert_ids (burst_incident frepr now_iso ns c) = map item_id c" for c
    by (simp add: burst_incident_def cluster_incident_def Let_def)
  have c: "in_constituent_alert_ids (campaign_or_single frepr now_iso ns c) = map item_id c" if "c \<noteq> []" for c
    using that by (cases c; cases "tl c") (auto simp: campaign_or_single_def campaign_incident_def cluster_incident_def
        verified_singleton_def singleton_incident_def Let_def)
  show ?thesis
    by (auto simp: namespace_incidents_def namespace_clusters_def Let_def b comp_def c campaign_cluster(1))
qed

section \<open>All incidents of a run\<close>

definition namespace_of :: "item \<Rightarrow> string" where
  "namespace_of it = or_empty (pv_entity_namespace_id (item_prov it))"

definition item_incidents :: "iso_parser \<Rightarrow> (pyfloat \<Rightarrow> string) \<Rightarrow> string \<Rightarrow> item list \<Rightarrow> incident list" where
  "item_incidents rd frepr now_iso items =
     map (unverified_incident rd now_iso) (filter (\<lambda>it. \<not> is_verified rd (item_prov it)) items) @
     concat (map (\<lambda>(ns, g). namespace_incidents frepr now_iso ns g)
       (group_by namespace_of (filter (\<lambda>it. is_verified rd (item_prov it)) items)))"

definition run_items :: "iso_parser \<Rightarrow> (string \<Rightarrow> provenance option) \<Rightarrow> alert_input list \<Rightarrow> item list" where
  "run_items rd pm alerts = map (normalize rd pm) (dedupe (ac_alert_candidate_id \<circ> input_candidate) [] alerts)"

lemma correlate_eq:
  assumes "alerts \<noteq> []"
  shows "correlate_alert_candidates rd frepr now alerts pm =
    (let incs = sort_key incident_order (item_incidents rd frepr (isoformat now) (run_items rd pm alerts)) in
     bindE (compute_alert_reduction_metrics (dedupe (ac_alert_candidate_id \<circ> input_candidate) [] alerts) incs)
       (\<lambda>summary. Inr (incs, summary)))"
  using assms by (simp add: correlate_alert_candidates_def Let_def item_incidents_def run_items_def
      namespace_of_def [abs_def])

lemma normalize_fst [simp]: "fst (normalize rd pm a) = input_candidate a"
  by (simp add: normalize_def Let_def)

lemma unverified_ids [simp]: "in_constituent_alert_ids (unverified_incident rd now_iso it) = [item_id it]"
  by (simp add: unverified_incident_def singleton_incident_def Let_def)

lemma map_concat_groups:
  "map f (concat (map (\<lambda>(q, g). F q g) gs)) = concat (map (\<lambda>(q, g). map f (F q g)) gs)"
  by (induction gs) auto

lemma item_incidents_partition:
  "mset (concat (map in_constituent_alert_ids (item_incidents rd frepr now_iso items))) = mset (map item_id items)"
proof -
  let ?v = "filter (\<lambda>it. is_verified rd (item_prov it)) items"
  let ?u = "filter (\<lambda>it. \<not> is_verified rd (item_prov it)) items"
  let ?cl = "concat (map (\<lambda>(ns, g). namespace_clusters g) (group_by namespace_of ?v))"
  have "map in_constituent_alert_ids (concat (map (\<lambda>(ns, g). namespace_incidents frepr now_iso ns g)
      (group_by namespace_of ?v))) = map (map item_id) ?cl"
    unfolding map_concat_groups by (simp add: namespace_incident_ids)
  moreover have "concat (map (map item_id) ?cl) = map item_id (concat ?cl)" by (simp only: map_concat)
  moreover have "mset (concat ?cl) = mset ?v"
    by (rule mset_groups_keep) (rule namespace_clusters_partition)
  moreover have "concat (map in_constituent_alert_ids (map (unverified_incident rd now_iso) ?u)) = map item_id ?u"
    by (simp add: comp_def)
  moreover have "mset ?u + mset ?v = mset items" by (induction items) auto
  ultimately show ?thesis
    unfolding item_incidents_def by (simp del: map_map mset_filter) (metis image_mset_union add.commute)
qed

lemma namespace_incident_shape:
  assumes "inc \<in> set (namespace_incidents frepr now_iso ns xs)"
  obtains c where "c \<in> set (namespace_clusters xs)" "c \<noteq> []" "in_constituent_alert_ids inc = map item_id c"
    "in_escalated_decision inc = (if list_ex (\<lambda>it. ac_decision (fst it) = ''Attack'') c then ''Attack''
       else ac_decision (fst (hd c)))"
    "in_entity_namespace_id inc = Some ns"
    "in_window_type inc = ''burst_30s'' \<and> c \<in> set (burst_clusters (sort_key chrono_key xs)) \<and> 2 \<le> length c \<or>
     in_window_type inc = ''campaign_600s'' \<and>
       c \<in> set (campaign_clusters (concat (filter (\<lambda>c. length c < 2) (burst_clusters (sort_key chrono_key xs))))) \<and> 2 \<le> length c \<or>
     in_window_type inc = ''none'' \<and> length c = 1"
proof -
  let ?cs = "burst_clusters (sort_key chrono_key xs)"
  consider (burst) c where "c \<in> set ?cs" "2 \<le> length c" "inc = burst_incident frepr now_iso ns c"
    | (camp) c where "c \<in> set (campaign_clusters (concat (filter (\<lambda>c. length c < 2) ?cs)))"
        "inc = campaign_or_single frepr now_iso ns c"
    using assms by (auto simp: namespace_incidents_def Let_def)
  then show thesis
  proof cases
    case burst
    have ne: "c \<noteq> []" using burst(2) by auto
    show thesis
      by (rule that [of c]) (use burst ne in \<open>auto simp: namespace_clusters_def Let_def burst_incident_def
          cluster_incident_def list_ex_iff hd_map\<close>)
  next
    case camp
    have ne: "c \<noteq> []" using campaign_cluster(1) camp(1) by blast
    then have "2 \<le> length c \<or> c = [hd c]" by (cases c; cases "tl c") auto
    then show thesis
    proof
      assume "2 \<le> length c"
      then show thesis
        by (intro that [of c]) (use camp ne in \<open>auto simp: namespace_clusters_def Let_def campaign_or_single_def
            campaign_incident_def cluster_incident_def list_ex_iff hd_map\<close>)
    next
      assume "c = [hd c]"
      then obtain x where x: "c = [x]" by blast
      show thesis
        by (rule that [of c]) (use camp x in \<open>auto simp: namespace_clusters_def Let_def campaign_or_single_def
            verified_singleton_def singleton_incident_def\<close>)
    qed
  qed
qed

lemma namespace_cluster_members:
  assumes "c \<in> set (namespace_clusters xs)"
  shows "set c \<subseteq> set xs"
proof -
  have "set c \<subseteq> \<Union> (set ` set (namespace_clusters xs))" using assms by blast
  also have "\<dots> = set xs"
    unfolding set_concat [symmetric] using namespace_clusters_partition mset_eq_setD by blast
  finally show ?thesis .
qed

text \<open>Every incident of a run is an unverified singleton or a cluster of verified items of one namespace.\<close>

lemma item_incident_cases:
  assumes "inc \<in> set (item_incidents rd frepr now_iso items)"
  obtains (unverified) it where "it \<in> set items" "\<not> is_verified rd (item_prov it)"
      "inc = unverified_incident rd now_iso it"
  | (verified) ns g where "(ns, g) \<in> set (group_by namespace_of (filter (\<lambda>it. is_verified rd (item_prov it)) items))"
      "inc \<in> set (namespace_incidents frepr now_iso ns g)"
  using assms by (auto simp: item_incidents_def)

lemma item_incident_attack:
  assumes "inc \<in> set (item_incidents rd frepr now_iso items)" "\<forall>it \<in> set items. ac_decision (fst it) = ''Attack''"
  shows "in_escalated_decision inc = ''Attack'' \<and> in_constituent_alert_ids inc \<noteq> []"
  using assms(1)
proof (cases rule: item_incident_cases)
  case (unverified it)
  then show ?thesis
    using assms(2) by (auto simp: unverified_incident_def singleton_incident_def Let_def)
next
  case (verified ns g)
  obtain c where c: "c \<in> set (namespace_clusters g)" "c \<noteq> []" "in_constituent_alert_ids inc = map item_id c"
    "in_escalated_decision inc = (if list_ex (\<lambda>it. ac_decision (fst it) = ''Attack'') c then ''Attack''
       else ac_decision (fst (hd c)))"
    using verified(2) by (rule namespace_incident_shape)
  have "set g \<subseteq> set items" using group_by_mem(1) [OF verified(1)] by auto
  then have "hd c \<in> set items" using namespace_cluster_members [OF c(1)] c(2) by (auto dest: hd_in_set)
  with assms(2) c show ?thesis by auto
qed

section \<open>The retention check\<close>

lemma check_incidents_attack:
  assumes "\<forall>inc \<in> set incs. in_escalated_decision inc = ''Attack''"
  shows "check_incidents cands incs n = Inr (n + (\<Sum>inc \<leftarrow> incs. length (filter is_critical_alert
    (filter (\<lambda>c. ac_alert_candidate_id c \<in> set (in_constituent_alert_ids inc)) cands))))"
  using assms
proof (induction incs arbitrary: n)
  case (Cons inc incs)
  let ?xs = "filter (\<lambda>c. ac_alert_candidate_id c \<in> set (in_constituent_alert_ids inc)) cands"
  have "length (filter is_critical_alert ?xs) = 0" if "\<not> list_ex is_critical_alert ?xs"
    using that by (auto simp: list_ex_iff filter_empty_conv)
  with Cons show ?case by (cases "list_ex is_critical_alert ?xs") (simp_all add: Let_def del: filter_filter)
qed simp

lemma length_filter_partition:
  "distinct (concat idss) \<Longrightarrow>
     (\<Sum>ids \<leftarrow> idss. length (filter (\<lambda>c. k c \<in> set ids) xs)) = length (filter (\<lambda>c. k c \<in> set (concat idss)) xs)"
proof (induction idss)
  case (Cons ids idss)
  have "length (filter (\<lambda>c. k c \<in> set ids \<or> k c \<in> set (concat idss)) xs) =
      length (filter (\<lambda>c. k c \<in> set ids) xs) + length (filter (\<lambda>c. k c \<in> set (concat idss)) xs)"
    using Cons.prems by (induction xs) auto
  with Cons show ?case by simp
qed simp

lemma length_le_concat: "\<forall>xs \<in> set xss. xs \<noteq> [] \<Longrightarrow> length xss \<le> length (concat xss)"
proof (induction xss)
  case (Cons xs xss)
  then have "1 \<le> length xs" by (cases xs) auto
  with Cons show ?case by simp
qed simp

lemma mset_concat_map: "mset (concat (map f xs)) = (\<Sum>x \<in># mset xs. mset (f x))"
  by (induction xs) auto

lemma mset_concat_map_sort: "mset (concat (map f (sort_key k xs))) = mset (concat (map f xs))"
  by (simp only: mset_concat_map mset_sort)

lemma metrics_accept:
  assumes "distinct (map (ac_alert_candidate_id \<circ> input_candidate) alerts)" "alerts \<noteq> []"
    and "\<forall>a \<in> set alerts. ac_decision (input_candidate a) = ''Attack''"
    and "mset (concat (map in_constituent_alert_ids incs)) = mset (map (ac_alert_candidate_id \<circ> input_candidate) alerts)"
    and "\<forall>inc \<in> set incs. in_escalated_decision inc = ''Attack''"
  shows "compute_alert_reduction_metrics alerts incs = Inr \<lparr>rs_schema_version = ALERT_REDUCTION_SCHEMA_VERSION,
    rs_total_alerts = length alerts, rs_total_incidents = length incs,
    rs_reduction_ratio = nearest53 (1 - nearest53 (rat_of_nat (length incs) / rat_of_nat (length alerts))),
    rs_critical_alerts_input = length alerts, rs_critical_alerts_retained = length alerts,
    rs_critical_retention_ratio = 1\<rparr>"
proof -
  let ?cands = "map input_candidate alerts"
  have u: "dedupe ac_alert_candidate_id [] ?cands = ?cands"
    using assms(1) by (intro dedupe_distinct) (simp_all add: comp_def)
  have d: "distinct (concat (map in_constituent_alert_ids incs))"
    using mset_eq_imp_distinct_iff [OF assms(4)] assms(1) by simp
  have s: "set (concat (map in_constituent_alert_ids incs)) = set (map ac_alert_candidate_id ?cands)"
    using mset_eq_setD [OF assms(4)] by simp
  have crit: "filter is_critical_alert xs = xs" if "set xs \<subseteq> set ?cands" for xs
    using that assms(3) by (auto simp: filter_id_conv is_critical_alert_def)
  have "check_incidents ?cands incs 0 = Inr (\<Sum>inc \<leftarrow> incs. length
      (filter (\<lambda>c. ac_alert_candidate_id c \<in> set (in_constituent_alert_ids inc)) ?cands))"
    unfolding check_incidents_attack [OF assms(5)] by (subst crit) auto
  also have "(\<Sum>inc \<leftarrow> incs. length (filter (\<lambda>c. ac_alert_candidate_id c \<in> set (in_constituent_alert_ids inc)) ?cands)) =
      (\<Sum>ids \<leftarrow> map in_constituent_alert_ids incs. length (filter (\<lambda>c. ac_alert_candidate_id c \<in> set ids) ?cands))"
    by (simp add: comp_def)
  also have "\<dots> = length (filter (\<lambda>c. ac_alert_candidate_id c \<in> set (concat (map in_constituent_alert_ids incs))) ?cands)"
    by (rule length_filter_partition [OF d])
  also have "filter (\<lambda>c. ac_alert_candidate_id c \<in> set (concat (map in_constituent_alert_ids incs))) ?cands = ?cands"
    unfolding s by (simp add: filter_id_conv)
  finally have ch: "check_incidents ?cands incs 0 = Inr (length alerts)" by simp
  show ?thesis
    unfolding compute_alert_reduction_metrics_def Let_def u
    using assms(2) d s crit [of ?cands] ch by (simp del: set_concat)
qed

lemma correlate_attack_alerts:
  assumes "\<forall>a \<in> set alerts. ac_decision (input_candidate a) = ''Attack''"
  shows "\<exists>incs s. correlate_alert_candidates rd frepr now alerts pm = Inr (incs, s) \<and>
    distinct (concat (map in_constituent_alert_ids incs)) \<and>
    set (concat (map in_constituent_alert_ids incs)) = set (map (ac_alert_candidate_id \<circ> input_candidate) alerts) \<and>
    list_all (\<lambda>i. in_escalated_decision i = ''Attack'') incs \<and>
    rs_critical_alerts_retained s = card (set (map (ac_alert_candidate_id \<circ> input_candidate) alerts)) \<and>
    rs_total_incidents s = length incs \<and> length incs \<le> rs_total_alerts s \<and>
    rs_total_alerts s = rs_critical_alerts_retained s"
proof (cases "alerts = []")
  case True
  then show ?thesis by (simp add: correlate_alert_candidates_def compute_alert_reduction_metrics_def)
next
  case False
  let ?k = "ac_alert_candidate_id \<circ> input_candidate"
  let ?ded = "dedupe ?k [] alerts"
  let ?items = "run_items rd pm alerts"
  let ?incs = "sort_key incident_order (item_incidents rd frepr (isoformat now) ?items)"
  have ids: "map item_id ?items = map ?k ?ded" by (simp add: run_items_def comp_def)
  have dd: "distinct (map ?k ?ded)" "set (map ?k ?ded) = set (map ?k alerts)" "set ?ded \<subseteq> set alerts"
    using dedupe_ids [of ?k "[]" alerts] by simp_all
  then have "?ded \<noteq> []" using False by (metis list.map_disc_iff set_empty)
  have att: "\<forall>it \<in> set ?items. ac_decision (fst it) = ''Attack''" "\<forall>a \<in> set ?ded. ac_decision (input_candidate a) = ''Attack''"
    using assms dd(3) by (auto simp: run_items_def)
  have part: "mset (concat (map in_constituent_alert_ids ?incs)) = mset (map ?k ?ded)"
    using item_incidents_partition [of rd frepr "isoformat now" ?items] unfolding ids mset_concat_map_sort .
  have esc: "\<forall>inc \<in> set ?incs. in_escalated_decision inc = ''Attack''" "\<forall>inc \<in> set ?incs. in_constituent_alert_ids inc \<noteq> []"
    using item_incident_attack [OF _ att(1)] by auto
  have len: "length ?incs \<le> length ?ded"
    using length_le_concat [of "map in_constituent_alert_ids ?incs"] esc(2) mset_eq_length [OF part] by simp
  have card: "length ?ded = card (set (map ?k alerts))"
    using distinct_card [OF dd(1)] dd(2) by simp
  have dis: "distinct (concat (map in_constituent_alert_ids ?incs))" using mset_eq_imp_distinct_iff [OF part] dd(1) by simp
  have st: "set (concat (map in_constituent_alert_ids ?incs)) = set (map ?k alerts)" using mset_eq_setD [OF part] dd(2) by simp
  have "correlate_alert_candidates rd frepr now alerts pm = Inr (?incs, \<lparr>rs_schema_version = ALERT_REDUCTION_SCHEMA_VERSION,
    rs_total_alerts = length ?ded, rs_total_incidents = length ?incs,
    rs_reduction_ratio = nearest53 (1 - nearest53 (rat_of_nat (length ?incs) / rat_of_nat (length ?ded))),
    rs_critical_alerts_input = length ?ded, rs_critical_alerts_retained = length ?ded,
    rs_critical_retention_ratio = 1\<rparr>)"
    unfolding correlate_eq [OF False] Let_def metrics_accept [OF dd(1) \<open>?ded \<noteq> []\<close> att(2) part esc(1)] by simp
  then show ?thesis
    by (intro exI conjI, assumption) (use dis st esc(1) len card in \<open>simp_all add: list_all_iff del: set_map set_concat\<close>)
qed

text \<open>C11: Correlation never fails and loses no alert.  For attack alerts with any provenance, in any order
  and with any repetitions, correlation returns: every submitted alert is a constituent of exactly one
  incident and nothing else is, every incident is escalated as an attack, there are at most as many
  incidents as alerts, and the summary reports all of them retained.\<close>

theorem correlation_retains_all:
  assumes "\<forall>a \<in> set alerts. ac_decision (input_candidate a) = ''Attack''"
  shows "\<exists>incs s. correlate_alert_candidates rd frepr now alerts pm = Inr (incs, s) \<and>
    distinct (concat (map in_constituent_alert_ids incs)) \<and>
    set (concat (map in_constituent_alert_ids incs)) = set (map (ac_alert_candidate_id \<circ> input_candidate) alerts) \<and>
    list_all (\<lambda>i. in_escalated_decision i = ''Attack'') incs \<and>
    rs_critical_alerts_retained s = card (set (map (ac_alert_candidate_id \<circ> input_candidate) alerts)) \<and>
    rs_total_incidents s = length incs \<and> length incs \<le> rs_total_alerts s \<and>
    rs_total_alerts s = rs_critical_alerts_retained s"
  by (rule correlate_attack_alerts [OF assms])

abbreviation sample_inputs :: "alert_input list" where
  "sample_inputs \<equiv> [Correlatable_alert (sample_alert\<lparr>ac_alert_candidate_id := ''a1''\<rparr>)
       (Some (sample_provenance ''host:1'' ''host:2'' ''2026-09-12T12:00:00+00:00'')),
     Plain_alert (sample_alert\<lparr>ac_alert_candidate_id := ''a2''\<rparr>)]"

lemma sample_inputs_attack:
  "\<forall>a \<in> set sample_inputs. ac_decision (input_candidate a) = ''Attack''"
  "distinct (map (ac_alert_candidate_id \<circ> input_candidate) sample_inputs)"
  by (simp_all add: sample_alert_def)

theorem correlation_retains_all_witness:
  "\<exists>incs s. correlate_alert_candidates iso_utc (\<lambda>x. ''0.0'') (Datetime 2026 9 12 13 0 0 0) sample_inputs Map.empty = Inr (incs, s) \<and>
    set (concat (map in_constituent_alert_ids incs)) = {''a1'', ''a2''}"
  using correlation_retains_all [OF sample_inputs_attack(1), of iso_utc "\<lambda>x. ''0.0''" "Datetime 2026 9 12 13 0 0 0" Map.empty]
  by (elim exE conjE) (intro exI conjI, assumption, simp add: sample_alert_def)

section \<open>What may be grouped\<close>

text \<open>The condition for a cluster: verified items of one namespace and one endpoint pair, within the window
  of the first.\<close>

definition related :: "iso_parser \<Rightarrow> rat \<Rightarrow> item \<Rightarrow> item \<Rightarrow> bool" where
  "related rd window a it \<longleftrightarrow> is_verified rd (item_prov it) \<and> namespace_of it = namespace_of a \<and>
     pair_key it = pair_key a \<and> item_time a \<le> item_time it \<and> nearest53 (item_time it - item_time a) \<le> window"

lemma five_tuple_pair: "five_tuple a = five_tuple b \<Longrightarrow> pair_key a = pair_key b"
  by (simp add: five_tuple_def pair_key_def Let_def)

lemma item_incident_grouping:
  assumes "inc \<in> set (item_incidents rd frepr now_iso items)"
  obtains c where "set c \<subseteq> set items" "c \<noteq> []" "in_constituent_alert_ids inc = map item_id c"
    "length c = 1 \<or> in_window_type inc = ''campaign_600s'' \<and> list_all (related rd 600 (hd c)) c \<or>
     in_window_type inc = ''burst_30s'' \<and> list_all (related rd 30 (hd c)) c \<and>
       list_all (\<lambda>it. five_tuple it = five_tuple (hd c)) c"
  using assms
proof (cases rule: item_incident_cases)
  case (unverified it)
  then show thesis by (intro that [of "[it]"]) auto
next
  case (verified ns g)
  obtain c where c: "c \<in> set (namespace_clusters g)" "c \<noteq> []" "in_constituent_alert_ids inc = map item_id c"
    and w: "in_window_type inc = ''burst_30s'' \<and> c \<in> set (burst_clusters (sort_key chrono_key g)) \<and> 2 \<le> length c \<or>
     in_window_type inc = ''campaign_600s'' \<and>
       c \<in> set (campaign_clusters (concat (filter (\<lambda>c. length c < 2) (burst_clusters (sort_key chrono_key g))))) \<and> 2 \<le> length c \<or>
     in_window_type inc = ''none'' \<and> length c = 1"
    using verified(2) by (rule namespace_incident_shape)
  have g: "set g \<subseteq> {it \<in> set items. is_verified rd (item_prov it) \<and> namespace_of it = ns}"
    using group_by_mem(1) [OF verified(1)] by auto
  then have sub: "set c \<subseteq> {it \<in> set items. is_verified rd (item_prov it) \<and> namespace_of it = ns}"
    using namespace_cluster_members [OF c(1)] by blast
  have m: "is_verified rd (item_prov it)" "namespace_of it = ns" "it \<in> set items" if "it \<in> set c" for it
    using subsetD [OF sub that] by simp_all
  have h: "hd c \<in> set c" using c(2) by simp
  have rel: "list_all (related rd window (hd c)) c"
    if "\<forall>it \<in> set c. pair_key it = pair_key (hd c)" "\<forall>it \<in> set c. item_time (hd c) \<le> item_time it"
      "\<forall>it \<in> set c. nearest53 (item_time it - item_time (hd c)) \<le> window" for window
    unfolding list_all_iff related_def
    by (intro ballI conjI; (rule m, assumption | (subst m, assumption, rule m(2) [OF h, symmetric]) |
        erule that [THEN bspec]))
  have sub': "set c \<subseteq> set items" using m(3) by (rule subsetI)
  from w show thesis
  proof (elim disjE conjE)
    assume a: "in_window_type inc = ''burst_30s''" "c \<in> set (burst_clusters (sort_key chrono_key g))"
    note b = burst_cluster [OF a(2)]
    have "\<forall>it \<in> set c. pair_key it = pair_key (hd c)" using b(4) five_tuple_pair by (intro ballI) (rule five_tuple_pair, erule (1) bspec)
    then have "list_all (related rd 30 (hd c)) c" using b(5,3) by (rule rel)
    moreover have "list_all (\<lambda>it. five_tuple it = five_tuple (hd c)) c" using b(4) unfolding list_all_iff .
    ultimately show thesis using a(1) by (intro that [OF sub' c(2,3)] disjI2 conjI)
  next
    assume a: "in_window_type inc = ''campaign_600s''"
      "c \<in> set (campaign_clusters (concat (filter (\<lambda>c. length c < 2) (burst_clusters (sort_key chrono_key g)))))"
    note b = campaign_cluster [OF a(2)]
    have "list_all (related rd 600 (hd c)) c" using b(4,5,3) by (rule rel)
    then show thesis using a(1) by (intro that [OF sub' c(2,3)] disjI2 disjI1 conjI)
  next
    assume "length c = 1"
    then show thesis by (intro that [OF sub' c(2,3)] disjI1)
  qed
qed

text \<open>C17: Grouping is fail-closed and windowed.  Every incident consists of items of the run; when it has
  more than one, all of them have verified provenance in one namespace and the same pair of endpoints,
  and lie within 600 seconds of its earliest item, or, for a burst incident, within 30 seconds of it
  and with the same endpoints in the same direction, protocol and service.\<close>

theorem grouping_fail_closed:
  assumes "correlate_alert_candidates rd frepr now alerts pm = Inr (incs, s)" "inc \<in> set incs"
  shows "\<exists>c. set c \<subseteq> set (run_items rd pm alerts) \<and> c \<noteq> [] \<and> in_constituent_alert_ids inc = map item_id c \<and>
    (length c = 1 \<or> in_window_type inc = ''campaign_600s'' \<and> list_all (related rd 600 (hd c)) c \<or>
     in_window_type inc = ''burst_30s'' \<and> list_all (related rd 30 (hd c)) c \<and>
       list_all (\<lambda>it. five_tuple it = five_tuple (hd c)) c)"
proof -
  have ne: "alerts \<noteq> []"
    using assms by (auto simp: correlate_alert_candidates_def compute_alert_reduction_metrics_def)
  then have "incs = sort_key incident_order (item_incidents rd frepr (isoformat now) (run_items rd pm alerts))"
    using assms(1) unfolding correlate_eq [OF ne] Let_def bindE_eq_Inr by auto
  then have "inc \<in> set (item_incidents rd frepr (isoformat now) (run_items rd pm alerts))" using assms(2) by simp
  then show ?thesis by (rule item_incident_grouping) blast
qed

theorem grouping_fail_closed_witness:
  "\<exists>incs s inc c. correlate_alert_candidates iso_utc (\<lambda>x. ''0.0'') (Datetime 2026 9 12 13 0 0 0) sample_inputs Map.empty = Inr (incs, s) \<and>
    inc \<in> set incs \<and> set c \<subseteq> set (run_items iso_utc Map.empty sample_inputs) \<and> in_constituent_alert_ids inc = map item_id c"
proof -
  obtain incs s where r: "correlate_alert_candidates iso_utc (\<lambda>x. ''0.0'') (Datetime 2026 9 12 13 0 0 0) sample_inputs Map.empty = Inr (incs, s)"
    and "set (concat (map in_constituent_alert_ids incs)) = set (map (ac_alert_candidate_id \<circ> input_candidate) sample_inputs)"
    using correlate_attack_alerts [OF sample_inputs_attack(1)] by blast
  then obtain inc where "inc \<in> set incs" by (cases incs) auto
  with r grouping_fail_closed [OF r this] show ?thesis by blast
qed

section \<open>Order of arrival\<close>

lemma namespace_incidents_perm:
  assumes "mset xs = mset ys" "distinct (map item_id xs)"
  shows "namespace_incidents frepr now_iso ns xs = namespace_incidents frepr now_iso ns ys"
proof -
  have "inj_on chrono_key (set xs)"
    using assms(2) by (auto simp: distinct_map inj_on_def chrono_key_def)
  then have "sort_key chrono_key xs = sort_key chrono_key ys"
    by (intro sort_key_inj_key_eq) (use assms(1) in simp_all)
  then show ?thesis by (simp add: namespace_incidents_def)
qed

lemma item_incidents_perm:
  assumes "mset xs = mset ys" "distinct (map item_id xs)"
  shows "mset (item_incidents rd frepr now_iso xs) = mset (item_incidents rd frepr now_iso ys)"
proof -
  let ?v = "\<lambda>it. is_verified rd (item_prov it)"
  have v: "mset (filter ?v xs) = mset (filter ?v ys)" "set (filter ?v xs) = set (filter ?v ys)"
    using assms(1) mset_eq_setD [OF assms(1)] by simp_all
  have "namespace_incidents frepr now_iso q (filter (\<lambda>x. namespace_of x = q) (filter ?v xs)) =
      namespace_incidents frepr now_iso q (filter (\<lambda>x. namespace_of x = q) (filter ?v ys))" for q
  proof (rule namespace_incidents_perm)
    show "mset (filter (\<lambda>x. namespace_of x = q) (filter ?v xs)) = mset (filter (\<lambda>x. namespace_of x = q) (filter ?v ys))"
      using v(1) by (metis mset_filter)
    show "distinct (map item_id (filter (\<lambda>x. namespace_of x = q) (filter ?v xs)))"
      using assms(2) by (simp add: distinct_map_filter)
  qed
  then have "mset (concat (map (\<lambda>(ns, g). namespace_incidents frepr now_iso ns g) (group_by namespace_of (filter ?v xs)))) =
      mset (concat (map (\<lambda>(ns, g). namespace_incidents frepr now_iso ns g) (group_by namespace_of (filter ?v ys))))"
    unfolding mset_concat_groups v(2) by simp
  moreover have "mset (map f (filter q xs)) = mset (map f (filter q ys))" for f q
    using assms(1) by (simp add: mset_filter)
  ultimately show ?thesis unfolding item_incidents_def mset_append by simp
qed

lemma map_sort_key_self: "map f (sort_key f xs) = sort (map f xs)"
  by (rule properties_for_sort [symmetric]) simp_all

text \<open>C36: Correlation does not depend on the order of arrival: for attack alerts with distinct identifiers,
  two submissions of the same alerts in different orders return the same incidents, field by field, in
  the same sequence of times and identifiers, and the same summary.\<close>

theorem arrival_order_irrelevant:
  assumes "mset alerts = mset alerts'" "distinct (map (ac_alert_candidate_id \<circ> input_candidate) alerts)"
    and "\<forall>a \<in> set alerts. ac_decision (input_candidate a) = ''Attack''"
  shows "\<exists>incs incs' s. correlate_alert_candidates rd frepr now alerts pm = Inr (incs, s) \<and>
    correlate_alert_candidates rd frepr now alerts' pm = Inr (incs', s) \<and>
    mset incs = mset incs' \<and> map incident_order incs = map incident_order incs'"
proof (cases "alerts = []")
  case True
  then show ?thesis using assms(1)
    by (simp add: correlate_alert_candidates_def compute_alert_reduction_metrics_def)
next
  case False
  let ?k = "ac_alert_candidate_id \<circ> input_candidate"
  have ne: "alerts' \<noteq> []" using False assms(1) by auto
  have d': "distinct (map ?k alerts')"
    using assms(1,2) mset_eq_imp_distinct_iff [of "map ?k alerts" "map ?k alerts'"] by simp
  have dd: "dedupe ?k [] alerts = alerts" "dedupe ?k [] alerts' = alerts'"
    using assms(2) d' by (simp_all add: dedupe_distinct)
  have att: "\<forall>a \<in> set alerts'. ac_decision (input_candidate a) = ''Attack''" using assms(3) mset_eq_setD [OF assms(1)] by simp
  let ?i = "\<lambda>as. item_incidents rd frepr (isoformat now) (run_items rd pm as)"
  have ids: "map item_id (run_items rd pm as) = map ?k (dedupe ?k [] as)" for as by (simp add: run_items_def comp_def)
  have items: "mset (run_items rd pm alerts) = mset (run_items rd pm alerts')"
    using assms(1) by (simp add: run_items_def dd)
  have m: "mset (?i alerts) = mset (?i alerts')"
    by (rule item_incidents_perm [OF items]) (simp only: ids dd assms(2))
  have part: "mset (concat (map in_constituent_alert_ids (sort_key incident_order (?i as)))) = mset (map ?k (dedupe ?k [] as))" for as
    unfolding mset_concat_map_sort item_incidents_partition ids ..
  have esc: "\<forall>inc \<in> set (sort_key incident_order (?i as)). in_escalated_decision inc = ''Attack''"
    if "dedupe ?k [] as = as" "\<forall>a \<in> set as. ac_decision (input_candidate a) = ''Attack''" for as
  proof -
    have "\<forall>it \<in> set (run_items rd pm as). ac_decision (fst it) = ''Attack''" using that by (simp add: run_items_def)
    then show ?thesis using item_incident_attack by auto
  qed
  note a1 = metrics_accept [OF assms(2) False assms(3) part [of alerts, unfolded dd] esc [OF dd(1) assms(3)]]
  note a2 = metrics_accept [OF d' ne att part [of alerts', unfolded dd] esc [OF dd(2) att]]
  have l: "length alerts = length alerts'" "length (?i alerts) = length (?i alerts')"
    using assms(1) m by (auto dest: mset_eq_length)
  show ?thesis
    unfolding correlate_eq [OF False] correlate_eq [OF ne] Let_def dd a1 a2 bindE_simps
    using m by (simp add: map_sort_key_self l) (metis m mset_map sort_key_const properties_for_sort mset_sort sorted_sort)
qed

theorem arrival_order_irrelevant_witness:
  "\<exists>incs incs' s. correlate_alert_candidates iso_utc (\<lambda>x. ''0.0'') (Datetime 2026 9 12 13 0 0 0) sample_inputs Map.empty = Inr (incs, s) \<and>
    correlate_alert_candidates iso_utc (\<lambda>x. ''0.0'') (Datetime 2026 9 12 13 0 0 0) (rev sample_inputs) Map.empty = Inr (incs', s) \<and>
    mset incs = mset incs' \<and> map incident_order incs = map incident_order incs'"
  by (rule arrival_order_irrelevant [OF _ sample_inputs_attack(2,1)]) simp

end
