(* ===== verification/IncidentStore_Facts.thy ===== *)
theory IncidentStore_Facts
  imports IncidentStore Correlation_Facts "HOL-Library.Sublist"
begin

text \<open>
  The incident store stays consistent under correlations, telemetry and corrections: keys are
  unique, every constituent belongs to a stored incident whose count column counts it, no
  correction loses or duplicates an alert, and a correction request takes effect once.
\<close>

section \<open>Consistency\<close>

abbreviation members :: "incident_db \<Rightarrow> string \<Rightarrow> constituent list" where
  "members db i \<equiv> filter (\<lambda>c. cn_incident_id c = i) (ib_constituents db)"

definition store_inv :: "incident_db \<Rightarrow> bool" where
  "store_inv db \<longleftrightarrow> distinct (map in_incident_id (ib_incidents db)) \<and>
     distinct (map (\<lambda>c. (cn_incident_id c, cn_alert_candidate_id c)) (ib_constituents db)) \<and>
     cn_incident_id ` set (ib_constituents db) \<subseteq> in_incident_id ` set (ib_incidents db) \<and>
     (\<forall>r \<in> set (ib_incidents db). in_constituent_alert_count r = int (length (members db (in_incident_id r)))) \<and>
     distinct (map co_correction_request_id (ib_corrections db))"

definition incident_ok :: "incident \<Rightarrow> bool" where
  "incident_ok inc \<longleftrightarrow> in_constituent_alert_count inc = int (length (in_constituent_alert_ids inc))"

lemma constituents_of_simps [simp]:
  "map cn_incident_id (constituents_of inc) = replicate (length (in_constituent_alert_ids inc)) (in_incident_id inc)"
  "map cn_alert_candidate_id (constituents_of inc) = in_constituent_alert_ids inc"
  "length (constituents_of inc) = length (in_constituent_alert_ids inc)"
  by (simp_all add: constituents_of_def comp_def map_replicate_const)

lemma constituents_of_incident: "c \<in> set (constituents_of inc) \<Longrightarrow> cn_incident_id c = in_incident_id inc"
  by (auto simp: constituents_of_def)

lemma incident_columns_simps [simp]:
  "in_incident_id (incident_columns inc) = in_incident_id inc"
  "in_constituent_alert_count (incident_columns inc) = in_constituent_alert_count inc"
  by (simp_all add: incident_columns_def)

lemma insert_incident_body_inv:
  assumes "store_inv db" "incident_ok inc" "insert_incident_body db inc = Inr db'"
  shows "store_inv db' \<and> prefix (ib_constituents db) (ib_constituents db') \<and> ib_corrections db' = ib_corrections db"
proof (cases "list_ex (\<lambda>r. in_incident_id r = in_incident_id inc) (ib_incidents db)")
  case False
  then have new: "in_incident_id inc \<notin> in_incident_id ` set (ib_incidents db)" by (auto simp: list_ex_iff)
  have d: "distinct (map (\<lambda>c. (cn_incident_id c, cn_alert_candidate_id c)) (ib_constituents db @ constituents_of inc))"
    and db': "db' = db\<lparr>ib_incidents := ib_incidents db @ [incident_columns inc],
                   ib_constituents := ib_constituents db @ constituents_of inc\<rparr>"
    using assms(3) False by (auto simp: insert_incident_body_def split: if_splits)
  have none: "members db (in_incident_id inc) = []"
    unfolding filter_empty_conv using new assms(1) unfolding store_inv_def by (metis imageI subsetD)
  have own: "filter (\<lambda>c. cn_incident_id c = i) (constituents_of inc) =
      (if i = in_incident_id inc then constituents_of inc else [])" for i
    by (auto simp: filter_id_conv filter_empty_conv dest: constituents_of_incident)
  have "distinct (map in_incident_id (ib_incidents db'))" using new assms(1) by (simp add: db' store_inv_def)
  moreover have "cn_incident_id ` set (ib_constituents db') \<subseteq> in_incident_id ` set (ib_incidents db')"
    using assms(1) by (auto simp: db' store_inv_def dest: constituents_of_incident)
  moreover have "in_constituent_alert_count r = int (length (members db' (in_incident_id r)))"
    if "r \<in> set (ib_incidents db')" for r
  proof (cases "r \<in> set (ib_incidents db)")
    case True
    then have "in_incident_id r \<noteq> in_incident_id inc" using new by (metis imageI)
    with True assms(1) show ?thesis by (simp add: db' own store_inv_def)
  next
    case False
    with that have "r = incident_columns inc" by (simp add: db')
    with assms(2) none show ?thesis by (simp add: db' own incident_ok_def)
  qed
  moreover have "distinct (map co_correction_request_id (ib_corrections db'))" using assms(1) by (simp add: db' store_inv_def)
  ultimately show ?thesis using d unfolding store_inv_def by (simp add: db')
qed (use assms in \<open>simp add: insert_incident_body_def\<close>)

lemma insert_many_body_inv:
  "store_inv db \<Longrightarrow> list_all incident_ok incs \<Longrightarrow> insert_many_body db incs = Inr db' \<Longrightarrow>
     store_inv db' \<and> prefix (ib_constituents db) (ib_constituents db') \<and> ib_corrections db' = ib_corrections db"
proof (induction incs arbitrary: db)
  case (Cons inc incs)
  then obtain db1 where 1: "insert_incident_body db inc = Inr db1" "insert_many_body db1 incs = Inr db'"
    by (auto simp: bindE_eq_Inr)
  with insert_incident_body_inv [of db inc db1] Cons.IH [of db1] Cons.prems show ?case
    by (auto intro: prefix_order.trans)
qed simp

lemma correlate_incident_ok:
  assumes "correlate_alert_candidates rd frepr now alerts pm = Inr (incs, s)"
  shows "list_all incident_ok incs"
proof (cases "alerts = []")
  case False
  then have incs: "incs = sort_key incident_order (item_incidents rd frepr (isoformat now) (run_items rd pm alerts))"
    using assms unfolding correlate_eq [OF False] Let_def bindE_eq_Inr by auto
  have s: "incident_ok (singleton_incident n m ru re ns st su c)" for n m ru re ns st su c
    by (simp add: incident_ok_def singleton_incident_def)
  have c: "incident_ok (cluster_incident f n m w ru re ns cl)" for f n m w ru re ns cl
    by (simp add: incident_ok_def cluster_incident_def Let_def)
  have "incident_ok inc" if "inc \<in> set (item_incidents rd frepr (isoformat now) (run_items rd pm alerts))" for inc
    using that s c by (auto simp: item_incidents_def unverified_incident_def namespace_incidents_def Let_def
        burst_incident_def campaign_or_single_def campaign_incident_def verified_singleton_def)
  then show ?thesis by (simp add: incs list_all_iff)
qed (use assms in \<open>simp add: correlate_alert_candidates_def bindE_eq_Inr\<close>)

section \<open>Corrections\<close>

lemma incident_row_for_alertD:
  assumes "incident_row_for_alert db aid = Some orig"
  shows "orig \<in> set (ib_incidents db)"
    "\<exists>c \<in> set (ib_constituents db). cn_incident_id c = in_incident_id orig \<and> cn_alert_candidate_id c = aid"
proof -
  obtain c where c: "fetchone (\<lambda>c. cn_alert_candidate_id c = aid \<and>
      list_ex (\<lambda>r. in_incident_id r = cn_incident_id c) (ib_incidents db)) (ib_constituents db) = Some c"
    "fetchone (\<lambda>r. in_incident_id r = cn_incident_id c) (ib_incidents db) = Some orig"
    using assms by (auto simp: incident_row_for_alert_def split: option.splits)
  from fetchone_SomeD [OF c(1)] fetchone_SomeD [OF c(2)]
  show "orig \<in> set (ib_incidents db)"
    "\<exists>c \<in> set (ib_constituents db). cn_incident_id c = in_incident_id orig \<and> cn_alert_candidate_id c = aid" by auto
qed

text \<open>Deleting the one row of a key.\<close>

lemma remove_key:
  assumes "distinct (map key xs)" "x \<in> set xs"
  obtains as bs where "xs = as @ x # bs" "filter (\<lambda>y. key y \<noteq> key x) xs = as @ bs"
proof -
  obtain as bs where ab: "xs = as @ x # bs" using split_list [OF assms(2)] by blast
  then have "key x \<notin> set (map key as) \<union> set (map key bs)" using assms(1) by simp
  then have "filter (\<lambda>y. key y \<noteq> key x) as = as" "filter (\<lambda>y. key y \<noteq> key x) bs = bs"
    unfolding filter_id_conv by (metis UnI1 UnI2 imageI set_map)+
  with ab show thesis by (intro that [of as bs]) simp_all
qed

lemma split_alert_inv:
  assumes inv: "store_inv db" and row: "incident_row_for_alert db aid = Some orig"
    and ok: "split_alert db orig target aid actor reason now_iso = Inr db'"
  shows "store_inv db'" "mset (map cn_alert_candidate_id (ib_constituents db')) = mset (map cn_alert_candidate_id (ib_constituents db))"
    "ib_corrections db' = ib_corrections db" "map cn_alert_candidate_id (members db' target) = [aid]"
    "target \<in> in_incident_id ` set (ib_incidents db')"
proof -
  let ?key = "\<lambda>c. (cn_incident_id c, cn_alert_candidate_id c)"
  obtain x where x: "x \<in> set (ib_constituents db)" "?key x = (in_incident_id orig, aid)"
    using incident_row_for_alertD(2) [OF row] by auto
  have orig: "orig \<in> set (ib_incidents db)" by (rule incident_row_for_alertD(1) [OF row])
  obtain as bs where ab: "ib_constituents db = as @ x # bs" "filter (\<lambda>c. ?key c \<noteq> ?key x) (ib_constituents db) = as @ bs"
    using remove_key [of ?key "ib_constituents db" x] inv x(1) unfolding store_inv_def by blast
  define added where "added = \<lparr>cn_incident_id = target, cn_alert_candidate_id = aid,
    cn_member_justification = Some (split_justification aid actor reason)\<rparr>"
  have kept: "filter (\<lambda>c. \<not> (cn_incident_id c = in_incident_id orig \<and> cn_alert_candidate_id c = aid)) (ib_constituents db) = as @ bs"
    using ab(2) x(2) by simp
  have new: "target \<notin> in_incident_id ` set (ib_incidents db)"
    and db': "db' = db\<lparr>ib_incidents := update_where (\<lambda>r. in_incident_id r = in_incident_id orig)
                      (\<lambda>r. r\<lparr>in_constituent_alert_count := in_constituent_alert_count r - 1\<rparr>) (ib_incidents db)
                    @ [split_incident target now_iso orig], ib_constituents := (as @ bs) @ [added]\<rparr>"
    using ok unfolding split_alert_def Let_def kept added_def [symmetric]
    by (auto simp: list_ex_iff split: if_splits)
  have ids: "map in_incident_id (ib_incidents db') = map in_incident_id (ib_incidents db) @ [target]"
    by (simp add: db' update_where_keys split_incident_def)
  have fk: "\<forall>c \<in> set (as @ x # bs). cn_incident_id c \<in> in_incident_id ` set (ib_incidents db)"
    using inv ab(1) unfolding store_inv_def by (metis imageI subsetD)
  have tgt: "filter (\<lambda>c. cn_incident_id c = target) (as @ bs) = []"
    using fk new by (auto simp: filter_empty_conv)
  then show "map cn_alert_candidate_id (members db' target) = [aid]"
    by (simp add: db' added_def)
  show "mset (map cn_alert_candidate_id (ib_constituents db')) = mset (map cn_alert_candidate_id (ib_constituents db))"
    using x(2) by (simp add: db' ab(1) added_def)
  show "ib_corrections db' = ib_corrections db" by (simp add: db')
  show "target \<in> in_incident_id ` set (ib_incidents db')" using ids by (metis in_set_conv_decomp set_map)
  have cnt: "in_constituent_alert_count r = int (length (members db' (in_incident_id r)))"
    if "r \<in> set (ib_incidents db')" for r
  proof (cases "r = split_incident target now_iso orig")
    case True
    then show ?thesis using tgt by (simp add: db' added_def split_incident_def)
  next
    case False
    with that obtain r0 where r0: "r0 \<in> set (ib_incidents db)" "r = (if in_incident_id r0 = in_incident_id orig
        then r0\<lparr>in_constituent_alert_count := in_constituent_alert_count r0 - 1\<rparr> else r0)"
      by (auto simp: db' set_update_where)
    then have id: "in_incident_id r = in_incident_id r0" by simp
    have "in_incident_id r0 \<noteq> target" using new r0(1) by auto
    moreover have "in_constituent_alert_count r0 = int (length (members db (in_incident_id r0)))"
      using inv r0(1) by (simp add: store_inv_def)
    ultimately show ?thesis
      using r0(2) x(2) unfolding id by (auto simp: db' ab(1) added_def)
  qed
  have "distinct (map ?key (as @ x # bs))" using inv ab(1) by (simp add: store_inv_def)
  moreover have "?key added \<notin> set (map ?key (as @ bs))"
    using tgt by (auto simp: added_def filter_empty_conv)
  ultimately have "distinct (map ?key (ib_constituents db'))" by (auto simp: db')
  moreover have "cn_incident_id ` set (ib_constituents db') \<subseteq> in_incident_id ` set (ib_incidents db')"
    using fk unfolding set_map [symmetric] ids by (auto simp: db' added_def)
  ultimately show "store_inv db'"
    using inv new cnt ids unfolding store_inv_def by (simp add: db')
qed

lemma correction_body_effect:
  assumes "store_inv db" "correction_body now db aid new_id actor reason request = Inr (db', res)"
  shows "store_inv db'" "mset (map cn_alert_candidate_id (ib_constituents db')) = mset (map cn_alert_candidate_id (ib_constituents db))"
    "prefix (ib_corrections db) (ib_corrections db')"
proof -
  consider (replay) "db' = db"
    | (new) orig db1 entry where "fetchone (\<lambda>c. co_correction_request_id c = request) (ib_corrections db) = None"
        "incident_row_for_alert db aid = Some orig" "co_correction_request_id entry = request"
        "db1 = db \<or> (\<exists>target. split_alert db orig target aid actor reason (isoformat now) = Inr db1)"
        "db' = db1\<lparr>ib_corrections := ib_corrections db1 @ [entry]\<rparr>"
  proof (cases "fetchone (\<lambda>c. co_correction_request_id c = request) (ib_corrections db)")
    case (Some old)
    with assms(2) replay show thesis by (auto simp: correction_body_def split: option.splits if_splits)
  next
    case None
    with assms(2) obtain orig where o: "incident_row_for_alert db aid = Some orig"
      by (auto simp: correction_body_def split: option.splits)
    let ?T = "if in_constituent_alert_count orig \<le> 1 then in_incident_id orig
      else if or_empty new_id = [] then derive_incident_id ''corr_manual_correction_split_v1'' [aid] else or_empty new_id"
    let ?e = "\<lparr>co_correction_request_id = request, co_alert_candidate_id = aid,
      co_original_incident_id = in_incident_id orig, co_target_incident_id = ?T,
      co_actor_id = actor, co_reason = reason, co_created_at = isoformat now\<rparr>"
    obtain db1 where b: "(if in_constituent_alert_count orig \<le> 1 then Inr db
        else split_alert db orig ?T aid actor reason (isoformat now)) = Inr db1"
      and d: "db' = db1\<lparr>ib_corrections := ib_corrections db1 @ [?e]\<rparr>"
      using assms(2) unfolding correction_body_def None o option.case Let_def bindE_eq_Inr by blast
    have "db1 = db \<or> (\<exists>target. split_alert db orig target aid actor reason (isoformat now) = Inr db1)"
      using b by (cases "in_constituent_alert_count orig \<le> 1") auto
    then show thesis using new [OF None o _ _ d] by simp
  qed
  then have "store_inv db' \<and> mset (map cn_alert_candidate_id (ib_constituents db')) = mset (map cn_alert_candidate_id (ib_constituents db))
    \<and> prefix (ib_corrections db) (ib_corrections db')"
  proof cases
    case new
    have 1: "store_inv db1" "mset (map cn_alert_candidate_id (ib_constituents db1)) = mset (map cn_alert_candidate_id (ib_constituents db))"
      "ib_corrections db1 = ib_corrections db"
      using new(4) split_alert_inv [OF assms(1) new(2)] assms(1) by blast+
    have "request \<notin> set (map co_correction_request_id (ib_corrections db))"
      using new(1) by (auto simp: fetchone_None_iff)
    with 1 new(3,5) show ?thesis by (simp add: store_inv_def)
  qed (use assms(1) in simp)
  then show "store_inv db'" "mset (map cn_alert_candidate_id (ib_constituents db')) = mset (map cn_alert_candidate_id (ib_constituents db))"
    "prefix (ib_corrections db) (ib_corrections db')" by blast+
qed

lemma correct_grouping_store:
  "fst (correct_incident_grouping fault rf now db aid new_id actor reason request) = db \<or>
   (\<exists>res. correction_body now db aid new_id actor reason request =
      Inr (fst (correct_incident_grouping fault rf now db aid new_id actor reason request), res))"
  by (auto simp: correct_incident_grouping_def in_transaction_def split: sum.splits prod.splits)

section \<open>Runs\<close>

datatype incident_command =
    Correlate iso_parser "pyfloat \<Rightarrow> string" datetime sqlite_fault "alert_input list" "string \<Rightarrow> provenance option"
  | Telemetry sqlite_fault string pyfloat pyfloat "pyfloat option"
  | Correct sqlite_fault sqlite_fault datetime string "string option" string string string

fun incident_step :: "incident_db \<Rightarrow> incident_command \<Rightarrow> incident_db" where
  "incident_step db (Correlate rd frepr now fault alerts pm) =
     the (fst (engine_correlate rd frepr now fault (Some db) alerts pm))"
| "incident_step db (Telemetry fault i a b t) = fst (record_investigation_telemetry fault db i a b t)"
| "incident_step db (Correct fault rf now aid new_id actor reason request) =
     fst (correct_incident_grouping fault rf now db aid new_id actor reason request)"

text \<open>No alert disappears, and corrections are only appended.\<close>

definition store_extends :: "incident_db \<Rightarrow> incident_db \<Rightarrow> bool" where
  "store_extends db db' \<longleftrightarrow> mset (map cn_alert_candidate_id (ib_constituents db)) \<subseteq>#
     mset (map cn_alert_candidate_id (ib_constituents db')) \<and> prefix (ib_corrections db) (ib_corrections db')"

lemma engine_correlate_store:
  assumes "store_inv db"
  shows "store_inv (incident_step db (Correlate rd frepr now fault alerts pm)) \<and>
    store_extends db (incident_step db (Correlate rd frepr now fault alerts pm))"
proof -
  let ?step = "incident_step db (Correlate rd frepr now fault alerts pm)"
  show ?thesis
  proof (cases "correlate_alert_candidates rd frepr now alerts pm")
    case (Inl e)
    then show ?thesis using assms by (simp add: engine_correlate_def store_extends_def)
  next
    case (Inr r)
    obtain incs s where r: "r = (incs, s)" by fastforce
    show ?thesis
    proof (cases "incs = [] \<or> fault \<noteq> No_fault \<or> (\<exists>e. insert_many_body db incs = Inl e)")
      case True
      then have "?step = db"
        using Inr r by (auto simp: engine_correlate_def insert_many_def in_transaction_def)
      then show ?thesis using assms by (simp add: store_extends_def)
    next
      case False
      then obtain db' where b: "incs \<noteq> []" "fault = No_fault" "insert_many_body db incs = Inr db'"
        by (cases "insert_many_body db incs") auto
      then have "?step = db'" using Inr r by (simp add: engine_correlate_def insert_many_def in_transaction_def)
      moreover have "store_inv db' \<and> prefix (ib_constituents db) (ib_constituents db') \<and> ib_corrections db' = ib_corrections db"
        by (rule insert_many_body_inv [OF assms correlate_incident_ok [OF Inr [unfolded r]] b(3)])
      ultimately show ?thesis by (auto simp: store_extends_def prefix_def)
    qed
  qed
qed

lemma store_inv_update:
  assumes "store_inv db" "\<And>r. in_incident_id (f r) = in_incident_id r"
    "\<And>r. in_constituent_alert_count (f r) = in_constituent_alert_count r"
  shows "store_inv (db\<lparr>ib_incidents := update_where q f (ib_incidents db)\<rparr>)"
proof -
  have k: "map in_incident_id (update_where q f (ib_incidents db)) = map in_incident_id (ib_incidents db)"
    by (rule update_where_keys) (rule assms(2))
  then have "in_incident_id ` set (update_where q f (ib_incidents db)) = in_incident_id ` set (ib_incidents db)"
    by (metis set_map)
  with assms k show ?thesis by (auto simp: store_inv_def set_update_where)
qed

lemma telemetry_store:
  assumes "store_inv db"
  shows "store_inv (incident_step db (Telemetry fault i a b t)) \<and> store_extends db (incident_step db (Telemetry fault i a b t))"
  using assms by (auto simp: record_investigation_telemetry_def in_transaction_def Let_def store_extends_def
      intro!: store_inv_update)

lemma correct_store:
  assumes "store_inv db"
  shows "store_inv (incident_step db (Correct fault rf now aid new_id actor reason request)) \<and>
    store_extends db (incident_step db (Correct fault rf now aid new_id actor reason request))"
  using correct_grouping_store [of fault rf now db aid new_id actor reason request] correction_body_effect [OF assms] assms
  unfolding incident_step.simps store_extends_def by (metis prefix_order.refl subset_mset.order_refl)

lemma incident_step_store: "store_inv d \<Longrightarrow> store_inv (incident_step d c) \<and> store_extends d (incident_step d c)"
  by (cases c) (simp_all only: engine_correlate_store telemetry_store correct_store)

interpretation incidents: monotone_machine incident_step "\<lambda>d. d = new_incident_db" store_inv store_extends
proof
  show "store_inv d" if "d = new_incident_db" for d using that by (simp add: store_inv_def new_incident_db_def)
  show "store_inv (incident_step d c)" "store_extends d (incident_step d c)" if "store_inv d" for d c
    using incident_step_store [OF that] by blast+
qed (auto simp: store_extends_def intro: prefix_order.trans subset_mset.order_trans)

text \<open>C37: The incident store stays consistent and loses nothing.  After any sequence of correlations,
  telemetry updates and corrections, with any faults: incident identifiers, constituent keys and
  correction requests are unique, every constituent row belongs to a stored incident, each incident's
  count column is the number of its constituents, and no later command removes an alert from the store
  or an entry from the correction log.\<close>

theorem incident_store_consistent:
  "let db = foldl incident_step new_incident_db cs; db' = foldl incident_step new_incident_db (cs @ cs') in
     store_inv db \<and> store_extends db db'"
proof -
  have inv: "store_inv (foldl incident_step new_incident_db cs)" by (rule incidents.inv_from_start) simp
  from incidents.extends_run [OF this, of cs'] inv show ?thesis by (simp add: Let_def)
qed

section \<open>A correction takes effect once\<close>

definition split_target :: "string option \<Rightarrow> string \<Rightarrow> string" where
  "split_target new_id aid = (if or_empty new_id = [] then derive_incident_id ''corr_manual_correction_split_v1'' [aid]
     else or_empty new_id)"

lemma correction_body_split:
  assumes "store_inv db" "fetchone (\<lambda>c. co_correction_request_id c = request) (ib_corrections db) = None"
    and "incident_row_for_alert db aid = Some orig" "1 < in_constituent_alert_count orig"
    and "split_target new_id aid \<notin> in_incident_id ` set (ib_incidents db)"
  obtains db1 entry where "split_alert db orig (split_target new_id aid) aid actor reason (isoformat now) = Inr db1"
    "correction_body now db aid new_id actor reason request =
      Inr (db1\<lparr>ib_corrections := ib_corrections db1 @ [entry]\<rparr>, Inr (split_target new_id aid))"
    "co_correction_request_id entry = request" "co_alert_candidate_id entry = aid"
    "co_actor_id entry = actor" "co_target_incident_id entry = split_target new_id aid"
proof -
  let ?t = "split_target new_id aid"
  have "\<forall>c \<in> set (ib_constituents db). cn_incident_id c \<noteq> ?t"
    using assms(1,5) unfolding store_inv_def by (metis imageI subsetD)
  then have "\<exists>db1. split_alert db orig ?t aid actor reason (isoformat now) = Inr db1"
  proof -
    have "\<not> list_ex (\<lambda>r. in_incident_id r = ?t) (ib_incidents db)"
      using assms(5) unfolding list_ex_iff by (metis imageI)
    moreover have "\<not> list_ex (\<lambda>c. cn_incident_id c = ?t \<and> cn_alert_candidate_id c = aid) (filter q (ib_constituents db))" for q
      using \<open>\<forall>c \<in> set (ib_constituents db). cn_incident_id c \<noteq> ?t\<close> by (auto simp: list_ex_iff)
    ultimately show ?thesis unfolding split_alert_def Let_def by simp
  qed
  then obtain db1 where s: "split_alert db orig ?t aid actor reason (isoformat now) = Inr db1" by blast
  then show thesis
    using that [OF s, of "\<lparr>co_correction_request_id = request, co_alert_candidate_id = aid,
      co_original_incident_id = in_incident_id orig, co_target_incident_id = ?t,
      co_actor_id = actor, co_reason = reason, co_created_at = isoformat now\<rparr>"] assms(2-4)
    by (simp add: correction_body_def Let_def split_target_def)
qed

text \<open>A correction moves one alert and takes effect once.  In a consistent store, a new, complete
  request for an alert whose incident has others, with an unused target, returns the target incident
  with that alert as its only constituent; the alerts of the store stay the same with their
  multiplicities and the store stays consistent; and repeating the request, with whatever reason and
  target, changes nothing and returns the same incident identifier and constituents, while the same
  request identifier for another alert or actor is refused.\<close>

theorem correction_takes_effect_once:
  assumes "store_inv db" "fetchone (\<lambda>c. co_correction_request_id c = request) (ib_corrections db) = None"
    and "incident_row_for_alert db aid = Some orig" "1 < in_constituent_alert_count orig"
    and "split_target new_id aid \<notin> in_incident_id ` set (ib_incidents db)"
    and "\<not> blank aid" "\<not> blank actor" "\<not> blank reason" "\<not> blank request"
  shows "\<exists>db' inc. correct_incident_grouping No_fault No_fault now db aid new_id actor reason request = (db', Inr (Some inc)) \<and>
    in_incident_id inc = split_target new_id aid \<and> in_constituent_alert_ids inc = [aid] \<and> store_inv db' \<and>
    mset (map cn_alert_candidate_id (ib_constituents db')) = mset (map cn_alert_candidate_id (ib_constituents db)) \<and>
    (\<not> blank reason' \<longrightarrow> (\<exists>inc'. correct_incident_grouping No_fault rf now' db' aid new_id' actor reason' request = (db', Inr (Some inc')) \<and>
       in_incident_id inc' = split_target new_id aid \<and> in_constituent_alert_ids inc' = [aid])) \<and>
    (\<not> blank aid' \<and> \<not> blank actor' \<and> \<not> blank reason' \<and> (aid' \<noteq> aid \<or> actor' \<noteq> actor) \<longrightarrow>
       correct_incident_grouping No_fault rf now' db' aid' new_id' actor' reason' request =
         (db', Inl (Ie_safety ''correction_request_conflict'')))"
proof -
  let ?t = "split_target new_id aid"
  obtain db1 entry where e: "split_alert db orig ?t aid actor reason (isoformat now) = Inr db1"
    "correction_body now db aid new_id actor reason request =
      Inr (db1\<lparr>ib_corrections := ib_corrections db1 @ [entry]\<rparr>, Inr ?t)"
    "co_correction_request_id entry = request" "co_alert_candidate_id entry = aid"
    "co_actor_id entry = actor" "co_target_incident_id entry = ?t"
    using correction_body_split [OF assms(1-5)] by blast
  define db' where "db' = db1\<lparr>ib_corrections := ib_corrections db1 @ [entry]\<rparr>"
  note sp = split_alert_inv [OF assms(1,3) e(1)]
  note be = correction_body_effect [OF assms(1) e(2), folded db'_def]
  obtain row where row: "row \<in> set (ib_incidents db')" "in_incident_id row = ?t"
    using sp(5) by (auto simp: db'_def)
  then have f: "fetchone (\<lambda>r. in_incident_id r = ?t) (ib_incidents db') = Some row"
    using fetchone_key_unique [of in_incident_id "ib_incidents db'" row] be(1) by (simp add: store_inv_def)
  obtain c where "members db' ?t = [c]" "cn_alert_candidate_id c = aid" using sp(4) by (auto simp: db'_def)
  then have ids: "in_constituent_alert_ids (incident_of_row db' row) = [aid]"
    by (simp add: incident_of_row_def Let_def select_where_def row(2))
  have idr: "in_incident_id (incident_of_row db' row) = ?t" using row(2) by (simp add: incident_of_row_def Let_def)
  have first: "correct_incident_grouping No_fault No_fault now db aid new_id actor reason request = (db', Inr (Some (incident_of_row db' row)))"
    using assms(6-9) e(2) f by (simp add: correct_incident_grouping_def in_transaction_def db'_def [symmetric] get_incident_def)
  have again: "fetchone (\<lambda>c. co_correction_request_id c = request) (ib_corrections db') = Some entry"
    using assms(2) e(3) sp(3) by (simp add: db'_def fetchone_append)
  have "\<exists>inc'. correct_incident_grouping No_fault rf now' db' aid new_id' actor reason' request = (db', Inr (Some inc')) \<and>
       in_incident_id inc' = ?t \<and> in_constituent_alert_ids inc' = [aid]" if "\<not> blank reason'"
    using assms(6,7,9) that again e(4-6) f ids idr
    by (simp add: correct_incident_grouping_def in_transaction_def correction_body_def)
  moreover have "correct_incident_grouping No_fault rf now' db' aid' new_id' actor' reason' request =
      (db', Inl (Ie_safety ''correction_request_conflict''))"
    if "\<not> blank aid'" "\<not> blank actor'" "\<not> blank reason'" "aid' \<noteq> aid \<or> actor' \<noteq> actor"
    using assms(9) that again e(4,5) by (auto simp: correct_incident_grouping_def in_transaction_def correction_body_def)
  ultimately show ?thesis using first ids idr be(1,2) by blast
qed

definition sample_store :: incident_db where
  "sample_store = \<lparr>ib_incidents = [(split_incident ''i1'' ''t'' (unverified_incident iso_utc ''t'' (sample_alert, default_provenance, 0)))
       \<lparr>in_constituent_alert_count := 2\<rparr>],
     ib_constituents = map (\<lambda>a. \<lparr>cn_incident_id = ''i1'', cn_alert_candidate_id = a, cn_member_justification = None\<rparr>) [''a1'', ''a2''],
     ib_corrections = []\<rparr>"

theorem correction_takes_effect_once_witness:
  "\<exists>db' inc. correct_incident_grouping No_fault No_fault (Datetime 2026 1 1 0 0 0 0) sample_store ''a1'' (Some ''i2'') ''bob'' ''x'' ''r'' =
      (db', Inr (Some inc)) \<and> in_constituent_alert_ids inc = [''a1'']"
proof -
  have "\<exists>orig. incident_row_for_alert sample_store ''a1'' = Some orig \<and> 1 < in_constituent_alert_count orig"
    by (simp add: sample_store_def incident_row_for_alert_def split_incident_def fetchone_def)
  then obtain orig where o: "incident_row_for_alert sample_store ''a1'' = Some orig" "1 < in_constituent_alert_count orig" by blast
  have s: "store_inv sample_store"
    "fetchone (\<lambda>c. co_correction_request_id c = ''r'') (ib_corrections sample_store) = None"
    "split_target (Some ''i2'') ''a1'' \<notin> in_incident_id ` set (ib_incidents sample_store)"
    by (simp_all add: store_inv_def sample_store_def split_target_def or_empty_def split_incident_def)
  have b: "\<not> blank ''a1''" "\<not> blank ''bob''" "\<not> blank ''x''" "\<not> blank ''r''" by code_simp+
  show ?thesis
    using correction_takes_effect_once [OF s(1,2) o s(3) b, of "Datetime 2026 1 1 0 0 0 0"] by blast
qed

end
