(* ===== verification/Orchestrator.thy ===== *)
theory Orchestrator
  imports Gates ReplayJournal SecurityAudit AlertStore Response
begin

text \<open>
  \<^verbatim>\<open>ProducerOrchestrator\<close> of \<^verbatim>\<open>api/producer_orchestrator.py\<close>, the component that joins
  admission, gates, replay journal, security audit, inference and alert store for one connection,
  in its production mode (a worker process; the inline mode is for tests only).  An operation maps
  the world, that is the state of the components, to the new world and a result or the code of a
  \<^verbatim>\<open>ProducerOrchestratorError\<close>.  Everything read from outside (clocks, random identifiers and
  tokens, engine faults, the worker, the socket) is a function of the number of readings made
  before, so that successive readings are unrelated.
\<close>

section \<open>Effects\<close>

record orc_world =
  ow_fatal :: bool
  ow_gates :: gates
  ow_journal :: "journal_row list"
  ow_audit :: "audit_row list"
  ow_alerts :: "alert_row list"
  ow_written :: "string list"
  ow_tick :: nat

type_synonym 'a orc = "orc_world \<Rightarrow> orc_world \<times> (string + 'a)"

definition returnO :: "'a \<Rightarrow> 'a orc" where
  "returnO x = (\<lambda>w. (w, Inr x))"

definition raiseO :: "string \<Rightarrow> 'a orc" where
  "raiseO code = (\<lambda>w. (w, Inl code))"

definition bindO :: "'a orc \<Rightarrow> ('a \<Rightarrow> 'b orc) \<Rightarrow> 'b orc" where
  "bindO m f = (\<lambda>w. case m w of (w', Inl e) \<Rightarrow> (w', Inl e) | (w', Inr x) \<Rightarrow> f x w')"

text \<open>\<^verbatim>\<open>try: x = m  except ProducerOrchestratorError as e: h(e)  else: k(x)\<close>\<close>

definition tryO :: "'a orc \<Rightarrow> (string \<Rightarrow> 'b orc) \<Rightarrow> ('a \<Rightarrow> 'b orc) \<Rightarrow> 'b orc" where
  "tryO m h k = (\<lambda>w. case m w of (w', Inl e) \<Rightarrow> h e w' | (w', Inr x) \<Rightarrow> k x w')"

definition readO :: "(nat \<Rightarrow> 'a) \<Rightarrow> 'a orc" where
  "readO f = (\<lambda>w. (w\<lparr>ow_tick := Suc (ow_tick w)\<rparr>, Inr (f (ow_tick w))))"

definition set_fatal :: "unit orc" where
  "set_fatal = (\<lambda>w. (w\<lparr>ow_fatal := True\<rparr>, Inr ()))"

text \<open>Running a component on its part of the world; its own errors are values.\<close>

definition on_gates :: "(gates \<Rightarrow> gates \<times> 'a) \<Rightarrow> 'a orc" where
  "on_gates f = (\<lambda>w. let (g, x) = f (ow_gates w) in (w\<lparr>ow_gates := g\<rparr>, Inr x))"

definition on_journal :: "(journal_row list \<Rightarrow> journal_row list \<times> 'a) \<Rightarrow> 'a orc" where
  "on_journal f = (\<lambda>w. let (t, x) = f (ow_journal w) in (w\<lparr>ow_journal := t\<rparr>, Inr x))"

definition on_audit :: "(audit_row list \<Rightarrow> audit_row list \<times> 'a) \<Rightarrow> 'a orc" where
  "on_audit f = (\<lambda>w. let (t, x) = f (ow_audit w) in (w\<lparr>ow_audit := t\<rparr>, Inr x))"

definition on_alerts :: "(alert_row list \<Rightarrow> alert_row list \<times> 'a) \<Rightarrow> 'a orc" where
  "on_alerts f = (\<lambda>w. let (t, x) = f (ow_alerts w) in (w\<lparr>ow_alerts := t\<rparr>, Inr x))"

section \<open>Collaborators\<close>

record transport_error =
  te_code :: string
  te_reason :: string

record request_head =
  rh_content_type :: string
  rh_content_length :: int

text \<open>
  An authenticated session: the producer and the evidence the listener established, and what
  reading the request head and the body will give.
\<close>

record session =
  se_producer :: admitted_producer
  se_peer :: peer_evidence
  se_head :: "transport_error + request_head"
  se_body :: "transport_error + string"

text \<open>How \<^verbatim>\<open>execute\<close> of the worker ends: results, one of its two error types, or another exception.\<close>

datatype worker_outcome =
    Worker_results "registered_result list"
  | Worker_network_error
  | Worker_error string
  | Worker_other

record orc_env =
  oe_registry :: "certificate_record list"
  oe_generation :: string
  oe_audit_capacity :: nat
  oe_fparse :: "string \<Rightarrow> pyfloat"
  oe_frepr :: "pyfloat \<Rightarrow> string"
  oe_now :: "nat \<Rightarrow> datetime option"
  oe_monotonic :: "nat \<Rightarrow> pyfloat option"
  oe_gate_clock :: "nat \<Rightarrow> int option"
  oe_uuid :: "nat \<Rightarrow> string"
  oe_token :: "nat \<Rightarrow> string"
  oe_audit_fault :: "nat \<Rightarrow> sqlite_fault"
  oe_journal_fault :: "nat \<Rightarrow> sqlite_fault"
  oe_alert_fault :: "nat \<Rightarrow> alert_fault"
  oe_write_ok :: "nat \<Rightarrow> bool"
  oe_worker :: "nat \<Rightarrow> (string \<times> int) list \<Rightarrow> worker_outcome"

record orc_result =
  or_reason :: string
  or_response_bytes :: "string option"
  or_fatal :: bool

section \<open>Audit events\<close>

definition AUDIT :: "(string \<times> taxonomy) list" where
  "AUDIT =
    [(''authentication_failed'', ''authentication_rejected'', ''authentication'', ''rejected'', ''authentication_failed''),
     (''credential_disabled'', ''authentication_rejected'', ''authentication'', ''rejected'', ''credential_disabled''),
     (''credential_revoked'', ''authentication_rejected'', ''authentication'', ''rejected'', ''credential_revoked''),
     (''credential_not_yet_valid'', ''authentication_rejected'', ''authentication'', ''rejected'', ''credential_not_yet_valid''),
     (''credential_expired'', ''authentication_rejected'', ''authentication'', ''rejected'', ''credential_expired''),
     (''producer_mismatch'', ''producer_admission_rejected'', ''admission'', ''rejected'', ''producer_mismatch''),
     (''source_contract_denied'', ''producer_admission_rejected'', ''admission'', ''rejected'', ''source_contract_denied''),
     (''invalid_request'', ''producer_admission_rejected'', ''admission'', ''rejected'', ''invalid_request''),
     (''request_time_invalid'', ''producer_admission_rejected'', ''admission'', ''rejected'', ''request_time_invalid''),
     (''request_too_large'', ''producer_admission_rejected'', ''admission'', ''rejected'', ''request_too_large''),
     (''body_incomplete'', ''producer_admission_rejected'', ''admission'', ''rejected'', ''body_incomplete''),
     (''rate_limited'', ''rate_limited'', ''rate_control'', ''rejected'', ''rate_limited''),
     (''server_busy'', ''server_busy'', ''concurrency_control'', ''rejected'', ''server_busy''),
     (''request_admitted'', ''request_admitted'', ''admission'', ''admitted'', ''request_admitted''),
     (''request_in_progress'', ''replay_in_progress'', ''replay'', ''deferred'', ''request_in_progress''),
     (''request_replay_rejected'', ''replay_conflict'', ''replay'', ''rejected'', ''request_replay_rejected''),
     (''outcome_unknown'', ''replay_outcome_unknown'', ''replay'', ''unknown'', ''outcome_unknown''),
     (''request_completed'', ''request_completed'', ''completion'', ''completed'', ''request_completed''),
     (''internal_error'', ''internal_failure'', ''internal'', ''failed'', ''internal_error''),
     (''clock_unavailable'', ''internal_failure'', ''internal'', ''failed'', ''clock_unavailable''),
     (''request_timeout'', ''internal_failure'', ''processing'', ''failed'', ''request_timeout''),
     (''processing_timeout'', ''internal_failure'', ''processing'', ''failed'', ''processing_timeout''),
     (''audit_unavailable'', ''internal_failure'', ''audit'', ''failed'', ''audit_unavailable''),
     (''recovery_completed'', ''startup_recovery'', ''recovery'', ''completed'', ''recovery_completed'')]"

definition now_of :: "orc_env \<Rightarrow> datetime orc" where
  "now_of env = bindO (readO (oe_now env)) (\<lambda>v. case v of
     None \<Rightarrow> raiseO ''trusted_time_unavailable'' | Some t \<Rightarrow> returnO t)"

definition monotonic_now :: "orc_env \<Rightarrow> rat orc" where
  "monotonic_now env = bindO (readO (oe_monotonic env)) (\<lambda>v. case v of
     Some (Fin x) \<Rightarrow> if x < 0 then raiseO ''monotonic_clock_invalid'' else returnO x
   | _ \<Rightarrow> raiseO ''monotonic_clock_invalid'')"

text \<open>The identities an event carries: those of the session, overridden by those of the record.\<close>

definition evidence_of :: "session option \<Rightarrow> admission_record option \<Rightarrow> string option \<Rightarrow> audit_evidence" where
  "evidence_of sess rec cid = (case rec of
     Some r \<Rightarrow> \<lparr>ad_correlation_id = Some (ar_correlation_id r), ad_producer_id = Some (ar_producer_id r),
       ad_source_contract_id = Some (ar_source_contract r),
       ad_credential_sha256 = Some (ar_credential_id r),
       ad_request_id_sha256 = Some (sha256_hex (ar_request_id r)), ad_body_sha256 = Some (ar_body_sha256 r)\<rparr>
   | None \<Rightarrow> \<lparr>ad_correlation_id = cid,
       ad_producer_id = map_option (\<lambda>s. ap_producer_id (se_producer s)) sess,
       ad_source_contract_id = map_option (\<lambda>_. REGISTERED_UNSW_SOURCE_CONTRACT) sess,
       ad_credential_sha256 = map_option (\<lambda>s. ap_credential_id (se_producer s)) sess,
       ad_request_id_sha256 = None, ad_body_sha256 = None\<rparr>)"

definition append_audit ::
  "orc_env \<Rightarrow> string \<Rightarrow> session option \<Rightarrow> admission_record option \<Rightarrow> string option \<Rightarrow> unit orc" where
  "append_audit env reason sess rec cid = (case map_of AUDIT reason of
     None \<Rightarrow> raiseO ''audit_mapping_invalid''
   | Some taxonomy \<Rightarrow>
      bindO (readO (oe_now env)) (\<lambda>t. bindO (readO (oe_uuid env)) (\<lambda>event_id.
        case create_audit_event taxonomy (evidence_of sess rec cid) t event_id of
          Inl _ \<Rightarrow> raiseO ''audit_unavailable''
        | Inr event \<Rightarrow> bindO (readO (oe_audit_fault env)) (\<lambda>fault.
            bindO (on_audit (\<lambda>a. append_event (oe_audit_capacity env) fault a event)) (\<lambda>res.
              case res of Inl _ \<Rightarrow> raiseO ''audit_unavailable'' | Inr _ \<Rightarrow> returnO ())))))"

section \<open>Responses and reasons\<close>

definition serialize_reason :: "orc_env \<Rightarrow> string \<Rightarrow> string" where
  "serialize_reason env response = (case decode_producer_response (oe_fparse env) response of
     Inl _ \<Rightarrow> ''internal_error'' | Inr r \<Rightarrow> pr_reason r)"

text \<open>A response is validated when it is built; an absent correlation identifier is not valid.\<close>

definition build_response :: "orc_env \<Rightarrow> string option \<Rightarrow> string \<Rightarrow> record_disposition list \<Rightarrow> string option" where
  "build_response env cid reason records = (case cid of None \<Rightarrow> None
     | Some c \<Rightarrow> (let r = \<lparr>pr_schema_version = ORCHESTRATOR_RESPONSE_SCHEMA, pr_correlation_id = c,
         pr_reason = reason, pr_records = records\<rparr> in
       if \<not> valid_response r then None
       else case serialize_producer_response (oe_frepr env) r of Inl _ \<Rightarrow> None | Inr b \<Rightarrow> Some b))"

definition response_of :: "orc_env \<Rightarrow> string option \<Rightarrow> string \<Rightarrow> record_disposition list \<Rightarrow> string orc" where
  "response_of env cid reason records = (case build_response env cid reason records of
     None \<Rightarrow> raiseO ''response_invalid'' | Some b \<Rightarrow> returnO b)"

definition admission_reason :: "adm_error \<Rightarrow> string" where
  "admission_reason e = (case ae_event e of
     EV_producer_mismatch \<Rightarrow> ''producer_mismatch''
   | EV_source_contract_denied \<Rightarrow> ''source_contract_denied''
   | EV_request_time_invalid \<Rightarrow> ''request_time_invalid''
   | EV_request_too_large \<Rightarrow> ''request_too_large''
   | EV_body_incomplete \<Rightarrow> ''body_incomplete''
   | _ \<Rightarrow> ''invalid_request'')"

definition transport_reason :: "transport_error \<Rightarrow> bool \<Rightarrow> string" where
  "transport_reason e authenticated =
     (if \<not> authenticated then
        (if te_reason e \<in> set [''credential_disabled'', ''credential_revoked'',
              ''credential_not_yet_valid'', ''credential_expired'']
         then te_reason e else ''authentication_failed'')
      else if te_code e = ''request_too_large'' then ''request_too_large''
      else if te_code e \<in> set [''body_incomplete'', ''request_read_failed'', ''unexpected_trailing_data'']
      then ''body_incomplete''
      else if te_reason e = ''request_timeout'' then ''request_timeout''
      else ''invalid_request'')"

text \<open>\<^verbatim>\<open>_write\<close>: the bytes are handed to the connection, whose write may fail; \<open>ow_written\<close> lists what was
  handed over, whether or not the write then failed.\<close>

definition write_response :: "orc_env \<Rightarrow> string \<Rightarrow> orc_result orc" where
  "write_response env response = bindO (readO (oe_write_ok env)) (\<lambda>ok w.
     (w\<lparr>ow_written := ow_written w @ [response]\<rparr>,
      Inr \<lparr>or_reason = (if ok then serialize_reason env response else ''response_write_failed''),
           or_response_bytes = Some response, or_fatal = ow_fatal w\<rparr>))"

text \<open>
  \<^verbatim>\<open>_audit_or_unavailable\<close>: nothing when the event was appended, otherwise the result of the
  \<^verbatim>\<open>audit_unavailable\<close> response.
\<close>

definition audit_or_unavailable ::
  "orc_env \<Rightarrow> string \<Rightarrow> session \<Rightarrow> admission_record option \<Rightarrow> string option \<Rightarrow> bool \<Rightarrow> orc_result option orc" where
  "audit_or_unavailable env reason sess rec cid poison =
     tryO (append_audit env reason (Some sess) rec cid)
       (\<lambda>_. bindO (if poison then set_fatal else returnO ()) (\<lambda>_.
          case (case rec of Some r \<Rightarrow> Some (ar_correlation_id r) | None \<Rightarrow> cid) of
            None \<Rightarrow> raiseO ''audit_unavailable''
          | Some selected \<Rightarrow> bindO (response_of env (Some selected) ''audit_unavailable'' []) (\<lambda>b.
              bindO (write_response env b) (\<lambda>r. returnO (Some r)))))
       (\<lambda>_. returnO None)"

text \<open>The pattern \<^verbatim>\<open>failed = ...; if failed is not None: return failed\<close> before the rest of a handler.\<close>

definition unless_failed :: "orc_result option orc \<Rightarrow> orc_result orc \<Rightarrow> orc_result orc" where
  "unless_failed check rest = bindO check (\<lambda>failed. case failed of Some r \<Rightarrow> returnO r | None \<Rightarrow> rest)"

definition PROCESSING_REQUEST_SECONDS :: rat where "PROCESSING_REQUEST_SECONDS = 300"

definition check_processing :: "orc_env \<Rightarrow> rat \<Rightarrow> unit orc" where
  "check_processing env started = bindO (monotonic_now env) (\<lambda>now.
     if now < started \<or> PROCESSING_REQUEST_SECONDS < nearest53 (now - started) then raiseO ''processing_timeout''
     else returnO ())"

definition raise_ambiguous :: "orc_env \<Rightarrow> string \<Rightarrow> session \<Rightarrow> admission_record \<Rightarrow> string \<Rightarrow> 'a orc" where
  "raise_ambiguous env code sess rec audit_reason = bindO set_fatal (\<lambda>_.
     tryO (append_audit env audit_reason (Some sess) (Some rec) None)
       (\<lambda>_. raiseO code) (\<lambda>_. raiseO code))"

section \<open>Completion\<close>

definition complete_and_write ::
  "orc_env \<Rightarrow> session \<Rightarrow> admission_record \<Rightarrow> replay_claim \<Rightarrow> string \<Rightarrow> rat \<Rightarrow> bool \<Rightarrow> orc_result orc" where
  "complete_and_write env sess rec own response started enforce_budget =
     unless_failed (audit_or_unavailable env ''request_completed'' sess (Some rec) None True)
       (bindO
         (if enforce_budget
          then tryO (check_processing env started)
            (\<lambda>code. raise_ambiguous env code sess rec
               (if code = ''processing_timeout'' then ''processing_timeout'' else ''internal_error''))
            returnO
          else returnO ())
         (\<lambda>_. tryO
            (bindO (now_of env) (\<lambda>t. bindO (readO (oe_journal_fault env)) (\<lambda>fault.
               on_journal (\<lambda>j. complete (oe_fparse env) (oe_generation env) fault j own response (Some t)))))
            (\<lambda>_. raise_ambiguous env ''replay_completion_ambiguous'' sess rec ''internal_error'')
            (\<lambda>res. case res of
               Inl _ \<Rightarrow> raise_ambiguous env ''replay_completion_ambiguous'' sess rec ''internal_error''
             | Inr cached \<Rightarrow>
                 if cached \<noteq> response
                 then raise_ambiguous env ''replay_completion_ambiguous'' sess rec ''internal_error''
                 else write_response env response)))"

definition complete_failure_and_write ::
  "orc_env \<Rightarrow> string \<Rightarrow> session \<Rightarrow> admission_record \<Rightarrow> replay_claim \<Rightarrow> string \<Rightarrow> rat \<Rightarrow> bool \<Rightarrow> orc_result orc" where
  "complete_failure_and_write env failure_reason sess rec own response started enforce_budget =
     unless_failed (audit_or_unavailable env failure_reason sess (Some rec) None True)
       (complete_and_write env sess rec own response started enforce_budget)"

text \<open>A failure of the whole request: its response, audited and completed.\<close>

definition fail_request ::
  "orc_env \<Rightarrow> string \<Rightarrow> session \<Rightarrow> admission_record \<Rightarrow> replay_claim \<Rightarrow> rat \<Rightarrow> bool \<Rightarrow> orc_result orc" where
  "fail_request env reason sess rec own started enforce_budget =
     bindO (response_of env (Some (ar_correlation_id rec)) reason []) (\<lambda>b.
       complete_failure_and_write env reason sess rec own b started enforce_budget)"

section \<open>A claimed request\<close>

definition is_attack :: "registered_result \<Rightarrow> bool" where
  "is_attack reg \<longleftrightarrow> ir_status (rr_inference reg) = ''completed'' \<and>
     ir_predicted_class (rr_inference reg) = Some ''Attack''"

text \<open>The candidate of each attack, in order; an error of the constructor or the clock ends the loop.\<close>

primrec build_candidates :: "orc_env \<Rightarrow> registered_result list \<Rightarrow> alert_candidate option list orc" where
  "build_candidates env [] = returnO []"
| "build_candidates env (reg # regs) =
     bindO (if is_attack reg
            then bindO (now_of env) (\<lambda>t. case build_alert_candidate reg t of
              Inl _ \<Rightarrow> raiseO ''alert_candidate_error'' | Inr c \<Rightarrow> returnO (Some c))
            else returnO None) (\<lambda>c.
     bindO (build_candidates env regs) (\<lambda>cs. returnO (c # cs)))"

definition recoverable_alert_error :: "alert_error \<Rightarrow> bool" where
  "recoverable_alert_error e \<longleftrightarrow> e \<in> {DE_unavailable, DE_busy, DE_record_invalid, DE_identity_conflict}"

text \<open>
  The persistence loop.  \<open>Inl ()\<close> is the exit that answers \<^verbatim>\<open>internal_error\<close>, allowed only
  while nothing has been stored; any other failure is ambiguous.
\<close>

definition insert_checked ::
  "orc_env \<Rightarrow> rat \<Rightarrow> alert_candidate \<Rightarrow> (alert_error + insert_disposition \<times> alert_candidate) orc" where
  "insert_checked env started c = bindO (check_processing env started) (\<lambda>_.
     bindO (readO (oe_alert_fault env)) (\<lambda>fault.
     bindO (on_alerts (\<lambda>a. insert_alert fault a c)) (\<lambda>res. case res of
       Inl e \<Rightarrow> returnO (Inl e)
     | Inr x \<Rightarrow> bindO (check_processing env started) (\<lambda>_. returnO (Inr x)))))"

primrec persist_alerts ::
  "orc_env \<Rightarrow> session \<Rightarrow> admission_record \<Rightarrow> rat \<Rightarrow> nat \<Rightarrow> alert_candidate option list \<Rightarrow>
     (unit + (insert_disposition \<times> alert_candidate) option list) orc" where
  "persist_alerts env sess rec started durable [] = returnO (Inr [])"
| "persist_alerts env sess rec started durable (c # cs) = (case c of
     None \<Rightarrow> bindO (persist_alerts env sess rec started durable cs)
       (\<lambda>r. returnO (map_sum id ((#) None) r))
   | Some candidate \<Rightarrow>
      tryO (insert_checked env started candidate)
        (\<lambda>_. raise_ambiguous env ''alert_persistence_ambiguous'' sess rec ''internal_error'')
        (\<lambda>res. case res of
           Inl e \<Rightarrow> if recoverable_alert_error e \<and> durable = 0 then returnO (Inl ())
             else raise_ambiguous env ''alert_persistence_ambiguous'' sess rec ''internal_error''
         | Inr x \<Rightarrow> bindO (persist_alerts env sess rec started (Suc durable) cs)
             (\<lambda>r. returnO (map_sum id ((#) (Some x)) r))))"

definition rejected_disposition :: "int \<Rightarrow> record_disposition" where
  "rejected_disposition index = \<lparr>rd_record_index = index, rd_disposition = ''rejected'',
     rd_reason = ''inference_rejected'', rd_predicted_class = None, rd_attack_probability = None,
     rd_alert_candidate_id = None\<rparr>"

definition insert_words :: "insert_disposition \<Rightarrow> string \<times> string" where
  "insert_words d = (case d of Alert_created \<Rightarrow> (''created'', ''alert_candidate_created'')
     | Alert_existing \<Rightarrow> (''existing'', ''alert_candidate_already_exists''))"

text \<open>One disposition; \<^const>\<open>None\<close> where the code raises.\<close>

definition disposition_of ::
  "int \<Rightarrow> registered_result \<Rightarrow> (insert_disposition \<times> alert_candidate) option \<Rightarrow> record_disposition option" where
  "disposition_of index reg persistence = (let inf = rr_inference reg in
     if ir_status inf \<noteq> ''completed'' \<or> ir_predicted_class inf = None then Some (rejected_disposition index)
     else if ir_predicted_class inf = Some ''Normal'' then
       (case ir_attack_probability inf of None \<Rightarrow> None
        | Some p \<Rightarrow> Some \<lparr>rd_record_index = index, rd_disposition = ''not_actionable'',
            rd_reason = ''inference_not_actionable'', rd_predicted_class = Some ''Normal'',
            rd_attack_probability = Some p, rd_alert_candidate_id = None\<rparr>)
     else (case (persistence, ir_attack_probability inf) of
         (Some (d, stored), Some p) \<Rightarrow> Some \<lparr>rd_record_index = index,
            rd_disposition = fst (insert_words d), rd_reason = snd (insert_words d),
            rd_predicted_class = Some ''Attack'', rd_attack_probability = Some p,
            rd_alert_candidate_id = Some (ac_alert_candidate_id stored)\<rparr>
       | _ \<Rightarrow> None))"

primrec dispositions_of ::
  "int \<Rightarrow> (registered_result \<times> (insert_disposition \<times> alert_candidate) option) list \<Rightarrow>
     record_disposition list option" where
  "dispositions_of index [] = Some []"
| "dispositions_of index (x # xs) = (case disposition_of index (fst x) (snd x) of
     None \<Rightarrow> None
   | Some d \<Rightarrow> if \<not> valid_record_disposition d then None
       else map_option ((#) d) (dispositions_of (index + 1) xs))"

definition final_response ::
  "orc_env \<Rightarrow> admission_record \<Rightarrow> registered_result list \<Rightarrow>
     (insert_disposition \<times> alert_candidate) option list \<Rightarrow> string option" where
  "final_response env rec inferred persisted =
     (if length inferred \<noteq> length persisted then None
      else case dispositions_of 1 (zip inferred persisted) of None \<Rightarrow> None
        | Some ds \<Rightarrow> build_response env (Some (ar_correlation_id rec)) ''request_completed'' ds)"

text \<open>After the inference: candidates, persistence, final response.\<close>

definition persist_and_answer ::
  "orc_env \<Rightarrow> session \<Rightarrow> admission_record \<Rightarrow> replay_claim \<Rightarrow> rat \<Rightarrow> registered_result list \<Rightarrow> orc_result orc" where
  "persist_and_answer env sess rec own started inferred =
     tryO (build_candidates env inferred)
       (\<lambda>_. fail_request env ''internal_error'' sess rec own started True)
       (\<lambda>candidates. bindO (persist_alerts env sess rec started 0 candidates) (\<lambda>outcome. case outcome of
          Inl _ \<Rightarrow> fail_request env ''internal_error'' sess rec own started True
        | Inr persisted \<Rightarrow> (case final_response env rec inferred persisted of
            None \<Rightarrow> raise_ambiguous env ''response_finalization_ambiguous'' sess rec ''internal_error''
          | Some b \<Rightarrow> complete_and_write env sess rec own b started True)))"

definition inference_rejected ::
  "orc_env \<Rightarrow> session \<Rightarrow> admission_record \<Rightarrow> replay_claim \<Rightarrow> rat \<Rightarrow> orc_result orc" where
  "inference_rejected env sess rec own started =
     bindO (response_of env (Some (ar_correlation_id rec)) ''request_completed''
       (map rejected_disposition [1..int (length (ar_records rec))])) (\<lambda>b.
       complete_and_write env sess rec own b started True)"

text \<open>Once admission is audited: the clock, the worker, and the answer to each of its outcomes.\<close>

definition infer_and_answer ::
  "orc_env \<Rightarrow> session \<Rightarrow> admission_record \<Rightarrow> replay_claim \<Rightarrow> orc_result orc" where
  "infer_and_answer env sess rec own =
       bindO (monotonic_now env) (\<lambda>started.
       bindO (readO (oe_worker env)) (\<lambda>worker.
         case worker (map reference_identity (ar_records rec)) of
           Worker_results inferred \<Rightarrow>
             tryO (if length inferred \<noteq> length (ar_records rec) then raiseO ''inference_result_invalid''
                   else check_processing env started)
               (\<lambda>code. if code = ''processing_timeout''
                  then fail_request env ''processing_timeout'' sess rec own started False
                  else bindO set_fatal (\<lambda>_. raiseO code))
               (\<lambda>_. persist_and_answer env sess rec own started inferred)
         | Worker_network_error \<Rightarrow> inference_rejected env sess rec own started
         | Worker_error code \<Rightarrow>
             (let timed_out = code \<in> set [''worker_record_timeout'', ''worker_request_timeout''];
                  reason = (if timed_out then ''processing_timeout'' else ''internal_error'')
              in fail_request env reason sess rec own started (\<not> timed_out))
         | Worker_other \<Rightarrow>
             raise_ambiguous env ''inference_outcome_ambiguous'' sess rec ''internal_error''))"

definition process_claimed ::
  "orc_env \<Rightarrow> session \<Rightarrow> admission_record \<Rightarrow> replay_claim \<Rightarrow> orc_result orc" where
  "process_claimed env sess rec own =
     unless_failed (audit_or_unavailable env ''request_admitted'' sess (Some rec) None True)
       (infer_and_answer env sess rec own)"

section \<open>A session\<close>

text \<open>An answer that leaves the stores alone: audit the reason, then write the response.\<close>

definition audit_and_answer ::
  "orc_env \<Rightarrow> string \<Rightarrow> string \<Rightarrow> session \<Rightarrow> admission_record option \<Rightarrow> string option \<Rightarrow> orc_result orc" where
  "audit_and_answer env audit_reason reason sess rec cid =
     unless_failed (audit_or_unavailable env audit_reason sess rec cid False)
       (bindO (response_of env (case rec of Some r \<Rightarrow> Some (ar_correlation_id r) | None \<Rightarrow> cid) reason [])
         (write_response env))"

text \<open>What follows the claim: a conflict, a cached answer, a request in another hand, or the work.\<close>

definition answer_claim ::
  "orc_env \<Rightarrow> session \<Rightarrow> admission_record \<Rightarrow> journal_error + claim_result \<Rightarrow> orc_result orc" where
  "answer_claim env sess rec res = (case res of
     Inl e \<Rightarrow>
       if e = JE_replay_rejected
       then audit_and_answer env ''request_replay_rejected'' ''request_replay_rejected'' sess (Some rec) None
       else raise_ambiguous env ''replay_claim_ambiguous'' sess rec ''internal_error''
   | Inr replay \<Rightarrow>
       if cl_disposition replay = Completed then
         unless_failed (audit_or_unavailable env ''request_completed'' sess (Some rec) None False)
           (case cl_cached_response replay of
              None \<Rightarrow> bindO set_fatal (\<lambda>_. raiseO ''cached_response_invalid'')
            | Some cached \<Rightarrow> write_response env cached)
       else (case cl_claim replay of
           None \<Rightarrow>
             (let reason = (if cl_disposition replay = In_progress then ''request_in_progress''
                            else ''outcome_unknown'')
              in audit_and_answer env reason reason sess (Some rec) None)
         | Some c \<Rightarrow>
             if cl_reason replay \<noteq> CR_request_claimed
             then bindO set_fatal (\<lambda>_. raiseO ''replay_claim_invalid'')
             else process_claimed env sess rec c))"

definition process_leased :: "orc_env \<Rightarrow> session \<Rightarrow> admission_record \<Rightarrow> orc_result orc" where
  "process_leased env sess rec =
     bindO (now_of env) (\<lambda>t. bindO (readO (oe_token env)) (\<lambda>token. bindO (readO (oe_journal_fault env)) (\<lambda>fault.
     bindO (on_journal (\<lambda>j. claim (oe_fparse env) (oe_generation env) fault j rec (Some t) token))
       (answer_claim env sess rec))))"

text \<open>The finally clause: the release runs whatever the block did, and its failure replaces the outcome.\<close>

definition finally_release :: "lease \<Rightarrow> 'a orc \<Rightarrow> 'a orc" where
  "finally_release lease m = (\<lambda>w. let (w1, outcome) = m w; (g, released) = release (ow_gates w1) lease in
     case released of
       Inl _ \<Rightarrow> (w1\<lparr>ow_gates := g, ow_fatal := True\<rparr>, Inl ''lease_release_failed'')
     | Inr _ \<Rightarrow> (w1\<lparr>ow_gates := g\<rparr>, outcome))"

text \<open>The request of a session: the transport error of the body, the admission error, or the record.\<close>

definition admit_session ::
  "orc_env \<Rightarrow> session \<Rightarrow> request_head \<Rightarrow> string \<Rightarrow> (adm_error + admission_record) orc" where
  "admit_session env sess head body =
     bindO (now_of env) (\<lambda>t. bindO (readO (oe_uuid env)) (\<lambda>cid.
       returnO (bindE (admit_producer_request cid (oe_fparse env) (oe_registry env) (se_peer sess)
           INGEST_METHOD INGEST_TARGET (rh_content_type head) (rh_content_length head)
           bytesio_read body (Some t)) (\<lambda>rec.
         if ar_producer_id rec \<noteq> ap_producer_id (se_producer sess) \<or>
            ar_credential_id rec \<noteq> ap_credential_id (se_producer sess) \<or>
            ar_source_contract rec \<notin> set (ap_contracts (se_producer sess)) \<or>
            ar_content_length rec \<noteq> int (length body)
         then Inl (fail_with AC_request_unauthorized 400 EV_producer_mismatch)
         else Inr rec))))"

definition acquire_session :: "orc_env \<Rightarrow> session \<Rightarrow> (gate_error + gate_decision) orc" where
  "acquire_session env sess =
     (if ap_contracts (se_producer sess) \<noteq> [REGISTERED_UNSW_SOURCE_CONTRACT]
      then returnO (Inl GE_producer_not_admitted)
      else bindO (readO (oe_gate_clock env)) (\<lambda>reading. bindO (readO (oe_token env)) (\<lambda>token.
        on_gates (\<lambda>g. acquire g (se_producer sess) reading token))))"

text \<open>What follows the gate: an error, a refusal, or the work under the lease.\<close>

definition answer_gate ::
  "orc_env \<Rightarrow> session \<Rightarrow> admission_record \<Rightarrow> gate_error + gate_decision \<Rightarrow> orc_result orc" where
  "answer_gate env sess rec res = (case res of
     Inl e \<Rightarrow>
       (let audit_reason = (if e = GE_monotonic_clock_invalid then ''clock_unavailable''
                            else ''source_contract_denied'')
        in unless_failed (audit_or_unavailable env audit_reason sess (Some rec) None False)
             (raiseO audit_reason))
   | Inr decision \<Rightarrow>
       if gd_disposition decision \<noteq> Gate_accepted then
         (let reason = (if gd_disposition decision = Gate_rate_limited then ''rate_limited'' else ''server_busy'')
          in audit_and_answer env reason reason sess (Some rec) None)
       else (case gd_lease decision of
           None \<Rightarrow> raiseO ''gate_decision_invalid''
         | Some lease \<Rightarrow> finally_release lease (process_leased env sess rec)))"

definition process_admitted :: "orc_env \<Rightarrow> session \<Rightarrow> admission_record \<Rightarrow> orc_result orc" where
  "process_admitted env sess rec = bindO (acquire_session env sess) (answer_gate env sess rec)"

definition process_session :: "orc_env \<Rightarrow> session \<Rightarrow> orc_result orc" where
  "process_session env sess = (case se_head sess of
     Inl e \<Rightarrow> (let reason = transport_reason e True in
       tryO (append_audit env reason (Some sess) None None)
         (\<lambda>_. raiseO ''audit_unavailable'') (\<lambda>_. raiseO reason))
   | Inr head \<Rightarrow> (case se_body sess of
       Inl e \<Rightarrow> (let reason = transport_reason e True in
         tryO (append_audit env reason (Some sess) None None)
           (\<lambda>_. bindO set_fatal (\<lambda>_. raiseO ''audit_unavailable'')) (\<lambda>_. raiseO reason))
     | Inr body \<Rightarrow> bindO (admit_session env sess head body) (\<lambda>res. case res of
         Inl e \<Rightarrow> audit_and_answer env (admission_reason e) ''request_rejected'' sess None (ae_correlation e)
       | Inr rec \<Rightarrow> process_admitted env sess rec)))"

section \<open>The service\<close>

text \<open>\<^verbatim>\<open>process_one\<close>: the outcome of accepting a connection is a transport error or a session.\<close>

definition process_one :: "orc_env \<Rightarrow> transport_error + session \<Rightarrow> orc_result orc" where
  "process_one env accepted = (\<lambda>w. if ow_fatal w then (w, Inl ''service_fatal'') else
     bindO (now_of env) (\<lambda>_. case accepted of
       Inl e \<Rightarrow>
         if te_code e = ''listener_accept_timeout'' then raiseO ''accept_timeout''
         else if te_code e \<in> set [''listener_not_open'', ''listener_unavailable'']
         then raiseO ''listener_unavailable''
         else tryO (append_audit env (transport_reason e False) None None None)
           (\<lambda>_. raiseO ''audit_unavailable'') (\<lambda>_. raiseO ''authentication_rejected'')
     | Inr sess \<Rightarrow> process_session env sess) w)"

definition recover_generation :: "orc_env \<Rightarrow> string \<Rightarrow> nat orc" where
  "recover_generation env abandoned = (\<lambda>w. if ow_fatal w then (w, Inl ''service_fatal'') else
     tryO (bindO (now_of env) (\<lambda>t. bindO (readO (oe_journal_fault env)) (\<lambda>fault.
       bindO (on_journal (\<lambda>j. recover_abandoned_generation (oe_generation env) fault j abandoned (Some t)))
        (\<lambda>res. case res of
           Inl _ \<Rightarrow> returnO None
         | Inr changed \<Rightarrow> bindO (append_audit env ''recovery_completed'' None None None)
             (\<lambda>_. returnO (Some changed))))))
       (\<lambda>code. bindO set_fatal (\<lambda>_. raiseO code))
       (\<lambda>res. case res of
          Some changed \<Rightarrow> returnO changed
        | None \<Rightarrow> tryO (append_audit env ''internal_error'' None None None)
            (\<lambda>_. bindO set_fatal (\<lambda>_. raiseO ''audit_unavailable'')) (\<lambda>_. raiseO ''recovery_failed'')) w)"

end
