(* ===== verification/Orchestrator_Facts.thy ===== *)
theory Orchestrator_Facts
  imports Orchestrator Admission_Facts Response_Facts ReplayJournal_Facts AlertStore_Facts
begin

text \<open>
  What one connection may do to the service.  Frames say which part of the world an operation can
  touch; on top of them: the execution slot is free again after every session, alerts are stored
  only for a request that was claimed and audited in this very session, and a claimed request is
  settled or the service poisoned.
\<close>

section \<open>The effects, pointwise\<close>

lemmas orc_effect_defs = returnO_def raiseO_def readO_def set_fatal_def

lemma bindO_eq: "bindO m f w = (case m w of (w', Inl e) \<Rightarrow> (w', Inl e) | (w', Inr x) \<Rightarrow> f x w')"
  by (simp add: bindO_def)

lemma tryO_eq: "tryO m h k w = (case m w of (w', Inl e) \<Rightarrow> h e w' | (w', Inr x) \<Rightarrow> k x w')"
  by (simp add: tryO_def)

lemma effect_simps [simp]:
  "returnO x w = (w, Inr x)" "raiseO code w = (w, Inl code)"
  "readO f w = (w\<lparr>ow_tick := Suc (ow_tick w)\<rparr>, Inr (f (ow_tick w)))"
  "set_fatal w = (w\<lparr>ow_fatal := True\<rparr>, Inr ())"
  by (simp_all add: orc_effect_defs)

section \<open>Frames\<close>

text \<open>An operation stays within a relation when its final world is related to its initial one.\<close>

definition stays :: "(orc_world \<Rightarrow> orc_world \<Rightarrow> bool) \<Rightarrow> 'a orc \<Rightarrow> bool" where
  "stays R m \<longleftrightarrow> (\<forall>w. R w (fst (m w)))"

lemma staysD: "stays R m \<Longrightarrow> m w = (w', x) \<Longrightarrow> R w w'"
  by (metis fst_conv stays_def)

text \<open>
  The frame of the operations that only answer: they read, append to the audit, write to the
  connection and may poison the service.
\<close>

locale answer_frame =
  fixes env :: orc_env and R :: "orc_world \<Rightarrow> orc_world \<Rightarrow> bool"
  assumes R_refl: "R w w"
    and R_trans: "R u v \<Longrightarrow> R v w \<Longrightarrow> R u w"
    and R_tick: "R w (w\<lparr>ow_tick := n\<rparr>)"
    and R_fatal: "R w (w\<lparr>ow_fatal := True\<rparr>)"
    and R_written: "R w (w\<lparr>ow_written := bs\<rparr>)"
    and R_audit: "R w (w\<lparr>ow_audit := fst (append_event (oe_audit_capacity env) fault (ow_audit w) e)\<rparr>)"
begin

lemma return: "stays R (returnO x)"
  and raise: "stays R (raiseO code)"
  and read: "stays R (readO f)"
  and poison: "stays R set_fatal"
  by (simp_all add: stays_def R_refl R_tick R_fatal)

lemma seq:
  assumes "stays R m" "\<And>x. stays R (f x)"
  shows "stays R (bindO m f)"
  unfolding stays_def
proof
  fix w
  have "R w (fst (m w))" using assms(1) by (simp add: stays_def)
  moreover have "R w' (fst (f x w'))" for x w' using assms(2) by (simp add: stays_def)
  ultimately show "R w (fst (bindO m f w))"
    by (auto simp: bindO_eq split: prod.split sum.split intro: R_trans)
qed

lemma seq_read:
  assumes "\<And>n. stays R (k (f n))"
  shows "stays R (bindO (readO f) k)"
  unfolding stays_def
proof
  fix w
  have "R (w\<lparr>ow_tick := Suc (ow_tick w)\<rparr>) (fst (k (f (ow_tick w)) (w\<lparr>ow_tick := Suc (ow_tick w)\<rparr>)))"
    using assms by (simp add: stays_def)
  then show "R w (fst (bindO (readO f) k w))" using R_trans [OF R_tick] by (simp add: bindO_eq)
qed

lemma attempt_result:
  assumes "stays R m" "\<And>e. stays R (h e)" "\<And>x w w'. m w = (w', Inr x) \<Longrightarrow> stays R (k x)"
  shows "stays R (tryO m h k)"
  unfolding stays_def
proof
  fix w
  have "R w (fst (m w))" using assms(1) by (simp add: stays_def)
  moreover have "R w' (fst (h e w'))" for e w' using assms(2) by (simp add: stays_def)
  moreover have "R w' (fst (k x w'))" if "m w = (w', Inr x)" for x w'
    using assms(3) [OF that] by (simp add: stays_def)
  ultimately show "R w (fst (tryO m h k w))"
    by (auto simp: tryO_eq split: prod.split sum.split intro: R_trans)
qed

lemma attempt: "stays R m \<Longrightarrow> (\<And>e. stays R (h e)) \<Longrightarrow> (\<And>x. stays R (k x)) \<Longrightarrow> stays R (tryO m h k)"
  by (rule attempt_result)

lemma audit_table: "stays R (on_audit (\<lambda>a. append_event (oe_audit_capacity env) fault a e))"
  by (auto simp: stays_def on_audit_def split_beta Let_def R_audit)

lemmas basic = return raise read poison seq attempt audit_table

lemma append_audit: "stays R (append_audit env reason sess rec cid)"
  unfolding append_audit_def by (auto intro!: basic split: option.split sum.split)

lemma response_of: "stays R (response_of env cid reason records)"
  unfolding response_of_def by (auto intro!: basic split: option.split)

lemma write_response: "stays R (write_response env b)"
  unfolding write_response_def by (rule seq [OF read]) (simp add: stays_def R_written)

lemma audit_or_unavailable: "stays R (audit_or_unavailable env reason sess rec cid poison)"
  unfolding audit_or_unavailable_def
  by (intro attempt append_audit) (auto intro!: basic response_of write_response split: option.split)

lemma unless_failed:
  assumes "stays R check" "stays R rest"
  shows "stays R (unless_failed check rest)"
  unfolding unless_failed_def by (intro seq assms(1)) (auto intro!: return assms(2) split: option.split)

lemma now_of: "stays R (now_of env)"
  unfolding now_of_def by (auto intro!: basic split: option.split)

lemma monotonic_now: "stays R (monotonic_now env)"
  unfolding monotonic_now_def by (auto intro!: basic split: option.split pyfloat.split)

lemma check_processing: "stays R (check_processing env started)"
  unfolding check_processing_def by (auto intro!: basic monotonic_now)

lemma raise_ambiguous: "stays R (raise_ambiguous env code sess rec reason)"
  unfolding raise_ambiguous_def by (intro basic append_audit)

lemma audit_and_answer: "stays R (audit_and_answer env audit_reason reason sess rec cid)"
  unfolding audit_and_answer_def
  by (intro unless_failed audit_or_unavailable seq response_of write_response)

lemma build_candidates: "stays R (build_candidates env regs)"
proof (induction regs)
  case Nil
  show ?case unfolding build_candidates.simps by (rule return)
next
  case (Cons reg regs)
  then show ?case
    unfolding build_candidates.simps by (auto intro!: basic now_of split: sum.split)
qed

lemma admit_session: "stays R (admit_session env sess head body)"
  unfolding admit_session_def by (intro seq now_of read return)

lemmas answers = basic append_audit response_of write_response audit_or_unavailable unless_failed
  now_of monotonic_now check_processing raise_ambiguous audit_and_answer build_candidates

end

text \<open>Operations that also settle a claim.\<close>

locale completion_frame = answer_frame +
  assumes R_complete: "R w (w\<lparr>ow_journal :=
    fst (complete (oe_fparse env) (oe_generation env) fault (ow_journal w) c b t)\<rparr>)"
begin

lemma complete_and_write: "stays R (complete_and_write env sess rec own b started enforce)"
proof -
  have "stays R (on_journal (\<lambda>j. complete (oe_fparse env) (oe_generation env) fault j c b t))" for fault c b t
    by (auto simp: stays_def on_journal_def split_beta Let_def R_complete)
  then show ?thesis
    unfolding complete_and_write_def by (auto intro!: answers split: sum.split)
qed

lemma fail_request: "stays R (fail_request env reason sess rec own started enforce)"
  unfolding fail_request_def complete_failure_and_write_def
  by (intro seq response_of unless_failed audit_or_unavailable complete_and_write)

lemma inference_rejected: "stays R (inference_rejected env sess rec own started)"
  unfolding inference_rejected_def by (intro seq response_of complete_and_write)

end

text \<open>Operations that also store alerts: only candidates built from attack results.\<close>

definition attack_candidate :: "alert_candidate \<Rightarrow> bool" where
  "attack_candidate c \<longleftrightarrow> (\<exists>reg t. is_attack reg \<and> build_alert_candidate reg t = Inr c)"

lemma attack_candidateI: "is_attack reg \<Longrightarrow> build_alert_candidate reg t = Inr c \<Longrightarrow> attack_candidate c"
  by (auto simp: attack_candidate_def)

lemma build_candidates_origin:
  assumes "build_candidates env regs w = (w', Inr cs)" "Some c \<in> set cs"
  shows "\<exists>reg \<in> set regs. \<exists>t. is_attack reg \<and> build_alert_candidate reg t = Inr c"
  using assms
proof (induction regs arbitrary: w w' cs)
  case Nil
  then show ?case by simp
next
  case (Cons reg regs)
  then show ?case
    by (fastforce simp: bindO_eq now_of_def split: prod.splits sum.splits option.splits if_splits)
qed

text \<open>The frame of processing, for the candidates that the results of the worker give.\<close>

locale candidate_frame = completion_frame +
  fixes Q :: "alert_candidate \<Rightarrow> bool"
  assumes R_insert: "Q c \<Longrightarrow> R w (w\<lparr>ow_alerts := fst (insert_alert fault (ow_alerts w) c)\<rparr>)"
begin

lemma insert_checked: "Q c \<Longrightarrow> stays R (insert_checked env started c)"
proof -
  assume "Q c"
  then have "stays R (on_alerts (\<lambda>a. insert_alert fault a c))" for fault
    by (auto simp: stays_def on_alerts_def split_beta Let_def R_insert)
  then show ?thesis unfolding insert_checked_def by (auto intro!: answers split: sum.split)
qed

lemma persist_alerts:
  "(\<And>c. Some c \<in> set cs \<Longrightarrow> Q c) \<Longrightarrow> stays R (persist_alerts env sess rec started durable cs)"
proof (induction cs arbitrary: durable)
  case Nil
  show ?case unfolding persist_alerts.simps by (rule return)
next
  case (Cons c cs)
  then show ?case
    unfolding persist_alerts.simps
    by (auto intro!: basic insert_checked raise_ambiguous split: option.split sum.split)
qed

lemma persist_from:
  assumes "\<And>reg t c. reg \<in> set inferred \<Longrightarrow> is_attack reg \<Longrightarrow> build_alert_candidate reg t = Inr c \<Longrightarrow> Q c"
  shows "stays R (persist_and_answer env sess rec own started inferred)"
  unfolding persist_and_answer_def
  by (intro attempt_result build_candidates fail_request seq persist_alerts)
    (auto intro!: fail_request raise_ambiguous complete_and_write intro: assms dest!: build_candidates_origin
      split: sum.split option.split)

lemma infer_from:
  assumes "\<And>n rs reg t c. oe_worker env n (map reference_identity (ar_records rec)) = Worker_results rs \<Longrightarrow>
    reg \<in> set rs \<Longrightarrow> is_attack reg \<Longrightarrow> build_alert_candidate reg t = Inr c \<Longrightarrow> Q c"
  shows "stays R (infer_and_answer env sess rec own)"
  unfolding infer_and_answer_def Let_def
  by (rule seq [OF monotonic_now], rule seq_read)
    (auto intro!: answers persist_from fail_request inference_rejected intro: assms split: worker_outcome.split)

lemma process_from:
  assumes "\<And>n rs reg t c. oe_worker env n (map reference_identity (ar_records rec)) = Worker_results rs \<Longrightarrow>
    reg \<in> set rs \<Longrightarrow> is_attack reg \<Longrightarrow> build_alert_candidate reg t = Inr c \<Longrightarrow> Q c"
  shows "stays R (process_claimed env sess rec own)"
  unfolding process_claimed_def by (intro unless_failed audit_or_unavailable infer_from [OF assms])

end

locale processing_frame = candidate_frame env R attack_candidate for env R
begin

lemma infer_and_answer: "stays R (infer_and_answer env sess rec own)"
  by (rule infer_from) (rule attack_candidateI)

lemma process_claimed: "stays R (process_claimed env sess rec own)"
  by (rule process_from) (rule attack_candidateI)

end

text \<open>Operations that also claim, that is everything under a lease.\<close>

locale lease_frame = processing_frame +
  assumes R_claim: "R w (w\<lparr>ow_journal :=
    fst (claim (oe_fparse env) (oe_generation env) fault (ow_journal w) rec t token)\<rparr>)"
begin

lemma answer_claim: "stays R (answer_claim env sess rec res)"
  unfolding answer_claim_def Let_def
  by (auto intro!: answers process_claimed split: sum.split option.split)

lemma process_leased: "stays R (process_leased env sess rec)"
proof -
  have "stays R (on_journal (\<lambda>j. claim (oe_fparse env) (oe_generation env) fault j rec t token))"
    for fault t token
    by (auto simp: stays_def on_journal_def split_beta Let_def R_claim)
  then show ?thesis
    unfolding process_leased_def by (intro seq now_of read answer_claim)
qed

end

text \<open>Whole connections, and the recovery of an abandoned generation, given the frame of an admitted request.\<close>

locale connection_frame = answer_frame +
  assumes R_admitted: "stays R (process_admitted env sess rec)"
    and R_recover: "R w (w\<lparr>ow_journal :=
      fst (recover_abandoned_generation (oe_generation env) fault (ow_journal w) abandoned t)\<rparr>)"
begin

lemma process_session: "stays R (process_session env sess)"
  unfolding process_session_def Let_def
  by (auto intro!: answers admit_session R_admitted split: sum.split)

lemma guarded: "stays R m \<Longrightarrow> stays R (\<lambda>w. if ow_fatal w then (w, Inl code) else m w)"
  by (simp add: stays_def R_refl)

lemma process_one: "stays R (process_one env accepted)"
  unfolding process_one_def
  by (intro guarded) (auto intro!: answers process_session split: sum.split)

lemma recover_generation: "stays R (recover_generation env abandoned)"
proof -
  have "stays R (on_journal (\<lambda>j. recover_abandoned_generation (oe_generation env) fault j abandoned t))"
    for fault t
    by (auto simp: stays_def on_journal_def split_beta Let_def R_recover)
  then show ?thesis
    unfolding recover_generation_def
    by (intro guarded) (auto intro!: answers split: sum.split option.split)
qed

end

text \<open>Everything, for relations that ignore the gates.\<close>

locale service_frame = lease_frame +
  assumes R_gates: "R w (w\<lparr>ow_gates := g\<rparr>)"
    and R_recovered: "R w (w\<lparr>ow_journal :=
      fst (recover_abandoned_generation (oe_generation env) fault (ow_journal w) abandoned t)\<rparr>)"
begin

lemma finally_release: "stays R m \<Longrightarrow> stays R (finally_release l m)"
proof -
  assume m: "stays R m"
  have "R w (fst (finally_release l m w))" for w
  proof -
    obtain w1 out where w1: "m w = (w1, out)" by (cases "m w")
    have "R w w1" by (rule staysD [OF m w1])
    moreover have "R w1 (w1\<lparr>ow_gates := g\<rparr>)" "R w1 (w1\<lparr>ow_gates := g, ow_fatal := True\<rparr>)" for g
      using R_gates [of w1 g] R_trans [OF R_gates R_fatal] by simp_all
    ultimately show ?thesis
      using R_trans by (auto simp: finally_release_def w1 Let_def split: prod.split sum.split)
  qed
  then show ?thesis by (simp add: stays_def)
qed

lemma acquire_session: "stays R (acquire_session env sess)"
proof -
  have "stays R (on_gates (\<lambda>g. acquire g p reading token))" for p reading token
    by (auto simp: stays_def on_gates_def split_beta Let_def R_gates)
  then show ?thesis unfolding acquire_session_def by (auto intro!: basic)
qed

lemma process_admitted: "stays R (process_admitted env sess rec)"
  unfolding process_admitted_def answer_gate_def Let_def
  by (auto intro!: answers acquire_session finally_release process_leased split: sum.split option.split)

end

sublocale service_frame < connection_frame
  by unfold_locales (rule process_admitted, rule R_recovered)

section \<open>The frames of the service\<close>

interpretation same_gates: lease_frame env "\<lambda>w w'. ow_gates w' = ow_gates w"
  by unfold_locales auto

interpretation same_alerts: completion_frame env "\<lambda>w w'. ow_alerts w' = ow_alerts w"
  by unfold_locales auto

interpretation same_journal: answer_frame env "\<lambda>w w'. ow_journal w' = ow_journal w"
  by unfold_locales auto

text \<open>The audit only grows, and a poisoned service stays poisoned.\<close>

lemma append_event_prefix: "prefix t (fst (append_event cap fault t e))"
  using append_event_table [of cap fault t e] by auto

interpretation grows: service_frame env
  "\<lambda>w w'. prefix (ow_audit w) (ow_audit w') \<and> (ow_fatal w \<longrightarrow> ow_fatal w')"
  by unfold_locales (auto simp: append_event_prefix intro: prefix_order.trans)

section \<open>The service as a machine\<close>

datatype service_command = Connection "transport_error + session" | Recovery string

fun service_step :: "orc_env \<Rightarrow> orc_world \<Rightarrow> service_command \<Rightarrow> orc_world" where
  "service_step env w (Connection accepted) = fst (process_one env accepted w)"
| "service_step env w (Recovery abandoned) = fst (recover_generation env abandoned w)"

definition new_world :: "string \<Rightarrow> orc_world" where
  "new_world instance_id = \<lparr>ow_fatal = False, ow_gates = new_gates instance_id, ow_journal = [], ow_audit = [],
     ow_alerts = [], ow_written = [], ow_tick = 0\<rparr>"

definition stores_ok :: "orc_env \<Rightarrow> orc_world \<Rightarrow> bool" where
  "stores_ok env w \<longleftrightarrow> journal_inv (oe_fparse env) (ow_journal w) \<and>
     audit_inv (oe_audit_capacity env) (ow_audit w) \<and> alert_inv (ow_alerts w)"

text \<open>Journal rows keep their evidence and their final state; audit and alerts only grow, the alerts by attacks.\<close>

definition service_extends :: "orc_world \<Rightarrow> orc_world \<Rightarrow> bool" where
  "service_extends w w' \<longleftrightarrow> journal_extends (ow_journal w) (ow_journal w') \<and>
     prefix (ow_audit w) (ow_audit w') \<and> (ow_fatal w \<longrightarrow> ow_fatal w') \<and>
     (\<exists>cs. ow_alerts w' = ow_alerts w @ map alert_values cs \<and> (\<forall>c \<in> set cs. attack_candidate c))"

lemma alerts_same: "\<exists>cs. t = t @ map alert_values cs \<and> (\<forall>c \<in> set cs. attack_candidate c)"
  by (rule exI [of _ "[]"]) simp

lemma service_extends_refl: "service_extends w w"
  using alerts_same by (simp add: service_extends_def)

lemma service_extends_trans:
  assumes "service_extends u v" "service_extends v w"
  shows "service_extends u w"
proof -
  obtain as bs where ab: "ow_alerts v = ow_alerts u @ map alert_values as" "\<forall>c \<in> set as. attack_candidate c"
    "ow_alerts w = ow_alerts v @ map alert_values bs" "\<forall>c \<in> set bs. attack_candidate c"
    using assms by (auto simp: service_extends_def)
  have "\<exists>cs. ow_alerts w = ow_alerts u @ map alert_values cs \<and> (\<forall>c \<in> set cs. attack_candidate c)"
    by (rule exI [of _ "as @ bs"]) (use ab in auto)
  then show ?thesis
    using assms journal.extends_trans prefix_order.trans by (auto simp: service_extends_def)
qed

lemma attack_candidate_valid: "attack_candidate c \<Longrightarrow> make_alert_candidate c = Inr c"
  by (auto simp: attack_candidate_def build_alert_candidate_def Let_def make_alert_candidate_Inr
      split: if_splits option.splits)

lemma insert_attack:
  assumes "alert_inv t" "attack_candidate c"
  shows "alert_inv (fst (insert_alert fault t c))"
    "\<exists>cs. fst (insert_alert fault t c) = t @ map alert_values cs \<and> (\<forall>c \<in> set cs. attack_candidate c)"
proof -
  have step: "alert_step t (fault, c) = fst (insert_alert fault t c)"
    by (simp add: alert_step_def attack_candidate_valid [OF assms(2)])
  show "alert_inv (fst (insert_alert fault t c))"
    using alert_step_inv(1) [OF assms(1), of "(fault, c)"] by (simp add: step)
  have "fst (insert_alert fault t c) = t \<or> fst (insert_alert fault t c) = t @ map alert_values [c]"
    by (auto simp: insert_alert_def insert_alert_body_def
        split: alert_fault.split sqlite_fault.split sum.split option.split bindE_splits)
  then show "\<exists>cs. fst (insert_alert fault t c) = t @ map alert_values cs \<and> (\<forall>c \<in> set cs. attack_candidate c)"
  proof
    assume "fst (insert_alert fault t c) = t"
    then show ?thesis using alerts_same by simp
  next
    assume "fst (insert_alert fault t c) = t @ map alert_values [c]"
    then show ?thesis using assms(2) by (intro exI [of _ "[c]"]) simp
  qed
qed

interpretation stores: service_frame env
  "\<lambda>w w'. stores_ok env w \<longrightarrow> stores_ok env w' \<and> service_extends w w'"
proof
  show "stores_ok env u \<longrightarrow> stores_ok env w \<and> service_extends u w"
    if "stores_ok env u \<longrightarrow> stores_ok env v \<and> service_extends u v"
      "stores_ok env v \<longrightarrow> stores_ok env w \<and> service_extends v w" for u v w
    using that service_extends_trans by blast
  fix w
  show "stores_ok env w \<longrightarrow> stores_ok env (w\<lparr>ow_audit := fst (append_event (oe_audit_capacity env) fault (ow_audit w) e)\<rparr>) \<and>
      service_extends w (w\<lparr>ow_audit := fst (append_event (oe_audit_capacity env) fault (ow_audit w) e)\<rparr>)" for fault e
    using audit_step_inv [of "oe_audit_capacity env" "ow_audit w" "(fault, e)"] alerts_same
    by (simp add: stores_ok_def service_extends_def audit_step_def)
  show "stores_ok env w \<longrightarrow> stores_ok env (w\<lparr>ow_alerts := fst (insert_alert fault (ow_alerts w) c)\<rparr>) \<and>
      service_extends w (w\<lparr>ow_alerts := fst (insert_alert fault (ow_alerts w) c)\<rparr>)"
    if "attack_candidate c" for fault c
    using insert_attack [OF _ that] by (simp add: stores_ok_def service_extends_def)
qed (auto simp: service_extends_refl stores_ok_def service_extends_def
    intro: claim_inv complete_inv recover_inv alerts_same)

text \<open>The execution slot is free between connections.\<close>

definition slot_free :: "gates \<Rightarrow> bool" where
  "slot_free g \<longleftrightarrow> gate_inv g \<and> ga_global_active g = 0 \<and> is_uuid4 (ga_instance_id g)"

lemma acquire_refused_free:
  assumes "slot_free g" "acquire g p reading token = (h, res)"
    "\<And>d. res = Inr d \<Longrightarrow> gd_disposition d \<noteq> Gate_accepted"
  shows "slot_free h"
proof -
  have "gate_inv h" using acquire_inv [of g p reading token] assms(1,2) by (simp add: slot_free_def)
  moreover have "ga_global_active h = ga_global_active g \<and> ga_instance_id h = ga_instance_id g"
    by (cases rule: acquire_cases [of p g reading token])
      (use assms(2,3) in \<open>auto simp: clock_reject_def refill_def split: option.splits\<close>)
  ultimately show ?thesis using assms(1) by (simp add: slot_free_def)
qed

lemma acquire_granted_free:
  assumes "slot_free g" "acquire g p reading token = (h, Inr d)" "gd_disposition d = Gate_accepted"
    "is_b64url_32 token" "gd_lease d = Some l"
  shows "active_lease h l" "slot_free (fst (release h l))"
proof -
  show a: "active_lease h l"
    using granted_active [OF assms(2,3) _ assms(4)] assms(1,5) by (auto simp: slot_free_def)
  have "gate_inv (fst (release h l))"
    using release_inv acquire_inv [of g p reading token] assms(1,2) by (simp add: slot_free_def)
  then show "slot_free (fst (release h l))"
    using a by (auto simp: slot_free_def release_def active_lease_def)
qed

lemma process_admitted_free:
  assumes "slot_free (ow_gates w)" "\<And>n. is_b64url_32 (oe_token env n)"
  shows "slot_free (ow_gates (fst (process_admitted env sess rec w)))"
proof -
  obtain w1 res where w1: "acquire_session env sess w = (w1, res)" by (cases "acquire_session env sess w")
  have kept: "ow_gates (fst (m v)) = ow_gates v" if "stays (\<lambda>w w'. ow_gates w' = ow_gates w) m"
    for m :: "'a orc" and v using that by (simp add: stays_def)
  have refused: "slot_free (ow_gates w1)" if "\<And>d. res = Inr (Inr d) \<Longrightarrow> gd_disposition d \<noteq> Gate_accepted"
    using w1 acquire_refused_free [OF assms(1)] that assms(1)
    by (auto simp: acquire_session_def bindO_eq on_gates_def Let_def split: if_splits prod.splits sum.splits)
  show ?thesis
  proof (cases "\<exists>d. res = Inr (Inr d) \<and> gd_disposition d = Gate_accepted")
    case True
    then obtain d where d: "res = Inr (Inr d)" "gd_disposition d = Gate_accepted" by blast
    obtain reading token where acq: "acquire (ow_gates w) (se_producer sess) reading token = (ow_gates w1, Inr d)"
      "is_b64url_32 token"
      using w1 d(1) assms(2)
      by (auto simp: acquire_session_def bindO_eq on_gates_def Let_def split: if_splits prod.splits)
    obtain l where l: "gd_lease d = Some l"
      using granted_active [OF acq(1) d(2) _ acq(2)] assms(1) by (auto simp: slot_free_def)
    obtain w2 out where w2: "process_leased env sess rec w1 = (w2, out)" by (cases "process_leased env sess rec w1")
    have g2: "ow_gates w2 = ow_gates w1" using kept [OF same_gates.process_leased] w2 by (metis fst_conv)
    have "fst (process_admitted env sess rec w) = w2\<lparr>ow_gates := fst (release (ow_gates w1) l)\<rparr>"
      using acquire_granted_free(1) [OF assms(1) acq(1) d(2) acq(2) l]
      by (simp add: process_admitted_def answer_gate_def bindO_eq w1 d l finally_release_def w2 g2 release_def)
    then show ?thesis using acquire_granted_free(2) [OF assms(1) acq(1) d(2) acq(2) l] by simp
  next
    case False
    then have "ow_gates (fst (process_admitted env sess rec w)) = ow_gates w1"
      by (auto simp: process_admitted_def answer_gate_def bindO_eq w1 Let_def split: sum.split
          intro!: kept same_gates.answers)
    then show ?thesis using refused False by auto
  qed
qed

interpretation slot: connection_frame env
  "\<lambda>w w'. (\<forall>n. is_b64url_32 (oe_token env n)) \<and> slot_free (ow_gates w) \<longrightarrow> slot_free (ow_gates w')"
  by unfold_locales (auto simp: stays_def process_admitted_free)

definition service_inv :: "orc_env \<Rightarrow> orc_world \<Rightarrow> bool" where
  "service_inv env w \<longleftrightarrow> (\<forall>n. is_b64url_32 (oe_token env n)) \<and> slot_free (ow_gates w) \<and> stores_ok env w"

lemma new_gates_free: "is_uuid4 i \<Longrightarrow> slot_free (new_gates i)"
  by (simp add: slot_free_def gate_inv_def new_gates_def gate_consts)

lemma service_step_ok:
  assumes "service_inv env w"
  shows "service_inv env (service_step env w c)" "service_extends w (service_step env w c)"
proof -
  have "service_inv env (service_step env w c) \<and> service_extends w (service_step env w c)"
    using assms slot.process_one [of env] slot.recover_generation [of env]
      stores.process_one [of env] stores.recover_generation [of env]
    by (cases c) (simp_all add: service_inv_def stays_def)
  then show "service_inv env (service_step env w c)" "service_extends w (service_step env w c)" by simp_all
qed

interpretation service: monotone_machine "service_step env"
  "\<lambda>w. (\<forall>n. is_b64url_32 (oe_token env n)) \<and> (\<exists>i. is_uuid4 i \<and> w = new_world i)" "service_inv env" service_extends
proof
  show "service_inv env w"
    if "(\<forall>n. is_b64url_32 (oe_token env n)) \<and> (\<exists>i. is_uuid4 i \<and> w = new_world i)" for w
    using that
    by (auto simp: service_inv_def new_world_def new_gates_free stores_ok_def journal_inv_def audit_inv_def alert_inv_def)
qed (auto intro: service_step_ok service_extends_refl service_extends_trans)

section \<open>Alerts are stored for claimed and audited requests only\<close>

definition admitted_logged :: "admission_record \<Rightarrow> audit_row list \<Rightarrow> bool" where
  "admitted_logged rec t \<longleftrightarrow> (\<exists>e \<in> set t. sa_event_type e = ''request_admitted'' \<and>
     sa_request_id_sha256 e = Some (sha256_hex (ar_request_id rec)) \<and>
     sa_body_sha256 e = Some (ar_body_sha256 rec))"

lemma admitted_logged_prefix: "prefix t t' \<Longrightarrow> admitted_logged rec t \<Longrightarrow> admitted_logged rec t'"
  by (auto simp: admitted_logged_def dest: set_mono_prefix)

lemma append_event_stored:
  assumes "append_event cap fault t e = (t', Inr res)"
  shows "\<exists>row \<in> set t'. sa_event_type row = sa_event_type e \<and>
    sa_request_id_sha256 row = sa_request_id_sha256 e \<and> sa_body_sha256 row = sa_body_sha256 e"
proof -
  have body: "append_body cap t e = Inr (t', res)"
    using assms by (auto simp: append_event_def split: if_splits sqlite_fault.splits sum.splits)
  show ?thesis
  proof (cases "fetchone (\<lambda>r. sa_audit_event_id r = sa_audit_event_id e) t")
    case None
    then have "t' = t @ [audit_values e]" using body by (auto simp: append_body_def split: if_splits)
    then show ?thesis by (simp add: audit_values_def with_time_def)
  next
    case (Some row)
    then obtain stored where stored: "event_of_row row = Inr stored" "audit_equivalent stored e" "t' = t"
      using body by (auto simp: append_body_def split: bindE_splits if_splits)
    have "row \<in> set t" using fetchone_SomeD [OF Some] by simp
    moreover have "sa_event_type row = sa_event_type e \<and>
        sa_request_id_sha256 row = sa_request_id_sha256 e \<and> sa_body_sha256 row = sa_body_sha256 e"
      using stored(1,2)
      by (auto simp: event_of_row_def audit_equivalent_def with_time_def Let_def split: option.splits if_splits)
    ultimately show ?thesis using stored(3) by blast
  qed
qed

lemma append_audit_logged:
  assumes "append_audit env ''request_admitted'' sess (Some rec) cid w = (w', Inr u)"
  shows "admitted_logged rec (ow_audit w')"
proof -
  have tax: "map_of AUDIT ''request_admitted'' =
      Some (''request_admitted'', ''admission'', ''admitted'', ''request_admitted'')"
    by code_simp
  obtain e fault t r where e: "append_event (oe_audit_capacity env) fault t e = (ow_audit w', Inr r)"
    "sa_event_type e = ''request_admitted''"
    "sa_request_id_sha256 e = Some (sha256_hex (ar_request_id rec))" "sa_body_sha256 e = Some (ar_body_sha256 rec)"
    using assms
    by (auto simp: append_audit_def tax bindO_eq on_audit_def Let_def create_audit_event_def evidence_of_def
        split: sum.splits option.splits prod.splits if_splits)
  show ?thesis
    unfolding admitted_logged_def using append_event_stored [OF e(1)] e(2-4) by simp
qed

lemma audit_passed:
  assumes "audit_or_unavailable env reason sess rec cid poison w = (w', Inr None)"
  shows "append_audit env reason (Some sess) rec cid w = (w', Inr ())"
  using assms
  by (auto simp: audit_or_unavailable_def tryO_eq bindO_eq split: prod.splits sum.splits option.splits if_splits)

lemma unless_failed_cases:
  assumes "unless_failed check rest w = (w', out)"
  obtains (failed) x where "check w = (w', x)" "x \<noteq> Inr None"
  | (passed) w1 where "check w = (w1, Inr None)" "rest w1 = (w', out)"
  using assms by (auto simp: unless_failed_def bindO_eq split: prod.splits sum.splits option.splits)

lemma process_claimed_alerts:
  assumes "process_claimed env sess rec own w = (w', out)"
  shows "ow_alerts w' = ow_alerts w \<or> admitted_logged rec (ow_audit w')"
  using assms unfolding process_claimed_def
proof (cases rule: unless_failed_cases)
  case (failed x)
  then show ?thesis using staysD [OF same_alerts.audit_or_unavailable failed(1)] by blast
next
  case (passed w1)
  have "prefix (ow_audit w1) (ow_audit w')" using staysD [OF grows.infer_and_answer passed(2)] by blast
  then show ?thesis using admitted_logged_prefix append_audit_logged [OF audit_passed [OF passed(1)]] by blast
qed

text \<open>The request identifiers of the journal, which processing keeps and a claim extends.\<close>

abbreviation journal_ids :: "orc_world \<Rightarrow> string list" where
  "journal_ids w \<equiv> map jr_request_id (ow_journal w)"

lemma complete_ids: "map jr_request_id (fst (complete fparse gen fault t c b ts)) = map jr_request_id t"
proof -
  have "map jr_request_id t' = map jr_request_id t" if "complete_body gen t c b d a = Inr (t', x)" for t' x d a
    using that by (elim complete_body_InrD) (auto simp: update_rows_def update_where_def split: if_splits)
  then have "map jr_request_id (fst (transaction fault t (complete_body gen t c b d a))) = map jr_request_id t" for d a
    by (cases rule: transaction_cases [of fault t "complete_body gen t c b d a"]) auto
  then show ?thesis by (auto simp: complete_def split: option.split sum.split)
qed

interpretation same_ids: processing_frame env "\<lambda>w w'. journal_ids w' = journal_ids w"
  by unfold_locales (auto simp: complete_ids)

lemma claim_outcomes:
  assumes "claim fparse gen fault t rec ts token = (t', res)"
  obtains (other) "t' = t" "\<And>x. res = Inr x \<Longrightarrow> cl_claim x = None"
  | (granted) x where "res = Inr x" "cl_disposition x = In_progress" "cl_reason x = CR_request_claimed"
      "cl_claim x = Some \<lparr>rc_request_id = ar_request_id rec, rc_generation = gen, rc_ownership_token = token\<rparr>"
      "map jr_request_id t' = map jr_request_id t @ [ar_request_id rec]"
      "ar_request_id rec \<notin> set (map jr_request_id t)" "valid_admission_record rec"
proof (cases ts)
  case None
  then show ?thesis using assms by (intro other) (auto simp: claim_def)
next
  case (Some a)
  then have tr: "transaction fault t (claim_body fparse gen t rec a token) = (t', res)"
    using assms by (simp add: claim_def)
  show ?thesis
  proof (cases rule: transaction_cases [of fault t "claim_body fparse gen t rec a token"])
    case (same e)
    then show ?thesis using tr by (intro other) auto
  next
    case (committed t'' x)
    then have res: "t' = t''" "res = Inr x" using tr by auto
    show ?thesis
    proof (cases "cl_reason x = CR_request_claimed")
      case True
      have "existing_rows t rec = []" "valid_admission_record rec"
        "insert_row t (new_row gen rec a token) = Inr t''"
        "cl_claim x = Some \<lparr>rc_request_id = ar_request_id rec, rc_generation = gen, rc_ownership_token = token\<rparr>"
        using claim_body_InrD [OF committed(1)] True by auto
      moreover have "cl_disposition x = In_progress"
        using committed(1) True
        by (auto simp: claim_body_def replayed_def split: list.splits if_splits replay_state.splits bindE_splits)
      ultimately show ?thesis
        using insert_row_InrD [of t "new_row gen rec a token" t''] True
        by (intro granted [OF res(2)]) (auto simp: res(1) new_row_def)
    next
      case False
      then show ?thesis using claim_body_InrD [OF committed(1)] res by (intro other) auto
    qed
  qed
qed

lemma unclaimed_answer:
  assumes "\<And>x. res = Inr x \<Longrightarrow> cl_claim x = None"
  shows "stays (\<lambda>w w'. ow_alerts w' = ow_alerts w) (answer_claim env sess rec res)"
    "stays (\<lambda>w w'. ow_journal w' = ow_journal w) (answer_claim env sess rec res)"
  using assms unfolding answer_claim_def Let_def
  by (auto intro!: same_alerts.answers same_journal.answers split: sum.split option.split)

text \<open>Under a lease, either no claim is granted and the stores stay, or the request is processed.\<close>

lemma process_leased_cases:
  assumes "process_leased env sess rec w = (w', out)"
  obtains (unclaimed) "ow_alerts w' = ow_alerts w" "journal_ids w' = journal_ids w"
  | (claimed) w1 c where "ow_alerts w1 = ow_alerts w"
      "journal_ids w1 = journal_ids w @ [ar_request_id rec]"
      "ar_request_id rec \<notin> set (journal_ids w)" "valid_admission_record rec"
      "rc_request_id c = ar_request_id rec" "process_claimed env sess rec c w1 = (w', out)"
proof (cases "oe_now env (ow_tick w)")
  case None
  then show ?thesis
    using assms by (intro unclaimed) (auto simp: process_leased_def bindO_eq now_of_def)
next
  case (Some t)
  define n where "n = Suc (ow_tick w)"
  obtain j res where j: "claim (oe_fparse env) (oe_generation env) (oe_journal_fault env (Suc n)) (ow_journal w)
      rec (Some t) (oe_token env n) = (j, res)" by fastforce
  define w1 where "w1 = w\<lparr>ow_tick := Suc (Suc n), ow_journal := j\<rparr>"
  have run: "answer_claim env sess rec res w1 = (w', out)"
    using assms Some j by (simp add: process_leased_def bindO_eq now_of_def on_journal_def n_def w1_def)
  show ?thesis
  proof (cases rule: claim_outcomes [OF j])
    case 1
    have "ow_alerts w' = ow_alerts w1 \<and> ow_journal w' = ow_journal w1"
      using staysD [OF unclaimed_answer(1) run] staysD [OF unclaimed_answer(2) run] 1(2) by blast
    then show ?thesis using 1(1) by (intro unclaimed) (simp_all add: w1_def)
  next
    case (2 x)
    then show ?thesis
      using run by (intro claimed) (auto simp: w1_def answer_claim_def)
  qed
qed

text \<open>The request of a session as admission sees it.\<close>

definition session_request :: "orc_env \<Rightarrow> session \<Rightarrow> admission_record \<Rightarrow> bool" where
  "session_request env sess rec \<longleftrightarrow> (\<exists>head body cid t. se_head sess = Inr head \<and> se_body sess = Inr body \<and>
     admit_producer_request cid (oe_fparse env) (oe_registry env) (se_peer sess) INGEST_METHOD INGEST_TARGET
       (rh_content_type head) (rh_content_length head) bytesio_read body (Some t) = Inr rec)"

lemma admit_session_Inr:
  assumes "admit_session env sess head body w = (w', Inr (Inr rec))"
  shows "\<exists>cid t. admit_producer_request cid (oe_fparse env) (oe_registry env) (se_peer sess) INGEST_METHOD
    INGEST_TARGET (rh_content_type head) (rh_content_length head) bytesio_read body (Some t) = Inr rec"
  using assms
  by (auto simp: admit_session_def bindO_eq now_of_def bindE_eq_Inr split: option.splits if_splits)

lemma finally_release_outcome:
  assumes "finally_release l m w = (w', out)"
  obtains w2 out2 where "m w = (w2, out2)" "ow_alerts w' = ow_alerts w2" "ow_journal w' = ow_journal w2"
    "ow_audit w' = ow_audit w2" "ow_fatal w2 \<Longrightarrow> ow_fatal w'" "out = out2 \<or> ow_fatal w'"
  using assms by (cases "m w") (auto simp: finally_release_def Let_def split: prod.splits sum.splits)

lemma refused_answer:
  assumes "\<And>d l. res = Inr d \<Longrightarrow> gd_disposition d = Gate_accepted \<Longrightarrow> gd_lease d = Some l \<Longrightarrow> False"
  shows "stays (\<lambda>w w'. ow_alerts w' = ow_alerts w) (answer_gate env sess rec res)"
    "stays (\<lambda>w w'. ow_journal w' = ow_journal w) (answer_gate env sess rec res)"
  using assms unfolding answer_gate_def Let_def
  by (auto intro!: same_alerts.answers same_journal.answers split: sum.split option.split)

lemma acquire_session_effect:
  assumes "acquire_session env sess w = (w', res)"
  obtains r where "res = Inr r" "ow_alerts w' = ow_alerts w" "ow_journal w' = ow_journal w"
  using assms by (auto simp: acquire_session_def bindO_eq on_gates_def Let_def split: if_splits prod.splits)

lemma process_admitted_cases:
  assumes "process_admitted env sess rec w = (w', out)"
  obtains (answered) "ow_alerts w' = ow_alerts w" "ow_journal w' = ow_journal w"
  | (leased) w1 w2 out2 where "ow_alerts w1 = ow_alerts w" "ow_journal w1 = ow_journal w"
      "process_leased env sess rec w1 = (w2, out2)" "ow_alerts w' = ow_alerts w2" "ow_journal w' = ow_journal w2"
      "ow_audit w' = ow_audit w2" "ow_fatal w2 \<Longrightarrow> ow_fatal w'" "out = out2 \<or> ow_fatal w'"
proof -
  obtain w1 res where acq: "acquire_session env sess w = (w1, res)" by (cases "acquire_session env sess w")
  obtain r where r: "res = Inr r" and w1: "ow_alerts w1 = ow_alerts w" "ow_journal w1 = ow_journal w"
    by (rule acquire_session_effect [OF acq])
  have run: "answer_gate env sess rec r w1 = (w', out)"
    using assms by (simp add: process_admitted_def bindO_eq acq r)
  show ?thesis
  proof (cases "\<exists>d l. r = Inr d \<and> gd_disposition d = Gate_accepted \<and> gd_lease d = Some l")
    case True
    then obtain d l where "r = Inr d" "gd_disposition d = Gate_accepted" "gd_lease d = Some l" by blast
    then have "finally_release l (process_leased env sess rec) w1 = (w', out)"
      using run by (simp add: answer_gate_def)
    then show ?thesis by (rule finally_release_outcome) (rule leased [OF w1])
  next
    case False
    have "ow_alerts w' = ow_alerts w1" "ow_journal w' = ow_journal w1"
      using staysD [OF refused_answer(1) run] staysD [OF refused_answer(2) run] False by blast+
    then show ?thesis using w1 by (intro answered) simp_all
  qed
qed

lemma process_session_cases:
  assumes "process_session env sess w = (w', out)"
  obtains (answered) "ow_alerts w' = ow_alerts w" "ow_journal w' = ow_journal w"
  | (admitted) rec w1 where "session_request env sess rec" "ow_alerts w1 = ow_alerts w" "ow_journal w1 = ow_journal w"
      "process_admitted env sess rec w1 = (w', out)"
proof (cases "\<exists>head body. se_head sess = Inr head \<and> se_body sess = Inr body")
  case False
  have st: "stays (\<lambda>w w'. ow_alerts w' = ow_alerts w) (process_session env sess)"
    "stays (\<lambda>w w'. ow_journal w' = ow_journal w) (process_session env sess)"
    using False unfolding process_session_def Let_def
    by (auto intro!: same_alerts.answers same_journal.answers split: sum.split)
  show ?thesis by (rule answered) (rule staysD [OF st(1) assms], rule staysD [OF st(2) assms])
next
  case True
  then obtain head body where hb: "se_head sess = Inr head" "se_body sess = Inr body" by blast
  obtain w1 res where adm: "admit_session env sess head body w = (w1, res)" by (cases "admit_session env sess head body w")
  have w1: "ow_alerts w1 = ow_alerts w" "ow_journal w1 = ow_journal w"
    using staysD [OF same_alerts.admit_session adm] staysD [OF same_journal.admit_session adm] by blast+
  show ?thesis
  proof (cases "\<exists>rec. res = Inr (Inr rec)")
    case True
    then obtain rec where rec: "res = Inr (Inr rec)" by blast
    have "session_request env sess rec"
      using admit_session_Inr adm rec hb by (fastforce simp: session_request_def)
    moreover have "process_admitted env sess rec w1 = (w', out)"
      using assms by (simp add: process_session_def hb bindO_eq adm rec)
    ultimately show ?thesis by (rule admitted [OF _ w1])
  next
    case False
    have ans: "ow_alerts v' = ow_alerts v \<and> ow_journal v' = ow_journal v"
      if "audit_and_answer env a b sess None cid v = (v', x)" for a b cid v v' x
      using staysD [OF same_alerts.audit_and_answer that] staysD [OF same_journal.audit_and_answer that] by blast
    have "ow_alerts w' = ow_alerts w1 \<and> ow_journal w' = ow_journal w1"
      using assms False
      by (auto simp: process_session_def hb bindO_eq adm dest: ans split: sum.splits)
    then show ?thesis using w1 by (intro answered) simp_all
  qed
qed

section \<open>Responses that always exist\<close>

lemma response_text_length:
  assumes "is_uuid4 c" "reason \<in> set [''internal_error'', ''processing_timeout'', ''request_completed'']"
  shows "length (json_dumps frepr (response_json \<lparr>pr_schema_version = ORCHESTRATOR_RESPONSE_SCHEMA,
      pr_correlation_id = c, pr_reason = reason, pr_records = rs\<rparr>)) \<le>
    200 + length (join '','' (map (\<lambda>r. json_dumps frepr (record_json r)) rs))"
proof -
  have q: "length (quoted c) = 38" "length (quoted ORCHESTRATOR_RESPONSE_SCHEMA) = 29"
    "length (quoted ''correlation_id'') = 16" "length (quoted ''reason'') = 8"
    "length (quoted ''records'') = 9" "length (quoted ''schema_version'') = 16"
    using uuid4_printable [OF assms(1)]
    by (simp_all add: length_quoted) (simp_all add: length_quoted printable_def)
  have "length (quoted reason) \<le> 20"
    using assms(2) by (auto simp: length_quoted printable_def)
  then show ?thesis by (simp add: response_json_def q comp_def)
qed

lemma rejected_record_length:
  assumes "1 \<le> i" "i \<le> 256"
  shows "length (json_dumps frepr (record_json (rejected_disposition i))) \<le> 100"
proof -
  have "list_all (\<lambda>i. length (dec_int i) \<le> 3) [1..256]" by code_simp
  then have d: "length (dec_int i) \<le> 3" using assms by (simp add: list_all_iff)
  have q: "length (quoted ''rejected'') = 10" "length (quoted ''inference_rejected'') = 20"
    "length (quoted ''disposition'') = 13" "length (quoted ''reason'') = 8" "length (quoted ''record_index'') = 14"
    by (simp_all add: length_quoted printable_def)
  show ?thesis using d by (simp add: record_json_def rejected_disposition_def opt_member_def q)
qed

lemma join_bound: "(\<And>t. t \<in> set ts \<Longrightarrow> length t \<le> k) \<Longrightarrow> length (join '','' ts) \<le> length ts * (k + 1)"
  by (induction ts) (fastforce simp: join_Cons)+

lemma short_response:
  assumes "is_uuid4 c" "reason \<in> set [''internal_error'', ''processing_timeout'']"
  shows "\<exists>b. build_response env (Some c) reason [] = Some b"
proof -
  let ?r = "\<lparr>pr_schema_version = ORCHESTRATOR_RESPONSE_SCHEMA, pr_correlation_id = c, pr_reason = reason, pr_records = []\<rparr>"
  have "valid_response ?r"
    using assms by (auto simp: valid_response_def RESPONSE_REASONS_def V2_TOP_LEVEL_REASONS_def MAX_RECORDS_def)
  moreover have "length (json_dumps (oe_frepr env) (response_json ?r)) \<le> 200"
    using response_text_length [OF assms(1), of reason "oe_frepr env" "[]"] assms(2) by auto
  ultimately show ?thesis
    by (simp add: build_response_def Let_def serialize_producer_response_def MAX_RESPONSE_BYTES_def)
qed

lemma rejected_response:
  assumes "is_uuid4 c" "1 \<le> n" "n \<le> MAX_RECORDS"
  shows "\<exists>b. build_response env (Some c) ''request_completed'' (map rejected_disposition [1..int n]) = Some b"
proof -
  let ?rs = "map rejected_disposition [1..int n]"
  let ?r = "\<lparr>pr_schema_version = ORCHESTRATOR_RESPONSE_SCHEMA, pr_correlation_id = c, pr_reason = ''request_completed'',
    pr_records = ?rs\<rparr>"
  let ?ts = "map (\<lambda>r. json_dumps (oe_frepr env) (record_json r)) ?rs"
  have n: "n \<le> 256" using assms(3) by (simp add: MAX_RECORDS_def)
  have "list_all (\<lambda>r. valid_record_disposition r \<and> v2_record_valid r) ?rs"
    using assms(3) by (auto simp: list_all_iff valid_record_disposition_def v2_record_valid_def rejected_disposition_def
        RESPONSE_DISPOSITIONS_def RESPONSE_REASONS_def)
  then have "valid_response ?r"
    using assms
    by (auto simp: valid_response_def RESPONSE_REASONS_def LEGACY_RESPONSE_REASONS_def V2_TOP_LEVEL_REASONS_def
        list_all_iff comp_def rejected_disposition_def)
  moreover have "length (join '','' ?ts) \<le> length ?ts * (100 + 1)"
    by (rule join_bound) (use n in \<open>auto intro!: rejected_record_length\<close>)
  then have "length (json_dumps (oe_frepr env) (response_json ?r)) \<le> 200 + 256 * 101"
    using response_text_length [OF assms(1), of "''request_completed''" "oe_frepr env" ?rs] n
    by (simp add: comp_def)
  ultimately show ?thesis
    by (simp add: build_response_def Let_def serialize_producer_response_def MAX_RESPONSE_BYTES_def)
qed

section \<open>A claimed request is settled or the service is poisoned\<close>

text \<open>The journal holds the response of the claimed request.\<close>

definition settled :: "string \<Rightarrow> string \<Rightarrow> orc_world \<Rightarrow> bool" where
  "settled request_id b w \<longleftrightarrow> (\<exists>row \<in> set (ow_journal w). jr_request_id row = request_id \<and>
     jr_state row = Completed \<and> jr_response_bytes row = Some b)"

text \<open>How a processing operation may end: poisoned, or with the response that the journal holds.\<close>

definition settles :: "string \<Rightarrow> orc_result orc \<Rightarrow> bool" where
  "settles request_id m \<longleftrightarrow> (\<forall>w w' out. m w = (w', out) \<longrightarrow>
     ow_fatal w' \<or> (\<exists>r b. out = Inr r \<and> or_response_bytes r = Some b \<and> settled request_id b w'))"

lemma settlesI:
  "(\<And>w w' out. m w = (w', out) \<Longrightarrow> \<not> ow_fatal w' \<Longrightarrow>
     \<exists>r b. out = Inr r \<and> or_response_bytes r = Some b \<and> settled request_id b w') \<Longrightarrow> settles request_id m"
  unfolding settles_def by blast

lemma raise_ambiguous_poisons: "raise_ambiguous env code sess rec reason w = (w', out) \<Longrightarrow> ow_fatal w'"
  using staysD [OF grows.append_audit, of env reason "Some sess" "Some rec" None "w\<lparr>ow_fatal := True\<rparr>"]
  by (auto simp: raise_ambiguous_def bindO_eq tryO_eq split: prod.splits sum.splits)

lemma ambiguous_settles: "settles i (raise_ambiguous env code sess rec reason)"
  using raise_ambiguous_poisons by (intro settlesI) blast

lemma audit_failure_poisons:
  assumes "audit_or_unavailable env reason sess (Some rec) None True w = (w', x)" "x \<noteq> Inr None"
  shows "ow_fatal w'"
proof -
  define rest where "rest = (\<lambda>_ :: unit. bindO (response_of env (Some (ar_correlation_id rec)) ''audit_unavailable'' [])
    (\<lambda>b. bindO (write_response env b) (\<lambda>r. returnO (Some r))))"
  have st: "stays (\<lambda>w w'. prefix (ow_audit w) (ow_audit w') \<and> (ow_fatal w \<longrightarrow> ow_fatal w')) (rest u)" for u
    unfolding rest_def by (intro grows.answers)
  obtain w1 y where y: "append_audit env reason (Some sess) (Some rec) None w = (w1, y)"
    by (cases "append_audit env reason (Some sess) (Some rec) None w")
  have "rest () (w1\<lparr>ow_fatal := True\<rparr>) = (w', x)"
    using assms y
    by (auto simp: audit_or_unavailable_def tryO_eq bindO_eq [of set_fatal] rest_def split: sum.splits)
  from staysD [OF st this] show ?thesis by simp
qed

lemma settles_unless_failed:
  assumes "settles i m"
  shows "settles i (unless_failed (audit_or_unavailable env reason sess (Some rec) None True) m)"
proof (rule settlesI)
  fix w w' out
  assume run: "unless_failed (audit_or_unavailable env reason sess (Some rec) None True) m w = (w', out)"
    and alive: "\<not> ow_fatal w'"
  from run show "\<exists>r b. out = Inr r \<and> or_response_bytes r = Some b \<and> settled i b w'"
  proof (cases rule: unless_failed_cases)
    case (failed x)
    then show ?thesis using audit_failure_poisons alive by blast
  next
    case (passed w1)
    then show ?thesis using assms alive unfolding settles_def by blast
  qed
qed

lemma complete_settled:
  assumes "complete fparse gen fault t own b ts = (t', Inr cached)"
  shows "\<exists>row \<in> set t'. jr_request_id row = rc_request_id own \<and> jr_state row = Completed \<and>
    jr_response_bytes row = Some b"
proof -
  obtain d a where body: "complete_body gen t own b d a = Inr (t', cached)"
    using assms
    by (auto simp: complete_def split: option.splits if_splits sum.splits dest: transaction_InrD)
  obtain row where row: "fetchone (\<lambda>x. jr_request_id x = rc_request_id own) t = Some row"
    "update_rows (\<lambda>x. jr_request_id x = rc_request_id own) (complete_row a b) t = Inr t'"
    by (rule complete_body_InrD [OF body])
  have "row \<in> set t" "jr_request_id row = rc_request_id own" using fetchone_SomeD [OF row(1)] by auto
  then have "complete_row a b row \<in> set t'"
    using row(2) by (auto simp: update_rows_def update_where_def split: if_splits)
  then show ?thesis
    using \<open>jr_request_id row = rc_request_id own\<close> by (intro bexI) (auto simp: complete_row_def)
qed

lemma write_response_result:
  "write_response env b w = (w', out) \<Longrightarrow> \<exists>r. out = Inr r \<and> or_response_bytes r = Some b \<and> ow_journal w' = ow_journal w"
  by (auto simp: write_response_def bindO_eq)

lemma settles_bind:
  assumes "\<And>x. settles i (f x)" "\<And>w w' e. m w = (w', Inl e) \<Longrightarrow> ow_fatal w'"
  shows "settles i (bindO m f)"
  using assms unfolding settles_def bindO_eq by (auto split: prod.splits sum.splits)

lemma settles_try:
  assumes "\<And>e. settles i (h e)" "\<And>x. settles i (k x)"
  shows "settles i (tryO m h k)"
  using assms unfolding settles_def tryO_eq by (auto split: prod.splits sum.splits)

lemma settles_response:
  assumes "\<exists>b. build_response env (Some c) reason rs = Some b" "\<And>b. settles i (f b)"
  shows "settles i (bindO (response_of env (Some c) reason rs) f)"
  using assms by (intro settles_bind) (auto simp: response_of_def)

lemma budget_poisons:
  assumes "(if enforce then tryO (check_processing env started)
      (\<lambda>code. raise_ambiguous env code sess rec (audit_reason code)) returnO else returnO ()) w = (w', Inl e)"
  shows "ow_fatal w'"
  using assms
  by (auto simp: tryO_eq split: if_splits prod.splits sum.splits dest: raise_ambiguous_poisons)

lemma complete_and_write_settles:
  "settles (rc_request_id own) (complete_and_write env sess rec own b started enforce)"
proof -
  define finish where "finish = (\<lambda>u :: unit. tryO
    (bindO (now_of env) (\<lambda>t. bindO (readO (oe_journal_fault env)) (\<lambda>fault.
       on_journal (\<lambda>j. complete (oe_fparse env) (oe_generation env) fault j own b (Some t)))))
    (\<lambda>_. raise_ambiguous env ''replay_completion_ambiguous'' sess rec ''internal_error'')
    (\<lambda>res. case res of
       Inl _ \<Rightarrow> raise_ambiguous env ''replay_completion_ambiguous'' sess rec ''internal_error''
     | Inr cached \<Rightarrow> if cached \<noteq> b
         then raise_ambiguous env ''replay_completion_ambiguous'' sess rec ''internal_error''
         else write_response env b))"
  have "settles (rc_request_id own) (finish u)" for u
  proof (rule settlesI)
    fix w w' out
    assume run: "finish u w = (w', out)" and alive: "\<not> ow_fatal w'"
    have amb: "raise_ambiguous env ''replay_completion_ambiguous'' sess rec ''internal_error'' v \<noteq> (w', out)" for v
      using alive raise_ambiguous_poisons by blast
    from run obtain t' cached fault t n where c:
      "complete (oe_fparse env) (oe_generation env) fault (ow_journal w) own b (Some t) = (t', Inr cached)"
      "write_response env b (w\<lparr>ow_tick := n, ow_journal := t'\<rparr>) = (w', out)"
      by (auto simp: finish_def tryO_eq bindO_eq now_of_def on_journal_def Let_def amb
          split: prod.splits sum.splits option.splits if_splits)
    obtain row where "row \<in> set t'" "jr_request_id row = rc_request_id own" "jr_state row = Completed"
      "jr_response_bytes row = Some b" using complete_settled [OF c(1)] by blast
    then show "\<exists>r b. out = Inr r \<and> or_response_bytes r = Some b \<and> settled (rc_request_id own) b w'"
      using write_response_result [OF c(2)] by (auto simp: settled_def)
  qed
  then have "settles (rc_request_id own) (complete_and_write env sess rec own b started enforce)"
    unfolding complete_and_write_def finish_def [symmetric]
    by (intro settles_unless_failed settles_bind) (auto dest: budget_poisons)
  then show ?thesis .
qed

lemma fail_request_settles:
  assumes "is_uuid4 (ar_correlation_id rec)" "reason \<in> set [''internal_error'', ''processing_timeout'']"
  shows "settles (rc_request_id own) (fail_request env reason sess rec own started enforce)"
  unfolding fail_request_def complete_failure_and_write_def
  by (intro settles_response short_response [OF assms] settles_unless_failed complete_and_write_settles)

lemma inference_rejected_settles:
  assumes "valid_admission_record rec"
  shows "settles (rc_request_id own) (inference_rejected env sess rec own started)"
  unfolding inference_rejected_def
  by (intro settles_response rejected_response complete_and_write_settles)
    (use assms in \<open>auto simp: valid_admission_record_def\<close>)

lemma persist_failure_poisons:
  "persist_alerts env sess rec started durable cs w = (w', Inl e) \<Longrightarrow> ow_fatal w'"
proof (induction cs arbitrary: durable w)
  case Nil
  then show ?case by simp
next
  case (Cons c cs)
  then show ?case
    by (auto simp: bindO_eq tryO_eq split: option.splits prod.splits sum.splits if_splits
        dest: raise_ambiguous_poisons)
qed

lemma persist_and_answer_settles:
  assumes "valid_admission_record rec"
  shows "settles (rc_request_id own) (persist_and_answer env sess rec own started inferred)"
proof -
  have "is_uuid4 (ar_correlation_id rec)" using assms by (simp add: valid_admission_record_def)
  then show ?thesis
    unfolding persist_and_answer_def
    by (intro settles_try settles_bind fail_request_settles)
      (auto intro!: fail_request_settles complete_and_write_settles ambiguous_settles
        split: sum.split option.split dest: persist_failure_poisons)
qed

text \<open>The one way out that neither settles nor poisons: the clock reading before the worker starts.\<close>

lemma monotonic_failure: "monotonic_now env w = (w', Inl e) \<Longrightarrow> e = ''monotonic_clock_invalid''"
  by (auto simp: monotonic_now_def bindO_eq split: option.splits pyfloat.splits if_splits)

lemma infer_and_answer_ends:
  assumes "valid_admission_record rec" "infer_and_answer env sess rec own w = (w', out)" "\<not> ow_fatal w'"
    "out \<noteq> Inl ''monotonic_clock_invalid''"
  shows "\<exists>r b. out = Inr r \<and> or_response_bytes r = Some b \<and> settled (rc_request_id own) b w'"
proof -
  have u: "is_uuid4 (ar_correlation_id rec)" using assms(1) by (simp add: valid_admission_record_def)
  define work where "work = (\<lambda>started. bindO (readO (oe_worker env)) (\<lambda>worker.
         case worker (map reference_identity (ar_records rec)) of
           Worker_results inferred \<Rightarrow>
             tryO (if length inferred \<noteq> length (ar_records rec) then raiseO ''inference_result_invalid''
                   else check_processing env started)
               (\<lambda>code. if code = ''processing_timeout''
                  then fail_request env ''processing_timeout'' sess rec own started False
                  else bindO set_fatal (\<lambda>_. raiseO code))
               (\<lambda>_. persist_and_answer env sess rec own started inferred)
         | Worker_network_error \<Rightarrow> inference_rejected env sess rec own started
         | Worker_error code \<Rightarrow>
             (let timed_out = code \<in> set [''worker_record_timeout'', ''worker_request_timeout''];
                  reason = (if timed_out then ''processing_timeout'' else ''internal_error'')
              in fail_request env reason sess rec own started (\<not> timed_out))
         | Worker_other \<Rightarrow>
             raise_ambiguous env ''inference_outcome_ambiguous'' sess rec ''internal_error''))"
  have poison: "settles i (bindO set_fatal (\<lambda>_. raiseO code))" for i code
    by (rule settlesI) (auto simp: bindO_eq)
  have "settles (rc_request_id own) (work started)" for started
    unfolding work_def
    by (intro settles_bind)
      (auto intro!: settles_try fail_request_settles [OF u] persist_and_answer_settles [OF assms(1)] poison
        inference_rejected_settles [OF assms(1)] ambiguous_settles simp: Let_def split: worker_outcome.split)
  moreover have "bindO (monotonic_now env) work w = (w', out)"
    using assms(2) by (simp only: infer_and_answer_def work_def)
  ultimately show ?thesis
    using assms(3,4) monotonic_failure [of env w]
    by (fastforce simp: bindO_eq settles_def split: prod.splits sum.splits)
qed

lemma process_claimed_ends:
  assumes "valid_admission_record rec" "process_claimed env sess rec own w = (w', out)" "\<not> ow_fatal w'"
    "out \<noteq> Inl ''monotonic_clock_invalid''"
  shows "\<exists>r b. out = Inr r \<and> or_response_bytes r = Some b \<and> settled (rc_request_id own) b w'"
  using assms(2) unfolding process_claimed_def
proof (cases rule: unless_failed_cases)
  case (failed x)
  then show ?thesis using audit_failure_poisons assms(3) by blast
next
  case (passed w1)
  then show ?thesis using infer_and_answer_ends [OF assms(1) _ assms(3,4)] by blast
qed

section \<open>Properties\<close>

text \<open>C9: The service stays consistent under every sequence of connections and recoveries, whatever the
  clocks, the worker, the socket and the database engines do.  Between connections the execution slot
  is free and every granted lease was released; journal, audit and alerts satisfy the invariants of
  their components; and whatever follows keeps the evidence and final state of every journal row, only
  appends to the audit, adds to the alerts only candidates of attack results, and never revives a
  poisoned service.\<close>

theorem service_consistent:
  assumes "\<forall>n. is_b64url_32 (oe_token env n)" "is_uuid4 i"
    and "w = foldl (service_step env) (new_world i) cs" "w' = foldl (service_step env) w cs'"
  shows "ga_global_active (ow_gates w) = 0 \<and> ga_active_token (ow_gates w) = None \<and>
    ga_accepted (ow_gates w) = ga_released (ow_gates w) \<and>
    journal_inv (oe_fparse env) (ow_journal w) \<and> audit_inv (oe_audit_capacity env) (ow_audit w) \<and>
    alert_inv (ow_alerts w) \<and>
    journal_extends (ow_journal w) (ow_journal w') \<and> prefix (ow_audit w) (ow_audit w') \<and>
    (ow_fatal w \<longrightarrow> ow_fatal w') \<and>
    (\<exists>new. ow_alerts w' = ow_alerts w @ map alert_values new \<and>
       (\<forall>c \<in> set new. \<exists>reg t. is_attack reg \<and> build_alert_candidate reg t = Inr c))"
proof -
  have inv: "service_inv env w" using assms(1-3) service.inv_from_start [of env "new_world i" cs] by blast
  then have "ga_global_active (ow_gates w) = 0" "gate_inv (ow_gates w)"
    by (simp_all add: service_inv_def slot_free_def)
  moreover from this have "ga_active_token (ow_gates w) = None" "ga_accepted (ow_gates w) = ga_released (ow_gates w)"
    by (auto simp: gate_inv_def split: if_splits)
  moreover have "service_extends w w'" unfolding assms(4) by (rule service.extends_run [OF inv])
  ultimately show ?thesis
    using inv by (simp add: service_inv_def stores_ok_def service_extends_def attack_candidate_def)
qed

text \<open>A service with one registered producer, and a session that sends it a valid body.\<close>

definition sample_orc_env :: orc_env where
  "sample_orc_env = \<lparr>oe_registry = [sample_cert], oe_generation = sample_generation, oe_audit_capacity = 10,
     oe_fparse = (\<lambda>_. Fin (3 / 4)), oe_frepr = (\<lambda>_. ''0.75''), oe_now = (\<lambda>_. Some sample_now),
     oe_monotonic = (\<lambda>_. Some (Fin 5)), oe_gate_clock = (\<lambda>_. Some 0),
     oe_uuid = (\<lambda>n. if n = 2 then sample_correlation else
       ''44444444-4444-4444-8444-44444444'' @ padn 4 n),
     oe_token = (\<lambda>_. sample_owner_token), oe_audit_fault = (\<lambda>_. No_fault), oe_journal_fault = (\<lambda>_. No_fault),
     oe_alert_fault = (\<lambda>_. AF No_fault), oe_write_ok = (\<lambda>_. True),
     oe_worker = (\<lambda>_ refs. Worker_results (map (\<lambda>_. sample_registered) refs))\<rparr>"

definition sample_session :: session where
  "sample_session = \<lparr>se_producer = \<lparr>ap_producer_id = REGISTERED_UNSW_PRODUCER_ID,
      ap_credential_id = replicate 64 CHR ''a'', ap_contracts = [REGISTERED_UNSW_SOURCE_CONTRACT]\<rparr>,
     se_peer = sample_peer, se_head = Inr \<lparr>rh_content_type = JSON_CONTENT_TYPE, rh_content_length = 397\<rparr>,
     se_body = Inr sample_body\<rparr>"

theorem service_consistent_witness:
  "ga_global_active (ow_gates (foldl (service_step sample_orc_env) (new_world sample_correlation)
     [Connection (Inr sample_session), Recovery sample_generation])) = 0"
proof -
  have "\<forall>n. is_b64url_32 (oe_token sample_orc_env n)"
    using sample_journal_shapes(2) by (simp add: sample_orc_env_def)
  moreover have "is_uuid4 sample_correlation" by code_simp
  ultimately show ?thesis
    using service_consistent [of sample_orc_env sample_correlation _ _ _ "[]", OF _ _ refl refl] by blast
qed

text \<open>C7: Alerts are stored only for a request that this very connection admitted, claimed and audited.
  If a connection changes the alert store, then its body was admitted as a valid record, the journal did
  not know its request identifier before and knows it afterwards as its only new entry, and the audit
  holds the \<^verbatim>\<open>request_admitted\<close> event with the digests of the request and the body.\<close>

theorem alerts_need_claim_and_audit:
  "case process_session env sess w of (w', out) \<Rightarrow>
     ow_alerts w' = ow_alerts w \<or>
     (\<exists>rec. session_request env sess rec \<and> valid_admission_record rec \<and>
        ar_request_id rec \<notin> set (map jr_request_id (ow_journal w)) \<and>
        map jr_request_id (ow_journal w') = map jr_request_id (ow_journal w) @ [ar_request_id rec] \<and>
        (\<exists>e \<in> set (ow_audit w'). sa_event_type e = ''request_admitted'' \<and>
           sa_request_id_sha256 e = Some (sha256_hex (ar_request_id rec)) \<and>
           sa_body_sha256 e = Some (ar_body_sha256 rec)))"
proof (cases "process_session env sess w")
  case (Pair w' out)
  from Pair show ?thesis
  proof (cases rule: process_session_cases)
    case answered
    then show ?thesis by (simp add: Pair)
  next
    case (admitted rec w1)
    from admitted(4) show ?thesis
    proof (cases rule: process_admitted_cases)
      case answered
      then show ?thesis using admitted(2) by (simp add: Pair)
    next
      case (leased w2 w3 out3)
      from leased(3) show ?thesis
      proof (cases rule: process_leased_cases)
        case unclaimed
        then show ?thesis using leased admitted(2) by (simp add: Pair)
      next
        case (claimed w4 c)
        have "ow_alerts w3 = ow_alerts w4 \<or> admitted_logged rec (ow_audit w3)"
          by (rule process_claimed_alerts [OF claimed(6)])
        moreover have "journal_ids w3 = journal_ids w4"
          by (rule staysD [OF same_ids.process_claimed claimed(6)])
        ultimately have "ow_alerts w' = ow_alerts w \<or> (session_request env sess rec \<and> valid_admission_record rec \<and>
            ar_request_id rec \<notin> set (journal_ids w) \<and> journal_ids w' = journal_ids w @ [ar_request_id rec] \<and>
            admitted_logged rec (ow_audit w'))"
          using claimed leased admitted by simp
        then show ?thesis by (auto simp: Pair admitted_logged_def)
      qed
    qed
  qed
qed

text \<open>C4: A claim is never left behind silently.  A connection that enters a request into the journal ends in
  one of three ways: the service is poisoned; the connection fails with \<^verbatim>\<open>monotonic_clock_invalid\<close>; or
  the journal holds the completed response of that request and it is exactly the response handed to the
  client, whatever the worker, the alert store and the engines did.\<close>

theorem claim_settled_or_poisoned:
  "case process_session env sess w of (w', out) \<Rightarrow>
     map jr_request_id (ow_journal w') = map jr_request_id (ow_journal w) \<or> ow_fatal w' \<or>
     out = Inl ''monotonic_clock_invalid'' \<or>
     (\<exists>row r. row \<in> set (ow_journal w') \<and>
        map jr_request_id (ow_journal w') = map jr_request_id (ow_journal w) @ [jr_request_id row] \<and>
        jr_state row = Completed \<and> out = Inr r \<and> or_response_bytes r \<noteq> None \<and>
        or_response_bytes r = jr_response_bytes row)"
proof (cases "process_session env sess w")
  case (Pair w' out)
  from Pair show ?thesis
  proof (cases rule: process_session_cases)
    case answered
    then show ?thesis by (simp add: Pair)
  next
    case (admitted rec w1)
    from admitted(4) show ?thesis
    proof (cases rule: process_admitted_cases)
      case answered
      then show ?thesis using admitted(3) by (simp add: Pair)
    next
      case (leased w2 w3 out3)
      from leased(3) show ?thesis
      proof (cases rule: process_leased_cases)
        case unclaimed
        then show ?thesis using leased admitted(3) by (simp add: Pair)
      next
        case (claimed w4 c)
        have ids: "journal_ids w' = journal_ids w @ [ar_request_id rec]"
          using staysD [OF same_ids.process_claimed claimed(6)] claimed(2) leased admitted(3) by simp
        have "ow_fatal w' \<or> out = Inl ''monotonic_clock_invalid'' \<or>
            (\<exists>r b. out = Inr r \<and> or_response_bytes r = Some b \<and> settled (ar_request_id rec) b w')"
          using process_claimed_ends [OF claimed(4) claimed(6)] claimed(5) leased(5,7,8)
          by (auto simp: settled_def)
        then show ?thesis using ids by (fastforce simp: Pair settled_def)
      qed
    qed
  qed
qed

text \<open>
  The exception is real: when the clock reading that starts the processing fails, the claim stays in
  progress and the service is not poisoned, so the request can neither be repeated nor recovered while
  this generation runs.
\<close>

theorem stranded_claim:
  assumes "append_audit env ''request_admitted'' (Some sess) (Some rec) None w = (w1, Inr u)"
    and "oe_monotonic env (ow_tick w1) = None"
  shows "process_claimed env sess rec own w =
      (w1\<lparr>ow_tick := Suc (ow_tick w1)\<rparr>, Inl ''monotonic_clock_invalid'')"
    and "ow_journal w1 = ow_journal w" "ow_fatal w1 = ow_fatal w"
proof -
  show "process_claimed env sess rec own w =
      (w1\<lparr>ow_tick := Suc (ow_tick w1)\<rparr>, Inl ''monotonic_clock_invalid'')"
    using assms by (simp add: process_claimed_def unless_failed_def audit_or_unavailable_def tryO_eq bindO_eq
        infer_and_answer_def monotonic_now_def)
  show "ow_journal w1 = ow_journal w" by (rule staysD [OF same_journal.append_audit assms(1)])
  show "ow_fatal w1 = ow_fatal w"
    using assms(1)
    by (auto simp: append_audit_def bindO_eq on_audit_def Let_def split: option.splits sum.splits prod.splits)
qed

end
