(* ===== verification/AnalystState.thy ===== *)
theory AnalystState
  imports AlertStore
begin

text \<open>
  The analyst workflow of one alert (\<^verbatim>\<open>schemas/analyst_state.py\<close>,
  \<^verbatim>\<open>db/analyst_state_repository.py\<close>): process-local capabilities issued for registered
  analysts, the state of an alert with its version, the append-only history of transitions, and
  the repository that reads both under one transaction and records a transition exactly once.
\<close>

section \<open>Identifiers and texts\<close>

definition MAX_ANALYST_RATIONALE_BYTES :: nat where "MAX_ANALYST_RATIONALE_BYTES = 512"

definition valid_actor_id :: "string \<Rightarrow> bool" where
  "valid_actor_id s \<longleftrightarrow> id_pattern (\<lambda>c. is_lower_alnum c \<or> c \<in> set ''._-'') 62 s \<and> length s \<le> 64"

text \<open>\<^verbatim>\<open>str.isprintable\<close> on code points below 256: no control, no-break space or soft hyphen.\<close>

definition printable_char :: "char \<Rightarrow> bool" where
  "printable_char c \<longleftrightarrow> (let n = of_char c :: nat in 32 \<le> n \<and> n \<noteq> 127 \<and> \<not> (128 \<le> n \<and> n \<le> 160) \<and> n \<noteq> 173)"

definition valid_rationale :: "string \<Rightarrow> bool" where
  "valid_rationale s \<longleftrightarrow> s = py_strip s \<and> list_all printable_char s \<and> 0 < length (utf8 s) \<and>
     length (utf8 s) \<le> MAX_ANALYST_RATIONALE_BYTES"

section \<open>Authorization\<close>

datatype analyst_error =
    AN_registry_entry_invalid | AN_registry_invalid | AN_not_authorized | AN_record_invalid
  | AN_alert_repository_failed | AN_list_limit_invalid | AN_list_offset_invalid
  | AN_alert_id_invalid | AN_version_invalid | AN_target_state_invalid | AN_transition_id_invalid
  | AN_rationale_invalid | AN_alert_not_found | AN_identity_conflict | AN_version_conflict
  | AN_transition_invalid | AN_transition_record_invalid | AN_clock_invalid | AN_unavailable | AN_busy | AN_write_failed | AN_read_failed

record analyst_entry =
  ae_actor_id :: string
  ae_role :: string
  ae_enabled :: bool

definition make_analyst_entry :: "string \<Rightarrow> string \<Rightarrow> bool \<Rightarrow> analyst_error + analyst_entry" where
  "make_analyst_entry actor_id role enabled =
     (if valid_actor_id actor_id \<and> role \<in> set [''viewer'', ''analyst'']
      then Inr \<lparr>ae_actor_id = actor_id, ae_role = role, ae_enabled = enabled\<rparr>
      else Inl AN_registry_entry_invalid)"

record analyst_capability =
  cp_actor_id :: string
  cp_role :: string
  cp_registry_id :: string
  cp_token :: string

text \<open>The registry; its identifier and its secret are what \<^verbatim>\<open>uuid4\<close> and \<^verbatim>\<open>token_bytes\<close> returned.\<close>

record analyst_registry =
  rg_entries :: "analyst_entry list"
  rg_registry_id :: string
  rg_secret :: string

definition make_analyst_registry ::
  "analyst_entry list \<Rightarrow> string \<Rightarrow> string \<Rightarrow> analyst_error + analyst_registry" where
  "make_analyst_registry entries registry_id secret =
     (if entries = [] \<or> \<not> distinct (map ae_actor_id entries) then Inl AN_registry_invalid
      else Inr \<lparr>rg_entries = entries, rg_registry_id = registry_id, rg_secret = secret\<rparr>)"

definition entry_of :: "analyst_registry \<Rightarrow> string \<Rightarrow> analyst_entry option" where
  "entry_of rg actor_id = List.find (\<lambda>e. ae_actor_id e = actor_id) (rg_entries rg)"

definition capability_message :: "string \<Rightarrow> string \<Rightarrow> string \<Rightarrow> string" where
  "capability_message registry_id actor_id role =
     utf8 (registry_id @ [CHR 0x00] @ actor_id @ [CHR 0x00] @ role)"

definition signature :: "analyst_registry \<Rightarrow> string \<Rightarrow> string \<Rightarrow> string" where
  "signature rg actor_id role = hmac_sha256 (rg_secret rg) (capability_message (rg_registry_id rg) actor_id role)"

definition issue_for_trusted_actor :: "analyst_registry \<Rightarrow> string \<Rightarrow> analyst_error + analyst_capability" where
  "issue_for_trusted_actor rg actor_id =
     (if \<not> valid_actor_id actor_id then Inl AN_not_authorized
      else case entry_of rg actor_id of
        None \<Rightarrow> Inl AN_not_authorized
      | Some e \<Rightarrow> if \<not> ae_enabled e then Inl AN_not_authorized
          else Inr \<lparr>cp_actor_id = ae_actor_id e, cp_role = ae_role e, cp_registry_id = rg_registry_id rg,
                    cp_token = signature rg (ae_actor_id e) (ae_role e)\<rparr>)"

definition require_capability :: "analyst_registry \<Rightarrow> analyst_capability \<Rightarrow> bool \<Rightarrow> analyst_error + string" where
  "require_capability rg cap transition =
     (if \<not> valid_actor_id (cp_actor_id cap) \<or> cp_role cap \<notin> set [''viewer'', ''analyst'']
      then Inl AN_not_authorized
      else case entry_of rg (cp_actor_id cap) of
        None \<Rightarrow> Inl AN_not_authorized
      | Some e \<Rightarrow>
          if cp_registry_id cap \<noteq> rg_registry_id rg \<or> \<not> ae_enabled e \<or> ae_role e \<noteq> cp_role cap \<or>
             cp_token cap \<noteq> signature rg (cp_actor_id cap) (cp_role cap) \<or>
             (transition \<and> cp_role cap \<noteq> ''analyst'')
          then Inl AN_not_authorized else Inr (cp_actor_id cap))"

abbreviation require_read :: "analyst_registry \<Rightarrow> analyst_capability \<Rightarrow> analyst_error + string" where
  "require_read rg cap \<equiv> require_capability rg cap False"

abbreviation require_transition :: "analyst_registry \<Rightarrow> analyst_capability \<Rightarrow> analyst_error + string" where
  "require_transition rg cap \<equiv> require_capability rg cap True"

section \<open>States and transitions\<close>

record analyst_snapshot =
  as_alert_id :: string
  as_status :: string
  as_version :: int
  as_updated_at :: "datetime option"
  as_updated_by :: "string option"
  as_last_transition_id :: "string option"

definition valid_snapshot :: "analyst_snapshot \<Rightarrow> bool" where
  "valid_snapshot s \<longleftrightarrow> is_alert_id (as_alert_id s) \<and>
     as_status s \<in> set [''new'', ''in_review'', ''closed'', ''escalated''] \<and>
     (if as_status s = ''new''
      then as_version s = 0 \<and> as_updated_at s = None \<and> as_updated_by s = None \<and> as_last_transition_id s = None
      else as_version s = (if as_status s = ''in_review'' then 1 else 2) \<and>
        (case as_updated_at s of None \<Rightarrow> False | Some t \<Rightarrow> valid_datetime t) \<and>
        (case as_updated_by s of None \<Rightarrow> False | Some a \<Rightarrow> valid_actor_id a) \<and>
        (case as_last_transition_id s of None \<Rightarrow> False | Some i \<Rightarrow> is_uuid4 i))"

text \<open>A transition; the time is a \<^typ>\<open>datetime\<close> in an event and its text in a row.\<close>

record 't transition_fields =
  tr_schema_version :: string
  tr_transition_id :: string
  tr_alert_id :: string
  tr_sequence :: int
  tr_expected_version :: int
  tr_from_state :: string
  tr_to_state :: string
  tr_actor_id :: string
  tr_rationale :: string
  tr_transitioned_at :: 't

type_synonym transition_event = "datetime transition_fields"
type_synonym transition_row = "string transition_fields"

abbreviation ANALYST_TRANSITION_SCHEMA :: string where
  "ANALYST_TRANSITION_SCHEMA \<equiv> ''analyst_transition_v1''"

definition TRANSITIONS :: "(string \<times> string) list" where
  "TRANSITIONS = [(''new'', ''in_review''), (''in_review'', ''closed''), (''in_review'', ''escalated'')]"

definition valid_transition :: "transition_event \<Rightarrow> bool" where
  "valid_transition e \<longleftrightarrow> tr_schema_version e = ANALYST_TRANSITION_SCHEMA \<and> is_uuid4 (tr_transition_id e) \<and>
     is_alert_id (tr_alert_id e) \<and> tr_sequence e = tr_expected_version e + 1 \<and>
     (tr_from_state e, tr_to_state e) \<in> set TRANSITIONS \<and>
     tr_expected_version e = (if tr_from_state e = ''new'' then 0 else 1) \<and>
     valid_actor_id (tr_actor_id e) \<and> valid_rationale (tr_rationale e) \<and> valid_datetime (tr_transitioned_at e)"

record state_row =
  st_alert_id :: string
  st_status :: string
  st_version :: int
  st_updated_at :: string
  st_updated_by :: string
  st_last_transition_id :: string

record analyst_db =
  an_states :: "state_row list"
  an_transitions :: "transition_row list"

definition implicit_new :: "string \<Rightarrow> analyst_snapshot" where
  "implicit_new a = \<lparr>as_alert_id = a, as_status = ''new'', as_version = 0, as_updated_at = None,
     as_updated_by = None, as_last_transition_id = None\<rparr>"

definition state_from_row :: "state_row option \<Rightarrow> string \<Rightarrow> analyst_error + analyst_snapshot" where
  "state_from_row row a = (case row of
     None \<Rightarrow> Inr (implicit_new a)
   | Some r \<Rightarrow> (case fromisoformat_utc (st_updated_at r) of
       None \<Rightarrow> Inl AN_record_invalid
     | Some t \<Rightarrow> (let s = \<lparr>as_alert_id = st_alert_id r, as_status = st_status r, as_version = st_version r,
           as_updated_at = Some t, as_updated_by = Some (st_updated_by r),
           as_last_transition_id = Some (st_last_transition_id r)\<rparr>
         in if valid_snapshot s then Inr s else Inl AN_record_invalid)))"

definition with_transition_time :: "'u \<Rightarrow> 't transition_fields \<Rightarrow> 'u transition_fields" where
  "with_transition_time t e = \<lparr>tr_schema_version = tr_schema_version e, tr_transition_id = tr_transition_id e,
     tr_alert_id = tr_alert_id e, tr_sequence = tr_sequence e, tr_expected_version = tr_expected_version e,
     tr_from_state = tr_from_state e, tr_to_state = tr_to_state e, tr_actor_id = tr_actor_id e,
     tr_rationale = tr_rationale e, tr_transitioned_at = t\<rparr>"

definition transition_values :: "transition_event \<Rightarrow> transition_row" where
  "transition_values e = with_transition_time (isoformat (tr_transitioned_at e)) e"

definition transition_from_row :: "transition_row \<Rightarrow> analyst_error + transition_event" where
  "transition_from_row r = (case fromisoformat_utc (tr_transitioned_at r) of
     None \<Rightarrow> Inl AN_record_invalid
   | Some t \<Rightarrow> (let e = with_transition_time t r in
       if valid_transition e then Inr e else Inl AN_record_invalid))"

definition validate_history ::
  "string \<Rightarrow> analyst_snapshot \<Rightarrow> transition_event list \<Rightarrow> analyst_error + unit" where
  "validate_history a state ts =
     (if int (length ts) \<noteq> as_version state \<or>
         \<not> list_all (\<lambda>i. tr_sequence (ts ! i) = int i + 1 \<and> tr_alert_id (ts ! i) = a \<and>
             (i = 0 \<or> tr_from_state (ts ! i) = tr_to_state (ts ! (i - 1)))) [0..<length ts]
      then Inl AN_record_invalid
      else if ts = [] then Inr ()
      else if Some (tr_transition_id (last ts)) \<noteq> as_last_transition_id state \<or>
              tr_to_state (last ts) \<noteq> as_status state \<or>
              Some (tr_actor_id (last ts)) \<noteq> as_updated_by state \<or>
              Some (tr_transitioned_at (last ts)) \<noteq> as_updated_at state
      then Inl AN_record_invalid else Inr ())"

section \<open>Tables\<close>

text \<open>The CHECK constraints, and INSERT and UPDATE under them, the keys and the foreign key.\<close>

definition state_row_check :: "state_row \<Rightarrow> bool" where
  "state_row_check r \<longleftrightarrow> (st_status r = ''in_review'' \<and> st_version r = 1) \<or>
     (st_status r \<in> set [''closed'', ''escalated''] \<and> st_version r = 2)"

definition transition_row_check :: "transition_row \<Rightarrow> bool" where
  "transition_row_check r \<longleftrightarrow>
     (tr_sequence r = 1 \<and> tr_expected_version r = 0 \<and> tr_from_state r = ''new'' \<and> tr_to_state r = ''in_review'') \<or>
     (tr_sequence r = 2 \<and> tr_expected_version r = 1 \<and> tr_from_state r = ''in_review'' \<and>
      tr_to_state r \<in> set [''closed'', ''escalated''])"

definition insert_state :: "analyst_db \<Rightarrow> state_row \<Rightarrow> analyst_error + analyst_db" where
  "insert_state db r =
     (if state_row_check r \<and> st_alert_id r \<notin> set (map st_alert_id (an_states db)) \<and>
         st_last_transition_id r \<notin> set (map st_last_transition_id (an_states db))
      then Inr (db\<lparr>an_states := an_states db @ [r]\<rparr>) else Inl AN_write_failed)"

definition update_state :: "analyst_db \<Rightarrow> state_row \<Rightarrow> int \<Rightarrow> analyst_error + analyst_db" where
  "update_state db r version =
     (let p = (\<lambda>x. st_alert_id x = st_alert_id r \<and> st_version x = version)
      in if rowcount p (an_states db) \<noteq> 1 then Inl AN_version_conflict
      else if state_row_check r \<and>
        st_last_transition_id r \<notin> set (map st_last_transition_id (filter (\<lambda>x. \<not> p x) (an_states db)))
      then Inr (db\<lparr>an_states := update_where p (\<lambda>_. r) (an_states db)\<rparr>) else Inl AN_write_failed)"

definition insert_transition :: "analyst_db \<Rightarrow> transition_row \<Rightarrow> analyst_error + analyst_db" where
  "insert_transition db r =
     (if transition_row_check r \<and> tr_transition_id r \<notin> set (map tr_transition_id (an_transitions db)) \<and>
         (tr_alert_id r, tr_sequence r) \<notin> set (map (\<lambda>x. (tr_alert_id x, tr_sequence x)) (an_transitions db)) \<and>
         tr_alert_id r \<in> set (map st_alert_id (an_states db))
      then Inr (db\<lparr>an_transitions := an_transitions db @ [r]\<rparr>) else Inl AN_write_failed)"

text \<open>The state and the history of an alert, read and cross-checked.\<close>

definition history_rows :: "analyst_db \<Rightarrow> string \<Rightarrow> transition_row list" where
  "history_rows db a = sort_key tr_sequence (select_where (\<lambda>r. tr_alert_id r = a) (an_transitions db))"

definition read_alert_state :: "analyst_db \<Rightarrow> string \<Rightarrow> analyst_error + analyst_snapshot \<times> transition_event list" where
  "read_alert_state db a =
     bindE (state_from_row (fetchone (\<lambda>r. st_alert_id r = a) (an_states db)) a) (\<lambda>state.
     bindE (mapE transition_from_row (history_rows db a)) (\<lambda>ts.
     bindE (validate_history a state ts) (\<lambda>_. Inr (state, ts))))"

section \<open>The repository\<close>

definition get_candidate ::
  "alert_fault \<Rightarrow> alert_row list \<Rightarrow> string \<Rightarrow> analyst_error + alert_candidate option" where
  "get_candidate fault alerts a = mapErr (\<lambda>_. AN_alert_repository_failed) (AlertStore.get_alert fault alerts a)"

text \<open>A read under \<^verbatim>\<open>BEGIN\<close>: engine faults give \<^verbatim>\<open>database_read_failed\<close>, a failed connect its own code.\<close>

definition reading :: "sqlite_fault \<Rightarrow> analyst_error + 'a \<Rightarrow> analyst_error + 'a" where
  "reading fault body = (case fault of Fault_connect \<Rightarrow> Inl AN_unavailable | No_fault \<Rightarrow> body
     | Fault_begin _ \<Rightarrow> Inl AN_read_failed | Fault_write _ \<Rightarrow> Inl AN_read_failed)"

definition get_alert_detail ::
  "analyst_registry \<Rightarrow> alert_fault \<Rightarrow> sqlite_fault \<Rightarrow> alert_row list \<Rightarrow> analyst_db \<Rightarrow> analyst_capability \<Rightarrow> string \<Rightarrow>
     analyst_error + (alert_candidate \<times> analyst_snapshot \<times> transition_event list) option" where
  "get_alert_detail rg afault fault alerts db cap a =
     bindE (require_read rg cap) (\<lambda>_.
     bindE (requireE (is_alert_id a) AN_alert_id_invalid) (\<lambda>_.
     bindE (get_candidate afault alerts a) (\<lambda>found. case found of
       None \<Rightarrow> Inr None
     | Some c \<Rightarrow> reading fault (bindE (read_alert_state db a) (\<lambda>(state, ts). Inr (Some (c, state, ts)))))))"

text \<open>
  \<^verbatim>\<open>list_alerts\<close> reads the states and the transitions of the whole page with two statements and
  checks each alert against its own; every inconsistency has the same code.
\<close>

definition list_alert_states ::
  "analyst_registry \<Rightarrow> alert_fault \<Rightarrow> sqlite_fault \<Rightarrow> alert_row list \<Rightarrow> analyst_db \<Rightarrow> analyst_capability \<Rightarrow> int \<Rightarrow> int \<Rightarrow>
     analyst_error + (alert_candidate \<times> analyst_snapshot) list" where
  "list_alert_states rg afault fault alerts db cap limit offset =
     bindE (require_read rg cap) (\<lambda>_.
     bindE (requireE (1 \<le> limit \<and> limit \<le> MAX_ALERT_LIST_LIMIT) AN_list_limit_invalid) (\<lambda>_.
     bindE (requireE (0 \<le> offset \<and> offset \<le> MAX_ALERT_LIST_OFFSET) AN_list_offset_invalid) (\<lambda>_.
     bindE (mapErr (\<lambda>_. AN_alert_repository_failed) (AlertStore.list_alerts afault alerts limit offset)) (\<lambda>cs.
       if cs = [] then Inr []
       else reading fault (mapE (\<lambda>c. bindE (read_alert_state db (ac_alert_candidate_id c))
         (\<lambda>(state, _). Inr (c, state))) cs)))))"

datatype transition_disposition = Transition_created | Transition_existing

record transition_request =
  rq_alert_id :: string
  rq_expected_version :: int
  rq_to_state :: string
  rq_transition_id :: string
  rq_rationale :: string

definition allowed_targets :: "string \<Rightarrow> string list" where
  "allowed_targets s = (if s = ''new'' then [''in_review''] else if s = ''in_review'' then [''closed'', ''escalated''] else [])"

text \<open>The transaction; the clock is read only when a new transition is due.\<close>

definition transition_body ::
  "analyst_db \<Rightarrow> datetime option \<Rightarrow> string \<Rightarrow> transition_request \<Rightarrow>
     analyst_error + analyst_db \<times> transition_disposition \<times> analyst_snapshot \<times> transition_event" where
  "transition_body db clock actor_id rq =
     bindE (read_alert_state db (rq_alert_id rq)) (\<lambda>(current, _).
     case fetchone (\<lambda>r. tr_transition_id r = rq_transition_id rq) (an_transitions db) of
       Some replay_row \<Rightarrow> bindE (transition_from_row replay_row) (\<lambda>event.
         if tr_alert_id event \<noteq> rq_alert_id rq \<or> tr_expected_version event \<noteq> rq_expected_version rq \<or>
            tr_to_state event \<noteq> rq_to_state rq \<or> tr_actor_id event \<noteq> actor_id \<or>
            tr_rationale event \<noteq> rq_rationale rq
         then Inl AN_identity_conflict
         else Inr (db, Transition_existing, current, event))
     | None \<Rightarrow>
         if as_version current \<noteq> rq_expected_version rq then Inl AN_version_conflict
         else if rq_to_state rq \<notin> set (allowed_targets (as_status current)) then Inl AN_transition_invalid
         else (case clock of None \<Rightarrow> Inl AN_clock_invalid
           | Some now \<Rightarrow> if \<not> valid_datetime now then Inl AN_clock_invalid else
             (let event = \<lparr>tr_schema_version = ANALYST_TRANSITION_SCHEMA,
                    tr_transition_id = rq_transition_id rq, tr_alert_id = rq_alert_id rq,
                    tr_sequence = as_version current + 1, tr_expected_version = rq_expected_version rq,
                    tr_from_state = as_status current, tr_to_state = rq_to_state rq, tr_actor_id = actor_id,
                    tr_rationale = rq_rationale rq, tr_transitioned_at = now\<rparr>;
                  row = \<lparr>st_alert_id = rq_alert_id rq, st_status = rq_to_state rq,
                    st_version = as_version current + 1, st_updated_at = isoformat now,
                    st_updated_by = actor_id, st_last_transition_id = rq_transition_id rq\<rparr>
              in if \<not> valid_transition event then Inl AN_transition_record_invalid
              else bindE (if as_status current = ''new'' then insert_state db row
                          else update_state db row (rq_expected_version rq)) (\<lambda>db1.
                bindE (insert_transition db1 (transition_values event)) (\<lambda>db2.
                  Inr (db2, Transition_created,
                    \<lparr>as_alert_id = rq_alert_id rq, as_status = rq_to_state rq, as_version = as_version current + 1,
                     as_updated_at = Some now, as_updated_by = Some actor_id,
                     as_last_transition_id = Some (rq_transition_id rq)\<rparr>, event))))))"

definition analyst_write_error :: "sqlite_error \<Rightarrow> analyst_error" where
  "analyst_write_error e = (case e of Sqlite_busy \<Rightarrow> AN_busy | Sqlite_other \<Rightarrow> AN_write_failed)"

text \<open>What \<^verbatim>\<open>transition\<close> checks before it connects.\<close>

definition admit_transition ::
  "analyst_registry \<Rightarrow> alert_fault \<Rightarrow> alert_row list \<Rightarrow> analyst_capability \<Rightarrow> transition_request \<Rightarrow> analyst_error + string" where
  "admit_transition rg afault alerts cap rq =
     bindE (require_transition rg cap) (\<lambda>actor_id.
     bindE (requireE (is_alert_id (rq_alert_id rq)) AN_alert_id_invalid) (\<lambda>_.
     bindE (requireE (0 \<le> rq_expected_version rq \<and> rq_expected_version rq \<le> 2) AN_version_invalid) (\<lambda>_.
     bindE (requireE (rq_to_state rq \<in> set [''in_review'', ''closed'', ''escalated'']) AN_target_state_invalid) (\<lambda>_.
     bindE (requireE (is_uuid4 (rq_transition_id rq)) AN_transition_id_invalid) (\<lambda>_.
     bindE (requireE (valid_rationale (rq_rationale rq)) AN_rationale_invalid) (\<lambda>_.
     bindE (get_candidate afault alerts (rq_alert_id rq)) (\<lambda>found.
     bindE (someE found AN_alert_not_found) (\<lambda>_. Inr actor_id))))))))"

definition transition ::
  "analyst_registry \<Rightarrow> alert_fault \<Rightarrow> sqlite_fault \<Rightarrow> datetime option \<Rightarrow> alert_row list \<Rightarrow> analyst_db \<Rightarrow>
     analyst_capability \<Rightarrow> transition_request \<Rightarrow>
     analyst_db \<times> (analyst_error + transition_disposition \<times> analyst_snapshot \<times> transition_event)" where
  "transition rg afault fault clock alerts db cap rq =
     (case admit_transition rg afault alerts cap rq of
        Inl e \<Rightarrow> (db, Inl e)
      | Inr actor_id \<Rightarrow> (case fault of
          Fault_connect \<Rightarrow> (db, Inl AN_unavailable)
        | Fault_begin e \<Rightarrow> (db, Inl (analyst_write_error e))
        | _ \<Rightarrow> (case transition_body db clock actor_id rq of
            Inl e \<Rightarrow> (db, Inl e)
          | Inr (db', res) \<Rightarrow> (case fault of Fault_write e \<Rightarrow> (db, Inl (analyst_write_error e)) | _ \<Rightarrow> (db', Inr res)))))"

end
