(* ===== verification/AnalystState_Facts.thy ===== *)
theory AnalystState_Facts
  imports AnalystState AlertStore_Facts
begin

text \<open>
  The two tables of the analyst repository are a log of transitions: the state of an alert is what
  its recorded transitions make of it, reading never finds an inconsistency, and a request changes
  the log only when an enabled registered analyst asks for an allowed next step.
\<close>

section \<open>The log\<close>

definition history :: "transition_event list \<Rightarrow> string \<Rightarrow> transition_event list" where
  "history es a = filter (\<lambda>e. tr_alert_id e = a) es"

definition state_row_of :: "transition_event \<Rightarrow> state_row" where
  "state_row_of e = \<lparr>st_alert_id = tr_alert_id e, st_status = tr_to_state e, st_version = tr_sequence e,
     st_updated_at = isoformat (tr_transitioned_at e), st_updated_by = tr_actor_id e,
     st_last_transition_id = tr_transition_id e\<rparr>"

definition snapshot_of :: "string \<Rightarrow> transition_event list \<Rightarrow> analyst_snapshot" where
  "snapshot_of a h = (if h = [] then implicit_new a
     else let e = last h in \<lparr>as_alert_id = tr_alert_id e, as_status = tr_to_state e, as_version = tr_sequence e,
       as_updated_at = Some (tr_transitioned_at e), as_updated_by = Some (tr_actor_id e),
       as_last_transition_id = Some (tr_transition_id e)\<rparr>)"

text \<open>The tables represent a log: the transitions are its events, each state row is the last event of its alert.\<close>

definition represents :: "analyst_db \<Rightarrow> transition_event list \<Rightarrow> bool" where
  "represents db es \<longleftrightarrow> an_transitions db = map transition_values es \<and>
     (\<forall>e \<in> set es. valid_transition e) \<and> distinct (map tr_transition_id es) \<and>
     (\<forall>a. map tr_sequence (history es a) = [1..int (length (history es a))]) \<and>
     distinct (map st_alert_id (an_states db)) \<and>
     (\<forall>a. fetchone (\<lambda>r. st_alert_id r = a) (an_states db) =
        (if history es a = [] then None else Some (state_row_of (last (history es a)))))"

text \<open>The abstract operation on the log.\<close>

definition record_transition ::
  "transition_event list \<Rightarrow> datetime option \<Rightarrow> string \<Rightarrow> transition_request \<Rightarrow>
     analyst_error + transition_event list \<times> transition_disposition \<times> transition_event" where
  "record_transition es clock actor_id rq =
     (case List.find (\<lambda>e. tr_transition_id e = rq_transition_id rq) es of
        Some e \<Rightarrow>
          if tr_alert_id e = rq_alert_id rq \<and> tr_expected_version e = rq_expected_version rq \<and>
             tr_to_state e = rq_to_state rq \<and> tr_actor_id e = actor_id \<and> tr_rationale e = rq_rationale rq
          then Inr (es, Transition_existing, e) else Inl AN_identity_conflict
      | None \<Rightarrow> (let s = snapshot_of (rq_alert_id rq) (history es (rq_alert_id rq)) in
          if as_version s \<noteq> rq_expected_version rq then Inl AN_version_conflict
          else if rq_to_state rq \<notin> set (allowed_targets (as_status s)) then Inl AN_transition_invalid
          else case clock of None \<Rightarrow> Inl AN_clock_invalid
            | Some now \<Rightarrow> if \<not> valid_datetime now then Inl AN_clock_invalid else
                (let e = \<lparr>tr_schema_version = ANALYST_TRANSITION_SCHEMA, tr_transition_id = rq_transition_id rq,
                   tr_alert_id = rq_alert_id rq, tr_sequence = as_version s + 1,
                   tr_expected_version = rq_expected_version rq, tr_from_state = as_status s,
                   tr_to_state = rq_to_state rq, tr_actor_id = actor_id, tr_rationale = rq_rationale rq,
                   tr_transitioned_at = now\<rparr>
                 in Inr (es @ [e], Transition_created, e))))"

section \<open>Rows and events\<close>

lemma transition_values_simps [simp]:
  "tr_transition_id (transition_values e) = tr_transition_id e"
  "tr_alert_id (transition_values e) = tr_alert_id e"
  "tr_sequence (transition_values e) = tr_sequence e"
  "tr_from_state (transition_values e) = tr_from_state e"
  "tr_to_state (transition_values e) = tr_to_state e"
  "tr_expected_version (transition_values e) = tr_expected_version e"
  by (simp_all add: transition_values_def with_transition_time_def)

lemma with_own_time [simp]: "with_transition_time (tr_transitioned_at e) (with_transition_time t e) = e"
  by (cases e) (simp add: with_transition_time_def)

lemma with_transition_time_at [simp]: "tr_transitioned_at (with_transition_time t e) = t"
  by (simp add: with_transition_time_def)

lemma transition_from_values [simp]:
  assumes "valid_transition e"
  shows "transition_from_row (transition_values e) = Inr e"
proof -
  have "fromisoformat_utc (isoformat (tr_transitioned_at e)) = Some (tr_transitioned_at e)"
    using assms by (simp add: valid_transition_def fromisoformat_isoformat)
  then show ?thesis
    using assms by (simp add: transition_from_row_def transition_values_def)
qed

lemma valid_transition_cases:
  assumes "valid_transition e"
  obtains "tr_sequence e = 1" "tr_expected_version e = 0" "tr_from_state e = ''new''" "tr_to_state e = ''in_review''"
  | "tr_sequence e = 2" "tr_expected_version e = 1" "tr_from_state e = ''in_review''"
    "tr_to_state e \<in> set [''closed'', ''escalated'']"
  using assms by (auto simp: valid_transition_def TRANSITIONS_def)

lemma transition_values_check: "valid_transition e \<Longrightarrow> transition_row_check (transition_values e)"
  by (erule valid_transition_cases) (auto simp: transition_row_check_def)

lemma state_row_of_check: "valid_transition e \<Longrightarrow> state_row_check (state_row_of e)"
  by (erule valid_transition_cases) (auto simp: state_row_check_def state_row_of_def)

lemma state_from_row_of:
  assumes "valid_transition e"
  shows "state_from_row (Some (state_row_of e)) a = Inr (snapshot_of (tr_alert_id e) [e])"
proof -
  have t: "fromisoformat_utc (isoformat (tr_transitioned_at e)) = Some (tr_transitioned_at e)"
    using assms by (simp add: valid_transition_def fromisoformat_isoformat)
  have "valid_snapshot (snapshot_of (tr_alert_id e) [e])"
    using assms
    by (cases rule: valid_transition_cases [OF assms])
      (auto simp: valid_snapshot_def snapshot_of_def Let_def valid_transition_def)
  then show ?thesis
    by (simp add: state_from_row_def state_row_of_def t snapshot_of_def Let_def)
qed

section \<open>Reading a represented log\<close>

lemma history_mem: "e \<in> set (history es a) \<longleftrightarrow> e \<in> set es \<and> tr_alert_id e = a"
  by (auto simp: history_def)

lemma representsD:
  assumes "represents db es"
  shows "an_transitions db = map transition_values es" "\<And>e. e \<in> set es \<Longrightarrow> valid_transition e"
    "distinct (map tr_transition_id es)" "map tr_sequence (history es a) = [1..int (length (history es a))]"
    "distinct (map st_alert_id (an_states db))"
    "fetchone (\<lambda>r. st_alert_id r = a) (an_states db) =
       (if history es a = [] then None else Some (state_row_of (last (history es a))))"
  using assms by (simp_all add: represents_def)

lemma history_rows_represented:
  assumes "represents db es"
  shows "history_rows db a = map transition_values (history es a)"
proof -
  have sel: "select_where (\<lambda>r. tr_alert_id r = a) (an_transitions db) = map transition_values (history es a)"
    by (simp add: representsD(1) [OF assms] select_where_def history_def filter_map comp_def)
  have "map tr_sequence (map transition_values (history es a)) = [1..int (length (history es a))]"
    using representsD(4) [OF assms, of a] by (simp add: comp_def)
  then have "sorted (map tr_sequence (map transition_values (history es a)))" by (simp only: sorted_upto)
  then show ?thesis unfolding history_rows_def sel by (rule sort_key_id_if_sorted)
qed

lemma history_nth:
  assumes "represents db es" "i < length (history es a)"
  shows "tr_sequence (history es a ! i) = int i + 1" "tr_alert_id (history es a ! i) = a"
    "valid_transition (history es a ! i)"
proof -
  have "map tr_sequence (history es a) ! i = [1..int (length (history es a))] ! i"
    using representsD(4) [OF assms(1), of a] by simp
  then show "tr_sequence (history es a ! i) = int i + 1" using assms(2) by (simp add: nth_upto)
  have "history es a ! i \<in> set (history es a)" using assms(2) by simp
  then show "tr_alert_id (history es a ! i) = a" "valid_transition (history es a ! i)"
    using representsD(2) [OF assms(1)] by (auto simp: history_mem)
qed

lemma history_short:
  assumes "represents db es"
  shows "length (history es a) \<le> 2"
proof (rule ccontr)
  assume "\<not> length (history es a) \<le> 2"
  then have i: "2 < length (history es a)" by simp
  show False
    using history_nth(1) [OF assms i] by (cases rule: valid_transition_cases [OF history_nth(3) [OF assms i]]) simp_all
qed

lemma history_linked:
  assumes "represents db es" "0 < i" "i < length (history es a)"
  shows "tr_from_state (history es a ! i) = tr_to_state (history es a ! (i - 1))"
proof -
  have i: "i = 1" using history_short [OF assms(1), of a] assms(2,3) by simp
  have 0: "0 < length (history es a)" using assms(3) by linarith
  show ?thesis
    using i history_nth(1) [OF assms(1,3)] history_nth(1) [OF assms(1) 0]
    by (cases rule: valid_transition_cases [OF history_nth(3) [OF assms(1,3)]];
        cases rule: valid_transition_cases [OF history_nth(3) [OF assms(1) 0]]) simp_all
qed

lemma last_history:
  assumes "represents db es" "history es a \<noteq> []"
  shows "tr_alert_id (last (history es a)) = a" "valid_transition (last (history es a))"
    "tr_sequence (last (history es a)) = int (length (history es a))" "last (history es a) \<in> set es"
proof -
  have l: "length (history es a) - 1 < length (history es a)" using assms(2) by simp
  have e: "last (history es a) = history es a ! (length (history es a) - 1)" using assms(2) by (rule last_conv_nth)
  show "tr_alert_id (last (history es a)) = a" "valid_transition (last (history es a))"
    "tr_sequence (last (history es a)) = int (length (history es a))"
    using history_nth [OF assms(1) l] assms(2) unfolding e by (simp_all add: Suc_leI of_nat_diff)
  show "last (history es a) \<in> set es" using assms(2) last_in_set history_mem by blast
qed

lemma read_represented:
  assumes "represents db es"
  shows "read_alert_state db a = Inr (snapshot_of a (history es a), history es a)"
proof -
  let ?h = "history es a"
  have s: "state_from_row (fetchone (\<lambda>r. st_alert_id r = a) (an_states db)) a = Inr (snapshot_of a ?h)"
  proof (cases "?h = []")
    case True
    then show ?thesis by (simp add: representsD(6) [OF assms] state_from_row_def snapshot_of_def)
  next
    case False
    then show ?thesis
      using state_from_row_of [OF last_history(2) [OF assms False], of a]
      by (simp add: representsD(6) [OF assms] snapshot_of_def)
  qed
  have ts: "mapE transition_from_row (history_rows db a) = Inr ?h"
  proof -
    have "mapE (\<lambda>r. transition_from_row r) (map transition_values h) = Inr h"
      if "\<forall>e \<in> set h. valid_transition e" for h using that by (induction h) simp_all
    then show ?thesis
      using representsD(2) [OF assms] by (simp add: history_rows_represented [OF assms] history_mem)
  qed
  have linked: "i = 0 \<or> tr_from_state (?h ! i) = tr_to_state (?h ! (i - 1))" if "i < length ?h" for i
    using history_linked [OF assms _ that] by blast
  have "list_all (\<lambda>i. tr_sequence (?h ! i) = int i + 1 \<and> tr_alert_id (?h ! i) = a \<and>
      (i = 0 \<or> tr_from_state (?h ! i) = tr_to_state (?h ! (i - 1)))) [0..<length ?h]"
    unfolding list_all_iff using history_nth(1,2) [OF assms] linked by auto
  then have "validate_history a (snapshot_of a ?h) ?h = Inr ()"
    using last_history(3) [OF assms, of a]
    by (auto simp: validate_history_def snapshot_of_def implicit_new_def Let_def)
  then show ?thesis by (simp add: read_alert_state_def s ts)
qed

section \<open>Writing to a represented log\<close>

lemma distinct_filter_key:
  assumes "distinct (map key xs)" "x \<in> set xs"
  shows "filter (\<lambda>y. key y = key x) xs = [x]"
  using assms
proof (induction xs)
  case (Cons y ys)
  have ne: "key y \<noteq> key z" if "z \<in> set ys" for z
    using Cons.prems(1) that by (metis distinct.simps(2) imageI list.set_map list.simps(9))
  show ?case
  proof (cases "y = x")
    case True
    have "filter (\<lambda>z. key z = key x) ys = []" using ne True by (force simp: filter_empty_conv)
    then show ?thesis using True by simp
  next
    case False
    then have x: "x \<in> set ys" using Cons.prems(2) by simp
    then have "filter (\<lambda>z. key z = key x) ys = [x]" using Cons by simp
    then show ?thesis using ne [OF x] by simp
  qed
qed simp

text \<open>Replacing the row of one key by another row with that key.\<close>

lemma fetchone_update_replace:
  assumes "key r' = k"
  shows "fetchone (\<lambda>r. key r = a) (update_where (\<lambda>r. key r = k) (\<lambda>_. r') t) =
    (if a = k then map_option (\<lambda>_. r') (fetchone (\<lambda>r. key r = k) t) else fetchone (\<lambda>r. key r = a) t)"
  using assms by (induction t) (auto simp: fetchone_def update_where_def)

lemma state_row_represented:
  assumes "represents db es" "r \<in> set (an_states db)"
  shows "history es (st_alert_id r) \<noteq> []" "r = state_row_of (last (history es (st_alert_id r)))"
proof -
  have "fetchone (\<lambda>x. st_alert_id x = st_alert_id r) (an_states db) = Some r"
    by (rule fetchone_key_unique [OF representsD(5) [OF assms(1)] assms(2)])
  then have "(if history es (st_alert_id r) = [] then None
      else Some (state_row_of (last (history es (st_alert_id r))))) = Some r"
    using representsD(6) [OF assms(1), of "st_alert_id r"] by simp
  then show "history es (st_alert_id r) \<noteq> []" "r = state_row_of (last (history es (st_alert_id r)))"
    by (auto split: if_splits)
qed

lemma state_ids_represented:
  assumes "represents db es" "r \<in> set (an_states db)"
  shows "st_last_transition_id r \<in> set (map tr_transition_id es)"
  using state_row_represented [OF assms] last_history(4) [OF assms(1)]
  by (metis image_eqI list.set_map state_row.select_convs(6) state_row_of_def)

lemma history_snoc: "history (es @ [e]) a = (if tr_alert_id e = a then history es a @ [e] else history es a)"
  by (simp add: history_def)

lemma represents_snoc:
  assumes "represents db es" "valid_transition e" "tr_transition_id e \<notin> set (map tr_transition_id es)"
    "tr_sequence e = int (length (history es (tr_alert_id e))) + 1"
    "distinct (map st_alert_id states)"
    "\<And>a. fetchone (\<lambda>r. st_alert_id r = a) states =
       (if a = tr_alert_id e then Some (state_row_of e) else fetchone (\<lambda>r. st_alert_id r = a) (an_states db))"
  shows "represents \<lparr>an_states = states, an_transitions = an_transitions db @ [transition_values e]\<rparr> (es @ [e])"
proof -
  have "map tr_sequence (history (es @ [e]) a) = [1..int (length (history (es @ [e]) a))]" for a
  proof (cases "tr_alert_id e = a")
    case True
    have "[1..int (length (history es a)) + 1] = [1..int (length (history es a))] @ [int (length (history es a)) + 1]"
      by (rule upto_rec2 [of 1 "int (length (history es a)) + 1", simplified])
    then show ?thesis
      using True representsD(4) [OF assms(1), of a] assms(4) by (simp add: history_snoc add.commute)
  next
    case False
    then show ?thesis using representsD(4) [OF assms(1), of a] by (simp add: history_snoc)
  qed
  then show ?thesis
    using assms(2,3,5) representsD(1,2,3) [OF assms(1)]
    by (auto simp: represents_def assms(6) representsD(6) [OF assms(1)] history_snoc)
qed

lemma represents_new:
  assumes "represents db es" "valid_transition e" "tr_transition_id e \<notin> set (map tr_transition_id es)"
    "history es (tr_alert_id e) = []" "tr_sequence e = 1"
  shows "\<exists>db1 db2. insert_state db (state_row_of e) = Inr db1 \<and> insert_transition db1 (transition_values e) = Inr db2 \<and>
    represents db2 (es @ [e])"
proof -
  have none: "fetchone (\<lambda>r. st_alert_id r = tr_alert_id e) (an_states db) = None"
    using representsD(6) [OF assms(1), of "tr_alert_id e"] assms(4) by simp
  have fresh: "tr_alert_id e \<notin> set (map st_alert_id (an_states db))"
    using none by (auto simp: fetchone_None_iff)
  have id: "tr_transition_id e \<notin> set (map st_last_transition_id (an_states db))"
    using state_ids_represented [OF assms(1)] assms(3) by auto
  let ?db1 = "db\<lparr>an_states := an_states db @ [state_row_of e]\<rparr>"
  have 1: "insert_state db (state_row_of e) = Inr ?db1"
    using state_row_of_check [OF assms(2)] fresh id
    by (simp add: insert_state_def state_row_of_def)
  have pair: "(tr_alert_id e, tr_sequence e) \<notin> set (map (\<lambda>x. (tr_alert_id x, tr_sequence x)) (an_transitions db))"
    using assms(4) by (auto simp: representsD(1) [OF assms(1)] history_def filter_empty_conv)
  let ?db2 = "\<lparr>an_states = an_states db @ [state_row_of e], an_transitions = an_transitions db @ [transition_values e]\<rparr>"
  have tid: "tr_transition_id e \<notin> set (map tr_transition_id (an_transitions db))"
    using assms(3) by (simp add: representsD(1) [OF assms(1)] image_image)
  have 2: "insert_transition ?db1 (transition_values e) = Inr ?db2"
    using transition_values_check [OF assms(2)] tid pair by (simp add: insert_transition_def state_row_of_def)
  have "represents ?db2 (es @ [e])"
    by (rule represents_snoc [OF assms(1-3)])
      (use assms(4,5) fresh representsD(5) [OF assms(1)] none
        in \<open>auto simp: state_row_of_def fetchone_append split: option.split\<close>)
  then show ?thesis using 1 2 by blast
qed

lemma represents_next:
  assumes "represents db es" "valid_transition e" "tr_transition_id e \<notin> set (map tr_transition_id es)"
    "history es (tr_alert_id e) \<noteq> []" "tr_sequence e = int (length (history es (tr_alert_id e))) + 1"
    "version = int (length (history es (tr_alert_id e)))"
  shows "\<exists>db1 db2. update_state db (state_row_of e) version = Inr db1 \<and>
    insert_transition db1 (transition_values e) = Inr db2 \<and> represents db2 (es @ [e])"
proof -
  let ?a = "tr_alert_id e" and ?p = "\<lambda>x. st_alert_id x = tr_alert_id e \<and> st_version x = version"
  let ?old = "state_row_of (last (history es (tr_alert_id e)))"
  have old: "fetchone (\<lambda>r. st_alert_id r = ?a) (an_states db) = Some ?old"
    using representsD(6) [OF assms(1), of ?a] assms(4) by simp
  have mem: "?old \<in> set (an_states db)" "st_alert_id ?old = ?a" using fetchone_SomeD [OF old] by simp_all
  have p: "?p x \<longleftrightarrow> st_alert_id x = ?a" if "x \<in> set (an_states db)" for x
    using state_row_represented(2) [OF assms(1) that] last_history(3) [OF assms(1,4)] assms(6)
    by (auto simp: state_row_of_def)
  have filt: "filter ?p (an_states db) = filter (\<lambda>x. st_alert_id x = ?a) (an_states db)"
    by (rule filter_cong [OF refl]) (use p in blast)
  have "filter (\<lambda>x. st_alert_id x = ?a) (an_states db) = [?old]"
    using distinct_filter_key [OF representsD(5) [OF assms(1)] mem(1)] mem(2) by simp
  then have one: "rowcount ?p (an_states db) = 1" by (simp add: rowcount_def filt)
  have upd: "update_where ?p (\<lambda>_. state_row_of e) (an_states db) =
      update_where (\<lambda>x. st_alert_id x = ?a) (\<lambda>_. state_row_of e) (an_states db)"
    unfolding update_where_def by (rule map_cong [OF refl]) (use p in simp)
  let ?st = "update_where (\<lambda>x. st_alert_id x = ?a) (\<lambda>_. state_row_of e) (an_states db)"
  let ?db1 = "db\<lparr>an_states := ?st\<rparr>"
  have id: "tr_transition_id e \<notin> set (map st_last_transition_id (filter (\<lambda>x. \<not> ?p x) (an_states db)))"
    using state_ids_represented [OF assms(1)] assms(3) by auto
  have 1: "update_state db (state_row_of e) version = Inr ?db1"
    using one id state_row_of_check [OF assms(2)] upd
    by (simp add: update_state_def state_row_of_def Let_def)
  have keys: "map st_alert_id ?st = map st_alert_id (an_states db)"
    by (auto simp: update_where_def state_row_of_def)
  have tid: "tr_transition_id e \<notin> set (map tr_transition_id (an_transitions db))"
    using assms(3) by (simp add: representsD(1) [OF assms(1)] image_image)
  have "tr_sequence x \<noteq> tr_sequence e" if "x \<in> set es" "tr_alert_id x = ?a" for x
  proof -
    have "tr_sequence x \<in> set (map tr_sequence (history es ?a))" using that by (simp add: history_mem)
    then show ?thesis unfolding representsD(4) [OF assms(1)] using assms(5) by auto
  qed
  then have pair: "(?a, tr_sequence e) \<notin> set (map (\<lambda>x. (tr_alert_id x, tr_sequence x)) (an_transitions db))"
    by (force simp: representsD(1) [OF assms(1)])
  let ?db2 = "\<lparr>an_states = ?st, an_transitions = an_transitions db @ [transition_values e]\<rparr>"
  have "?a \<in> set (map st_alert_id ?st)" unfolding keys using mem by (metis image_eqI list.set_map)
  then have 2: "insert_transition ?db1 (transition_values e) = Inr ?db2"
    using transition_values_check [OF assms(2)] tid pair by (simp add: insert_transition_def)
  have "fetchone (\<lambda>r. st_alert_id r = a) ?st =
      (if a = ?a then Some (state_row_of e) else fetchone (\<lambda>r. st_alert_id r = a) (an_states db))" for a
    using old by (auto simp: fetchone_update_replace state_row_of_def)
  then have "represents ?db2 (es @ [e])"
    by (intro represents_snoc [OF assms(1-3,5)]) (use keys representsD(5) [OF assms(1)] in auto)
  then show ?thesis using 1 2 by blast
qed

text \<open>Under representation, the transaction is the abstract operation on the log.\<close>

definition refines_record ::
  "transition_event list \<Rightarrow> datetime option \<Rightarrow> string \<Rightarrow> transition_request \<Rightarrow>
     analyst_error + analyst_db \<times> transition_disposition \<times> analyst_snapshot \<times> transition_event \<Rightarrow> bool" where
  "refines_record es clock actor rq res = (case res of
     Inl e \<Rightarrow> record_transition es clock actor rq = Inl e
   | Inr (db', d, snap, ev) \<Rightarrow> (\<exists>es'. record_transition es clock actor rq = Inr (es', d, ev) \<and> represents db' es' \<and>
       snap = snapshot_of (rq_alert_id rq) (history es' (rq_alert_id rq))))"

lemma find_represented:
  assumes "represents db es"
  shows "fetchone (\<lambda>r. tr_transition_id r = i) (an_transitions db) =
    map_option transition_values (List.find (\<lambda>e. tr_transition_id e = i) es)"
  by (simp add: representsD(1) [OF assms] fetchone_map comp_def) (simp add: fetchone_def)

lemma snapshot_version:
  assumes "represents db es"
  shows "as_version (snapshot_of a (history es a)) = int (length (history es a))"
    "as_status (snapshot_of a (history es a)) = ''new'' \<longleftrightarrow> history es a = []"
    "as_status (snapshot_of a (history es a)) = ''in_review'' \<Longrightarrow> length (history es a) = 1"
proof -
  show "as_version (snapshot_of a (history es a)) = int (length (history es a))"
    using last_history(3) [OF assms, of a] by (simp add: snapshot_of_def implicit_new_def Let_def)
  show "as_status (snapshot_of a (history es a)) = ''new'' \<longleftrightarrow> history es a = []"
  proof (cases "history es a = []")
    case False
    show ?thesis
      using False by (cases rule: valid_transition_cases [OF last_history(2) [OF assms False]])
        (auto simp: snapshot_of_def Let_def)
  qed (simp add: snapshot_of_def implicit_new_def)
  show "length (history es a) = 1" if "as_status (snapshot_of a (history es a)) = ''in_review''"
  proof (cases "history es a = []")
    case False
    show ?thesis
      using False that last_history(3) [OF assms False]
      by (cases rule: valid_transition_cases [OF last_history(2) [OF assms False]])
        (auto simp: snapshot_of_def Let_def)
  qed (use that in \<open>simp add: snapshot_of_def implicit_new_def\<close>)
qed

lemma transition_body_refines:
  assumes "represents db es" "is_alert_id (rq_alert_id rq)" "is_uuid4 (rq_transition_id rq)"
    "valid_rationale (rq_rationale rq)" "valid_actor_id actor"
  shows "refines_record es clock actor rq (transition_body db clock actor rq)"
proof (cases "List.find (\<lambda>e. tr_transition_id e = rq_transition_id rq) es")
  case (Some e)
  then have "valid_transition e" using representsD(2) [OF assms(1)] by (auto simp: find_Some_iff)
  then show ?thesis
    using assms(1) by (auto simp: refines_record_def transition_body_def record_transition_def Some
        read_represented [OF assms(1)] find_represented [OF assms(1)])
next
  case None
  let ?a = "rq_alert_id rq"
  let ?s = "snapshot_of ?a (history es ?a)"
  have fresh: "rq_transition_id rq \<notin> set (map tr_transition_id es)" using None by (auto simp: find_None_iff)
  define e where "e = (\<lambda>now :: datetime. \<lparr>tr_schema_version = ANALYST_TRANSITION_SCHEMA, tr_transition_id = rq_transition_id rq,
    tr_alert_id = ?a, tr_sequence = as_version ?s + 1, tr_expected_version = rq_expected_version rq,
    tr_from_state = as_status ?s, tr_to_state = rq_to_state rq, tr_actor_id = actor,
    tr_rationale = rq_rationale rq, tr_transitioned_at = now\<rparr>)"
  have row: "\<lparr>st_alert_id = ?a, st_status = rq_to_state rq, st_version = as_version ?s + 1,
      st_updated_at = isoformat now, st_updated_by = actor, st_last_transition_id = rq_transition_id rq\<rparr> =
    state_row_of (e now)" for now by (simp add: state_row_of_def e_def)
  have snap: "\<lparr>as_alert_id = ?a, as_status = rq_to_state rq, as_version = as_version ?s + 1,
      as_updated_at = Some now, as_updated_by = Some actor, as_last_transition_id = Some (rq_transition_id rq)\<rparr> =
    snapshot_of ?a (history (es @ [e now]) ?a)" for now by (simp add: snapshot_of_def history_snoc e_def)
  have body: "transition_body db clock actor rq =
     (if as_version ?s \<noteq> rq_expected_version rq then Inl AN_version_conflict
      else if rq_to_state rq \<notin> set (allowed_targets (as_status ?s)) then Inl AN_transition_invalid
      else case clock of None \<Rightarrow> Inl AN_clock_invalid
        | Some now \<Rightarrow> if \<not> valid_datetime now then Inl AN_clock_invalid
            else if \<not> valid_transition (e now) then Inl AN_transition_record_invalid
            else bindE (if as_status ?s = ''new'' then insert_state db (state_row_of (e now))
                        else update_state db (state_row_of (e now)) (rq_expected_version rq)) (\<lambda>db1.
              bindE (insert_transition db1 (transition_values (e now))) (\<lambda>db2.
                Inr (db2, Transition_created, snapshot_of ?a (history (es @ [e now]) ?a), e now))))"
    unfolding transition_body_def read_represented [OF assms(1)] find_represented [OF assms(1)] None
      row [symmetric] snap [symmetric]
    by (simp only: bindE_simps prod.case option.map option.case Let_def e_def)
  have rec: "record_transition es clock actor rq =
     (if as_version ?s \<noteq> rq_expected_version rq then Inl AN_version_conflict
      else if rq_to_state rq \<notin> set (allowed_targets (as_status ?s)) then Inl AN_transition_invalid
      else case clock of None \<Rightarrow> Inl AN_clock_invalid
        | Some now \<Rightarrow> if \<not> valid_datetime now then Inl AN_clock_invalid
            else Inr (es @ [e now], Transition_created, e now))"
    by (simp only: record_transition_def None option.case Let_def e_def)
  show ?thesis
  proof (cases "as_version ?s = rq_expected_version rq \<and> rq_to_state rq \<in> set (allowed_targets (as_status ?s))")
    case False
    then show ?thesis by (auto simp: refines_record_def body rec)
  next
    case ok: True
    have n: "as_version ?s = int (length (history es ?a))" "as_status ?s = ''new'' \<longleftrightarrow> history es ?a = []"
      by (rule snapshot_version(1,2) [OF assms(1)])+
    have one: "as_status ?s = ''in_review'' \<Longrightarrow> length (history es ?a) = 1"
      by (rule snapshot_version(3) [OF assms(1)])
    show ?thesis
    proof (cases "\<exists>now. clock = Some now \<and> valid_datetime now")
      case False
      then show ?thesis unfolding refines_record_def body rec using ok by (auto split: option.split)
    next
      case True
      then obtain now where now: "clock = Some now" "valid_datetime now" by blast
      have v: "valid_transition (e now)"
        using ok n one assms(2-5) now(2) by (auto simp: e_def valid_transition_def TRANSITIONS_def allowed_targets_def split: if_splits)
      have ids: "tr_transition_id (e now) \<notin> set (map tr_transition_id es)" "tr_alert_id (e now) = ?a"
        "tr_sequence (e now) = int (length (history es ?a)) + 1"
        using fresh n(1) by (simp_all add: e_def)
      show ?thesis
      proof (cases "history es ?a = []")
        case True
        then show ?thesis
          unfolding refines_record_def body rec
          using represents_new [OF assms(1) v ids(1)] ids(2,3) ok n(2) now v by auto
      next
        case False
        then show ?thesis
          unfolding refines_record_def body rec
          using represents_next [OF assms(1) v ids(1), of "rq_expected_version rq"] ids(2,3) ok n now v by auto
      qed
    qed
  qed
qed

section \<open>Authorization\<close>

lemma require_capability_Inr:
  assumes "require_capability rg cap writes = Inr actor"
  obtains e where "actor = cp_actor_id cap" "entry_of rg actor = Some e" "ae_enabled e" "ae_role e = cp_role cap"
    "cp_registry_id cap = rg_registry_id rg" "cp_token cap = signature rg actor (ae_role e)" "valid_actor_id actor"
    "writes \<longrightarrow> ae_role e = ''analyst''"
proof (cases "entry_of rg (cp_actor_id cap)")
  case None
  then show ?thesis using assms by (simp add: require_capability_def split: if_splits)
next
  case (Some e)
  show ?thesis using assms Some by (intro that [of e]) (auto simp: require_capability_def split: if_splits)
qed

lemma entry_of_SomeD: "entry_of rg a = Some e \<Longrightarrow> e \<in> set (rg_entries rg) \<and> ae_actor_id e = a"
  by (auto simp: entry_of_def find_Some_iff)

lemma issued_accepted:
  assumes "issue_for_trusted_actor rg actor = Inr cap" "cp_role cap = ''analyst''"
  shows "require_capability rg cap writes = Inr actor" "cp_actor_id cap = actor"
proof -
  obtain e where e: "entry_of rg actor = Some e" "ae_enabled e" "valid_actor_id actor"
    "cap = \<lparr>cp_actor_id = ae_actor_id e, cp_role = ae_role e, cp_registry_id = rg_registry_id rg,
                    cp_token = signature rg (ae_actor_id e) (ae_role e)\<rparr>"
    using assms(1) by (auto simp: issue_for_trusted_actor_def split: if_splits option.splits)
  have a: "ae_actor_id e = actor" using entry_of_SomeD [OF e(1)] by simp
  show "require_capability rg cap writes = Inr actor" "cp_actor_id cap = actor"
    using assms(2) e by (simp_all add: require_capability_def a)
qed

lemma admit_transition_Inr:
  "admit_transition rg afault alerts cap rq = Inr actor \<longleftrightarrow>
     require_transition rg cap = Inr actor \<and> is_alert_id (rq_alert_id rq) \<and>
     0 \<le> rq_expected_version rq \<and> rq_expected_version rq \<le> 2 \<and>
     rq_to_state rq \<in> set [''in_review'', ''closed'', ''escalated''] \<and> is_uuid4 (rq_transition_id rq) \<and>
     valid_rationale (rq_rationale rq) \<and> (\<exists>c. AlertStore.get_alert afault alerts (rq_alert_id rq) = Inr (Some c))"
  by (cases "AlertStore.get_alert afault alerts (rq_alert_id rq)")
    (auto simp: admit_transition_def get_candidate_def bindE_eq_Inr)

section \<open>The repository as a machine\<close>

type_synonym analyst_command =
  "analyst_registry \<times> alert_fault \<times> sqlite_fault \<times> datetime option \<times> alert_row list \<times> analyst_capability \<times> transition_request"

definition analyst_step :: "analyst_db \<Rightarrow> analyst_command \<Rightarrow> analyst_db" where
  "analyst_step db c = (case c of (rg, afault, fault, clock, alerts, cap, rq) \<Rightarrow>
     fst (transition rg afault fault clock alerts db cap rq))"

definition new_analyst_db :: analyst_db where
  "new_analyst_db = \<lparr>an_states = [], an_transitions = []\<rparr>"

lemma represents_empty: "represents new_analyst_db []"
  by (simp add: represents_def new_analyst_db_def history_def)

lemma record_transition_log:
  "record_transition es clock actor rq = Inr (es', d, e) \<Longrightarrow> (es' = es \<and> d = Transition_existing) \<or> (es' = es @ [e] \<and> d = Transition_created)"
  by (auto simp: record_transition_def Let_def split: option.splits if_splits)

lemma transition_body_existing:
  "transition_body db clock actor rq = Inr (db', Transition_existing, x) \<Longrightarrow> db' = db"
  by (auto simp: transition_body_def bindE_eq_Inr Let_def split: option.splits if_splits)

text \<open>A transition either fails and changes nothing, or is the abstract operation for the capability's actor.\<close>

lemma transition_cases:
  assumes "represents db es" "transition rg afault fault clock alerts db cap rq = (db', res)"
  obtains (failed) e where "db' = db" "res = Inl e"
  | (recorded) es' d ev where "require_transition rg cap = Inr (cp_actor_id cap)"
      "record_transition es clock (cp_actor_id cap) rq = Inr (es', d, ev)" "represents db' es'"
      "res = Inr (d, snapshot_of (rq_alert_id rq) (history es' (rq_alert_id rq)), ev)"
      "is_alert_id (rq_alert_id rq)" "\<exists>c. AlertStore.get_alert afault alerts (rq_alert_id rq) = Inr (Some c)"
      "d = Transition_existing \<longrightarrow> db' = db"
proof -
  show ?thesis
  proof (cases "\<exists>e. res = Inl e")
    case True
    then obtain e where e: "res = Inl e" by blast
    then have "db' = db"
      using assms(2) by (auto simp: transition_def split: sum.splits sqlite_fault.splits prod.splits)
    then show ?thesis using e by (rule failed)
  next
    case False
    then obtain actor where adm: "admit_transition rg afault alerts cap rq = Inr actor"
      and out: "\<exists>x. transition_body db clock actor rq = Inr (db', x) \<and> res = Inr x"
      using assms(2) by (auto simp: transition_def split: sum.splits sqlite_fault.splits prod.splits)
    note actor = adm [unfolded admit_transition_Inr]
    from out obtain d snap ev where body: "transition_body db clock actor rq = Inr (db', d, snap, ev)" "res = Inr (d, snap, ev)"
      by (metis prod_cases3)
    have a: "actor = cp_actor_id cap" "valid_actor_id actor" using require_capability_Inr actor by metis+
    have "refines_record es clock actor rq (Inr (db', d, snap, ev))"
      using transition_body_refines [OF assms(1) _ _ _ a(2), of rq clock] actor body(1) by simp
    then obtain es' where "record_transition es clock actor rq = Inr (es', d, ev)" "represents db' es'"
      "snap = snapshot_of (rq_alert_id rq) (history es' (rq_alert_id rq))"
      by (auto simp: refines_record_def)
    then show ?thesis using actor a(1) body transition_body_existing [of db clock actor rq db'] by (intro recorded) auto
  qed
qed

lemma analyst_step_represents:
  assumes "represents db es"
  shows "\<exists>es'. represents (analyst_step db c) es' \<and> prefix es es'"
proof -
  obtain rg afault fault clock alerts cap rq where c: "c = (rg, afault, fault, clock, alerts, cap, rq)" by (cases c)
  obtain db' res where t: "transition rg afault fault clock alerts db cap rq = (db', res)" by fastforce
  have "\<exists>es'. represents db' es' \<and> prefix es es'"
  proof (cases rule: transition_cases [OF assms t])
    case (1 e)
    then show ?thesis using assms by blast
  next
    case (2 es' d ev)
    then show ?thesis using record_transition_log [OF 2(2)] by fastforce
  qed
  then show ?thesis by (simp add: analyst_step_def c t)
qed

interpretation analyst: monotone_machine analyst_step "\<lambda>d. d = new_analyst_db" "\<lambda>d. \<exists>es. represents d es"
  "\<lambda>d d'. prefix (an_transitions d) (an_transitions d')"
proof
  show "\<exists>es. represents d es" if "d = new_analyst_db" for d using that represents_empty by blast
  fix d c
  assume "\<exists>es. represents d es"
  then obtain es es' where es: "represents d es" "represents (analyst_step d c) es'" "prefix es es'"
    using analyst_step_represents by blast
  show "\<exists>es. represents (analyst_step d c) es" using es(2) by blast
  show "prefix (an_transitions d) (an_transitions (analyst_step d c))"
    using es(3) by (simp add: representsD(1) [OF es(1)] representsD(1) [OF es(2)] map_mono_prefix)
qed (auto intro: prefix_order.trans)

lemma find_snoc: "List.find P xs = None \<Longrightarrow> List.find P (xs @ [x]) = (if P x then Some x else None)"
  by (induction xs) (auto split: if_splits)

lemma reachable_represented:
  obtains es where "represents (foldl analyst_step new_analyst_db cs) es"
  using analyst.inv_from_start [OF refl, of cs] by blast

section \<open>Properties\<close>

text \<open>C10: In every run the two tables are a log of transitions.  Reading an alert returns the state
  its at most two linked transitions lead to, and never an inconsistency; and a transition on a working
  engine is the abstract operation on the log: whatever the admission of the request refuses changes
  nothing, and what it admits fails with the error of the abstract operation and no effect, or stores
  the log, and returns the state and event, of that operation.\<close>

theorem analyst_log_refined:
  "\<exists>es. represents (foldl analyst_step new_analyst_db cs) es \<and>
     (\<forall>a. read_alert_state (foldl analyst_step new_analyst_db cs) a = Inr (snapshot_of a (history es a), history es a) \<and>
          length (history es a) \<le> 2) \<and>
     (\<forall>rg afault clock alerts cap rq.
        let db = foldl analyst_step new_analyst_db cs in
        case admit_transition rg afault alerts cap rq of
          Inl e \<Rightarrow> transition rg afault No_fault clock alerts db cap rq = (db, Inl e)
        | Inr actor \<Rightarrow> (case record_transition es clock actor rq of
            Inl e \<Rightarrow> transition rg afault No_fault clock alerts db cap rq = (db, Inl e)
          | Inr (es', d, ev) \<Rightarrow> (\<exists>db'. represents db' es' \<and>
              transition rg afault No_fault clock alerts db cap rq =
                (db', Inr (d, snapshot_of (rq_alert_id rq) (history es' (rq_alert_id rq)), ev)))))"
proof -
  obtain es where es: "represents (foldl analyst_step new_analyst_db cs) es" by (rule reachable_represented)
  let ?db = "foldl analyst_step new_analyst_db cs"
  have "case record_transition es clock actor rq of
            Inl e \<Rightarrow> transition rg afault No_fault clock alerts ?db cap rq = (?db, Inl e)
          | Inr (es', d, ev) \<Rightarrow> (\<exists>db'. represents db' es' \<and>
              transition rg afault No_fault clock alerts ?db cap rq =
                (db', Inr (d, snapshot_of (rq_alert_id rq) (history es' (rq_alert_id rq)), ev)))"
    if adm: "admit_transition rg afault alerts cap rq = Inr actor" for rg afault clock alerts cap rq actor
  proof -
    note actor = adm [unfolded admit_transition_Inr]
    have "valid_actor_id actor" using require_capability_Inr actor by metis
    then have "refines_record es clock actor rq (transition_body ?db clock actor rq)"
      using transition_body_refines [OF es] actor by simp
    then show ?thesis
      by (auto simp: refines_record_def transition_def adm split: sum.splits prod.splits)
  qed
  then have "case admit_transition rg afault alerts cap rq of
          Inl e \<Rightarrow> transition rg afault No_fault clock alerts ?db cap rq = (?db, Inl e)
        | Inr actor \<Rightarrow> (case record_transition es clock actor rq of
            Inl e \<Rightarrow> transition rg afault No_fault clock alerts ?db cap rq = (?db, Inl e)
          | Inr (es', d, ev) \<Rightarrow> (\<exists>db'. represents db' es' \<and>
              transition rg afault No_fault clock alerts ?db cap rq =
                (db', Inr (d, snapshot_of (rq_alert_id rq) (history es' (rq_alert_id rq)), ev))))"
    for rg afault clock alerts cap rq by (cases "admit_transition rg afault alerts cap rq") (auto simp: transition_def)
  then show ?thesis using es read_represented [OF es] history_short [OF es] unfolding Let_def by blast
qed

definition sample_analysts :: analyst_registry where
  "sample_analysts = \<lparr>rg_entries = [\<lparr>ae_actor_id = ''ana'', ae_role = ''analyst'', ae_enabled = True\<rparr>],
     rg_registry_id = ''11111111-1111-4111-8111-111111111111'', rg_secret = replicate 32 CHR ''k''\<rparr>"

definition sample_capability :: analyst_capability where
  "sample_capability = \<lparr>cp_actor_id = ''ana'', cp_role = ''analyst'',
     cp_registry_id = ''11111111-1111-4111-8111-111111111111'', cp_token = signature sample_analysts ''ana'' ''analyst''\<rparr>"

definition sample_request :: transition_request where
  "sample_request = \<lparr>rq_alert_id = ac_alert_candidate_id sample_alert, rq_expected_version = 0, rq_to_state = ''in_review'',
     rq_transition_id = ''22222222-2222-4222-8222-222222222222'', rq_rationale = ''triage started''\<rparr>"

lemma sample_issued: "issue_for_trusted_actor sample_analysts ''ana'' = Inr sample_capability"
proof -
  have "valid_actor_id ''ana''" by code_simp
  then show ?thesis
    by (simp add: issue_for_trusted_actor_def entry_of_def sample_analysts_def sample_capability_def)
qed

lemma sample_request_ok:
  "AlertStore.get_alert (AF No_fault) [alert_values sample_alert] (rq_alert_id sample_request) = Inr (Some sample_alert)"
  "is_alert_id (rq_alert_id sample_request)" "is_uuid4 (rq_transition_id sample_request)"
  "valid_rationale (rq_rationale sample_request)" "cp_role sample_capability = ''analyst''" "valid_datetime (Datetime 2026 9 12 13 0 0 0)"
  "read_alert_state (foldl analyst_step new_analyst_db []) (rq_alert_id sample_request) = Inr (implicit_new (rq_alert_id sample_request), [])"
proof -
  have "alert_inv [alert_values sample_alert]"
    using sample_alert_valid unfolding alert_inv_def by (intro exI [of _ "[sample_alert]"]) simp
  then show "AlertStore.get_alert (AF No_fault) [alert_values sample_alert] (rq_alert_id sample_request) = Inr (Some sample_alert)"
    using get_alert_stored(1) [OF _ _ sample_alert_valid] by (simp add: sample_request_def)
  show "is_alert_id (rq_alert_id sample_request)" by (simp add: sample_request_def sample_alert_def derived_alert_id)
  have "is_uuid4 ''22222222-2222-4222-8222-222222222222''" "valid_rationale ''triage started''"
    "valid_datetime (Datetime 2026 9 12 13 0 0 0)" by code_simp+
  then show "is_uuid4 (rq_transition_id sample_request)" "valid_rationale (rq_rationale sample_request)"
    "valid_datetime (Datetime 2026 9 12 13 0 0 0)" by (simp_all add: sample_request_def)
  show "cp_role sample_capability = ''analyst''" by (simp add: sample_capability_def)
  show "read_alert_state (foldl analyst_step new_analyst_db []) (rq_alert_id sample_request) =
      Inr (implicit_new (rq_alert_id sample_request), [])"
    using read_represented [OF represents_empty, of "rq_alert_id sample_request"] by (simp add: snapshot_of_def history_def)
qed

lemma sample_transition:
  "\<exists>db' snap ev. transition sample_analysts (AF No_fault) No_fault (Some (Datetime 2026 9 12 13 0 0 0))
     [alert_values sample_alert] (foldl analyst_step new_analyst_db []) sample_capability sample_request =
       (db', Inr (Transition_created, snap, ev)) \<and> db' \<noteq> foldl analyst_step new_analyst_db []"
proof -
  have "admit_transition sample_analysts (AF No_fault) [alert_values sample_alert] sample_capability sample_request = Inr ''ana''"
    unfolding admit_transition_Inr
    using sample_request_ok issued_accepted(1) [OF sample_issued] by (auto simp: sample_request_def)
  moreover have "refines_record [] (Some (Datetime 2026 9 12 13 0 0 0)) ''ana'' sample_request
      (transition_body new_analyst_db (Some (Datetime 2026 9 12 13 0 0 0)) ''ana'' sample_request)"
    using transition_body_refines [OF represents_empty sample_request_ok(2,3,4)]
      require_capability_Inr issued_accepted(1) [OF sample_issued sample_request_ok(5)] by metis
  ultimately show ?thesis
    using sample_request_ok(6)
    by (auto simp: transition_def refines_record_def record_transition_def snapshot_of_def history_def implicit_new_def
        allowed_targets_def sample_request_def represents_def new_analyst_db_def Let_def split: sum.splits prod.splits)
qed

text \<open>C15: Whatever the faults, the stored states and transitions change only through a capability that
  names an enabled entry of the registry with the role of analyst and carries the registry's own keyed
  signature for it, and only for a stored alert; the change appends exactly one transition, by that
  actor on that alert.\<close>

theorem transition_needs_analyst:
  assumes "transition rg afault fault clock alerts (foldl analyst_step new_analyst_db cs) cap rq = (db', res)"
    "db' \<noteq> foldl analyst_step new_analyst_db cs"
  shows "\<exists>e ev. entry_of rg (cp_actor_id cap) = Some e \<and> ae_enabled e \<and> ae_role e = ''analyst'' \<and>
    cp_registry_id cap = rg_registry_id rg \<and> cp_token cap = signature rg (cp_actor_id cap) ''analyst'' \<and>
    (\<exists>c. AlertStore.get_alert afault alerts (rq_alert_id rq) = Inr (Some c)) \<and>
    an_transitions db' = an_transitions (foldl analyst_step new_analyst_db cs) @ [transition_values ev] \<and>
    tr_actor_id ev = cp_actor_id cap \<and> tr_alert_id ev = rq_alert_id rq"
proof -
  obtain es where es: "represents (foldl analyst_step new_analyst_db cs) es" by (rule reachable_represented)
  show ?thesis
  proof (cases rule: transition_cases [OF es assms(1)])
    case (1 e)
    then show ?thesis using assms(2) by simp
  next
    case (2 es' d ev)
    obtain e where e: "entry_of rg (cp_actor_id cap) = Some e" "ae_enabled e" "ae_role e = ''analyst''"
      "cp_registry_id cap = rg_registry_id rg" "cp_token cap = signature rg (cp_actor_id cap) ''analyst''"
      using require_capability_Inr [OF 2(1)] by metis
    have ev: "es' = es @ [ev]" using record_transition_log [OF 2(2)] 2(7) assms(2) by blast
    then have "tr_actor_id ev = cp_actor_id cap" "tr_alert_id ev = rq_alert_id rq"
      using 2(2) by (auto simp: record_transition_def Let_def split: option.splits if_splits)
    then show ?thesis
      using e 2(6) ev representsD(1) [OF es] representsD(1) [OF 2(3)] by auto
  qed
qed

theorem transition_needs_analyst_witness:
  "\<exists>e (ev :: transition_event). entry_of sample_analysts ''ana'' = Some e \<and> ae_enabled e \<and> ae_role e = ''analyst'' \<and>
    cp_token sample_capability = signature sample_analysts ''ana'' ''analyst'' \<and>
    tr_actor_id ev = ''ana'' \<and> tr_alert_id ev = ac_alert_candidate_id sample_alert"
proof -
  obtain db' res where t: "transition sample_analysts (AF No_fault) No_fault (Some (Datetime 2026 9 12 13 0 0 0))
     [alert_values sample_alert] (foldl analyst_step new_analyst_db []) sample_capability sample_request = (db', res)"
    "db' \<noteq> foldl analyst_step new_analyst_db []" using sample_transition by blast
  have f: "cp_actor_id sample_capability = ''ana''" "rq_alert_id sample_request = ac_alert_candidate_id sample_alert"
    by (simp_all add: sample_capability_def sample_request_def)
  show ?thesis using transition_needs_analyst [OF t] unfolding f by blast
qed

text \<open>A registered analyst is never locked out of an open alert: with a capability issued for
  them, the alert stored, its current version, an allowed next state, a fresh transition identifier, a
  valid rationale and a valid clock, a working engine records the transition; reading then returns the
  new state with the extended history, and repeating the request returns the same without effect.\<close>

theorem analyst_can_transition:
  fixes cs :: "analyst_command list"
  assumes "issue_for_trusted_actor rg actor = Inr cap" "cp_role cap = ''analyst''"
    "db = foldl analyst_step new_analyst_db cs" "AlertStore.get_alert afault alerts (rq_alert_id rq) = Inr (Some c)"
    "is_alert_id (rq_alert_id rq)" "read_alert_state db (rq_alert_id rq) = Inr (s, h)"
    "rq_expected_version rq = as_version s" "rq_to_state rq \<in> set (allowed_targets (as_status s))"
    "rq_transition_id rq \<notin> set (map tr_transition_id (an_transitions db))" "is_uuid4 (rq_transition_id rq)"
    "valid_rationale (rq_rationale rq)" "valid_datetime now"
  shows "\<exists>db' snap ev. transition rg afault No_fault (Some now) alerts db cap rq = (db', Inr (Transition_created, snap, ev)) \<and>
    as_status snap = rq_to_state rq \<and> as_version snap = as_version s + 1 \<and>
    read_alert_state db' (rq_alert_id rq) = Inr (snap, h @ [ev]) \<and>
    transition rg afault No_fault (Some now) alerts db' cap rq = (db', Inr (Transition_existing, snap, ev))"
proof -
  obtain es where es: "represents db es" using reachable_represented assms(3) by blast
  let ?a = "rq_alert_id rq"
  have sh: "s = snapshot_of ?a (history es ?a)" "h = history es ?a"
    using read_represented [OF es, of ?a] assms(6) by simp_all
  have v: "0 \<le> as_version s" "as_version s \<le> 2"
    using snapshot_version(1) [OF es, of ?a] history_short [OF es, of ?a] by (simp_all add: sh)
  have adm: "admit_transition rg afault alerts cap rq = Inr actor"
    unfolding admit_transition_Inr
    using issued_accepted [OF assms(1,2)] assms(4,5,7,8,10,11) v by (auto simp: allowed_targets_def split: if_splits)
  have actor: "valid_actor_id actor" using require_capability_Inr issued_accepted(1) [OF assms(1,2)] by metis
  have none: "List.find (\<lambda>e. tr_transition_id e = rq_transition_id rq) es = None"
    using assms(9) representsD(1) [OF es] by (force simp: find_None_iff)
  obtain ev where ev: "record_transition es (Some now) actor rq = Inr (es @ [ev], Transition_created, ev)"
    "tr_transition_id ev = rq_transition_id rq" "tr_alert_id ev = ?a" "tr_expected_version ev = rq_expected_version rq"
    "tr_to_state ev = rq_to_state rq" "tr_actor_id ev = actor" "tr_rationale ev = rq_rationale rq"
    "tr_sequence ev = as_version s + 1"
    using assms(7,8,12) none by (simp add: record_transition_def Let_def sh)
  let ?snap = "snapshot_of ?a (history (es @ [ev]) ?a)"
  note body = transition_body_refines [OF _ assms(5,10,11) actor, where clock = "Some now"]
  obtain db' where db': "transition_body db (Some now) actor rq = Inr (db', Transition_created, ?snap, ev)" "represents db' (es @ [ev])"
    using body [OF es] ev(1) by (auto simp: refines_record_def split: sum.splits)
  have "record_transition (es @ [ev]) (Some now) actor rq = Inr (es @ [ev], Transition_existing, ev)"
    using none ev by (simp add: record_transition_def find_snoc)
  then obtain db2 where "transition_body db' (Some now) actor rq = Inr (db2, Transition_existing, ?snap, ev)"
    using body [OF db'(2)] by (auto simp: refines_record_def split: sum.splits)
  then have again: "transition_body db' (Some now) actor rq = Inr (db', Transition_existing, ?snap, ev)"
    using transition_body_existing by blast
  have "read_alert_state db' ?a = Inr (?snap, h @ [ev])"
    using read_represented [OF db'(2), of ?a] ev(3) by (simp add: history_snoc sh)
  moreover have "as_status ?snap = rq_to_state rq" "as_version ?snap = as_version s + 1"
    using ev by (simp_all add: history_snoc snapshot_of_def Let_def)
  ultimately show ?thesis using db'(1) again by (auto simp: transition_def adm)
qed

theorem analyst_can_transition_witness:
  "\<exists>db' snap ev. transition sample_analysts (AF No_fault) No_fault (Some (Datetime 2026 9 12 13 0 0 0))
     [alert_values sample_alert] (foldl analyst_step new_analyst_db []) sample_capability sample_request =
       (db', Inr (Transition_created, snap, ev)) \<and> as_status snap = ''in_review'' \<and> as_version snap = 1"
  using analyst_can_transition [OF sample_issued sample_request_ok(5) refl sample_request_ok(1,2,7) _ _ _ sample_request_ok(3,4,6)]
  by (auto simp: sample_request_def implicit_new_def allowed_targets_def new_analyst_db_def)

end
