(* ===== verification/FeedbackLedger.thy ===== *)
theory FeedbackLedger
  imports AnalystState "HOL-Library.Sublist"
begin

text \<open>
  The offline retraining feedback ledger (\<^verbatim>\<open>db/retraining_feedback_ledger.py\<close>): the check of the frozen
  model artifacts, the append-only table of analyst verdicts and its operations, and what a run of
  the ledger keeps.
\<close>

section \<open>Frozen artifacts\<close>

datatype feedback_error =
    FB_model_artifact_not_found string | FB_frozen_rf_digest_mismatch | FB_frozen_ae_digest_mismatch
  | FB_invalid_transition_request_id | FB_invalid_alert_candidate_id | FB_invalid_detector_decision
  | FB_invalid_stored_score | FB_invalid_analyst_verified_outcome | FB_invalid_actor_id
  | FB_ledger_unavailable | FB_conflicting_feedback_retry | FB_feedback_insert_failed
  | FB_online_weight_drift_detected | FB_sqlite_error

definition FROZEN_RF_EXPECTED_SHA256 :: string where
  "FROZEN_RF_EXPECTED_SHA256 = ''bd2853a6f9d7f65038cc8bd2da282a2221cb73bda1f1e4c1c714098e8bfcffa9''"

definition FROZEN_AE_EXPECTED_SHA256 :: string where
  "FROZEN_AE_EXPECTED_SHA256 = ''c8675d13869308babf41f269f9437d083daf827781293357e1749d4df0af4b23''"

text \<open>A path under the repository root: missing, present but not a file, or a file with the digest of its bytes.\<close>

datatype artifact = Absent | Not_file | File_digest string

text \<open>The two canonical paths and their aliases, as one verification finds them.\<close>

record model_files =
  mf_rf :: artifact
  mf_rf_alias :: artifact
  mf_ae :: artifact
  mf_ae_alias :: artifact

definition compute_sha256 :: "string \<Rightarrow> artifact \<Rightarrow> feedback_error + string" where
  "compute_sha256 name a = (case a of File_digest d \<Rightarrow> Inr d | _ \<Rightarrow> Inl (FB_model_artifact_not_found name))"

definition select_artifact :: "string \<Rightarrow> artifact \<Rightarrow> string \<Rightarrow> artifact \<Rightarrow> string \<times> artifact" where
  "select_artifact name a alias_name b = (if a = Absent \<and> b \<noteq> Absent then (alias_name, b) else (name, a))"

definition verify_frozen_models_unmodified :: "model_files \<Rightarrow> feedback_error + string \<times> string" where
  "verify_frozen_models_unmodified fs =
     (let (rf_name, rf_path) = select_artifact ''random_forest.joblib'' (mf_rf fs) ''rf_unsw_pipeline.joblib'' (mf_rf_alias fs);
          (ae_name, ae_path) = select_artifact ''autoencoder_state.pt'' (mf_ae fs) ''autoencoder_unsw_v2.pt'' (mf_ae_alias fs)
      in bindE (compute_sha256 rf_name rf_path) (\<lambda>rf_sha.
         bindE (requireE (rf_sha = FROZEN_RF_EXPECTED_SHA256) FB_frozen_rf_digest_mismatch) (\<lambda>_.
         bindE (compute_sha256 ae_name ae_path) (\<lambda>ae_sha.
         bindE (requireE (ae_sha = FROZEN_AE_EXPECTED_SHA256) FB_frozen_ae_digest_mismatch) (\<lambda>_.
           Inr (rf_sha, ae_sha))))))"

section \<open>The table\<close>

record feedback_record =
  fb_transition_request_id :: string
  fb_alert_candidate_id :: string
  fb_stored_detector_decision :: string
  fb_stored_score :: pyfloat
  fb_analyst_verified_outcome :: string
  fb_actor_id :: string
  fb_recorded_at_utc :: string
  fb_rf_model_sha256 :: string
  fb_ae_model_sha256 :: string

definition ALLOWED_VERIFIED_OUTCOMES :: "string list" where
  "ALLOWED_VERIFIED_OUTCOMES = [''confirmed_threat'', ''false_positive'']"

text \<open>The arguments of \<^verbatim>\<open>record_feedback\<close>; the score is what \<^verbatim>\<open>float\<close> makes of the argument, if anything
  (an integer too large for a float, whose \<^verbatim>\<open>OverflowError\<close> the code lets pass, has no counterpart).\<close>

record feedback_args =
  fa_transition_request_id :: string
  fa_alert_candidate_id :: string
  fa_stored_detector_decision :: string
  fa_stored_score :: "pyfloat option"
  fa_analyst_verified_outcome :: string
  fa_actor_id :: string
  fa_recorded_at_utc :: "string option"

definition validate_feedback :: "feedback_args \<Rightarrow> feedback_error + pyfloat" where
  "validate_feedback a =
     bindE (requireE (py_strip (fa_transition_request_id a) \<noteq> []) FB_invalid_transition_request_id) (\<lambda>_.
     bindE (requireE (py_strip (fa_alert_candidate_id a) \<noteq> []) FB_invalid_alert_candidate_id) (\<lambda>_.
     bindE (requireE (py_strip (fa_stored_detector_decision a) \<noteq> []) FB_invalid_detector_decision) (\<lambda>_.
     bindE (someE (fa_stored_score a) FB_invalid_stored_score) (\<lambda>score_val.
     bindE (requireE (fl_le (Fin 0) score_val \<and> fl_le score_val (Fin 1)) FB_invalid_stored_score) (\<lambda>_.
     bindE (requireE (fa_analyst_verified_outcome a \<in> set ALLOWED_VERIFIED_OUTCOMES) FB_invalid_analyst_verified_outcome) (\<lambda>_.
     bindE (requireE (valid_actor_id (fa_actor_id a)) FB_invalid_actor_id) (\<lambda>_. Inr score_val)))))))"

definition same_feedback :: "feedback_record \<Rightarrow> feedback_args \<Rightarrow> pyfloat \<Rightarrow> bool" where
  "same_feedback existing a score_val \<longleftrightarrow>
     fb_alert_candidate_id existing = fa_alert_candidate_id a \<and>
     fb_stored_detector_decision existing = fa_stored_detector_decision a \<and>
     fl_less (fl_abs (fl_sub (fb_stored_score existing) score_val)) (fl_round (1 / 10 ^ 6)) \<and>
     fb_analyst_verified_outcome existing = fa_analyst_verified_outcome a \<and>
     fb_actor_id existing = fa_actor_id a"

text \<open>INSERT under the primary key and the CHECK on the outcome.\<close>

definition insert_feedback :: "feedback_record list \<Rightarrow> feedback_record \<Rightarrow> feedback_record list option" where
  "insert_feedback t r =
     (if fb_transition_request_id r \<in> set (map fb_transition_request_id t) \<or>
         fb_analyst_verified_outcome r \<notin> set [''confirmed_threat'', ''false_positive'']
      then None else Some (t @ [r]))"

section \<open>Operations\<close>

record feedback_result =
  fr_status :: string
  fr_transition_request_id :: string
  fr_alert_candidate_id :: string
  fr_analyst_verified_outcome :: string
  fr_recorded_at_utc :: string
  fr_digests :: "(string \<times> string) option"

definition feedback_timestamp :: "string \<Rightarrow> feedback_args \<Rightarrow> string" where
  "feedback_timestamp now_iso a = (case fa_recorded_at_utc a of None \<Rightarrow> now_iso | Some s \<Rightarrow> if s = [] then now_iso else s)"

text \<open>The transaction: the existing row it matched, or the table with the new row.\<close>

definition feedback_body ::
  "sqlite_fault \<Rightarrow> feedback_record list \<Rightarrow> feedback_record \<Rightarrow> feedback_args \<Rightarrow> pyfloat \<Rightarrow>
     feedback_error + feedback_record + feedback_record list" where
  "feedback_body fault t new a score_val = (case fault of
     Fault_connect \<Rightarrow> Inl FB_ledger_unavailable
   | Fault_begin _ \<Rightarrow> Inl FB_feedback_insert_failed
   | _ \<Rightarrow> (case fetchone (\<lambda>r. fb_transition_request_id r = fa_transition_request_id a) t of
       Some existing \<Rightarrow> if same_feedback existing a score_val then Inr (Inl existing) else Inl FB_conflicting_feedback_retry
     | None \<Rightarrow> (case fault of Fault_write _ \<Rightarrow> Inl FB_feedback_insert_failed
         | _ \<Rightarrow> (case insert_feedback t new of None \<Rightarrow> Inl FB_feedback_insert_failed | Some t' \<Rightarrow> Inr (Inr t')))))"

definition record_feedback ::
  "model_files \<Rightarrow> model_files \<Rightarrow> sqlite_fault \<Rightarrow> string \<Rightarrow> feedback_record list \<Rightarrow> feedback_args \<Rightarrow>
     feedback_record list \<times> (feedback_error + feedback_result)" where
  "record_feedback before after fault now_iso t a =
     (case bindE (validate_feedback a) (\<lambda>score_val.
           bindE (verify_frozen_models_unmodified before) (\<lambda>pre. Inr (score_val, pre))) of
        Inl e \<Rightarrow> (t, Inl e)
      | Inr (score_val, rf_sha_pre, ae_sha_pre) \<Rightarrow>
         (let result = \<lparr>fr_status = ''created'', fr_transition_request_id = fa_transition_request_id a,
                fr_alert_candidate_id = fa_alert_candidate_id a,
                fr_analyst_verified_outcome = fa_analyst_verified_outcome a,
                fr_recorded_at_utc = feedback_timestamp now_iso a, fr_digests = None\<rparr>;
              new = \<lparr>fb_transition_request_id = fa_transition_request_id a,
                fb_alert_candidate_id = fa_alert_candidate_id a,
                fb_stored_detector_decision = fa_stored_detector_decision a, fb_stored_score = score_val,
                fb_analyst_verified_outcome = fa_analyst_verified_outcome a, fb_actor_id = fa_actor_id a,
                fb_recorded_at_utc = feedback_timestamp now_iso a,
                fb_rf_model_sha256 = rf_sha_pre, fb_ae_model_sha256 = ae_sha_pre\<rparr>
          in case feedback_body fault t new a score_val of
            Inl e \<Rightarrow> (t, Inl e)
          | Inr (Inl existing) \<Rightarrow>
              (t, Inr (result\<lparr>fr_status := ''existing'', fr_recorded_at_utc := fb_recorded_at_utc existing\<rparr>))
          | Inr (Inr t') \<Rightarrow> (t',
              bindE (verify_frozen_models_unmodified after) (\<lambda>(rf_sha_post, ae_sha_post).
              bindE (requireE (rf_sha_pre = rf_sha_post \<and> ae_sha_pre = ae_sha_post) FB_online_weight_drift_detected) (\<lambda>_.
                Inr (result\<lparr>fr_digests := Some (rf_sha_post, ae_sha_post)\<rparr>))))))"

text \<open>The readers; a failed connect has its own code, an engine error inside propagates.\<close>

definition reading_feedback :: "sqlite_fault \<Rightarrow> 'a \<Rightarrow> feedback_error + 'a" where
  "reading_feedback fault x = (case fault of No_fault \<Rightarrow> Inr x | Fault_connect \<Rightarrow> Inl FB_ledger_unavailable | _ \<Rightarrow> Inl FB_sqlite_error)"

definition get_feedback :: "sqlite_fault \<Rightarrow> feedback_record list \<Rightarrow> string \<Rightarrow> feedback_error + feedback_record option" where
  "get_feedback fault t i = reading_feedback fault (fetchone (\<lambda>r. fb_transition_request_id r = i) t)"

text \<open>SQLite reads a negative LIMIT as no limit and a negative OFFSET as zero.\<close>

definition limit_offset :: "int \<Rightarrow> int \<Rightarrow> 'a list \<Rightarrow> 'a list" where
  "limit_offset limit offset xs = (let ys = drop (nat offset) xs in if limit < 0 then ys else take (nat limit) ys)"

definition list_feedback :: "sqlite_fault \<Rightarrow> feedback_record list \<Rightarrow> int \<Rightarrow> int \<Rightarrow> feedback_error + feedback_record list" where
  "list_feedback fault t limit offset = reading_feedback fault (limit_offset limit offset (sort_key fb_recorded_at_utc t))"

definition count_feedback :: "sqlite_fault \<Rightarrow> feedback_record list \<Rightarrow> feedback_error + int" where
  "count_feedback fault t = reading_feedback fault (int (length t))"

end
