(* ===== verification/FeedbackLedger_Facts.thy ===== *)
theory FeedbackLedger_Facts
  imports FeedbackLedger
begin

text \<open>
  What the feedback ledger keeps: every row carries the approved digests and a valid verdict, the first
  verdict of a request is permanent, and the check after the write reports too late to prevent it.
\<close>

section \<open>One recording\<close>

lemma verify_Inr:
  "verify_frozen_models_unmodified fs = Inr (rf, ae) \<Longrightarrow> rf = FROZEN_RF_EXPECTED_SHA256 \<and> ae = FROZEN_AE_EXPECTED_SHA256"
  by (auto simp: verify_frozen_models_unmodified_def bindE_eq_Inr requireE_def split: prod.splits if_splits)

lemma validate_Inr:
  "validate_feedback a = Inr s \<longleftrightarrow>
     py_strip (fa_transition_request_id a) \<noteq> [] \<and> py_strip (fa_alert_candidate_id a) \<noteq> [] \<and>
     py_strip (fa_stored_detector_decision a) \<noteq> [] \<and> fa_stored_score a = Some s \<and>
     fl_le (Fin 0) s \<and> fl_le s (Fin 1) \<and> fa_analyst_verified_outcome a \<in> set ALLOWED_VERIFIED_OUTCOMES \<and>
     valid_actor_id (fa_actor_id a)"
  by (auto simp: validate_feedback_def bindE_eq_Inr someE_def requireE_def split: option.splits if_splits)

lemma unit_interval: "fl_le (Fin 0) s \<Longrightarrow> fl_le s (Fin 1) \<Longrightarrow> \<exists>r. s = Fin r \<and> 0 \<le> r \<and> r \<le> 1"
  by (cases s) (auto simp: fl_le_def)

lemma micro_positive: "fl_less (Fin 0) (fl_round (1 / 10 ^ 6))"
proof -
  have "nearest53 (1 / 2 ^ 20) = 1 / 2 ^ 20"
    using nearest53_grid [of "1 / 2 ^ 20" 1 "- 20"] by (simp add: power_int_def field_simps)
  then have "1 / 2 ^ 20 \<le> nearest53 (1 / 10 ^ 6)" using nearest53_mono [of "1 / 2 ^ 20" "1 / 10 ^ 6"] by simp
  then have "0 < nearest53 (1 / 10 ^ 6)" by (rule less_le_trans [rotated]) simp
  moreover have "\<bar>1 / 10 ^ 6 :: rat\<bar> \<le> 2 ^ 1023" by simp
  ultimately show ?thesis by (simp only: fl_round_small fl_less.simps)
qed

lemma score_close_refl: "fl_less (fl_abs (fl_sub (Fin r) (Fin r))) (fl_round (1 / 10 ^ 6))"
  using micro_positive fl_round_small [of 0] by (simp add: fl_sub_def)

definition row_of :: "string \<Rightarrow> feedback_args \<Rightarrow> pyfloat \<Rightarrow> feedback_record" where
  "row_of now_iso a s = \<lparr>fb_transition_request_id = fa_transition_request_id a,
     fb_alert_candidate_id = fa_alert_candidate_id a,
     fb_stored_detector_decision = fa_stored_detector_decision a, fb_stored_score = s,
     fb_analyst_verified_outcome = fa_analyst_verified_outcome a, fb_actor_id = fa_actor_id a,
     fb_recorded_at_utc = feedback_timestamp now_iso a,
     fb_rf_model_sha256 = FROZEN_RF_EXPECTED_SHA256, fb_ae_model_sha256 = FROZEN_AE_EXPECTED_SHA256\<rparr>"

lemma row_of_own: "fa_stored_score a = Some (Fin r) \<Longrightarrow> same_feedback (row_of now_iso a (Fin r)) a (Fin r)"
  using score_close_refl by (simp add: same_feedback_def row_of_def)

text \<open>A recording that changes the table appends the row of its arguments under the approved digests.\<close>

lemma record_feedback_table:
  assumes "record_feedback before after fault now_iso t a = (t', res)"
  obtains (same) "t' = t"
  | (added) s where "t' = t @ [row_of now_iso a s]" "validate_feedback a = Inr s"
      "fa_transition_request_id a \<notin> set (map fb_transition_request_id t)"
      "verify_frozen_models_unmodified before = Inr (FROZEN_RF_EXPECTED_SHA256, FROZEN_AE_EXPECTED_SHA256)"
proof (cases "bindE (validate_feedback a) (\<lambda>s. bindE (verify_frozen_models_unmodified before) (\<lambda>pre. Inr (s, pre)))")
  case (Inl e)
  then show ?thesis using assms same by (simp add: record_feedback_def)
next
  case (Inr x)
  obtain s rf ae where x: "x = (s, rf, ae)" by (cases x)
  then have v: "validate_feedback a = Inr s" "verify_frozen_models_unmodified before = Inr (rf, ae)"
    using Inr by (auto simp: bindE_eq_Inr)
  have d: "rf = FROZEN_RF_EXPECTED_SHA256" "ae = FROZEN_AE_EXPECTED_SHA256" using verify_Inr [OF v(2)] by simp_all
  show ?thesis
  proof (cases "feedback_body fault t (row_of now_iso a s) a s")
    case (Inl e)
    then show ?thesis using assms same v d by (simp add: record_feedback_def row_of_def Let_def)
  next
    case out: (Inr y)
    show ?thesis
    proof (cases y)
      case (Inl r)
      then show ?thesis using assms out same v d by (simp add: record_feedback_def row_of_def Let_def)
    next
      case (Inr u)
      then have "u = t @ [row_of now_iso a s]" "fa_transition_request_id a \<notin> set (map fb_transition_request_id t)"
        using out by (auto simp: feedback_body_def insert_feedback_def row_of_def
            split: sqlite_fault.splits option.splits if_splits)
      moreover have "t' = u" using assms out Inr v d by (simp add: record_feedback_def row_of_def Let_def)
      ultimately show ?thesis using added v d by blast
    qed
  qed
qed

section \<open>The ledger as a machine\<close>

type_synonym feedback_command = "model_files \<times> model_files \<times> sqlite_fault \<times> string \<times> feedback_args"

definition feedback_step :: "feedback_record list \<Rightarrow> feedback_command \<Rightarrow> feedback_record list" where
  "feedback_step t c = (case c of (before, after, fault, now_iso, a) \<Rightarrow> fst (record_feedback before after fault now_iso t a))"

definition valid_feedback :: "feedback_record \<Rightarrow> bool" where
  "valid_feedback r \<longleftrightarrow> fb_rf_model_sha256 r = FROZEN_RF_EXPECTED_SHA256 \<and> fb_ae_model_sha256 r = FROZEN_AE_EXPECTED_SHA256 \<and>
     is_probability (fb_stored_score r) \<and> fb_analyst_verified_outcome r \<in> set ALLOWED_VERIFIED_OUTCOMES \<and>
     valid_actor_id (fb_actor_id r) \<and> py_strip (fb_alert_candidate_id r) \<noteq> []"

definition feedback_inv :: "feedback_record list \<Rightarrow> bool" where
  "feedback_inv t \<longleftrightarrow> distinct (map fb_transition_request_id t) \<and> list_all valid_feedback t"

lemma row_of_valid: "validate_feedback a = Inr s \<Longrightarrow> valid_feedback (row_of now_iso a s)"
  using unit_interval by (auto simp: valid_feedback_def row_of_def validate_Inr is_probability_iff)

lemma feedback_step_inv:
  assumes "feedback_inv t"
  shows "feedback_inv (feedback_step t c) \<and> prefix t (feedback_step t c)"
proof -
  obtain before after fault now_iso a where c: "c = (before, after, fault, now_iso, a)" by (cases c)
  obtain t' res where r: "record_feedback before after fault now_iso t a = (t', res)" by fastforce
  have "feedback_inv t' \<and> prefix t t'"
  proof (cases rule: record_feedback_table [OF r])
    case 1
    then show ?thesis using assms by simp
  next
    case (2 s)
    then show ?thesis using assms row_of_valid [OF 2(2)] by (auto simp: feedback_inv_def row_of_def)
  qed
  then show ?thesis by (simp add: feedback_step_def c r)
qed

interpretation feedback: monotone_machine feedback_step "\<lambda>t. t = []" feedback_inv prefix
  by unfold_locales (use feedback_step_inv in \<open>auto simp: feedback_inv_def\<close>)

lemma recorded_permanent:
  assumes "feedback_inv t" "r \<in> set t"
  shows "fetchone (\<lambda>x. fb_transition_request_id x = fb_transition_request_id r) (foldl feedback_step t cs) = Some r"
proof -
  have "distinct (map fb_transition_request_id (foldl feedback_step t cs))"
    using feedback.inv_run [OF assms(1)] by (simp add: feedback_inv_def)
  moreover have "r \<in> set (foldl feedback_step t cs)"
    using feedback.extends_run [OF assms(1)] assms(2) set_mono_prefix by blast
  ultimately show ?thesis by (rule fetchone_key_unique)
qed

section \<open>Properties\<close>

text \<open>Whatever the faults, the files and the arguments, every row the ledger ever holds was written
  while both frozen artifacts had their approved digests and carries them, with a score in the unit
  interval, a permitted verdict and a valid analyst; each request identifier has one row, and no
  recording removes or changes a row.\<close>

theorem feedback_rows_frozen:
  "list_all valid_feedback (foldl feedback_step [] cs) \<and>
   distinct (map fb_transition_request_id (foldl feedback_step [] cs)) \<and>
   prefix (foldl feedback_step [] cs) (feedback_step (foldl feedback_step [] cs) c)"
  using feedback.inv_from_start [OF refl, of cs] feedback_step_inv by (auto simp: feedback_inv_def)

text \<open>C30: The first verdict of a request is permanent: once a recording has answered that it created a
  row, every later state of the ledger returns that row for the request, and a repetition on a working
  engine with unmodified artifacts changes nothing: it is answered with the recorded time when it agrees
  with the first recording on the alert, the decision, the verdict, the analyst and the score up to a
  millionth, and refused as conflicting otherwise.\<close>

theorem feedback_recorded_once:
  fixes cs cs' :: "feedback_command list"
  assumes "record_feedback before after fault now_iso (foldl feedback_step [] cs) a = (t', Inr res)"
    "fr_status res = ''created''"
    "validate_feedback b = Inr s" "fa_transition_request_id b = fa_transition_request_id a"
    "verify_frozen_models_unmodified fs = Inr d"
  shows "let u = foldl feedback_step t' cs'; r = row_of now_iso a (the (fa_stored_score a)) in
    get_feedback No_fault u (fa_transition_request_id a) = Inr (Some r) \<and>
    record_feedback fs fs' No_fault now_iso' u b = (u,
      if fa_alert_candidate_id a = fa_alert_candidate_id b \<and>
         fa_stored_detector_decision a = fa_stored_detector_decision b \<and>
         fa_analyst_verified_outcome a = fa_analyst_verified_outcome b \<and> fa_actor_id a = fa_actor_id b \<and>
         fl_less (fl_abs (fl_sub (the (fa_stored_score a)) s)) (fl_round (1 / 10 ^ 6))
      then Inr \<lparr>fr_status = ''existing'', fr_transition_request_id = fa_transition_request_id a,
                fr_alert_candidate_id = fa_alert_candidate_id b,
                fr_analyst_verified_outcome = fa_analyst_verified_outcome b,
                fr_recorded_at_utc = fr_recorded_at_utc res, fr_digests = None\<rparr>
      else Inl FB_conflicting_feedback_retry)"
proof -
  let ?t = "foldl feedback_step [] cs"
  have inv: "feedback_inv ?t" by (rule feedback.inv_from_start) (rule refl)
  have "t' \<noteq> ?t \<and> fr_recorded_at_utc res = feedback_timestamp now_iso a"
    using assms(1,2)
    by (auto simp: record_feedback_def Let_def bindE_eq_Inr feedback_body_def insert_feedback_def
        split: sum.splits prod.splits option.splits sqlite_fault.splits if_splits)
  then have ts: "t' \<noteq> ?t" "fr_recorded_at_utc res = feedback_timestamp now_iso a" by simp_all
  obtain s' where s': "t' = ?t @ [row_of now_iso a s']" "validate_feedback a = Inr s'"
    by (cases rule: record_feedback_table [OF assms(1)]) (use ts(1) in auto)
  let ?r = "row_of now_iso a s'"
  have sc: "the (fa_stored_score a) = s'" using s'(2) by (simp add: validate_Inr)
  have "feedback_inv t'"
    using feedback_step_inv [OF inv, of "(before, after, fault, now_iso, a)"] assms(1) by (simp add: feedback_step_def)
  moreover have "?r \<in> set t'" using s'(1) by simp
  ultimately have "fetchone (\<lambda>x. fb_transition_request_id x = fb_transition_request_id ?r) (foldl feedback_step t' cs') = Some ?r"
    by (rule recorded_permanent)
  then have f: "fetchone (\<lambda>x. fb_transition_request_id x = fa_transition_request_id a) (foldl feedback_step t' cs') = Some ?r"
    by (simp add: row_of_def)
  obtain rf ae where d: "d = (rf, ae)" by (cases d)
  have g: "get_feedback No_fault (foldl feedback_step t' cs') (fa_transition_request_id a) = Inr (Some ?r)"
    using f by (simp add: get_feedback_def reading_feedback_def)
  have "record_feedback fs fs' No_fault now_iso' (foldl feedback_step t' cs') b = (foldl feedback_step t' cs',
      if same_feedback ?r b s
      then Inr \<lparr>fr_status = ''existing'', fr_transition_request_id = fa_transition_request_id a,
                fr_alert_candidate_id = fa_alert_candidate_id b,
                fr_analyst_verified_outcome = fa_analyst_verified_outcome b,
                fr_recorded_at_utc = fr_recorded_at_utc res, fr_digests = None\<rparr>
      else Inl FB_conflicting_feedback_retry)"
    unfolding record_feedback_def assms(3,5) d
    using f assms(4) ts(2) by (simp add: feedback_body_def Let_def row_of_def)
  moreover have "same_feedback ?r b s \<longleftrightarrow> fa_alert_candidate_id a = fa_alert_candidate_id b \<and>
      fa_stored_detector_decision a = fa_stored_detector_decision b \<and>
      fa_analyst_verified_outcome a = fa_analyst_verified_outcome b \<and> fa_actor_id a = fa_actor_id b \<and>
      fl_less (fl_abs (fl_sub (the (fa_stored_score a)) s)) (fl_round (1 / 10 ^ 6))"
    unfolding sc by (auto simp: same_feedback_def row_of_def)
  ultimately show ?thesis using g unfolding Let_def sc by simp
qed

definition sample_files :: model_files where
  "sample_files = \<lparr>mf_rf = File_digest FROZEN_RF_EXPECTED_SHA256, mf_rf_alias = Absent,
     mf_ae = Absent, mf_ae_alias = File_digest FROZEN_AE_EXPECTED_SHA256\<rparr>"

definition sample_feedback :: feedback_args where
  "sample_feedback = \<lparr>fa_transition_request_id = ''req-1'', fa_alert_candidate_id = ''alert-1'',
     fa_stored_detector_decision = ''Attack'', fa_stored_score = Some (Fin (3 / 4)),
     fa_analyst_verified_outcome = ''false_positive'', fa_actor_id = ''ana'', fa_recorded_at_utc = None\<rparr>"

lemma sample_files_ok: "verify_frozen_models_unmodified sample_files = Inr (FROZEN_RF_EXPECTED_SHA256, FROZEN_AE_EXPECTED_SHA256)"
  by (simp add: verify_frozen_models_unmodified_def select_artifact_def compute_sha256_def sample_files_def)

lemma sample_feedback_ok:
  "validate_feedback sample_feedback = Inr (Fin (3 / 4))"
  "validate_feedback (sample_feedback\<lparr>fa_analyst_verified_outcome := ''confirmed_threat''\<rparr>) = Inr (Fin (3 / 4))"
proof -
  have "py_strip ''req-1'' \<noteq> []" "py_strip ''alert-1'' \<noteq> []" "py_strip ''Attack'' \<noteq> []" "valid_actor_id ''ana''"
    by code_simp+
  then show "validate_feedback sample_feedback = Inr (Fin (3 / 4))"
    "validate_feedback (sample_feedback\<lparr>fa_analyst_verified_outcome := ''confirmed_threat''\<rparr>) = Inr (Fin (3 / 4))"
    by (simp_all add: validate_Inr sample_feedback_def ALLOWED_VERIFIED_OUTCOMES_def)
qed

theorem feedback_recorded_once_witness:
  "snd (record_feedback sample_files sample_files No_fault ''later''
     (fst (record_feedback sample_files sample_files No_fault ''now'' (foldl feedback_step [] []) sample_feedback))
     (sample_feedback\<lparr>fa_analyst_verified_outcome := ''confirmed_threat''\<rparr>)) = Inl FB_conflicting_feedback_retry"
proof -
  obtain t' res where r: "record_feedback sample_files sample_files No_fault ''now'' (foldl feedback_step [] []) sample_feedback = (t', Inr res)"
      "fr_status res = ''created''"
    unfolding record_feedback_def sample_feedback_ok sample_files_ok
    by (simp add: feedback_body_def insert_feedback_def Let_def sample_feedback_def requireE_def)
  have "fa_analyst_verified_outcome sample_feedback \<noteq> ''confirmed_threat''" by (simp add: sample_feedback_def)
  with feedback_recorded_once [OF r sample_feedback_ok(2) _ sample_files_ok, of "[]" sample_files "''later''"]
  show ?thesis using r(1) by (simp add: Let_def)
qed

text \<open>The dedicated drift error is never raised: both checks accept only the approved digests.\<close>

lemma drift_error_unreachable:
  "snd (record_feedback before after fault now_iso t a) \<noteq> Inl FB_online_weight_drift_detected"
proof -
  have v: "validate_feedback a \<noteq> Inl FB_online_weight_drift_detected"
    by (auto simp: validate_feedback_def bindE_eq_Inl requireE_def someE_def split: option.splits if_splits)
  have m: "verify_frozen_models_unmodified fs \<noteq> Inl FB_online_weight_drift_detected" for fs
    by (auto simp: verify_frozen_models_unmodified_def bindE_eq_Inl requireE_def compute_sha256_def
        split: prod.splits artifact.splits if_splits)
  have b: "feedback_body fault t new a s \<noteq> Inl FB_online_weight_drift_detected" for new s
    by (auto simp: feedback_body_def split: sqlite_fault.splits option.splits)
  show ?thesis
    using v m b verify_Inr
    by (auto simp: record_feedback_def Let_def bindE_eq_Inl bindE_eq_Inr requireE_def split: sum.splits prod.splits if_splits)
      (metis verify_Inr)+
qed

text \<open>The check after the write cannot prevent it: when an artifact changes while the feedback is
  recorded, the caller receives an error but the row is stored, and a repetition after the artifact is
  restored is answered as already recorded.\<close>

theorem drift_reported_after_commit:
  assumes "validate_feedback a = Inr s" "verify_frozen_models_unmodified before = Inr d"
    "verify_frozen_models_unmodified after = Inl e" "fetchone (\<lambda>r. fb_transition_request_id r = fa_transition_request_id a) t = None"
  shows "record_feedback before after No_fault now_iso t a = (t @ [row_of now_iso a s], Inl e) \<and>
    fst (record_feedback before fs No_fault now' (t @ [row_of now_iso a s]) a) = t @ [row_of now_iso a s] \<and>
    (\<exists>res. snd (record_feedback before fs No_fault now' (t @ [row_of now_iso a s]) a) = Inr res \<and> fr_status res = ''existing'')"
proof -
  obtain rf ae where d: "d = (rf, ae)" by (cases d)
  have dig: "rf = FROZEN_RF_EXPECTED_SHA256" "ae = FROZEN_AE_EXPECTED_SHA256" using verify_Inr assms(2) d by blast+
  have fresh: "fa_transition_request_id a \<notin> set (map fb_transition_request_id t)"
    using assms(4) by (auto simp: fetchone_None_iff)
  obtain r where "s = Fin r" using assms(1) unit_interval by (auto simp: validate_Inr)
  then have same: "same_feedback (row_of now_iso a s) a s" using row_of_own assms(1) by (simp add: validate_Inr)
  have out: "fa_analyst_verified_outcome a \<in> set [''confirmed_threat'', ''false_positive'']"
    using assms(1) by (simp add: validate_Inr ALLOWED_VERIFIED_OUTCOMES_def)
  have 1: "record_feedback before after No_fault now_iso t a = (t @ [row_of now_iso a s], Inl e)"
    unfolding record_feedback_def assms(1,2,3) d dig
    using fresh out assms(4) by (simp add: feedback_body_def insert_feedback_def row_of_def Let_def)
  have f: "fetchone (\<lambda>r. fb_transition_request_id r = fa_transition_request_id a) (t @ [row_of now_iso a s]) = Some (row_of now_iso a s)"
    using assms(4) by (simp add: fetchone_append row_of_def)
  have "record_feedback before fs No_fault now' (t @ [row_of now_iso a s]) a = (t @ [row_of now_iso a s],
      Inr \<lparr>fr_status = ''existing'', fr_transition_request_id = fa_transition_request_id a,
                fr_alert_candidate_id = fa_alert_candidate_id a,
                fr_analyst_verified_outcome = fa_analyst_verified_outcome a,
                fr_recorded_at_utc = fb_recorded_at_utc (row_of now_iso a s), fr_digests = None\<rparr>)"
    unfolding record_feedback_def assms(1,2) d using f same by (simp add: feedback_body_def Let_def)
  with 1 show ?thesis by simp
qed

theorem drift_reported_after_commit_witness:
  "fst (record_feedback sample_files (sample_files\<lparr>mf_rf := File_digest ''00''\<rparr>) No_fault ''now'' [] sample_feedback) \<noteq> [] \<and>
   snd (record_feedback sample_files (sample_files\<lparr>mf_rf := File_digest ''00''\<rparr>) No_fault ''now'' [] sample_feedback) =
     Inl FB_frozen_rf_digest_mismatch"
proof -
  have "verify_frozen_models_unmodified (sample_files\<lparr>mf_rf := File_digest ''00''\<rparr>) = Inl FB_frozen_rf_digest_mismatch"
    by (simp add: verify_frozen_models_unmodified_def select_artifact_def compute_sha256_def sample_files_def
        FROZEN_RF_EXPECTED_SHA256_def requireE_def)
  from drift_reported_after_commit [OF sample_feedback_ok(1) sample_files_ok this, of "[]" "''now''"] show ?thesis by simp
qed

end
