(* ===== verification/Transport.thy ===== *)
theory Transport
  imports Response
begin

text \<open>
  The staged TLS transport of the producer (\<^verbatim>\<open>api/producer_tls_transport.py\<close>): the strict parser of the
  request head, the connection as a state machine with one rotating capability per stage, its bounded
  reads under an idle and a total deadline, the single response and the authenticated accept.  The
  socket, the clock, the random tokens and the result of the TLS handshake are functions of the number
  of readings made before.
\<close>

section \<open>Errors and constants\<close>

record tls_error =
  tx_code :: string
  tx_status :: nat
  tx_reason :: string

definition tls_failure :: "string \<Rightarrow> nat \<Rightarrow> string \<Rightarrow> tls_error" where
  "tls_failure code status reason = \<lparr>tx_code = code, tx_status = status, tx_reason = reason\<rparr>"

abbreviation bad_request :: "string \<Rightarrow> tls_error" where
  "bad_request code \<equiv> tls_failure code 400 code"

abbreviation internal_500 :: "string \<Rightarrow> tls_error" where
  "internal_500 code \<equiv> tls_failure code 500 ''internal_failure''"

abbreviation internal_503 :: "string \<Rightarrow> tls_error" where
  "internal_503 code \<equiv> tls_failure code 503 ''internal_failure''"

abbreviation timeout_408 :: "string \<Rightarrow> tls_error" where
  "timeout_408 code \<equiv> tls_failure code 408 ''request_timeout''"

abbreviation LOOPBACK_BIND_HOST :: string where "LOOPBACK_BIND_HOST \<equiv> ''127.0.0.1''"
abbreviation TRANSPORT_REQUEST_METHOD :: string where "TRANSPORT_REQUEST_METHOD \<equiv> ''POST''"
abbreviation TRANSPORT_REQUEST_TARGET :: string where "TRANSPORT_REQUEST_TARGET \<equiv> ''/v1/producer-events''"
abbreviation TRANSPORT_HTTP_VERSION :: string where "TRANSPORT_HTTP_VERSION \<equiv> ''HTTP/1.1''"
abbreviation TRANSPORT_HOST :: string where "TRANSPORT_HOST \<equiv> ''threatfusion-loopback''"

definition MAX_REQUEST_LINE_BYTES :: nat where "MAX_REQUEST_LINE_BYTES = 512"
definition MAX_HEADER_FIELDS :: nat where "MAX_HEADER_FIELDS = 32"
definition MAX_HEADER_BYTES :: nat where "MAX_HEADER_BYTES = 16384"
definition MAX_HEADER_NAME_BYTES :: nat where "MAX_HEADER_NAME_BYTES = 64"
definition MAX_HEADER_VALUE_BYTES :: nat where "MAX_HEADER_VALUE_BYTES = 1024"
definition SOCKET_READ_CHUNK_BYTES :: nat where "SOCKET_READ_CHUNK_BYTES = 8192"

definition REQUEST_LINE :: string where
  "REQUEST_LINE = TRANSPORT_REQUEST_METHOD @ '' '' @ TRANSPORT_REQUEST_TARGET @ '' '' @ TRANSPORT_HTTP_VERSION"

definition REQUIRED_HEADERS :: "string list" where
  "REQUIRED_HEADERS = [''host'', ''content-type'', ''content-length'', ''connection'']"

definition PROHIBITED_HEADERS :: "string list" where
  "PROHIBITED_HEADERS = [''transfer-encoding'', ''content-encoding'', ''trailer'', ''upgrade'', ''keep-alive'',
     ''proxy-connection'', ''expect'', ''te'']"

definition RESPONSE_STATUS :: "(string \<times> nat \<times> string) list" where
  "RESPONSE_STATUS =
    [(''request_completed'', 200, ''OK''), (''request_rejected'', 400, ''Bad Request''),
     (''request_in_progress'', 409, ''Conflict''), (''request_replay_rejected'', 409, ''Conflict''),
     (''outcome_unknown'', 503, ''Service Unavailable''), (''alert_candidate_created'', 200, ''OK''),
     (''alert_candidate_already_exists'', 200, ''OK''), (''alert_candidate_identity_conflict'', 409, ''Conflict''),
     (''inference_not_actionable'', 200, ''OK''), (''registered_event_invalid'', 400, ''Bad Request''),
     (''registered_event_unavailable'', 503, ''Service Unavailable''), (''registered_event_rejected'', 400, ''Bad Request''),
     (''rate_limited'', 429, ''Too Many Requests''), (''server_busy'', 429, ''Too Many Requests''),
     (''audit_unavailable'', 503, ''Service Unavailable''), (''internal_error'', 503, ''Service Unavailable''),
     (''processing_timeout'', 503, ''Service Unavailable''), (''inference_rejected'', 400, ''Bad Request'')]"

abbreviation CR :: char where "CR \<equiv> CHR 0x0D"
abbreviation LF :: char where "LF \<equiv> CHR 0x0A"
abbreviation CRLF :: string where "CRLF \<equiv> [CR, LF]"

section \<open>The request head\<close>

record request_head_v1 =
  vh_method :: string
  vh_target :: string
  vh_http_version :: string
  vh_host :: string
  vh_content_type :: string
  vh_content_length :: nat
  vh_connection :: string
  vh_header_count :: nat
  vh_total_header_bytes :: nat

definition make_request_head :: "request_head_v1 \<Rightarrow> tls_error + request_head_v1" where
  "make_request_head h =
     (if vh_method h \<noteq> TRANSPORT_REQUEST_METHOD \<or> vh_target h \<noteq> TRANSPORT_REQUEST_TARGET \<or>
         vh_http_version h \<noteq> TRANSPORT_HTTP_VERSION \<or> vh_host h \<noteq> TRANSPORT_HOST \<or>
         vh_content_type h \<noteq> JSON_CONTENT_TYPE \<or>
         \<not> (1 \<le> vh_content_length h \<and> vh_content_length h \<le> MAX_REQUEST_BODY_BYTES) \<or>
         vh_connection h \<noteq> ''close'' \<or>
         \<not> (length REQUIRED_HEADERS \<le> vh_header_count h \<and> vh_header_count h \<le> MAX_HEADER_FIELDS) \<or>
         \<not> (1 \<le> vh_total_header_bytes h \<and> vh_total_header_bytes h \<le> MAX_HEADER_BYTES)
      then Inl (bad_request ''request_head_invalid'') else Inr h)"

definition ends_with :: "string \<Rightarrow> string \<Rightarrow> bool" where
  "ends_with p s \<longleftrightarrow> length p \<le> length s \<and> drop (length s - length p) s = p"

definition validate_plain_framing :: "string \<Rightarrow> bool" where
  "validate_plain_framing b \<longleftrightarrow> list_all (\<lambda>i.
     \<not> (b ! i = LF \<and> (i = 0 \<or> b ! (i - 1) \<noteq> CR)) \<and>
     \<not> (b ! i = CR \<and> i + 1 < length b \<and> b ! (i + 1) \<noteq> LF)) [0..<length b]"

text \<open>\<^verbatim>\<open>bytes.split(b"\r\n")\<close>, and \<^verbatim>\<open>line.split(b": ", 1)\<close> where \<^verbatim>\<open>b": "\<close> occurs.\<close>

fun cons_head :: "char \<Rightarrow> string list \<Rightarrow> string list" where
  "cons_head c (l # ls) = (c # l) # ls"
| "cons_head c [] = [[c]]"

fun split_crlf :: "string \<Rightarrow> string list" where
  "split_crlf [] = [[]]"
| "split_crlf [c] = [[c]]"
| "split_crlf (c # d # s) =
     (if c = CR \<and> d = LF then [] # split_crlf s else cons_head c (split_crlf (d # s)))"

fun split_field :: "string \<Rightarrow> (string \<times> string) option" where
  "split_field (c # d # s) =
     (if c = CHR '':'' \<and> d = CHR '' '' then Some ([], s)
      else map_option (\<lambda>(n, v). (c # n, v)) (split_field (d # s)))"
| "split_field _ = None"

definition header_name_char :: "char \<Rightarrow> bool" where
  "header_name_char c \<longleftrightarrow> is_digit c \<or> is_upper_alpha c \<or> is_lower_alpha c \<or>
     c \<in> set [CHR ''!'', CHR ''#'', CHR ''$'', CHR ''%'', CHR ''&'', CHR 0x27, CHR ''*'', CHR ''+'', CHR ''-'',
       CHR ''.'', CHR ''^'', CHR ''_'', CHR 0x60, CHR ''|'', CHR ''~'']"

definition is_header_name :: "string \<Rightarrow> bool" where
  "is_header_name s \<longleftrightarrow> s \<noteq> [] \<and> list_all header_name_char s"

abbreviation blank_byte :: "char \<Rightarrow> bool" where
  "blank_byte c \<equiv> c = CHR '' '' \<or> c = CHR 0x09"

definition header_value_ok :: "string \<Rightarrow> string \<Rightarrow> bool" where
  "header_value_ok canonical_name value \<longleftrightarrow>
     length value \<le> MAX_HEADER_VALUE_BYTES \<and> list_all (\<lambda>c. 32 \<le> (of_char c :: nat) \<and> (of_char c :: nat) \<le> 126) value \<and>
     (canonical_name \<noteq> ''content-length'' \<longrightarrow>
        value \<noteq> [] \<and> \<not> blank_byte (hd value) \<and> \<not> blank_byte (last value))"

text \<open>One iteration of the loop over the header lines; the dictionary is an association list.\<close>

definition parse_header_line :: "(string \<times> string) list \<Rightarrow> string \<Rightarrow> tls_error + (string \<times> string) list" where
  "parse_header_line parsed line =
     (if line = [] \<or> blank_byte (hd line) then Inl (bad_request ''request_header_invalid'')
      else case split_field line of
        None \<Rightarrow> Inl (bad_request ''request_header_invalid'')
      | Some (name, value) \<Rightarrow>
          if \<not> (1 \<le> length name \<and> length name \<le> MAX_HEADER_NAME_BYTES) \<or> \<not> is_header_name name
          then Inl (bad_request ''request_header_invalid'')
          else (let canonical_name = py_lower name in
            if \<not> header_value_ok canonical_name value then Inl (bad_request ''request_header_invalid'')
            else if canonical_name \<in> set (map fst parsed) then Inl (bad_request ''duplicate_header'')
            else if canonical_name \<in> set PROHIBITED_HEADERS then Inl (bad_request ''unsupported_header'')
            else Inr (parsed @ [(canonical_name, value)])))"

fun parse_header_lines :: "(string \<times> string) list \<Rightarrow> string list \<Rightarrow> tls_error + (string \<times> string) list" where
  "parse_header_lines parsed [] = Inr parsed"
| "parse_header_lines parsed (line # lines) =
     bindE (parse_header_line parsed line) (\<lambda>parsed'. parse_header_lines parsed' lines)"

definition is_content_length :: "string \<Rightarrow> bool" where
  "is_content_length s \<longleftrightarrow> s = ''0'' \<or> (s \<noteq> [] \<and> list_all is_digit s \<and> hd s \<noteq> CHR ''0'')"

definition header_of :: "(string \<times> string) list \<Rightarrow> string \<Rightarrow> string" where
  "header_of parsed k = the (map_of parsed k)"

definition check_headers :: "(string \<times> string) list \<Rightarrow> tls_error + nat" where
  "check_headers parsed =
     bindE (requireE (set REQUIRED_HEADERS \<subseteq> set (map fst parsed)) (bad_request ''required_header_missing'')) (\<lambda>_.
     bindE (requireE (header_of parsed ''host'' = TRANSPORT_HOST) (bad_request ''host_invalid'')) (\<lambda>_.
     bindE (requireE (header_of parsed ''content-type'' = JSON_CONTENT_TYPE) (bad_request ''content_type_invalid'')) (\<lambda>_.
     bindE (requireE (py_lower (header_of parsed ''connection'') = ''close'') (bad_request ''connection_mode_invalid'')) (\<lambda>_.
     bindE (requireE (is_content_length (header_of parsed ''content-length'')) (bad_request ''content_length_invalid'')) (\<lambda>_.
       let content_length = nat_of_dec (header_of parsed ''content-length'') in
       if content_length = 0 then Inl (bad_request ''empty_body'')
       else if MAX_REQUEST_BODY_BYTES < content_length
       then Inl (tls_failure ''request_too_large'' 413 ''request_too_large'')
       else Inr content_length)))))"

definition parse_request_head :: "string \<Rightarrow> tls_error + request_head_v1" where
  "parse_request_head raw =
     (if \<not> ends_with (CRLF @ CRLF) raw then Inl (bad_request ''request_framing_invalid'')
      else if MAX_HEADER_BYTES < length raw
      then Inl (tls_failure ''request_headers_too_large'' 431 ''request_headers_too_large'')
      else if \<not> validate_plain_framing raw then Inl (bad_request ''request_framing_invalid'')
      else (let lines = split_crlf (take (length raw - 4) raw) in
        if lines = [] \<or> MAX_REQUEST_LINE_BYTES < length (hd lines) then Inl (bad_request ''request_line_too_large'')
        else if hd lines \<noteq> REQUEST_LINE then Inl (bad_request ''request_line_invalid'')
        else (let header_lines = tl lines in
          if \<not> (1 \<le> length header_lines \<and> length header_lines \<le> MAX_HEADER_FIELDS)
          then Inl (tls_failure ''request_header_count_invalid'' 431 ''request_header_count_invalid'')
          else bindE (parse_header_lines [] header_lines) (\<lambda>parsed.
            bindE (check_headers parsed) (\<lambda>content_length.
              make_request_head \<lparr>vh_method = TRANSPORT_REQUEST_METHOD, vh_target = TRANSPORT_REQUEST_TARGET,
                vh_http_version = TRANSPORT_HTTP_VERSION, vh_host = TRANSPORT_HOST,
                vh_content_type = JSON_CONTENT_TYPE, vh_content_length = content_length, vh_connection = ''close'',
                vh_header_count = length header_lines, vh_total_header_bytes = length raw\<rparr>)))))"

section \<open>Connections\<close>

abbreviation STATE_AUTHENTICATED :: string where "STATE_AUTHENTICATED \<equiv> ''authenticated''"
abbreviation STATE_HEAD_VALIDATED :: string where "STATE_HEAD_VALIDATED \<equiv> ''head_validated''"
abbreviation STATE_BODY_READ :: string where "STATE_BODY_READ \<equiv> ''body_read''"
abbreviation STATE_CLOSED :: string where "STATE_CLOSED \<equiv> ''closed''"

record transport_capability =
  tp_connection_id :: string
  tp_stage :: string
  tp_ownership_token :: string

text \<open>What \<^verbatim>\<open>recv\<close> does: bytes, a timeout, or another socket or TLS error.\<close>

datatype recv_outcome = Recv_bytes string | Recv_timeout | Recv_error

record tls_env =
  tv_clock :: "nat \<Rightarrow> pyfloat option"
  tv_recv :: "nat \<Rightarrow> nat \<Rightarrow> recv_outcome"
  tv_pending :: "nat \<Rightarrow> nat option"
  tv_send_ok :: "nat \<Rightarrow> bool"
  tv_token :: "nat \<Rightarrow> string"
  tv_read_total :: pyfloat
  tv_read_idle :: pyfloat
  tv_fparse :: "string \<Rightarrow> pyfloat"
  tv_frepr :: "pyfloat \<Rightarrow> string"

text \<open>
  The fields of a connection, whether its socket is open, the messages handed to \<^verbatim>\<open>sendall\<close>, and the
  number of readings made from outside.
\<close>

record tls_connection =
  tc_connection_id :: string
  tc_stage :: string
  tc_token_sha256 :: "string option"
  tc_head :: "request_head_v1 option"
  tc_read_started :: "pyfloat option"
  tc_last_progress :: "pyfloat option"
  tc_open :: bool
  tc_sent :: "string list"
  tc_tick :: nat

definition new_connection :: "string \<Rightarrow> nat \<Rightarrow> tls_connection" where
  "new_connection connection_id n = \<lparr>tc_connection_id = connection_id, tc_stage = STATE_AUTHENTICATED,
     tc_token_sha256 = None, tc_head = None, tc_read_started = None, tc_last_progress = None,
     tc_open = True, tc_sent = [], tc_tick = n\<rparr>"

type_synonym 'a conn = "tls_connection \<Rightarrow> tls_connection \<times> (tls_error + 'a)"

definition returnC :: "'a \<Rightarrow> 'a conn" where "returnC x = (\<lambda>c. (c, Inr x))"
definition raiseC :: "tls_error \<Rightarrow> 'a conn" where "raiseC e = (\<lambda>c. (c, Inl e))"

definition bindC :: "'a conn \<Rightarrow> ('a \<Rightarrow> 'b conn) \<Rightarrow> 'b conn" where
  "bindC m f = (\<lambda>c. case m c of (c', Inl e) \<Rightarrow> (c', Inl e) | (c', Inr x) \<Rightarrow> f x c')"

definition liftC :: "tls_error + 'a \<Rightarrow> 'a conn" where "liftC r = (\<lambda>c. (c, r))"

definition updC :: "(tls_connection \<Rightarrow> tls_connection) \<Rightarrow> unit conn" where "updC f = (\<lambda>c. (f c, Inr ()))"

definition readC :: "(nat \<Rightarrow> 'a) \<Rightarrow> 'a conn" where
  "readC f = (\<lambda>c. (c\<lparr>tc_tick := Suc (tc_tick c)\<rparr>, Inr (f (tc_tick c))))"

definition monotonic_value :: "tls_env \<Rightarrow> pyfloat conn" where
  "monotonic_value env = bindC (readC (tv_clock env)) (\<lambda>v. case v of
     None \<Rightarrow> raiseC (internal_503 ''monotonic_clock_invalid'')
   | Some value \<Rightarrow> if fl_le (Fin 0) value \<and> fl_less value PosInf then returnC value
       else raiseC (internal_503 ''monotonic_clock_invalid''))"

definition remaining_time :: "pyfloat \<Rightarrow> pyfloat \<Rightarrow> pyfloat \<Rightarrow> tls_error + pyfloat" where
  "remaining_time now started limit = (let remaining = fl_sub limit (fl_sub now started) in
     if fl_le remaining (Fin 0) then Inl (timeout_408 ''request_total_timeout'') else Inr remaining)"

definition new_capability :: "tls_env \<Rightarrow> transport_capability conn" where
  "new_capability env = bindC (readC (tv_token env)) (\<lambda>token c.
     (c\<lparr>tc_token_sha256 := Some (sha256_hex token)\<rparr>,
      Inr \<lparr>tp_connection_id = tc_connection_id c, tp_stage = tc_stage c, tp_ownership_token = token\<rparr>))"

definition initial_capability :: "tls_env \<Rightarrow> transport_capability conn" where
  "initial_capability env = (\<lambda>c.
     if tc_token_sha256 c \<noteq> None \<or> tc_stage c \<noteq> STATE_AUTHENTICATED
     then (c, Inl (internal_500 ''connection_state_invalid'')) else new_capability env c)"

definition require_transport :: "tls_connection \<Rightarrow> transport_capability \<Rightarrow> string list \<Rightarrow> bool" where
  "require_transport c cap stages \<longleftrightarrow> tp_stage cap \<in> set stages \<and> tp_stage cap = tc_stage c \<and>
     is_uuid4 (tp_connection_id cap) \<and> tp_connection_id cap = tc_connection_id c \<and>
     is_b64url_32 (tp_ownership_token cap) \<and> tc_token_sha256 c = Some (sha256_hex (tp_ownership_token cap))"

definition abort_conn :: "tls_connection \<Rightarrow> tls_connection" where
  "abort_conn c = c\<lparr>tc_token_sha256 := None, tc_stage := STATE_CLOSED, tc_open := False\<rparr>"

text \<open>\<^verbatim>\<open>except ProducerTlsTransportError: self._abort(); raise\<close>\<close>

definition abort_on_error :: "'a conn \<Rightarrow> 'a conn" where
  "abort_on_error m = (\<lambda>c. case m c of (c', Inl e) \<Rightarrow> (abort_conn c', Inl e) | r \<Rightarrow> r)"

definition guarded_conn :: "transport_capability \<Rightarrow> string list \<Rightarrow> 'a conn \<Rightarrow> 'a conn" where
  "guarded_conn cap stages m = (\<lambda>c.
     if require_transport c cap stages then m c
     else (abort_conn c, Inl (internal_500 ''connection_capability_invalid'')))"

section \<open>Reading\<close>

definition read_timeout :: "tls_env \<Rightarrow> pyfloat conn" where
  "read_timeout env = bindC (monotonic_value env) (\<lambda>now c.
     let c1 = (if tc_read_started c = None then c\<lparr>tc_read_started := Some now, tc_last_progress := Some now\<rparr> else c) in
     case remaining_time now (the (tc_read_started c1)) (tv_read_total env) of
       Inl e \<Rightarrow> (c1, Inl e)
     | Inr _ \<Rightarrow>
         if fl_le (fl_sub (tv_read_idle env) (fl_sub now (the (tc_last_progress c1)))) (Fin 0)
         then (c1, Inl (timeout_408 ''request_idle_timeout'')) else (c1, Inr now))"

text \<open>\<^verbatim>\<open>_recv\<close>: a failed read is an empty chunk; progress is recorded after a non-empty one.\<close>

definition recv_timed_out :: "tls_env \<Rightarrow> string conn" where
  "recv_timed_out env = bindC (readC (tv_clock env)) (\<lambda>v c. case v of
     None \<Rightarrow> (c, Inl (internal_503 ''monotonic_clock_invalid''))
   | Some now \<Rightarrow>
       if (case tc_read_started c of None \<Rightarrow> False | Some s \<Rightarrow> fl_le (tv_read_total env) (fl_sub now s))
       then (c, Inl (timeout_408 ''request_total_timeout'')) else (c, Inl (timeout_408 ''request_idle_timeout'')))"

definition recv_progress :: "tls_env \<Rightarrow> pyfloat \<Rightarrow> string \<Rightarrow> string conn" where
  "recv_progress env before chunk = bindC (monotonic_value env) (\<lambda>after c.
     if fl_less after before then (c, Inl (internal_503 ''monotonic_clock_invalid''))
     else case remaining_time after (the (tc_read_started c)) (tv_read_total env) of
       Inl e \<Rightarrow> (c, Inl e)
     | Inr _ \<Rightarrow> (c\<lparr>tc_last_progress := Some after\<rparr>, Inr chunk))"

definition recv_chunk :: "tls_env \<Rightarrow> nat \<Rightarrow> string conn" where
  "recv_chunk env n_bytes = bindC (read_timeout env) (\<lambda>before.
     bindC (readC (\<lambda>n. tv_recv env n n_bytes)) (\<lambda>out. case out of
       Recv_timeout \<Rightarrow> recv_timed_out env
     | Recv_error \<Rightarrow> returnC []
     | Recv_bytes chunk \<Rightarrow> if chunk = [] then returnC [] else recv_progress env before chunk))"

definition contains_crlf :: "string \<Rightarrow> bool" where
  "contains_crlf s \<longleftrightarrow> 1 < length (split_crlf s)"

text \<open>The checks after each chunk of the head.\<close>

definition head_progress :: "string \<Rightarrow> tls_error option" where
  "head_progress raw =
     (if \<not> validate_plain_framing raw then Some (bad_request ''request_framing_invalid'')
      else if \<not> contains_crlf raw \<and> MAX_REQUEST_LINE_BYTES + 2 < length raw then Some (bad_request ''request_line_too_large'')
      else if MAX_HEADER_BYTES < length raw
      then Some (tls_failure ''request_headers_too_large'' 431 ''request_headers_too_large'') else None)"

function head_loop :: "tls_env \<Rightarrow> string \<Rightarrow> tls_connection \<Rightarrow> tls_connection \<times> (tls_error + string)" where
  "head_loop env raw c =
     (if ends_with (CRLF @ CRLF) raw then (c, Inr raw)
      else case recv_chunk env 1 c of
        (c', Inl e) \<Rightarrow> (c', Inl e)
      | (c', Inr chunk) \<Rightarrow>
          if chunk = [] then (c', Inl (bad_request ''request_head_incomplete''))
          else (case head_progress (raw @ chunk) of
              Some e \<Rightarrow> (c', Inl e)
            | None \<Rightarrow> head_loop env (raw @ chunk) c'))"
  by auto

termination
  by (relation "measure (\<lambda>(env, raw, c). Suc MAX_HEADER_BYTES - length raw)")
    (auto simp: head_progress_def neq_Nil_conv split: if_splits)

definition read_request_head ::
  "tls_env \<Rightarrow> transport_capability \<Rightarrow> (request_head_v1 \<times> transport_capability) conn" where
  "read_request_head env cap = guarded_conn cap [STATE_AUTHENTICATED] (abort_on_error (
     bindC (head_loop env []) (\<lambda>raw.
     bindC (liftC (parse_request_head raw)) (\<lambda>head.
     bindC (updC (\<lambda>c. c\<lparr>tc_head := Some head, tc_stage := STATE_HEAD_VALIDATED\<rparr>)) (\<lambda>_.
     bindC (new_capability env) (\<lambda>cap'. returnC (head, cap')))))))"

function body_loop :: "tls_env \<Rightarrow> nat \<Rightarrow> string \<Rightarrow> tls_connection \<Rightarrow> tls_connection \<times> (tls_error + string)" where
  "body_loop env remaining acc c =
     (if remaining = 0 then (c, Inr acc)
      else case recv_chunk env (min SOCKET_READ_CHUNK_BYTES (remaining + 1)) c of
        (c', Inl e) \<Rightarrow> (c', Inl e)
      | (c', Inr chunk) \<Rightarrow>
          if chunk = [] then (c', Inl (bad_request ''body_incomplete''))
          else if remaining < length chunk then (c', Inl (bad_request ''unexpected_trailing_data''))
          else body_loop env (remaining - length chunk) (acc @ chunk) c')"
  by auto

termination
  by (relation "measure (\<lambda>(env, remaining, acc, c). remaining)") (auto simp: neq_Nil_conv)

definition check_pending :: "tls_env \<Rightarrow> unit conn" where
  "check_pending env = bindC (readC (tv_pending env)) (\<lambda>p. case p of
     None \<Rightarrow> raiseC (bad_request ''request_read_failed'')
   | Some n \<Rightarrow> if n \<noteq> 0 then raiseC (bad_request ''unexpected_trailing_data'') else returnC ())"

definition read_body :: "tls_env \<Rightarrow> transport_capability \<Rightarrow> (string \<times> transport_capability) conn" where
  "read_body env cap = guarded_conn cap [STATE_HEAD_VALIDATED] (\<lambda>c. case tc_head c of
     None \<Rightarrow> (abort_conn c, Inl (internal_500 ''connection_state_invalid''))
   | Some head \<Rightarrow> abort_on_error (
       bindC (body_loop env (vh_content_length head) []) (\<lambda>body.
       bindC (check_pending env) (\<lambda>_.
       bindC (updC (\<lambda>c. c\<lparr>tc_stage := STATE_BODY_READ\<rparr>)) (\<lambda>_.
       bindC (new_capability env) (\<lambda>cap'. returnC (body, cap')))))) c)"

section \<open>Writing and closing\<close>

definition GENERIC_INTERNAL_BODY :: string where
  "GENERIC_INTERNAL_BODY = json_dumps (\<lambda>_. []) (JObj [(''reason'', JStr ''internal_failure''),
     (''schema_version'', JStr ''producer_transport_response_v1''), (''status'', JStr ''unavailable'')]) @ [LF]"

definition response_wire :: "string \<Rightarrow> nat \<Rightarrow> string \<Rightarrow> string" where
  "response_wire body status_code phrase =
     ''HTTP/1.1 '' @ dec_digits status_code @ '' '' @ phrase @ CRLF @
     ''Content-Type: '' @ JSON_CONTENT_TYPE @ CRLF @
     ''Content-Length: '' @ dec_digits (length body) @ CRLF @
     ''Connection: close'' @ CRLF @ CRLF @ body"

definition send_wire :: "tls_env \<Rightarrow> string \<Rightarrow> unit conn" where
  "send_wire env wire = bindC (monotonic_value env) (\<lambda>started.
     bindC (monotonic_value env) (\<lambda>now.
     bindC (liftC (remaining_time now started (Fin 5))) (\<lambda>_.
     bindC (updC (\<lambda>c. c\<lparr>tc_sent := tc_sent c @ [wire]\<rparr>)) (\<lambda>_.
     bindC (readC (tv_send_ok env)) (\<lambda>ok.
       if ok then returnC () else raiseC (internal_503 ''response_write_failed''))))))"

datatype outgoing = Out_response producer_response | Out_bytes string

text \<open>The body of the response with its status line, or nothing when the response is invalid.\<close>

definition outgoing_wire :: "tls_env \<Rightarrow> outgoing \<Rightarrow> string option" where
  "outgoing_wire env out = (case out of
     Out_response r \<Rightarrow> (case serialize_producer_response (tv_frepr env) r of
       Inl _ \<Rightarrow> None
     | Inr body \<Rightarrow> map_option (\<lambda>(st, ph). response_wire body st ph) (map_of RESPONSE_STATUS (pr_reason r)))
   | Out_bytes b \<Rightarrow> (if b = [] \<or> MAX_RESPONSE_BYTES < length b then None
       else case decode_producer_response (tv_fparse env) b of
         Inl _ \<Rightarrow> None
       | Inr r \<Rightarrow> map_option (\<lambda>(st, ph). response_wire b st ph) (map_of RESPONSE_STATUS (pr_reason r))))"

definition write_outgoing :: "tls_env \<Rightarrow> outgoing \<Rightarrow> unit conn" where
  "write_outgoing env out = (case outgoing_wire env out of
     Some wire \<Rightarrow> send_wire env wire
   | None \<Rightarrow> bindC (send_wire env (response_wire GENERIC_INTERNAL_BODY 500 ''Internal Error'')) (\<lambda>_.
       raiseC (internal_500 ''response_invalid'')))"

definition write_response_conn :: "tls_env \<Rightarrow> transport_capability \<Rightarrow> outgoing \<Rightarrow> unit conn" where
  "write_response_conn env cap out = guarded_conn cap [STATE_HEAD_VALIDATED, STATE_BODY_READ] (\<lambda>c.
     case write_outgoing env out c of (c', r) \<Rightarrow> (abort_conn c', r))"

definition close_conn :: "transport_capability \<Rightarrow> unit conn" where
  "close_conn cap = guarded_conn cap [STATE_AUTHENTICATED, STATE_HEAD_VALIDATED, STATE_BODY_READ]
     (\<lambda>c. (abort_conn c, Inr ()))"

section \<open>Accepting\<close>

datatype accept_outcome = Accept_timeout | Accept_error | Accepted string
datatype handshake_outcome = Handshake_done | Handshake_timeout | Handshake_error

text \<open>The subject alternative names of the decoded peer certificate: two-element tuples or other entries.\<close>

datatype san_entry = San string string | San_other

text \<open>What one call to \<^verbatim>\<open>accept_authenticated\<close> meets: socket, TLS context, clock and peer certificate.\<close>

record accept_env =
  ax_open :: bool
  ax_accept :: accept_outcome
  ax_wrap_ok :: bool
  ax_started :: "pyfloat option"
  ax_now :: "pyfloat option"
  ax_handshake_seconds :: pyfloat
  ax_handshake :: handshake_outcome
  ax_version :: "string option"
  ax_der :: "string option"
  ax_decoded :: "san_entry list option"
  ax_connection_id :: string

record tls_session =
  ts_connection :: tls_connection
  ts_peer_evidence :: peer_evidence
  ts_admitted_producer :: admitted_producer
  ts_capability :: transport_capability

definition uri_sans :: "san_entry list \<Rightarrow> string list" where
  "uri_sans names = concat (map (\<lambda>e. case e of San k v \<Rightarrow> if k = ''URI'' then [v] else [] | San_other \<Rightarrow> []) names)"

definition check_clock :: "pyfloat option \<Rightarrow> tls_error + pyfloat" where
  "check_clock v = (case v of None \<Rightarrow> Inl (internal_503 ''monotonic_clock_invalid'')
     | Some x \<Rightarrow> if fl_le (Fin 0) x \<and> fl_less x PosInf then Inr x else Inl (internal_503 ''monotonic_clock_invalid''))"

definition peer_evidence_of :: "accept_env \<Rightarrow> tls_error + peer_evidence" where
  "peer_evidence_of ax =
     bindE (case ax_accept ax of Accept_timeout \<Rightarrow> Inl (internal_503 ''listener_accept_timeout'')
       | Accept_error \<Rightarrow> Inl (internal_503 ''listener_unavailable'') | Accepted host \<Rightarrow> Inr host) (\<lambda>host.
     bindE (requireE (host = LOOPBACK_BIND_HOST) (tls_failure ''peer_not_loopback'' 401 ''authentication_failed'')) (\<lambda>_.
     bindE (requireE (ax_wrap_ok ax) (tls_failure ''tls_authentication_failed'' 401 ''authentication_failed'')) (\<lambda>_.
     bindE (check_clock (ax_started ax)) (\<lambda>started.
     bindE (check_clock (ax_now ax)) (\<lambda>now.
     bindE (remaining_time now started (ax_handshake_seconds ax)) (\<lambda>_.
     bindE (case ax_handshake ax of Handshake_done \<Rightarrow> Inr ()
       | Handshake_timeout \<Rightarrow> Inl (tls_failure ''authentication_timeout'' 401 ''authentication_timeout'')
       | Handshake_error \<Rightarrow> Inl (tls_failure ''tls_authentication_failed'' 401 ''authentication_failed'')) (\<lambda>_.
     bindE (requireE (ax_version ax = Some TLS_VERSION) (tls_failure ''tls_version_invalid'' 401 ''authentication_failed'')) (\<lambda>_.
     case (ax_der ax, ax_decoded ax) of
       (Some der, Some names) \<Rightarrow>
         if der = [] then Inl (tls_failure ''client_certificate_missing'' 401 ''authentication_failed'')
         else Inr \<lparr>pe_tls_version = TLS_VERSION, pe_chain_authenticated = True, pe_client_auth_eku = True,
                   pe_certificate_sha256 = sha256_hex der, pe_uri_sans = uri_sans names\<rparr>
     | _ \<Rightarrow> Inl (tls_failure ''client_certificate_missing'' 401 ''authentication_failed'')))))))))"

text \<open>The security events of admission are their names.\<close>

fun event_name :: "sec_event \<Rightarrow> string" where
  "event_name EV_invalid_request = ''invalid_request''"
| "event_name EV_registry_invalid = ''registry_invalid''"
| "event_name EV_authentication_failed = ''authentication_failed''"
| "event_name EV_credential_disabled = ''credential_disabled''"
| "event_name EV_credential_revoked = ''credential_revoked''"
| "event_name EV_credential_not_yet_valid = ''credential_not_yet_valid''"
| "event_name EV_credential_expired = ''credential_expired''"
| "event_name EV_internal_error = ''internal_error''"
| "event_name EV_request_too_large = ''request_too_large''"
| "event_name EV_body_incomplete = ''body_incomplete''"
| "event_name EV_clock_unavailable = ''clock_unavailable''"
| "event_name EV_producer_mismatch = ''producer_mismatch''"
| "event_name EV_source_contract_denied = ''source_contract_denied''"
| "event_name EV_request_time_invalid = ''request_time_invalid''"

definition accept_authenticated ::
  "tls_env \<Rightarrow> certificate_record list \<Rightarrow> datetime option \<Rightarrow> accept_env \<Rightarrow> tls_error + tls_session" where
  "accept_authenticated env registry trusted_now ax =
     (if \<not> ax_open ax then Inl (internal_500 ''listener_not_open'')
      else bindE (peer_evidence_of ax) (\<lambda>evidence.
        bindE (mapErr (\<lambda>e. tls_failure ''authentication_rejected'' 401 (event_name (ae_event e)))
          (authenticate registry evidence trusted_now)) (\<lambda>producer.
        case initial_capability env (new_connection (ax_connection_id ax) 0) of
          (_, Inl e) \<Rightarrow> Inl e
        | (c, Inr cap) \<Rightarrow> Inr \<lparr>ts_connection = c, ts_peer_evidence = evidence,
            ts_admitted_producer = producer, ts_capability = cap\<rparr>)))"

end
