(* ===== verification/Transport_Facts.thy ===== *)
theory Transport_Facts
  imports Transport
begin

text \<open>
  The grammar that the parser of the request head decides, and its decomposition into lines, fields and
  framing.
\<close>

section \<open>The grammar of the request head\<close>

definition field_line :: "string \<times> string \<Rightarrow> string" where
  "field_line f = fst f @ '': '' @ snd f"

fun join_crlf :: "string list \<Rightarrow> string" where
  "join_crlf [] = []"
| "join_crlf [l] = l"
| "join_crlf (l # m # ls) = l @ CRLF @ join_crlf (m # ls)"

definition render_head :: "(string \<times> string) list \<Rightarrow> string" where
  "render_head fs = join_crlf (REQUEST_LINE # map field_line fs) @ CRLF @ CRLF"

definition field_ok :: "string \<times> string \<Rightarrow> bool" where
  "field_ok f \<longleftrightarrow> is_header_name (fst f) \<and> length (fst f) \<le> MAX_HEADER_NAME_BYTES \<and>
     header_value_ok (py_lower (fst f)) (snd f) \<and> py_lower (fst f) \<notin> set PROHIBITED_HEADERS"

definition canonical :: "(string \<times> string) list \<Rightarrow> (string \<times> string) list" where
  "canonical fs = map (\<lambda>(n, v). (py_lower n, v)) fs"

definition head_grammar :: "(string \<times> string) list \<Rightarrow> nat \<Rightarrow> bool" where
  "head_grammar fs n \<longleftrightarrow> list_all field_ok fs \<and> distinct (map fst (canonical fs)) \<and>
     length fs \<le> MAX_HEADER_FIELDS \<and> length (render_head fs) \<le> MAX_HEADER_BYTES \<and>
     map_of (canonical fs) ''host'' = Some TRANSPORT_HOST \<and>
     map_of (canonical fs) ''content-type'' = Some JSON_CONTENT_TYPE \<and>
     (\<exists>v. map_of (canonical fs) ''connection'' = Some v \<and> py_lower v = ''close'') \<and>
     (\<exists>v. map_of (canonical fs) ''content-length'' = Some v \<and> is_content_length v \<and> nat_of_dec v = n) \<and>
     1 \<le> n \<and> n \<le> MAX_REQUEST_BODY_BYTES"

definition head_of :: "(string \<times> string) list \<Rightarrow> nat \<Rightarrow> request_head_v1" where
  "head_of fs n = \<lparr>vh_method = TRANSPORT_REQUEST_METHOD, vh_target = TRANSPORT_REQUEST_TARGET,
     vh_http_version = TRANSPORT_HTTP_VERSION, vh_host = TRANSPORT_HOST, vh_content_type = JSON_CONTENT_TYPE,
     vh_content_length = n, vh_connection = ''close'', vh_header_count = length fs,
     vh_total_header_bytes = length (render_head fs)\<rparr>"

subsection \<open>Lines\<close>

lemma cons_head_ne [simp]: "cons_head c ls \<noteq> []"
  by (cases ls) auto

lemma split_crlf_ne [simp]: "split_crlf s \<noteq> []"
  by (induction s rule: split_crlf.induct) auto

lemma join_cons_head: "ls \<noteq> [] \<Longrightarrow> join_crlf (cons_head c ls) = c # join_crlf ls"
  by (cases ls rule: join_crlf.cases) auto

lemma join_crlf_Cons: "ls \<noteq> [] \<Longrightarrow> join_crlf (l # ls) = l @ CRLF @ join_crlf ls"
  by (cases ls) auto

lemma join_split: "join_crlf (split_crlf s) = s"
  by (induction s rule: split_crlf.induct) (auto simp: join_cons_head join_crlf_Cons)

abbreviation plain_line :: "string \<Rightarrow> bool" where
  "plain_line l \<equiv> CR \<notin> set l \<and> LF \<notin> set l"

lemma split_crlf_plain: "CR \<notin> set l \<Longrightarrow> split_crlf l = [l]"
  by (induction l rule: split_crlf.induct) auto

lemma split_crlf_line: "CR \<notin> set l \<Longrightarrow> split_crlf (l @ CRLF @ s) = l # split_crlf s"
proof (induction l)
  case (Cons c l)
  then show ?case by (cases l) auto
qed simp

lemma split_join: "ls \<noteq> [] \<Longrightarrow> list_all plain_line ls \<Longrightarrow> split_crlf (join_crlf ls) = ls"
proof (induction ls rule: join_crlf.induct)
  case (3 l m ls)
  then show ?case using split_crlf_line [of l "join_crlf (m # ls)"] by simp
qed (simp_all add: split_crlf_plain)

subsection \<open>Fields\<close>

lemma split_field_Some: "split_field l = Some (n, v) \<Longrightarrow> l = field_line (n, v)"
  by (induction l arbitrary: n v rule: split_field.induct) (auto simp: field_line_def split: if_splits)

lemma split_field_line: "CHR '':'' \<notin> set n \<Longrightarrow> split_field (field_line (n, v)) = Some (n, v)"
proof (induction n)
  case (Cons c n)
  then show ?case by (cases n) (auto simp: field_line_def)
qed (simp add: field_line_def)

lemma header_name_chars:
  assumes "is_header_name n"
  shows "CHR '':'' \<notin> set n" "plain_line n" "n \<noteq> []" "\<not> blank_byte (hd n)"
proof -
  have "\<not> header_name_char (CHR '':'')" "\<not> header_name_char CR" "\<not> header_name_char LF"
    "\<not> header_name_char (CHR '' '')" "\<not> header_name_char (CHR 0x09)" by code_simp+
  then show "CHR '':'' \<notin> set n" "plain_line n" "n \<noteq> []" "\<not> blank_byte (hd n)"
    using assms by (auto simp: is_header_name_def list_all_iff dest: hd_in_set)
qed

lemma header_value_plain: "header_value_ok k v \<Longrightarrow> plain_line v"
  by (auto simp: header_value_ok_def list_all_iff)

lemma field_line_plain: "field_ok f \<Longrightarrow> plain_line (field_line f)"
  using header_name_chars(2) header_value_plain by (auto simp: field_ok_def field_line_def)

lemma parse_header_line_Inr:
  "parse_header_line parsed l = Inr parsed' \<longleftrightarrow>
     (\<exists>f. l = field_line f \<and> field_ok f \<and> py_lower (fst f) \<notin> set (map fst parsed) \<and>
        parsed' = parsed @ [(py_lower (fst f), snd f)])"
  (is "?p \<longleftrightarrow> ?f")
proof
  assume ?p
  then obtain n v where s: "split_field l = Some (n, v)" and
    r: "is_header_name n" "length n \<le> MAX_HEADER_NAME_BYTES" "header_value_ok (py_lower n) v"
      "py_lower n \<notin> set (map fst parsed)" "py_lower n \<notin> set PROHIBITED_HEADERS" "parsed' = parsed @ [(py_lower n, v)]"
    by (auto simp: parse_header_line_def Let_def split: if_splits option.splits)
  then show ?f
    using split_field_Some [OF s] by (intro exI [of _ "(n, v)"]) (auto simp: field_ok_def)
next
  assume ?f
  then obtain f where f: "l = field_line f" "field_ok f" "py_lower (fst f) \<notin> set (map fst parsed)"
    "parsed' = parsed @ [(py_lower (fst f), snd f)]" by blast
  have n: "is_header_name (fst f)" using f(2) by (simp add: field_ok_def)
  have "l \<noteq> []" "hd l = hd (fst f)" using header_name_chars(3) [OF n] by (simp_all add: f(1) field_line_def)
  moreover have "split_field l = Some (fst f, snd f)"
    using split_field_line [OF header_name_chars(1) [OF n], of "snd f"] by (simp add: f(1))
  moreover have "1 \<le> length (fst f)" using header_name_chars(3) [OF n] by (cases "fst f") auto
  ultimately show ?p
    using f header_name_chars(4) [OF n] by (cases f) (auto simp: parse_header_line_def field_ok_def Let_def)
qed

lemma canonical_snoc [simp]: "canonical (fs @ [f]) = canonical fs @ [(py_lower (fst f), snd f)]"
  by (simp add: canonical_def case_prod_beta)

lemma parse_header_lines_Inr:
  assumes "distinct (map fst (canonical fs))"
  shows "parse_header_lines (canonical fs) ls = Inr parsed \<longleftrightarrow>
     (\<exists>gs. ls = map field_line gs \<and> list_all field_ok gs \<and> distinct (map fst (canonical (fs @ gs))) \<and>
        parsed = canonical (fs @ gs))"
  using assms
proof (induction ls arbitrary: fs)
  case Nil
  then show ?case by auto
next
  case (Cons l ls)
  show ?case
  proof
    assume "parse_header_lines (canonical fs) (l # ls) = Inr parsed"
    then obtain f where f: "l = field_line f" "field_ok f" "py_lower (fst f) \<notin> set (map fst (canonical fs))"
      "parse_header_lines (canonical (fs @ [f])) ls = Inr parsed"
      by (auto simp: bindE_eq_Inr parse_header_line_Inr)
    moreover have "distinct (map fst (canonical (fs @ [f])))" using Cons.prems f(3) by simp
    ultimately obtain gs where "ls = map field_line gs" "list_all field_ok gs"
      "distinct (map fst (canonical ((fs @ [f]) @ gs)))" "parsed = canonical ((fs @ [f]) @ gs)"
      using Cons.IH by blast
    then show "\<exists>gs. l # ls = map field_line gs \<and> list_all field_ok gs \<and> distinct (map fst (canonical (fs @ gs))) \<and>
        parsed = canonical (fs @ gs)"
      using f by (intro exI [of _ "f # gs"]) simp
  next
    assume "\<exists>gs. l # ls = map field_line gs \<and> list_all field_ok gs \<and> distinct (map fst (canonical (fs @ gs))) \<and>
        parsed = canonical (fs @ gs)"
    then obtain f gs where g: "l = field_line f" "ls = map field_line gs" "field_ok f" "list_all field_ok gs"
      "distinct (map fst (canonical ((fs @ [f]) @ gs)))" "parsed = canonical ((fs @ [f]) @ gs)"
      by (auto simp: Cons_eq_map_conv)
    have d: "distinct (map fst (canonical (fs @ [f])))" using g(5) by (simp add: canonical_def)
    then have "parse_header_lines (canonical (fs @ [f])) ls = Inr parsed" using Cons.IH [OF d] g by blast
    moreover have "py_lower (fst f) \<notin> set (map fst (canonical fs))" using d by simp
    then have "parse_header_line (canonical fs) l = Inr (canonical (fs @ [f]))"
      using g(1,3) unfolding parse_header_line_Inr by (intro exI [of _ f]) simp
    ultimately show "parse_header_lines (canonical fs) (l # ls) = Inr parsed" by simp
  qed
qed

lemma check_headers_Inr:
  "check_headers parsed = Inr n \<longleftrightarrow>
     map_of parsed ''host'' = Some TRANSPORT_HOST \<and> map_of parsed ''content-type'' = Some JSON_CONTENT_TYPE \<and>
     (\<exists>v. map_of parsed ''connection'' = Some v \<and> py_lower v = ''close'') \<and>
     (\<exists>v. map_of parsed ''content-length'' = Some v \<and> is_content_length v \<and> nat_of_dec v = n) \<and>
     1 \<le> n \<and> n \<le> MAX_REQUEST_BODY_BYTES"
proof -
  have "set REQUIRED_HEADERS \<subseteq> set (map fst parsed) \<longleftrightarrow> (\<forall>k \<in> set REQUIRED_HEADERS. \<exists>v. map_of parsed k = Some v)"
    by (auto simp: map_of_eq_None_iff subset_iff) (metis map_of_eq_None_iff not_None_eq image_eqI fst_conv)+
  then show ?thesis
    by (auto simp: check_headers_def bindE_eq_Inr header_of_def Let_def REQUIRED_HEADERS_def split: if_splits)
qed

subsection \<open>Framing\<close>

lemma framing_nth:
  "validate_plain_framing b \<longleftrightarrow> (\<forall>i < length b. \<not> (b ! i = LF \<and> (i = 0 \<or> b ! (i - 1) \<noteq> CR)) \<and>
     \<not> (b ! i = CR \<and> i + 1 < length b \<and> b ! (i + 1) \<noteq> LF))"
  by (auto simp: validate_plain_framing_def list_all_iff)

lemma framing_line:
  assumes "plain_line l" "validate_plain_framing s"
  shows "validate_plain_framing (l @ CRLF @ s)"
  unfolding framing_nth
proof (intro allI impI)
  fix i
  let ?b = "l @ CRLF @ s"
  assume i: "i < length ?b"
  have "i < length l \<or> i = length l \<or> i = length l + 1 \<or> i = length l + 2 + (i - length l - 2)"
    "length l + 2 \<le> i \<Longrightarrow> i - length l - 2 < length s" using i by auto
  then consider "i < length l" | "i = length l" | "i = length l + 1" | j where "i = length l + 2 + j" "j < length s"
    using le_add1 by metis
  then show "\<not> (?b ! i = LF \<and> (i = 0 \<or> ?b ! (i - 1) \<noteq> CR)) \<and> \<not> (?b ! i = CR \<and> i + 1 < length ?b \<and> ?b ! (i + 1) \<noteq> LF)"
  proof cases
    case 1
    then have "?b ! i \<in> set l" by (simp add: nth_append)
    then show ?thesis using assms(1) by metis
  next
    case (4 j)
    have k: "?b ! (length l + 2 + m) = s ! m" for m by (simp add: nth_append)
    have "\<not> (s ! j = LF \<and> (j = 0 \<or> s ! (j - 1) \<noteq> CR))" "\<not> (s ! j = CR \<and> j + 1 < length s \<and> s ! (j + 1) \<noteq> LF)"
      using assms(2) 4(2) by (auto simp: framing_nth)
    moreover have "?b ! (i + 1) = s ! (j + 1)" using k [of "j + 1"] 4(1) by (simp add: add.assoc)
    moreover have "j \<noteq> 0 \<Longrightarrow> ?b ! (i - 1) = s ! (j - 1)" using k [of "j - 1"] 4(1) by simp
    moreover have "?b ! i = s ! j" using k 4(1) by simp
    ultimately show ?thesis using 4 by (cases "j = 0") auto
  qed (auto simp: nth_append)
qed

lemma framing_join:
  "list_all plain_line ls \<Longrightarrow> ls \<noteq> [] \<Longrightarrow> validate_plain_framing (join_crlf ls @ CRLF @ CRLF)"
proof (induction ls rule: join_crlf.induct)
  case (2 l)
  have "validate_plain_framing CRLF" by code_simp
  then show ?case using 2 framing_line [of l CRLF] by simp
next
  case (3 l m ls)
  then show ?case using framing_line [of l "join_crlf (m # ls) @ CRLF @ CRLF"] by simp
qed simp

lemma ends_with_iff: "ends_with p s \<longleftrightarrow> (\<exists>t. s = t @ p)"
  by (auto simp: ends_with_def) (metis append_take_drop_id)

lemma parse_render:
  assumes "head_grammar fs n"
  shows "parse_request_head (render_head fs) = Inr (head_of fs n)"
proof -
  define raw where "raw = render_head fs"
  have rl: "plain_line REQUEST_LINE" "length REQUEST_LINE \<le> MAX_REQUEST_LINE_BYTES" by code_simp+
  let ?ls = "REQUEST_LINE # map field_line fs"
  have plain: "list_all plain_line ?ls"
    using rl(1) assms field_line_plain by (auto simp: head_grammar_def list_all_iff)
  have take: "take (length raw - 4) raw = join_crlf ?ls" by (simp add: raw_def render_head_def)
  have split: "split_crlf (join_crlf ?ls) = ?ls" by (rule split_join [OF _ plain]) simp
  have ends: "ends_with (CRLF @ CRLF) raw" by (auto simp: ends_with_iff raw_def render_head_def)
  have frame: "validate_plain_framing raw" unfolding raw_def render_head_def by (rule framing_join [OF plain]) simp
  have parsed: "parse_header_lines [] (map field_line fs) = Inr (canonical fs)"
    using parse_header_lines_Inr [of "[]" "map field_line fs" "canonical fs"] assms
    by (auto simp: canonical_def head_grammar_def)
  have chk: "check_headers (canonical fs) = Inr n" 
    using assms unfolding check_headers_Inr head_grammar_def by blast
  have "set REQUIRED_HEADERS \<subseteq> set (map fst (canonical fs))"
    using assms by (auto simp: REQUIRED_HEADERS_def head_grammar_def dest!: map_of_SomeD) force+
  moreover have "distinct REQUIRED_HEADERS" by code_simp
  ultimately have "length REQUIRED_HEADERS \<le> length (canonical fs)"
    by (metis card_length distinct_card card_mono List.finite_set le_trans length_map)
  then have four: "length REQUIRED_HEADERS \<le> length fs" by (simp add: canonical_def)
  then have one: "1 \<le> length fs" by (simp add: REQUIRED_HEADERS_def)
  have len: "length fs \<le> MAX_HEADER_FIELDS" "length raw \<le> MAX_HEADER_BYTES" "1 \<le> n" "n \<le> MAX_REQUEST_BODY_BYTES"
    using raw_def assms by (simp_all add: head_grammar_def)
  have "1 \<le> length raw" by (simp add: raw_def render_head_def)
  then have "make_request_head (head_of fs n) = Inr (head_of fs n)"
    using len four by (simp add: make_request_head_def head_of_def raw_def)
  then show ?thesis
    unfolding raw_def [symmetric] parse_request_head_def take split Let_def
    using ends frame rl(2) len one parsed chk by (simp add: head_of_def raw_def)
qed

section \<open>Properties of the parser\<close>

text \<open>C6: The request head parser decides a grammar: it accepts a byte string exactly when the string is
  the fixed request line and the lines of a list of fields, all within the limits, in which every name is
  a token and occurs once up to case, every value is printable, no transfer coding or other prohibited
  field occurs, host, content type and connection have their fixed values, and the one content length is
  a canonical decimal between one and the body limit; the head it returns carries that length.\<close>

theorem request_head_grammar:
  "parse_request_head raw = Inr h \<longleftrightarrow>
     (\<exists>fs n. raw = render_head fs \<and> head_grammar fs n \<and> h = head_of fs n)"
proof
  assume p: "parse_request_head raw = Inr h"
  define body where "body = take (length raw - 4) raw"
  define ls where "ls = tl (split_crlf body)"
  from p have e: "ends_with (CRLF @ CRLF) raw" "length raw \<le> MAX_HEADER_BYTES" "hd (split_crlf body) = REQUEST_LINE"
    "length ls \<le> MAX_HEADER_FIELDS"
    and rest: "\<exists>parsed n. parse_header_lines [] ls = Inr parsed \<and> check_headers parsed = Inr n \<and>
      h = \<lparr>vh_method = TRANSPORT_REQUEST_METHOD, vh_target = TRANSPORT_REQUEST_TARGET,
        vh_http_version = TRANSPORT_HTTP_VERSION, vh_host = TRANSPORT_HOST, vh_content_type = JSON_CONTENT_TYPE,
        vh_content_length = n, vh_connection = ''close'', vh_header_count = length ls, vh_total_header_bytes = length raw\<rparr>"
    by (auto simp: parse_request_head_def make_request_head_def bindE_eq_Inr Let_def body_def ls_def split: if_splits)
  from rest obtain parsed n where n: "parse_header_lines [] ls = Inr parsed" "check_headers parsed = Inr n"
    "h = \<lparr>vh_method = TRANSPORT_REQUEST_METHOD, vh_target = TRANSPORT_REQUEST_TARGET,
        vh_http_version = TRANSPORT_HTTP_VERSION, vh_host = TRANSPORT_HOST, vh_content_type = JSON_CONTENT_TYPE,
        vh_content_length = n, vh_connection = ''close'', vh_header_count = length ls, vh_total_header_bytes = length raw\<rparr>"
    by blast
  have "parse_header_lines (canonical []) ls = Inr parsed" using n(1) by (simp add: canonical_def)
  then obtain fs where fs: "ls = map field_line fs" "list_all field_ok fs" "distinct (map fst (canonical fs))"
    "parsed = canonical fs" using parse_header_lines_Inr [of "[]" ls parsed] by (auto simp: canonical_def)
  have "split_crlf body = REQUEST_LINE # ls" using e(3) unfolding ls_def by (metis list.collapse split_crlf_ne)
  then have "body = join_crlf (REQUEST_LINE # ls)" using join_split by metis
  moreover have "raw = body @ CRLF @ CRLF" using e(1) by (auto simp: body_def ends_with_iff)
  ultimately have raw: "raw = render_head fs" by (simp add: render_head_def fs(1))
  have "head_grammar fs n"
    using fs(2,3) e(2,4) n(2) by (simp add: head_grammar_def check_headers_Inr raw fs(1,4))
  moreover have "h = head_of fs n" by (simp add: n(3) head_of_def raw fs(1))
  ultimately show "\<exists>fs n. raw = render_head fs \<and> head_grammar fs n \<and> h = head_of fs n" using raw by blast
next
  assume "\<exists>fs n. raw = render_head fs \<and> head_grammar fs n \<and> h = head_of fs n"
  then show "parse_request_head raw = Inr h" using parse_render by blast
qed

end
