(* ===== verification/Connection_Facts.thy ===== *)
theory Connection_Facts
  imports Transport_Facts Admission_Facts
begin

text \<open>
  The connection of the producer transport as a machine: what each operation changes and how much it
  reads, that each capability is good for one step, that one response at most leaves a connection, that a
  peer that keeps the grammar is served, and whom the listener accepts.
\<close>

section \<open>Frames of the connection operations\<close>

text \<open>What reading changes of a connection, and how many readings it makes.\<close>

definition only_reads :: "nat \<Rightarrow> tls_connection \<Rightarrow> tls_connection \<Rightarrow> bool" where
  "only_reads k c c' \<longleftrightarrow> tc_connection_id c' = tc_connection_id c \<and> tc_stage c' = tc_stage c \<and>
     tc_token_sha256 c' = tc_token_sha256 c \<and> tc_head c' = tc_head c \<and> tc_open c' = tc_open c \<and>
     tc_sent c' = tc_sent c \<and> tc_tick c' \<le> tc_tick c + k"

lemma only_reads_refl [simp]: "only_reads k c c"
  by (simp add: only_reads_def)

lemma only_reads_trans: "only_reads j a b \<Longrightarrow> only_reads k b c \<Longrightarrow> j + k \<le> m \<Longrightarrow> only_reads m a c"
  by (auto simp: only_reads_def)

lemma monotonic_value_reads: "monotonic_value env c = (c', r) \<Longrightarrow> only_reads 1 c c'"
  by (auto simp: monotonic_value_def bindC_def readC_def raiseC_def returnC_def only_reads_def
      split: option.splits if_splits)

lemma read_timeout_reads: "read_timeout env c = (c', r) \<Longrightarrow> only_reads 1 c c'"
  by (cases "monotonic_value env c")
    (auto simp: read_timeout_def bindC_def Let_def only_reads_def dest!: monotonic_value_reads
      split: sum.splits if_splits)

lemma recv_progress_reads: "recv_progress env b s c = (c', r) \<Longrightarrow> only_reads 1 c c'"
  by (cases "monotonic_value env c")
    (auto simp: recv_progress_def bindC_def only_reads_def dest!: monotonic_value_reads
      split: sum.splits if_splits)

lemma recv_timed_out_reads: "recv_timed_out env c = (c', r) \<Longrightarrow> only_reads 1 c c'"
  by (auto simp: recv_timed_out_def bindC_def readC_def only_reads_def split: option.splits if_splits)

lemma recv_chunk_reads:
  assumes "recv_chunk env n c = (c', r)"
  shows "only_reads 3 c c'"
proof -
  obtain c1 r1 where t: "read_timeout env c = (c1, r1)" by fastforce
  have 1: "only_reads 1 c c1" by (rule read_timeout_reads [OF t])
  let ?c2 = "c1\<lparr>tc_tick := Suc (tc_tick c1)\<rparr>"
  have 2: "only_reads 2 c ?c2" using 1 by (auto simp: only_reads_def)
  have "only_reads 1 c c' \<or> only_reads 1 ?c2 c'"
  proof (cases r1)
    case (Inl e)
    then show ?thesis using assms t 1 by (auto simp: recv_chunk_def bindC_def)
  next
    case (Inr before)
    then show ?thesis
      using assms t
      by (auto simp: recv_chunk_def bindC_def readC_def returnC_def
          dest!: recv_progress_reads recv_timed_out_reads split: recv_outcome.splits if_splits)
  qed
  then show ?thesis
  proof
    assume "only_reads 1 c c'"
    then show ?thesis by (auto simp: only_reads_def)
  next
    assume "only_reads 1 ?c2 c'"
    then show ?thesis by (rule only_reads_trans [OF 2]) simp
  qed
qed

lemma head_loop_reads:
  "head_loop env raw c = (c', r) \<Longrightarrow> length raw \<le> MAX_HEADER_BYTES \<Longrightarrow> only_reads (3 * (Suc MAX_HEADER_BYTES - length raw)) c c'"
proof (induction env raw c arbitrary: c' r rule: head_loop.induct)
  case (1 env raw c)
  obtain c1 r1 where rc: "recv_chunk env 1 c = (c1, r1)" by fastforce
  have c1: "only_reads 3 c c1" by (rule recv_chunk_reads [OF rc])
  show ?case
  proof (cases "ends_with (CRLF @ CRLF) raw")
    case True
    then show ?thesis using "1.prems"(1) by simp
  next
    case e: False
    show ?thesis
    proof (cases "\<exists>chunk. r1 = Inr chunk \<and> chunk \<noteq> [] \<and> head_progress (raw @ chunk) = None")
      case True
      then obtain chunk where k: "r1 = Inr chunk" "chunk \<noteq> []" "head_progress (raw @ chunk) = None" by blast
      have len: "length raw + length chunk \<le> MAX_HEADER_BYTES"
        using k(3) by (simp add: head_progress_def split: if_splits)
      have "head_loop env (raw @ chunk) c1 = (c', r)" using "1.prems"(1) e rc k by (subst (asm) head_loop.simps) simp
      then have "only_reads (3 * (Suc MAX_HEADER_BYTES - length (raw @ chunk))) c1 c'"
        using "1.IH" [OF e rc [symmetric] k(1)] k(2,3) len by simp
      then show ?thesis
        by (rule only_reads_trans [OF c1]) (use k(2) len in \<open>cases chunk; simp\<close>)
    next
      case False
      then have "c' = c1"
        using "1.prems"(1) e rc by (subst (asm) head_loop.simps) (auto split: sum.splits option.splits if_splits)
      then show ?thesis using c1 "1.prems"(2) by (auto simp: only_reads_def)
    qed
  qed
qed

lemma body_loop_reads:
  "body_loop env n acc c = (c', r) \<Longrightarrow> only_reads (3 * n) c c'"
proof (induction env n acc c arbitrary: c' r rule: body_loop.induct)
  case (1 env n acc c)
  obtain c1 r1 where rc: "recv_chunk env (min SOCKET_READ_CHUNK_BYTES (n + 1)) c = (c1, r1)" by fastforce
  have c1: "only_reads 3 c c1" by (rule recv_chunk_reads [OF rc])
  show ?case
  proof (cases "n = 0")
    case True
    then show ?thesis using "1.prems" by simp
  next
    case e: False
    show ?thesis
    proof (cases "\<exists>chunk. r1 = Inr chunk \<and> chunk \<noteq> [] \<and> length chunk \<le> n")
      case True
      then obtain chunk where k: "r1 = Inr chunk" "chunk \<noteq> []" "length chunk \<le> n" by blast
      have "body_loop env (n - length chunk) (acc @ chunk) c1 = (c', r)"
        using "1.prems" e rc k by (subst (asm) body_loop.simps) simp
      then have "only_reads (3 * (n - length chunk)) c1 c'"
        using "1.IH" [OF e rc [symmetric] k(1)] k(2,3) by simp
      then show ?thesis by (rule only_reads_trans [OF c1]) (use k(2,3) in \<open>cases chunk; simp\<close>)
    next
      case False
      then have "c' = c1"
        using "1.prems" e rc by (subst (asm) body_loop.simps) (auto split: sum.splits if_splits)
      then show ?thesis using c1 e by (auto simp: only_reads_def)
    qed
  qed
qed

lemma body_loop_length:
  "body_loop env n acc c = (c', Inr body) \<Longrightarrow> length body = length acc + n"
proof (induction env n acc c rule: body_loop.induct)
  case (1 env n acc c)
  show ?case
  proof (cases "n = 0")
    case False
    obtain c1 r1 where rc: "recv_chunk env (min SOCKET_READ_CHUNK_BYTES (n + 1)) c = (c1, r1)" by fastforce
    then obtain chunk where k: "r1 = Inr chunk" "chunk \<noteq> []" "length chunk \<le> n"
      "body_loop env (n - length chunk) (acc @ chunk) c1 = (c', Inr body)"
      using "1.prems" False by (subst (asm) body_loop.simps) (auto split: sum.splits if_splits)
    then show ?thesis using "1.IH" [OF False rc [symmetric] k(1)] by simp
  qed (use "1.prems" in simp)
qed

section \<open>Connections as a machine\<close>

datatype conn_op =
    Op_head (op_cap: transport_capability)
  | Op_body (op_cap: transport_capability)
  | Op_write (op_cap: transport_capability) outgoing
  | Op_close (op_cap: transport_capability)

fun op_stages :: "conn_op \<Rightarrow> string list" where
  "op_stages (Op_head _) = [STATE_AUTHENTICATED]"
| "op_stages (Op_body _) = [STATE_HEAD_VALIDATED]"
| "op_stages (Op_write _ _) = [STATE_HEAD_VALIDATED, STATE_BODY_READ]"
| "op_stages (Op_close _) = [STATE_AUTHENTICATED, STATE_HEAD_VALIDATED, STATE_BODY_READ]"

fun conn_run :: "tls_env \<Rightarrow> tls_connection \<Rightarrow> conn_op \<Rightarrow> tls_connection \<times> tls_error option" where
  "conn_run env c (Op_head cap) = map_prod id (case_sum Some (\<lambda>_. None)) (read_request_head env cap c)"
| "conn_run env c (Op_body cap) = map_prod id (case_sum Some (\<lambda>_. None)) (read_body env cap c)"
| "conn_run env c (Op_write cap out) = map_prod id (case_sum Some (\<lambda>_. None)) (write_response_conn env cap out c)"
| "conn_run env c (Op_close cap) = map_prod id (case_sum Some (\<lambda>_. None)) (close_conn cap c)"

definition conn_step :: "tls_env \<Rightarrow> tls_connection \<Rightarrow> conn_op \<Rightarrow> tls_connection" where
  "conn_step env c op = fst (conn_run env c op)"

text \<open>The stages in order, and the readings that each still allows.\<close>

definition stage_rank :: "string \<Rightarrow> nat" where
  "stage_rank s = (if s = STATE_AUTHENTICATED then 0 else if s = STATE_HEAD_VALIDATED then 1
     else if s = STATE_BODY_READ then 2 else 3)"

lemma stage_rank_simps [simp]:
  "stage_rank STATE_AUTHENTICATED = 0" "stage_rank STATE_HEAD_VALIDATED = 1" "stage_rank STATE_BODY_READ = 2"
  "stage_rank STATE_CLOSED = 3" "stage_rank s \<le> 3"
  by (simp_all add: stage_rank_def)

definition READS_HEAD :: nat where "READS_HEAD = 3 * Suc MAX_HEADER_BYTES + 1"
definition READS_BODY :: nat where "READS_BODY = 3 * MAX_REQUEST_BODY_BYTES + 2"

definition reads_left :: "tls_connection \<Rightarrow> nat" where
  "reads_left c = (if stage_rank (tc_stage c) = 0 then READS_HEAD + READS_BODY + 3
     else if stage_rank (tc_stage c) = 1 then READS_BODY + 3
     else if stage_rank (tc_stage c) = 2 then 3 else 0)"

definition conn_inv :: "tls_connection \<Rightarrow> bool" where
  "conn_inv c \<longleftrightarrow>
     tc_stage c \<in> set [STATE_AUTHENTICATED, STATE_HEAD_VALIDATED, STATE_BODY_READ, STATE_CLOSED] \<and>
     (if tc_stage c = STATE_CLOSED then tc_token_sha256 c = None \<and> \<not> tc_open c \<and> length (tc_sent c) \<le> 1
      else tc_sent c = [] \<and> tc_open c) \<and>
     (\<forall>h. tc_head c = Some h \<longrightarrow> make_request_head h = Inr h) \<and>
     (tc_stage c \<in> set [STATE_HEAD_VALIDATED, STATE_BODY_READ] \<longrightarrow> tc_head c \<noteq> None)"

lemma abort_conn_simps [simp]:
  "tc_stage (abort_conn c) = STATE_CLOSED" "tc_token_sha256 (abort_conn c) = None" "\<not> tc_open (abort_conn c)"
  "tc_sent (abort_conn c) = tc_sent c" "tc_tick (abort_conn c) = tc_tick c" "tc_head (abort_conn c) = tc_head c"
  "tc_connection_id (abort_conn c) = tc_connection_id c"
  by (simp_all add: abort_conn_def)

lemma conn_refused:
  assumes "\<not> require_transport c (op_cap op) (op_stages op)"
  shows "conn_run env c op = (abort_conn c, Some (internal_500 ''connection_capability_invalid''))"
  using assms
  by (cases op) (simp_all add: read_request_head_def read_body_def write_response_conn_def close_conn_def guarded_conn_def)

lemma parse_request_head_valid: "parse_request_head raw = Inr h \<Longrightarrow> make_request_head h = Inr h"
  by (auto simp: parse_request_head_def bindE_eq_Inr Let_def make_request_head_def split: if_splits)

lemma read_request_head_cases:
  assumes "require_transport c cap [STATE_AUTHENTICATED]" "read_request_head env cap c = (c', r)"
  obtains (failed) e c1 where "r = Inl e" "c' = abort_conn c1" "only_reads READS_HEAD c c1"
  | (read) h cap' where "r = Inr (h, cap')" "tc_stage c' = STATE_HEAD_VALIDATED" "tc_head c' = Some h"
      "make_request_head h = Inr h" "tc_sent c' = tc_sent c" "tc_open c' = tc_open c" "tc_tick c' \<le> tc_tick c + READS_HEAD"
proof -
  obtain c1 r1 where l: "head_loop env [] c = (c1, r1)" by fastforce
  have c1: "only_reads (3 * Suc MAX_HEADER_BYTES) c c1" using head_loop_reads [OF l] by simp
  show ?thesis
  proof (cases "\<exists>raw h. r1 = Inr raw \<and> parse_request_head raw = Inr h")
    case True
    then obtain raw h where h: "r1 = Inr raw" "parse_request_head raw = Inr h" by blast
    show ?thesis
    proof (rule read)
      show "r = Inr (h, \<lparr>tp_connection_id = tc_connection_id c1, tp_stage = STATE_HEAD_VALIDATED,
          tp_ownership_token = tv_token env (tc_tick c1)\<rparr>)"
        "tc_stage c' = STATE_HEAD_VALIDATED" "tc_head c' = Some h" "make_request_head h = Inr h"
        "tc_sent c' = tc_sent c" "tc_open c' = tc_open c" "tc_tick c' \<le> tc_tick c + READS_HEAD"
        using assms l h c1 parse_request_head_valid [OF h(2)]
        by (auto simp: read_request_head_def guarded_conn_def abort_on_error_def bindC_def liftC_def updC_def
            new_capability_def readC_def returnC_def only_reads_def READS_HEAD_def)
    qed
  next
    case False
    then obtain e where "r = Inl e" "c' = abort_conn c1"
      using assms l
      by (auto simp: read_request_head_def guarded_conn_def abort_on_error_def bindC_def liftC_def split: sum.splits)
    moreover have "only_reads READS_HEAD c c1" using c1 by (auto simp: only_reads_def READS_HEAD_def)
    ultimately show ?thesis by (rule failed)
  qed
qed

lemma check_pending_reads: "check_pending env c = (c', r) \<Longrightarrow> only_reads 1 c c'"
  by (auto simp: check_pending_def bindC_def readC_def raiseC_def returnC_def only_reads_def split: option.splits if_splits)

lemma read_body_cases:
  assumes "require_transport c cap [STATE_HEAD_VALIDATED]" "read_body env cap c = (c', r)"
    "tc_head c = Some h" "vh_content_length h \<le> MAX_REQUEST_BODY_BYTES"
  obtains (failed) e c1 where "r = Inl e" "c' = abort_conn c1" "only_reads READS_BODY c c1"
  | (read) body cap' where "r = Inr (body, cap')" "tc_stage c' = STATE_BODY_READ" "tc_head c' = Some h"
      "length body = vh_content_length h" "tc_sent c' = tc_sent c" "tc_open c' = tc_open c"
      "tc_tick c' \<le> tc_tick c + READS_BODY"
proof -
  obtain c1 r1 where l: "body_loop env (vh_content_length h) [] c = (c1, r1)" by fastforce
  obtain c2 r2 where p: "check_pending env c1 = (c2, r2)" by fastforce
  have c1: "only_reads (3 * vh_content_length h) c c1" by (rule body_loop_reads [OF l])
  have c2: "only_reads (3 * vh_content_length h + 1) c c2"
    by (rule only_reads_trans [OF c1 check_pending_reads [OF p]]) simp
  show ?thesis
  proof (cases "\<exists>body u. r1 = Inr body \<and> r2 = Inr u")
    case True
    then obtain body where b: "r1 = Inr body" "r2 = Inr ()" by auto
    show ?thesis
    proof (rule read)
      show "r = Inr (body, \<lparr>tp_connection_id = tc_connection_id c2, tp_stage = STATE_BODY_READ,
          tp_ownership_token = tv_token env (tc_tick c2)\<rparr>)"
        "tc_stage c' = STATE_BODY_READ" "tc_head c' = Some h" "length body = vh_content_length h"
        "tc_sent c' = tc_sent c" "tc_open c' = tc_open c" "tc_tick c' \<le> tc_tick c + READS_BODY"
        using assms l p b c2 body_loop_length [of env "vh_content_length h" "[]" c c1 body]
        by (auto simp: read_body_def guarded_conn_def abort_on_error_def bindC_def updC_def
            new_capability_def readC_def returnC_def only_reads_def READS_BODY_def)
    qed
  next
    case False
    then obtain e where "r = Inl e" "c' = abort_conn c1 \<or> c' = abort_conn c2"
      using assms l p
      by (auto simp: read_body_def guarded_conn_def abort_on_error_def bindC_def split: sum.splits)
    moreover have "only_reads READS_BODY c c1" "only_reads READS_BODY c c2"
      using c1 c2 assms(4) by (auto simp: only_reads_def READS_BODY_def)
    ultimately show ?thesis using failed by blast
  qed
qed

lemma send_wire_effect:
  assumes "send_wire env wire c = (c', r)"
  shows "(tc_sent c' = tc_sent c \<or> tc_sent c' = tc_sent c @ [wire]) \<and> tc_tick c' \<le> tc_tick c + 3 \<and> tc_head c' = tc_head c"
proof -
  obtain c1 r1 where m1: "monotonic_value env c = (c1, r1)" by fastforce
  obtain c2 r2 where m2: "monotonic_value env c1 = (c2, r2)" by fastforce
  have 2: "only_reads 1 c c1" "only_reads 1 c1 c2"
    using monotonic_value_reads [OF m1] monotonic_value_reads [OF m2] by auto
  show ?thesis
    using assms m1 m2 2
    by (auto simp: send_wire_def bindC_def liftC_def updC_def readC_def returnC_def raiseC_def only_reads_def
        split: sum.splits if_splits)
qed

lemma write_outgoing_effect:
  assumes "write_outgoing env out c = (c', r)"
  shows "(tc_sent c' = tc_sent c \<or> (\<exists>wire. tc_sent c' = tc_sent c @ [wire])) \<and> tc_tick c' \<le> tc_tick c + 3 \<and>
    tc_head c' = tc_head c"
proof (cases "outgoing_wire env out")
  case None
  obtain c1 r1 where s: "send_wire env (response_wire GENERIC_INTERNAL_BODY 500 ''Internal Error'') c = (c1, r1)" by fastforce
  have "c' = c1"
    using assms s by (auto simp: write_outgoing_def None bindC_def raiseC_def split: sum.splits)
  then show ?thesis using send_wire_effect [OF s] by blast
next
  case (Some wire)
  then show ?thesis using send_wire_effect [of env wire c c' r] assms by (auto simp: write_outgoing_def)
qed

text \<open>One step: it keeps the invariant, spends the readings of its stage, and closes or advances.\<close>

lemma conn_step_facts:
  assumes "conn_inv c"
  shows "conn_inv (conn_step env c op)"
    "tc_tick (conn_step env c op) + reads_left (conn_step env c op) \<le> tc_tick c + reads_left c"
    "tc_stage (conn_step env c op) = STATE_CLOSED \<or> stage_rank (tc_stage c) < stage_rank (tc_stage (conn_step env c op))"
proof -
  let ?c = "conn_step env c op"
  have closed: "conn_inv c' \<and> tc_tick c' + reads_left c' \<le> tc_tick c + reads_left c \<and>
      (tc_stage c' = STATE_CLOSED \<or> stage_rank (tc_stage c) < stage_rank (tc_stage c'))"
    if "c' = abort_conn c1" "tc_head c1 = tc_head c" "length (tc_sent c1) \<le> 1" "tc_tick c1 \<le> tc_tick c + reads_left c" for c' c1
    using that assms by (auto simp: conn_inv_def reads_left_def)
  have sent: "length (tc_sent c) \<le> 1" using assms by (auto simp: conn_inv_def split: if_splits)
  have "conn_inv ?c \<and> tc_tick ?c + reads_left ?c \<le> tc_tick c + reads_left c \<and>
      (tc_stage ?c = STATE_CLOSED \<or> stage_rank (tc_stage c) < stage_rank (tc_stage ?c))"
  proof (cases "require_transport c (op_cap op) (op_stages op)")
    case False
    show ?thesis
      by (rule closed [of _ c]) (use sent conn_refused [OF False] in \<open>auto simp: conn_step_def\<close>)
  next
    case req: True
    show ?thesis
    proof (cases op)
      case (Op_head cap)
      obtain c' r where h: "read_request_head env cap c = (c', r)" by fastforce
      have st: "tc_stage c = STATE_AUTHENTICATED" and q: "require_transport c cap [STATE_AUTHENTICATED]"
        using req Op_head by (auto simp: require_transport_def)
      have c': "?c = c'" using h by (simp add: conn_step_def Op_head)
      show ?thesis
      proof (cases rule: read_request_head_cases [OF q h])
        case (1 e c1)
        then show ?thesis unfolding c' using st sent by (intro closed [of _ c1]) (auto simp: only_reads_def reads_left_def)
      next
        case (2 hd cap')
        then show ?thesis unfolding c' using st assms by (auto simp: conn_inv_def reads_left_def)
      qed
    next
      case (Op_body cap)
      obtain c' r where h: "read_body env cap c = (c', r)" by fastforce
      have st: "tc_stage c = STATE_HEAD_VALIDATED" and q: "require_transport c cap [STATE_HEAD_VALIDATED]"
        using req Op_body by (auto simp: require_transport_def)
      have c': "?c = c'" using h by (simp add: conn_step_def Op_body)
      obtain hd where hd: "tc_head c = Some hd" "make_request_head hd = Inr hd"
        using assms st by (auto simp: conn_inv_def)
      then have len: "vh_content_length hd \<le> MAX_REQUEST_BODY_BYTES" by (simp add: make_request_head_def split: if_splits)
      show ?thesis
      proof (cases rule: read_body_cases [OF q h hd(1) len])
        case (1 e c1)
        then show ?thesis unfolding c' using st sent by (intro closed [of _ c1]) (auto simp: only_reads_def reads_left_def)
      next
        case (2 body cap')
        then show ?thesis unfolding c' using st assms hd by (auto simp: conn_inv_def reads_left_def)
      qed
    next
      case (Op_write cap out)
      obtain c1 r where w: "write_outgoing env out c = (c1, r)" by fastforce
      have st: "tc_stage c = STATE_HEAD_VALIDATED \<or> tc_stage c = STATE_BODY_READ"
        and q: "require_transport c cap [STATE_HEAD_VALIDATED, STATE_BODY_READ]"
        using req Op_write by (auto simp: require_transport_def)
      have c': "?c = abort_conn c1" using w q by (simp add: conn_step_def Op_write write_response_conn_def guarded_conn_def)
      have "tc_sent c = []" using assms st by (auto simp: conn_inv_def)
      then show ?thesis
        unfolding c' using write_outgoing_effect [OF w] st by (intro closed [of _ c1]) (auto simp: reads_left_def)
    next
      case (Op_close cap)
      have "?c = abort_conn c" using req by (simp add: conn_step_def Op_close close_conn_def guarded_conn_def)
      then show ?thesis by (rule closed) (use sent in auto)
    qed
  qed
  then show "conn_inv ?c" "tc_tick ?c + reads_left ?c \<le> tc_tick c + reads_left c"
    "tc_stage ?c = STATE_CLOSED \<or> stage_rank (tc_stage c) < stage_rank (tc_stage ?c)" by blast+
qed

text \<open>A connection as the listener hands it out, with the digest of its first capability.\<close>

definition fresh_connection :: "tls_env \<Rightarrow> string \<Rightarrow> nat \<Rightarrow> tls_connection" where
  "fresh_connection env i n = fst (initial_capability env (new_connection i n))"

lemma fresh_connection_eq:
  "fresh_connection env i n = (new_connection i (Suc n))\<lparr>tc_token_sha256 := Some (sha256_hex (tv_token env n))\<rparr>"
  "initial_capability env (new_connection i n) = (fresh_connection env i n,
     Inr \<lparr>tp_connection_id = i, tp_stage = STATE_AUTHENTICATED, tp_ownership_token = tv_token env n\<rparr>)"
  by (simp_all add: fresh_connection_def initial_capability_def new_connection_def new_capability_def bindC_def readC_def)

definition conn_extends :: "tls_connection \<Rightarrow> tls_connection \<Rightarrow> bool" where
  "conn_extends c c' \<longleftrightarrow> stage_rank (tc_stage c) \<le> stage_rank (tc_stage c') \<and>
     tc_tick c' + reads_left c' \<le> tc_tick c + reads_left c"

interpretation connection: monotone_machine "conn_step env" "\<lambda>c. \<exists>i n. c = fresh_connection env i n" conn_inv conn_extends
  for env
proof
  show "conn_inv c" if "\<exists>i n. c = fresh_connection env i n" for c
    using that by (auto simp: conn_inv_def new_connection_def fresh_connection_eq(1))
  show "conn_inv (conn_step env c op)" if "conn_inv c" for c op by (rule conn_step_facts(1) [OF that])
  show "conn_extends c (conn_step env c op)" if "conn_inv c" for c op
    using conn_step_facts(2,3) [OF that, of env op] by (fastforce simp: conn_extends_def)
qed (auto simp: conn_extends_def)

lemma closed_refuses:
  assumes "tc_stage c = STATE_CLOSED"
  shows "\<not> require_transport c cap (op_stages op)"
  using assms by (cases op) (auto simp: require_transport_def)

section \<open>Properties of connections\<close>

text \<open>C18: A capability is good for one step: once it has been presented to a connection, whether it was
  accepted or refused, every later operation of the connection that presents it is refused and leaves
  the connection closed, whatever was done in between and whatever tokens were drawn.\<close>

theorem capability_single_use:
  assumes "op_cap op' = op_cap op"
  shows "let c = foldl (conn_step env) (fresh_connection env i n) (ops @ op # ops') in
    conn_run env c op' = (abort_conn c, Some (internal_500 ''connection_capability_invalid''))"
proof -
  define c where "c = foldl (conn_step env) (fresh_connection env i n) ops"
  let ?c1 = "conn_step env c op" and ?c2 = "foldl (conn_step env) (conn_step env c op) ops'"
  have inv: "conn_inv c" unfolding c_def by (rule connection.inv_from_start) blast
  have inv1: "conn_inv ?c1" by (rule conn_step_facts(1) [OF inv])
  have ext: "stage_rank (tc_stage ?c1) \<le> stage_rank (tc_stage ?c2)"
    using connection.extends_run [OF inv1, of env ops'] by (simp add: conn_extends_def)
  have "\<not> require_transport ?c2 (op_cap op') (op_stages op')"
  proof (cases "require_transport c (op_cap op) (op_stages op)")
    case True
    then have "tp_stage (op_cap op) = tc_stage c" by (simp add: require_transport_def)
    moreover have "tc_stage ?c1 = STATE_CLOSED \<or> stage_rank (tc_stage c) < stage_rank (tc_stage ?c1)"
      by (rule conn_step_facts(3) [OF inv])
    moreover have "stage_rank (tc_stage c) < 3"
      using True by (cases op) (auto simp: require_transport_def stage_rank_def)
    ultimately have "tp_stage (op_cap op') \<noteq> tc_stage ?c2" using ext assms by fastforce
    then show ?thesis by (simp add: require_transport_def)
  next
    case False
    have "?c1 = abort_conn c" by (simp add: conn_step_def conn_refused [OF False])
    then have "3 \<le> stage_rank (tc_stage ?c2)" using ext by simp
    moreover have "conn_inv ?c2" by (rule connection.inv_run [OF inv1])
    ultimately have "tc_stage ?c2 = STATE_CLOSED" by (auto simp: conn_inv_def split: if_splits)
    then show ?thesis by (rule closed_refuses)
  qed
  then show ?thesis by (simp add: conn_refused c_def)
qed

definition sample_fields :: "(string \<times> string) list" where
  "sample_fields = [(''Host'', TRANSPORT_HOST), (''Content-Type'', JSON_CONTENT_TYPE), (''Content-Length'', ''397''),
     (''Connection'', ''close'')]"

definition sample_tls_env :: tls_env where
  "sample_tls_env = \<lparr>tv_clock = (\<lambda>_. Some (Fin 0)),
     tv_recv = (\<lambda>n _. Recv_bytes [render_head sample_fields ! ((n - 2) div 3)]), tv_pending = (\<lambda>_. Some 0),
     tv_send_ok = (\<lambda>_. True), tv_token = (\<lambda>_. replicate 43 CHR ''A''), tv_read_total = Fin 5, tv_read_idle = Fin 1,
     tv_fparse = (\<lambda>_. NaN), tv_frepr = (\<lambda>_. [])\<rparr>"

abbreviation sample_first_capability :: transport_capability where
  "sample_first_capability \<equiv> \<lparr>tp_connection_id = sample_correlation, tp_stage = STATE_AUTHENTICATED,
     tp_ownership_token = replicate 43 CHR ''A''\<rparr>"

theorem capability_single_use_witness:
  "snd (conn_run sample_tls_env (fresh_connection sample_tls_env sample_correlation 0) (Op_close sample_first_capability)) = None \<and>
   snd (conn_run sample_tls_env (conn_step sample_tls_env (fresh_connection sample_tls_env sample_correlation 0)
     (Op_close sample_first_capability)) (Op_head sample_first_capability)) =
       Some (internal_500 ''connection_capability_invalid'')"
proof -
  have "is_uuid4 sample_correlation" "is_b64url_32 (replicate 43 CHR ''A'')" by code_simp+
  then have "snd (conn_run sample_tls_env (fresh_connection sample_tls_env sample_correlation 0) (Op_close sample_first_capability)) = None"
    by (simp add: close_conn_def guarded_conn_def require_transport_def fresh_connection_eq(1) new_connection_def sample_tls_env_def)
  moreover have "op_cap (Op_head sample_first_capability) = op_cap (Op_close sample_first_capability)" by simp
  note capability_single_use [OF this, of sample_tls_env sample_correlation 0 "[]" "[]"]
  ultimately show ?thesis by (simp add: Let_def)
qed

text \<open>Every connection ends: whatever the peer sends, however the clock runs and whatever sequence of
  operations is called, all of them together read the socket, the clock and the token source at most a
  fixed number of times (three times for each byte that a head and a body may have, and seven more).\<close>

theorem connection_reads_bounded:
  "tc_tick (foldl (conn_step env) (fresh_connection env i n) ops) \<le>
     n + 3 * (MAX_HEADER_BYTES + 1) + 3 * MAX_REQUEST_BODY_BYTES + 7"
proof -
  have "conn_inv (fresh_connection env i n)" by (rule connection.inv_start) blast
  from connection.extends_run [OF this, of env ops] show ?thesis
    by (simp add: conn_extends_def reads_left_def READS_HEAD_def READS_BODY_def new_connection_def fresh_connection_eq(1))
qed

text \<open>C38: One exchange per connection: in every run at most one message is handed to the socket, and
  none while the connection is open; a body is read only after a head was validated, and it has exactly
  the length the head declares, within the body limit.\<close>

theorem one_exchange_per_connection:
  "let c = foldl (conn_step env) (fresh_connection env i n) ops in
    length (tc_sent c) \<le> 1 \<and> (tc_stage c = STATE_CLOSED \<or> tc_sent c = []) \<and>
    (case read_body env cap c of (c', Inl e) \<Rightarrow> tc_stage c' = STATE_CLOSED \<and> \<not> tc_open c'
     | (c', Inr (body, cap')) \<Rightarrow> (\<exists>h. tc_head c = Some h \<and> length body = vh_content_length h \<and>
         1 \<le> length body \<and> length body \<le> MAX_REQUEST_BODY_BYTES))"
proof -
  define c where "c = foldl (conn_step env) (fresh_connection env i n) ops"
  have inv: "conn_inv c" unfolding c_def by (rule connection.inv_from_start) blast
  obtain c' r where b: "read_body env cap c = (c', r)" by fastforce
  have "case r of Inl e \<Rightarrow> tc_stage c' = STATE_CLOSED \<and> \<not> tc_open c'
     | Inr (body, cap') \<Rightarrow> (\<exists>h. tc_head c = Some h \<and> length body = vh_content_length h \<and>
         1 \<le> length body \<and> length body \<le> MAX_REQUEST_BODY_BYTES)"
  proof (cases "require_transport c cap [STATE_HEAD_VALIDATED]")
    case False
    then show ?thesis using b by (auto simp: read_body_def guarded_conn_def)
  next
    case q: True
    then obtain h where h: "tc_head c = Some h" "make_request_head h = Inr h"
      using inv by (auto simp: conn_inv_def require_transport_def)
    then have len: "1 \<le> vh_content_length h" "vh_content_length h \<le> MAX_REQUEST_BODY_BYTES"
      by (simp_all add: make_request_head_def split: if_splits)
    show ?thesis by (cases rule: read_body_cases [OF q b h(1) len(2)]) (use h(1) len in auto)
  qed
  then show ?thesis unfolding c_def [symmetric] Let_def using inv b by (auto simp: conn_inv_def split: if_splits sum.splits)
qed

section \<open>A steady peer\<close>

lemma cons_head_append: "ls \<noteq> [] \<Longrightarrow> cons_head c (ls @ ms) = cons_head c ls @ ms"
  by (cases ls) auto

lemma split_crlf_append: "split_crlf (t @ CRLF @ s) = split_crlf t @ split_crlf s"
  by (induction t rule: split_crlf.induct) (auto simp: cons_head_append)

text \<open>The blank line comes only at the end of a head.\<close>

lemma blank_line_last:
  assumes "ls \<noteq> []" "list_all (\<lambda>l. plain_line l \<and> l \<noteq> []) ls" "join_crlf ls @ CRLF @ CRLF = t @ CRLF @ CRLF @ u"
  shows "u = []"
proof -
  have plain: "list_all plain_line ls" and ne: "\<And>l. l \<in> set ls \<Longrightarrow> l \<noteq> []" using assms(2) by (auto simp: list_all_iff)
  have "split_crlf (join_crlf ls @ CRLF @ CRLF) = ls @ [[], []]"
    using split_crlf_append [of "join_crlf ls" CRLF] split_crlf_append [of "[]" "[]"] split_join [OF assms(1) plain] by simp
  moreover have "split_crlf (t @ CRLF @ CRLF @ u) = split_crlf t @ [] # split_crlf u"
    using split_crlf_append [of t "CRLF @ u"] split_crlf_append [of "[]" u] by simp
  ultimately have eq: "ls @ [[], []] = split_crlf t @ [] # split_crlf u" using assms(3) by simp
  have "length (split_crlf t) \<ge> length ls"
  proof (rule ccontr)
    assume "\<not> length (split_crlf t) \<ge> length ls"
    then have lt: "length (split_crlf t) < length ls" by simp
    have "(ls @ [[], []]) ! length (split_crlf t) = []" unfolding eq by simp
    then have "ls ! length (split_crlf t) = []" using lt by (simp add: nth_append)
    then show False using ne nth_mem [OF lt] by metis
  qed
  moreover have "length ls + 2 = length (split_crlf t) + 1 + length (split_crlf u)" using arg_cong [OF eq, of length] by simp
  moreover have "1 \<le> length (split_crlf u)" using split_crlf_ne [of u] by (cases "split_crlf u") auto
  ultimately have "length (split_crlf t) = length ls" by linarith
  then have "[[], []] = [] # split_crlf u" using eq by (metis append_eq_append_conv)
  then have "split_crlf u = [[]]" by simp
  then show "u = []" using join_split [of u] by simp
qed

lemma framing_prefix:
  assumes "validate_plain_framing (s @ t)"
  shows "validate_plain_framing s"
  unfolding framing_nth
proof (intro allI impI)
  fix i
  assume i: "i < length s"
  have "\<not> ((s @ t) ! i = LF \<and> (i = 0 \<or> (s @ t) ! (i - 1) \<noteq> CR))"
    "\<not> ((s @ t) ! i = CR \<and> i + 1 < length (s @ t) \<and> (s @ t) ! (i + 1) \<noteq> LF)"
    using assms i by (simp_all add: framing_nth)
  moreover have "(s @ t) ! i = s ! i" "(s @ t) ! (i - 1) = s ! (i - 1)" "i + 1 < length s \<Longrightarrow> (s @ t) ! (i + 1) = s ! (i + 1)"
    using i by (simp_all add: nth_append less_imp_diff_less)
  ultimately show "\<not> (s ! i = LF \<and> (i = 0 \<or> s ! (i - 1) \<noteq> CR)) \<and> \<not> (s ! i = CR \<and> i + 1 < length s \<and> s ! (i + 1) \<noteq> LF)"
    by auto
qed

text \<open>
  A peer that is slow but makes progress, on the readings of one run: the reading \<open>m + 3 * k\<close> is the clock before
  the byte \<open>k\<close> is awaited, the reading \<open>m + 3 * k + 1\<close> the byte, the reading \<open>m + 3 * k + 2\<close> the clock after it.
  The clock never runs backwards; the limits are the module's, five seconds for the whole request and one
  second for each pause, both kept with a margin of 1/1024 second for the rounding of the differences.
\<close>

definition paced :: "tls_env \<Rightarrow> (nat \<Rightarrow> rat) \<Rightarrow> nat \<Rightarrow> nat \<Rightarrow> bool" where
  "paced env w m n \<longleftrightarrow> tv_read_total env = Fin 5 \<and> tv_read_idle env = Fin 1 \<and> 0 \<le> w m \<and>
     list_all (\<lambda>k. let before = m + 3 * k; after = m + 3 * k + 2 in
       tv_clock env before = Some (Fin (w before)) \<and> tv_clock env after = Some (Fin (w after)) \<and>
       w m \<le> w before \<and> w before \<le> w after \<and> w after - w m \<le> 5 - 1 / 1024 \<and>
       (k = 0 \<or> w (before - 1) \<le> w before \<and> w before - w (before - 1) \<le> 1 - 1 / 1024)) [0..<n]"

definition sends :: "tls_env \<Rightarrow> nat \<Rightarrow> string \<Rightarrow> bool" where
  "sends env n raw \<longleftrightarrow> (\<forall>k < length raw. tv_recv env (n + 3 * k + 1) 1 = Recv_bytes [raw ! k])"

text \<open>Before the byte \<open>k\<close> the connection remembers the first reading and that after the byte before.\<close>

definition reading_conn :: "(nat \<Rightarrow> rat) \<Rightarrow> nat \<Rightarrow> nat \<Rightarrow> tls_connection \<Rightarrow> bool" where
  "reading_conn w m k c \<longleftrightarrow> tc_tick c = m + 3 * k \<and>
     (if k = 0 then tc_read_started c = None
      else tc_read_started c = Some (Fin (w m)) \<and> tc_last_progress c = Some (Fin (w (m + 3 * k - 1))))"

lemma fl_sub_zero [simp]: "fl_sub (Fin 0) (Fin 0) = Fin 0" "fl_sub (Fin 5) (Fin 0) = Fin 5" "fl_sub (Fin 1) (Fin 0) = Fin 1"
  using fl_round_small [of 0] fl_round_small [of 5] fl_round_small [of 1] nearest53_of_int [of 5] nearest53_of_int [of 1]
  by (simp_all add: fl_sub_def)

lemma nearest53_margins: "nearest53 (5 - 1 / 1024) = 5 - 1 / 1024" "nearest53 (1 - 1 / 1024) = 1 - 1 / 1024"
  "nearest53 (1 / 1024) = 1 / 1024"
  by code_simp+

text \<open>A difference that keeps the margin leaves, after both roundings, time of the limit.\<close>

lemma within_limit:
  assumes "b \<le> a" "a - b \<le> l - 1 / 1024" "l = 5 \<or> l = 1"
  shows "\<not> fl_le (fl_sub (Fin l) (fl_sub (Fin a) (Fin b))) (Fin 0)"
proof -
  let ?y = "nearest53 (a - b)"
  have big: "(5 :: rat) \<le> 2 ^ 1023" by (rule order_trans [of _ "2 ^ 3"]) (simp, rule power_increasing, simp_all)
  have x: "0 \<le> a - b" "\<bar>a - b\<bar> \<le> 2 ^ 1023" using assms big by (auto simp del: power_numeral)
  have y: "0 \<le> ?y" "?y \<le> l - 1 / 1024"
    using nearest53_nonneg [OF x(1)] nearest53_mono [OF assms(2)] assms(3) nearest53_margins by auto
  then have "\<bar>l - ?y\<bar> \<le> 2 ^ 1023" using assms(3) big by (auto simp del: power_numeral)
  then have "fl_sub (Fin l) (Fin ?y) = Fin (nearest53 (l - ?y))" by (simp add: fl_sub_def fl_round_small)
  moreover have "fl_sub (Fin a) (Fin b) = Fin ?y" using x(2) by (simp add: fl_sub_def fl_round_small)
  moreover have "1 / 1024 \<le> nearest53 (l - ?y)"
    using nearest53_mono [of "1 / 1024" "l - ?y"] y(2) nearest53_margins(3) by simp
  ultimately show ?thesis by simp
qed

lemma remaining_within: "b \<le> a \<Longrightarrow> a - b \<le> 5 - 1 / 1024 \<Longrightarrow> \<exists>t. remaining_time (Fin a) (Fin b) (Fin 5) = Inr t"
  using within_limit [of b a 5] by (simp add: remaining_time_def Let_def)

lemma paced_recv:
  assumes "paced env w m n" "k < n" "reading_conn w m k c" "tv_recv env (m + 3 * k + 1) j = Recv_bytes s" "s \<noteq> []"
  shows "\<exists>c'. recv_chunk env j c = (c', Inr s) \<and> reading_conn w m (Suc k) c' \<and> only_reads 3 c c'"
proof -
  let ?b = "m + 3 * k" let ?a = "m + 3 * k + 2"
  have lim: "tv_read_total env = Fin 5" "tv_read_idle env = Fin 1" "0 \<le> w m" using assms(1) by (simp_all add: paced_def)
  have p: "tv_clock env ?b = Some (Fin (w ?b))" "tv_clock env ?a = Some (Fin (w ?a))" "w m \<le> w ?b" "w ?b \<le> w ?a"
    "w ?a - w m \<le> 5 - 1 / 1024" "k = 0 \<or> w (?b - 1) \<le> w ?b \<and> w ?b - w (?b - 1) \<le> 1 - 1 / 1024"
    using assms(1,2) unfolding paced_def list_all_iff by (simp_all add: Let_def)
  obtain t where t: "remaining_time (Fin (w ?b)) (Fin (w m)) (Fin 5) = Inr t"
    using remaining_within [of "w m" "w ?b"] p(3-5) by fastforce
  obtain t' where t': "remaining_time (Fin (w ?a)) (Fin (w m)) (Fin 5) = Inr t'"
    using remaining_within [of "w m" "w ?a"] p(3-5) by fastforce
  let ?c1 = "c\<lparr>tc_read_started := Some (Fin (w m)),
    tc_last_progress := Some (Fin (if k = 0 then w m else w (?b - 1))), tc_tick := Suc ?b\<rparr>"
  have idle: "\<not> fl_le (fl_sub (Fin 1) (fl_sub (Fin (w ?b)) (Fin (if k = 0 then w m else w (?b - 1))))) (Fin 0)"
    by (rule within_limit) (use p(6) in auto)
  have now: "monotonic_value env c = (c\<lparr>tc_tick := Suc ?b\<rparr>, Inr (Fin (w ?b)))"
    using assms(3) p(1,3) lim(3) by (simp add: monotonic_value_def bindC_def readC_def returnC_def reading_conn_def)
  have rt: "read_timeout env c = (?c1, Inr (Fin (w ?b)))"
    using assms(3) lim(1,2) t idle unfolding read_timeout_def bindC_def now
    by (cases "k = 0") (auto simp: Let_def reading_conn_def)
  have after: "monotonic_value env (?c1\<lparr>tc_tick := ?a\<rparr>) = (?c1\<lparr>tc_tick := Suc ?a\<rparr>, Inr (Fin (w ?a)))"
    using p(2-4) lim(3) by (simp add: monotonic_value_def bindC_def readC_def returnC_def)
  have rp: "recv_progress env (Fin (w ?b)) s (?c1\<lparr>tc_tick := ?a\<rparr>) =
      (?c1\<lparr>tc_tick := Suc ?a, tc_last_progress := Some (Fin (w ?a))\<rparr>, Inr s)"
    using p(4) lim(1) t' unfolding recv_progress_def bindC_def after by simp
  have "recv_chunk env j c = (?c1\<lparr>tc_tick := Suc ?a, tc_last_progress := Some (Fin (w ?a))\<rparr>, Inr s)"
    unfolding recv_chunk_def bindC_def rt using assms(4,5) rp by (simp add: readC_def)
  then show ?thesis using assms(3) by (auto simp: reading_conn_def only_reads_def)
qed

lemma head_prefix_progress:
  assumes "head_grammar fs n" "render_head fs = s @ t"
  shows "head_progress s = None" "t \<noteq> [] \<Longrightarrow> \<not> ends_with (CRLF @ CRLF) s"
proof -
  let ?ls = "REQUEST_LINE # map field_line fs"
  have rl: "plain_line REQUEST_LINE" "REQUEST_LINE \<noteq> []" "length REQUEST_LINE + 2 \<le> MAX_REQUEST_LINE_BYTES + 2" by code_simp+
  have plain: "list_all (\<lambda>l. plain_line l \<and> l \<noteq> []) ?ls"
    using rl(1,2) assms(1) field_line_plain by (auto simp: head_grammar_def list_all_iff field_line_def)
  then have plain': "list_all plain_line ?ls" by (simp add: list_all_iff)
  have "validate_plain_framing (render_head fs)" unfolding render_head_def by (rule framing_join [OF plain']) simp
  then have framed: "validate_plain_framing s" using assms(2) framing_prefix by simp
  have len: "length s \<le> MAX_HEADER_BYTES" using assms by (auto simp: head_grammar_def)
  have "contains_crlf s" if "MAX_REQUEST_LINE_BYTES + 2 < length s"
  proof -
    obtain u where "render_head fs = REQUEST_LINE @ CRLF @ u"
      unfolding render_head_def by (cases fs) auto
    then have "s @ t = (REQUEST_LINE @ CRLF) @ u" using assms(2) by simp
    then have "take (length (REQUEST_LINE @ CRLF)) (s @ t) = REQUEST_LINE @ CRLF" by (metis append_eq_conv_conj)
    moreover have "length (REQUEST_LINE @ CRLF) - length s = 0" using that rl(3) by simp
    ultimately have "take (length (REQUEST_LINE @ CRLF)) s = REQUEST_LINE @ CRLF" by (simp only: take_append take_0 append_Nil2)
    then have "s = REQUEST_LINE @ CRLF @ drop (length (REQUEST_LINE @ CRLF)) s" by (metis append.assoc append_take_drop_id)
    then have "split_crlf s = REQUEST_LINE # split_crlf (drop (length (REQUEST_LINE @ CRLF)) s)"
      using split_crlf_line rl(1) by metis
    then show ?thesis using split_crlf_ne by (simp add: contains_crlf_def)
  qed
  then show "head_progress s = None" using framed len by (auto simp: head_progress_def)
  show "\<not> ends_with (CRLF @ CRLF) s" if "t \<noteq> []"
  proof
    assume "ends_with (CRLF @ CRLF) s"
    then obtain r where "s = r @ CRLF @ CRLF" by (auto simp: ends_with_iff)
    then have "join_crlf ?ls @ CRLF @ CRLF = r @ CRLF @ CRLF @ t" using assms(2) by (simp add: render_head_def)
    then show False using blank_line_last [of ?ls r t] plain that by simp
  qed
qed

lemma head_loop_paced:
  assumes "paced env w m (length (render_head fs))" "head_grammar fs n" "sends env m (render_head fs)"
    "render_head fs = s @ t" "reading_conn w m (length s) c"
  shows "\<exists>c'. head_loop env s c = (c', Inr (render_head fs)) \<and> only_reads (3 * length t) c c'"
  using assms(4-5)
proof (induction t arbitrary: s c)
  case Nil
  then have "ends_with (CRLF @ CRLF) s" by (auto simp: ends_with_iff render_head_def)
  then show ?case using Nil by simp
next
  case (Cons b t)
  have e: "\<not> ends_with (CRLF @ CRLF) s" using head_prefix_progress(2) [OF assms(2) Cons.prems(1)] by simp
  have k: "length s < length (render_head fs)" "render_head fs ! length s = b" using Cons.prems(1) by (simp_all add: nth_append)
  then have "tv_recv env (m + 3 * length s + 1) 1 = Recv_bytes [b]" using assms(3) by (auto simp: sends_def)
  from paced_recv [OF assms(1) k(1) Cons.prems(2) this] obtain c1 where
    c1: "recv_chunk env 1 c = (c1, Inr [b])" "reading_conn w m (length (s @ [b])) c1" "only_reads 3 c c1" by auto
  have p: "head_progress (s @ [b]) = None" using head_prefix_progress(1) [OF assms(2), of "s @ [b]" t] Cons.prems(1) by simp
  have step: "head_loop env s c = head_loop env (s @ [b]) c1" using e c1(1) p by (subst head_loop.simps) simp
  obtain c' where c': "head_loop env (s @ [b]) c1 = (c', Inr (render_head fs))" "only_reads (3 * length t) c1 c'"
    using Cons.IH [of "s @ [b]" c1] Cons.prems(1) c1(2) by auto
  have "only_reads (3 * length (b # t)) c c'" by (rule only_reads_trans [OF c1(3) c'(2)]) simp
  then show ?case using step c'(1) by auto
qed

text \<open>C39: A slow peer that keeps making progress is served.  Under the module's limits, when the bytes of a
  well-formed head arrive one by one, the clock never runs backwards, each pause between a byte and the
  next stays below the idle limit of one second and the whole below the total limit of five (each by a
  margin of 1/1024 second for rounding), then, however much the pauses add up to, the holder of the
  session's first capability reads exactly that head, and the connection is at its next stage, open, with
  a capability for reading the body.\<close>

theorem steady_peer_served:
  assumes "paced env w (Suc n) (length (render_head fs))" "head_grammar fs k" "sends env (Suc n) (render_head fs)"
    "is_uuid4 i" "is_b64url_32 (tv_token env n)" "initial_capability env (new_connection i n) = (c, Inr cap)"
  shows "\<exists>c' cap'. read_request_head env cap c = (c', Inr (head_of fs k, cap')) \<and>
    tc_stage c' = STATE_HEAD_VALIDATED \<and> tc_head c' = Some (head_of fs k) \<and> tc_open c' \<and> tc_sent c' = [] \<and>
    tp_stage cap' = STATE_HEAD_VALIDATED \<and> tp_connection_id cap' = i \<and>
    tc_token_sha256 c' = Some (sha256_hex (tp_ownership_token cap'))"
proof -
  have c: "c = fresh_connection env i n" "cap = \<lparr>tp_connection_id = i, tp_stage = STATE_AUTHENTICATED, tp_ownership_token = tv_token env n\<rparr>"
    using assms(6) by (simp_all add: fresh_connection_eq(2))
  have req: "require_transport c cap [STATE_AUTHENTICATED]"
    using assms(4,5) by (simp add: require_transport_def c fresh_connection_eq(1) new_connection_def)
  have "\<exists>c1. head_loop env [] c = (c1, Inr (render_head fs)) \<and> only_reads (3 * length (render_head fs)) c c1"
    by (rule head_loop_paced [OF assms(1-3)])
      (simp_all add: c fresh_connection_eq(1) new_connection_def reading_conn_def)
  then obtain c1 where c1: "head_loop env [] c = (c1, Inr (render_head fs))" "only_reads (3 * length (render_head fs)) c c1" by blast
  have parse: "parse_request_head (render_head fs) = Inr (head_of fs k)" using parse_render assms(2) by blast
  show ?thesis
    using req c1 parse
    by (auto simp: read_request_head_def guarded_conn_def abort_on_error_def bindC_def liftC_def updC_def new_capability_def
        readC_def returnC_def only_reads_def c fresh_connection_eq(1) new_connection_def)
qed

lemma sample_grammar: "head_grammar sample_fields 397"
proof -
  have "list_all field_ok sample_fields" "distinct (map fst (canonical sample_fields))"
    "length sample_fields \<le> MAX_HEADER_FIELDS" "length (render_head sample_fields) \<le> MAX_HEADER_BYTES"
    "map_of (canonical sample_fields) ''host'' = Some TRANSPORT_HOST"
    "map_of (canonical sample_fields) ''content-type'' = Some JSON_CONTENT_TYPE"
    "map_of (canonical sample_fields) ''connection'' = Some ''close''" "py_lower ''close'' = ''close''"
    "map_of (canonical sample_fields) ''content-length'' = Some ''397''" "is_content_length ''397''" "nat_of_dec ''397'' = 397"
    "397 \<le> MAX_REQUEST_BODY_BYTES"
    by code_simp+
  then show ?thesis unfolding head_grammar_def by auto
qed

text \<open>A clock that moves by 1/512 second with each reading: the head takes longer than the idle limit.\<close>

theorem steady_peer_served_witness:
  "\<exists>c' cap'. read_request_head (sample_tls_env\<lparr>tv_clock := \<lambda>k. Some (Fin (of_nat k / 512))\<rparr>)
     sample_first_capability (fresh_connection sample_tls_env sample_correlation 0) =
     (c', Inr (head_of sample_fields 397, cap')) \<and> tc_stage c' = STATE_HEAD_VALIDATED"
proof -
  let ?env = "sample_tls_env\<lparr>tv_clock := \<lambda>k. Some (Fin (of_nat k / 512))\<rparr>"
  have fr: "fresh_connection ?env i n = fresh_connection sample_tls_env i n" for i n by (simp add: fresh_connection_eq(1))
  have len: "length (render_head sample_fields) \<le> 800" by code_simp
  have "paced ?env (\<lambda>k. of_nat k / 512) (Suc 0) (length (render_head sample_fields))"
    unfolding paced_def list_all_iff using len by (auto simp: sample_tls_env_def Let_def field_simps of_nat_diff)
  moreover have "sends ?env (Suc 0) (render_head sample_fields)" by (simp add: sends_def sample_tls_env_def)
  moreover have "is_uuid4 sample_correlation" by code_simp
  moreover have "is_b64url_32 (tv_token ?env 0)" unfolding sample_tls_env_def by simp code_simp
  moreover have "initial_capability ?env (new_connection sample_correlation 0) =
      (fresh_connection sample_tls_env sample_correlation 0, Inr sample_first_capability)"
    by (simp add: fresh_connection_eq(2) fr) (simp add: sample_tls_env_def)
  ultimately show ?thesis using steady_peer_served [OF _ sample_grammar] by blast
qed

section \<open>Accepting\<close>

text \<open>The listener opens a session only for a peer on the loopback address that finished a TLS 1.3
  handshake and presented a certificate; the evidence names the digest of that very certificate, and the
  registry has an enabled, unrevoked record with that digest which is valid at the trusted time and whose
  identity is the only URI name of the certificate.\<close>

theorem accepted_session_authenticated:
  assumes "accept_authenticated env reg now ax = Inr s"
  shows "\<exists>der names t m. ax_accept ax = Accepted LOOPBACK_BIND_HOST \<and> ax_handshake ax = Handshake_done \<and>
    ax_version ax = Some TLS_VERSION \<and> ax_der ax = Some der \<and> ax_decoded ax = Some names \<and>
    now = Some t \<and> m \<in> set reg \<and> cr_certificate_sha256 m = sha256_hex der \<and> cr_enabled m \<and> \<not> cr_revoked m \<and>
    \<not> t < cr_not_before m \<and> t < cr_not_after m \<and> uri_sans names = [cr_uri_san m] \<and>
    pe_certificate_sha256 (ts_peer_evidence s) = sha256_hex der \<and>
    ap_credential_id (ts_admitted_producer s) = sha256_hex der \<and>
    ts_connection s = fresh_connection env (ax_connection_id ax) 0"
proof -
  obtain ev p where ev: "peer_evidence_of ax = Inr ev" "authenticate reg ev now = Inr p" "ts_peer_evidence s = ev"
    "ts_admitted_producer s = p" "ts_connection s = fresh_connection env (ax_connection_id ax) 0"
    using assms by (auto simp: accept_authenticated_def bindE_eq_Inr fresh_connection_eq(2) split: if_splits)
  obtain der names where d: "ax_accept ax = Accepted LOOPBACK_BIND_HOST" "ax_handshake ax = Handshake_done"
    "ax_version ax = Some TLS_VERSION" "ax_der ax = Some der" "ax_decoded ax = Some names"
    "pe_certificate_sha256 ev = sha256_hex der" "pe_uri_sans ev = uri_sans names"
    using ev(1) by (auto simp: peer_evidence_of_def bindE_eq_Inr
        split: accept_outcome.splits handshake_outcome.splits option.splits if_splits)
  obtain t m where m: "now = Some t" "match_record (pe_certificate_sha256 ev) None reg = Some m" "cr_enabled m"
    "\<not> cr_revoked m" "\<not> t < cr_not_before m" "t < cr_not_after m" "pe_uri_sans ev = [cr_uri_san m]"
    "ap_credential_id p = cr_certificate_sha256 m"
    using ev(2) by (auto simp: authenticate_def split: option.splits if_splits)
  have "m \<in> set reg" "cr_certificate_sha256 m = sha256_hex der" using match_record_Some [OF m(2)] d(6) by auto
  then show ?thesis using d m ev(3-5) by (intro exI [of _ der] exI [of _ names] exI [of _ t] exI [of _ m]) auto
qed

definition sample_accept :: accept_env where
  "sample_accept = \<lparr>ax_open = True, ax_accept = Accepted LOOPBACK_BIND_HOST, ax_wrap_ok = True, ax_started = Some (Fin 0),
     ax_now = Some (Fin 0), ax_handshake_seconds = Fin 5, ax_handshake = Handshake_done, ax_version = Some TLS_VERSION,
     ax_der = Some ''certificate'', ax_decoded = Some [San ''DNS'' ''sensor'', San ''URI'' REGISTERED_UNSW_URI_SAN],
     ax_connection_id = sample_correlation\<rparr>"

theorem accepted_session_authenticated_witness:
  "\<exists>s. accept_authenticated sample_tls_env [sample_cert\<lparr>cr_certificate_sha256 := sha256_hex ''certificate''\<rparr>]
     (Some sample_now) sample_accept = Inr s \<and> ap_credential_id (ts_admitted_producer s) = sha256_hex ''certificate''"
proof -
  let ?cert = "sample_cert\<lparr>cr_certificate_sha256 := sha256_hex ''certificate''\<rparr>"
  have ev: "peer_evidence_of sample_accept = Inr \<lparr>pe_tls_version = TLS_VERSION, pe_chain_authenticated = True,
      pe_client_auth_eku = True, pe_certificate_sha256 = sha256_hex ''certificate'', pe_uri_sans = [REGISTERED_UNSW_URI_SAN]\<rparr>"
    by (simp add: peer_evidence_of_def sample_accept_def check_clock_def remaining_time_def uri_sans_def Let_def fl_le_def)
  have op: "ax_open sample_accept" by (simp add: sample_accept_def)
  have "\<not> sample_now < cr_not_before sample_cert" "\<not> cr_not_after sample_cert \<le> sample_now" "cr_enabled sample_cert"
    "\<not> cr_revoked sample_cert" "cr_uri_san sample_cert = REGISTERED_UNSW_URI_SAN" by code_simp+
  then obtain s where s: "accept_authenticated sample_tls_env [?cert] (Some sample_now) sample_accept = Inr s"
    using op unfolding accept_authenticated_def ev by (simp add: authenticate_def fresh_connection_eq(2))
  show ?thesis using accepted_session_authenticated [OF s] s by (auto simp: sample_accept_def)
qed

end
