(* ===== verification/MultiSignalRisk.thy ===== *)
theory MultiSignalRisk
  imports Prelude
begin

text \<open>
  The missing-data aware risk score of \<^verbatim>\<open>models/multi_signal_risk.py\<close>: signal observations, weights,
  the fusion of the available signals in float arithmetic and its severity, and the experimental
  composite score, which refuses to run as a production decision.
\<close>

section \<open>Signals\<close>

datatype risk_error =
    MR_unknown_signal_slot | MR_invalid_signal_status | MR_available_signal_missing_score
  | MR_signal_score_out_of_bounds | MR_signal_score_nan | MR_unavailable_signal_must_not_have_score
  | MR_missing_unavailability_reason | MR_invalid_signal_weight | MR_invalid_observation_format
  | MR_duplicate_signal_slot | MR_empty_available_signal_set | MR_fusion_disabled

definition CANONICAL_SIGNAL_SLOTS :: "string list" where
  "CANONICAL_SIGNAL_SLOTS = [''supervised_rf'', ''autoencoder_v2_reconstruction'', ''isolation_forest_outlier'',
     ''ueba_behavioral_deviation'', ''threat_intel_ioc'', ''payload_entropy'', ''periodic_beaconing'']"

definition DEFAULT_SIGNAL_WEIGHTS :: "(string \<times> pyfloat) list" where
  "DEFAULT_SIGNAL_WEIGHTS =
    [(''supervised_rf'', fl_round (30 / 100)), (''autoencoder_v2_reconstruction'', fl_round (15 / 100)),
     (''isolation_forest_outlier'', fl_round (10 / 100)), (''ueba_behavioral_deviation'', fl_round (15 / 100)),
     (''threat_intel_ioc'', fl_round (15 / 100)), (''payload_entropy'', fl_round (75 / 1000)),
     (''periodic_beaconing'', fl_round (75 / 1000))]"

abbreviation SIGNAL_STATUS_AVAILABLE :: string where "SIGNAL_STATUS_AVAILABLE \<equiv> ''AVAILABLE''"
abbreviation SIGNAL_STATUS_UNAVAILABLE :: string where "SIGNAL_STATUS_UNAVAILABLE \<equiv> ''UNAVAILABLE''"

text \<open>The metadata of a signal is passed through unread and left out.  A score argument: absent, a value that \<^verbatim>\<open>float\<close> rejects, or the float it gives.
  (An integer beyond the range of floats, for which \<^verbatim>\<open>float\<close> raises \<^verbatim>\<open>OverflowError\<close>, has no counterpart.)\<close>

datatype score_arg = No_score | Not_a_number | Score pyfloat

record signal_observation =
  so_slot :: string
  so_status :: string
  so_score :: score_arg
  so_reason :: "string option"

definition make_observation ::
  "string \<Rightarrow> string \<Rightarrow> score_arg \<Rightarrow> string option \<Rightarrow> risk_error + signal_observation" where
  "make_observation slot status score reason =
     (if slot \<notin> set CANONICAL_SIGNAL_SLOTS then Inl MR_unknown_signal_slot
      else if status \<notin> set [SIGNAL_STATUS_AVAILABLE, SIGNAL_STATUS_UNAVAILABLE] then Inl MR_invalid_signal_status
      else let obs = \<lparr>so_slot = slot, so_status = status, so_score = score, so_reason = reason\<rparr> in
        if status = SIGNAL_STATUS_AVAILABLE
        then (case score of
            No_score \<Rightarrow> Inl MR_available_signal_missing_score
          | Not_a_number \<Rightarrow> Inl MR_signal_score_out_of_bounds
          | Score v \<Rightarrow> if \<not> is_finite v then Inl MR_signal_score_nan
              else if fl_le (Fin 0) v \<and> fl_le v (Fin 1) then Inr obs else Inl MR_signal_score_out_of_bounds)
        else if score \<noteq> No_score then Inl MR_unavailable_signal_must_not_have_score
        else (case reason of None \<Rightarrow> Inl MR_missing_unavailability_reason
          | Some r \<Rightarrow> if py_strip r = [] then Inl MR_missing_unavailability_reason else Inr obs))"

section \<open>Weights\<close>

text \<open>The custom weights: none, a value that is no mapping, or a mapping whose values \<^verbatim>\<open>float\<close> may reject.\<close>

datatype weights_arg = Default_weights | Not_a_mapping | Custom_weights "(string \<times> pyfloat option) list"

definition dict_set :: "(string \<times> 'v) list \<Rightarrow> string \<Rightarrow> 'v \<Rightarrow> (string \<times> 'v) list" where
  "dict_set d k v = (if k \<in> set (map fst d) then map (\<lambda>(k', v'). (k', if k' = k then v else v')) d else d @ [(k, v)])"

fun override_weights :: "(string \<times> pyfloat) list \<Rightarrow> (string \<times> pyfloat option) list \<Rightarrow> risk_error + (string \<times> pyfloat) list" where
  "override_weights weights [] = Inr weights"
| "override_weights weights ((slot, w) # ws) =
     (if slot \<notin> set CANONICAL_SIGNAL_SLOTS then Inl MR_unknown_signal_slot
      else case w of None \<Rightarrow> Inl MR_invalid_signal_weight
        | Some w_val \<Rightarrow> if \<not> is_finite w_val \<or> fl_le w_val (Fin 0) then Inl MR_invalid_signal_weight
            else override_weights (dict_set weights slot w_val) ws)"

definition validate_weights :: "weights_arg \<Rightarrow> risk_error + (string \<times> pyfloat) list" where
  "validate_weights custom = (case custom of
     Default_weights \<Rightarrow> Inr DEFAULT_SIGNAL_WEIGHTS
   | Not_a_mapping \<Rightarrow> Inl MR_invalid_signal_weight
   | Custom_weights ws \<Rightarrow> override_weights DEFAULT_SIGNAL_WEIGHTS ws)"

section \<open>Observations\<close>

text \<open>
  The argument \<^verbatim>\<open>observations\<close>: a sequence, whose items are observations or something else; a mapping,
  whose values are observations, mappings of their fields, numbers or something else; or neither.
\<close>

datatype obs_value =
    Value_observation signal_observation
  | Value_mapping "string option" score_arg "string option"
  | Value_number pyfloat
  | Value_other

datatype observations_arg =
    Observation_sequence "signal_observation option list"
  | Observation_mapping "(string \<times> obs_value) list"
  | Observations_other

fun collect_sequence ::
  "(string \<times> signal_observation) list \<Rightarrow> signal_observation option list \<Rightarrow> risk_error + (string \<times> signal_observation) list" where
  "collect_sequence obs_map [] = Inr obs_map"
| "collect_sequence obs_map (item # items) = (case item of
     None \<Rightarrow> Inl MR_invalid_observation_format
   | Some obs \<Rightarrow> if so_slot obs \<in> set (map fst obs_map) then Inl MR_duplicate_signal_slot
       else collect_sequence (obs_map @ [(so_slot obs, obs)]) items)"

definition observation_of_value :: "string \<Rightarrow> obs_value \<Rightarrow> risk_error + signal_observation" where
  "observation_of_value slot value = (case value of
     Value_observation obs \<Rightarrow> Inr obs
   | Value_mapping status score reason \<Rightarrow>
       make_observation slot (case status of None \<Rightarrow> SIGNAL_STATUS_AVAILABLE | Some s \<Rightarrow> s) score reason
   | Value_number v \<Rightarrow> make_observation slot SIGNAL_STATUS_AVAILABLE (Score v) None
   | Value_other \<Rightarrow> Inl MR_invalid_observation_format)"

fun collect_mapping ::
  "(string \<times> signal_observation) list \<Rightarrow> (string \<times> obs_value) list \<Rightarrow> risk_error + (string \<times> signal_observation) list" where
  "collect_mapping obs_map [] = Inr obs_map"
| "collect_mapping obs_map ((slot, value) # rest) =
     (if slot \<notin> set CANONICAL_SIGNAL_SLOTS then Inl MR_unknown_signal_slot
      else bindE (observation_of_value slot value) (\<lambda>obs. collect_mapping (dict_set obs_map slot obs) rest))"

definition collect_observations :: "observations_arg \<Rightarrow> risk_error + (string \<times> signal_observation) list" where
  "collect_observations observations = (case observations of
     Observation_sequence items \<Rightarrow> collect_sequence [] items
   | Observation_mapping entries \<Rightarrow> collect_mapping [] entries
   | Observations_other \<Rightarrow> Inl MR_invalid_observation_format)"

text \<open>Slots that were not given are unavailable.\<close>

definition observation_at :: "(string \<times> signal_observation) list \<Rightarrow> string \<Rightarrow> signal_observation" where
  "observation_at obs_map slot = (case map_of obs_map slot of Some obs \<Rightarrow> obs
     | None \<Rightarrow> \<lparr>so_slot = slot, so_status = SIGNAL_STATUS_UNAVAILABLE, so_score = No_score,
         so_reason = Some ''omitted_from_input''\<rparr>)"

section \<open>The score\<close>

definition score_of :: "signal_observation \<Rightarrow> pyfloat" where
  "score_of obs = (case so_score obs of Score v \<Rightarrow> v | _ \<Rightarrow> NaN)"

text \<open>The available slots with score and weight, in canonical order.\<close>

definition available_of :: "(string \<times> pyfloat) list \<Rightarrow> (string \<times> signal_observation) list \<Rightarrow> (string \<times> pyfloat \<times> pyfloat) list" where
  "available_of weights obs_map = map (\<lambda>slot. (slot, score_of (observation_at obs_map slot), the (map_of weights slot)))
     (filter (\<lambda>slot. so_status (observation_at obs_map slot) = SIGNAL_STATUS_AVAILABLE) CANONICAL_SIGNAL_SLOTS)"

definition unavailable_of :: "(string \<times> pyfloat) list \<Rightarrow> (string \<times> signal_observation) list \<Rightarrow> (string \<times> string option \<times> pyfloat) list" where
  "unavailable_of weights obs_map = map (\<lambda>slot. (slot, so_reason (observation_at obs_map slot), the (map_of weights slot)))
     (filter (\<lambda>slot. so_status (observation_at obs_map slot) \<noteq> SIGNAL_STATUS_AVAILABLE) CANONICAL_SIGNAL_SLOTS)"

definition weighted_sum :: "(string \<times> pyfloat \<times> pyfloat) list \<Rightarrow> pyfloat" where
  "weighted_sum avail = foldl (\<lambda>acc (slot, score, weight). fl_add acc (fl_mul weight score)) (Fin 0) avail"

definition weight_denominator :: "(string \<times> pyfloat \<times> pyfloat) list \<Rightarrow> pyfloat" where
  "weight_denominator avail = foldl (\<lambda>acc (slot, score, weight). fl_add acc weight) (Fin 0) avail"

definition clamped_risk :: "pyfloat \<Rightarrow> pyfloat \<Rightarrow> pyfloat" where
  "clamped_risk wsum denom = fl_min (fl_max (fl_mul (Fin 100) (fl_div wsum denom)) (Fin 0)) (Fin 100)"

definition severity_of :: "pyfloat \<Rightarrow> string" where
  "severity_of risk = (if fl_le (Fin 85) risk then ''critical'' else if fl_le (Fin 65) risk then ''high''
     else if fl_le (Fin 40) risk then ''medium'' else ''low'')"

definition contribution :: "pyfloat \<Rightarrow> pyfloat \<Rightarrow> pyfloat \<Rightarrow> pyfloat" where
  "contribution score weight denom = py_round 4 (fl_div (fl_mul (Fin 100) (fl_mul weight score)) denom)"

record risk_assessment =
  ra_dynamic_risk_score :: pyfloat
  ra_severity_level :: string
  ra_effective_weight_denominator :: pyfloat
  ra_available_signals :: "(string \<times> pyfloat \<times> pyfloat \<times> pyfloat) list"
  ra_unavailable_signals :: "(string \<times> string option \<times> pyfloat) list"
  ra_assessed_at_utc :: string

definition compute_dynamic_risk_score ::
  "string \<Rightarrow> observations_arg \<Rightarrow> weights_arg \<Rightarrow> string option \<Rightarrow> risk_error + risk_assessment" where
  "compute_dynamic_risk_score now_iso observations custom assessed_at_utc =
     bindE (validate_weights custom) (\<lambda>weights.
     bindE (collect_observations observations) (\<lambda>obs_map.
       let avail = available_of weights obs_map; denom = weight_denominator avail in
       if fl_le denom (Fin 0) \<or> avail = [] then Inl MR_empty_available_signal_set
       else let risk = clamped_risk (weighted_sum avail) denom in
         Inr \<lparr>ra_dynamic_risk_score = py_round 4 risk, ra_severity_level = severity_of risk,
              ra_effective_weight_denominator = py_round 6 denom,
              ra_available_signals = map (\<lambda>(slot, score, weight). (slot, score, weight, contribution score weight denom)) avail,
              ra_unavailable_signals = unavailable_of weights obs_map,
              ra_assessed_at_utc = (case assessed_at_utc of None \<Rightarrow> now_iso | Some s \<Rightarrow> if s = [] then now_iso else s)\<rparr>))"

section \<open>The experimental composite\<close>

definition COMPOSITE_WEIGHTS :: "(string \<times> pyfloat) list" where
  "COMPOSITE_WEIGHTS = [(''rf_prob'', fl_round (35 / 100)), (''ae_error'', fl_round (15 / 100)),
     (''ti_confidence'', fl_round (15 / 100)), (''asset_crit'', fl_round (10 / 100)), (''vel_burst'', fl_round (10 / 100)),
     (''hist_fp'', fl_round (5 / 100)), (''campaign_sev'', fl_round (10 / 100))]"

record composite_result =
  cs_experimental_composite_score :: pyfloat
  cs_separate_signal_breakdown :: "(string \<times> pyfloat option) list"
  cs_production_fusion_enabled :: bool
  cs_production_alert_authority :: string
  cs_evaluation_mode :: string

definition composite_fold :: "(string \<times> pyfloat) list \<Rightarrow> pyfloat \<times> pyfloat \<Rightarrow> string \<times> pyfloat option \<Rightarrow> pyfloat \<times> pyfloat" where
  "composite_fold weights acc entry = (case snd entry of None \<Rightarrow> acc
     | Some val \<Rightarrow> (let w = (case map_of weights (fst entry) of Some w \<Rightarrow> w | None \<Rightarrow> fl_round (1 / 10))
         in (fl_add (fst acc) (fl_mul w val), fl_add (snd acc) w)))"

definition evaluate_multi_signal_risk ::
  "pyfloat option \<Rightarrow> pyfloat option \<Rightarrow> pyfloat option \<Rightarrow> pyfloat option \<Rightarrow> pyfloat option \<Rightarrow> pyfloat option \<Rightarrow>
     pyfloat option \<Rightarrow> bool \<Rightarrow> (string \<times> pyfloat) list \<Rightarrow> risk_error + composite_result" where
  "evaluate_multi_signal_risk rf_prob ae_error ti_confidence asset_crit vel_burst hist_fp campaign_sev fusion custom =
     (if fusion then Inl MR_fusion_disabled
      else let breakdown = [(''rf_prob'', rf_prob), (''ae_error'', ae_error), (''ti_confidence'', ti_confidence),
                 (''asset_crit'', asset_crit), (''vel_burst'', vel_burst), (''hist_fp'', hist_fp), (''campaign_sev'', campaign_sev)];
               weights = foldl (\<lambda>d (k, v). dict_set d k v) COMPOSITE_WEIGHTS custom;
               (wsum, denom) = foldl (composite_fold weights) (Fin 0, Fin 0) breakdown;
               score = (if fl_less (Fin 0) denom then py_round 4 (fl_mul (fl_div wsum denom) (Fin 100)) else Fin 0)
           in Inr \<lparr>cs_experimental_composite_score = score, cs_separate_signal_breakdown = breakdown,
                   cs_production_fusion_enabled = False, cs_production_alert_authority = ''frozen_random_forest_only'',
                   cs_evaluation_mode = ''experimental_offline_non_production_fusion_disabled''\<rparr>)"

end
