(* ===== verification/MultiSignalRisk_Facts.thy ===== *)
theory MultiSignalRisk_Facts
  imports MultiSignalRisk
begin

text \<open>
  The risk score in float arithmetic: it stays within its scale, it is monotone in every signal although
  each operation rounds, it does not depend on what is missing, and unbounded custom weights break it.
\<close>

section \<open>Sums of bounded floats\<close>

definition big :: "nat \<Rightarrow> rat" where
  "big k = 2 ^ k"

lemma big_mono: "j \<le> k \<Longrightarrow> big j \<le> big k"
  unfolding big_def by (rule power_increasing) auto

lemma big_Suc: "big (Suc k) = 2 * big k"
  by (simp add: big_def)

lemma nearest53_big: "k \<le> 1023 \<Longrightarrow> nearest53 (big k) = big k"
  using nearest53_grid [of "2 ^ k" 1 "int k"] by (simp add: big_def)

lemma fl_round_big:
  assumes "0 \<le> x" "x \<le> big k" "k \<le> 1023"
  shows "fl_round x = Fin (nearest53 x)" "0 \<le> nearest53 x" "nearest53 x \<le> big k"
proof -
  have "x \<le> big 1023" using assms(2) big_mono [OF assms(3)] by (rule order_trans)
  then have "\<bar>x\<bar> \<le> 2 ^ 1023" using assms(1) unfolding big_def by (simp only: abs_of_nonneg)
  then show "fl_round x = Fin (nearest53 x)" by (rule fl_round_small)
  show "0 \<le> nearest53 x" by (rule nearest53_nonneg [OF assms(1)])
  show "nearest53 x \<le> big k" using nearest53_mono [OF assms(2)] nearest53_big [OF assms(3)] by simp
qed

section \<open>The available signals\<close>

text \<open>A signal with a score in the unit interval and a weight that is a float above 0 and up to \<open>2 ^ 1000\<close>.\<close>

definition sane_signal :: "string \<times> pyfloat \<times> pyfloat \<Rightarrow> bool" where
  "sane_signal e \<longleftrightarrow> (\<exists>s w. snd e = (Fin s, Fin w) \<and> 0 \<le> s \<and> s \<le> 1 \<and> 0 < w \<and> w \<le> big 1000 \<and> nearest53 w = w)"

definition no_worse :: "string \<times> pyfloat \<times> pyfloat \<Rightarrow> string \<times> pyfloat \<times> pyfloat \<Rightarrow> bool" where
  "no_worse e f \<longleftrightarrow> snd (snd e) = snd (snd f) \<and> fl_le (fst (snd e)) (fst (snd f))"

lemma product_bounded:
  assumes "0 \<le> s" "s \<le> 1" "0 < w" "w \<le> big 1000" "nearest53 w = w"
  shows "fl_mul (Fin w) (Fin s) = Fin (nearest53 (w * s))" "0 \<le> nearest53 (w * s)" "nearest53 (w * s) \<le> w"
proof -
  have ws: "0 \<le> w * s" "w * s \<le> w" using assms by (simp_all add: mult_left_le)
  then have "w * s \<le> big 1000" using assms(4) by linarith
  from fl_round_big [OF ws(1) this] show "fl_mul (Fin w) (Fin s) = Fin (nearest53 (w * s))" "0 \<le> nearest53 (w * s)"
    by simp_all
  show "nearest53 (w * s) \<le> w" using nearest53_mono [OF ws(2)] assms(5) by simp
qed

definition sum_step :: "pyfloat \<Rightarrow> string \<times> pyfloat \<times> pyfloat \<Rightarrow> pyfloat" where
  "sum_step acc e = fl_add acc (fl_mul (snd (snd e)) (fst (snd e)))"

definition denom_step :: "pyfloat \<Rightarrow> string \<times> pyfloat \<times> pyfloat \<Rightarrow> pyfloat" where
  "denom_step acc e = fl_add acc (snd (snd e))"

lemma sums_folds: "weighted_sum es = foldl sum_step (Fin 0) es" "weight_denominator es = foldl denom_step (Fin 0) es"
proof -
  have "(\<lambda>acc (slot, score, weight). fl_add acc (fl_mul weight score)) = sum_step"
    "(\<lambda>acc (slot, score, weight). fl_add acc weight) = denom_step"
    by (auto simp: fun_eq_iff sum_step_def denom_step_def)
  then show "weighted_sum es = foldl sum_step (Fin 0) es" "weight_denominator es = foldl denom_step (Fin 0) es"
    by (simp_all add: weighted_sum_def weight_denominator_def)
qed

text \<open>The two running sums stay finite and ordered, and the denominator does not fall.\<close>

lemma running_step:
  assumes "sane_signal e" "0 \<le> t" "t \<le> d" "nearest53 d = d" "d \<le> big k" "1000 \<le> k" "k < 1023"
  shows "\<exists>t1 d1. sum_step (Fin t) e = Fin t1 \<and> denom_step (Fin d) e = Fin d1 \<and> 0 \<le> t1 \<and> t1 \<le> d1 \<and>
    nearest53 d1 = d1 \<and> d \<le> d1 \<and> d1 \<le> big (Suc k) \<and> fin_val (snd (snd e)) \<le> d1"
proof -
  obtain sl s w where e: "e = (sl, Fin s, Fin w)" and sw: "0 \<le> s" "s \<le> 1" "0 < w" "w \<le> big 1000" "nearest53 w = w"
    using assms(1) by (cases e) (auto simp: sane_signal_def)
  note p = product_bounded [OF sw]
  have wk: "w \<le> big k" using sw(4) big_mono [OF assms(6)] by linarith
  have dw: "0 \<le> d + w" "d + w \<le> big (Suc k)" using assms sw(3) wk by (simp_all add: big_Suc)
  have tp: "0 \<le> t + nearest53 (w * s)" "t + nearest53 (w * s) \<le> d + w" using assms p by simp_all
  have "t + nearest53 (w * s) \<le> big (Suc k)" using tp(2) dw(2) by linarith
  note rt = fl_round_big [OF tp(1) this] and rd = fl_round_big [OF dw]
  have "d \<le> nearest53 (d + w)" "w \<le> nearest53 (d + w)"
    using nearest53_mono [of d "d + w"] nearest53_mono [of w "d + w"] assms sw by simp_all
  then show ?thesis
    using rt rd p assms(7) nearest53_mono [OF tp(2)]
    by (intro exI [of _ "nearest53 (t + nearest53 (w * s))"] exI [of _ "nearest53 (d + w)"])
      (simp add: e sum_step_def denom_step_def fin_val_def)
qed

lemma running_sums:
  assumes "list_all sane_signal es" "0 \<le> t" "t \<le> d" "nearest53 d = d" "d \<le> big k" "1000 \<le> k" "k + length es \<le> 1023"
  shows "\<exists>t' d'. foldl sum_step (Fin t) es = Fin t' \<and> foldl denom_step (Fin d) es = Fin d' \<and>
    0 \<le> t' \<and> t' \<le> d' \<and> d \<le> d'"
  using assms
proof (induction es arbitrary: t d k)
  case (Cons e es)
  have e: "sane_signal e" "k < 1023" using Cons.prems by simp_all
  obtain t1 d1 where s: "sum_step (Fin t) e = Fin t1" "denom_step (Fin d) e = Fin d1" "0 \<le> t1" "t1 \<le> d1" "nearest53 d1 = d1"
    "d \<le> d1" "d1 \<le> big (Suc k)"
    using running_step [OF e(1) Cons.prems(2-6) e(2)] by blast
  from Cons.IH [OF _ s(3,4,5,7)] Cons.prems obtain t' d' where
    "foldl sum_step (Fin t1) es = Fin t'" "foldl denom_step (Fin d1) es = Fin d'" "0 \<le> t'" "t' \<le> d'" "d1 \<le> d'"
    by auto
  then show ?case using s by auto
qed auto

lemma total_sums:
  assumes "list_all sane_signal es" "es \<noteq> []" "length es \<le> 7"
  shows "\<exists>t d. weighted_sum es = Fin t \<and> weight_denominator es = Fin d \<and> 0 \<le> t \<and> t \<le> d \<and> 0 < d"
proof -
  obtain e fs where es: "es = e # fs" using assms(2) by (cases es) auto
  have "sane_signal e" using assms(1) es by simp
  moreover have "(0 :: rat) \<le> big 1000" by (simp add: big_def)
  ultimately obtain t1 d1 where s: "sum_step (Fin 0) e = Fin t1" "denom_step (Fin 0) e = Fin d1" "0 \<le> t1" "t1 \<le> d1" "nearest53 d1 = d1"
    "d1 \<le> big 1001" "fin_val (snd (snd e)) \<le> d1"
    using running_step [of e 0 0 1000] by auto
  have "0 < fin_val (snd (snd e))" using \<open>sane_signal e\<close> by (auto simp: sane_signal_def fin_val_def)
  then have d1: "0 < d1" using s(7) by linarith
  have "list_all sane_signal fs" "1001 + length fs \<le> 1023" using assms es by simp_all
  with running_sums [of fs t1 d1 1001] s(3-6) obtain t' d' where
    "foldl sum_step (Fin t1) fs = Fin t'" "foldl denom_step (Fin d1) fs = Fin d'" "0 \<le> t'" "t' \<le> d'" "d1 \<le> d'" by auto
  then show ?thesis using s d1 by (auto simp: sums_folds es)
qed

text \<open>The scores move the weighted sum in their direction.\<close>

lemma sum_monotone:
  assumes "list_all sane_signal es" "list_all sane_signal fs" "list_all2 no_worse es fs"
    "0 \<le> t" "t \<le> u" "u \<le> d" "nearest53 d = d" "d \<le> big k" "1000 \<le> k" "k + length es \<le> 1023"
  shows "fl_le (foldl sum_step (Fin t) es) (foldl sum_step (Fin u) fs)"
  using assms(3,1,2,4-10)
proof (induction es fs arbitrary: t u d k rule: list_all2_induct)
  case (Cons e es f fs)
  obtain s w where e: "snd e = (Fin s, Fin w)" and sw: "0 \<le> s" "s \<le> 1" "0 < w" "w \<le> big 1000" "nearest53 w = w"
    using Cons.prems(1) by (auto simp: sane_signal_def)
  obtain s' where f: "snd f = (Fin s', Fin w)" and s': "0 \<le> s'" "s' \<le> 1" "s \<le> s'"
    using Cons.prems(2) Cons.hyps(1) e by (auto simp: sane_signal_def no_worse_def)
  have ek: "sane_signal e" "sane_signal f" "k < 1023" "t \<le> d" "0 \<le> u" using Cons.prems by auto
  obtain t1 d1 where t1: "sum_step (Fin t) e = Fin t1" "denom_step (Fin d) e = Fin d1" "0 \<le> t1" "d1 \<le> big (Suc k)"
      "nearest53 d1 = d1"
    using running_step [OF ek(1) Cons.prems(3) ek(4) Cons.prems(6,7,8) ek(3)] by blast
  obtain u1 d2 where u1: "sum_step (Fin u) f = Fin u1" "denom_step (Fin d) f = Fin d2" "u1 \<le> d2"
    using running_step [OF ek(2) ek(5) Cons.prems(5,6,7,8) ek(3)] by blast
  have "d2 = d1" using t1(2) u1(2) by (simp add: denom_step_def e f)
  have "w * s \<le> w * s'" using sw(3) s'(3) by (simp add: mult_left_mono)
  then have "fl_le (sum_step (Fin t) e) (sum_step (Fin u) f)"
    using product_bounded(1) [OF sw] product_bounded(1) [OF s'(1,2) sw(3-5)] Cons.prems(4)
      nearest53_mono [of "w * s" "w * s'"]
    by (simp add: sum_step_def e f fl_round_mono)
  then have "t1 \<le> u1" by (simp add: t1(1) u1(1))
  then have "fl_le (foldl sum_step (Fin t1) es) (foldl sum_step (Fin u1) fs)"
    using Cons.IH [of t1 u1 d1 "Suc k"] Cons.prems t1 u1(3) \<open>d2 = d1\<close> by simp
  then show ?case by (simp add: t1(1) u1(1))
qed simp

section \<open>The score of finite sums\<close>

lemma nearest53_100: "nearest53 100 = 100"
  using nearest53_of_int [of 100] by simp

lemma clamped_risk_value:
  assumes "0 \<le> t" "t \<le> d" "0 < d"
  shows "clamped_risk (Fin t) (Fin d) = Fin (nearest53 (100 * nearest53 (t / d)))"
    "0 \<le> nearest53 (100 * nearest53 (t / d))" "nearest53 (100 * nearest53 (t / d)) \<le> 100"
proof -
  have q: "0 \<le> t / d" "t / d \<le> big 0" using assms by (simp_all add: big_def)
  note n = fl_round_big [OF q]
  have m: "0 \<le> 100 * nearest53 (t / d)" "100 * nearest53 (t / d) \<le> 100" using n by (simp_all add: big_def)
  then have "100 * nearest53 (t / d) \<le> big 7" by (simp add: big_def)
  note k = fl_round_big [OF m(1) this]
  show u: "nearest53 (100 * nearest53 (t / d)) \<le> 100" using nearest53_mono [OF m(2)] nearest53_100 by simp
  show l: "0 \<le> nearest53 (100 * nearest53 (t / d))" using k(2) by simp
  show "clamped_risk (Fin t) (Fin d) = Fin (nearest53 (100 * nearest53 (t / d)))"
    using n(1) k(1) u l by (simp add: clamped_risk_def fl_min_def fl_max_def)
qed

lemma clamped_risk_mono:
  assumes "0 \<le> t" "t \<le> t'" "t' \<le> d" "0 < d"
  shows "fl_le (clamped_risk (Fin t) (Fin d)) (clamped_risk (Fin t') (Fin d))"
proof -
  have "t / d \<le> t' / d" using assms by (simp add: divide_right_mono)
  then have "nearest53 (t / d) \<le> nearest53 (t' / d)" by (rule nearest53_mono)
  then have "nearest53 (100 * nearest53 (t / d)) \<le> nearest53 (100 * nearest53 (t' / d))" by (intro nearest53_mono) simp
  then show ?thesis using clamped_risk_value(1) [of t d] clamped_risk_value(1) [of t' d] assms by simp
qed

lemma py_round_mono: "a \<le> b \<Longrightarrow> fl_le (py_round n (Fin a)) (py_round n (Fin b))"
  by (auto simp: py_round_def intro!: fl_round_mono divide_right_mono round_half_even_mono mult_right_mono)

lemma py_round4_percent:
  assumes "0 \<le> r" "r \<le> 100"
  shows "\<exists>x. py_round 4 (Fin r) = Fin x \<and> 0 \<le> x \<and> x \<le> 100"
proof -
  let ?q = "of_int (round_half_even (r * 10 ^ 4)) / 10 ^ 4 :: rat"
  have "round_half_even (r * 10 ^ 4) \<le> round_half_even (of_int 1000000)"
    by (rule round_half_even_mono) (use assms(2) in simp)
  then have "(of_int (round_half_even (r * 10 ^ 4)) :: rat) \<le> of_int 1000000" by (simp only: of_int_le_iff round_half_even_of_int)
  then have q: "0 \<le> ?q" "?q \<le> 100"
    using round_half_even_nonneg [of "r * 10 ^ 4"] assms(1) by simp_all
  then have "?q \<le> big 7" by (simp add: big_def)
  from fl_round_big [OF q(1) this] nearest53_mono [OF q(2)] show ?thesis
    by (intro exI [of _ "nearest53 ?q"]) (simp add: py_round_def nearest53_100)
qed

definition severity_rank :: "string \<Rightarrow> nat" where
  "severity_rank s = (if s = ''critical'' then 3 else if s = ''high'' then 2 else if s = ''medium'' then 1 else 0)"

lemma severity_mono: "fl_le a b \<Longrightarrow> severity_rank (severity_of a) \<le> severity_rank (severity_of b)"
  by (auto simp: severity_of_def severity_rank_def dest: fl_le_trans)

section \<open>Valid arguments\<close>

definition valid_observation :: "signal_observation \<Rightarrow> bool" where
  "valid_observation obs \<longleftrightarrow> make_observation (so_slot obs) (so_status obs) (so_score obs) (so_reason obs) = Inr obs"

text \<open>Observation objects of an argument were made by their constructor.\<close>

definition valid_argument :: "observations_arg \<Rightarrow> bool" where
  "valid_argument observations = (case observations of
     Observation_sequence items \<Rightarrow> list_all (\<lambda>i. case i of None \<Rightarrow> True | Some obs \<Rightarrow> valid_observation obs) items
   | Observation_mapping entries \<Rightarrow>
       list_all (\<lambda>(k, v). case v of Value_observation obs \<Rightarrow> valid_observation obs | _ \<Rightarrow> True) entries
   | Observations_other \<Rightarrow> True)"

definition sane_weights :: "(string \<times> pyfloat) list \<Rightarrow> bool" where
  "sane_weights ws \<longleftrightarrow> (\<forall>slot \<in> set CANONICAL_SIGNAL_SLOTS. \<exists>w. map_of ws slot = Some (Fin w) \<and>
     0 < w \<and> w \<le> big 1000 \<and> nearest53 w = w)"

lemma make_observation_valid: "make_observation slot status score reason = Inr obs \<Longrightarrow> valid_observation obs"
  by (auto simp: valid_observation_def make_observation_def Let_def split: if_splits score_arg.splits option.splits)

lemma valid_observation_score:
  "valid_observation obs \<Longrightarrow> so_status obs = SIGNAL_STATUS_AVAILABLE \<Longrightarrow>
     \<exists>s. score_of obs = Fin s \<and> 0 \<le> s \<and> s \<le> 1"
  by (auto simp: valid_observation_def make_observation_def score_of_def is_finite_def
      split: if_splits score_arg.splits pyfloat.splits)

lemma collect_sequence_valid:
  "collect_sequence m items = Inr m' \<Longrightarrow> list_all (\<lambda>i. case i of None \<Rightarrow> True | Some obs \<Rightarrow> valid_observation obs) items \<Longrightarrow>
     list_all (valid_observation \<circ> snd) m \<Longrightarrow> list_all (valid_observation \<circ> snd) m'"
  by (induction m items rule: collect_sequence.induct) (auto split: option.splits if_splits)

lemma dict_set_values: "list_all (P \<circ> snd) d \<Longrightarrow> P v \<Longrightarrow> list_all (P \<circ> snd) (dict_set d k v)"
  by (auto simp: dict_set_def list_all_iff)

lemma collect_mapping_valid:
  "collect_mapping m entries = Inr m' \<Longrightarrow>
     list_all (\<lambda>(k, v). case v of Value_observation obs \<Rightarrow> valid_observation obs | _ \<Rightarrow> True) entries \<Longrightarrow>
     list_all (valid_observation \<circ> snd) m \<Longrightarrow> list_all (valid_observation \<circ> snd) m'"
proof (induction m entries rule: collect_mapping.induct)
  case (2 m slot v rest)
  then obtain obs where o: "observation_of_value slot v = Inr obs" "collect_mapping (dict_set m slot obs) rest = Inr m'"
    and s: "slot \<in> set CANONICAL_SIGNAL_SLOTS"
    by (auto simp: bindE_eq_Inr split: if_splits)
  have "valid_observation obs"
    using o(1) "2.prems"(2) by (auto simp: observation_of_value_def dest: make_observation_valid split: obs_value.splits)
  then have "list_all (valid_observation \<circ> snd) (dict_set m slot obs)" using "2.prems"(3) by (intro dict_set_values)
  then show ?case using "2.IH" [OF _ o(2)] s "2.prems" by (auto simp: comp_def)
qed simp

lemma collect_valid:
  assumes "collect_observations observations = Inr m" "valid_argument observations"
  shows "list_all (valid_observation \<circ> snd) m"
  using assms collect_sequence_valid [of "[]"] collect_mapping_valid [of "[]"]
  by (auto simp: collect_observations_def valid_argument_def split: observations_arg.splits)

lemma observation_at_available:
  assumes "list_all (valid_observation \<circ> snd) m" "so_status (observation_at m slot) = SIGNAL_STATUS_AVAILABLE"
  shows "\<exists>s. score_of (observation_at m slot) = Fin s \<and> 0 \<le> s \<and> s \<le> 1"
proof (cases "map_of m slot")
  case (Some obs)
  then have "valid_observation obs" using assms(1) map_of_SomeD by (fastforce simp: list_all_iff)
  then show ?thesis using valid_observation_score assms(2) Some by (simp add: observation_at_def)
qed (use assms(2) in \<open>simp add: observation_at_def\<close>)

lemma available_sane:
  assumes "list_all (valid_observation \<circ> snd) m" "sane_weights ws"
  shows "list_all sane_signal (available_of ws m)" "length (available_of ws m) \<le> 7"
proof -
  have "sane_signal (slot, score_of (observation_at m slot), the (map_of ws slot))"
    if "slot \<in> set CANONICAL_SIGNAL_SLOTS" "so_status (observation_at m slot) = SIGNAL_STATUS_AVAILABLE" for slot
    using observation_at_available [OF assms(1) that(2)] assms(2) that(1) by (auto simp: sane_weights_def sane_signal_def)
  then show "list_all sane_signal (available_of ws m)" by (auto simp: available_of_def list_all_iff)
  have "length CANONICAL_SIGNAL_SLOTS = 7" by (simp add: CANONICAL_SIGNAL_SLOTS_def)
  then show "length (available_of ws m) \<le> 7"
    unfolding available_of_def length_map by (metis length_filter_le)
qed

text \<open>What the computation returns for valid arguments.\<close>

lemma risk_value:
  assumes "validate_weights custom = Inr ws" "sane_weights ws" "valid_argument observations"
    "collect_observations observations = Inr m" "available_of ws m \<noteq> []"
  obtains t d a where "weighted_sum (available_of ws m) = Fin t" "weight_denominator (available_of ws m) = Fin d"
    "0 \<le> t" "t \<le> d" "0 < d" "compute_dynamic_risk_score now observations custom stamp = Inr a"
    "ra_dynamic_risk_score a = py_round 4 (clamped_risk (Fin t) (Fin d))"
    "ra_severity_level a = severity_of (clamped_risk (Fin t) (Fin d))"
    "ra_effective_weight_denominator a = py_round 6 (Fin d)"
proof -
  have sane: "list_all sane_signal (available_of ws m)" "length (available_of ws m) \<le> 7"
    using available_sane [OF collect_valid [OF assms(4,3)] assms(2)] by simp_all
  obtain t d where td: "weighted_sum (available_of ws m) = Fin t" "weight_denominator (available_of ws m) = Fin d"
    "0 \<le> t" "t \<le> d" "0 < d" using total_sums [OF sane(1) assms(5) sane(2)] by blast
  then obtain a where "compute_dynamic_risk_score now observations custom stamp = Inr a"
    "ra_dynamic_risk_score a = py_round 4 (clamped_risk (Fin t) (Fin d))"
    "ra_severity_level a = severity_of (clamped_risk (Fin t) (Fin d))"
    "ra_effective_weight_denominator a = py_round 6 (Fin d)"
    using assms by (simp add: compute_dynamic_risk_score_def Let_def)
  with td show thesis by (rule that)
qed

lemma available_Nil_iff:
  "available_of ws m = [] \<longleftrightarrow> (\<forall>slot \<in> set CANONICAL_SIGNAL_SLOTS. so_status (observation_at m slot) \<noteq> SIGNAL_STATUS_AVAILABLE)"
  by (auto simp: available_of_def filter_empty_conv)

section \<open>Default weights\<close>

lemma default_weight_sane:
  assumes "1 / 16 \<le> p" "p \<le> 1"
  shows "\<exists>w. fl_round p = Fin w \<and> 0 < w \<and> w \<le> big 1000 \<and> nearest53 w = w"
proof -
  have "(1 / 16 :: rat) = of_int 1 * 2 powi (- 4)" by (simp add: power_int_minus)
  then have "nearest53 (1 / 16) = 1 / 16" by (rule nearest53_grid) simp_all
  then have "1 / 16 \<le> nearest53 p" using nearest53_mono [OF assms(1)] by simp
  moreover have "p \<le> big 0" "0 \<le> p" using assms by (simp_all add: big_def)
  moreover note fl_round_big [OF this(2) this(1)]
  moreover have "big 0 \<le> big 1000" by (rule big_mono) simp
  ultimately show ?thesis by (intro exI [of _ "nearest53 p"]) auto
qed

lemma default_weights_sane: "sane_weights DEFAULT_SIGNAL_WEIGHTS"
proof -
  have "\<exists>w. fl_round p = Fin w \<and> 0 < w \<and> w \<le> big 1000 \<and> nearest53 w = w"
    if "p \<in> {30 / 100, 15 / 100, 10 / 100, 75 / 1000}" for p
    using that by (intro default_weight_sane) auto
  then show ?thesis
    by (simp add: sane_weights_def CANONICAL_SIGNAL_SLOTS_def DEFAULT_SIGNAL_WEIGHTS_def)
qed

definition one_signal :: "rat \<Rightarrow> observations_arg" where
  "one_signal s = Observation_mapping [(''supervised_rf'', Value_number (Fin s))]"

abbreviation one_signal_map :: "rat \<Rightarrow> (string \<times> signal_observation) list" where
  "one_signal_map s \<equiv> [(''supervised_rf'', \<lparr>so_slot = ''supervised_rf'', so_status = SIGNAL_STATUS_AVAILABLE,
     so_score = Score (Fin s), so_reason = None\<rparr>)]"

lemma one_signal_collected: "0 \<le> s \<Longrightarrow> s \<le> 1 \<Longrightarrow> collect_observations (one_signal s) = Inr (one_signal_map s)"
  by (simp add: one_signal_def collect_observations_def observation_of_value_def make_observation_def
      CANONICAL_SIGNAL_SLOTS_def is_finite_def dict_set_def)

lemma one_signal_valid: "valid_argument (one_signal s)"
  by (simp add: valid_argument_def one_signal_def)

lemma default_validated: "validate_weights Default_weights = Inr DEFAULT_SIGNAL_WEIGHTS"
  by (simp add: validate_weights_def)

lemma one_signal_at:
  "slot \<in> set CANONICAL_SIGNAL_SLOTS \<Longrightarrow> so_status (observation_at (one_signal_map s) slot) =
     (if slot = ''supervised_rf'' then SIGNAL_STATUS_AVAILABLE else SIGNAL_STATUS_UNAVAILABLE)"
  "slot = ''supervised_rf'' \<Longrightarrow> score_of (observation_at (one_signal_map s) slot) = Fin s"
  by (simp_all add: observation_at_def score_of_def)

lemma one_signal_slot: "''supervised_rf'' \<in> set CANONICAL_SIGNAL_SLOTS"
  by (simp add: CANONICAL_SIGNAL_SLOTS_def)

lemma one_signal_assessed:
  assumes "0 \<le> s" "s \<le> 1"
  shows "\<exists>a. compute_dynamic_risk_score ''now'' (one_signal s) Default_weights None = Inr a"
proof -
  have "available_of DEFAULT_SIGNAL_WEIGHTS (one_signal_map s) \<noteq> []"
    using one_signal_slot one_signal_at(1) [of "''supervised_rf''" s] by (auto simp: available_Nil_iff)
  from risk_value [OF default_validated default_weights_sane one_signal_valid one_signal_collected [OF assms] this, of "''now''" None]
  show ?thesis by blast
qed

section \<open>Properties\<close>

text \<open>C40: With weights that are floats above zero and up to two to the thousandth, and observations made
  by their constructor, the computation fails only when no signal is available, and otherwise its score
  is a number between 0 and 100.\<close>

theorem risk_bounded:
  assumes "validate_weights custom = Inr ws" "sane_weights ws" "valid_argument observations"
    "collect_observations observations = Inr m"
  shows "case compute_dynamic_risk_score now observations custom stamp of
      Inl e \<Rightarrow> e = MR_empty_available_signal_set \<and>
        (\<forall>slot \<in> set CANONICAL_SIGNAL_SLOTS. so_status (observation_at m slot) \<noteq> SIGNAL_STATUS_AVAILABLE)
    | Inr a \<Rightarrow> \<exists>r. ra_dynamic_risk_score a = Fin r \<and> 0 \<le> r \<and> r \<le> 100"
proof (cases "available_of ws m = []")
  case True
  then show ?thesis using assms by (simp add: compute_dynamic_risk_score_def Let_def available_Nil_iff)
next
  case False
  obtain t d a where a: "0 \<le> t" "t \<le> d" "0 < d" "compute_dynamic_risk_score now observations custom stamp = Inr a"
    "ra_dynamic_risk_score a = py_round 4 (clamped_risk (Fin t) (Fin d))"
    by (rule risk_value [OF assms False, of now stamp]) blast
  show ?thesis using clamped_risk_value [OF a(1-3)] py_round4_percent by (simp add: a(4,5))
qed

theorem risk_bounded_witness:
  "case compute_dynamic_risk_score ''now'' (one_signal (1 / 2)) Default_weights None of
      Inl e \<Rightarrow> False | Inr a \<Rightarrow> \<exists>r. ra_dynamic_risk_score a = Fin r \<and> 0 \<le> r \<and> r \<le> 100"
  using risk_bounded [OF default_validated default_weights_sane one_signal_valid one_signal_collected, of "1 / 2" "''now''" None]
    one_signal_assessed [of "1 / 2"] by auto

text \<open>C27: Stronger evidence never lowers the risk: with weights that are sane, that is positive and so bounded
  that no sum on the way overflows, when two sets of observations have the same signals available and no
  available score of the first exceeds that of the second, the second risk score is at least the first
  and its severity is no lower, although every operation on the way rounds.  (Weights the validator
  accepts but which overflow are outside this claim: see \<open>overflowing_weights_hide_risk\<close>.)\<close>

theorem risk_monotone:
  assumes "validate_weights custom = Inr ws" "sane_weights ws"
    "valid_argument observations" "collect_observations observations = Inr m"
    "valid_argument observations'" "collect_observations observations' = Inr m'"
    "\<And>slot. slot \<in> set CANONICAL_SIGNAL_SLOTS \<Longrightarrow> so_status (observation_at m slot) = so_status (observation_at m' slot) \<and>
       (so_status (observation_at m slot) = SIGNAL_STATUS_AVAILABLE \<longrightarrow>
          fl_le (score_of (observation_at m slot)) (score_of (observation_at m' slot)))"
    "compute_dynamic_risk_score now observations custom stamp = Inr a"
    "compute_dynamic_risk_score now' observations' custom stamp' = Inr a'"
  shows "fl_le (ra_dynamic_risk_score a) (ra_dynamic_risk_score a') \<and>
    severity_rank (ra_severity_level a) \<le> severity_rank (ra_severity_level a')"
proof -
  let ?es = "available_of ws m" and ?fs = "available_of ws m'"
  have ne: "?es \<noteq> []" "?fs \<noteq> []"
    using assms(1,4,6,8,9) by (auto simp: compute_dynamic_risk_score_def Let_def split: if_splits)
  obtain t d where t: "weighted_sum ?es = Fin t" "weight_denominator ?es = Fin d" "0 \<le> t" "t \<le> d" "0 < d"
    "ra_dynamic_risk_score a = py_round 4 (clamped_risk (Fin t) (Fin d))"
    "ra_severity_level a = severity_of (clamped_risk (Fin t) (Fin d))"
    by (rule risk_value [OF assms(1-4) ne(1), of now stamp]) (use assms(8) in auto)
  obtain t' d' where t': "weighted_sum ?fs = Fin t'" "weight_denominator ?fs = Fin d'" "t' \<le> d'"
    "ra_dynamic_risk_score a' = py_round 4 (clamped_risk (Fin t') (Fin d'))"
    "ra_severity_level a' = severity_of (clamped_risk (Fin t') (Fin d'))" "0 \<le> t'"
    by (rule risk_value [OF assms(1,2,5,6) ne(2), of now' stamp']) (use assms(9) in auto)
  have filt: "filter (\<lambda>slot. so_status (observation_at m slot) = SIGNAL_STATUS_AVAILABLE) CANONICAL_SIGNAL_SLOTS =
      filter (\<lambda>slot. so_status (observation_at m' slot) = SIGNAL_STATUS_AVAILABLE) CANONICAL_SIGNAL_SLOTS"
    by (rule filter_cong) (use assms(7) in auto)
  have rel: "list_all2 no_worse ?es ?fs"
    unfolding available_of_def filt [symmetric] list.rel_map using assms(7)
    by (auto simp: no_worse_def intro!: list_all2_same [THEN iffD2])
  have "map (snd \<circ> snd) ?es = map (snd \<circ> snd) ?fs"
    using rel by (induction rule: list_all2_induct) (auto simp: no_worse_def)
  then have "foldl fl_add (Fin 0) (map (snd \<circ> snd) ?es) = foldl fl_add (Fin 0) (map (snd \<circ> snd) ?fs)" by simp
  then have d: "d = d'"
    using t(2) t'(2) by (simp add: weight_denominator_def foldl_map comp_def split_def)
  have sane: "list_all sane_signal ?es" "list_all sane_signal ?fs" "length ?es \<le> 7"
    using available_sane [OF collect_valid [OF assms(4,3)] assms(2)] available_sane [OF collect_valid [OF assms(6,5)] assms(2)] by simp_all
  have "(0 :: rat) \<le> big 1000" by (simp add: big_def)
  then have "fl_le (foldl sum_step (Fin 0) ?es) (foldl sum_step (Fin 0) ?fs)"
    using sum_monotone [OF sane(1,2) rel, of 0 0 0 1000] sane(3) by simp
  then have tt: "t \<le> t'" using t(1) t'(1) by (simp add: sums_folds)
  have c: "fl_le (clamped_risk (Fin t) (Fin d)) (clamped_risk (Fin t') (Fin d))"
    by (rule clamped_risk_mono) (use t t' tt d in auto)
  then have "fl_le (py_round 4 (clamped_risk (Fin t) (Fin d))) (py_round 4 (clamped_risk (Fin t') (Fin d)))"
    using clamped_risk_value(1) [of t d] clamped_risk_value(1) [of t' d] t t' d by (simp add: py_round_mono)
  then show ?thesis using c severity_mono t t' d by simp
qed

theorem risk_monotone_witness:
  "\<exists>a a'. compute_dynamic_risk_score ''now'' (one_signal (1 / 2)) Default_weights None = Inr a \<and>
     compute_dynamic_risk_score ''now'' (one_signal 1) Default_weights None = Inr a' \<and>
     fl_le (ra_dynamic_risk_score a) (ra_dynamic_risk_score a') \<and>
     severity_rank (ra_severity_level a) \<le> severity_rank (ra_severity_level a')"
proof -
  obtain a a' where a: "compute_dynamic_risk_score ''now'' (one_signal (1 / 2)) Default_weights None = Inr a"
    "compute_dynamic_risk_score ''now'' (one_signal 1) Default_weights None = Inr a'"
    using one_signal_assessed [of "1 / 2"] one_signal_assessed [of 1] by auto
  have "fl_le (ra_dynamic_risk_score a) (ra_dynamic_risk_score a') \<and>
      severity_rank (ra_severity_level a) \<le> severity_rank (ra_severity_level a')"
    by (rule risk_monotone [OF default_validated default_weights_sane one_signal_valid
          one_signal_collected [of "1 / 2"] one_signal_valid one_signal_collected [of 1] _ a])
      (auto simp: one_signal_at)
  with a show ?thesis by blast
qed

text \<open>Missing evidence is not benign evidence: whichever signals are available, and however few, when
  each of them is certain the score is exactly 100 and the severity critical.\<close>

theorem certain_evidence_undiluted:
  assumes "validate_weights custom = Inr ws" "sane_weights ws" "valid_argument observations"
    "collect_observations observations = Inr m" "slot \<in> set CANONICAL_SIGNAL_SLOTS"
    "so_status (observation_at m slot) = SIGNAL_STATUS_AVAILABLE"
    "\<And>slot. slot \<in> set CANONICAL_SIGNAL_SLOTS \<Longrightarrow> so_status (observation_at m slot) = SIGNAL_STATUS_AVAILABLE \<Longrightarrow>
       score_of (observation_at m slot) = Fin 1"
  shows "\<exists>a. compute_dynamic_risk_score now observations custom stamp = Inr a \<and>
    ra_dynamic_risk_score a = Fin 100 \<and> ra_severity_level a = ''critical''"
proof -
  let ?es = "available_of ws m"
  have ne: "?es \<noteq> []" using assms(5,6) by (auto simp: available_Nil_iff)
  obtain t d a where a: "weighted_sum ?es = Fin t" "weight_denominator ?es = Fin d" "0 \<le> t" "t \<le> d" "0 < d"
    "compute_dynamic_risk_score now observations custom stamp = Inr a"
    "ra_dynamic_risk_score a = py_round 4 (clamped_risk (Fin t) (Fin d))"
    "ra_severity_level a = severity_of (clamped_risk (Fin t) (Fin d))"
    by (rule risk_value [OF assms(1-4) ne, of now stamp]) blast
  have "fl_mul (snd (snd e)) (fst (snd e)) = snd (snd e)" if "e \<in> set ?es" for e
  proof -
    have "sane_signal e" using available_sane(1) [OF collect_valid [OF assms(4,3)] assms(2)] that by (simp add: list_all_iff)
    moreover have "fst (snd e) = Fin 1" using that assms(7) by (auto simp: available_of_def)
    ultimately obtain w where "snd e = (Fin 1, Fin w)" "0 < w" "w \<le> big 1000" "nearest53 w = w"
      by (auto simp: sane_signal_def)
    then show ?thesis using product_bounded(1) [of 1 w] by simp
  qed
  then have "foldl sum_step (Fin 0) ?es = foldl denom_step (Fin 0) ?es"
    by (intro foldl_cong) (simp_all add: sum_step_def denom_step_def)
  then have "t = d" using a(1,2) by (simp add: sums_folds)
  moreover have "nearest53 1 = 1" using nearest53_of_int [of 1] by simp
  ultimately have c: "clamped_risk (Fin t) (Fin d) = Fin 100"
    using clamped_risk_value(1) [OF a(3-5)] a(5) by (simp add: nearest53_100)
  have "fl_round 100 = Fin 100" using fl_round_small [of 100] nearest53_100 by simp
  moreover have "round_half_even 1000000 = 1000000" using round_half_even_of_int [of 1000000] by simp
  ultimately have "py_round 4 (Fin 100) = Fin 100" by (simp add: py_round_def)
  then show ?thesis using a(6-8) c by (simp add: severity_of_def)
qed

theorem certain_evidence_undiluted_witness:
  "\<exists>a. compute_dynamic_risk_score ''now'' (one_signal 1) Default_weights None = Inr a \<and>
     ra_dynamic_risk_score a = Fin 100 \<and> ra_severity_level a = ''critical''"
  by (rule certain_evidence_undiluted [OF default_validated default_weights_sane one_signal_valid
        one_signal_collected [of 1] one_signal_slot]) (auto simp: one_signal_at one_signal_slot split: if_splits)

text \<open>What is unavailable, and why, has no influence.\<close>

lemma unavailable_irrelevant:
  assumes "collect_observations observations = Inr m" "collect_observations observations' = Inr m'"
    "\<And>slot. slot \<in> set CANONICAL_SIGNAL_SLOTS \<Longrightarrow> so_status (observation_at m slot) = so_status (observation_at m' slot) \<and>
       (so_status (observation_at m slot) = SIGNAL_STATUS_AVAILABLE \<longrightarrow>
          score_of (observation_at m slot) = score_of (observation_at m' slot))"
    "compute_dynamic_risk_score now observations custom stamp = Inr a"
  shows "\<exists>a'. compute_dynamic_risk_score now' observations' custom stamp' = Inr a' \<and>
    ra_dynamic_risk_score a' = ra_dynamic_risk_score a \<and> ra_severity_level a' = ra_severity_level a \<and>
    ra_available_signals a' = ra_available_signals a"
proof -
  have "filter (\<lambda>slot. so_status (observation_at m slot) = SIGNAL_STATUS_AVAILABLE) CANONICAL_SIGNAL_SLOTS =
      filter (\<lambda>slot. so_status (observation_at m' slot) = SIGNAL_STATUS_AVAILABLE) CANONICAL_SIGNAL_SLOTS"
    by (rule filter_cong) (use assms(3) in auto)
  then have "available_of ws m = available_of ws m'" for ws
    unfolding available_of_def using assms(3) by auto
  then show ?thesis
    using assms(1,2,4) by (auto simp: compute_dynamic_risk_score_def bindE_eq_Inr Let_def split: if_splits)
qed

section \<open>Overflow\<close>

text \<open>
  Weights that pass validation one by one can overflow in the sum: with two certain signals of weight
  \<open>2 ^ 1023\<close> the score is not a number and the severity is low.
\<close>

lemma overflowing_weights_hide_risk:
  defines "obs \<equiv> Observation_mapping [(''supervised_rf'', Value_number (Fin 1)), (''threat_intel_ioc'', Value_number (Fin 1))]"
    and "ws \<equiv> Custom_weights [(''supervised_rf'', Some (Fin (2 ^ 1023))), (''threat_intel_ioc'', Some (Fin (2 ^ 1023)))]"
  shows "\<exists>a. compute_dynamic_risk_score now obs ws stamp = Inr a \<and> ra_dynamic_risk_score a = NaN \<and> ra_severity_level a = ''low''"
proof -
  have p: "(2 :: rat) ^ 1023 = big 1023" by (simp only: big_def)
  define W where "W = dict_set (dict_set DEFAULT_SIGNAL_WEIGHTS ''supervised_rf'' (Fin (big 1023))) ''threat_intel_ioc'' (Fin (big 1023))"
  have pos: "0 < big 1023" unfolding big_def by (simp only: zero_less_power zero_less_numeral)
  have w: "validate_weights ws = Inr W"
    unfolding ws_def p validate_weights_def W_def using pos
    by (simp add: CANONICAL_SIGNAL_SLOTS_def is_finite_def not_le)
  have m: "collect_observations obs = Inr [(''supervised_rf'', \<lparr>so_slot = ''supervised_rf'', so_status = SIGNAL_STATUS_AVAILABLE,
      so_score = Score (Fin 1), so_reason = None\<rparr>), (''threat_intel_ioc'', \<lparr>so_slot = ''threat_intel_ioc'',
      so_status = SIGNAL_STATUS_AVAILABLE, so_score = Score (Fin 1), so_reason = None\<rparr>)]"
    by (simp add: obs_def collect_observations_def observation_of_value_def make_observation_def CANONICAL_SIGNAL_SLOTS_def
        is_finite_def dict_set_def)
  have av: "available_of W [(''supervised_rf'', \<lparr>so_slot = ''supervised_rf'', so_status = SIGNAL_STATUS_AVAILABLE,
      so_score = Score (Fin 1), so_reason = None\<rparr>), (''threat_intel_ioc'', \<lparr>so_slot = ''threat_intel_ioc'',
      so_status = SIGNAL_STATUS_AVAILABLE, so_score = Score (Fin 1), so_reason = None\<rparr>)] =
      [(''supervised_rf'', Fin 1, Fin (big 1023)), (''threat_intel_ioc'', Fin 1, Fin (big 1023))]"
    by (simp add: available_of_def CANONICAL_SIGNAL_SLOTS_def observation_at_def score_of_def W_def dict_set_def
        DEFAULT_SIGNAL_WEIGHTS_def)
  have r1: "fl_round (big 1023) = Fin (big 1023)"
    using fl_round_big(1) [of "big 1023" 1023] nearest53_big [of 1023] pos by simp
  have "nearest53 (2 ^ 1024) = 2 ^ 1024" using nearest53_grid [of "2 ^ 1024" 1 1024] by simp
  then have r2: "fl_round (2 ^ 1024) = PosInf" by (simp add: fl_round_def)
  have "big 1023 + big 1023 = 2 ^ 1024" by (simp add: big_def)
  then have s: "fl_add (Fin (big 1023)) (Fin (big 1023)) = PosInf" using r2 by (simp only: fl_add.simps)
  have "weighted_sum [(''supervised_rf'', Fin 1, Fin (big 1023)), (''threat_intel_ioc'', Fin 1, Fin (big 1023))] = PosInf"
    "weight_denominator [(''supervised_rf'', Fin 1, Fin (big 1023)), (''threat_intel_ioc'', Fin 1, Fin (big 1023))] = PosInf"
    using r1 s by (simp_all add: weighted_sum_def weight_denominator_def)
  then show ?thesis
    unfolding compute_dynamic_risk_score_def w m
    by (simp add: av Let_def fl_le_def clamped_risk_def fl_max_def fl_min_def py_round_def severity_of_def)
qed

end
