(* ===== verification/Worker.thy ===== *)
theory Worker
  imports Orchestrator
begin

text \<open>
  The process boundary of the inference (\<^verbatim>\<open>api/producer_inference_worker.py\<close>): the messages the child
  sends over its pipe, their strict decoding, the protocol the parent expects, its deadlines, and how
  the child is stopped.  Readings of the clock, the pipe and the process are functions of the number
  of readings made before, as in \<^verbatim>\<open>Orchestrator\<close>.  An exception is the \<^typ>\<open>worker_outcome\<close> it gives the
  caller; \<^const>\<open>Worker_other\<close> is one that is neither of the two sanitized error types.  Interpreter limits
  (the nesting depth of a message) are not modelled.
\<close>

section \<open>Limits\<close>

definition PROCESSING_RECORD_SECONDS :: rat where "PROCESSING_RECORD_SECONDS = 30"
definition WORKER_CLEANUP_SECONDS :: rat where "WORKER_CLEANUP_SECONDS = 2"
definition MAX_WORKER_MESSAGE_BYTES :: nat where "MAX_WORKER_MESSAGE_BYTES = 262144"
definition MAX_INFERENCE_BATCH_SIZE :: nat where "MAX_INFERENCE_BATCH_SIZE = 256"

abbreviation WORKER_PROTOCOL_VERSION :: string where
  "WORKER_PROTOCOL_VERSION \<equiv> ''producer_inference_worker_v1''"

definition APPROVED_RANDOM_FOREST :: string where
  "APPROVED_RANDOM_FOREST = ''bd2853a6f9d7f65038cc8bd2da282a2221cb73bda1f1e4c1c714098e8bfcffa9''"

record worker_limits =
  wl_record_seconds :: pyfloat
  wl_request_seconds :: pyfloat
  wl_cleanup_seconds :: pyfloat

definition limit_ok :: "rat \<Rightarrow> pyfloat \<Rightarrow> bool" where
  "limit_ok bound x \<longleftrightarrow> is_finite x \<and> fl_less (Fin 0) x \<and> fl_le x (Fin bound)"

definition make_worker_limits :: "worker_limits \<Rightarrow> worker_outcome + worker_limits" where
  "make_worker_limits l =
     (if limit_ok PROCESSING_RECORD_SECONDS (wl_record_seconds l) \<and>
         limit_ok PROCESSING_REQUEST_SECONDS (wl_request_seconds l) \<and>
         limit_ok WORKER_CLEANUP_SECONDS (wl_cleanup_seconds l)
      then Inr l else Inl (Worker_error ''worker_start_failed''))"

definition WORKER_ERROR_CODES :: "string list" where
  "WORKER_ERROR_CODES = [''worker_start_failed'', ''worker_crashed'', ''worker_response_missing'',
     ''worker_response_invalid'', ''worker_failed'', ''worker_record_timeout'', ''worker_request_timeout'',
     ''worker_cleanup_failed'']"

abbreviation invalid_message :: worker_outcome where
  "invalid_message \<equiv> Worker_error ''worker_response_invalid''"

section \<open>What the child sends\<close>

definition encode_message :: "(pyfloat \<Rightarrow> string) \<Rightarrow> string \<Rightarrow> (string \<times> json) list \<Rightarrow> string" where
  "encode_message frepr kind payload =
     json_dumps frepr (JObj ([(''protocol'', JStr WORKER_PROTOCOL_VERSION), (''kind'', JStr kind)] @ payload))"

definition inference_json :: "inference_result \<Rightarrow> json" where
  "inference_json r = JObj
     [(''correlation_id'', JStr (ir_correlation_id r)), (''model_identity'', JStr (ir_model_identity r)),
      (''model_version'', JStr (ir_model_version r)), (''contract_identity'', JStr (ir_contract_identity r)),
      (''source_representation_identity'', JStr (ir_source_representation r)),
      (''attack_probability'', case ir_attack_probability r of None \<Rightarrow> JNull | Some p \<Rightarrow> JFloat p),
      (''decision_threshold'', JFloat (ir_decision_threshold r)),
      (''predicted_class'', case ir_predicted_class r of None \<Rightarrow> JNull | Some c \<Rightarrow> JStr c),
      (''status'', JStr (ir_status r)), (''reason'', JStr (ir_reason r)),
      (''processed_at'', JStr (ir_processed_at r)), (''latency_ms'', JFloat (ir_latency_ms r))]"

definition registered_payload :: "registered_result \<Rightarrow> json" where
  "registered_payload r = JObj
     [(''source_event_id'', JStr (rr_source_event_id r)), (''observed_at'', JStr (isoformat (rr_observed_at r))),
      (''model_artifact_sha256'', JStr (rr_model_artifact_sha256 r)), (''inference'', inference_json (rr_inference r))]"

text \<open>\<^verbatim>\<open>allow_nan=False\<close> refuses the values whose float is not finite.\<close>

fun finite_json :: "json \<Rightarrow> bool" where
  "finite_json (JFloat x) = is_finite x"
| "finite_json (JArr xs) = list_all finite_json xs"
| "finite_json (JObj kvs) = list_all (\<lambda>b. b) (map (\<lambda>(k, v). finite_json v) kvs)"
| "finite_json _ = True"

text \<open>What the code of the child does in turn: send a message, or fail in the boundary it calls.\<close>

datatype child_action = Send string "(string \<times> json) list" | Boundary_error | Other_error

text \<open>\<^verbatim>\<open>_send\<close>, and the handlers of \<^verbatim>\<open>_default_worker_target\<close>; a message that cannot be sent ends the run as a failure.\<close>

fun child_messages :: "(pyfloat \<Rightarrow> string) \<Rightarrow> child_action list \<Rightarrow> string list" where
  "child_messages frepr [] = []"
| "child_messages frepr (Send kind payload # as) =
     (if finite_json (JObj payload) \<and> length (encode_message frepr kind payload) \<le> MAX_WORKER_MESSAGE_BYTES
      then encode_message frepr kind payload # child_messages frepr as
      else [encode_message frepr ''worker_failed'' []])"
| "child_messages frepr (Boundary_error # as) = [encode_message frepr ''inference_rejected'' []]"
| "child_messages frepr (Other_error # as) = [encode_message frepr ''worker_failed'' []]"

datatype boundary_outcome = Inferred registered_result | Boundary_rejects | Boundary_fails

fun record_actions :: "nat \<Rightarrow> boundary_outcome list \<Rightarrow> child_action list" where
  "record_actions index [] = []"
| "record_actions index (x # xs) = Send ''record_started'' [(''index'', JInt (int index))] #
     (case x of Inferred r \<Rightarrow> Send ''record_result'' [(''index'', JInt (int index)), (''result'', registered_payload r)]
      | Boundary_rejects \<Rightarrow> Boundary_error | Boundary_fails \<Rightarrow> Other_error) # record_actions (Suc index) xs"

text \<open>The child: \<^verbatim>\<open>_worker_bootstrap\<close> and the default target, given how the frozen boundary answers.\<close>

definition worker_actions :: "int \<Rightarrow> nat \<Rightarrow> boundary_outcome list + child_action \<Rightarrow> child_action list" where
  "worker_actions pid n prepared = Send ''booted'' [(''pid'', JInt pid)] # (case prepared of
     Inr failure \<Rightarrow> [failure]
   | Inl items \<Rightarrow> if length items \<noteq> n then [Other_error]
       else Send ''prepared'' [(''count'', JInt (int n))] # record_actions 1 items @
         [Send ''complete'' [(''count'', JInt (int n))]])"

section \<open>Decoding\<close>

definition strict_object :: "(string \<Rightarrow> pyfloat) \<Rightarrow> string \<Rightarrow> worker_outcome + (string \<times> json) list" where
  "strict_object fparse raw =
     (if raw = [] \<or> MAX_WORKER_MESSAGE_BYTES < length raw \<or> \<not> list_all (\<lambda>c. of_char c < (128 :: nat)) raw
      then Inl invalid_message
      else case json_loads_with (plain_hooks fparse) raw of
          Some (JObj kvs) \<Rightarrow> if obj_get kvs ''protocol'' = Some (JStr WORKER_PROTOCOL_VERSION) then Inr kvs
            else Inl invalid_message
        | _ \<Rightarrow> Inl invalid_message)"

text \<open>The length of a Python string whose UTF-8 bytes are given.\<close>

definition py_length :: "string \<Rightarrow> nat" where
  "py_length s = length (filter (\<lambda>c. \<not> cont_byte c) s)"

definition utc_datetime :: "(string \<Rightarrow> datetime option) \<Rightarrow> json \<Rightarrow> worker_outcome + datetime" where
  "utc_datetime parse_time v = (case v of
     JStr s \<Rightarrow> if 64 < py_length s then Inl invalid_message else someE (parse_time s) invalid_message
   | _ \<Rightarrow> Inl invalid_message)"

definition canonical_uuid :: "json \<Rightarrow> worker_outcome + string" where
  "canonical_uuid v = (case v of JStr s \<Rightarrow> if is_uuid4 s then Inr s else Inl invalid_message | _ \<Rightarrow> Inl invalid_message)"

text \<open>\<^verbatim>\<open>float\<close> of an integer that is too large raises \<^verbatim>\<open>OverflowError\<close>.\<close>

definition finite_number :: "json \<Rightarrow> worker_outcome + pyfloat" where
  "finite_number v =
     bindE (case v of JInt i \<Rightarrow> (case fl_round (of_int i) of Fin x \<Rightarrow> Inr (Fin x) | _ \<Rightarrow> Inl Worker_other)
       | JFloat x \<Rightarrow> Inr x | _ \<Rightarrow> Inl invalid_message) (\<lambda>x.
     if \<not> is_finite x \<or> fl_less x (Fin 0) then Inl invalid_message else Inr x)"

definition has_keys :: "(string \<times> json) list \<Rightarrow> string list \<Rightarrow> bool" where
  "has_keys kvs ks \<longleftrightarrow> set (map fst kvs) = set ks"

definition member :: "(string \<times> json) list \<Rightarrow> string \<Rightarrow> json" where
  "member kvs k = (case obj_get kvs k of Some v \<Rightarrow> v | None \<Rightarrow> JNull)"

definition RESULT_KEYS :: "string list" where
  "RESULT_KEYS = [''source_event_id'', ''observed_at'', ''model_artifact_sha256'', ''inference'']"

definition INFERENCE_KEYS :: "string list" where
  "INFERENCE_KEYS = [''correlation_id'', ''model_identity'', ''model_version'', ''contract_identity'',
     ''source_representation_identity'', ''attack_probability'', ''decision_threshold'', ''predicted_class'',
     ''status'', ''reason'', ''processed_at'', ''latency_ms'']"

definition reason_ok :: "json \<Rightarrow> bool" where
  "reason_ok v = (case v of JStr s \<Rightarrow> 1 \<le> length s \<and> length s \<le> 64 \<and>
     list_all (\<lambda>c. char_in CHR ''a'' CHR ''z'' c \<or> c = CHR ''_'') s | _ \<Rightarrow> False)"

definition threshold_ok :: "json \<Rightarrow> bool" where
  "threshold_ok v = (case v of JFloat x \<Rightarrow> fl_eq x (Fin (1 / 2)) | _ \<Rightarrow> False)"

definition inference_identity_ok :: "(string \<times> json) list \<Rightarrow> bool" where
  "inference_identity_ok im \<longleftrightarrow> member im ''model_identity'' = JStr ''random_forest'' \<and>
     member im ''model_version'' = JStr ''network_random_forest_baseline_v1'' \<and>
     member im ''contract_identity'' = JStr FEATURE_CONTRACT \<and>
     member im ''source_representation_identity'' = JStr SOURCE_REPRESENTATION \<and>
     threshold_ok (member im ''decision_threshold'') \<and> reason_ok (member im ''reason'')"

text \<open>
  The probability and the class by the status.  Testing a list or an object for membership in the set
  of classes raises \<^verbatim>\<open>TypeError\<close>.
\<close>

definition decide_inference :: "(string \<times> json) list \<Rightarrow> worker_outcome + pyfloat option \<times> string option" where
  "decide_inference im =
     (if member im ''status'' = JStr ''completed'' then
        (case member im ''predicted_class'' of
           JArr _ \<Rightarrow> Inl Worker_other
         | JObj _ \<Rightarrow> Inl Worker_other
         | JStr c \<Rightarrow>
             if c \<notin> set [''Normal'', ''Attack''] \<or> member im ''reason'' \<noteq> JStr ''inference_succeeded''
             then Inl invalid_message
             else bindE (finite_number (member im ''attack_probability'')) (\<lambda>p.
               if fl_less (Fin 1) p then Inl invalid_message
               else if c \<noteq> (if fl_le (Fin (1 / 2)) p then ''Attack'' else ''Normal'') then Inl invalid_message
               else Inr (Some p, Some c))
         | _ \<Rightarrow> Inl invalid_message)
      else if member im ''status'' = JStr ''rejected'' then
        (if member im ''predicted_class'' \<noteq> JNull \<or> member im ''attack_probability'' \<noteq> JNull
         then Inl invalid_message else Inr (None, None))
      else Inl invalid_message)"

definition text_of :: "json \<Rightarrow> string" where
  "text_of v = (case v of JStr s \<Rightarrow> s | _ \<Rightarrow> [])"

definition decode_inference ::
  "(string \<Rightarrow> datetime option) \<Rightarrow> (string \<times> json) list \<Rightarrow> worker_outcome + inference_result" where
  "decode_inference parse_time im =
     (if \<not> has_keys im INFERENCE_KEYS \<or> \<not> inference_identity_ok im then Inl invalid_message
      else bindE (decide_inference im) (\<lambda>(probability, predicted).
        bindE (canonical_uuid (member im ''correlation_id'')) (\<lambda>correlation_id.
        bindE (utc_datetime parse_time (member im ''processed_at'')) (\<lambda>processed_at.
        bindE (finite_number (member im ''latency_ms'')) (\<lambda>latency_ms.
          Inr \<lparr>ir_correlation_id = correlation_id, ir_model_identity = ''random_forest'',
               ir_model_version = ''network_random_forest_baseline_v1'', ir_contract_identity = FEATURE_CONTRACT,
               ir_source_representation = SOURCE_REPRESENTATION, ir_attack_probability = probability,
               ir_decision_threshold = Fin (1 / 2), ir_predicted_class = predicted,
               ir_status = text_of (member im ''status''), ir_reason = text_of (member im ''reason''),
               ir_processed_at = isoformat processed_at, ir_latency_ms = latency_ms\<rparr>)))))"

definition decode_registered_result ::
  "(string \<Rightarrow> datetime option) \<Rightarrow> json \<Rightarrow> worker_outcome + registered_result" where
  "decode_registered_result parse_time v = (case v of
     JObj kvs \<Rightarrow>
       if \<not> has_keys kvs RESULT_KEYS then Inl invalid_message
       else (case (member kvs ''source_event_id'', member kvs ''inference'') of
           (JStr source_event_id, JObj im) \<Rightarrow>
             if \<not> is_source_event_id source_event_id \<or>
                member kvs ''model_artifact_sha256'' \<noteq> JStr APPROVED_RANDOM_FOREST
             then Inl invalid_message
             else bindE (decode_inference parse_time im) (\<lambda>result.
               bindE (utc_datetime parse_time (member kvs ''observed_at'')) (\<lambda>observed_at.
                 Inr \<lparr>rr_source_event_id = source_event_id, rr_observed_at = observed_at,
                      rr_model_artifact_sha256 = APPROVED_RANDOM_FOREST, rr_inference = result\<rparr>))
         | _ \<Rightarrow> Inl invalid_message)
   | _ \<Rightarrow> Inl invalid_message)"

section \<open>The parent\<close>

datatype poll_outcome = Poll_ready | Poll_empty | Poll_error
datatype pipe_outcome = Pipe_message string | Pipe_eof | Pipe_error
datatype start_outcome = Started int | Start_failed "int option"

record worker_env =
  we_start :: start_outcome
  we_clock :: "nat \<Rightarrow> pyfloat"
  we_poll :: "nat \<Rightarrow> pyfloat \<Rightarrow> poll_outcome"
  we_receive :: "nat \<Rightarrow> pipe_outcome"
  we_exitcode :: "nat \<Rightarrow> int option"
  we_alive :: "nat \<Rightarrow> bool"
  we_group :: "nat \<Rightarrow> bool"
  we_close_ok :: bool
  we_fparse :: "string \<Rightarrow> pyfloat"
  we_parse_time :: "string \<Rightarrow> datetime option"

record worker =
  wk_manifest_sha256 :: string
  wk_limits :: worker_limits
  wk_last_worker_pid :: "int option"
  wk_completed_record_count :: nat
  wk_last_process_group :: "int option"

datatype expectation = Want_booted | Want_prepared | Want_record_started | Want_record_result | Want_complete

text \<open>
  The local variables of one execution, with the signals sent (to the group or to the process), the
  number of receptions and the number of other readings.  The pipe is a queue: what a reception gives
  depends on the receptions before it only.
\<close>

record worker_run =
  rn_results :: "registered_result list"
  rn_expected :: expectation
  rn_record_deadline :: "pyfloat option"
  rn_group_ready :: bool
  rn_signals :: "(string \<times> bool) list"
  rn_received :: nat
  rn_tick :: nat

definition new_run :: worker_run where
  "new_run = \<lparr>rn_results = [], rn_expected = Want_booted, rn_record_deadline = None, rn_group_ready = False,
     rn_signals = [], rn_received = 0, rn_tick = 1\<rparr>"

definition reading_run :: "(nat \<Rightarrow> 'a) \<Rightarrow> worker_run \<Rightarrow> worker_run \<times> 'a" where
  "reading_run f rn = (rn\<lparr>rn_tick := Suc (rn_tick rn)\<rparr>, f (rn_tick rn))"

definition receiving :: "worker_env \<Rightarrow> worker_run \<Rightarrow> worker_run \<times> pipe_outcome" where
  "receiving env rn = (rn\<lparr>rn_received := Suc (rn_received rn)\<rparr>, we_receive env (rn_received rn))"

definition valid_references :: "(string \<times> int) list \<Rightarrow> bool" where
  "valid_references refs \<longleftrightarrow> 1 \<le> length refs \<and> length refs \<le> MAX_INFERENCE_BATCH_SIZE \<and>
     list_all (\<lambda>(sha, row). is_sha256 sha \<and> 0 < row) refs"

definition remaining_seconds :: "pyfloat \<Rightarrow> pyfloat option \<Rightarrow> pyfloat \<Rightarrow> pyfloat" where
  "remaining_seconds request_deadline record_deadline now =
     (let remaining = fl_sub request_deadline now in
      fl_max (Fin 0) (case record_deadline of None \<Rightarrow> remaining | Some d \<Rightarrow> fl_min remaining (fl_sub d now)))"

definition timeout_of :: "worker_run \<Rightarrow> worker_outcome" where
  "timeout_of rn = Worker_error (if rn_record_deadline rn \<noteq> None then ''worker_record_timeout'' else ''worker_request_timeout'')"

definition receive_message ::
  "worker_env \<Rightarrow> worker_run \<Rightarrow> worker_run \<times> (worker_outcome + (string \<times> json) list)" where
  "receive_message env rn = (case receiving env rn of
     (rn, Pipe_message raw) \<Rightarrow> (rn, strict_object (we_fparse env) raw)
   | (rn, Pipe_error) \<Rightarrow> (rn, Inl invalid_message)
   | (rn, Pipe_eof) \<Rightarrow> (let (rn, code) = reading_run (we_exitcode env) rn in
       (rn, Inl (Worker_error (if code = None \<or> code = Some 0 then ''worker_response_missing'' else ''worker_crashed'')))))"

definition await_message ::
  "worker_env \<Rightarrow> pyfloat \<Rightarrow> worker_run \<Rightarrow> worker_run \<times> (worker_outcome + (string \<times> json) list)" where
  "await_message env request_deadline rn0 =
     (let (rn, now) = reading_run (we_clock env) rn0;
          remaining = remaining_seconds request_deadline (rn_record_deadline rn) now in
      if fl_le remaining (Fin 0) then (rn, Inl (timeout_of rn))
      else case reading_run (\<lambda>t. we_poll env t remaining) rn of
          (rn, Poll_error) \<Rightarrow> (rn, Inl Worker_other)
        | (rn, Poll_empty) \<Rightarrow> (rn, Inl (timeout_of rn))
        | (rn, Poll_ready) \<Rightarrow> receive_message env rn)"

text \<open>A JSON value that Python compares equal to an integer.\<close>

definition equals_int :: "json \<Rightarrow> int \<Rightarrow> bool" where
  "equals_int v n = (case v of JInt i \<Rightarrow> i = n | JFloat x \<Rightarrow> fl_eq x (Fin (of_int n))
     | JBool b \<Rightarrow> (if b then 1 else 0) = n | _ \<Rightarrow> False)"

definition is_message :: "(string \<times> json) list \<Rightarrow> string \<Rightarrow> string list \<Rightarrow> bool" where
  "is_message msg kind ks \<longleftrightarrow> obj_get msg ''kind'' = Some (JStr kind) \<and> has_keys msg ([''protocol'', ''kind''] @ ks)"

text \<open>The result of a record, decoded and compared with the reference it must be about.\<close>

definition take_result ::
  "worker_env \<Rightarrow> string \<Rightarrow> (string \<times> int) list \<Rightarrow> (string \<times> json) list \<Rightarrow> worker_run \<Rightarrow>
     worker_run \<times> (worker_outcome + bool)" where
  "take_result env manifest_sha256 refs msg rn = (let index = length (rn_results rn) in
     if \<not> is_message msg ''record_result'' [''index'', ''result''] \<or> \<not> equals_int (member msg ''index'') (int (Suc index))
     then (rn, Inl invalid_message)
     else case decode_registered_result (we_parse_time env) (member msg ''result'') of
         Inl e \<Rightarrow> (rn, Inl e)
       | Inr result \<Rightarrow>
           if length refs \<le> index then (rn, Inl Worker_other)
           else (case derive_source_event_id SOURCE_REPRESENTATION manifest_sha256 (fst (refs ! index)) (snd (refs ! index)) of
               Inl _ \<Rightarrow> (rn, Inl Worker_other)
             | Inr expected_id \<Rightarrow>
                 if rr_source_event_id result \<noteq> expected_id then (rn, Inl invalid_message)
                 else (rn\<lparr>rn_results := rn_results rn @ [result], rn_record_deadline := None,
                         rn_expected := (if Suc index = length refs then Want_complete else Want_record_started)\<rparr>,
                       Inr False)))"

text \<open>One message, by what is expected; the flag says that the exchange is complete.\<close>

definition take_message ::
  "worker_env \<Rightarrow> worker_limits \<Rightarrow> int \<Rightarrow> string \<Rightarrow> (string \<times> int) list \<Rightarrow> (string \<times> json) list \<Rightarrow> worker_run \<Rightarrow>
     worker_run \<times> (worker_outcome + bool)" where
  "take_message env limits pid manifest_sha256 refs msg rn =
     (if rn_expected rn = Want_booted then
        (if is_message msg ''booted'' [''pid''] \<and> member msg ''pid'' = JInt pid
         then (rn\<lparr>rn_group_ready := True, rn_expected := Want_prepared\<rparr>, Inr False)
         else (rn, Inl invalid_message))
      else if is_message msg ''inference_rejected'' [] then (rn, Inl Worker_network_error)
      else if is_message msg ''worker_failed'' [] then (rn, Inl (Worker_error ''worker_failed''))
      else case rn_expected rn of
          Want_prepared \<Rightarrow>
            if is_message msg ''prepared'' [''count''] \<and> equals_int (member msg ''count'') (int (length refs))
            then (rn\<lparr>rn_expected := Want_record_started\<rparr>, Inr False) else (rn, Inl invalid_message)
        | Want_record_started \<Rightarrow>
            if is_message msg ''record_started'' [''index''] \<and>
               equals_int (member msg ''index'') (int (Suc (length (rn_results rn))))
            then (let (rn, now) = reading_run (we_clock env) rn in
              (rn\<lparr>rn_record_deadline := Some (fl_add now (wl_record_seconds limits)),
                  rn_expected := Want_record_result\<rparr>, Inr False))
            else (rn, Inl invalid_message)
        | Want_record_result \<Rightarrow> take_result env manifest_sha256 refs msg rn
        | _ \<Rightarrow>
            if is_message msg ''complete'' [''count''] \<and>
               equals_int (member msg ''count'') (int (length (rn_results rn)))
            then (rn, Inr True) else (rn, Inl invalid_message))"

text \<open>The messages that are still to come.\<close>

definition steps_left :: "nat \<Rightarrow> worker_run \<Rightarrow> nat" where
  "steps_left n rn = (let k = length (rn_results rn) in case rn_expected rn of
     Want_booted \<Rightarrow> 2 * n + 3 | Want_prepared \<Rightarrow> 2 * n + 2 | Want_record_started \<Rightarrow> 2 * (n - k) + 1
   | Want_record_result \<Rightarrow> 2 * (n - k) | Want_complete \<Rightarrow> 1)"

lemma await_message_keeps:
  "await_message env d rn = (rn', r) \<Longrightarrow>
     rn_results rn' = rn_results rn \<and> rn_expected rn' = rn_expected rn \<and> rn_group_ready rn' = rn_group_ready rn \<and>
     rn_signals rn' = rn_signals rn \<and> rn_record_deadline rn' = rn_record_deadline rn \<and>
     rn_tick rn' \<le> rn_tick rn + 3"
  by (auto simp: await_message_def receive_message_def reading_run_def receiving_def Let_def
      split: poll_outcome.splits pipe_outcome.splits if_splits)

lemma take_message_progress:
  assumes "take_message env limits pid manifest_sha256 refs msg rn = (rn', Inr False)"
  shows "steps_left (length refs) rn' < steps_left (length refs) rn"
  using assms
  by (auto simp: take_message_def take_result_def steps_left_def reading_run_def Let_def
      split: expectation.splits if_splits sum.splits)

lemma loop_progress:
  assumes "(rn1, Inr msg) = await_message env d rn" "(rn2, Inr False) = take_message env limits pid m refs msg rn1"
  shows "steps_left (length refs) rn2 < steps_left (length refs) rn"
proof -
  have "steps_left (length refs) rn1 = steps_left (length refs) rn"
    using await_message_keeps [OF assms(1) [symmetric]] by (simp add: steps_left_def)
  then show ?thesis using take_message_progress [OF assms(2) [symmetric]] by simp
qed

function worker_loop ::
  "worker_env \<Rightarrow> worker_limits \<Rightarrow> int \<Rightarrow> string \<Rightarrow> (string \<times> int) list \<Rightarrow> pyfloat \<Rightarrow> worker_run \<Rightarrow>
     worker_run \<times> (worker_outcome + unit)" where
  "worker_loop env limits pid manifest_sha256 refs request_deadline rn =
     (case await_message env request_deadline rn of
        (rn1, Inl e) \<Rightarrow> (rn1, Inl e)
      | (rn1, Inr msg) \<Rightarrow> (case take_message env limits pid manifest_sha256 refs msg rn1 of
          (rn2, Inl e) \<Rightarrow> (rn2, Inl e)
        | (rn2, Inr ended) \<Rightarrow>
            if ended then (rn2, Inr ()) else worker_loop env limits pid manifest_sha256 refs request_deadline rn2))"
  by pat_completeness auto

termination
  by (relation "measure (\<lambda>(env, limits, pid, m, refs, d, rn). steps_left (length refs) rn)")
    (auto intro: loop_progress)

declare worker_loop.simps [simp del]

section \<open>Stopping the child\<close>

definition signal_worker :: "worker_env \<Rightarrow> string \<Rightarrow> bool \<Rightarrow> worker_run \<Rightarrow> worker_run" where
  "signal_worker env sig group_ready rn =
     (if group_ready then rn\<lparr>rn_signals := rn_signals rn @ [(sig, True)]\<rparr>
      else let (rn, alive) = reading_run (we_alive env) rn in
        if alive \<and> sig = ''SIGTERM'' then rn\<lparr>rn_signals := rn_signals rn @ [(sig, False)]\<rparr>
        else let (rn, alive) = reading_run (we_alive env) rn in
          if alive then rn\<lparr>rn_signals := rn_signals rn @ [(''SIGKILL'', False)]\<rparr> else rn)"

definition group_exists :: "worker_env \<Rightarrow> bool \<Rightarrow> worker_run \<Rightarrow> worker_run \<times> bool" where
  "group_exists env group_ready rn = (if group_ready then reading_run (we_group env) rn else (rn, False))"

text \<open>\<^verbatim>\<open>process.is_alive() or self._group_exists(...)\<close>\<close>

definition still_running :: "worker_env \<Rightarrow> bool \<Rightarrow> worker_run \<Rightarrow> worker_run \<times> bool" where
  "still_running env group_ready rn = (let (rn, alive) = reading_run (we_alive env) rn in
     if alive then (rn, True) else group_exists env group_ready rn)"

definition stop_worker :: "worker_env \<Rightarrow> bool \<Rightarrow> worker_run \<Rightarrow> worker_run \<times> bool" where
  "stop_worker env group_ready rn0 =
     (let (rn, running) = still_running env group_ready (signal_worker env ''SIGTERM'' group_ready rn0);
          rn = (if running then signal_worker env ''SIGKILL'' group_ready rn else rn);
          (rn, running) = still_running env group_ready rn
      in (rn, \<not> running))"

text \<open>After a complete exchange: the child must be gone with status zero and must have sent nothing more.\<close>

definition finish_complete :: "worker_env \<Rightarrow> worker_run \<Rightarrow> worker_run \<times> worker_outcome option" where
  "finish_complete env rn0 = (case still_running env (rn_group_ready rn0) rn0 of
     (rn, True) \<Rightarrow> (fst (stop_worker env (rn_group_ready rn0) rn), Some (Worker_error ''worker_cleanup_failed''))
   | (rn, False) \<Rightarrow> (let (rn, code) = reading_run (we_exitcode env) rn in
       if code \<noteq> Some 0 then (rn, Some (Worker_error ''worker_crashed''))
       else case reading_run (\<lambda>t. we_poll env t (Fin 0)) rn of
           (rn, Poll_error) \<Rightarrow> (rn, Some invalid_message)
         | (rn, Poll_empty) \<Rightarrow> (rn, None)
         | (rn, Poll_ready) \<Rightarrow> (case receiving env rn of
             (rn, Pipe_eof) \<Rightarrow> (rn, None)
           | (rn, _) \<Rightarrow> (rn, Some invalid_message))))"

text \<open>After a failure; an exception of another kind is raised again whatever the cleanup finds.\<close>

definition finish_failed :: "worker_env \<Rightarrow> worker_outcome \<Rightarrow> worker_run \<Rightarrow> worker_run \<times> worker_outcome" where
  "finish_failed env failure rn0 = (let (rn, cleaned) = stop_worker env (rn_group_ready rn0) rn0 in
     (rn, if cleaned \<or> failure = Worker_other then failure else Worker_error ''worker_cleanup_failed''))"

definition close_process :: "worker_env \<Rightarrow> worker_outcome option \<Rightarrow> worker_outcome option" where
  "close_process env failure =
     (if we_close_ok env \<or> failure \<noteq> None then failure else Some (Worker_error ''worker_cleanup_failed''))"

section \<open>An execution\<close>

definition execute :: "worker_env \<Rightarrow> worker \<Rightarrow> (string \<times> int) list \<Rightarrow> worker \<times> worker_run \<times> worker_outcome" where
  "execute env wk refs =
     (if \<not> valid_references refs then (wk, new_run, Worker_error ''worker_start_failed'')
      else case we_start env of
          Start_failed None \<Rightarrow> (wk, new_run, Worker_error ''worker_start_failed'')
        | Start_failed (Some _) \<Rightarrow>
            (let (rn, failure) = finish_failed env (Worker_error ''worker_start_failed'') new_run in (wk, rn, failure))
        | Started pid \<Rightarrow>
            (let request_deadline = fl_add (we_clock env 0) (wl_request_seconds (wk_limits wk));
                 (rn, ended) = worker_loop env (wk_limits wk) pid (wk_manifest_sha256 wk) refs request_deadline new_run;
                 wk' = wk\<lparr>wk_last_worker_pid := Some pid,
                   wk_last_process_group := if rn_group_ready rn then Some pid else wk_last_process_group wk\<rparr>
             in case ended of
                 Inl failure \<Rightarrow> (let (rn, failure) = finish_failed env failure rn in (wk', rn, failure))
               | Inr _ \<Rightarrow> (let (rn, failure) = finish_complete env rn in
                   case close_process env failure of
                     Some e \<Rightarrow> (wk', rn, e)
                   | None \<Rightarrow> (wk'\<lparr>wk_completed_record_count := wk_completed_record_count wk' + length (rn_results rn)\<rparr>,
                       rn, Worker_results (rn_results rn)))))"

end
