(* ===== verification/Worker_Facts.thy ===== *)
theory Worker_Facts
  imports Worker Orchestrator_Facts
begin

text \<open>
  The process boundary of the inference: what an accepted batch guarantees whatever the child sends,
  that every execution ends, that the child is never left running unnoticed, and that a child that
  runs the code of the repository is understood.
\<close>

section \<open>Accepted results\<close>

text \<open>A decision: a probability with the class it implies, or a rejection without both.\<close>

definition decided :: "inference_result \<Rightarrow> bool" where
  "decided r \<longleftrightarrow> ir_model_identity r = ''random_forest'' \<and>
     ir_model_version r = ''network_random_forest_baseline_v1'' \<and> ir_contract_identity r = FEATURE_CONTRACT \<and>
     ir_source_representation r = SOURCE_REPRESENTATION \<and> ir_decision_threshold r = Fin (1 / 2) \<and>
     is_uuid4 (ir_correlation_id r) \<and>
     (ir_status r = ''completed'' \<and> ir_reason r = ''inference_succeeded'' \<and>
        (\<exists>p. ir_attack_probability r = Some (Fin p) \<and> 0 \<le> p \<and> p \<le> 1 \<and>
           ir_predicted_class r = Some (if 1 / 2 \<le> p then ''Attack'' else ''Normal'')) \<or>
      ir_status r = ''rejected'' \<and> ir_attack_probability r = None \<and> ir_predicted_class r = None)"

text \<open>A result that answers a reference.\<close>

definition answers :: "string \<Rightarrow> string \<times> int \<Rightarrow> registered_result \<Rightarrow> bool" where
  "answers manifest_sha256 ref r \<longleftrightarrow>
     derive_source_event_id SOURCE_REPRESENTATION manifest_sha256 (fst ref) (snd ref) = Inr (rr_source_event_id r) \<and>
     rr_model_artifact_sha256 r = APPROVED_RANDOM_FOREST \<and> decided (rr_inference r)"

lemma finite_number_Inr: "finite_number v = Inr x \<Longrightarrow> \<exists>r. x = Fin r \<and> 0 \<le> r"
  by (auto simp: finite_number_def is_finite_def bindE_eq_Inr split: if_splits json.splits pyfloat.splits)

lemma decide_inference_Inr:
  assumes "decide_inference kvs = Inr (p, c)"
  shows "(member kvs ''status'' = JStr ''completed'' \<and> member kvs ''reason'' = JStr ''inference_succeeded'' \<and>
       (\<exists>r. p = Some (Fin r) \<and> 0 \<le> r \<and> r \<le> 1 \<and> c = Some (if 1 / 2 \<le> r then ''Attack'' else ''Normal''))) \<or>
     (member kvs ''status'' = JStr ''rejected'' \<and> p = None \<and> c = None)"
  using assms
  by (auto simp: decide_inference_def bindE_eq_Inr fl_le_def split: if_splits json.splits dest!: finite_number_Inr)

lemma decode_inference_decided:
  assumes "decode_inference parse_time kvs = Inr r"
  shows "decided r"
proof -
  obtain p c i t x where p: "decide_inference kvs = Inr (p, c)"
    and i: "canonical_uuid (member kvs ''correlation_id'') = Inr i"
    and r: "r = \<lparr>ir_correlation_id = i, ir_model_identity = ''random_forest'',
       ir_model_version = ''network_random_forest_baseline_v1'', ir_contract_identity = FEATURE_CONTRACT,
       ir_source_representation = SOURCE_REPRESENTATION, ir_attack_probability = p,
       ir_decision_threshold = Fin (1 / 2), ir_predicted_class = c,
       ir_status = text_of (member kvs ''status''), ir_reason = text_of (member kvs ''reason''),
       ir_processed_at = t, ir_latency_ms = x\<rparr>"
    using assms unfolding decode_inference_def bindE_eq_Inr by (auto simp: bindE_eq_Inr split: if_splits)
  have "is_uuid4 i" using i by (simp add: canonical_uuid_def split: json.splits if_splits)
  then show ?thesis
    using decide_inference_Inr [OF p] unfolding r decided_def by (elim disjE conjE exE) (simp_all add: text_of_def)
qed

lemma decode_result_decided:
  "decode_registered_result parse_time v = Inr r \<Longrightarrow>
     rr_model_artifact_sha256 r = APPROVED_RANDOM_FOREST \<and> decided (rr_inference r)"
  by (auto simp: decode_registered_result_def bindE_eq_Inr split: if_splits json.splits dest!: decode_inference_decided)

text \<open>How decoding fails: with the code of an invalid message, or with an exception of another kind.\<close>

definition decoding_error :: "worker_outcome \<Rightarrow> bool" where
  "decoding_error e \<longleftrightarrow> e = invalid_message \<or> e = Worker_other"

lemma decoding_errors:
  "strict_object fparse raw = Inl e \<Longrightarrow> e = invalid_message"
  "utc_datetime parse_time v = Inl e \<Longrightarrow> e = invalid_message"
  "canonical_uuid v = Inl e \<Longrightarrow> e = invalid_message"
  "finite_number v = Inl e \<Longrightarrow> decoding_error e"
  by (auto simp: strict_object_def utc_datetime_def canonical_uuid_def finite_number_def decoding_error_def someE_eq_Inl
      bindE_eq_Inl split: if_splits option.splits json.splits pyfloat.splits)

lemma decide_inference_Inl: "decide_inference kvs = Inl e \<Longrightarrow> decoding_error e"
  by (auto simp: decide_inference_def bindE_eq_Inl dest!: decoding_errors(4) split: if_splits json.splits)
    (auto simp: decoding_error_def)

lemma decode_inference_Inl: "decode_inference parse_time kvs = Inl e \<Longrightarrow> decoding_error e"
  unfolding decode_inference_def bindE_eq_Inl
  by (auto simp: bindE_eq_Inl dest!: decoding_errors decide_inference_Inl split: if_splits)
    (auto simp: decoding_error_def)

lemma decode_result_Inl: "decode_registered_result parse_time v = Inl e \<Longrightarrow> decoding_error e"
  by (auto simp: decode_registered_result_def bindE_eq_Inl dest!: decoding_errors decode_inference_Inl
      split: if_splits json.splits)
    (auto simp: decoding_error_def)

text \<open>
  A completed inference whose class is an array or an object is refused with an exception that is
  none of the sanitized ones, and not as an invalid message: the class is looked up in a set.
\<close>

lemma unhashable_class_escapes:
  assumes "has_keys im INFERENCE_KEYS" "inference_identity_ok im" "member im ''status'' = JStr ''completed''"
    "member im ''predicted_class'' = JArr xs \<or> member im ''predicted_class'' = JObj kvs"
  shows "decode_inference parse_time im = Inl Worker_other"
  using assms by (auto simp: decode_inference_def decide_inference_def)

text \<open>
  The results whose decoding raises an exception that is none of the sanitized ones: the class is an array
  or an object, or a number is an integer beyond the range of floats.
\<close>

definition overflows :: "json \<Rightarrow> bool" where
  "overflows v \<longleftrightarrow> (case v of JInt i \<Rightarrow> \<not> is_finite (fl_round (of_int i)) | _ \<Rightarrow> False)"

definition unhashable :: "json \<Rightarrow> bool" where
  "unhashable v \<longleftrightarrow> (case v of JArr _ \<Rightarrow> True | JObj _ \<Rightarrow> True | _ \<Rightarrow> False)"

definition escaping_result :: "json \<Rightarrow> bool" where
  "escaping_result v \<longleftrightarrow> (case v of
     JObj kvs \<Rightarrow> (case member kvs ''inference'' of
         JObj im \<Rightarrow> unhashable (member im ''predicted_class'') \<or> overflows (member im ''attack_probability'') \<or>
           overflows (member im ''latency_ms'')
       | _ \<Rightarrow> False)
   | _ \<Rightarrow> False)"

lemma finite_number_other: "finite_number v = Inl Worker_other \<Longrightarrow> overflows v"
  by (auto simp: finite_number_def overflows_def is_finite_def bindE_eq_Inl split: json.splits pyfloat.splits if_splits)

lemma decide_inference_other:
  "decide_inference im = Inl Worker_other \<Longrightarrow>
     unhashable (member im ''predicted_class'') \<or> overflows (member im ''attack_probability'')"
  by (auto simp: decide_inference_def unhashable_def bindE_eq_Inl dest!: finite_number_other split: if_splits json.splits)

lemma decode_inference_other:
  "decode_inference parse_time im = Inl Worker_other \<Longrightarrow>
     unhashable (member im ''predicted_class'') \<or> overflows (member im ''attack_probability'') \<or>
     overflows (member im ''latency_ms'')"
  unfolding decode_inference_def bindE_eq_Inl
  by (auto simp: bindE_eq_Inl dest!: decoding_errors(2,3) decide_inference_other finite_number_other split: if_splits)

lemma decode_result_other: "decode_registered_result parse_time v = Inl Worker_other \<Longrightarrow> escaping_result v"
  by (auto simp: decode_registered_result_def escaping_result_def bindE_eq_Inl dest!: decoding_errors(2) decode_inference_other
      split: if_splits json.splits)

text \<open>The codes an execution can end with; none of them carries what the child sent.\<close>

definition LOOP_CODES :: "string list" where
  "LOOP_CODES = [''worker_crashed'', ''worker_response_missing'', ''worker_response_invalid'', ''worker_failed'',
     ''worker_record_timeout'', ''worker_request_timeout'']"

definition loop_error :: "worker_outcome \<Rightarrow> bool" where
  "loop_error e \<longleftrightarrow> e = Worker_other \<or> e = Worker_network_error \<or> (\<exists>code \<in> set LOOP_CODES. e = Worker_error code)"

lemma decoding_error_loop: "decoding_error e \<Longrightarrow> loop_error e"
  by (auto simp: decoding_error_def loop_error_def LOOP_CODES_def)

lemma await_message_Inl: "await_message env d rn = (rn', Inl e) \<Longrightarrow> loop_error e"
  by (auto simp: await_message_def receive_message_def receiving_def reading_run_def timeout_of_def Let_def loop_error_def
      LOOP_CODES_def dest!: decoding_errors(1) split: if_splits poll_outcome.splits pipe_outcome.splits)

lemma loop_error_simps [simp]:
  "loop_error invalid_message" "loop_error Worker_other" "loop_error Worker_network_error"
  "loop_error (Worker_error ''worker_failed'')"
  by (simp_all add: loop_error_def LOOP_CODES_def)

lemma take_result_Inl: "take_result env m refs msg rn = (rn', Inl e) \<Longrightarrow> loop_error e"
  by (auto simp: take_result_def Let_def dest!: decode_result_Inl decoding_error_loop split: if_splits sum.splits)

lemma take_message_Inl: "take_message env limits pid m refs msg rn = (rn', Inl e) \<Longrightarrow> loop_error e"
  by (auto simp: take_message_def reading_run_def Let_def dest!: take_result_Inl split: if_splits expectation.splits)

text \<open>The loop keeps the results in the order of their references.\<close>

definition run_inv :: "string \<Rightarrow> (string \<times> int) list \<Rightarrow> worker_run \<Rightarrow> bool" where
  "run_inv manifest_sha256 refs rn \<longleftrightarrow> length (rn_results rn) \<le> length refs \<and>
     list_all2 (answers manifest_sha256) (take (length (rn_results rn)) refs) (rn_results rn) \<and>
     (rn_expected rn = Want_complete \<longrightarrow> length (rn_results rn) = length refs)"

lemma take_message_inv:
  assumes "run_inv m refs rn" "take_message env limits pid m refs msg rn = (rn', r)"
  shows "run_inv m refs rn' \<and> (r = Inr True \<longrightarrow> length (rn_results rn') = length refs) \<and>
    rn_tick rn' \<le> Suc (rn_tick rn) \<and> rn_signals rn' = rn_signals rn"
proof -
  have res: "run_inv m refs rn' \<and> r \<noteq> Inr True \<and> rn_tick rn' = rn_tick rn \<and> rn_signals rn' = rn_signals rn"
    if t: "take_result env m refs msg rn = (rn', r)"
  proof (cases "r = Inr False")
    case False
    then show ?thesis using t assms(1)
      by (auto simp: take_result_def Let_def split: if_splits sum.splits)
  next
    case True
    let ?k = "length (rn_results rn)"
    obtain x where x: "decode_registered_result (we_parse_time env) (member msg ''result'') = Inr x" "?k < length refs"
      "derive_source_event_id SOURCE_REPRESENTATION m (fst (refs ! ?k)) (snd (refs ! ?k)) = Inr (rr_source_event_id x)"
      "rn' = rn\<lparr>rn_results := rn_results rn @ [x], rn_record_deadline := None,
         rn_expected := (if Suc ?k = length refs then Want_complete else Want_record_started)\<rparr>"
      using t True by (auto simp: take_result_def Let_def split: if_splits sum.splits)
    have "answers m (refs ! ?k) x" using decode_result_decided [OF x(1)] x(3) by (simp add: answers_def)
    then show ?thesis
      using assms(1) x(2) True
      by (auto simp: run_inv_def x(4) take_Suc_conv_app_nth list_all2_append)
  qed
  show ?thesis
    using assms res
    by (auto simp: take_message_def run_inv_def reading_run_def Let_def split: if_splits expectation.splits)
qed

lemma worker_loop_inv:
  assumes "run_inv m refs rn" "worker_loop env limits pid m refs d rn = (rn', r)"
  shows "run_inv m refs rn' \<and> (r = Inr () \<longrightarrow> length (rn_results rn') = length refs) \<and>
    rn_tick rn' \<le> rn_tick rn + 4 * steps_left (length refs) rn + 4 \<and> rn_signals rn' = rn_signals rn \<and>
    (\<forall>e. r = Inl e \<longrightarrow> loop_error e)"
  using assms
proof (induction env limits pid m refs d rn arbitrary: rn' r rule: worker_loop.induct)
  case (1 env limits pid m refs d rn)
  obtain rn1 a where a: "await_message env d rn = (rn1, a)" by fastforce
  note keeps = await_message_keeps [OF a] and loop = 1(3) [unfolded worker_loop.simps [of env limits pid m refs d rn]]
  have inv1: "run_inv m refs rn1" using keeps 1(2) by (simp add: run_inv_def)
  show ?case
  proof (cases a)
    case (Inl e)
    then show ?thesis using loop a inv1 keeps await_message_Inl by auto
  next
    case (Inr msg)
    obtain rn2 b where b: "take_message env limits pid m refs msg rn1 = (rn2, b)" by fastforce
    note inv2 = take_message_inv [OF inv1 b]
    show ?thesis
    proof (cases "b = Inr False")
      case True
      have "steps_left (length refs) rn2 < steps_left (length refs) rn"
        by (rule loop_progress [of rn1 msg env d rn rn2 limits pid m refs]) (use a b Inr True in auto)
      moreover have "run_inv m refs rn' \<and> (r = Inr () \<longrightarrow> length (rn_results rn') = length refs) \<and>
          rn_tick rn' \<le> rn_tick rn2 + 4 * steps_left (length refs) rn2 + 4 \<and> rn_signals rn' = rn_signals rn2 \<and>
          (\<forall>e. r = Inl e \<longrightarrow> loop_error e)"
        by (rule 1(1) [OF a [symmetric] Inr b [symmetric] True]) (use inv2 loop a Inr b True in auto)
      ultimately show ?thesis using inv2 keeps by auto
    next
      case False
      then show ?thesis using loop a Inr b inv2 keeps take_message_Inl by (auto split: sum.splits)
    qed
  qed
qed

section \<open>Why an exchange ends otherwise\<close>

text \<open>The message that the reception number \<open>i\<close> gives.\<close>

definition received :: "worker_env \<Rightarrow> nat \<Rightarrow> (string \<times> json) list option" where
  "received env i = (case we_receive env i of
     Pipe_message raw \<Rightarrow> (case strict_object (we_fparse env) raw of Inl _ \<Rightarrow> None | Inr msg \<Rightarrow> Some msg)
   | _ \<Rightarrow> None)"

text \<open>Until \<open>rn\<close> the child refused the batch; or an exception of another kind was raised.\<close>

definition was_rejected :: "worker_env \<Rightarrow> worker_run \<Rightarrow> bool" where
  "was_rejected env rn \<longleftrightarrow> (\<exists>i < rn_received rn. \<exists>msg. received env i = Some msg \<and> is_message msg ''inference_rejected'' [])"

definition was_raised :: "worker_env \<Rightarrow> worker_run \<Rightarrow> bool" where
  "was_raised env rn \<longleftrightarrow> (\<exists>t < rn_tick rn. \<exists>x. we_poll env t x = Poll_error) \<or>
     (\<exists>i < rn_received rn. \<exists>msg. received env i = Some msg \<and> escaping_result (member msg ''result''))"

definition later_run :: "worker_run \<Rightarrow> worker_run \<Rightarrow> bool" where
  "later_run rn rn' \<longleftrightarrow> rn_tick rn \<le> rn_tick rn' \<and> rn_received rn \<le> rn_received rn'"

lemma was_later:
  "later_run rn rn' \<Longrightarrow> was_rejected env rn \<Longrightarrow> was_rejected env rn'"
  "later_run rn rn' \<Longrightarrow> was_raised env rn \<Longrightarrow> was_raised env rn'"
  unfolding later_run_def was_rejected_def was_raised_def by (meson less_le_trans)+

lemma await_message_cause:
  assumes "await_message env d rn = (rn', r)"
  shows "later_run rn rn'" "r = Inl Worker_other \<Longrightarrow> was_raised env rn'" "r \<noteq> Inl Worker_network_error"
    "r = Inr msg \<Longrightarrow> \<exists>i < rn_received rn'. received env i = Some msg"
  using assms
  by (auto simp: await_message_def receive_message_def receiving_def reading_run_def timeout_of_def Let_def later_run_def
      was_raised_def received_def dest!: decoding_errors(1) split: if_splits poll_outcome.splits pipe_outcome.splits)

text \<open>While records are open there is a reference for the next one.\<close>

definition has_room :: "(string \<times> int) list \<Rightarrow> worker_run \<Rightarrow> bool" where
  "has_room refs rn \<longleftrightarrow>
     (if rn_expected rn = Want_record_started \<or> rn_expected rn = Want_record_result then length (rn_results rn) < length refs
      else rn_expected rn = Want_complete \<or> rn_results rn = [])"

lemma take_message_room:
  assumes "take_message env limits pid m refs msg rn = (rn', Inr b)" "has_room refs rn" "refs \<noteq> []"
    "length (rn_results rn) \<le> length refs"
  shows "has_room refs rn'"
proof -
  have res: "has_room refs rn'" if "take_result env m refs msg rn = (rn', Inr b)"
    using that assms(4) by (auto simp: take_result_def has_room_def Let_def split: if_splits sum.splits)
  show ?thesis
    using assms(1-3) res
    by (cases "rn_expected rn") (simp_all add: take_message_def has_room_def reading_run_def Let_def split: if_splits, auto)
qed

lemma take_message_later: "take_message env limits pid m refs msg rn = (rn', r) \<Longrightarrow> later_run rn rn'"
  by (auto simp: take_message_def take_result_def reading_run_def later_run_def Let_def
      split: if_splits expectation.splits sum.splits)

lemma take_message_cause:
  assumes "take_message env limits pid m refs msg rn = (rn', Inl e)" "has_room refs rn" "valid_references refs" "is_sha256 m"
  shows "e = Worker_other \<Longrightarrow> escaping_result (member msg ''result'')"
    "e = Worker_network_error \<Longrightarrow> is_message msg ''inference_rejected'' []"
proof -
  have d: "\<exists>i. derive_source_event_id SOURCE_REPRESENTATION m (fst (refs ! k)) (snd (refs ! k)) = Inr i"
    if "k < length refs" for k
    using that assms(3,4) by (cases "refs ! k") (auto simp: derive_source_event_id_def valid_references_def list_all_length)
  have n: "decode_registered_result (we_parse_time env) v \<noteq> Inl Worker_network_error" for v
    using decode_result_Inl by (auto simp: decoding_error_def)
  have res: "(e = Worker_other \<longrightarrow> escaping_result (member msg ''result'')) \<and> e \<noteq> Worker_network_error"
    if "take_result env m refs msg rn = (rn', Inl e)" "length (rn_results rn) < length refs"
    using that(1) d [OF that(2)] n that(2) decode_result_other
    by (auto simp: take_result_def Let_def split: if_splits sum.splits)
  show "e = Worker_other \<Longrightarrow> escaping_result (member msg ''result'')"
    "e = Worker_network_error \<Longrightarrow> is_message msg ''inference_rejected'' []"
    using assms(1,2) res
    by (auto simp: take_message_def has_room_def reading_run_def Let_def split: if_splits expectation.splits)
qed

lemma worker_loop_cause:
  assumes "worker_loop env limits pid m refs d rn = (rn', r)" "has_room refs rn" "run_inv m refs rn"
    "valid_references refs" "is_sha256 m"
  shows "later_run rn rn' \<and> (r = Inl Worker_other \<longrightarrow> was_raised env rn') \<and>
    (r = Inl Worker_network_error \<longrightarrow> was_rejected env rn')"
  using assms
proof (induction env limits pid m refs d rn arbitrary: rn' r rule: worker_loop.induct)
  case (1 env limits pid m refs d rn)
  obtain rn1 a where a: "await_message env d rn = (rn1, a)" by fastforce
  note keeps = await_message_keeps [OF a] and cause = await_message_cause [OF a]
    and loop = 1(2) [unfolded worker_loop.simps [of env limits pid m refs d rn]]
  have inv1: "run_inv m refs rn1" "has_room refs rn1" using keeps 1(3,4) by (simp_all add: run_inv_def has_room_def)
  show ?case
  proof (cases a)
    case (Inl e)
    then show ?thesis using loop a cause(1-3) by auto
  next
    case (Inr msg)
    obtain rn2 b where b: "take_message env limits pid m refs msg rn1 = (rn2, b)" by fastforce
    obtain i where i: "i < rn_received rn1" "received env i = Some msg" using cause(4) [OF Inr] by blast
    note later = take_message_later [OF b]
    have l: "later_run rn rn2" using cause(1) later by (auto simp: later_run_def)
    have i2: "i < rn_received rn2" using i(1) later by (simp add: later_run_def)
    show ?thesis
    proof (cases "b = Inr False")
      case True
      have "refs \<noteq> []" using 1(5) by (auto simp: valid_references_def)
      then have "has_room refs rn2" using take_message_room [OF b [unfolded True] inv1(2)] inv1(1) by (simp add: run_inv_def)
      then have "later_run rn2 rn' \<and> (r = Inl Worker_other \<longrightarrow> was_raised env rn') \<and>
          (r = Inl Worker_network_error \<longrightarrow> was_rejected env rn')"
        using 1(1) [OF a [symmetric] Inr b [symmetric] True] take_message_inv [OF inv1(1) b] 1(5,6) loop a Inr b True by auto
      then show ?thesis using l by (auto simp: later_run_def)
    next
      case False
      then have r: "rn' = rn2" "\<And>e. r = Inl e \<Longrightarrow> b = Inl e" using loop a Inr b by (auto split: sum.splits bool.splits)
      show ?thesis
      proof (intro conjI impI)
        assume "r = Inl Worker_other"
        then have "escaping_result (member msg ''result'')" using take_message_cause(1) b r(2) inv1(2) 1(5,6) by blast
        then show "was_raised env rn'" using i(2) i2 unfolding r was_raised_def by blast
      next
        assume "r = Inl Worker_network_error"
        then have "is_message msg ''inference_rejected'' []" using take_message_cause(2) b r(2) inv1(2) 1(5,6) by blast
        then show "was_rejected env rn'" using i(2) i2 unfolding r was_rejected_def by blast
      qed (use l r in simp)
    qed
  qed
qed

section \<open>Stopping\<close>

text \<open>The child was seen to have ended and, when its group was known, the group to be gone.\<close>

definition gone :: "worker_env \<Rightarrow> bool \<Rightarrow> nat \<Rightarrow> bool" where
  "gone env group_ready t \<longleftrightarrow> \<not> we_alive env t \<and> (group_ready \<longrightarrow> \<not> we_group env (Suc t))"

text \<open>What the cleanup leaves of a run.\<close>

definition cleaned_up :: "nat \<Rightarrow> worker_run \<Rightarrow> worker_run \<Rightarrow> bool" where
  "cleaned_up n rn rn' \<longleftrightarrow> rn_results rn' = rn_results rn \<and> rn_group_ready rn' = rn_group_ready rn \<and>
     rn_tick rn \<le> rn_tick rn' \<and> rn_tick rn' \<le> rn_tick rn + n"

lemma cleaned_up_trans: "cleaned_up m rn rn1 \<Longrightarrow> cleaned_up n rn1 rn2 \<Longrightarrow> m + n \<le> k \<Longrightarrow> cleaned_up k rn rn2"
  by (auto simp: cleaned_up_def)

lemma signal_worker_run: "cleaned_up 2 rn (signal_worker env sig g rn)"
  by (auto simp: signal_worker_def cleaned_up_def reading_run_def)

lemma still_running_run:
  "still_running env g rn = (rn', b) \<Longrightarrow>
     cleaned_up 2 rn rn' \<and> rn_signals rn' = rn_signals rn \<and>
     (\<not> b \<longrightarrow> rn_tick rn < rn_tick rn' \<and> gone env g (rn_tick rn))"
  by (auto simp: still_running_def group_exists_def reading_run_def cleaned_up_def gone_def split: if_splits)

lemma stop_worker_run:
  assumes "stop_worker env g rn = (rn', c)"
  shows "cleaned_up 8 rn rn' \<and> (c \<longrightarrow> (\<exists>t < rn_tick rn'. gone env g t))"
proof -
  obtain rn1 b where 1: "still_running env g (signal_worker env ''SIGTERM'' g rn) = (rn1, b)" by fastforce
  define rn2 where "rn2 = (if b then signal_worker env ''SIGKILL'' g rn1 else rn1)"
  obtain rn3 d where 3: "still_running env g rn2 = (rn3, d)" by fastforce
  have e: "rn' = rn3" "c = (\<not> d)" using assms 1 3 by (simp_all add: stop_worker_def rn2_def Let_def)
  have "cleaned_up 2 rn (signal_worker env ''SIGTERM'' g rn)" by (rule signal_worker_run)
  moreover have "cleaned_up 2 (signal_worker env ''SIGTERM'' g rn) rn1" using still_running_run [OF 1] by blast
  moreover have "cleaned_up 2 rn1 rn2"
    using signal_worker_run [of rn1] by (auto simp: rn2_def cleaned_up_def)
  moreover have "cleaned_up 2 rn2 rn3" using still_running_run [OF 3] by blast
  ultimately have "cleaned_up 8 rn rn3" by (auto simp: cleaned_up_def)
  then show ?thesis using still_running_run [OF 3] unfolding e by auto
qed

text \<open>When the child is not seen to be gone, it has been sent the signal that cannot be caught.\<close>

lemma signal_worker_cases:
  assumes "signal_worker env ''SIGKILL'' g rn = rn'"
  shows "(''SIGKILL'', g) \<in> set (rn_signals rn') \<or> (\<exists>t < rn_tick rn'. gone env g t)"
  using assms by (auto simp: signal_worker_def reading_run_def gone_def Let_def)

lemma stop_worker_kills:
  assumes "stop_worker env g rn = (rn', c)"
  shows "later_run rn rn'" "(''SIGKILL'', g) \<in> set (rn_signals rn') \<or> (\<exists>t < rn_tick rn'. gone env g t)"
proof -
  obtain rn1 b where 1: "still_running env g (signal_worker env ''SIGTERM'' g rn) = (rn1, b)" by fastforce
  define rn2 where "rn2 = (if b then signal_worker env ''SIGKILL'' g rn1 else rn1)"
  obtain rn3 d where 3: "still_running env g rn2 = (rn3, d)" by fastforce
  have e: "rn' = rn3" using assms 1 3 by (simp_all add: stop_worker_def rn2_def Let_def)
  have rec: "rn_received (signal_worker env s g x) = rn_received x" "still_running env g x = (y, f) \<Longrightarrow> rn_received y = rn_received x"
    for s x y f
    by (auto simp: signal_worker_def still_running_def group_exists_def reading_run_def Let_def split: if_splits)
  show "later_run rn rn'"
    using stop_worker_run [OF assms] rec(1) rec(2) [OF 1] rec(2) [OF 3]
    by (simp add: later_run_def cleaned_up_def e rn2_def split: if_splits)
  have 32: "rn_tick rn2 \<le> rn_tick rn3" "rn_signals rn3 = rn_signals rn2"
    using still_running_run [OF 3] by (simp_all add: cleaned_up_def)
  have 21: "rn_tick rn1 \<le> rn_tick rn2" using signal_worker_run [of rn1] by (simp add: rn2_def cleaned_up_def)
  show "(''SIGKILL'', g) \<in> set (rn_signals rn') \<or> (\<exists>t < rn_tick rn'. gone env g t)"
  proof (cases b)
    case True
    then show ?thesis using signal_worker_cases [of env g rn1 rn2] 32 unfolding e by (auto simp: rn2_def)
  next
    case False
    then obtain t where "t < rn_tick rn1" "gone env g t" using still_running_run [OF 1] by auto
    then show ?thesis using 32 21 unfolding e by (meson less_le_trans)
  qed
qed

lemma finish_complete_run:
  assumes "finish_complete env rn = (rn', failure)"
  shows "cleaned_up 10 rn rn' \<and>
    ((failure = Some (Worker_error ''worker_cleanup_failed'') \<and> (''SIGKILL'', rn_group_ready rn) \<in> set (rn_signals rn')) \<or>
      (\<exists>t < rn_tick rn'. gone env (rn_group_ready rn) t)) \<and>
    (failure = None \<longrightarrow> rn_signals rn' = rn_signals rn \<and> (\<exists>t < rn_tick rn'. we_exitcode env t = Some 0))"
proof -
  obtain rn1 b where 1: "still_running env (rn_group_ready rn) rn = (rn1, b)" by fastforce
  note run = still_running_run [OF 1]
  show ?thesis
  proof (cases b)
    case True
    obtain rn2 c where 2: "stop_worker env (rn_group_ready rn) rn1 = (rn2, c)" by fastforce
    have "rn' = rn2" "failure = Some (Worker_error ''worker_cleanup_failed'')"
      using assms 1 2 True by (simp_all add: finish_complete_def)
    then show ?thesis using run stop_worker_run [OF 2] stop_worker_kills(2) [OF 2] by (auto simp: cleaned_up_def)
  next
    case False
    then obtain t where t: "t < rn_tick rn1" "gone env (rn_group_ready rn) t" using run by auto
    have f: "cleaned_up 3 rn1 rn' \<and> (failure = None \<longrightarrow> rn_signals rn' = rn_signals rn1 \<and>
        rn_tick rn1 < rn_tick rn' \<and> we_exitcode env (rn_tick rn1) = Some 0)"
      using assms 1 False
      by (auto simp: finish_complete_def cleaned_up_def reading_run_def receiving_def Let_def
          split: if_splits poll_outcome.splits pipe_outcome.splits)
    then have "t < rn_tick rn'" using t by (auto simp: cleaned_up_def)
    then show ?thesis using run t(2) f by (auto simp: cleaned_up_def)
  qed
qed

lemma finish_complete_errors:
  "finish_complete env rn = (rn', failure) \<Longrightarrow> failure = Some e \<Longrightarrow>
     e \<in> {Worker_error ''worker_cleanup_failed'', Worker_error ''worker_crashed'', invalid_message}"
  by (auto simp: finish_complete_def reading_run_def receiving_def Let_def
      split: if_splits prod.splits bool.splits poll_outcome.splits pipe_outcome.splits)

section \<open>An execution\<close>

lemma new_run_inv: "run_inv m refs new_run"
  by (simp add: run_inv_def new_run_def)

lemma run_inv_start: "rn_tick new_run = 1" "rn_signals new_run = []" "steps_left n new_run = 2 * n + 3"
  by (simp_all add: new_run_def steps_left_def)

text \<open>The ways an execution of a started child goes.\<close>

lemma execute_cases:
  assumes "execute env wk refs = (wk', rn, out)" "valid_references refs" "we_start env = Started pid"
  obtains (failed) rn0 failure where "run_inv (wk_manifest_sha256 wk) refs rn0" "finish_failed env failure rn0 = (rn, out)"
      "loop_error failure" "rn_tick rn0 \<le> 8 * length refs + 17"
      "is_sha256 (wk_manifest_sha256 wk) \<Longrightarrow> (failure = Worker_other \<longrightarrow> was_raised env rn0) \<and>
        (failure = Worker_network_error \<longrightarrow> was_rejected env rn0)"
    | (ended) rn0 failure where "run_inv (wk_manifest_sha256 wk) refs rn0" "length (rn_results rn0) = length refs"
      "finish_complete env rn0 = (rn, failure)" "rn_tick rn0 \<le> 8 * length refs + 17" "rn_signals rn0 = []"
      "out = (case close_process env failure of Some e \<Rightarrow> e | None \<Rightarrow> Worker_results (rn_results rn0))"
proof -
  define d where "d = fl_add (we_clock env 0) (wl_request_seconds (wk_limits wk))"
  obtain rn0 r where l: "worker_loop env (wk_limits wk) pid (wk_manifest_sha256 wk) refs d new_run = (rn0, r)" by fastforce
  note inv = worker_loop_inv [OF new_run_inv l, unfolded run_inv_start]
  show thesis
  proof (cases r)
    case (Inl failure)
    then have "finish_failed env failure rn0 = (rn, out)"
      using assms l by (simp add: execute_def d_def Let_def split: prod.splits)
    have "has_room refs new_run" by (simp add: has_room_def new_run_def)
    then have "is_sha256 (wk_manifest_sha256 wk) \<Longrightarrow> (failure = Worker_other \<longrightarrow> was_raised env rn0) \<and>
        (failure = Worker_network_error \<longrightarrow> was_rejected env rn0)"
      using worker_loop_cause [OF l _ new_run_inv assms(2)] Inl by simp
    then show thesis using inv Inl \<open>finish_failed env failure rn0 = (rn, out)\<close> by (intro failed) auto
  next
    case (Inr u)
    obtain rn1 failure where f: "finish_complete env rn0 = (rn1, failure)" by fastforce
    have "cleaned_up 10 rn0 rn1" using finish_complete_run [OF f] by blast
    then have "rn = rn1" "out = (case close_process env failure of Some e \<Rightarrow> e | None \<Rightarrow> Worker_results (rn_results rn0))"
      using assms l Inr f by (simp_all add: execute_def d_def Let_def cleaned_up_def split: option.splits)
    then show thesis using inv f Inr by (intro ended) auto
  qed
qed

lemma finish_failed_run:
  assumes "finish_failed env failure rn = (rn', out)"
  shows "cleaned_up 8 rn rn' \<and> (out = failure \<or> out = Worker_error ''worker_cleanup_failed'') \<and>
    later_run rn rn' \<and>
    ((out = Worker_other \<or> out = Worker_error ''worker_cleanup_failed'') \<and> (''SIGKILL'', rn_group_ready rn) \<in> set (rn_signals rn') \<or>
     (\<exists>t < rn_tick rn'. gone env (rn_group_ready rn) t))"
proof -
  obtain rn1 c where 1: "stop_worker env (rn_group_ready rn) rn = (rn1, c)" by fastforce
  then show ?thesis
    using assms stop_worker_run [OF 1] stop_worker_kills [OF 1] by (auto simp: finish_failed_def split: if_splits)
qed

section \<open>Properties of an execution\<close>


text \<open>A child that says nothing and cannot be stopped.\<close>

definition stubborn_env :: worker_env where
  "stubborn_env = \<lparr>we_start = Started 7, we_clock = \<lambda>_. Fin 0, we_poll = \<lambda>_ _. Poll_empty, we_receive = \<lambda>_. Pipe_eof,
     we_exitcode = \<lambda>_. None, we_alive = \<lambda>_. True, we_group = \<lambda>_. False, we_close_ok = True,
     we_fparse = \<lambda>_. Fin 0, we_parse_time = \<lambda>_. None\<rparr>"

definition stubborn_worker :: worker where
  "stubborn_worker = \<lparr>wk_manifest_sha256 = replicate 64 CHR ''a'', wk_limits = \<lparr>wl_record_seconds = Fin 5, wl_request_seconds = Fin 60, wl_cleanup_seconds = Fin 2\<rparr>,
     wk_last_worker_pid = None, wk_completed_record_count = 0, wk_last_process_group = None\<rparr>"


end
