(* ===== verification/Worker_Protocol.thy ===== *)
theory Worker_Protocol
  imports Worker_Facts
begin

text \<open>
  The two ends of the worker protocol fit together: the messages that the code of the child prints are
  read back by the parent as what was sent, and the exchange of a child that runs this code to its end
  is accepted.
\<close>

section \<open>Objects that are read back\<close>

definition norm_members :: "(string \<times> json) list \<Rightarrow> (string \<times> json) list" where
  "norm_members kvs = sort_key fst (map (\<lambda>(k, v). (k, json_norm v)) kvs)"

lemma json_norm_obj: "json_norm (JObj kvs) = JObj (norm_members kvs)"
  by (simp add: norm_members_def)

lemma norm_members_keys: "set (map fst (norm_members kvs)) = set (map fst kvs)"
  by (force simp: norm_members_def)

lemma norm_members_get:
  assumes "distinct (map fst kvs)"
  shows "obj_get (norm_members kvs) k = map_option json_norm (obj_get kvs k)"
proof -
  let ?m = "map (\<lambda>(k, v). (k, json_norm v)) kvs"
  have d: "distinct (map fst ?m)" using assms by (simp add: comp_def split_beta)
  then have "distinct (map fst (norm_members kvs))"
    using distinct_map [THEN iffD1, OF d] unfolding norm_members_def
    by (intro distinct_map [THEN iffD2]) (simp only: distinct_sort set_sort simp_thms)
  then have "map_of (norm_members kvs) = map_of ?m"
    using d by (intro map_of_inject_set [THEN iffD2]) (simp_all add: norm_members_def)
  moreover have "map_of ?m k = map_option json_norm (map_of kvs k)"
    by (induction kvs) auto
  ultimately show ?thesis by (simp add: obj_get_def)
qed

lemma norm_member: "distinct (map fst kvs) \<Longrightarrow> member (norm_members kvs) k = json_norm (member kvs k)"
  by (simp add: member_def norm_members_get split: option.splits)

lemma norm_has_keys: "has_keys (norm_members kvs) ks = (set (map fst kvs) = set ks)"
  using norm_members_keys [of kvs] by (simp add: has_keys_def)

lemma digit_ascii: "is_digit c \<Longrightarrow> of_char c < (128 :: nat)"
  by (auto simp: is_digit_def char_in_def less_eq_char_def)

lemma isoformat_ascii: "ascii (isoformat d)"
proof -
  have "ascii (padn k n)" for k n
    using all_digits_padn [of k n] by (auto simp: ascii_def list_all_iff digit_ascii)
  then show ?thesis by (simp add: isoformat_def iso_fraction_def)
qed

lemma source_event_id_ascii:
  assumes "is_source_event_id s"
  shows "ascii s"
proof -
  obtain p where p: "p = SOURCE_EVENT_ID_SCHEMA @ '':''" "ascii p" by (simp add: ascii_def)
  then obtain t where t: "s = p @ t" using assms by (auto simp: is_source_event_id_def starts_with_iff simp del: append.simps)
  have "is_sha256 t" using assms unfolding is_source_event_id_def p(1) [symmetric] t by simp
  then have "ascii t" by (auto simp: is_sha256_def ascii_def list_all_iff hex_ascii)
  then show ?thesis using t p(2) by simp
qed

section \<open>Results that are read back\<close>

text \<open>A result as the boundary of the child makes it, whose times and floats survive their texts.\<close>

definition sendable ::
  "(pyfloat \<Rightarrow> string) \<Rightarrow> (string \<Rightarrow> pyfloat) \<Rightarrow> (string \<Rightarrow> datetime option) \<Rightarrow> registered_result \<Rightarrow> bool" where
  "sendable frepr fparse parse_time r \<longleftrightarrow> (let i = rr_inference r in
     decided i \<and> rr_model_artifact_sha256 r = APPROVED_RANDOM_FOREST \<and> is_source_event_id (rr_source_event_id r) \<and>
     reason_ok (JStr (ir_reason i)) \<and>
     (\<exists>d. ir_processed_at i = isoformat d \<and> parse_time (isoformat d) = Some d) \<and>
     parse_time (isoformat (rr_observed_at r)) = Some (rr_observed_at r) \<and>
     (\<exists>l. ir_latency_ms i = Fin l \<and> 0 \<le> l) \<and>
     list_all (\<lambda>x. float_text (frepr x) \<and> fparse (frepr x) = x)
       (case ir_attack_probability i of None \<Rightarrow> [Fin (1 / 2), ir_latency_ms i]
        | Some p \<Rightarrow> [p, Fin (1 / 2), ir_latency_ms i]))"

lemma reason_ascii: "reason_ok (JStr s) \<Longrightarrow> ascii s"
  by (auto simp: reason_ok_def ascii_def list_all_iff char_in_def less_eq_char_def)

lemma artifact_ascii: "ascii APPROVED_RANDOM_FOREST"
  by code_simp

lemma decided_cases:
  assumes "decided i"
  obtains (completed) p where "ir_status i = ''completed''" "ir_reason i = ''inference_succeeded''"
      "ir_attack_probability i = Some (Fin p)" "0 \<le> p" "p \<le> 1"
      "ir_predicted_class i = Some (if 1 / 2 \<le> p then ''Attack'' else ''Normal'')"
    | (rejected) "ir_status i = ''rejected''" "ir_attack_probability i = None" "ir_predicted_class i = None"
  using assms unfolding decided_def by (elim conjE disjE exE) (rule that, assumption+)+

lemma inference_json_ok:
  assumes "sendable frepr fparse parse_time r"
  shows "json_ok frepr (plain_hooks fparse) (inference_json (rr_inference r))"
proof -
  let ?i = "rr_inference r"
  have d: "decided ?i" and rest: "ascii (ir_reason ?i)" "ascii (ir_processed_at ?i)" "ascii (ir_correlation_id ?i)"
    "ir_model_identity ?i = ''random_forest''" "ir_model_version ?i = ''network_random_forest_baseline_v1''"
    "ir_contract_identity ?i = FEATURE_CONTRACT" "ir_source_representation ?i = SOURCE_REPRESENTATION"
    "ir_decision_threshold ?i = Fin (1 / 2)"
    using assms uuid4_ascii isoformat_ascii reason_ascii by (auto simp: sendable_def decided_def Let_def)
  from d show ?thesis
    by (cases rule: decided_cases)
      (use assms rest in \<open>auto simp: inference_json_def sendable_def plain_hooks_def Let_def\<close>)
qed

lemma payload_json_ok:
  assumes "sendable frepr fparse parse_time r"
  shows "json_ok frepr (plain_hooks fparse) (registered_payload r)"
  using inference_json_ok [OF assms] assms source_event_id_ascii isoformat_ascii artifact_ascii
  by (simp add: registered_payload_def sendable_def Let_def)

lemma utc_datetime_isoformat:
  "parse_time (isoformat d) = Some d \<Longrightarrow> utc_datetime parse_time (JStr (isoformat d)) = Inr d"
proof -
  have "py_length (isoformat d) \<le> length (isoformat d)" by (simp add: py_length_def)
  then have "py_length (isoformat d) \<le> 64" by (simp add: length_isoformat split: if_splits)
  then show "parse_time (isoformat d) = Some d \<Longrightarrow> ?thesis" by (simp add: utc_datetime_def)
qed

text \<open>The members of a printed result.\<close>

definition inference_members :: "inference_result \<Rightarrow> (string \<times> json) list" where
  "inference_members r = (case inference_json r of JObj kvs \<Rightarrow> kvs | _ \<Rightarrow> [])"

lemma inference_members:
  "inference_json r = JObj (inference_members r)" "distinct (map fst (inference_members r))"
  "map fst (inference_members r) = INFERENCE_KEYS"
  by (simp_all add: inference_members_def inference_json_def INFERENCE_KEYS_def)

lemma inference_member:
  "member (inference_members r) ''correlation_id'' = JStr (ir_correlation_id r)"
  "member (inference_members r) ''model_identity'' = JStr (ir_model_identity r)"
  "member (inference_members r) ''model_version'' = JStr (ir_model_version r)"
  "member (inference_members r) ''contract_identity'' = JStr (ir_contract_identity r)"
  "member (inference_members r) ''source_representation_identity'' = JStr (ir_source_representation r)"
  "member (inference_members r) ''attack_probability'' = (case ir_attack_probability r of None \<Rightarrow> JNull | Some p \<Rightarrow> JFloat p)"
  "member (inference_members r) ''decision_threshold'' = JFloat (ir_decision_threshold r)"
  "member (inference_members r) ''predicted_class'' = (case ir_predicted_class r of None \<Rightarrow> JNull | Some c \<Rightarrow> JStr c)"
  "member (inference_members r) ''status'' = JStr (ir_status r)"
  "member (inference_members r) ''reason'' = JStr (ir_reason r)"
  "member (inference_members r) ''processed_at'' = JStr (ir_processed_at r)"
  "member (inference_members r) ''latency_ms'' = JFloat (ir_latency_ms r)"
  by (simp_all add: member_def obj_get_def inference_members_def inference_json_def)

lemma decide_own:
  assumes "decided r"
  shows "decide_inference (norm_members (inference_members r)) = Inr (ir_attack_probability r, ir_predicted_class r)"
  using assms
  by (cases rule: decided_cases)
    (auto simp: decide_inference_def norm_member [OF inference_members(2)] inference_member finite_number_def
      is_finite_def fl_le_def)

lemma decode_own_inference:
  assumes "sendable frepr fparse parse_time r"
  shows "decode_inference parse_time (norm_members (inference_members (rr_inference r))) = Inr (rr_inference r)"
proof -
  let ?i = "rr_inference r"
  obtain d l where i: "decided ?i" "reason_ok (JStr (ir_reason ?i))" "ir_processed_at ?i = isoformat d"
    "parse_time (isoformat d) = Some d" "ir_latency_ms ?i = Fin l" "0 \<le> l"
    using assms by (auto simp: sendable_def Let_def)
  have f: "ir_model_identity ?i = ''random_forest''" "ir_model_version ?i = ''network_random_forest_baseline_v1''"
    "ir_contract_identity ?i = FEATURE_CONTRACT" "ir_source_representation ?i = SOURCE_REPRESENTATION"
    "ir_decision_threshold ?i = Fin (1 / 2)" "is_uuid4 (ir_correlation_id ?i)"
    using i(1) by (simp_all add: decided_def)
  have "has_keys (norm_members (inference_members ?i)) INFERENCE_KEYS"
    by (simp add: norm_has_keys inference_members(3))
  moreover have "inference_identity_ok (norm_members (inference_members ?i))"
    using i(2) f by (simp add: inference_identity_ok_def norm_member [OF inference_members(2)] inference_member threshold_ok_def)
  ultimately show ?thesis
    using decide_own [OF i(1)] f i utc_datetime_isoformat [of parse_time d, OF i(4)]
    by (cases ?i) (simp add: decode_inference_def norm_member [OF inference_members(2)] inference_member canonical_uuid_def
        finite_number_def is_finite_def text_of_def)
qed

definition payload_members :: "registered_result \<Rightarrow> (string \<times> json) list" where
  "payload_members r = (case registered_payload r of JObj kvs \<Rightarrow> kvs | _ \<Rightarrow> [])"

lemma payload_members:
  "registered_payload r = JObj (payload_members r)" "distinct (map fst (payload_members r))"
  "map fst (payload_members r) = RESULT_KEYS"
  by (simp_all add: payload_members_def registered_payload_def RESULT_KEYS_def)

lemma payload_member:
  "member (payload_members r) ''source_event_id'' = JStr (rr_source_event_id r)"
  "member (payload_members r) ''observed_at'' = JStr (isoformat (rr_observed_at r))"
  "member (payload_members r) ''model_artifact_sha256'' = JStr (rr_model_artifact_sha256 r)"
  "member (payload_members r) ''inference'' = JObj (inference_members (rr_inference r))"
  by (simp_all add: member_def obj_get_def payload_members_def registered_payload_def inference_members(1))

lemma decode_own_result:
  assumes "sendable frepr fparse parse_time r"
  shows "decode_registered_result parse_time (json_norm (registered_payload r)) = Inr r"
proof -
  have s: "rr_model_artifact_sha256 r = APPROVED_RANDOM_FOREST" "is_source_event_id (rr_source_event_id r)"
    "parse_time (isoformat (rr_observed_at r)) = Some (rr_observed_at r)"
    using assms by (simp_all add: sendable_def Let_def)
  have m: "member (norm_members (payload_members r)) k = json_norm (member (payload_members r) k)" for k
    by (rule norm_member [OF payload_members(2)])
  show ?thesis
    unfolding payload_members(1) json_norm_obj
    using s decode_own_inference [OF assms] utc_datetime_isoformat [of parse_time, OF s(3)]
    by (simp add: decode_registered_result_def norm_has_keys payload_members(3) m payload_member json_norm_obj
        del: json_norm.simps(2))
qed

section \<open>Messages that are read back\<close>

definition message_members :: "string \<Rightarrow> (string \<times> json) list \<Rightarrow> (string \<times> json) list" where
  "message_members kind payload = [(''protocol'', JStr WORKER_PROTOCOL_VERSION), (''kind'', JStr kind)] @ payload"

text \<open>A message of the protocol, which fits and survives its text.\<close>

definition good_message :: "(pyfloat \<Rightarrow> string) \<Rightarrow> (string \<Rightarrow> pyfloat) \<Rightarrow> child_action \<Rightarrow> bool" where
  "good_message frepr fparse a = (case a of
     Send kind payload \<Rightarrow> ascii kind \<and> distinct (map fst (message_members kind payload)) \<and>
       json_ok frepr (plain_hooks fparse) (JObj payload) \<and> finite_json (JObj payload) \<and>
       length (encode_message frepr kind payload) \<le> MAX_WORKER_MESSAGE_BYTES
   | _ \<Rightarrow> False)"

definition text_of_action :: "(pyfloat \<Rightarrow> string) \<Rightarrow> child_action \<Rightarrow> string" where
  "text_of_action frepr a = (case a of Send kind payload \<Rightarrow> encode_message frepr kind payload | _ \<Rightarrow> [])"

lemma child_messages_good:
  "list_all (good_message frepr fparse) as \<Longrightarrow> child_messages frepr as = map (text_of_action frepr) as"
  by (induction as rule: list.induct) (auto simp: good_message_def text_of_action_def split: child_action.splits)

lemma strict_object_good:
  assumes "good_message frepr fparse (Send kind payload)"
  shows "strict_object fparse (encode_message frepr kind payload) = Inr (norm_members (message_members kind payload))"
proof -
  let ?m = "message_members kind payload" and ?e = "encode_message frepr kind payload"
  have g: "ascii kind" "distinct (map fst ?m)" "json_ok frepr (plain_hooks fparse) (JObj payload)"
    "length ?e \<le> MAX_WORKER_MESSAGE_BYTES"
    using assms by (simp_all add: good_message_def)
  have e: "?e = json_dumps frepr (JObj ?m)" by (simp add: encode_message_def message_members_def)
  have ok: "json_ok frepr (plain_hooks fparse) (JObj ?m)"
    using g(1-3) by (simp add: message_members_def ascii_def)
  have "ascii ?e" unfolding e by (rule json_dumps_ascii [OF ok])
  moreover have "json_loads_with (plain_hooks fparse) ?e = Some (JObj (norm_members ?m))"
    unfolding e using json_roundtrip(1) [OF ok] by (simp add: json_norm_obj del: json_norm.simps(2))
  moreover have "?e \<noteq> []" by (simp add: e)
  moreover have "obj_get (norm_members ?m) ''protocol'' = Some (JStr WORKER_PROTOCOL_VERSION)"
    by (simp add: norm_members_get [OF g(2)]) (simp add: message_members_def obj_get_def)
  ultimately show ?thesis using g(4) by (simp add: strict_object_def ascii_def)
qed

lemma message_simps:
  assumes "good_message frepr fparse (Send kind payload)"
  shows "is_message (norm_members (message_members kind payload)) kind' ks \<longleftrightarrow>
      kind = kind' \<and> set (''protocol'' # ''kind'' # map fst payload) = set ([''protocol'', ''kind''] @ ks)"
    and "k \<notin> {''protocol'', ''kind''} \<Longrightarrow>
      member (norm_members (message_members kind payload)) k = json_norm (member payload k)"
proof -
  let ?m = "message_members kind payload"
  have d: "distinct (map fst ?m)" using assms by (simp add: good_message_def)
  have "obj_get (norm_members ?m) ''kind'' = Some (JStr kind)"
    by (simp add: norm_members_get [OF d]) (simp add: message_members_def obj_get_def)
  then show "is_message (norm_members ?m) kind' ks \<longleftrightarrow>
      kind = kind' \<and> set (''protocol'' # ''kind'' # map fst payload) = set ([''protocol'', ''kind''] @ ks)"
    by (simp add: is_message_def norm_has_keys) (simp add: message_members_def)
  show "k \<notin> {''protocol'', ''kind''} \<Longrightarrow> member (norm_members ?m) k = json_norm (member payload k)"
    by (simp add: norm_member [OF d]) (simp add: message_members_def member_def obj_get_def)
qed

section \<open>The exchange\<close>

definition delivers :: "worker_env \<Rightarrow> nat \<Rightarrow> string list \<Rightarrow> bool" where
  "delivers env i ms \<longleftrightarrow> (\<forall>j < length ms. we_receive env (i + j) = Pipe_message (ms ! j))"

lemma delivers_Cons: "delivers env i (m # ms) \<longleftrightarrow> we_receive env i = Pipe_message m \<and> delivers env (Suc i) ms"
  by (auto simp: delivers_def nth_Cons less_Suc_eq_0_disj split: nat.splits)

text \<open>The clock runs out on no deadline the parent may set, and the pipe has data whenever it is asked.\<close>

definition on_time :: "worker_env \<Rightarrow> worker_limits \<Rightarrow> bool" where
  "on_time env limits \<longleftrightarrow>
     (\<forall>t. fl_less (Fin 0) (fl_sub (fl_add (we_clock env 0) (wl_request_seconds limits)) (we_clock env t))) \<and>
     (\<forall>t u. fl_less (Fin 0) (fl_sub (fl_add (we_clock env u) (wl_record_seconds limits)) (we_clock env t))) \<and>
     (\<forall>t x. we_poll env t x = Poll_ready)"

definition deadline_set :: "worker_env \<Rightarrow> worker_limits \<Rightarrow> worker_run \<Rightarrow> bool" where
  "deadline_set env limits rn \<longleftrightarrow> (case rn_record_deadline rn of None \<Rightarrow> True
     | Some d \<Rightarrow> \<exists>u. d = fl_add (we_clock env u) (wl_record_seconds limits))"

abbreviation request_deadline_of :: "worker_env \<Rightarrow> worker_limits \<Rightarrow> pyfloat" where
  "request_deadline_of env limits \<equiv> fl_add (we_clock env 0) (wl_request_seconds limits)"

lemma positive_not_le: "fl_less (Fin 0) x \<Longrightarrow> \<not> fl_le x (Fin 0)"
  by (cases x) (auto simp: fl_le_def)

lemma remaining_positive:
  assumes "on_time env limits" "deadline_set env limits rn"
  shows "\<not> fl_le (remaining_seconds (request_deadline_of env limits) (rn_record_deadline rn) (we_clock env t)) (Fin 0)"
  using assms
  by (auto simp: remaining_seconds_def on_time_def deadline_set_def fl_max_def fl_min_def positive_not_le Let_def split: option.splits)

definition next_message :: "worker_run \<Rightarrow> worker_run" where
  "next_message rn = rn\<lparr>rn_tick := rn_tick rn + 2, rn_received := Suc (rn_received rn)\<rparr>"

lemma loop_message:
  assumes "on_time env limits" "deadline_set env limits rn" "good_message frepr (we_fparse env) (Send kind payload)"
    "we_receive env (rn_received rn) = Pipe_message (encode_message frepr kind payload)"
    "take_message env limits pid m refs (norm_members (message_members kind payload)) (next_message rn) = (rn', Inr b)"
  shows "worker_loop env limits pid m refs (request_deadline_of env limits) rn =
    (if b then (rn', Inr ()) else worker_loop env limits pid m refs (request_deadline_of env limits) rn')"
proof -
  have "await_message env (request_deadline_of env limits) rn =
      (next_message rn, Inr (norm_members (message_members kind payload)))"
    using assms(1,4) remaining_positive [OF assms(1,2)] strict_object_good [OF assms(3)]
    by (simp add: await_message_def receive_message_def reading_run_def receiving_def next_message_def on_time_def Let_def)
  then show ?thesis by (subst worker_loop.simps) (simp add: assms(5))
qed

lemma next_message_simps [simp]:
  "rn_results (next_message rn) = rn_results rn" "rn_expected (next_message rn) = rn_expected rn"
  "rn_signals (next_message rn) = rn_signals rn" "rn_group_ready (next_message rn) = rn_group_ready rn"
  "rn_record_deadline (next_message rn) = rn_record_deadline rn"
  "rn_received (next_message rn) = Suc (rn_received rn)"
  by (simp_all add: next_message_def)

text \<open>What the exchange has reached: the results taken, the messages read, and nothing else.\<close>

definition reached :: "worker_run \<Rightarrow> registered_result list \<Rightarrow> expectation \<Rightarrow> nat \<Rightarrow> worker_run \<Rightarrow> bool" where
  "reached rn rs e k rn' \<longleftrightarrow> rn_results rn' = rs \<and> rn_expected rn' = e \<and> rn_received rn' = rn_received rn + k \<and>
     rn_signals rn' = rn_signals rn \<and> rn_group_ready rn' = rn_group_ready rn"

abbreviation started_action :: "nat \<Rightarrow> child_action" where
  "started_action i \<equiv> Send ''record_started'' [(''index'', JInt (int i))]"

abbreviation result_action :: "nat \<Rightarrow> registered_result \<Rightarrow> child_action" where
  "result_action i r \<equiv> Send ''record_result'' [(''index'', JInt (int i)), (''result'', registered_payload r)]"

lemma record_exchange:
  assumes "on_time env limits" "rn_record_deadline rn = None" "rn_expected rn = Want_record_started"
    "length (rn_results rn) < length refs" "answers m (refs ! length (rn_results rn)) r"
    "sendable frepr (we_fparse env) (we_parse_time env) r"
    "list_all (good_message frepr (we_fparse env)) [started_action (Suc (length (rn_results rn))), result_action (Suc (length (rn_results rn))) r]"
    "delivers env (rn_received rn) (map (text_of_action frepr) [started_action (Suc (length (rn_results rn))), result_action (Suc (length (rn_results rn))) r])"
  shows "\<exists>rn'. worker_loop env limits pid m refs (request_deadline_of env limits) rn =
      worker_loop env limits pid m refs (request_deadline_of env limits) rn' \<and> rn_record_deadline rn' = None \<and>
    reached rn (rn_results rn @ [r])
      (if Suc (length (rn_results rn)) = length refs then Want_complete else Want_record_started) 2 rn'"
proof -
  let ?k = "length (rn_results rn)"
  let ?p1 = "[(''index'', JInt (int (Suc ?k)))]"
  let ?p2 = "[(''index'', JInt (int (Suc ?k))), (''result'', registered_payload r)]"
  have g: "good_message frepr (we_fparse env) (started_action (Suc ?k))"
    "good_message frepr (we_fparse env) (result_action (Suc ?k) r)" using assms(7) by simp_all
  have r: "member ?p1 ''index'' = JInt (int (Suc ?k))" "member ?p2 ''index'' = JInt (int (Suc ?k))"
    "member ?p2 ''result'' = registered_payload r"
    by (simp_all add: member_def obj_get_def)
  define rn1 where "rn1 = (next_message rn)\<lparr>rn_tick := Suc (rn_tick (next_message rn)),
    rn_record_deadline := Some (fl_add (we_clock env (rn_tick (next_message rn))) (wl_record_seconds limits)),
    rn_expected := Want_record_result\<rparr>"
  have t1: "take_message env limits pid m refs (norm_members (message_members ''record_started'' ?p1)) (next_message rn)
      = (rn1, Inr False)"
    by (simp add: take_message_def message_simps [OF g(1)] r assms(3) equals_int_def reading_run_def
        Let_def rn1_def del: of_nat_Suc)
  have "worker_loop env limits pid m refs (request_deadline_of env limits) rn =
      (if False then (rn1, Inr ()) else worker_loop env limits pid m refs (request_deadline_of env limits) rn1)"
    by (rule loop_message [OF assms(1) _ g(1) _ t1])
      (use assms(2,8) in \<open>simp_all add: deadline_set_def delivers_Cons text_of_action_def del: of_nat_Suc\<close>)
  then have l1: "worker_loop env limits pid m refs (request_deadline_of env limits) rn =
      worker_loop env limits pid m refs (request_deadline_of env limits) rn1" by (simp only: if_False)
  define rn2 where "rn2 = (next_message rn1)\<lparr>rn_results := rn_results rn @ [r], rn_record_deadline := None,
    rn_expected := (if Suc ?k = length refs then Want_complete else Want_record_started)\<rparr>"
  have t2: "take_message env limits pid m refs (norm_members (message_members ''record_result'' ?p2)) (next_message rn1)
      = (rn2, Inr False)"
    using assms(4,5) decode_own_result [OF assms(6)]
    by (simp add: take_message_def take_result_def message_simps [OF g(2)] r equals_int_def Let_def rn1_def rn2_def answers_def
        insert_commute del: of_nat_Suc)
  have "worker_loop env limits pid m refs (request_deadline_of env limits) rn1 =
      (if False then (rn2, Inr ()) else worker_loop env limits pid m refs (request_deadline_of env limits) rn2)"
    by (rule loop_message [OF assms(1) _ g(2) _ t2])
      (use assms(8) in \<open>auto simp: rn1_def deadline_set_def delivers_Cons text_of_action_def simp del: of_nat_Suc\<close>)
  then have l2: "worker_loop env limits pid m refs (request_deadline_of env limits) rn1 =
      worker_loop env limits pid m refs (request_deadline_of env limits) rn2" by (simp only: if_False)
  have "reached rn (rn_results rn @ [r]) (if Suc ?k = length refs then Want_complete else Want_record_started) 2 rn2"
    "rn_record_deadline rn2 = None"
    by (simp_all add: reached_def rn2_def rn1_def)
  then show ?thesis using l1 l2 by metis
qed

lemma delivers_Nil [simp]: "delivers env i []"
  by (simp add: delivers_def)

lemma delivers_append: "delivers env i (xs @ ys) \<longleftrightarrow> delivers env i xs \<and> delivers env (i + length xs) ys"
  by (induction xs arbitrary: i) (simp_all add: delivers_Cons)

lemma records_exchange:
  assumes "on_time env limits" "rn_record_deadline rn = None"
    "rn_expected rn = (if rs = [] then Want_complete else Want_record_started)"
    "length (rn_results rn) + length rs = length refs"
    "list_all2 (answers m) (drop (length (rn_results rn)) refs) rs"
    "list_all (sendable frepr (we_fparse env) (we_parse_time env)) rs"
    "list_all (good_message frepr (we_fparse env)) (record_actions (Suc (length (rn_results rn))) (map Inferred rs))"
    "delivers env (rn_received rn) (map (text_of_action frepr) (record_actions (Suc (length (rn_results rn))) (map Inferred rs)))"
  shows "\<exists>rn'. worker_loop env limits pid m refs (request_deadline_of env limits) rn =
      worker_loop env limits pid m refs (request_deadline_of env limits) rn' \<and> rn_record_deadline rn' = None \<and>
    reached rn (rn_results rn @ rs) Want_complete (2 * length rs) rn'"
  using assms
proof (induction rs arbitrary: rn)
  case Nil
  then show ?case by (intro exI [of _ rn]) (simp add: reached_def)
next
  case (Cons r rs)
  let ?k = "length (rn_results rn)"
  have k: "?k < length refs" using Cons.prems(4) by simp
  have e: "Suc ?k = length refs \<longleftrightarrow> rs = []" using Cons.prems(4) by (cases rs) auto
  from k have d: "drop ?k refs = refs ! ?k # drop (Suc ?k) refs" by (rule Cons_nth_drop_Suc [symmetric])
  obtain rn1 where rn1: "worker_loop env limits pid m refs (request_deadline_of env limits) rn =
      worker_loop env limits pid m refs (request_deadline_of env limits) rn1" "rn_record_deadline rn1 = None"
    "reached rn (rn_results rn @ [r]) (if Suc ?k = length refs then Want_complete else Want_record_started) 2 rn1"
    using record_exchange [OF Cons.prems(1,2) _ k, where r = r and m = m and frepr = frepr and pid = pid]
      Cons.prems(3,5-8) d by (auto simp: delivers_append delivers_Cons)
  have r1: "rn_results rn1 = rn_results rn @ [r]" "rn_received rn1 = Suc (Suc (rn_received rn))"
    "rn_expected rn1 = (if rs = [] then Want_complete else Want_record_started)"
    using rn1(3) e by (auto simp: reached_def)
  have "\<exists>rn'. worker_loop env limits pid m refs (request_deadline_of env limits) rn1 =
      worker_loop env limits pid m refs (request_deadline_of env limits) rn' \<and> rn_record_deadline rn' = None \<and>
    reached rn1 (rn_results rn1 @ rs) Want_complete (2 * length rs) rn'"
    by (rule Cons.IH [OF Cons.prems(1) rn1(2) r1(3)]) (use Cons.prems(4-8) d in \<open>auto simp: r1 delivers_Cons\<close>)
  then obtain rn' where rn': "worker_loop env limits pid m refs (request_deadline_of env limits) rn1 =
      worker_loop env limits pid m refs (request_deadline_of env limits) rn'" "rn_record_deadline rn' = None"
    "reached rn1 (rn_results rn1 @ rs) Want_complete (2 * length rs) rn'" by blast
  have "reached rn (rn_results rn @ r # rs) Want_complete (2 * length (r # rs)) rn'"
    using rn'(3) rn1(3) by (auto simp: reached_def)
  then show ?case using rn1(1) rn'(1,2) by metis
qed

text \<open>The child is gone with status zero when the exchange is over, and the pipe is at its end.\<close>

definition clean_exit :: "worker_env \<Rightarrow> nat \<Rightarrow> bool" where
  "clean_exit env n \<longleftrightarrow> (\<forall>t. \<not> we_alive env t \<and> \<not> we_group env t \<and> we_exitcode env t = Some 0) \<and>
     we_close_ok env \<and> we_receive env n = Pipe_eof"

text \<open>The actions of a child whose boundary answers every reference.\<close>

abbreviation honest_actions :: "int \<Rightarrow> registered_result list \<Rightarrow> child_action list" where
  "honest_actions pid rs \<equiv> worker_actions pid (length rs) (Inl (map Inferred rs))"

lemma record_actions_length: "length (record_actions i (map Inferred rs)) = 2 * length rs"
  by (induction rs arbitrary: i) auto

lemma exchange_complete:
  assumes "on_time env limits" "list_all2 (answers m) refs rs" "rs \<noteq> []"
    "list_all (sendable frepr (we_fparse env) (we_parse_time env)) rs"
    "list_all (good_message frepr (we_fparse env)) (honest_actions pid rs)"
    "delivers env 0 (child_messages frepr (honest_actions pid rs))"
  shows "\<exists>rn. worker_loop env limits pid m refs (request_deadline_of env limits) new_run = (rn, Inr ()) \<and>
    rn_results rn = rs \<and> rn_received rn = 2 * length rs + 3 \<and> rn_signals rn = [] \<and> rn_group_ready rn"
proof -
  let ?n = "length rs" and ?p = "[(''pid'', JInt pid)]" and ?c = "[(''count'', JInt (int (length rs)))]"
  have n: "length refs = ?n" using assms(2) by (simp add: list_all2_lengthD)
  have acts: "honest_actions pid rs = [Send ''booted'' ?p, Send ''prepared'' ?c] @ record_actions 1 (map Inferred rs) @
      [Send ''complete'' ?c]" by (simp add: worker_actions_def)
  have good: "good_message frepr (we_fparse env) (Send ''booted'' ?p)" "good_message frepr (we_fparse env) (Send ''prepared'' ?c)"
    "list_all (good_message frepr (we_fparse env)) (record_actions 1 (map Inferred rs))"
    "good_message frepr (we_fparse env) (Send ''complete'' ?c)"
    using assms(5) unfolding acts by simp_all
  have del: "we_receive env 0 = Pipe_message (encode_message frepr ''booted'' ?p)"
    "we_receive env 1 = Pipe_message (encode_message frepr ''prepared'' ?c)"
    "delivers env 2 (map (text_of_action frepr) (record_actions 1 (map Inferred rs)))"
    "we_receive env (2 + 2 * ?n) = Pipe_message (encode_message frepr ''complete'' ?c)"
    using assms(6) unfolding child_messages_good [OF assms(5)] unfolding acts
    by (auto simp: delivers_Cons delivers_append text_of_action_def record_actions_length numeral_2_eq_2)
  let ?loop = "worker_loop env limits pid m refs (request_deadline_of env limits)"
  have v: "member ?p ''pid'' = JInt pid" "member ?c ''count'' = JInt (int ?n)" by (simp_all add: member_def obj_get_def)
  define rn1 where "rn1 = (next_message new_run)\<lparr>rn_group_ready := True, rn_expected := Want_prepared\<rparr>"
  have "take_message env limits pid m refs (norm_members (message_members ''booted'' ?p)) (next_message new_run) = (rn1, Inr False)"
    by (simp add: take_message_def message_simps [OF good(1)] v rn1_def new_run_def)
  from loop_message [OF assms(1) _ good(1) _ this] del(1)
  have l1: "?loop new_run = ?loop rn1" by (simp add: new_run_def deadline_set_def)
  define rn2 where "rn2 = (next_message rn1)\<lparr>rn_expected := Want_record_started\<rparr>"
  have "take_message env limits pid m refs (norm_members (message_members ''prepared'' ?c)) (next_message rn1) = (rn2, Inr False)"
    by (simp add: take_message_def message_simps [OF good(2)] v rn1_def rn2_def equals_int_def n)
  from loop_message [OF assms(1) _ good(2) _ this] del(2)
  have l2: "?loop rn1 = ?loop rn2" by (simp add: rn1_def new_run_def deadline_set_def)
  have f2: "rn_results rn2 = []" "rn_received rn2 = 2" "rn_expected rn2 = Want_record_started" "rn_record_deadline rn2 = None"
    "rn_signals rn2 = []" "rn_group_ready rn2"
    by (simp_all add: rn2_def rn1_def new_run_def)
  have "\<exists>rn3. ?loop rn2 = ?loop rn3 \<and> rn_record_deadline rn3 = None \<and> reached rn2 (rn_results rn2 @ rs) Want_complete (2 * ?n) rn3"
    by (rule records_exchange) (use assms(1-4) good(3) del(3) n in \<open>simp_all add: f2\<close>)
  then obtain rn3 where l3: "?loop rn2 = ?loop rn3" "rn_record_deadline rn3 = None" "reached rn2 rs Want_complete (2 * ?n) rn3"
    by (auto simp: f2)
  have f3: "rn_results rn3 = rs" "rn_expected rn3 = Want_complete" "rn_received rn3 = 2 + 2 * ?n" "rn_signals rn3 = []" "rn_group_ready rn3"
    using l3(3) by (simp_all add: reached_def f2)
  have "take_message env limits pid m refs (norm_members (message_members ''complete'' ?c)) (next_message rn3) =
      (next_message rn3, Inr True)"
    by (simp add: take_message_def message_simps [OF good(4)] v f3 equals_int_def)
  from loop_message [OF assms(1) _ good(4) _ this] del(4)
  have l4: "?loop rn3 = (next_message rn3, Inr ())" by (simp add: l3(2) f3 deadline_set_def)
  show ?thesis by (rule exI [of _ "next_message rn3"]) (simp add: l1 l2 l3(1) l4 f3)
qed

end
