(* ===== verification/Worker_Run.thy ===== *)
theory Worker_Run
  imports Worker_Protocol
begin

text \<open>
  The honest execution: a child that runs the code of the repository to its end is accepted by the
  parent, and its results are returned.  What the child sends is bounded here, so that nothing is
  assumed of the size of its messages.
\<close>

section \<open>The size of a message\<close>

fun text_bound :: "json \<Rightarrow> nat" where
  "text_bound (JStr s) = 6 * length s + 2"
| "text_bound (JInt i) = length (dec_int i)"
| "text_bound (JFloat x) = 32"
| "text_bound (JArr xs) = 2 + sum_list (map (\<lambda>x. Suc (text_bound x)) xs)"
| "text_bound (JObj kvs) = 2 + sum_list (map (\<lambda>(k, n). 6 * length k + 4 + n) (map (\<lambda>(k, v). (k, text_bound v)) kvs))"
| "text_bound _ = 5"

lemma esc_char_length: "length (esc_char c) \<le> 6"
  by (simp add: esc_char_def hex4_def Let_def)

lemma quoted_length: "length (quoted s) \<le> 6 * length s + 2"
proof -
  have "length (concat (map esc_char s)) \<le> 6 * length s"
    by (induction s) (use esc_char_length in \<open>auto intro: add_mono\<close>)
  then show ?thesis by (simp add: quoted_def)
qed

lemma join_length: "length (join '','' xs) \<le> sum_list (map (\<lambda>x. Suc (length x)) xs)"
  by (induction xs) (auto simp: join_Cons)

lemma sum_list_sort_key: "sum_list (map f (sort_key g xs)) = (sum_list (map f xs) :: nat)"
proof -
  have "sum_list (map f (insort_key g x ys)) = f x + sum_list (map f ys)" for x ys
    by (induction ys) auto
  then show ?thesis by (induction xs) simp_all
qed

lemma json_dumps_length:
  assumes "\<And>x. length (frepr x) \<le> 32"
  shows "length (json_dumps frepr j) \<le> text_bound j"
proof (induction j)
  case (JArr xs)
  have "length (join '','' (map (json_dumps frepr) xs)) \<le> sum_list (map (\<lambda>x. Suc (length (json_dumps frepr x))) xs)"
    using join_length [of "map (json_dumps frepr) xs"] by (simp add: comp_def)
  also have "\<dots> \<le> sum_list (map (\<lambda>x. Suc (text_bound x)) xs)"
    by (rule sum_list_mono) (use JArr in auto)
  finally show ?case by simp
next
  case (JObj kvs)
  let ?t = "\<lambda>(k, v). Suc (length (quoted k @ '':'' @ json_dumps frepr v))"
  have "length (join '','' (map (\<lambda>(k, v). quoted k @ '':'' @ json_dumps frepr v) (sort_key fst kvs))) \<le>
      sum_list (map ?t (sort_key fst kvs))"
    using join_length [of "map (\<lambda>(k, v). quoted k @ '':'' @ json_dumps frepr v) (sort_key fst kvs)"]
    by (simp add: comp_def case_prod_unfold)
  also have "\<dots> = sum_list (map ?t kvs)" by (rule sum_list_sort_key)
  also have "\<dots> \<le> sum_list (map (\<lambda>(k, v). 6 * length k + 4 + text_bound v) kvs)"
  proof (rule sum_list_mono)
    fix x assume "x \<in> set kvs"
    then show "?t x \<le> (case x of (k, v) \<Rightarrow> 6 * length k + 4 + text_bound v)"
      using JObj [of x "snd x"] quoted_length [of "fst x"] by (auto simp: snds.simps case_prod_unfold)
  qed
  finally show ?case by (simp only: json_dumps_obj) (simp add: comp_def case_prod_unfold)
qed (use assms quoted_length in auto)

lemma status_length: "decided i \<Longrightarrow> length (ir_status i) \<le> 9"
  by (erule decided_cases) simp_all

lemma class_length: "decided i \<Longrightarrow> (case ir_predicted_class i of None \<Rightarrow> True | Some c \<Rightarrow> length c \<le> 6)"
  by (erule decided_cases) simp_all

lemma source_event_id_length:
  assumes "is_source_event_id s"
  shows "length s \<le> 100"
proof -
  have "length (drop (length (SOURCE_EVENT_ID_SCHEMA @ '':'')) s) = 64"
    using assms by (simp add: is_source_event_id_def is_sha256_def)
  then show ?thesis by simp
qed

lemma sendable_lengths:
  assumes "sendable frepr fparse parse_time r"
  shows "length (rr_source_event_id r) \<le> 100" "length (isoformat (rr_observed_at r)) \<le> 32"
    "length (rr_model_artifact_sha256 r) = 64" "length (ir_correlation_id (rr_inference r)) = 36"
    "length (ir_status (rr_inference r)) \<le> 9" "length (ir_reason (rr_inference r)) \<le> 64"
    "length (ir_processed_at (rr_inference r)) \<le> 32"
    "case ir_predicted_class (rr_inference r) of None \<Rightarrow> True | Some c \<Rightarrow> length c \<le> 6"
    "ir_model_identity (rr_inference r) = ''random_forest''"
    "ir_model_version (rr_inference r) = ''network_random_forest_baseline_v1''"
    "ir_contract_identity (rr_inference r) = FEATURE_CONTRACT"
    "ir_source_representation (rr_inference r) = SOURCE_REPRESENTATION"
  using assms source_event_id_length status_length class_length uuid4_length
  by (auto simp: sendable_def decided_def reason_ok_def length_isoformat APPROVED_RANDOM_FOREST_def Let_def)

lemma inference_text_bound:
  assumes "sendable frepr fparse parse_time r"
  shows "text_bound (inference_json (rr_inference r)) \<le> 20000"
proof -
  note l = sendable_lengths [OF assms]
  have "text_bound (case ir_attack_probability (rr_inference r) of None \<Rightarrow> JNull | Some p \<Rightarrow> JFloat p) \<le> 32"
    by (simp split: option.splits)
  moreover have "text_bound (case ir_predicted_class (rr_inference r) of None \<Rightarrow> JNull | Some c \<Rightarrow> JStr c) \<le> 38"
    using l(8) by (simp split: option.splits)
  ultimately show ?thesis using l(4-7) by (simp add: inference_json_def l(9-12))
qed

lemma payload_text_bound:
  assumes "sendable frepr fparse parse_time r"
  shows "text_bound (registered_payload r) \<le> 30000"
  using sendable_lengths(1-3) [OF assms] inference_text_bound [OF assms]
  by (simp add: registered_payload_def)

section \<open>Every message of the code fits\<close>

definition short_ints :: "int \<Rightarrow> bool" where
  "short_ints i \<longleftrightarrow> length (dec_int i) \<le> 20"

lemma message_fits:
  assumes "\<And>x. length (frepr x) \<le> 32" "text_bound (JObj payload) \<le> 200000" "length kind \<le> 100"
  shows "length (encode_message frepr kind payload) \<le> MAX_WORKER_MESSAGE_BYTES"
proof -
  have "length (encode_message frepr kind payload) \<le>
      text_bound (JObj ([(''protocol'', JStr WORKER_PROTOCOL_VERSION), (''kind'', JStr kind)] @ payload))"
    unfolding encode_message_def by (rule json_dumps_length [OF assms(1)])
  also have "\<dots> \<le> 2000 + text_bound (JObj payload)" using assms(3) by simp
  finally show ?thesis using assms(2) by (simp add: MAX_WORKER_MESSAGE_BYTES_def)
qed

lemma int_message_good:
  assumes "\<And>x. length (frepr x) \<le> 32" "short_ints i" "ascii kind" "length kind \<le> 100"
    "k \<notin> {''protocol'', ''kind''}" "ascii k" "length k \<le> 100"
  shows "good_message frepr fparse (Send kind [(k, JInt i)])"
  using assms message_fits [of frepr "[(k, JInt i)]" kind]
  by (auto simp: good_message_def message_members_def short_ints_def)

lemma payload_finite:
  assumes "sendable frepr fparse parse_time r"
  shows "finite_json (registered_payload r)"
proof -
  have d: "decided (rr_inference r)" and l: "\<exists>l. ir_latency_ms (rr_inference r) = Fin l"
    using assms by (auto simp: sendable_def Let_def)
  from d have "ir_decision_threshold (rr_inference r) = Fin (1 / 2)" by (simp add: decided_def)
  with d l show ?thesis
    by (cases rule: decided_cases) (auto simp: registered_payload_def inference_json_def is_finite_def)
qed

lemma result_message_good:
  assumes "\<And>x. length (frepr x) \<le> 32" "short_ints i" "sendable frepr fparse parse_time r"
  shows "good_message frepr fparse (Send ''record_result'' [(''index'', JInt i), (''result'', registered_payload r)])"
  using assms(2) payload_text_bound [OF assms(3)] payload_json_ok [OF assms(3)] payload_finite [OF assms(3)]
    message_fits [of frepr "[(''index'', JInt i), (''result'', registered_payload r)]" "''record_result''", OF assms(1)]
  by (simp add: good_message_def message_members_def short_ints_def ascii_def)

lemma small_ints: "n \<le> 256 \<Longrightarrow> short_ints (int n)"
proof -
  have "list_all (\<lambda>i. length (dec_int i) \<le> 20) [0..256]" by code_simp
  then show "n \<le> 256 \<Longrightarrow> short_ints (int n)" by (simp add: list_all_iff short_ints_def)
qed

lemma record_actions_good:
  assumes "\<And>x. length (frepr x) \<le> 32" "list_all (sendable frepr fparse parse_time) rs" "i + length rs \<le> 257"
  shows "list_all (good_message frepr fparse) (record_actions i (map Inferred rs))"
  using assms(2,3)
proof (induction rs arbitrary: i)
  case (Cons r rs)
  then have i: "short_ints (int i)" by (intro small_ints) simp
  then show ?case
    using Cons result_message_good [OF assms(1) i, where r = r and fparse = fparse and parse_time = parse_time]
      int_message_good [OF assms(1) i, where kind = "''record_started''" and k = "''index''" and fparse = fparse]
    by (simp add: ascii_def)
qed simp

lemma honest_actions_good:
  assumes "\<And>x. length (frepr x) \<le> 32" "list_all (sendable frepr fparse parse_time) rs" "length rs \<le> 256" "short_ints pid"
  shows "list_all (good_message frepr fparse) (honest_actions pid rs)"
proof -
  have "good_message frepr fparse (Send ''booted'' [(''pid'', JInt pid)])"
    "good_message frepr fparse (Send ''prepared'' [(''count'', JInt (int (length rs)))])"
    "good_message frepr fparse (Send ''complete'' [(''count'', JInt (int (length rs)))])"
    using assms(4) small_ints [OF assms(3)] by (auto intro!: int_message_good [OF assms(1)] simp: ascii_def)
  then show ?thesis
    using record_actions_good [OF assms(1,2), of 1] assms(3) by (simp add: worker_actions_def)
qed

section \<open>The honest execution\<close>

lemma honest_execution:
  assumes "valid_references refs" "list_all2 (answers (wk_manifest_sha256 wk)) refs rs"
    "list_all (sendable frepr (we_fparse env) (we_parse_time env)) rs" "\<forall>x. length (frepr x) \<le> 32" "short_ints pid"
    "we_start env = Started pid" "on_time env (wk_limits wk)"
    "delivers env 0 (child_messages frepr (honest_actions pid rs))" "clean_exit env (2 * length rs + 3)"
  shows "\<exists>rn. execute env wk refs =
      (wk\<lparr>wk_last_worker_pid := Some pid, wk_last_process_group := Some pid,
          wk_completed_record_count := wk_completed_record_count wk + length refs\<rparr>, rn, Worker_results rs) \<and>
    rn_signals rn = []"
proof -
  have n: "length rs = length refs" "length rs \<le> 256" "rs \<noteq> []"
    using assms(1,2) by (auto simp: valid_references_def MAX_INFERENCE_BATCH_SIZE_def list_all2_lengthD)
  have "list_all (good_message frepr (we_fparse env)) (honest_actions pid rs)"
    by (rule honest_actions_good) (use assms(3-5) n in auto)
  from exchange_complete [OF assms(7,2) n(3) assms(3) this assms(8)]
  obtain rn where rn: "worker_loop env (wk_limits wk) pid (wk_manifest_sha256 wk) refs
      (request_deadline_of env (wk_limits wk)) new_run = (rn, Inr ())"
    "rn_results rn = rs" "rn_received rn = 2 * length rs + 3" "rn_signals rn = []" "rn_group_ready rn" by blast
  have f: "\<exists>rn'. finish_complete env rn = (rn', None) \<and> rn_results rn' = rs \<and> rn_signals rn' = []"
    using assms(7,9) rn(2-5)
    by (simp add: finish_complete_def still_running_def group_exists_def reading_run_def receiving_def clean_exit_def
        on_time_def)
  then show ?thesis
    using assms(1,6,9) rn n(1) by (auto simp: execute_def close_process_def clean_exit_def)
qed

text \<open>C22: A child that runs the code of the repository is accepted: if the child starts, its boundary answers
  every reference with a decision whose times and floats survive their texts, its messages arrive in
  time, and it ends with status zero, then the execution returns exactly its results, in order, counts
  them, and has sent it no signal.  Every message of such a child fits the bound of the protocol.\<close>

theorem honest_worker_accepted:
  assumes "valid_references refs" "list_all2 (answers (wk_manifest_sha256 wk)) refs rs"
    "list_all (sendable frepr (we_fparse env) (we_parse_time env)) rs" "\<forall>x. length (frepr x) \<le> 32" "short_ints pid"
    "we_start env = Started pid" "on_time env (wk_limits wk)"
    "delivers env 0 (child_messages frepr (honest_actions pid rs))" "clean_exit env (2 * length rs + 3)"
  shows "\<exists>rn. execute env wk refs =
      (wk\<lparr>wk_last_worker_pid := Some pid, wk_last_process_group := Some pid,
          wk_completed_record_count := wk_completed_record_count wk + length refs\<rparr>, rn, Worker_results rs) \<and>
    rn_signals rn = []"
  by (rule honest_execution [OF assms])

section \<open>A run\<close>

definition sample_refs :: "(string \<times> int) list" where
  "sample_refs = [(replicate 64 CHR ''b'', 1)]"

definition sample_answer :: registered_result where
  "sample_answer = \<lparr>rr_source_event_id = SOURCE_EVENT_ID_SCHEMA @ '':'' @ identity_digest ''threatfusion:source-event''
       [SOURCE_EVENT_ID_SCHEMA, SOURCE_REPRESENTATION, replicate 64 CHR ''a'', replicate 64 CHR ''b'', dec_int 1],
     rr_observed_at = Datetime 2026 9 12 12 0 0 0, rr_model_artifact_sha256 = APPROVED_RANDOM_FOREST,
     rr_inference = sample_inference\<rparr>"

definition sample_frepr :: "pyfloat \<Rightarrow> string" where
  "sample_frepr x = (if x = Fin (1 / 2) then ''0.5'' else if x = Fin (3 / 4) then ''0.75'' else ''0.0'')"

definition sample_fparse :: "string \<Rightarrow> pyfloat" where
  "sample_fparse t = (if t = ''0.5'' then Fin (1 / 2) else if t = ''0.75'' then Fin (3 / 4) else Fin 0)"

definition sample_messages :: "string list" where
  "sample_messages = child_messages sample_frepr (honest_actions 4242 [sample_answer])"

definition sample_worker_env :: worker_env where
  "sample_worker_env = \<lparr>we_start = Started 4242, we_clock = (\<lambda>_. Fin 0), we_poll = (\<lambda>_ _. Poll_ready),
     we_receive = (\<lambda>n. if n < length sample_messages then Pipe_message (sample_messages ! n) else Pipe_eof),
     we_exitcode = (\<lambda>_. Some 0), we_alive = (\<lambda>_. False), we_group = (\<lambda>_. False), we_close_ok = True,
     we_fparse = sample_fparse, we_parse_time = fromisoformat_utc\<rparr>"

definition sample_worker :: worker where
  "sample_worker = \<lparr>wk_manifest_sha256 = replicate 64 CHR ''a'',
     wk_limits = \<lparr>wl_record_seconds = Fin 30, wl_request_seconds = Fin 120, wl_cleanup_seconds = Fin 2\<rparr>,
     wk_last_worker_pid = None, wk_completed_record_count = 0, wk_last_process_group = None\<rparr>"

lemma sample_digests: "is_sha256 (replicate 64 CHR ''a'')" "is_sha256 (replicate 64 CHR ''b'')"
  by code_simp+

lemma sample_refs_valid: "valid_references sample_refs"
  using sample_digests(2) by (simp add: valid_references_def sample_refs_def MAX_INFERENCE_BATCH_SIZE_def)

lemma sample_inference_decided: "decided sample_inference"
proof -
  have "is_uuid4 ''33333333-3333-4333-8333-333333333333''" by code_simp
  then show ?thesis by (simp add: decided_def sample_inference_def) (rule exI [of _ "3 / 4"], simp)
qed

lemma sample_answers: "list_all2 (answers (wk_manifest_sha256 sample_worker)) sample_refs [sample_answer]"
  using sample_inference_decided sample_digests
  by (simp add: sample_refs_def answers_def sample_answer_def sample_worker_def derive_source_event_id_def)

lemma sample_sendable: "list_all (sendable sample_frepr sample_fparse fromisoformat_utc) [sample_answer]"
proof -
  have e: "is_source_event_id (rr_source_event_id sample_answer)"
    by (simp add: is_source_event_id_def sample_answer_def starts_with_iff)
  have r: "reason_ok (JStr (ir_reason sample_inference))" "valid_datetime (Datetime 2026 9 12 12 0 0 0)"
    "valid_datetime (Datetime 2026 9 22 0 0 0 0)" by code_simp+
  have t: "ir_processed_at sample_inference = isoformat (Datetime 2026 9 22 0 0 0 0)"
    "list_all (\<lambda>x. float_text (sample_frepr x) \<and> sample_fparse (sample_frepr x) = x) [Fin (3 / 4), Fin (1 / 2), Fin 0]"
    by code_simp+
  have i: "rr_inference sample_answer = sample_inference" "rr_model_artifact_sha256 sample_answer = APPROVED_RANDOM_FOREST"
    "rr_observed_at sample_answer = Datetime 2026 9 12 12 0 0 0" "ir_attack_probability sample_inference = Some (Fin (3 / 4))"
    "ir_latency_ms sample_inference = Fin 0" by (simp_all add: sample_answer_def sample_inference_def)
  show ?thesis
    using e r t sample_inference_decided fromisoformat_isoformat [OF r(2)] fromisoformat_isoformat [OF r(3)]
    by (auto simp: sendable_def i Let_def)
qed

lemma sample_numbers: "short_ints 4242" "\<forall>x. length (sample_frepr x) \<le> 32"
  by code_simp (simp add: sample_frepr_def)

lemma sample_messages_length: "length sample_messages = 5"
proof -
  have "list_all (good_message sample_frepr sample_fparse) (honest_actions 4242 [sample_answer])"
    by (rule honest_actions_good [OF _ sample_sendable]) (use sample_numbers in auto)
  then show ?thesis
    unfolding sample_messages_def by (simp only: child_messages_good) (simp add: worker_actions_def)
qed

lemma sample_env:
  "we_fparse sample_worker_env = sample_fparse" "we_parse_time sample_worker_env = fromisoformat_utc"
  "we_start sample_worker_env = Started 4242" "we_clock sample_worker_env t = Fin 0"
  "we_poll sample_worker_env t x = Poll_ready" "we_exitcode sample_worker_env t = Some 0"
  "\<not> we_alive sample_worker_env t" "\<not> we_group sample_worker_env t" "we_close_ok sample_worker_env"
  "we_receive sample_worker_env n = (if n < length sample_messages then Pipe_message (sample_messages ! n) else Pipe_eof)"
  by (simp_all add: sample_worker_env_def)

lemma sample_delivers: "delivers sample_worker_env 0 (child_messages sample_frepr (honest_actions 4242 [sample_answer]))"
  unfolding sample_messages_def [symmetric] delivers_def by (simp only: sample_env(10)) simp

lemma fl_round_int:
  assumes "\<bar>i\<bar> \<le> 2 ^ 53"
  shows "fl_round (of_int i) = Fin (of_int i)"
proof -
  have "\<bar>of_int i :: rat\<bar> = of_int \<bar>i\<bar>" by simp
  also have "\<dots> \<le> of_int (2 ^ 53)" using assms by (simp only: of_int_le_iff)
  also have "\<dots> = 2 ^ 53" by (simp only: of_int_power of_int_numeral)
  also have "\<dots> \<le> (2 :: rat) ^ 1023" by (rule power_increasing) simp_all
  finally show ?thesis using nearest53_of_int [OF assms] by (simp only: fl_round_small)
qed

lemma sample_on_time: "on_time sample_worker_env (wk_limits sample_worker)"
  using fl_round_int [of 120] fl_round_int [of 30]
  by (simp add: on_time_def sample_env sample_worker_def fl_sub_def)

lemma sample_conditions:
  "list_all (sendable sample_frepr (we_fparse sample_worker_env) (we_parse_time sample_worker_env)) [sample_answer]"
  "\<forall>x. length (sample_frepr x) \<le> 32" "short_ints 4242" "we_start sample_worker_env = Started 4242"
  "on_time sample_worker_env (wk_limits sample_worker)"
  "delivers sample_worker_env 0 (child_messages sample_frepr (honest_actions 4242 [sample_answer]))"
  "clean_exit sample_worker_env (2 * length [sample_answer] + 3)"
  using sample_sendable sample_numbers sample_on_time sample_delivers sample_messages_length
  by (simp_all only: sample_env clean_exit_def) simp_all

lemma honest_worker_accepted_witness:
  "\<exists>wk rn. execute sample_worker_env sample_worker sample_refs = (wk, rn, Worker_results [sample_answer])"
  using honest_worker_accepted [OF sample_refs_valid sample_answers sample_conditions] by blast

lemma accepted_batch:
  assumes "execute env wk refs = (wk', rn, Worker_results rs)"
  shows "list_all2 (answers (wk_manifest_sha256 wk)) refs rs \<and> rn_signals rn = [] \<and>
    (\<exists>t < rn_tick rn. gone env (rn_group_ready rn) t) \<and> (\<exists>t < rn_tick rn. we_exitcode env t = Some 0)"
proof -
  obtain pid where s: "valid_references refs" "we_start env = Started pid"
    using assms by (auto simp: execute_def finish_failed_def Let_def split: if_splits start_outcome.splits option.splits prod.splits)
  show ?thesis
  proof (cases rule: execute_cases [OF assms s])
    case (1 rn0 failure)
    then show ?thesis using finish_failed_run [OF 1(2)] by (auto simp: loop_error_def)
  next
    case (2 rn0 failure)
    have n: "failure = None" "rs = rn_results rn0"
      using 2(6) finish_complete_errors [OF 2(3)] by (auto simp: close_process_def split: option.splits if_splits)
    show ?thesis using finish_complete_run [OF 2(3)] 2(1,2,5) n by (auto simp: run_inv_def cleaned_up_def)
  qed
qed

lemmas accepted_answers = accepted_batch [THEN conjunct1]

text \<open>C3: An accepted batch is complete and about what was asked: one result for each reference, in
  order, bound to it by the derived source event identity, from the approved artifact, with a class that
  is the side of one half its probability is on, or a rejection without either; and it is accepted only
  from a child that ended by itself with status zero, without any signal, and is gone with its group.\<close>

theorem worker_batch_sound:
  assumes "execute env wk refs = (wk', rn, Worker_results rs)"
  shows "list_all2 (answers (wk_manifest_sha256 wk)) refs rs \<and> rn_signals rn = [] \<and>
    (\<exists>t < rn_tick rn. gone env (rn_group_ready rn) t) \<and> (\<exists>t < rn_tick rn. we_exitcode env t = Some 0)"
  by (rule accepted_batch [OF assms])

lemma worker_batch_sound_witness:
  "\<exists>wk rn. execute sample_worker_env sample_worker sample_refs = (wk, rn, Worker_results [sample_answer]) \<and>
    (\<exists>t < rn_tick rn. we_exitcode sample_worker_env t = Some 0)"
proof -
  obtain wk rn where e: "execute sample_worker_env sample_worker sample_refs = (wk, rn, Worker_results [sample_answer])"
    using honest_execution [OF sample_refs_valid sample_answers sample_conditions] by blast
  show ?thesis using worker_batch_sound [OF e] e by blast
qed

end
