(* ===== verification/Pipeline.thy ===== *)
theory Pipeline
  imports Worker_Run
begin

text \<open>
  The orchestrator on top of the worker protocol: what the alert store holds after a connection is
  traced back through the process boundary to the records of the request.
\<close>

section \<open>Alerts of a worker\<close>

text \<open>The inference of the orchestrator is an execution of the worker, each in its own environment.\<close>

definition worker_of :: "(nat \<Rightarrow> worker_env) \<Rightarrow> worker \<Rightarrow> nat \<Rightarrow> (string \<times> int) list \<Rightarrow> worker_outcome" where
  "worker_of wenv wk n refs = snd (snd (execute (wenv n) wk refs))"

text \<open>An alert about a record of a request: its event is derived from the record, its score is an attack's.\<close>

definition record_alert :: "string \<Rightarrow> admission_record \<Rightarrow> alert_candidate \<Rightarrow> bool" where
  "record_alert manifest_sha256 rec c \<longleftrightarrow> valid_alert_candidate c \<and>
     (\<exists>ref \<in> set (ar_records rec). derive_source_event_id SOURCE_REPRESENTATION manifest_sha256
        (er_member_sha256 ref) (er_row_number ref) = Inr (ac_source_event_id c)) \<and>
     ac_model_artifact_sha256 c = APPROVED_RANDOM_FOREST \<and> (\<exists>p. ac_score c = Fin p \<and> 1 / 2 \<le> p \<and> p \<le> 1)"

lemma insert_alert_adds: "set (fst (insert_alert fault t c)) \<subseteq> insert (alert_values c) (set t)"
  by (auto simp: insert_alert_def insert_alert_body_def split: alert_fault.splits sqlite_fault.splits
      sum.splits option.splits if_splits bindE_splits)

interpretation adding: candidate_frame env "\<lambda>w w'. set (ow_alerts w') \<subseteq> set (ow_alerts w) \<union> alert_values ` Collect Q" Q
proof unfold_locales
  fix c w fault assume "Q c"
  then show "set (ow_alerts (w\<lparr>ow_alerts := fst (insert_alert fault (ow_alerts w) c)\<rparr>))
      \<subseteq> set (ow_alerts w) \<union> alert_values ` Collect Q"
    using insert_alert_adds [of fault "ow_alerts w" c] by auto
qed auto

lemma built_candidate:
  assumes "build_alert_candidate reg t = Inr c"
  obtains p where "ir_attack_probability (rr_inference reg) = Some p" "ir_status (rr_inference reg) = ''completed''"
    "ir_predicted_class (rr_inference reg) = Some ''Attack''" "valid_alert_candidate c"
    "ac_source_event_id c = rr_source_event_id reg" "ac_score c = p"
    "ac_model_artifact_sha256 c = rr_model_artifact_sha256 reg"
  using assms
  by (auto simp: build_alert_candidate_def Let_def make_alert_candidate_Inr candidate_of_result_def
      split: if_splits option.splits)

lemma answered_alert:
  assumes "list_all2 (answers m) refs rs" "reg \<in> set rs" "refs = map reference_identity (ar_records rec)"
    "build_alert_candidate reg t = Inr c"
  shows "record_alert m rec c"
proof -
  obtain ref where "ref \<in> set (ar_records rec)" "answers m (reference_identity ref) reg"
    using assms(1-3) by (metis (no_types, opaque_lifting) imageE list.set_map list_all2_conv_all_nth in_set_conv_nth length_map nth_map)
  moreover obtain p where "ir_attack_probability (rr_inference reg) = Some p" "ir_status (rr_inference reg) = ''completed''"
    "ir_predicted_class (rr_inference reg) = Some ''Attack''" "valid_alert_candidate c"
    "ac_source_event_id c = rr_source_event_id reg" "ac_score c = p"
    "ac_model_artifact_sha256 c = rr_model_artifact_sha256 reg"
    by (rule built_candidate [OF assms(4)])
  ultimately show ?thesis
    by (auto simp: record_alert_def answers_def decided_def reference_identity_def split: if_splits)
qed

lemma worker_results_answer:
  "worker_of wenv wk n refs = Worker_results rs \<Longrightarrow> list_all2 (answers (wk_manifest_sha256 wk)) refs rs"
proof -
  assume "worker_of wenv wk n refs = Worker_results rs"
  then obtain wk' rn where "execute (wenv n) wk refs = (wk', rn, Worker_results rs)"
    by (metis prod.collapse worker_of_def)
  then show ?thesis by (rule accepted_answers)
qed

section \<open>The pipeline\<close>

text \<open>C1: From the socket to the alert table.  With the inference run by the worker, every alert that a
  connection adds is about a record of the request that this connection admitted: its event identity is
  derived from the registered manifest and from that record, its artifact is the approved one, and its
  score is a probability of at least one half; whatever the child process, the clocks and the stores do.\<close>

theorem alerts_answer_records:
  "case process_session (env\<lparr>oe_worker := worker_of wenv wk\<rparr>) sess w of (w', out) \<Rightarrow>
     ow_alerts w' = ow_alerts w \<or>
     (\<exists>rec. session_request env sess rec \<and> valid_admission_record rec \<and>
        set (ow_alerts w') \<subseteq> set (ow_alerts w) \<union> alert_values ` {c. record_alert (wk_manifest_sha256 wk) rec c})"
proof -
  let ?env = "env\<lparr>oe_worker := worker_of wenv wk\<rparr>"
  obtain w' out where run: "process_session ?env sess w = (w', out)" by fastforce
  have same: "session_request ?env sess rec = session_request env sess rec" for rec by (simp add: session_request_def)
  have add: "set (ow_alerts w4) \<subseteq> set (ow_alerts w3) \<union> alert_values ` {c. record_alert (wk_manifest_sha256 wk) rec c}"
    if "process_claimed ?env sess rec own w3 = (w4, out4)" for rec own w3 w4 out4
  proof (rule adding.process_from [THEN staysD, OF _ that])
    fix n rs reg t c
    assume "oe_worker ?env n (map reference_identity (ar_records rec)) = Worker_results rs" "reg \<in> set rs"
      "build_alert_candidate reg t = Inr c"
    then show "record_alert (wk_manifest_sha256 wk) rec c"
      by (intro answered_alert [OF worker_results_answer _ refl]) simp_all
  qed
  from run show ?thesis
  proof (cases rule: process_session_cases)
    case answered
    then show ?thesis by (simp add: run)
  next
    case (admitted rec w1)
    from admitted(4) show ?thesis
    proof (cases rule: process_admitted_cases)
      case answered
      then show ?thesis using admitted(2) by (simp add: run)
    next
      case (leased w2 w3 out3)
      from leased(3) show ?thesis
      proof (cases rule: process_leased_cases)
        case unclaimed
        then show ?thesis using leased admitted(2) by (simp add: run)
      next
        case (claimed w4 c)
        show ?thesis using add [OF claimed(6)] claimed leased admitted same by (auto simp: run)
      qed
    qed
  qed
qed

end
