(* ===== verification/AnalystAudit.thy ===== *)
theory AnalystAudit
  imports AnalystState SecurityAudit
begin

text \<open>
  The analyst security audit (\<^verbatim>\<open>db/analyst_security_audit.py\<close>): its event contract, the bounded
  append-only table with \<^verbatim>\<open>append\<close> and \<^verbatim>\<open>list\<close>, and the contract of an append that it shares with the
  producer audit.  The sanitized codes are those of \<^verbatim>\<open>SecurityAudit\<close>.
\<close>

section \<open>Events\<close>

abbreviation ANALYST_AUDIT_SCHEMA :: string where
  "ANALYST_AUDIT_SCHEMA \<equiv> ''analyst_security_audit_event_v1''"

definition ANALYST_EVENT_DISPOSITIONS :: "taxonomy list" where
  "ANALYST_EVENT_DISPOSITIONS =
    [(''authentication_rejected'', ''authentication'', ''rejected'', ''authentication_failed''),
     (''authorization_rejected'', ''authorization'', ''rejected'', ''forbidden''),
     (''request_rejected'', ''admission'', ''rejected'', ''request_invalid''),
     (''request_admitted'', ''admission'', ''admitted'', ''request_admitted''),
     (''request_completed'', ''completion'', ''completed'', ''request_completed''),
     (''internal_failure'', ''internal'', ''failed'', ''internal_error'')]"

text \<open>An event; the time is a \<^typ>\<open>datetime\<close> in an event and its text in a row.\<close>

record 't analyst_audit_fields =
  aa_schema_version :: string
  aa_audit_event_id :: string
  aa_event_time :: 't
  aa_correlation_id :: "string option"
  aa_event_type :: string
  aa_processing_stage :: string
  aa_outcome :: string
  aa_reason_code :: string
  aa_actor_id :: "string option"
  aa_credential_sha256 :: "string option"
  aa_request_route :: "string option"
  aa_body_sha256 :: "string option"

type_synonym analyst_audit_event = "datetime analyst_audit_fields"
type_synonym analyst_audit_row = "string analyst_audit_fields"

definition analyst_taxonomy :: "'t analyst_audit_fields \<Rightarrow> taxonomy" where
  "analyst_taxonomy e = (aa_event_type e, aa_processing_stage e, aa_outcome e, aa_reason_code e)"

definition valid_analyst_event :: "analyst_audit_event \<Rightarrow> bool" where
  "valid_analyst_event e \<longleftrightarrow>
     aa_schema_version e = ANALYST_AUDIT_SCHEMA \<and> is_uuid4 (aa_audit_event_id e) \<and>
     valid_datetime (aa_event_time e) \<and> opt_ok is_uuid4 (aa_correlation_id e) \<and>
     analyst_taxonomy e \<in> set ANALYST_EVENT_DISPOSITIONS \<and> opt_ok valid_actor_id (aa_actor_id e) \<and>
     opt_ok (\<lambda>r. length (utf8 r) \<le> 256) (aa_request_route e) \<and>
     opt_ok is_sha256 (aa_credential_sha256 e) \<and> opt_ok is_sha256 (aa_body_sha256 e)"

record analyst_evidence =
  av_correlation_id :: "string option"
  av_actor_id :: "string option"
  av_credential_sha256 :: "string option"
  av_request_route :: "string option"
  av_body_sha256 :: "string option"

definition create_analyst_event ::
  "taxonomy \<Rightarrow> analyst_evidence \<Rightarrow> datetime option \<Rightarrow> string \<Rightarrow> audit_error + analyst_audit_event" where
  "create_analyst_event tax ev now event_id = (case now of
     None \<Rightarrow> Inl AE_trusted_time_unavailable
   | Some t \<Rightarrow>
      (let (ty, stage, outcome, reason) = tax;
           e = \<lparr>aa_schema_version = ANALYST_AUDIT_SCHEMA, aa_audit_event_id = event_id, aa_event_time = t,
                aa_correlation_id = av_correlation_id ev, aa_event_type = ty, aa_processing_stage = stage,
                aa_outcome = outcome, aa_reason_code = reason, aa_actor_id = av_actor_id ev,
                aa_credential_sha256 = av_credential_sha256 ev, aa_request_route = av_request_route ev,
                aa_body_sha256 = av_body_sha256 ev\<rparr>
       in if valid_analyst_event e then Inr e else Inl AE_event_invalid))"

section \<open>Rows\<close>

text \<open>\<^verbatim>\<open>_values\<close>, \<^verbatim>\<open>_event\<close> and \<^verbatim>\<open>_equivalent\<close>.\<close>

definition at_time :: "'u \<Rightarrow> 't analyst_audit_fields \<Rightarrow> 'u analyst_audit_fields" where
  "at_time t e = \<lparr>aa_schema_version = aa_schema_version e, aa_audit_event_id = aa_audit_event_id e,
     aa_event_time = t, aa_correlation_id = aa_correlation_id e, aa_event_type = aa_event_type e,
     aa_processing_stage = aa_processing_stage e, aa_outcome = aa_outcome e, aa_reason_code = aa_reason_code e,
     aa_actor_id = aa_actor_id e, aa_credential_sha256 = aa_credential_sha256 e,
     aa_request_route = aa_request_route e, aa_body_sha256 = aa_body_sha256 e\<rparr>"

definition analyst_values :: "analyst_audit_event \<Rightarrow> analyst_audit_row" where
  "analyst_values e = at_time (isoformat (aa_event_time e)) e"

definition analyst_event_of_row :: "analyst_audit_row \<Rightarrow> audit_error + analyst_audit_event" where
  "analyst_event_of_row r = (case fromisoformat_utc (aa_event_time r) of
     None \<Rightarrow> Inl AE_record_invalid
   | Some t \<Rightarrow> (let e = at_time t r in if valid_analyst_event e then Inr e else Inl AE_record_invalid))"

definition analyst_equivalent :: "analyst_audit_event \<Rightarrow> analyst_audit_event \<Rightarrow> bool" where
  "analyst_equivalent stored attempted \<longleftrightarrow>
     at_time () (stored\<lparr>aa_correlation_id := None\<rparr>) = at_time () (attempted\<lparr>aa_correlation_id := None\<rparr>)"

text \<open>The table's CHECK constraints.\<close>

definition analyst_row_check :: "analyst_audit_row \<Rightarrow> bool" where
  "analyst_row_check r \<longleftrightarrow>
     aa_schema_version r = ANALYST_AUDIT_SCHEMA \<and> length (aa_audit_event_id r) = 36 \<and>
     25 \<le> length (aa_event_time r) \<and> length (aa_event_time r) \<le> 32 \<and>
     opt_ok (\<lambda>c. length c = 36) (aa_correlation_id r) \<and> analyst_taxonomy r \<in> set ANALYST_EVENT_DISPOSITIONS \<and>
     opt_ok (\<lambda>a. 1 \<le> length a \<and> length a \<le> 64) (aa_actor_id r) \<and>
     opt_ok (\<lambda>u. length u \<le> 256) (aa_request_route r) \<and>
     opt_ok is_sha256 (aa_credential_sha256 r) \<and> opt_ok is_sha256 (aa_body_sha256 r)"

definition analyst_append_body ::
  "nat \<Rightarrow> analyst_audit_row list \<Rightarrow> analyst_audit_event \<Rightarrow>
     audit_error + (analyst_audit_row list \<times> append_disposition \<times> string)" where
  "analyst_append_body capacity t e =
     (case fetchone (\<lambda>r. aa_audit_event_id r = aa_audit_event_id e) t of
        Some row \<Rightarrow> bindE (analyst_event_of_row row) (\<lambda>stored.
          if \<not> analyst_equivalent stored e then Inl AE_identity_conflict
          else Inr (t, Audit_existing, aa_audit_event_id stored))
      | None \<Rightarrow>
          if capacity \<le> length t then Inl AE_capacity_reached
          else if \<not> analyst_row_check (analyst_values e) then Inl AE_write_failed
          else Inr (t @ [analyst_values e], Audit_created, aa_audit_event_id e))"

definition analyst_append ::
  "nat \<Rightarrow> sqlite_fault \<Rightarrow> analyst_audit_row list \<Rightarrow> analyst_audit_event \<Rightarrow>
     analyst_audit_row list \<times> (audit_error + append_disposition \<times> string)" where
  "analyst_append capacity fault t e =
     (if \<not> valid_analyst_event e then (t, Inl AE_event_invalid)
      else case fault of
        Fault_connect \<Rightarrow> (t, Inl AE_unavailable)
      | Fault_begin err \<Rightarrow> (t, Inl (audit_database_error True err))
      | _ \<Rightarrow> (case analyst_append_body capacity t e of
          Inl err \<Rightarrow> (t, Inl err)
        | Inr (t', res) \<Rightarrow> (case fault of
            Fault_write err \<Rightarrow> (t, Inl (audit_database_error True err)) | _ \<Rightarrow> (t', Inr res))))"

text \<open>ORDER BY event_time, audit_event_id, both compared as text.\<close>

definition analyst_order :: "analyst_audit_row \<Rightarrow> string \<times> string" where
  "analyst_order r = (aa_event_time r, aa_audit_event_id r)"

definition analyst_list ::
  "sqlite_fault \<Rightarrow> analyst_audit_row list \<Rightarrow> int \<Rightarrow> audit_error + analyst_audit_event list" where
  "analyst_list fault t limit =
     (if limit < 1 \<or> MAX_AUDIT_LIST_LIMIT < limit then Inl AE_list_limit_invalid
      else case fault of
        Fault_connect \<Rightarrow> Inl AE_unavailable
      | No_fault \<Rightarrow> mapE analyst_event_of_row (take (nat limit) (sort_key analyst_order t))
      | Fault_begin err \<Rightarrow> Inl (audit_database_error False err)
      | Fault_write err \<Rightarrow> Inl (audit_database_error False err))"

section \<open>The contract of an append\<close>

text \<open>
  What a caller may rely on: an append leaves the table alone or adds the row of a valid event with a
  new identifier while there is room.  Along any run the table then stands for a bounded log of events.
\<close>

locale bounded_append =
  fixes append :: "nat \<Rightarrow> sqlite_fault \<Rightarrow> 'r list \<Rightarrow> 'e \<Rightarrow> 'r list \<times> 'x"
    and row :: "'e \<Rightarrow> 'r" and ident :: "'r \<Rightarrow> string" and valid :: "'e \<Rightarrow> bool"
  assumes append_table: "fst (append capacity fault t e) = t \<or>
    (valid e \<and> length t < capacity \<and> ident (row e) \<notin> set (map ident t) \<and>
     fst (append capacity fault t e) = t @ [row e])"
begin

definition log_table :: "nat \<Rightarrow> 'r list \<Rightarrow> 'e list \<Rightarrow> bool" where
  "log_table capacity t es \<longleftrightarrow> t = map row es \<and> list_all valid es \<and> distinct (map ident t) \<and> length t \<le> capacity"

definition run :: "nat \<Rightarrow> 'r list \<Rightarrow> (sqlite_fault \<times> 'e) list \<Rightarrow> 'r list" where
  "run capacity = foldl (\<lambda>t c. fst (append capacity (fst c) t (snd c)))"

lemma run_log:
  assumes "log_table capacity t es"
  shows "\<exists>es'. log_table capacity (run capacity t cs) (es @ es')"
  using assms
proof (induction cs arbitrary: t es)
  case Nil
  then show ?case by (intro exI [of _ "[]"]) (simp add: run_def)
next
  case (Cons c cs)
  let ?t = "fst (append capacity (fst c) t (snd c))"
  have r: "run capacity t (c # cs) = run capacity ?t cs" by (simp add: run_def)
  from append_table [of capacity "fst c" t "snd c"] show ?case
  proof
    assume "?t = t"
    then show ?thesis unfolding r using Cons by simp
  next
    assume "valid (snd c) \<and> length t < capacity \<and> ident (row (snd c)) \<notin> set (map ident t) \<and> ?t = t @ [row (snd c)]"
    then have "log_table capacity ?t (es @ [snd c])" using Cons.prems by (auto simp: log_table_def)
    then obtain es' where "log_table capacity (run capacity ?t cs) ((es @ [snd c]) @ es')" using Cons.IH by blast
    then show ?thesis unfolding r by (metis append.assoc)
  qed
qed

lemma empty_log: "log_table capacity [] []"
  by (simp add: log_table_def)

text \<open>Every reachable table is a log of valid events, and what was in it stays in front.\<close>

lemma reachable_log:
  "\<exists>es es'. log_table capacity (run capacity [] cs) es \<and> log_table capacity (run capacity [] (cs @ ds)) (es @ es')"
proof -
  obtain es where es: "log_table capacity (run capacity [] cs) es" using run_log [OF empty_log] by auto
  moreover have "run capacity [] (cs @ ds) = run capacity (run capacity [] cs) ds" by (simp add: run_def)
  ultimately show ?thesis using run_log [OF es, of ds] by metis
qed

end

section \<open>Rows hold events\<close>

lemma at_time_simps [simp]:
  "at_time u (at_time t e) = at_time u e" "at_time (aa_event_time e) e = e"
  "aa_event_time (at_time t e) = t" "aa_audit_event_id (at_time t e) = aa_audit_event_id e"
  "aa_correlation_id (at_time t e) = aa_correlation_id e" "analyst_taxonomy (at_time t e) = analyst_taxonomy e"
  "aa_schema_version (at_time t e) = aa_schema_version e" "aa_actor_id (at_time t e) = aa_actor_id e"
  "aa_credential_sha256 (at_time t e) = aa_credential_sha256 e" "aa_request_route (at_time t e) = aa_request_route e"
  "aa_body_sha256 (at_time t e) = aa_body_sha256 e"
  by (simp_all add: at_time_def analyst_taxonomy_def)

lemma analyst_values_simps [simp]: "aa_audit_event_id (analyst_values e) = aa_audit_event_id e"
  by (simp add: analyst_values_def)

lemma analyst_values_ids: "map aa_audit_event_id (map analyst_values es) = map aa_audit_event_id es"
  by simp

lemma analyst_event_of_values [simp]:
  assumes "valid_analyst_event e"
  shows "analyst_event_of_row (analyst_values e) = Inr e"
  using assms fromisoformat_isoformat [of "aa_event_time e"]
  by (simp add: analyst_event_of_row_def analyst_values_def valid_analyst_event_def Let_def)

lemma length_le_utf8: "length s \<le> length (utf8 s)"
  by (induction s) (auto simp: utf8_char_def Let_def)

lemma actor_nonempty: "valid_actor_id a \<Longrightarrow> 1 \<le> length a"
  by (cases a) (auto simp: valid_actor_id_def id_pattern_def)

lemma analyst_values_check:
  assumes "valid_analyst_event e"
  shows "analyst_row_check (analyst_values e)"
proof -
  have u: "is_uuid4 x \<Longrightarrow> length x = 36" for x unfolding is_uuid4_def by blast
  have a: "valid_actor_id x \<Longrightarrow> length x \<le> 64" for x by (simp add: valid_actor_id_def)
  have r: "length (utf8 x) \<le> 256 \<Longrightarrow> length x \<le> 256" for x using length_le_utf8 [of x] by simp
  show ?thesis
    using assms u a r actor_nonempty
    by (auto simp: analyst_row_check_def valid_analyst_event_def analyst_values_def length_isoformat opt_ok_def
        split: option.splits)
qed

lemma analyst_append_table:
  "fst (analyst_append capacity fault t e) = t \<or>
   (valid_analyst_event e \<and> length t < capacity \<and>
    aa_audit_event_id (analyst_values e) \<notin> set (map aa_audit_event_id t) \<and>
    fst (analyst_append capacity fault t e) = t @ [analyst_values e])"
proof -
  have "t' = t \<or> (length t < capacity \<and> aa_audit_event_id e \<notin> set (map aa_audit_event_id t) \<and>
      t' = t @ [analyst_values e])" if "analyst_append_body capacity t e = Inr (t', res)" for t' res
    using that by (auto simp: analyst_append_body_def fetchone_None_iff split: option.splits bindE_splits if_splits)
  then show ?thesis
    by (cases fault; cases "analyst_append_body capacity t e") (auto simp: analyst_append_def)
qed

interpretation analyst_audit: bounded_append analyst_append analyst_values aa_audit_event_id valid_analyst_event
  by unfold_locales (rule analyst_append_table)

interpretation producer_audit: bounded_append append_event audit_values sa_audit_event_id valid_audit_event
  by unfold_locales (use append_event_table in simp)

section \<open>The audit of the analysts\<close>

text \<open>The table of the analyst audit after a run of appends.\<close>

abbreviation analyst_run :: "nat \<Rightarrow> (sqlite_fault \<times> analyst_audit_event) list \<Rightarrow> analyst_audit_row list" where
  "analyst_run capacity \<equiv> foldl (\<lambda>t c. fst (analyst_append capacity (fst c) t (snd c))) []"

lemma analyst_run_log:
  obtains es where "analyst_run capacity cs = map analyst_values es" "list_all valid_analyst_event es"
    "distinct (map aa_audit_event_id es)" "length es \<le> capacity"
proof -
  obtain es where "analyst_audit.log_table capacity (analyst_run capacity cs) es"
    using analyst_audit.reachable_log [of capacity cs "[]"] by (auto simp: analyst_audit.run_def)
  then show thesis by (intro that [of es]) (auto simp: analyst_audit.log_table_def comp_def)
qed

text \<open>
  The audit of the analysts only grows: along every run of appends with any events and faults, a later
  table extends an earlier one, holds valid events with distinct identifiers, and no more than its capacity.
\<close>

theorem analyst_audit_append_only:
  "\<exists>es es'. analyst_run capacity cs = map analyst_values es \<and>
     analyst_run capacity (cs @ ds) = map analyst_values (es @ es') \<and> list_all valid_analyst_event (es @ es') \<and>
     distinct (map aa_audit_event_id (es @ es')) \<and> length (es @ es') \<le> capacity"
proof -
  obtain es es' where es: "analyst_audit.log_table capacity (analyst_run capacity cs) es"
    "analyst_audit.log_table capacity (analyst_run capacity (cs @ ds)) (es @ es')"
    using analyst_audit.reachable_log [of capacity cs ds] unfolding analyst_audit.run_def by blast
  then have t: "analyst_run capacity cs = map analyst_values es" "analyst_run capacity (cs @ ds) = map analyst_values (es @ es')"
    by (simp_all only: analyst_audit.log_table_def)
  have "list_all valid_analyst_event (es @ es')" "distinct (map aa_audit_event_id (es @ es'))" "length (es @ es') \<le> capacity"
    using es(2) unfolding analyst_audit.log_table_def t(2) analyst_values_ids length_map by blast+
  with t show ?thesis by blast
qed

text \<open>An append of a valid event without a fault is recorded, repeated without effect, or refused.\<close>

lemma analyst_append_log:
  assumes "list_all valid_analyst_event es" "valid_analyst_event e"
    "analyst_append capacity No_fault (map analyst_values es) e = (t, r)"
  shows "case r of
      Inr (d, i) \<Rightarrow> i = aa_audit_event_id e \<and> (\<exists>s. analyst_values s \<in> set t \<and> analyst_equivalent s e \<and>
        (d = Audit_created \<longrightarrow> s = e \<and> t = map analyst_values (es @ [e])))
    | Inl err \<Rightarrow> t = map analyst_values es \<and> err \<in> {AE_identity_conflict, AE_capacity_reached}"
proof (cases "fetchone (\<lambda>s. aa_audit_event_id s = aa_audit_event_id e) es")
  case None
  then show ?thesis
    using assms analyst_values_check [OF assms(2)]
    by (auto simp: analyst_append_def analyst_append_body_def fetchone_map comp_def analyst_equivalent_def
        split: if_splits)
next
  case (Some s)
  then have "valid_analyst_event s" "aa_audit_event_id s = aa_audit_event_id e" "s \<in> set es"
    using assms(1) by (auto dest!: fetchone_SomeD simp: list_all_iff)
  then show ?thesis
    using Some assms(2,3)
    by (auto simp: analyst_append_def analyst_append_body_def fetchone_map comp_def split: if_splits intro!: exI [of _ s])
qed

theorem analyst_append_recorded:
  assumes "valid_analyst_event e" "analyst_append capacity No_fault (analyst_run capacity cs) e = (t, r)"
  shows "case r of
      Inr (d, i) \<Rightarrow> i = aa_audit_event_id e \<and> (\<exists>s. analyst_values s \<in> set t \<and> analyst_equivalent s e \<and>
        (d = Audit_created \<longrightarrow> s = e \<and> t = analyst_run capacity cs @ [analyst_values e]))
    | Inl err \<Rightarrow> t = analyst_run capacity cs \<and> err \<in> {AE_identity_conflict, AE_capacity_reached}"
proof -
  obtain es where es: "analyst_run capacity cs = map analyst_values es" "list_all valid_analyst_event es"
    by (rule analyst_run_log)
  show ?thesis
    using analyst_append_log [OF es(2) assms(1), of capacity t r] assms(2) es(1) by (simp only: map_append list.map)
qed

end
