(* ===== verification/AuditRetention.thy ===== *)
theory AuditRetention
  imports AnalystAudit Worker
begin

text \<open>
  Archives of the analyst audit (\<^verbatim>\<open>operations/audit_retention.py\<close>): the export of a prefix of the table
  into two files, the verification of an archive, and the deletion of an archived prefix.  The walk to
  a directory or a database file with its checks of owner, mode, links and lock is an outcome (the code
  it raises, or nothing); the files are their bytes with the outcome of their own checks.  An exception
  that is not of the module's own class is \<open>RE_other\<close>; \<open>RE_unreadable\<close> is what reading a line a second
  time raises (the code \<^verbatim>\<open>manifest_invalid\<close> for a repeated key, else an exception of the decoders).
\<close>

section \<open>Files, tables and constants\<close>

abbreviation AUDIT_ARCHIVE_SCHEMA :: string where "AUDIT_ARCHIVE_SCHEMA \<equiv> ''security_audit_archive_v1''"
abbreviation AUDIT_ARCHIVE_EVENTS_FILENAME :: string where "AUDIT_ARCHIVE_EVENTS_FILENAME \<equiv> ''audit_events.jsonl''"
abbreviation ANALYST_AUDIT_SCHEMA_IDENTITY :: string where
  "ANALYST_AUDIT_SCHEMA_IDENTITY \<equiv> ''analyst_security_audit_sqlite_v1''"

definition MAX_MANIFEST_BYTES :: nat where "MAX_MANIFEST_BYTES = 65536"
definition MAX_ARCHIVE_EVENTS_BYTES :: nat where "MAX_ARCHIVE_EVENTS_BYTES = 100 * 1024 * 1024"

definition AUDIT_EVENT_COLUMNS :: "string list" where
  "AUDIT_EVENT_COLUMNS = [''schema_version'', ''audit_event_id'', ''event_time'', ''correlation_id'', ''event_type'',
     ''processing_stage'', ''outcome'', ''reason_code'', ''actor_id'', ''credential_sha256'', ''request_route'',
     ''body_sha256'']"

datatype retention_error = RE string | RE_other | RE_unreadable

record archive_file =
  af_bytes :: string
  af_private :: bool

record archive_dir =
  dr_access :: "bool \<Rightarrow> string option"
  dr_events :: "archive_file option"
  dr_manifest :: "archive_file option"
  dr_others :: "string list"

record audit_db =
  db_path :: "string option"
  db_quick_check :: "string option"
  db_user_version :: int
  db_metadata :: "(string \<times> string) list"
  db_events :: "analyst_audit_row list"

text \<open>What the engine answers, when it answers.\<close>

definition verify_audit_db_schema :: "audit_db \<Rightarrow> retention_error option" where
  "verify_audit_db_schema db =
     (if db_quick_check db \<noteq> Some ''ok'' then Some (RE ''database_corrupt'')
      else if db_user_version db \<noteq> 1 then Some (RE ''schema_mismatch'')
      else if map_of (db_metadata db) ''schema_identity'' \<noteq> Some ANALYST_AUDIT_SCHEMA_IDENTITY
      then Some (RE ''schema_mismatch'') else None)"

section \<open>Export\<close>

definition opt_text :: "string option \<Rightarrow> json" where
  "opt_text v = (case v of None \<Rightarrow> JNull | Some s \<Rightarrow> JStr s)"

definition event_dict :: "analyst_audit_row \<Rightarrow> (string \<times> json) list" where
  "event_dict r = zip AUDIT_EVENT_COLUMNS
     [JStr (aa_schema_version r), JStr (aa_audit_event_id r), JStr (aa_event_time r), opt_text (aa_correlation_id r),
      JStr (aa_event_type r), JStr (aa_processing_stage r), JStr (aa_outcome r), JStr (aa_reason_code r),
      opt_text (aa_actor_id r), opt_text (aa_credential_sha256 r), opt_text (aa_request_route r),
      opt_text (aa_body_sha256 r)]"

text \<open>\<^verbatim>\<open>json.dumps(value, sort_keys=True)\<close> and the same with \<^verbatim>\<open>indent=2\<close>, of an object without nested values.\<close>

definition dumps_flat :: "string \<Rightarrow> string \<Rightarrow> string \<Rightarrow> (string \<times> json) list \<Rightarrow> string" where
  "dumps_flat before between after kvs = ''{'' @ before @ join ('','' @ between)
     (map (\<lambda>(k, v). quoted k @ '': '' @ json_dumps_plain (\<lambda>_. []) v) (sort_key fst kvs)) @ after @ ''}''"

abbreviation newline :: char where "newline \<equiv> CHR 0x0A"

definition event_line :: "analyst_audit_row \<Rightarrow> string" where
  "event_line r = dumps_flat [] '' '' [] (event_dict r) @ [newline]"

definition manifest_text :: "(string \<times> json) list \<Rightarrow> string" where
  "manifest_text kvs = dumps_flat (newline # ''  '') (newline # ''  '') [newline] kvs @ [newline]"

text \<open>The condition of the statements that select and delete a prefix.\<close>

definition up_to :: "string \<times> string \<Rightarrow> analyst_audit_row \<Rightarrow> bool" where
  "up_to target r \<longleftrightarrow> aa_event_time r < fst target \<or>
     (aa_event_time r = fst target \<and> aa_audit_event_id r \<le> snd target)"

definition select_archived :: "string option \<Rightarrow> analyst_audit_row list \<Rightarrow> retention_error + analyst_audit_row list" where
  "select_archived up_to_audit_id t = (case up_to_audit_id of
     None \<Rightarrow> Inr (sort_key analyst_order t)
   | Some i \<Rightarrow> (case fetchone (\<lambda>r. aa_audit_event_id r = i) t of
       None \<Rightarrow> Inl (RE ''event_not_found'')
     | Some target \<Rightarrow> Inr (sort_key analyst_order (select_where (up_to (aa_event_time target, aa_audit_event_id target)) t))))"

definition archive_manifest :: "string \<Rightarrow> string \<Rightarrow> analyst_audit_row list \<Rightarrow> (string \<times> json) list" where
  "archive_manifest now raw_events rows =
     [(''schema'', JStr AUDIT_ARCHIVE_SCHEMA), (''created_at_utc'', JStr now),
      (''archive_file'', JStr AUDIT_ARCHIVE_EVENTS_FILENAME), (''sha256_digest'', JStr (sha256_hex raw_events)),
      (''size_bytes'', JInt (int (length raw_events))), (''row_count'', JInt (int (length rows))),
      (''first_audit_id'', JStr (aa_audit_event_id (hd rows))), (''last_audit_id'', JStr (aa_audit_event_id (last rows))),
      (''first_recorded_at_utc'', JStr (aa_event_time (hd rows))),
      (''last_recorded_at_utc'', JStr (aa_event_time (last rows)))]"

text \<open>One call of \<^verbatim>\<open>os.write\<close> on a new file, which may write less than asked.\<close>

datatype write_outcome = Written | Short nat | Write_error

definition write_file :: "write_outcome \<Rightarrow> string \<Rightarrow> archive_file \<times> retention_error option" where
  "write_file w raw = (case w of
     Written \<Rightarrow> (\<lparr>af_bytes = raw, af_private = True\<rparr>, None)
   | Short n \<Rightarrow> (\<lparr>af_bytes = take n raw, af_private = True\<rparr>,
       if length (take n raw) \<noteq> length raw then Some (RE ''file_invalid'') else None)
   | Write_error \<Rightarrow> (\<lparr>af_bytes = [], af_private = True\<rparr>, Some RE_other))"

definition write_archive ::
  "write_outcome \<times> write_outcome \<Rightarrow> string \<Rightarrow> archive_dir \<Rightarrow> analyst_audit_row list \<Rightarrow>
     archive_dir \<times> (retention_error + (string \<times> json) list)" where
  "write_archive writes now dir rows = (let raw_events = concat (map event_line rows) in
     if MAX_ARCHIVE_EVENTS_BYTES < length raw_events then (dir, Inl (RE ''manifest_too_large''))
     else case write_file (fst writes) raw_events of
         (f, Some e) \<Rightarrow> (dir\<lparr>dr_events := Some f\<rparr>, Inl e)
       | (f, None) \<Rightarrow> (let manifest = archive_manifest now raw_events rows in
           case write_file (snd writes) (manifest_text manifest) of
             (g, Some e) \<Rightarrow> (dir\<lparr>dr_events := Some f, dr_manifest := Some g\<rparr>, Inl e)
           | (g, None) \<Rightarrow> (dir\<lparr>dr_events := Some f, dr_manifest := Some g\<rparr>, Inr manifest)))"

definition export_security_audit_archive ::
  "sqlite_fault \<Rightarrow> write_outcome \<times> write_outcome \<Rightarrow> string \<Rightarrow> audit_db \<Rightarrow> archive_dir \<Rightarrow> string option \<Rightarrow>
     archive_dir \<times> (retention_error + (string \<times> json) list)" where
  "export_security_audit_archive fault writes now db dir up_to_audit_id =
     (case (db_path db, dr_access dir True) of
        (Some code, _) \<Rightarrow> (dir, Inl (RE code))
      | (None, Some code) \<Rightarrow> (dir, Inl (RE code))
      | (None, None) \<Rightarrow>
          if dr_events dir \<noteq> None \<or> dr_manifest dir \<noteq> None then (dir, Inl (RE ''archive_directory_not_empty''))
          else case fault of
              Fault_connect \<Rightarrow> (dir, Inl (RE ''file_invalid''))
            | Fault_begin _ \<Rightarrow> (dir, Inl (RE ''schema_mismatch''))
            | _ \<Rightarrow> (case verify_audit_db_schema db of
                Some e \<Rightarrow> (dir, Inl e)
              | None \<Rightarrow> if fault \<noteq> No_fault then (dir, Inl RE_other)
                  else case select_archived up_to_audit_id (db_events db) of
                      Inl e \<Rightarrow> (dir, Inl e)
                    | Inr [] \<Rightarrow> (dir, Inl (RE ''no_events_to_archive''))
                    | Inr rows \<Rightarrow> write_archive writes now dir rows))"

section \<open>Verification\<close>

text \<open>\<^verbatim>\<open>bytes.split(b"\n")\<close>\<close>

fun split_lines :: "string \<Rightarrow> string list" where
  "split_lines [] = [[]]"
| "split_lines (c # s) = (if c = newline then [] # split_lines s
     else case split_lines s of [] \<Rightarrow> [[c]] | l # ls \<Rightarrow> (c # l) # ls)"

definition decode_json :: "(string \<Rightarrow> pyfloat) \<Rightarrow> string \<Rightarrow> json option" where
  "decode_json fparse raw = (if utf8_valid raw then json_loads_with (plain_hooks fparse) raw else None)"

text \<open>The bytes of a file that passes its checks.\<close>

definition read_private :: "nat \<Rightarrow> archive_file \<Rightarrow> retention_error + string" where
  "read_private limit f = (if af_private f \<and> length (af_bytes f) \<le> limit then Inr (af_bytes f)
     else Inl (RE ''permission_invalid''))"

definition read_manifest :: "(string \<Rightarrow> pyfloat) \<Rightarrow> archive_file \<Rightarrow> retention_error + (string \<times> json) list" where
  "read_manifest fparse f = bindE (read_private MAX_MANIFEST_BYTES f) (\<lambda>raw. case decode_json fparse raw of
     Some (JObj kvs) \<Rightarrow> if obj_get kvs ''schema'' = Some (JStr AUDIT_ARCHIVE_SCHEMA) then Inr kvs
       else Inl (RE ''manifest_invalid'')
   | _ \<Rightarrow> Inl (RE ''manifest_invalid''))"

text \<open>One line of the events, and its place in the order.\<close>

definition read_event ::
  "(string \<Rightarrow> pyfloat) \<Rightarrow> (string \<Rightarrow> datetime option) \<Rightarrow> string \<Rightarrow> ((string \<times> json) list \<times> string \<times> string) option" where
  "read_event fparse parse_time line =
     (if line = [] then None
      else case decode_json fparse line of
          Some (JObj kvs) \<Rightarrow>
            if obj_get kvs ''schema_version'' = Some (JStr ANALYST_AUDIT_SCHEMA) \<and>
               list_all (\<lambda>c. obj_get kvs c \<noteq> None) AUDIT_EVENT_COLUMNS
            then (case (member kvs ''event_time'', member kvs ''audit_event_id'') of
                (JStr t, JStr i) \<Rightarrow> if parse_time t = None then None else Some (kvs, t, i)
              | _ \<Rightarrow> None)
            else None
        | _ \<Rightarrow> None)"

fun read_events ::
  "(string \<Rightarrow> pyfloat) \<Rightarrow> (string \<Rightarrow> datetime option) \<Rightarrow> (string \<times> string) option \<Rightarrow> string list \<Rightarrow>
     (string \<times> json) list list option" where
  "read_events fparse parse_time prev [] = Some []"
| "read_events fparse parse_time prev (line # lines) = (case read_event fparse parse_time line of
     None \<Rightarrow> None
   | Some (kvs, key) \<Rightarrow>
       if (case prev of None \<Rightarrow> False | Some k \<Rightarrow> key \<le> k) then None
       else map_option ((#) kvs) (read_events fparse parse_time (Some key) lines))"

text \<open>An archive without events makes the assertion fail, which is not an error of the module.\<close>

definition check_bounds :: "(string \<times> json) list \<Rightarrow> (string \<times> json) list list \<Rightarrow> retention_error option" where
  "check_bounds manifest events =
     (if events = [] then Some RE_other
      else if member manifest ''first_audit_id'' \<noteq> member (hd events) ''audit_event_id'' \<or>
              member manifest ''last_audit_id'' \<noteq> member (last events) ''audit_event_id'' \<or>
              member manifest ''first_recorded_at_utc'' \<noteq> member (hd events) ''event_time'' \<or>
              member manifest ''last_recorded_at_utc'' \<noteq> member (last events) ''event_time''
      then Some (RE ''archive_tampered'') else None)"

definition verify_events ::
  "(string \<Rightarrow> pyfloat) \<Rightarrow> (string \<Rightarrow> datetime option) \<Rightarrow> (string \<times> json) list \<Rightarrow> string \<Rightarrow>
     retention_error + (string \<times> json) list" where
  "verify_events fparse parse_time manifest raw_events =
     (if \<not> equals_int (member manifest ''size_bytes'') (int (length raw_events)) \<or>
         member manifest ''sha256_digest'' \<noteq> JStr (sha256_hex raw_events)
      then Inl (RE ''digest_mismatch'')
      else let lines = split_lines raw_events; event_rows = butlast lines in
        if last lines \<noteq> [] \<or> \<not> equals_int (member manifest ''row_count'') (int (length event_rows))
        then Inl (RE ''archive_tampered'')
        else case read_events fparse parse_time None event_rows of
            None \<Rightarrow> Inl (RE ''archive_tampered'')
          | Some events \<Rightarrow> (case check_bounds manifest events of Some e \<Rightarrow> Inl e | None \<Rightarrow> Inr manifest))"

definition verify_security_audit_archive ::
  "(string \<Rightarrow> pyfloat) \<Rightarrow> (string \<Rightarrow> datetime option) \<Rightarrow> archive_dir \<Rightarrow> retention_error + (string \<times> json) list" where
  "verify_security_audit_archive fparse parse_time dir = (case dr_access dir False of
     Some code \<Rightarrow> Inl (RE code)
   | None \<Rightarrow> (case (dr_manifest dir, dr_events dir, dr_others dir) of
       (Some m, Some f, []) \<Rightarrow> bindE (read_manifest fparse m) (\<lambda>manifest.
         bindE (read_private MAX_ARCHIVE_EVENTS_BYTES f) (verify_events fparse parse_time manifest))
     | _ \<Rightarrow> Inl (RE ''archive_incomplete'')))"

section \<open>Pruning\<close>

text \<open>The events are read a second time, from a directory that may have changed since.\<close>

definition read_archived :: "(string \<Rightarrow> pyfloat) \<Rightarrow> archive_dir \<Rightarrow> retention_error + json list" where
  "read_archived fparse dir = (case dr_access dir False of
     Some code \<Rightarrow> Inl (RE code)
   | None \<Rightarrow> (case dr_events dir of
       None \<Rightarrow> Inl RE_other
     | Some f \<Rightarrow> mapE (\<lambda>line. case decode_json fparse line of None \<Rightarrow> Inl RE_unreadable | Some v \<Rightarrow> Inr v)
         (butlast (split_lines (take (MAX_ARCHIVE_EVENTS_BYTES + 1) (af_bytes f))))))"

text \<open>\<^verbatim>\<open>arch_ev == db_ev\<close>: the same keys with the same texts.\<close>

definition same_event :: "json \<Rightarrow> analyst_audit_row \<Rightarrow> bool" where
  "same_event v r = (case v of JObj kvs \<Rightarrow> set kvs = set (event_dict r) | _ \<Rightarrow> False)"

record prune_result =
  pd_rows_count :: nat
  pd_archive_sha256 :: string
  pd_first_audit_id :: string
  pd_last_audit_id :: string
  pd_archived_up_to :: string

definition prune_body ::
  "(string \<times> json) list \<Rightarrow> json list \<Rightarrow> audit_db \<Rightarrow> retention_error + (analyst_audit_row list \<times> prune_result)" where
  "prune_body manifest archived db = (case verify_audit_db_schema db of
     Some e \<Rightarrow> Inl e
   | None \<Rightarrow> (let row_count = length archived; db_rows = take row_count (sort_key analyst_order (db_events db)) in
       if length db_rows < row_count \<or> \<not> list_all2 same_event archived db_rows then Inl (RE ''prefix_mismatch'')
       else let target = (text_of (member manifest ''last_recorded_at_utc''), text_of (member manifest ''last_audit_id'')) in
         if length (select_where (up_to target) (db_events db)) \<noteq> row_count then Inl (RE ''prefix_mismatch'')
         else Inr (select_where (\<lambda>r. \<not> up_to target r) (db_events db),
           \<lparr>pd_rows_count = row_count, pd_archive_sha256 = text_of (member manifest ''sha256_digest''),
            pd_first_audit_id = text_of (member manifest ''first_audit_id''),
            pd_last_audit_id = text_of (member manifest ''last_audit_id''),
            pd_archived_up_to = text_of (member manifest ''last_recorded_at_utc'')\<rparr>)))"

definition prune_archived_security_audit ::
  "(string \<Rightarrow> pyfloat) \<Rightarrow> (string \<Rightarrow> datetime option) \<Rightarrow> sqlite_fault \<Rightarrow> audit_db \<Rightarrow> archive_dir \<Rightarrow> archive_dir \<Rightarrow>
     audit_db \<times> (retention_error + prune_result)" where
  "prune_archived_security_audit fparse parse_time fault db dir dir_again =
     (case verify_security_audit_archive fparse parse_time dir of
        Inl e \<Rightarrow> (db, Inl e)
      | Inr manifest \<Rightarrow> (case db_path db of
          Some code \<Rightarrow> (db, Inl (RE code))
        | None \<Rightarrow> (case read_archived fparse dir_again of
            Inl e \<Rightarrow> (db, Inl e)
          | Inr archived \<Rightarrow>
              if \<not> equals_int (member manifest ''row_count'') (int (length archived))
              then (db, Inl (RE ''archive_tampered''))
              else case fault of
                  Fault_connect \<Rightarrow> (db, Inl (RE ''file_invalid''))
                | Fault_begin _ \<Rightarrow> (db, Inl (RE ''database_corrupt''))
                | _ \<Rightarrow> (case prune_body manifest archived db of
                    Inl e \<Rightarrow> (db, Inl e)
                  | Inr (t, res) \<Rightarrow> if fault \<noteq> No_fault then (db, Inl (RE ''database_corrupt''))
                      else (db\<lparr>db_events := t\<rparr>, Inr res)))))"

end
