(* ===== verification/AuditRetention_Facts.thy ===== *)
theory AuditRetention_Facts
  imports AuditRetention Worker_Run
begin

text \<open>
  Archives of the analyst audit: pruning deletes nothing but the archived prefix whatever the files
  hold, and an exported archive verifies and can be pruned.
\<close>

section \<open>Prefixes in the order of the audit\<close>

lemma up_to_order: "up_to target = (\<lambda>r. analyst_order r \<le> target)"
  by (rule ext, cases target) (auto simp: up_to_def analyst_order_def less_eq_prod_def)

lemma sorted_prefix:
  assumes "sorted (map key xs)" "n = length (filter (\<lambda>x. key x \<le> k) xs)"
  shows "filter (\<lambda>x. key x \<le> k) xs = take n xs" "filter (\<lambda>x. \<not> key x \<le> k) xs = drop n xs"
proof -
  have "filter (\<lambda>x. key x \<le> k) xs = take (length (filter (\<lambda>x. key x \<le> k) xs)) xs \<and>
      filter (\<lambda>x. \<not> key x \<le> k) xs = drop (length (filter (\<lambda>x. key x \<le> k) xs)) xs"
    using assms(1)
  proof (induction xs)
    case (Cons x xs)
    show ?case
    proof (cases "key x \<le> k")
      case False
      then have "\<forall>y \<in> set xs. \<not> key y \<le> k" using Cons.prems by (auto intro: order.trans)
      then show ?thesis using False by (simp add: filter_empty_conv)
    qed (use Cons in simp)
  qed simp
  then show "filter (\<lambda>x. key x \<le> k) xs = take n xs" "filter (\<lambda>x. \<not> key x \<le> k) xs = drop n xs"
    by (simp_all only: assms(2))
qed

text \<open>What the deletion of a prefix selects, when it selects as many rows as were compared.\<close>

lemma deleted_prefix:
  assumes "length (select_where (up_to target) t) = n"
  shows "take n (sort_key analyst_order t) @ sort_key analyst_order (select_where (\<lambda>r. \<not> up_to target r) t) =
    sort_key analyst_order t"
proof -
  let ?s = "sort_key analyst_order t"
  have "length (filter (\<lambda>r. analyst_order r \<le> target) ?s) = n"
    using assms by (simp add: filter_sort select_where_def up_to_order)
  then have "filter (\<lambda>r. \<not> analyst_order r \<le> target) ?s = drop n ?s"
    by (intro sorted_prefix(2)) simp_all
  then have "sort_key analyst_order (select_where (\<lambda>r. \<not> up_to target r) t) = drop n ?s"
    by (simp add: filter_sort select_where_def up_to_order)
  then show ?thesis by simp
qed

lemma prune_body_Inr:
  assumes "prune_body manifest archived db = Inr (t, res)"
  obtains rows where "list_all2 same_event archived rows" "pd_rows_count res = length rows"
    "sort_key analyst_order (db_events db) = rows @ sort_key analyst_order t"
proof -
  define rows where "rows = take (length archived) (sort_key analyst_order (db_events db))"
  define target where "target = (text_of (member manifest ''last_recorded_at_utc''), text_of (member manifest ''last_audit_id''))"
  have b: "(if length rows < length archived \<or> \<not> list_all2 same_event archived rows then Inl (RE ''prefix_mismatch'')
      else if length (select_where (up_to target) (db_events db)) \<noteq> length archived then Inl (RE ''prefix_mismatch'')
      else Inr (select_where (\<lambda>r. \<not> up_to target r) (db_events db),
         \<lparr>pd_rows_count = length archived, pd_archive_sha256 = text_of (member manifest ''sha256_digest''),
          pd_first_audit_id = text_of (member manifest ''first_audit_id''),
          pd_last_audit_id = text_of (member manifest ''last_audit_id''),
          pd_archived_up_to = text_of (member manifest ''last_recorded_at_utc'')\<rparr>)) = Inr (t, res)"
    using assms unfolding prune_body_def Let_def rows_def target_def by (cases "verify_audit_db_schema db") simp_all
  then have p: "list_all2 same_event archived rows" "length (select_where (up_to target) (db_events db)) = length archived"
    "t = select_where (\<lambda>r. \<not> up_to target r) (db_events db)" "pd_rows_count res = length archived"
    by (auto split: if_split_asm)
  have "length rows = length archived" using p(1) by (simp only: list_all2_lengthD)
  then show thesis
    using that [OF p(1)] deleted_prefix [OF p(2)] unfolding p(3) rows_def [symmetric] p(4) by simp
qed

section \<open>Pruning deletes the archived prefix only\<close>

text \<open>C23: No unarchived row is ever deleted.  Whatever the two readings of the archive directory hold, and
  whatever the engine does, pruning either leaves the database as it was, or deletes exactly the rows
  whose events, field by field, are the lines of the archive read last: in the order of the audit they
  come before every row that stays, as many as reported, and nothing else of the database changes.\<close>

theorem prune_deletes_archived_only:
  "case prune_archived_security_audit fparse parse_time fault db dir dir_again of (db', r) \<Rightarrow>
     (case r of
        Inl _ \<Rightarrow> db' = db
      | Inr res \<Rightarrow> \<exists>archived rows. read_archived fparse dir_again = Inr archived \<and> list_all2 same_event archived rows \<and>
          pd_rows_count res = length rows \<and> db' = db\<lparr>db_events := db_events db'\<rparr> \<and>
          sort_key analyst_order (db_events db) = rows @ sort_key analyst_order (db_events db'))"
proof -
  obtain db' r where p: "prune_archived_security_audit fparse parse_time fault db dir dir_again = (db', r)" by fastforce
  show ?thesis
  proof (cases r)
    case (Inl e)
    then show ?thesis
      using p by (auto simp: prune_archived_security_audit_def split: sum.splits option.splits sqlite_fault.splits if_splits prod.splits)
  next
    case (Inr res)
    then obtain manifest archived t where t: "read_archived fparse dir_again = Inr archived"
      "prune_body manifest archived db = Inr (t, res)" "db' = db\<lparr>db_events := t\<rparr>"
      using p by (auto simp: prune_archived_security_audit_def split: sum.splits option.splits sqlite_fault.splits if_splits prod.splits)
    obtain rows where "list_all2 same_event archived rows" "pd_rows_count res = length rows"
      "sort_key analyst_order (db_events db) = rows @ sort_key analyst_order t"
      by (rule prune_body_Inr [OF t(2)])
    then show ?thesis using t(1,3) by (auto simp: p Inr)
  qed
qed

section \<open>Flat objects\<close>

definition atom :: "json \<Rightarrow> bool" where
  "atom v \<longleftrightarrow> v = JNull \<or> (\<exists>s. v = JStr s \<and> ascii s) \<or> (\<exists>i. v = JInt i \<and> length (dec_int i) \<le> 4300)"

lemma atom_simps [simp]: "atom JNull" "atom (JStr s) \<longleftrightarrow> ascii s" "atom (JInt i) \<longleftrightarrow> length (dec_int i) \<le> 4300"
  by (auto simp: atom_def)

lemma atom_text:
  assumes "atom v"
  shows "json_norm v = v" "json_dumps_plain f v = json_dumps f v" "json_ok f hk v"
  using assms by (auto simp: atom_def)

definition flat :: "(string \<times> json) list \<Rightarrow> bool" where
  "flat kvs \<longleftrightarrow> distinct (map fst kvs) \<and> list_all (\<lambda>(k, v). ascii k \<and> atom v) kvs"

lemma flat_norm:
  assumes "flat kvs"
  shows "norm_members kvs = sort_key fst kvs" "member (norm_members kvs) k = member kvs k"
proof -
  have "map (\<lambda>(k, v). (k, json_norm v)) kvs = kvs"
    by (rule map_idI) (use assms atom_text(1) in \<open>auto simp: flat_def list_all_iff\<close>)
  then show "norm_members kvs = sort_key fst kvs" by (simp add: norm_members_def)
  have "json_norm (member kvs k) = member kvs k"
    using assms atom_text(1)
    by (fastforce simp: flat_def list_all_iff member_def obj_get_def split: option.splits dest: map_of_SomeD)
  then show "member (norm_members kvs) k = member kvs k" using assms by (simp add: norm_member flat_def)
qed

lemma skip_ws_list: "list_all json_ws w \<Longrightarrow> skip_ws (w @ s) = skip_ws s"
  by (induction w) (auto simp: skip_ws_def)

definition flat_members :: "(string \<times> json) list \<Rightarrow> string list" where
  "flat_members kvs = map (\<lambda>(k, v). quoted k @ '': '' @ json_dumps_plain (\<lambda>_. []) v) kvs"

lemma scan_object_flat:
  assumes "kvs \<noteq> []" "list_all (\<lambda>(k, v). ascii k \<and> atom v) kvs" "list_all json_ws between" "list_all json_ws after"
    "length (join ('','' @ between) (flat_members kvs)) < n"
  shows "scan_object hk n (join ('','' @ between) (flat_members kvs) @ after @ CHR ''}'' # r) = Some (kvs, r)"
  using assms
proof (induction kvs arbitrary: n)
  case (Cons kv kvs)
  obtain k v where kv: "kv = (k, v)" by (cases kv)
  obtain m where n: "n = Suc m" using Cons.prems(5) by (cases n) auto
  have ok: "ascii k" "atom v" using Cons.prems(2) kv by simp_all
  let ?d = "json_dumps (\<lambda>_. []) v" and ?J = "join ('','' @ between) (flat_members kvs)"
  have m: "flat_members (kv # kvs) = (quoted k @ '': '' @ ?d) # flat_members kvs"
    using kv atom_text(2) [OF ok(2), of "\<lambda>_. []"] by (simp add: flat_members_def)
  have rb: "reads_back (\<lambda>_. []) hk v" by (rule json_reads_back [OF atom_text(3) [OF ok(2)]])
  have v: "scan_once hk m (?d @ q) = Some (v, q)" if "delim q" for q
    using rb Cons.prems(5) n that atom_text(1) [OF ok(2)] by (auto simp: reads_back_def m join_Cons)
  obtain c t where ct: "?d = c # t" "value_start c" using json_dumps_start [OF atom_text(3) [OF ok(2)]] by blast
  have ws: "skip_ws (CHR '' '' # ?d @ q) = ?d @ q" for q
    using value_start_ws [OF ct(2)] ct(1) by (simp add: skip_ws_def json_ws_def)
  have key: "scan_string (concat (map esc_char k) @ CHR 0x22 # q) = Some (k, q)" for q
    by (rule scan_quoted [OF ok(1)])
  have close: "skip_ws (after @ CHR ''}'' # r) = CHR ''}'' # r" using Cons.prems(4) by (simp add: skip_ws_list)
  have da: "delim (after @ CHR ''}'' # r)" using Cons.prems(4) by (cases after) (auto simp: delim_def)
  show ?case
  proof (cases "kvs = []")
    case True
    then show ?thesis using v [OF da] n kv key ws close m
      by (simp add: quoted_def flat_members_def join_Cons)
  next
    case False
    then obtain k' v' ys where ys: "kvs = (k', v') # ys" by (cases kvs) auto
    have ws2: "skip_ws (between @ ?J @ q) = ?J @ q" for q
      using Cons.prems(3) ys by (simp add: skip_ws_list flat_members_def join_Cons quoted_def)
    have ne: "flat_members kvs \<noteq> []" using False by (simp add: flat_members_def)
    have "scan_object hk m (?J @ after @ CHR ''}'' # r) = Some (kvs, r)"
      by (rule Cons.IH) (use False Cons.prems n ne in \<open>auto simp: m join_Cons\<close>)
    then show ?thesis
      using v [of "CHR '','' # between @ ?J @ after @ CHR ''}'' # r"] n ws ws2 key kv ne
      by (simp add: m [unfolded kv] join_Cons quoted_def)
  qed
qed simp

lemma esc_char_newline: "newline \<notin> set (esc_char c)"
proof -
  have "list_all (\<lambda>d. newline \<noteq> (if d < 10 then char_of (48 + d) else char_of (87 + d))) [0..<16]" by code_simp
  then have "newline \<notin> set (hex4 n)" for n by (auto simp: hex4_def list_all_iff)
  then show ?thesis by (auto simp: esc_char_def Let_def)
qed

lemma flat_text_newline: "atom v \<Longrightarrow> newline \<notin> set (json_dumps f v)"
proof -
  assume v: "atom v"
  have "newline \<notin> set (quoted s)" for s using esc_char_newline by (auto simp: quoted_def)
  moreover have "newline \<notin> set (dec_int i)" for i
  proof -
    have "\<not> is_digit newline" by code_simp
    then have "newline \<notin> set (dec_digits n)" for n using dec_digits_digits [of n] by (auto simp: list_all_iff)
    then show ?thesis by (simp add: dec_int_def)
  qed
  ultimately show ?thesis using v by (auto simp: atom_def)
qed

lemma dumps_flat_members:
  "dumps_flat before between after kvs =
    ''{'' @ before @ join ('','' @ between) (flat_members (sort_key fst kvs)) @ after @ ''}''"
  by (simp add: dumps_flat_def flat_members_def)

lemma flat_sort:
  assumes "flat kvs"
  shows "distinct (map fst (sort_key fst kvs))" "list_all (\<lambda>(k, v). ascii k \<and> atom v) (sort_key fst kvs)"
  using assms by (simp_all add: flat_def distinct_map list_all_iff)

lemma loads_flat:
  assumes "flat kvs" "kvs \<noteq> []" "list_all json_ws before" "list_all json_ws between" "list_all json_ws after"
    "list_all json_ws trailing"
  shows "json_loads_with hk (dumps_flat before between after kvs @ trailing) = Some (JObj (norm_members kvs))"
proof -
  let ?s = "sort_key fst kvs" and ?d = "dumps_flat before between after kvs @ trailing"
  let ?J = "join ('','' @ between) (flat_members ?s)"
  have ne: "?s \<noteq> []" using assms(2) by (metis length_0_conv length_sort)
  then obtain k v ys where ys: "?s = (k, v) # ys" by (cases ?s) auto
  have J: "\<exists>u. ?J = CHR 0x22 # u" by (simp add: ys flat_members_def join_Cons quoted_def)
  then have start: "skip_ws (before @ ?J @ q) = ?J @ q" for q using assms(3) by (auto simp: skip_ws_list)
  have len: "length ?J < 2 * length ?d" by (simp add: dumps_flat_members)
  have "scan_object hk (2 * length ?d) (?J @ after @ CHR ''}'' # trailing) = Some (?s, trailing)"
    by (rule scan_object_flat [OF ne flat_sort(2) [OF assms(1)] assms(4,5) len])
  moreover have d: "?d = CHR ''{'' # before @ ?J @ after @ CHR ''}'' # trailing" by (simp add: dumps_flat_members)
  moreover have "skip_ws (CHR ''{'' # q) = CHR ''{'' # q" for q by (simp add: skip_ws_def json_ws_def)
  moreover have "skip_ws trailing = []" using skip_ws_list [OF assms(6), of "[]"] by simp
  moreover obtain u where u: "?J = CHR 0x22 # u" using J by blast
  moreover have "scan_once hk (Suc (2 * length ?d)) (CHR ''{'' # before @ ?J @ after @ CHR ''}'' # trailing) =
      Some (JObj ?s, trailing)"
    using calculation(1) flat_sort(1) [OF assms(1)] start [of "after @ CHR ''}'' # trailing"] u
    by (simp del: scan_once.simps(1) scan_object.simps split_paired_All)
  ultimately show ?thesis
    using flat_norm(1) [OF assms(1)] unfolding json_loads_with_def d by simp
qed

lemma ws_ascii: "list_all json_ws w \<Longrightarrow> ascii w"
proof -
  have "list_all (\<lambda>c. of_char c < (128 :: nat)) [CHR '' '', CHR 0x09, CHR 0x0A, CHR 0x0D]" by code_simp
  then have "of_char c < (128 :: nat)" if "json_ws c" for c using that unfolding json_ws_def list_all_iff by blast
  then show "list_all json_ws w \<Longrightarrow> ascii w" unfolding ascii_def list_all_iff by blast
qed

lemma flat_ascii_Cons: "ascii (c # s) \<longleftrightarrow> of_char c < (128 :: nat) \<and> ascii s"
  by (simp add: ascii_def)

lemma flat_join_ascii:
  assumes "ascii sep" "list_all ascii ts"
  shows "ascii (join sep ts)"
  using assms(2)
proof (induction ts)
  case (Cons t ts)
  then show ?case using assms(1) by (cases ts) simp_all
qed (simp add: ascii_def)

lemma member_text_ascii:
  assumes "ascii k" "atom v"
  shows "ascii (quoted k @ '': '' @ json_dumps_plain (\<lambda>_. []) v)"
proof -
  have "ascii (json_dumps (\<lambda>_. []) v)" "ascii (json_dumps (\<lambda>_. []) (JStr k))"
    using json_dumps_ascii [OF atom_text(3) [OF assms(2)]] json_dumps_ascii [OF atom_text(3) [of "JStr k"]] assms(1)
    by simp_all
  moreover have "ascii '': ''" by code_simp
  ultimately show ?thesis by (simp only: atom_text(2) [OF assms(2)] ascii_append json_dumps.simps(5) simp_thms)
qed

lemma flat_text_ascii:
  assumes "flat kvs" "list_all json_ws before" "list_all json_ws between" "list_all json_ws after"
  shows "ascii (dumps_flat before between after kvs)"
proof -
  have "list_all ascii (flat_members (sort_key fst kvs))"
    using flat_sort(2) [OF assms(1)] member_text_ascii
    unfolding flat_members_def list_all_iff by (fastforce simp del: ascii_append)
  then have "ascii (join ('','' @ between) (flat_members (sort_key fst kvs)))"
    by (intro flat_join_ascii) (simp_all add: flat_ascii_Cons ws_ascii [OF assms(3)])
  moreover have "ascii ''{''" "ascii ''}''" by code_simp+
  ultimately show ?thesis
    unfolding dumps_flat_members ascii_append using ws_ascii assms(2,4) by blast
qed

lemma decode_flat:
  assumes "flat kvs" "kvs \<noteq> []" "list_all json_ws before" "list_all json_ws between" "list_all json_ws after"
    "list_all json_ws trailing"
  shows "decode_json fparse (dumps_flat before between after kvs @ trailing) = Some (JObj (norm_members kvs))"
  using loads_flat [OF assms] flat_text_ascii [OF assms(1,3-5)] ws_ascii [OF assms(6)]
  by (simp add: decode_json_def utf8_valid_ascii ascii_def)

section \<open>Lines\<close>

lemma split_line: "newline \<notin> set l \<Longrightarrow> split_lines (l @ newline # s) = l # split_lines s"
  by (induction l) auto

lemma split_lines_concat:
  "(\<And>l. l \<in> set ls \<Longrightarrow> newline \<notin> set l) \<Longrightarrow> split_lines (concat (map (\<lambda>l. l @ [newline]) ls)) = ls @ [[]]"
  by (induction ls) (simp_all add: split_line)

lemma line_newline:
  assumes "flat kvs"
  shows "newline \<notin> set (dumps_flat [] '' '' [] kvs)"
proof -
  have q: "newline \<notin> set (quoted k)" for k using esc_char_newline by (auto simp: quoted_def)
  have "newline \<notin> set t" if "t \<in> set (flat_members (sort_key fst kvs))" for t
    using that flat_sort(2) [OF assms] q flat_text_newline atom_text(2)
    by (auto simp: flat_members_def list_all_iff)
  moreover have "newline \<notin> set (join ('','' @ '' '') ts)" if "\<And>t. t \<in> set ts \<Longrightarrow> newline \<notin> set t" for ts
    using that by (induction ts) (auto simp: join_Cons)
  ultimately have "newline \<notin> set (join ('','' @ '' '') (flat_members (sort_key fst kvs)))" by blast
  then show ?thesis by (simp add: dumps_flat_members)
qed

section \<open>Rows of the audit\<close>

text \<open>A row of a valid event whose route, the only free text, is ASCII.\<close>

definition plain_row :: "analyst_audit_row \<Rightarrow> bool" where
  "plain_row r \<longleftrightarrow> (\<exists>e. valid_analyst_event e \<and> r = analyst_values e) \<and> opt_ok ascii (aa_request_route r)"

lemma lower_alnum_ascii: "is_lower_alnum c \<or> c \<in> set ''._-'' \<Longrightarrow> of_char c < (128 :: nat)"
proof -
  have "list_all (\<lambda>c. of_char c < (128 :: nat)) ''._-''" by code_simp
  then show "is_lower_alnum c \<or> c \<in> set ''._-'' \<Longrightarrow> ?thesis"
    unfolding is_lower_alnum_def is_lower_alpha_def is_digit_def char_in_def less_eq_char_def list_all_iff by fastforce
qed

lemma actor_ascii: "valid_actor_id s \<Longrightarrow> ascii s"
proof -
  assume v: "valid_actor_id s"
  have "c \<in> set s \<Longrightarrow> is_lower_alnum c \<or> c \<in> set ''._-''" for c
  proof (cases s)
    case (Cons a t)
    assume "c \<in> set s"
    then have "c = a \<or> t \<noteq> [] \<and> (c = last t \<or> c \<in> set (butlast t))"
      using Cons by (cases t rule: rev_cases) auto
    then show ?thesis using v Cons unfolding valid_actor_id_def id_pattern_def list_all_iff
      by (metis last_ConsR list.sel(1,3))
  qed simp
  then show ?thesis using lower_alnum_ascii unfolding ascii_def list_all_iff by blast
qed

lemma sha256_ascii: "is_sha256 s \<Longrightarrow> ascii s"
  by (auto simp: is_sha256_def ascii_def list_all_iff hex_ascii)

lemma opt_text_atom: "opt_ok ascii v \<Longrightarrow> atom (opt_text v)"
  by (cases v) (simp_all add: opt_ok_def opt_text_def)

lemma taxonomy_ascii:
  assumes "analyst_taxonomy e \<in> set ANALYST_EVENT_DISPOSITIONS"
  shows "ascii (aa_event_type e)" "ascii (aa_processing_stage e)" "ascii (aa_outcome e)" "ascii (aa_reason_code e)"
proof -
  have "list_all (\<lambda>(a, b, c, d). ascii a \<and> ascii b \<and> ascii c \<and> ascii d) ANALYST_EVENT_DISPOSITIONS" by code_simp
  then show "ascii (aa_event_type e)" "ascii (aa_processing_stage e)" "ascii (aa_outcome e)" "ascii (aa_reason_code e)"
    using assms unfolding list_all_iff analyst_taxonomy_def by fast+
qed

lemma columns: "distinct AUDIT_EVENT_COLUMNS" "list_all ascii AUDIT_EVENT_COLUMNS"
  by code_simp+

lemma event_dict_keys: "map fst (event_dict r) = AUDIT_EVENT_COLUMNS"
  by (simp add: event_dict_def AUDIT_EVENT_COLUMNS_def)

lemma event_dict_flat:
  assumes "plain_row r"
  shows "flat (event_dict r)"
proof -
  obtain e where e: "valid_analyst_event e" "r = analyst_values e" "opt_ok ascii (aa_request_route e)"
    using assms by (auto simp: plain_row_def analyst_values_def)
  have t: "analyst_taxonomy r \<in> set ANALYST_EVENT_DISPOSITIONS"
    using e(1,2) by (simp add: valid_analyst_event_def analyst_values_def)
  have o: "opt_ok ascii (aa_correlation_id r)" "opt_ok ascii (aa_actor_id r)" "opt_ok ascii (aa_credential_sha256 r)"
    "opt_ok ascii (aa_request_route r)" "opt_ok ascii (aa_body_sha256 r)"
    using e uuid4_ascii actor_ascii sha256_ascii
    by (auto simp: valid_analyst_event_def analyst_values_def opt_ok_def split: option.splits)
  have s: "ascii (aa_schema_version r)" "ascii (aa_audit_event_id r)" "ascii (aa_event_time r)"
    using e uuid4_ascii isoformat_ascii by (simp_all add: valid_analyst_event_def analyst_values_def flat_ascii_Cons)
  have "list_all atom (map snd (event_dict r))"
    using s taxonomy_ascii [OF t] o [THEN opt_text_atom] by (simp add: event_dict_def AUDIT_EVENT_COLUMNS_def)
  then show ?thesis
    using columns event_dict_keys [of r] unfolding flat_def list_all_iff
    by (metis (no_types, lifting) case_prodI2 fst_conv in_set_conv_decomp list.set_map image_eqI snd_conv)
qed

lemma event_dict_member:
  "member (event_dict r) ''event_time'' = JStr (aa_event_time r)"
  "member (event_dict r) ''audit_event_id'' = JStr (aa_audit_event_id r)"
  "obj_get (event_dict r) ''schema_version'' = Some (JStr (aa_schema_version r))"
  by (simp_all add: member_def obj_get_def event_dict_def AUDIT_EVENT_COLUMNS_def)

lemma dumps_nonempty: "dumps_flat b w a kvs \<noteq> []"
  by (simp add: dumps_flat_def)

lemma read_event_line:
  assumes "plain_row r" "parse_time (aa_event_time r) \<noteq> None"
  shows "read_event fparse parse_time (dumps_flat [] '' '' [] (event_dict r)) =
    Some (norm_members (event_dict r), analyst_order r)"
proof -
  note f = event_dict_flat [OF assms(1)]
  have d: "distinct (map fst (event_dict r))" using f by (simp add: flat_def)
  have g: "obj_get (norm_members (event_dict r)) k = map_option json_norm (obj_get (event_dict r) k)" for k
    by (rule norm_members_get [OF d])
  have "obj_get (event_dict r) c \<noteq> None" if "c \<in> set AUDIT_EVENT_COLUMNS" for c
    using that unfolding event_dict_keys [of r, symmetric] by (simp add: obj_get_def map_of_eq_None_iff)
  then have "list_all (\<lambda>c. obj_get (norm_members (event_dict r)) c \<noteq> None) AUDIT_EVENT_COLUMNS"
    by (simp add: list_all_iff g)
  moreover have "aa_schema_version r = ANALYST_AUDIT_SCHEMA"
    using assms(1) by (auto simp: plain_row_def valid_analyst_event_def analyst_values_def)
  moreover have "decode_json fparse (dumps_flat [] '' '' [] (event_dict r)) = Some (JObj (norm_members (event_dict r)))"
    using decode_flat [OF f, of "[]" "'' ''" "[]" "[]" fparse] by (simp add: event_dict_def AUDIT_EVENT_COLUMNS_def json_ws_def)
  ultimately show ?thesis
    using assms(2) dumps_nonempty g [of "''schema_version''"]
    by (simp add: read_event_def flat_norm(2) [OF f] event_dict_member analyst_order_def)
qed

lemma read_events_rows:
  assumes "list_all plain_row rows" "\<And>r. r \<in> set rows \<Longrightarrow> parse_time (aa_event_time r) \<noteq> None"
    "sorted_wrt (<) (map analyst_order rows)" "\<And>k. prev = Some k \<Longrightarrow> \<forall>r \<in> set rows. k < analyst_order r"
  shows "read_events fparse parse_time prev (map (\<lambda>r. dumps_flat [] '' '' [] (event_dict r)) rows) =
    Some (map (\<lambda>r. norm_members (event_dict r)) rows)"
  using assms
proof (induction rows arbitrary: prev)
  case (Cons r rows)
  have "read_event fparse parse_time (dumps_flat [] '' '' [] (event_dict r)) =
      Some (norm_members (event_dict r), analyst_order r)"
    by (rule read_event_line) (use Cons.prems in auto)
  moreover have "\<not> (case prev of None \<Rightarrow> False | Some k \<Rightarrow> analyst_order r \<le> k)"
    using Cons.prems(4) by (auto split: option.splits)
  ultimately show ?case
    using Cons.IH [of "Some (analyst_order r)"] Cons.prems by simp
qed simp

section \<open>What is exported\<close>

lemma event_lines: "concat (map event_line rows) = concat (map (\<lambda>l. l @ [newline]) (map (\<lambda>r. dumps_flat [] '' '' [] (event_dict r)) rows))"
  by (simp add: event_line_def [abs_def] comp_def)

lemma events_split:
  assumes "list_all plain_row rows"
  shows "split_lines (concat (map event_line rows)) = map (\<lambda>r. dumps_flat [] '' '' [] (event_dict r)) rows @ [[]]"
  unfolding event_lines
  by (rule split_lines_concat) (use assms line_newline event_dict_flat in \<open>auto simp: list_all_iff\<close>)

lemma rows_le_bytes: "length rows \<le> length (concat (map event_line rows))"
  by (induction rows) (simp_all add: event_line_def)

lemma dec_digits_length: "n < 10 ^ Suc k \<Longrightarrow> length (dec_digits n) \<le> Suc k"
proof (induction k arbitrary: n)
  case 0
  then show ?case by (subst dec_digits.simps) simp
next
  case (Suc k)
  then have "n div 10 < 10 ^ Suc k" by (simp add: div_less_iff_less_mult)
  then show ?case using Suc.IH [of "n div 10"] by (subst dec_digits.simps) simp
qed

lemma size_text: "n \<le> MAX_ARCHIVE_EVENTS_BYTES \<Longrightarrow> length (dec_int (int n)) \<le> 9"
  using dec_digits_length [of n 8] by (simp add: MAX_ARCHIVE_EVENTS_BYTES_def dec_int_def)

text \<open>The rows selected are those up to the last of them, in order.\<close>

lemma selected_rows:
  assumes "select_archived up_to_audit_id t = Inr rows" "rows \<noteq> []"
  shows "rows = sort_key analyst_order (select_where (up_to (analyst_order (last rows))) t)"
proof -
  have last_max: "analyst_order r \<le> analyst_order (last (sort_key analyst_order xs))" if "r \<in> set xs" for r xs
  proof -
    have "xs \<noteq> []" using that by auto
    then have ne: "sort_key analyst_order xs \<noteq> []" by (metis length_0_conv length_sort)
    then obtain ys where ys: "sort_key analyst_order xs = ys @ [last (sort_key analyst_order xs)]"
      by (metis append_butlast_last_id)
    have "sorted (map analyst_order (ys @ [last (sort_key analyst_order xs)]))"
      unfolding ys [symmetric] by (rule sorted_sort_key)
    moreover have "r \<in> set (ys @ [last (sort_key analyst_order xs)])" unfolding ys [symmetric] using that by simp
    ultimately show ?thesis by (auto simp: sorted_append)
  qed
  show ?thesis
  proof (cases up_to_audit_id)
    case None
    then have r: "rows = sort_key analyst_order t" using assms(1) by (simp add: select_archived_def)
    have "select_where (up_to (analyst_order (last rows))) t = t"
      using last_max [of _ t] unfolding select_where_def r up_to_order by (simp add: filter_id_conv)
    then show ?thesis using r by simp
  next
    case (Some i)
    then obtain target where target: "fetchone (\<lambda>r. aa_audit_event_id r = i) t = Some target"
      "rows = sort_key analyst_order (select_where (up_to (analyst_order target)) t)"
      using assms(1) by (auto simp: select_archived_def analyst_order_def split: option.splits)
    let ?xs = "select_where (up_to (analyst_order target)) t"
    have "target \<in> set ?xs" using fetchone_SomeD [OF target(1)] by (simp add: select_where_def up_to_order)
    then have "analyst_order target \<le> analyst_order (last rows)" unfolding target(2) by (rule last_max)
    moreover have "last rows \<in> set ?xs"
      using last_in_set [OF assms(2)] unfolding target(2) by simp
    then have "analyst_order (last rows) \<le> analyst_order target" by (simp add: select_where_def up_to_order)
    ultimately show ?thesis using target(2) by simp
  qed
qed

lemma export_Inr:
  assumes "export_security_audit_archive fault writes now db dir up_to_audit_id = (dir', Inr manifest)"
  obtains rows where "db_path db = None" "verify_audit_db_schema db = None" "rows \<noteq> []"
    "select_archived up_to_audit_id (db_events db) = Inr rows"
    "length (concat (map event_line rows)) \<le> MAX_ARCHIVE_EVENTS_BYTES"
    "manifest = archive_manifest now (concat (map event_line rows)) rows"
    "dir' = dir\<lparr>dr_events := Some \<lparr>af_bytes = concat (map event_line rows), af_private = True\<rparr>,
       dr_manifest := Some \<lparr>af_bytes = manifest_text manifest, af_private = True\<rparr>\<rparr>"
proof -
  have w: "f = \<lparr>af_bytes = raw, af_private = True\<rparr>" if "write_file x raw = (f, None)" for x raw f
    using that by (auto simp: write_file_def split: write_outcome.splits if_splits)
  obtain rows where rows: "db_path db = None" "verify_audit_db_schema db = None" "rows \<noteq> []"
    "select_archived up_to_audit_id (db_events db) = Inr rows" "write_archive writes now dir rows = (dir', Inr manifest)"
    using assms by (auto simp: export_security_audit_archive_def split: option.splits if_splits sqlite_fault.splits
        sum.splits list.splits)
  obtain f g where f: "length (concat (map event_line rows)) \<le> MAX_ARCHIVE_EVENTS_BYTES"
    "write_file (fst writes) (concat (map event_line rows)) = (f, None)"
    "manifest = archive_manifest now (concat (map event_line rows)) rows"
    "write_file (snd writes) (manifest_text manifest) = (g, None)"
    "dir' = dir\<lparr>dr_events := Some f, dr_manifest := Some g\<rparr>"
    using rows(5) unfolding write_archive_def Let_def
    by (auto split: if_split_asm prod.splits option.splits)
  show thesis by (rule that [OF rows(1-4) f(1,3)]) (simp only: f(5) w [OF f(2)] w [OF f(4)])
qed

section \<open>The manifest\<close>

lemma archive_member:
  "member (archive_manifest now raw rows) ''sha256_digest'' = JStr (sha256_hex raw)"
  "member (archive_manifest now raw rows) ''size_bytes'' = JInt (int (length raw))"
  "member (archive_manifest now raw rows) ''row_count'' = JInt (int (length rows))"
  "member (archive_manifest now raw rows) ''first_audit_id'' = JStr (aa_audit_event_id (hd rows))"
  "member (archive_manifest now raw rows) ''last_audit_id'' = JStr (aa_audit_event_id (last rows))"
  "member (archive_manifest now raw rows) ''first_recorded_at_utc'' = JStr (aa_event_time (hd rows))"
  "member (archive_manifest now raw rows) ''last_recorded_at_utc'' = JStr (aa_event_time (last rows))"
  "obj_get (archive_manifest now raw rows) ''schema'' = Some (JStr AUDIT_ARCHIVE_SCHEMA)"
  by (simp_all add: member_def obj_get_def archive_manifest_def)

lemma plain_row_texts:
  assumes "plain_row r"
  shows "ascii (aa_audit_event_id r)" "ascii (aa_event_time r)" "length (aa_audit_event_id r) = 36"
    "length (aa_event_time r) \<le> 32" "\<exists>d. valid_datetime d \<and> aa_event_time r = isoformat d"
  using assms uuid4_ascii isoformat_ascii uuid4_length
  by (auto simp: plain_row_def valid_analyst_event_def analyst_values_def length_isoformat)

lemma archive_manifest_flat:
  assumes "list_all plain_row rows" "rows \<noteq> []" "length raw \<le> MAX_ARCHIVE_EVENTS_BYTES" "length rows \<le> length raw"
  shows "flat (archive_manifest (isoformat d) raw rows)"
proof -
  have r: "plain_row (hd rows)" "plain_row (last rows)" using assms(1,2) by (simp_all add: list_all_iff)
  have n: "length (dec_int (int (length raw))) \<le> 9" "length (dec_int (int (length rows))) \<le> 9"
    using size_text assms(3,4) by simp_all
  have c: "list_all ascii (map fst (archive_manifest [] [] []))" "list_all ascii [AUDIT_ARCHIVE_SCHEMA, AUDIT_ARCHIVE_EVENTS_FILENAME]"
    "distinct (map fst (archive_manifest [] [] []))"
    by (simp_all add: archive_manifest_def flat_ascii_Cons)
  have h: "ascii (sha256_hex raw)" using sha256_ascii [OF sha256_hex_shape] .
  show ?thesis
    using c plain_row_texts(1,2) [OF r(1)] plain_row_texts(1,2) [OF r(2)] n h isoformat_ascii [of d]
    by (simp add: flat_def archive_manifest_def)
qed

lemma join_sep_bound: "(\<And>t. t \<in> set ts \<Longrightarrow> length t \<le> k) \<Longrightarrow> length (join sep ts) \<le> length ts * (k + length sep)"
  by (induction ts) (fastforce simp: join_Cons)+

lemma archive_manifest_length:
  assumes "list_all plain_row rows" "rows \<noteq> []" "length raw \<le> MAX_ARCHIVE_EVENTS_BYTES" "length rows \<le> length raw"
  shows "length (manifest_text (archive_manifest (isoformat d) raw rows)) \<le> MAX_MANIFEST_BYTES"
proof -
  let ?m = "archive_manifest (isoformat d) raw rows"
  have r: "plain_row (hd rows)" "plain_row (last rows)" using assms(1,2) by (simp_all add: list_all_iff)
  have n: "length (dec_int (int (length raw))) \<le> 9" "length (dec_int (int (length rows))) \<le> 9"
    using size_text assms(3,4) by simp_all
  have h: "length (sha256_hex raw) = 64" using sha256_hex_shape [of raw] by (simp add: is_sha256_def)
  have d: "length (isoformat d) \<le> 32" by (simp add: length_isoformat)
  have m: "length t \<le> 600" if t: "t \<in> set (flat_members (sort_key fst ?m))" for t
  proof -
    obtain k v where kv: "(k, v) \<in> set ?m" "t = quoted k @ '': '' @ json_dumps_plain (\<lambda>_. []) v"
      using t by (auto simp: flat_members_def)
    have "length (quoted k) \<le> 150" using kv(1) quoted_length [of k] by (auto simp: archive_manifest_def)
    moreover have "length (json_dumps_plain (\<lambda>_. []) v) \<le> 390"
      using kv(1) plain_row_texts(3,4) [OF r(1)] plain_row_texts(3,4) [OF r(2)] n h d
        quoted_length [of "isoformat d"] quoted_length [of "sha256_hex raw"]
        quoted_length [of "aa_audit_event_id (hd rows)"] quoted_length [of "aa_audit_event_id (last rows)"]
        quoted_length [of "aa_event_time (hd rows)"] quoted_length [of "aa_event_time (last rows)"]
        quoted_length [of AUDIT_ARCHIVE_SCHEMA] quoted_length [of AUDIT_ARCHIVE_EVENTS_FILENAME]
      by (auto simp: archive_manifest_def)
    ultimately show ?thesis by (simp add: kv(2))
  qed
  have "length (join ('','' @ newline # ''  '') (flat_members (sort_key fst ?m))) \<le> 10 * 604"
    using join_sep_bound [of "flat_members (sort_key fst ?m)" 600 "'','' @ newline # ''  ''", OF m]
    by (simp add: flat_members_def archive_manifest_def)
  then show ?thesis by (simp add: manifest_text_def dumps_flat_members MAX_MANIFEST_BYTES_def)
qed

section \<open>An exported archive\<close>

text \<open>The rows of a reachable audit table.\<close>

lemma exported_plain:
  assumes "db_events db = analyst_run capacity cs" "list_all (\<lambda>r. opt_ok ascii (aa_request_route r)) (db_events db)"
    "select_archived up_to_audit_id (db_events db) = Inr rows" "rows \<noteq> []"
  shows "list_all plain_row rows" "sorted_wrt (<) (map analyst_order rows)"
proof -
  obtain es where es: "db_events db = map analyst_values es" "list_all valid_analyst_event es"
    "distinct (map aa_audit_event_id es)"
    using assms(1) by (metis analyst_run_log)
  let ?p = "up_to (analyst_order (last rows))"
  have rows: "rows = sort_key analyst_order (select_where ?p (db_events db))" by (rule selected_rows [OF assms(3,4)])
  have "set rows \<subseteq> set (db_events db)" by (subst rows) (auto simp: select_where_def)
  then show "list_all plain_row rows"
    using es(1,2) assms(2) by (fastforce simp: list_all_iff plain_row_def)
  have "distinct (map aa_audit_event_id (db_events db))" unfolding es(1) analyst_values_ids by (rule es(3))
  then have "distinct (map (snd \<circ> analyst_order) (db_events db))" by (simp add: analyst_order_def comp_def)
  then have "distinct (map analyst_order (db_events db))" by (metis distinct_map map_map)
  then have "distinct (map analyst_order rows)"
    by (subst rows) (auto simp: select_where_def distinct_map intro: inj_on_subset)
  moreover have "sorted (map analyst_order rows)" by (subst rows) simp
  ultimately show "sorted_wrt (<) (map analyst_order rows)" by (simp add: strict_sorted_iff)
qed

text \<open>The archive of rows: its two files.\<close>

definition archive_of :: "string \<Rightarrow> analyst_audit_row list \<Rightarrow> archive_dir \<Rightarrow> archive_dir" where
  "archive_of now rows dir = (let raw = concat (map event_line rows) in
     dir\<lparr>dr_events := Some \<lparr>af_bytes = raw, af_private = True\<rparr>,
       dr_manifest := Some \<lparr>af_bytes = manifest_text (archive_manifest now raw rows), af_private = True\<rparr>\<rparr>)"

lemma archive_verifies:
  assumes "list_all plain_row rows" "sorted_wrt (<) (map analyst_order rows)" "rows \<noteq> []"
    "length (concat (map event_line rows)) \<le> MAX_ARCHIVE_EVENTS_BYTES" "dr_access dir False = None" "dr_others dir = []"
    "\<And>d. valid_datetime d \<Longrightarrow> parse_time (isoformat d) \<noteq> None"
  shows "verify_security_audit_archive fparse parse_time (archive_of (isoformat d) rows dir) =
    Inr (norm_members (archive_manifest (isoformat d) (concat (map event_line rows)) rows))"
proof -
  let ?raw = "concat (map event_line rows)"
  let ?a = "archive_manifest (isoformat d) ?raw rows"
  have f: "flat ?a" by (rule archive_manifest_flat [OF assms(1,3,4) rows_le_bytes])
  have ws: "list_all json_ws [newline]" "list_all json_ws (newline # ''  '')" by (simp_all add: json_ws_def)
  have "?a \<noteq> []" by (simp add: archive_manifest_def)
  then have "decode_json fparse (manifest_text ?a) = Some (JObj (norm_members ?a))"
    unfolding manifest_text_def by (intro decode_flat f ws)
  moreover have "length (manifest_text ?a) \<le> MAX_MANIFEST_BYTES"
    by (rule archive_manifest_length [OF assms(1,3,4) rows_le_bytes])
  moreover have "obj_get (norm_members ?a) ''schema'' = Some (JStr AUDIT_ARCHIVE_SCHEMA)"
    using norm_members_get [of ?a "''schema''"] f by (simp add: flat_def archive_member)
  ultimately have m: "read_manifest fparse \<lparr>af_bytes = manifest_text ?a, af_private = True\<rparr> = Inr (norm_members ?a)"
    by (simp add: read_manifest_def read_private_def)
  have events: "read_events fparse parse_time None (map (\<lambda>r. dumps_flat [] '' '' [] (event_dict r)) rows) =
      Some (map (\<lambda>r. norm_members (event_dict r)) rows)"
    by (rule read_events_rows [OF assms(1) _ assms(2)])
      (use assms(1,7) plain_row_texts(5) in \<open>fastforce simp: list_all_iff\<close>)+
  have bounds: "check_bounds (norm_members ?a) (map (\<lambda>r. norm_members (event_dict r)) rows) = None"
  proof -
    have "flat (event_dict (hd rows))" "flat (event_dict (last rows))"
      using assms(1,3) event_dict_flat by (simp_all add: list_all_iff)
    then show ?thesis using assms(3)
      by (simp add: check_bounds_def flat_norm(2) [OF f] flat_norm(2) archive_member event_dict_member hd_map last_map)
  qed
  have "verify_events fparse parse_time (norm_members ?a) ?raw = Inr (norm_members ?a)"
    using events bounds
    by (simp add: verify_events_def flat_norm(2) [OF f] archive_member events_split [OF assms(1)] equals_int_def Let_def)
  then show ?thesis
    using m assms(4-6) by (simp add: verify_security_audit_archive_def archive_of_def read_private_def Let_def)
qed

lemma archive_read_again:
  assumes "list_all plain_row rows" "length (concat (map event_line rows)) \<le> MAX_ARCHIVE_EVENTS_BYTES" "dr_access dir False = None"
  shows "read_archived fparse (archive_of now rows dir) = Inr (map (\<lambda>r. JObj (norm_members (event_dict r))) rows)"
proof -
  have "decode_json fparse (dumps_flat [] '' '' [] (event_dict r)) = Some (JObj (norm_members (event_dict r)))"
    if "r \<in> set rows" for r
    using decode_flat [OF event_dict_flat, of r "[]" "'' ''" "[]" "[]" fparse] assms(1) that
    by (simp add: list_all_iff event_dict_def AUDIT_EVENT_COLUMNS_def json_ws_def)
  then have "mapE (\<lambda>line. case decode_json fparse line of None \<Rightarrow> Inl RE_unreadable | Some v \<Rightarrow> Inr v)
      (map (\<lambda>r. dumps_flat [] '' '' [] (event_dict r)) rows) = Inr (map (\<lambda>r. JObj (norm_members (event_dict r))) rows)"
    by (induction rows) auto
  then show ?thesis
    using assms(2,3) by (simp add: read_archived_def archive_of_def Let_def events_split [OF assms(1)])
qed

lemma same_event_norm:
  assumes "plain_row r"
  shows "same_event (JObj (norm_members (event_dict r))) r"
  by (simp add: same_event_def flat_norm(1) [OF event_dict_flat [OF assms]])

lemma archive_prunes:
  assumes "list_all plain_row rows" "sorted_wrt (<) (map analyst_order rows)" "rows \<noteq> []"
    "rows = sort_key analyst_order (select_where (up_to (analyst_order (last rows))) t)"
    "list_all (\<lambda>r. \<not> up_to (analyst_order (last rows)) r) later" "flat (archive_manifest now raw rows)"
    "verify_audit_db_schema db = None" "db_events db = t @ later"
  shows "\<exists>res. prune_body (norm_members (archive_manifest now raw rows)) (map (\<lambda>r. JObj (norm_members (event_dict r))) rows) db =
      Inr (select_where (\<lambda>r. \<not> up_to (analyst_order (last rows)) r) (t @ later), res) \<and>
    pd_rows_count res = length rows \<and> pd_archive_sha256 res = sha256_hex raw"
proof -
  let ?k = "analyst_order (last rows)"
  have sel: "select_where (up_to ?k) (t @ later) = select_where (up_to ?k) t"
    using assms(5) by (simp add: select_where_def list_all_iff filter_empty_conv)
  have n: "length (select_where (up_to ?k) (t @ later)) = length rows"
    using arg_cong [OF assms(4), of length] by (simp add: sel)
  have "filter (\<lambda>r. analyst_order r \<le> ?k) (sort_key analyst_order (t @ later)) = take (length rows) (sort_key analyst_order (t @ later))"
    by (rule sorted_prefix(1)) (use n in \<open>simp_all add: filter_sort select_where_def up_to_order\<close>)
  moreover have "filter (\<lambda>r. analyst_order r \<le> ?k) (sort_key analyst_order (t @ later)) = rows"
    using assms(4) sel by (simp add: filter_sort select_where_def up_to_order)
  ultimately have tk: "take (length rows) (sort_key analyst_order (t @ later)) = rows" by simp
  have same: "list_all2 same_event (map (\<lambda>r. JObj (norm_members (event_dict r))) rows) rows"
    using assms(1) same_event_norm by (simp add: list_all2_conv_all_nth list_all_length)
  have k: "(aa_event_time (last rows), aa_audit_event_id (last rows)) = ?k" by (simp add: analyst_order_def)
  show ?thesis
    unfolding prune_body_def Let_def assms(7,8) option.case length_map tk flat_norm(2) [OF assms(6)] archive_member
    using n same by (simp add: text_of_def k)
qed

lemma export_succeeds:
  assumes "db_path db = None" "dr_access dir True = None" "dr_events dir = None" "dr_manifest dir = None"
    "verify_audit_db_schema db = None" "select_archived up_to_audit_id (db_events db) = Inr rows" "rows \<noteq> []"
    "length (concat (map event_line rows)) \<le> MAX_ARCHIVE_EVENTS_BYTES"
  shows "export_security_audit_archive No_fault (Written, Written) now db dir up_to_audit_id =
    (archive_of now rows dir, Inr (archive_manifest now (concat (map event_line rows)) rows))"
  using assms
  by (cases rows) (auto simp: export_security_audit_archive_def write_archive_def write_file_def archive_of_def Let_def)

text \<open>C24: An exported archive is good for what it is made for.  Let an audit result from any run of the analyst
  operations, with ASCII request routes, and let an export of it succeed into a directory that is
  accessible and holds no other file.  Then its two files verify, and pruning with them, also after rows
  were appended that are ordered after the last exported one, deletes exactly the exported rows, the
  first ones in the audit's order, and reports their number and the digest of the exported events.
  (Another file in the directory makes verification fail as incomplete, and a row appended with an earlier
  time makes pruning fail on the prefix.)\<close>

theorem archive_cycle:
  assumes "export_security_audit_archive fault writes (isoformat d) db dir up_to_audit_id = (dir', Inr manifest)"
    "db_events db = analyst_run capacity cs" "list_all (\<lambda>r. opt_ok ascii (aa_request_route r)) (db_events db)"
    "dr_access dir False = None" "dr_others dir = []" "\<And>t. valid_datetime t \<Longrightarrow> parse_time (isoformat t) \<noteq> None"
    "select_archived up_to_audit_id (db_events db) = Inr rows"
    "list_all (\<lambda>r. analyst_order (last rows) < analyst_order r) later"
  shows "verify_security_audit_archive fparse parse_time dir' = Inr (norm_members manifest) \<and>
    (case prune_archived_security_audit fparse parse_time No_fault (db\<lparr>db_events := db_events db @ later\<rparr>) dir' dir' of
       (db', r) \<Rightarrow> \<exists>res. r = Inr res \<and> pd_rows_count res = length rows \<and>
         pd_archive_sha256 res = sha256_hex (concat (map event_line rows)) \<and>
         db_events db' = filter (\<lambda>r. analyst_order (last rows) < analyst_order r) (db_events db @ later))"
proof -
  obtain rows' where e: "db_path db = None" "verify_audit_db_schema db = None" "rows' \<noteq> []"
    "select_archived up_to_audit_id (db_events db) = Inr rows'"
    "length (concat (map event_line rows')) \<le> MAX_ARCHIVE_EVENTS_BYTES"
    "manifest = archive_manifest (isoformat d) (concat (map event_line rows')) rows'"
    "dir' = archive_of (isoformat d) rows' dir"
    using export_Inr [OF assms(1)] unfolding archive_of_def Let_def by metis
  have rr: "rows' = rows" using e(4) assms(7) by simp
  note p = exported_plain [OF assms(2,3) e(4,3)]
  have v: "verify_security_audit_archive fparse parse_time dir' = Inr (norm_members manifest)"
    unfolding e(6,7) by (rule archive_verifies [OF p e(3,5) assms(4,5)]) (rule assms(6))
  have again: "read_archived fparse dir' = Inr (map (\<lambda>r. JObj (norm_members (event_dict r))) rows')"
    unfolding e(7) by (rule archive_read_again [OF p(1) e(5) assms(4)])
  have f: "flat manifest" unfolding e(6) by (rule archive_manifest_flat [OF p(1) e(3,5) rows_le_bytes])
  have later: "list_all (\<lambda>r. \<not> up_to (analyst_order (last rows')) r) later"
    using assms(8) by (simp add: rr up_to_order not_le list_all_iff)
  let ?db = "db\<lparr>db_events := db_events db @ later\<rparr>"
  have "verify_audit_db_schema ?db = verify_audit_db_schema db" by (simp add: verify_audit_db_schema_def)
  then have schema: "verify_audit_db_schema ?db = None" using e(2) by simp
  obtain res where res: "prune_body (norm_members manifest) (map (\<lambda>r. JObj (norm_members (event_dict r))) rows') ?db =
      Inr (select_where (\<lambda>r. \<not> up_to (analyst_order (last rows')) r) (db_events db @ later), res)"
    "pd_rows_count res = length rows'" "pd_archive_sha256 res = sha256_hex (concat (map event_line rows'))"
    using archive_prunes [OF p e(3) selected_rows [OF e(4,3)] later f [unfolded e(6)] schema] unfolding e(6) by auto
  have n: "equals_int (member (norm_members manifest) ''row_count'') (int (length rows'))"
    unfolding flat_norm(2) [OF f] by (simp add: e(6) archive_member equals_int_def)
  show ?thesis
    using v again res n e(1) by (simp add: prune_archived_security_audit_def rr select_where_def up_to_order not_le)
qed

text \<open>
  An archive without events, whose manifest says so, is not refused with a code of the module: the
  assertion fails, and the exception is of another class.
\<close>

lemma empty_archive_unclassified:
  assumes "equals_int (member manifest ''size_bytes'') 0" "equals_int (member manifest ''row_count'') 0"
    "member manifest ''sha256_digest'' = JStr (sha256_hex [])"
  shows "verify_events fparse parse_time manifest [] = Inl RE_other"
  using assms by (simp add: verify_events_def check_bounds_def)

section \<open>A sample\<close>

definition sample_analyst_event :: "string \<Rightarrow> nat \<Rightarrow> analyst_audit_event" where
  "sample_analyst_event i s = \<lparr>aa_schema_version = ANALYST_AUDIT_SCHEMA, aa_audit_event_id = i,
     aa_event_time = Datetime 2026 9 12 12 0 s 0, aa_correlation_id = None, aa_event_type = ''request_admitted'',
     aa_processing_stage = ''admission'', aa_outcome = ''admitted'', aa_reason_code = ''request_admitted'',
     aa_actor_id = Some ''analyst-1'', aa_credential_sha256 = None, aa_request_route = Some ''/alerts'',
     aa_body_sha256 = None\<rparr>"

definition sample_appends :: "(sqlite_fault \<times> analyst_audit_event) list" where
  "sample_appends = [(No_fault, sample_analyst_event ''aaaaaaaa-aaaa-4aaa-8aaa-aaaaaaaaaaaa'' 5),
     (No_fault, sample_analyst_event ''bbbbbbbb-bbbb-4bbb-8bbb-bbbbbbbbbbbb'' 3)]"

definition sample_audit_db :: audit_db where
  "sample_audit_db = \<lparr>db_path = None, db_quick_check = Some ''ok'', db_user_version = 1,
     db_metadata = [(''schema_identity'', ANALYST_AUDIT_SCHEMA_IDENTITY)], db_events = analyst_run 10 sample_appends\<rparr>"

definition sample_dir :: archive_dir where
  "sample_dir = \<lparr>dr_access = (\<lambda>_. None), dr_events = None, dr_manifest = None, dr_others = []\<rparr>"

definition sample_rows :: "analyst_audit_row list" where
  "sample_rows = [analyst_values (sample_analyst_event ''bbbbbbbb-bbbb-4bbb-8bbb-bbbbbbbbbbbb'' 3)]"

definition sample_later :: "analyst_audit_row list" where
  "sample_later = [analyst_values (sample_analyst_event ''cccccccc-cccc-4ccc-8ccc-cccccccccccc'' 9)]"

lemma sample_archive:
  "select_archived (Some ''bbbbbbbb-bbbb-4bbb-8bbb-bbbbbbbbbbbb'') (analyst_run 10 sample_appends) = Inr sample_rows"
  "list_all (\<lambda>r. opt_ok ascii (aa_request_route r)) (analyst_run 10 sample_appends)"
  "length (concat (map event_line sample_rows)) \<le> 1000"
  "list_all (\<lambda>r. analyst_order (last sample_rows) < analyst_order r) sample_later"
  by code_simp+

lemma archive_cycle_witness:
  "\<exists>dir manifest. export_security_audit_archive No_fault (Written, Written) (isoformat (Datetime 2026 9 13 0 0 0 0))
      sample_audit_db sample_dir (Some ''bbbbbbbb-bbbb-4bbb-8bbb-bbbbbbbbbbbb'') = (dir, Inr manifest) \<and>
    verify_security_audit_archive (\<lambda>_. Fin 0) fromisoformat_utc dir = Inr (norm_members manifest)"
proof -
  have schema: "verify_audit_db_schema sample_audit_db = None"
    by (simp add: verify_audit_db_schema_def sample_audit_db_def)
  have f: "db_path sample_audit_db = None" "db_events sample_audit_db = analyst_run 10 sample_appends"
    "dr_access sample_dir = (\<lambda>_. None)" "dr_events sample_dir = None" "dr_manifest sample_dir = None"
    "dr_others sample_dir = []"
    by (simp_all add: sample_audit_db_def sample_dir_def)
  have e: "export_security_audit_archive No_fault (Written, Written) (isoformat (Datetime 2026 9 13 0 0 0 0))
      sample_audit_db sample_dir (Some ''bbbbbbbb-bbbb-4bbb-8bbb-bbbbbbbbbbbb'') =
      (archive_of (isoformat (Datetime 2026 9 13 0 0 0 0)) sample_rows sample_dir,
       Inr (archive_manifest (isoformat (Datetime 2026 9 13 0 0 0 0)) (concat (map event_line sample_rows)) sample_rows))"
    by (rule export_succeeds) (use f schema sample_archive in \<open>simp_all add: MAX_ARCHIVE_EVENTS_BYTES_def\<close>,
      simp add: sample_rows_def)
  have t: "valid_datetime t \<Longrightarrow> fromisoformat_utc (isoformat t) \<noteq> None" for t by (simp add: fromisoformat_isoformat)
  show ?thesis
    using archive_cycle [where parse_time = fromisoformat_utc and fparse = "\<lambda>_. Fin 0" and later = sample_later
        and rows = sample_rows, OF e f(2) _ _ f(6) t] f(2,3) sample_archive e by auto
qed

end
