(* ===== verification/AddressGuard.thy ===== *)
theory AddressGuard
  imports Json Digest
begin

unbundle bit_operations_syntax

text \<open>
  The address guard of outgoing indicator lookups, \<^verbatim>\<open>correlation/misp_client.py\<close>, and the
  private-address test of \<^verbatim>\<open>soar/n8n_thehive_misp_stack.py\<close>, with what they use of Python's
  \<^verbatim>\<open>ipaddress\<close> module (3.11, the version the project fixes): the two parsers and the address
  properties, on the lists of networks of that module.  An address is its integer; the parsers keep
  it below $2^{32}$ and $2^{128}$.
\<close>

section \<open>The address parsers\<close>

datatype ip_value = IPv4 nat | IPv6 nat

text \<open>\<^verbatim>\<open>s.split(c)\<close> for one character.\<close>

fun split_char :: "char \<Rightarrow> string \<Rightarrow> string list" where
  "split_char sep [] = [[]]"
| "split_char sep (c # s) =
     (if c = sep then [] # split_char sep s
      else (case split_char sep s of [] \<Rightarrow> [[c]] | w # ws \<Rightarrow> (c # w) # ws))"

definition parse_octet :: "string \<Rightarrow> nat option" where
  "parse_octet s =
     (if s = [] \<or> \<not> list_all is_digit s \<or> length s > 3 \<or> (s \<noteq> ''0'' \<and> hd s = CHR ''0'') then None
      else let n = nat_of_dec s in if n > 255 then None else Some n)"

definition big_endian :: "nat \<Rightarrow> nat list \<Rightarrow> nat" where
  "big_endian base = foldl (\<lambda>n d. base * n + d) 0"

definition ipv4_of_string :: "string \<Rightarrow> nat option" where
  "ipv4_of_string s =
     (if CHR ''/'' \<in> set s \<or> s = [] then None
      else let octets = split_char CHR ''.'' s in
      if length octets \<noteq> 4 then None
      else map_option (big_endian 256) (those (map parse_octet octets)))"

definition parse_hextet :: "string \<Rightarrow> nat option" where
  "parse_hextet s =
     (if \<not> list_all (\<lambda>c. hex_val c \<noteq> None) s \<or> length s > 4 \<or> s = [] then None
      else Some (big_endian 16 (map (\<lambda>c. the (hex_val c)) s)))"

text \<open>\<^verbatim>\<open>'%x' % n\<close>.\<close>

fun hex_digits :: "nat \<Rightarrow> string" where
  "hex_digits n = (if n < 16 then [hex_digit n] else hex_digits (n div 16) @ [hex_digit (n mod 16)])"

declare hex_digits.simps [simp del]

text \<open>The last part is replaced by two hexadecimal ones when it is written as an IPv4 address.\<close>

definition expand_ipv4_suffix :: "string list \<Rightarrow> string list option" where
  "expand_ipv4_suffix parts =
     (if CHR ''.'' \<in> set (last parts) then
        map_option (\<lambda>n. butlast parts @ [hex_digits (drop_bit 16 n AND 0xFFFF), hex_digits (n AND 0xFFFF)])
          (ipv4_of_string (last parts))
      else Some parts)"

text \<open>
  How many parts stand before and after \<^verbatim>\<open>::\<close> and how many it stands for.  \<open>skips\<close> are
  the empty parts strictly inside.
\<close>

definition part_layout :: "string list \<Rightarrow> (nat \<times> nat \<times> nat) option" where
  "part_layout parts =
     (let skips = filter (\<lambda>i. parts ! i = []) [1..<length parts - 1] in
      case skips of
        [] \<Rightarrow> if length parts \<noteq> 8 \<or> hd parts = [] \<or> last parts = [] then None else Some (8, 0, 0)
      | i # more_skips \<Rightarrow>
          if more_skips \<noteq> [] then None
          else let lo = length parts - i - 1;
                   hi' = (if hd parts = [] then i - 1 else i);
                   lo' = (if last parts = [] then lo - 1 else lo)
          in if (hd parts = [] \<and> hi' \<noteq> 0) \<or> (last parts = [] \<and> lo' \<noteq> 0) \<or> hi' + lo' \<ge> 8 then None
             else Some (hi', lo', 8 - (hi' + lo')))"

definition ipv6_int_of_string :: "string \<Rightarrow> nat option" where
  "ipv6_int_of_string s =
     (if s = [] then None
      else let parts0 = split_char CHR '':'' s in
      if length parts0 < 3 then None
      else case expand_ipv4_suffix parts0 of None \<Rightarrow> None
      | Some parts \<Rightarrow>
         if length parts > 9 then None
         else case part_layout parts of None \<Rightarrow> None
         | Some (hi, lo, skipped) \<Rightarrow>
            map_option (big_endian 65536)
              (those (map parse_hextet (take hi parts) @ replicate skipped (Some 0)
                      @ map parse_hextet (drop (length parts - lo) parts))))"

text \<open>\<^verbatim>\<open>IPv6Address(s)\<close>: a zone after \<^verbatim>\<open>%\<close> must not be empty or hold a second \<^verbatim>\<open>%\<close>.\<close>

definition ipv6_of_string :: "string \<Rightarrow> nat option" where
  "ipv6_of_string s =
     (if CHR ''/'' \<in> set s then None
      else let addr = takeWhile (\<lambda>c. c \<noteq> CHR ''%'') s; rest = drop (length addr) s in
      if rest \<noteq> [] \<and> (tl rest = [] \<or> CHR ''%'' \<in> set (tl rest)) then None
      else ipv6_int_of_string addr)"

definition ip_address :: "string \<Rightarrow> ip_value option" where
  "ip_address s = (case ipv4_of_string s of Some n \<Rightarrow> Some (IPv4 n)
     | None \<Rightarrow> map_option IPv6 (ipv6_of_string s))"

section \<open>Address properties\<close>

text \<open>\<open>in_network w ip (base, len)\<close>: \<^verbatim>\<open>ip & netmask == network_address\<close> at width \<open>w\<close>.\<close>

definition in_network :: "nat \<Rightarrow> nat \<Rightarrow> nat \<times> nat \<Rightarrow> bool" where
  "in_network w ip = (\<lambda>(base, len). ip AND (2 ^ w - 2 ^ (w - len)) = base)"

definition quad :: "nat \<Rightarrow> nat \<Rightarrow> nat \<Rightarrow> nat \<Rightarrow> nat" where
  "quad a b c d = big_endian 256 [a, b, c, d]"

definition private_networks4 :: "(nat \<times> nat) list" where
  "private_networks4 = [(quad 0 0 0 0, 8), (quad 10 0 0 0, 8), (quad 127 0 0 0, 8), (quad 169 254 0 0, 16),
     (quad 172 16 0 0, 12), (quad 192 0 0 0, 24), (quad 192 0 0 170, 31), (quad 192 0 2 0, 24),
     (quad 192 168 0 0, 16), (quad 198 18 0 0, 15), (quad 198 51 100 0, 24), (quad 203 0 113 0, 24),
     (quad 240 0 0 0, 4), (quad 255 255 255 255, 32)]"

definition private_exceptions4 :: "(nat \<times> nat) list" where
  "private_exceptions4 = [(quad 192 0 0 9, 32), (quad 192 0 0 10, 32)]"

text \<open>A network whose first hextets are given, the others zero.\<close>

definition net6 :: "nat list \<Rightarrow> nat \<Rightarrow> nat \<times> nat" where
  "net6 hs len = (big_endian 65536 (hs @ replicate (8 - length hs) 0), len)"

definition private_networks6 :: "(nat \<times> nat) list" where
  "private_networks6 = [net6 [0, 0, 0, 0, 0, 0, 0, 1] 128, net6 [] 128, net6 [0, 0, 0, 0, 0, 0xFFFF] 96,
     net6 [0x64, 0xFF9B, 1] 48, net6 [0x100] 64, net6 [0x2001] 23, net6 [0x2001, 0xDB8] 32,
     net6 [0x2002] 16, net6 [0xFC00] 7, net6 [0xFE80] 10]"

definition private_exceptions6 :: "(nat \<times> nat) list" where
  "private_exceptions6 = [net6 [0x2001, 1, 0, 0, 0, 0, 0, 1] 128, net6 [0x2001, 1, 0, 0, 0, 0, 0, 2] 128,
     net6 [0x2001, 3] 32, net6 [0x2001, 4, 0x112] 48, net6 [0x2001, 0x20] 28, net6 [0x2001, 0x30] 28]"

definition reserved_networks6 :: "(nat \<times> nat) list" where
  "reserved_networks6 = [net6 [] 8, net6 [0x100] 8, net6 [0x200] 7, net6 [0x400] 6, net6 [0x800] 5,
     net6 [0x1000] 4, net6 [0x4000] 3, net6 [0x6000] 3, net6 [0x8000] 3, net6 [0xA000] 3,
     net6 [0xC000] 3, net6 [0xE000] 4, net6 [0xF000] 5, net6 [0xF800] 6, net6 [0xFE00] 9]"

definition in_any :: "nat \<Rightarrow> nat \<Rightarrow> (nat \<times> nat) list \<Rightarrow> bool" where
  "in_any w ip nets = list_ex (in_network w ip) nets"

definition ipv4_mapped :: "ip_value \<Rightarrow> ip_value option" where
  "ipv4_mapped ip = (case ip of IPv4 _ \<Rightarrow> None
     | IPv6 n \<Rightarrow> if drop_bit 32 n = 0xFFFF then Some (IPv4 (n AND 0xFFFFFFFF)) else None)"

definition is_private4 :: "nat \<Rightarrow> bool" where
  "is_private4 n \<longleftrightarrow> in_any 32 n private_networks4 \<and> \<not> in_any 32 n private_exceptions4"

definition is_private :: "ip_value \<Rightarrow> bool" where
  "is_private ip \<longleftrightarrow> (case ip of IPv4 n \<Rightarrow> is_private4 n
     | IPv6 n \<Rightarrow> (case ipv4_mapped ip of
          Some (IPv4 m) \<Rightarrow> is_private4 m
        | _ \<Rightarrow> in_any 128 n private_networks6 \<and> \<not> in_any 128 n private_exceptions6))"

definition is_global :: "ip_value \<Rightarrow> bool" where
  "is_global ip \<longleftrightarrow> (case ip of IPv4 n \<Rightarrow> \<not> in_network 32 n (quad 100 64 0 0, 10) \<and> \<not> is_private ip
     | IPv6 n \<Rightarrow> \<not> is_private ip)"

definition is_loopback :: "ip_value \<Rightarrow> bool" where
  "is_loopback ip \<longleftrightarrow> (case ip of IPv4 n \<Rightarrow> in_network 32 n (quad 127 0 0 0, 8) | IPv6 n \<Rightarrow> n = 1)"

definition is_link_local :: "ip_value \<Rightarrow> bool" where
  "is_link_local ip \<longleftrightarrow> (case ip of IPv4 n \<Rightarrow> in_network 32 n (quad 169 254 0 0, 16)
     | IPv6 n \<Rightarrow> in_network 128 n (net6 [0xFE80] 10))"

definition is_multicast :: "ip_value \<Rightarrow> bool" where
  "is_multicast ip \<longleftrightarrow> (case ip of IPv4 n \<Rightarrow> in_network 32 n (quad 224 0 0 0, 4)
     | IPv6 n \<Rightarrow> in_network 128 n (net6 [0xFF00] 8))"

definition is_reserved :: "ip_value \<Rightarrow> bool" where
  "is_reserved ip \<longleftrightarrow> (case ip of IPv4 n \<Rightarrow> in_network 32 n (quad 240 0 0 0, 4)
     | IPv6 n \<Rightarrow> in_any 128 n reserved_networks6)"

definition is_unspecified :: "ip_value \<Rightarrow> bool" where
  "is_unspecified ip \<longleftrightarrow> (case ip of IPv4 n \<Rightarrow> n = 0 | IPv6 n \<Rightarrow> n = 0)"

section \<open>The lookup guard\<close>

text \<open>The regular expressions, on a text without surrounding white space.\<close>

definition integer_only :: "string \<Rightarrow> bool" where
  "integer_only s \<longleftrightarrow> s \<noteq> [] \<and> list_all is_digit s"

definition hex_encoded :: "string \<Rightarrow> bool" where
  "hex_encoded s \<longleftrightarrow> starts_with ''0x'' s \<and> length s > 2 \<and> list_all (\<lambda>c. hex_val c \<noteq> None) (drop 2 s)"

definition is_octal :: "char \<Rightarrow> bool" where
  "is_octal c \<longleftrightarrow> char_in CHR ''0'' CHR ''7'' c"

definition octal_token :: "string \<Rightarrow> bool" where
  "octal_token s \<longleftrightarrow> starts_with ''0'' s \<and> length s > 1 \<and> list_all is_octal (drop 1 s)"

definition zero_then_octal :: "string \<Rightarrow> bool" where
  "zero_then_octal s \<longleftrightarrow> (case s of a # b # _ \<Rightarrow> a = CHR ''0'' \<and> is_octal b | _ \<Rightarrow> False)"

definition dotted_leading_zero :: "string \<Rightarrow> bool" where
  "dotted_leading_zero s \<longleftrightarrow> list_ex zero_then_octal (split_char CHR ''.'' s)"

definition evades_standard_formatting :: "string \<Rightarrow> bool" where
  "evades_standard_formatting s \<longleftrightarrow>
     starts_with ''['' s \<or> (s \<noteq> [] \<and> last s = CHR '']'') \<or>
     hex_encoded s \<or> integer_only s \<or> octal_token s \<or> dotted_leading_zero s"

definition looks_like_ip_attempt :: "string \<Rightarrow> bool" where
  "looks_like_ip_attempt s \<longleftrightarrow> py_lower s = ''localhost'' \<or>
     starts_with ''['' s \<or> (s \<noteq> [] \<and> last s = CHR '']'') \<or>
     hex_encoded s \<or> integer_only s \<or> octal_token s \<or> dotted_leading_zero s \<or>
     CHR ''.'' \<in> set s \<or> CHR '':'' \<in> set s"

definition subject_allowed :: "ip_value \<Rightarrow> bool" where
  "subject_allowed ip \<longleftrightarrow> \<not> (\<not> is_global ip \<or> is_private ip \<or> is_loopback ip \<or> is_link_local ip \<or>
     is_multicast ip \<or> is_reserved ip \<or> is_unspecified ip)"

definition external_lookup_allowed :: "string \<Rightarrow> bool" where
  "external_lookup_allowed raw_ip \<longleftrightarrow>
     (let t = py_strip raw_ip in
      if t = [] \<or> \<not> looks_like_ip_attempt t then False
      else if py_lower t = ''localhost'' \<or> evades_standard_formatting t then False
      else case ip_address t of None \<Rightarrow> False
      | Some ip \<Rightarrow> list_all subject_allowed
          (case ipv4_mapped ip of None \<Rightarrow> [ip] | Some mapped \<Rightarrow> [ip, mapped]))"

text \<open>\<^verbatim>\<open>private_ip_guard_response\<close>: the status and the payload.\<close>

definition private_ip_guard_response :: "string \<Rightarrow> nat \<times> json" where
  "private_ip_guard_response v =
     (let t = py_strip v;
          pass = JObj [(''private_ip_guard_triggered'', JBool False),
                       (''external_lookup_performed'', JBool False),
                       (''matched'', JBool False), (''value'', JStr t)]
      in if \<not> looks_like_ip_attempt t then (200, pass)
         else if external_lookup_allowed t then (200, pass)
         else (422, JObj [(''error'', JStr ''private_or_reserved_ip_rejected''),
                (''private_ip_guard_triggered'', JBool True),
                (''external_lookup_performed'', JBool False), (''value'', JStr t)]))"

section \<open>The private-address test of the response stack\<close>

definition rfc1918_and_ula :: "ip_value \<Rightarrow> bool" where
  "rfc1918_and_ula ip \<longleftrightarrow> (case ip of
       IPv4 n \<Rightarrow> in_any 32 n [(quad 10 0 0 0, 8), (quad 172 16 0 0, 12), (quad 192 168 0 0, 16)]
     | IPv6 n \<Rightarrow> in_network 128 n (net6 [0xFC00] 7))"

definition is_rfc1918_or_loopback_ip :: "string \<Rightarrow> bool" where
  "is_rfc1918_or_loopback_ip ip_str =
     (case ip_address (py_strip ip_str) of None \<Rightarrow> False
      | Some parsed0 \<Rightarrow>
         (let parsed = (case ipv4_mapped parsed0 of None \<Rightarrow> parsed0 | Some m \<Rightarrow> m) in
          is_loopback parsed \<or> is_link_local parsed \<or> rfc1918_and_ula parsed))"

end
