(* ===== verification/SoarStack.thy ===== *)
theory SoarStack
  imports AddressGuard SoarEngine
begin

text \<open>
  \<^verbatim>\<open>soar/n8n_thehive_misp_stack.py\<close>: the clients of the external systems.  A client call
  is a function of what it reads outside (clock, random identifiers, the answer of the server, the
  fault of its outbox connection) that returns the request it sent, if any, the outbox afterwards and
  the result.  The outbox database is a record of its three tables; a client without an outbox path
  has none.  The text formats of floats and \<^verbatim>\<open>str.upper\<close> are arguments.
\<close>

section \<open>Requests, answers and errors\<close>

record http_request =
  rq_url :: string
  rq_body :: string
  rq_headers :: "(string \<times> string) list"

text \<open>
  What \<^verbatim>\<open>urlopen\<close> and reading its answer give: a value, an exception of the listed classes (its
  class name and text), or any other exception.
\<close>

datatype 'a http_outcome = Answered 'a | Failed string string | Raised

definition transport_text :: "string \<Rightarrow> string \<Rightarrow> string" where
  "transport_text name message = name @ '': '' @ take 100 message"

datatype client_error = Ledger_error soar_error | Outbox_error | Unexpected_exception

section \<open>The outbox\<close>

record misp_row =
  mq_query_id :: string
  mq_indicator :: string
  mq_indicator_type :: string
  mq_matched :: int
  mq_threat_level :: string
  mq_tags_json :: string
  mq_private_ip_guard_triggered :: int
  mq_query_mode :: string
  mq_created_at_utc :: string

record case_row =
  cr_case_id :: string
  cr_title :: string
  cr_description :: string
  cr_severity :: int
  cr_tlp :: int
  cr_pap :: int
  cr_tags_json :: string
  cr_observables_json :: string
  cr_status :: string
  cr_created_at_utc :: string

record execution_row =
  ex_execution_id :: string
  ex_playbook_id :: string
  ex_candidate_id :: string
  ex_action_type :: string
  ex_target_entity :: string
  ex_idempotency_key :: string
  ex_signature_sha256 :: string
  ex_status :: string
  ex_payload_json :: string
  ex_created_at_utc :: string

record outbox =
  ob_queries :: "misp_row list"
  ob_cases :: "case_row list"
  ob_executions :: "execution_row list"

definition new_outbox :: outbox where
  "new_outbox = \<lparr>ob_queries = [], ob_cases = [], ob_executions = []\<rparr>"

text \<open>The three inserts; the identifier of a row is the primary key of its table.\<close>

definition insert_query :: "sqlite_fault \<Rightarrow> outbox option \<Rightarrow> misp_row \<Rightarrow> outbox option \<times> (client_error + unit)" where
  "insert_query fault ob row = (case ob of None \<Rightarrow> (ob, Inr ())
     | Some o' \<Rightarrow> if fault \<noteq> No_fault \<or> mq_query_id row \<in> set (map mq_query_id (ob_queries o'))
         then (ob, Inl Outbox_error)
         else (Some (o'\<lparr>ob_queries := ob_queries o' @ [row]\<rparr>), Inr ()))"

definition insert_case :: "sqlite_fault \<Rightarrow> outbox option \<Rightarrow> case_row \<Rightarrow> outbox option \<times> (client_error + unit)" where
  "insert_case fault ob row = (case ob of None \<Rightarrow> (ob, Inr ())
     | Some o' \<Rightarrow> if fault \<noteq> No_fault \<or> cr_case_id row \<in> set (map cr_case_id (ob_cases o'))
         then (ob, Inl Outbox_error)
         else (Some (o'\<lparr>ob_cases := ob_cases o' @ [row]\<rparr>), Inr ()))"

definition insert_execution ::
  "sqlite_fault \<Rightarrow> outbox option \<Rightarrow> execution_row \<Rightarrow> outbox option \<times> (client_error + unit)" where
  "insert_execution fault ob row = (case ob of None \<Rightarrow> (ob, Inr ())
     | Some o' \<Rightarrow> if fault \<noteq> No_fault \<or> ex_execution_id row \<in> set (map ex_execution_id (ob_executions o'))
         then (ob, Inl Outbox_error)
         else (Some (o'\<lparr>ob_executions := ob_executions o' @ [row]\<rparr>), Inr ()))"

section \<open>The MISP client\<close>

record misp_result =
  mi_indicator :: string
  mi_indicator_type :: string
  mi_matched :: bool
  mi_threat_level :: string
  mi_tags :: "json list"
  mi_event_id :: json
  mi_private_ip_guard_triggered :: bool
  mi_query_mode :: string
  mi_timestamp_utc :: string
  mi_transport_error :: "string option"

text \<open>\<^verbatim>\<open>p in s\<close> for strings, and \<^verbatim>\<open>str.isdigit\<close> (the superscripts 1, 2 and 3 are digits for it).\<close>

fun contains :: "string \<Rightarrow> string \<Rightarrow> bool" where
  "contains p [] = (p = [])"
| "contains p (c # s) = (starts_with p (c # s) \<or> contains p s)"

definition py_isdigit :: "string \<Rightarrow> bool" where
  "py_isdigit s \<longleftrightarrow> s \<noteq> [] \<and> list_all (\<lambda>c. is_digit c \<or> (of_char c :: nat) \<in> {178, 179, 185}) s"

definition address_attempt :: "string \<Rightarrow> string \<Rightarrow> bool" where
  "address_attempt clean_ind indicator_type \<longleftrightarrow>
     contains ''ip'' (py_lower indicator_type) \<or> py_lower clean_ind = ''localhost'' \<or>
     starts_with ''['' clean_ind \<or> starts_with ''0x'' (py_lower clean_ind) \<or> py_isdigit clean_ind \<or>
     CHR ''.'' \<in> set clean_ind \<or> CHR '':'' \<in> set clean_ind"

text \<open>
  The attributes of an answer: \<^verbatim>\<open>data.get("response", {}).get("Attribute", [])\<close>, their number, their tag
  names, and the first event identifier.  Where a value has no such method or length the result is
  absent (an \<^verbatim>\<open>AttributeError\<close> or \<^verbatim>\<open>TypeError\<close>, which is not among the classes caught).
\<close>

definition json_get :: "string \<Rightarrow> json \<Rightarrow> json \<Rightarrow> json option" where
  "json_get k dflt v = (case v of JObj kvs \<Rightarrow> Some (case map_of kvs k of None \<Rightarrow> dflt | Some x \<Rightarrow> x) | _ \<Rightarrow> None)"

definition json_items :: "json \<Rightarrow> json list option" where
  "json_items v = (case v of JArr xs \<Rightarrow> Some xs | JStr s \<Rightarrow> Some (map (\<lambda>c. JStr [c]) s)
     | JObj kvs \<Rightarrow> Some (map (\<lambda>(k, _). JStr k) kvs) | _ \<Rightarrow> None)"

definition attribute_tags :: "json \<Rightarrow> json list option" where
  "attribute_tags a = Option.bind (json_get ''Tag'' (JArr []) a) (\<lambda>ts.
     Option.bind (json_items ts) (\<lambda>xs. those (map (json_get ''name'' (JStr [])) xs)))"

definition read_attributes :: "json \<Rightarrow> (bool \<times> json list \<times> json) option" where
  "read_attributes data =
     Option.bind (json_get ''response'' (JObj []) data) (\<lambda>response.
     Option.bind (json_get ''Attribute'' (JArr []) response) (\<lambda>attrs.
     Option.bind (json_items attrs) (\<lambda>xs.
     Option.bind (those (map attribute_tags xs)) (\<lambda>tags.
       case xs of [] \<Rightarrow> Some (False, concat tags, JNull)
       | a # _ \<Rightarrow> map_option (\<lambda>e. (True, concat tags, e)) (json_get ''event_id'' JNull a)))))"

record misp_env =
  me_now :: datetime
  me_hex :: string
  me_answer :: "json http_outcome"
  me_fault :: sqlite_fault

record misp_config =
  mc_url :: string
  mc_api_key :: string

definition restsearch_request :: "misp_config \<Rightarrow> string \<Rightarrow> string \<Rightarrow> http_request" where
  "restsearch_request cfg clean_ind indicator_type =
     \<lparr>rq_url = mc_url cfg @ ''/attributes/restSearch'',
      rq_body = json_dumps_plain no_float (JObj [(''returnFormat'', JStr ''json''),
        (''value'', JStr clean_ind), (''type'', JStr indicator_type)]),
      rq_headers = [(''Authorization'', mc_api_key cfg), (''Accept'', ''application/json''),
        (''Content-Type'', ''application/json'')]\<rparr>"

definition record_query ::
  "(pyfloat \<Rightarrow> string) \<Rightarrow> misp_env \<Rightarrow> outbox option \<Rightarrow> misp_result \<Rightarrow> outbox option \<times> (client_error + misp_result)" where
  "record_query frepr env ob res =
     (case insert_query (me_fault env) ob
        \<lparr>mq_query_id = ''misp_q_'' @ take 12 (me_hex env), mq_indicator = mi_indicator res,
         mq_indicator_type = mi_indicator_type res, mq_matched = (if mi_matched res then 1 else 0),
         mq_threat_level = mi_threat_level res, mq_tags_json = json_dumps_plain frepr (JArr (mi_tags res)),
         mq_private_ip_guard_triggered = (if mi_private_ip_guard_triggered res then 1 else 0),
         mq_query_mode = mi_query_mode res, mq_created_at_utc = mi_timestamp_utc res\<rparr> of
        (ob', Inl e) \<Rightarrow> (ob', Inl e)
      | (ob', Inr _) \<Rightarrow> (ob', Inr res))"

definition query_indicator ::
  "(pyfloat \<Rightarrow> string) \<Rightarrow> misp_config \<Rightarrow> misp_env \<Rightarrow> outbox option \<Rightarrow> string \<Rightarrow> string \<Rightarrow>
   http_request option \<times> outbox option \<times> (client_error + misp_result)" where
  "query_indicator frepr cfg env ob indicator indicator_type =
     (let clean_ind = py_strip indicator;
          base = \<lparr>mi_indicator = clean_ind, mi_indicator_type = indicator_type, mi_matched = False,
            mi_threat_level = ''undefined'', mi_tags = [], mi_event_id = JNull,
            mi_private_ip_guard_triggered = False, mi_query_mode = ''offline_snapshot_unverified'',
            mi_timestamp_utc = isoformat (me_now env), mi_transport_error = None\<rparr>
      in if address_attempt clean_ind indicator_type \<and> \<not> external_lookup_allowed clean_ind then
           (None, record_query frepr env ob (base\<lparr>mi_tags := [JStr ''rfc1918_private_ip_suppressed''],
              mi_private_ip_guard_triggered := True, mi_query_mode := ''rfc1918_guard_suppressed''\<rparr>))
         else
           (Some (restsearch_request cfg clean_ind indicator_type),
            case me_answer env of
              Raised \<Rightarrow> (ob, Inl Unexpected_exception)
            | Failed name message \<Rightarrow>
                record_query frepr env ob (base\<lparr>mi_transport_error := Some (transport_text name message)\<rparr>)
            | Answered data \<Rightarrow> (case read_attributes data of
                None \<Rightarrow> (ob, Inl Unexpected_exception)
              | Some (matched, tags, event_id) \<Rightarrow>
                  record_query frepr env ob (base\<lparr>mi_matched := matched,
                    mi_threat_level := (if matched then ''high'' else ''undefined''), mi_tags := tags,
                    mi_event_id := event_id, mi_query_mode := ''rest_api''\<rparr>))))"

section \<open>The approval gate of both response clients\<close>

text \<open>
  Both clients refuse a record that is not approved or executed and a ledger that does not verify;
  \<open>refusal\<close> is the start of their message.  The record is the one the caller passes.
\<close>

definition response_gate :: "string \<Rightarrow> string \<Rightarrow> string \<Rightarrow> sqlite_fault \<Rightarrow> soar_db \<Rightarrow> soar_record \<Rightarrow>
   client_error + unit" where
  "response_gate state_refusal chain_refusal secret fault db r =
     (if sp_state r \<notin> {''approved'', ''executed_simulated''} then
        Inl (Ledger_error (Soar_state_transition_error (state_refusal @ sq (sp_playbook_id r) @ '' state is '' @
          sq (sp_state r) @ '' (must be approved or executed_simulated)'')))
      else case verify_audit_chain_integrity secret fault db None True of
        Inl e \<Rightarrow> Inl (Ledger_error e)
      | Inr (ok, msg) \<Rightarrow>
          if \<not> ok then Inl (Ledger_error (Soar_state_transition_error (chain_refusal @
            ''integrity failed verification ('' @ msg @ '')'')))
          else Inr ())"

section \<open>The n8n client\<close>

text \<open>\<^verbatim>\<open>__init__\<close>: the secret given, or else the environment's; blank or short ones are refused.\<close>

definition n8n_secret :: "string option \<Rightarrow> string option \<Rightarrow> string option" where
  "n8n_secret secret_key environ =
     (case (case secret_key of Some s \<Rightarrow> Some s | None \<Rightarrow> environ) of
        None \<Rightarrow> None
      | Some s \<Rightarrow> if s = [] \<or> length (py_strip s) < 16 then None else Some (py_strip s))"

record n8n_env =
  ne_hex :: string
  ne_now :: datetime
  ne_verify_fault :: sqlite_fault
  ne_status :: "nat http_outcome"
  ne_fault :: sqlite_fault

record n8n_call =
  nc_rf_confidence_pct :: pyfloat
  nc_queue_priority_rank :: int
  nc_incident_id :: "string option"
  nc_thehive_case_id :: "string option"
  nc_mitre_technique_id :: string

record n8n_receipt =
  nr_execution_id :: string
  nr_webhook_url :: string
  nr_playbook_id :: string
  nr_candidate_id :: string
  nr_action_type :: string
  nr_target_entity :: string
  nr_idempotency_key :: string
  nr_signature_sha256 :: string
  nr_status :: string
  nr_dispatched_at_utc :: string
  nr_payload :: json
  nr_transport_error :: "string option"

definition execution_id :: "n8n_env \<Rightarrow> string" where
  "execution_id env = ''exec_'' @ take 12 (ne_hex env)"

definition idempotency_key :: "soar_record \<Rightarrow> string" where
  "idempotency_key r = ''idem_'' @ sp_playbook_id r @ ''_'' @ dec_int (sp_version r)"

definition n8n_payload :: "n8n_env \<Rightarrow> n8n_call \<Rightarrow> soar_record \<Rightarrow> json" where
  "n8n_payload env call r = JObj [
     (''execution_id'', JStr (execution_id env)), (''playbook_id'', JStr (sp_playbook_id r)),
     (''candidate_id'', JStr (sp_candidate_id r)), (''action_type'', JStr (sp_action_type r)),
     (''target_entity'', JStr (sp_target_entity r)), (''soar_state'', JStr (sp_state r)),
     (''actor_id'', json_opt (sp_actor_id r)), (''decision_reason'', json_opt (sp_decision_reason r)),
     (''rf_confidence_pct'', JFloat (nc_rf_confidence_pct call)),
     (''queue_priority_rank'', JInt (nc_queue_priority_rank call)),
     (''incident_id'', json_opt (nc_incident_id call)),
     (''thehive_case_id'', json_opt (nc_thehive_case_id call)),
     (''mitre_technique_id'', JStr (nc_mitre_technique_id call)),
     (''audit_chain_verified'', JBool True), (''dispatched_at_utc'', JStr (isoformat (ne_now env)))]"

definition canonical_bytes :: "(pyfloat \<Rightarrow> string) \<Rightarrow> n8n_env \<Rightarrow> n8n_call \<Rightarrow> soar_record \<Rightarrow> string" where
  "canonical_bytes frepr env call r = json_dumps frepr (n8n_payload env call r)"

definition n8n_signature :: "string \<Rightarrow> string \<Rightarrow> string" where
  "n8n_signature secret body = hmac_sha256_hex (utf8 secret) body"

definition n8n_request ::
  "(pyfloat \<Rightarrow> string) \<Rightarrow> string \<Rightarrow> string \<Rightarrow> n8n_env \<Rightarrow> n8n_call \<Rightarrow> soar_record \<Rightarrow> http_request" where
  "n8n_request frepr url secret env call r =
     (let body = canonical_bytes frepr env call r in
      \<lparr>rq_url = url @ ''/webhook/threatfusion-soar-approved'', rq_body = body,
       rq_headers = [(''Content-Type'', ''application/json''),
         (''X-ThreatFusion-Signature-256'', n8n_signature secret body),
         (''X-Idempotency-Key'', idempotency_key r)]\<rparr>)"

definition receipt_row :: "(pyfloat \<Rightarrow> string) \<Rightarrow> n8n_receipt \<Rightarrow> execution_row" where
  "receipt_row frepr rec =
     \<lparr>ex_execution_id = nr_execution_id rec, ex_playbook_id = nr_playbook_id rec,
      ex_candidate_id = nr_candidate_id rec, ex_action_type = nr_action_type rec,
      ex_target_entity = nr_target_entity rec, ex_idempotency_key = nr_idempotency_key rec,
      ex_signature_sha256 = nr_signature_sha256 rec, ex_status = nr_status rec,
      ex_payload_json = json_dumps_plain frepr (nr_payload rec),
      ex_created_at_utc = nr_dispatched_at_utc rec\<rparr>"

text \<open>
  \<^verbatim>\<open>trigger_soar_playbook\<close>; \<open>ledger_secret\<close> is the secret of the ledger whose repository is passed.
\<close>

definition trigger_soar_playbook ::
  "(pyfloat \<Rightarrow> string) \<Rightarrow> string \<Rightarrow> string \<Rightarrow> string \<Rightarrow> n8n_env \<Rightarrow> soar_db \<Rightarrow> outbox option \<Rightarrow> soar_record \<Rightarrow>
   n8n_call \<Rightarrow> http_request option \<times> outbox option \<times> (client_error + n8n_receipt)" where
  "trigger_soar_playbook frepr url secret ledger_secret env db ob r call =
     (case response_gate ''Cannot trigger n8n playbook: record ''
         ''Cannot trigger n8n playbook: cryptographic SOAR audit hash chain ''
         ledger_secret (ne_verify_fault env) db r of
        Inl e \<Rightarrow> (None, ob, Inl e)
      | Inr _ \<Rightarrow>
         (let rq = n8n_request frepr url secret env call r;
              receipt = (\<lambda>status err. \<lparr>nr_execution_id = execution_id env, nr_webhook_url = rq_url rq,
                nr_playbook_id = sp_playbook_id r, nr_candidate_id = sp_candidate_id r,
                nr_action_type = sp_action_type r, nr_target_entity = sp_target_entity r,
                nr_idempotency_key = idempotency_key r,
                nr_signature_sha256 = n8n_signature secret (rq_body rq), nr_status = status,
                nr_dispatched_at_utc = isoformat (ne_now env), nr_payload = n8n_payload env call r,
                nr_transport_error = err\<rparr>);
              finish = (\<lambda>rec. case insert_execution (ne_fault env) ob (receipt_row frepr rec) of
                  (ob', Inl e) \<Rightarrow> (Some rq, ob', Inl e)
                | (ob', Inr _) \<Rightarrow> (Some rq, ob', Inr rec))
          in case ne_status env of
               Raised \<Rightarrow> (Some rq, ob, Inl Unexpected_exception)
             | Failed name message \<Rightarrow>
                 finish (receipt ''queued_durable_outbox'' (Some (transport_text name message)))
             | Answered code \<Rightarrow>
                 finish (receipt (if code \<in> {200, 201, 204} then ''dispatched_live''
                   else ''queued_durable_outbox'') None)))"

text \<open>
  \<^verbatim>\<open>lookup_durable_dispatch\<close>.  The path is a file or not (then there is no outbox); the order by
  \<^verbatim>\<open>created_at_utc DESC LIMIT 1\<close> takes a latest row, here the first of them.
\<close>

definition latest_row :: "execution_row list \<Rightarrow> execution_row option" where
  "latest_row rows = (case rows of [] \<Rightarrow> None
     | r # rs \<Rightarrow> Some (foldl (\<lambda>best x. if ex_created_at_utc best < ex_created_at_utc x then x else best) r rs))"

definition lookup_durable_dispatch :: "sqlite_fault \<Rightarrow> outbox option \<Rightarrow> string \<Rightarrow> json" where
  "lookup_durable_dispatch fault ob key =
     (let unavailable = JObj [(''evidence_state'', JStr ''unavailable''), (''status'', JNull),
            (''idempotency_key'', JStr key), (''retry_requires_new_approval'', JBool False)]
      in case ob of None \<Rightarrow> unavailable
      | Some o' \<Rightarrow> if fault \<noteq> No_fault then unavailable
          else (case latest_row (filter (\<lambda>r. ex_idempotency_key r = key) (ob_executions o')) of
              None \<Rightarrow> unavailable
            | Some row \<Rightarrow> JObj [(''evidence_state'', JStr ''verified''), (''status'', JStr (ex_status row)),
                (''execution_id'', JStr (ex_execution_id row)), (''playbook_id'', JStr (ex_playbook_id row)),
                (''idempotency_key'', JStr key), (''retry_requires_new_approval'', JBool False)]))"

section \<open>The TheHive client\<close>

text \<open>
  What the description quotes of an investigation anatomy, with the anatomy's dictionary.  The
  anatomy is the one the caller passes; building a default one is the advisory engine's work and not
  modelled.
\<close>

record anatomy =
  an_risk_level :: string
  an_rf_probability :: pyfloat
  an_recall_gain_badge :: string
  an_window_type :: string
  an_correlated_flow_count :: int
  an_technique_id :: string
  an_tactic_name :: string
  an_cosine_similarity :: pyfloat
  an_playbook_id :: string
  an_playbook_state :: string
  an_audit_chain_valid :: bool
  an_dict :: json

record case_call =
  cc_rf_confidence_pct :: pyfloat
  cc_queue_priority_rank :: int
  cc_incident_id :: "string option"
  cc_mitre_tags :: "string list"
  cc_misp_tags :: "string list"
  cc_anatomy :: anatomy

record hive_case =
  hc_case_id :: string
  hc_title :: string
  hc_description :: string
  hc_severity :: int
  hc_tlp :: int
  hc_pap :: int
  hc_tags :: "string list"
  hc_observables :: json
  hc_status :: string
  hc_created_at_utc :: string
  hc_transport_error :: "string option"

text \<open>How Python formats: \<open>fmt k x\<close> is \<^verbatim>\<open>f"{x:.kf}"\<close>, \<open>upper\<close> is \<^verbatim>\<open>str.upper\<close>.\<close>

record formats =
  fo_fixed :: "nat \<Rightarrow> pyfloat \<Rightarrow> string"
  fo_upper :: "string \<Rightarrow> string"
  fo_repr :: "pyfloat \<Rightarrow> string"

definition case_identifier :: "n8n_env \<Rightarrow> soar_record \<Rightarrow> string" where
  "case_identifier env r = ''case_'' @ map (\<lambda>c. if c = CHR '':'' then CHR ''_'' else c) (sp_candidate_id r) @
     ''_'' @ take 6 (ne_hex env)"

definition prefixed :: "string \<Rightarrow> string \<Rightarrow> string" where
  "prefixed p t = (if starts_with p t then t else p @ t)"

definition case_tags :: "formats \<Rightarrow> soar_record \<Rightarrow> case_call \<Rightarrow> string list" where
  "case_tags fo r call =
     [''threatfusion:alert'', ''rf_confidence:'' @ fo_fixed fo 1 (cc_rf_confidence_pct call) @ ''%'',
      ''queue_rank:'' @ dec_int (cc_queue_priority_rank call), ''soar_playbook:'' @ sp_playbook_id r,
      ''action:'' @ sp_action_type r] @
     (case cc_incident_id call of None \<Rightarrow> [] | Some i \<Rightarrow> if i = [] then [] else [''incident:'' @ i]) @
     map (prefixed ''mitre:'') (cc_mitre_tags call) @ map (prefixed ''misp:'') (cc_misp_tags call)"

definition case_observables :: "soar_record \<Rightarrow> json" where
  "case_observables r = JArr [
     JObj [(''dataType'', JStr ''ip''), (''data'', JStr (sp_target_entity r)),
       (''message'', JStr (''Target entity associated with '' @ sp_action_type r)),
       (''tags'', JArr [JStr ''target_entity''])],
     JObj [(''dataType'', JStr ''other''), (''data'', JStr (sp_candidate_id r)),
       (''message'', JStr ''ThreatFusion Alert Candidate ID''), (''tags'', JArr [JStr ''candidate_id''])]]"

text \<open>\<^verbatim>\<open>str(v)\<close> of an optional text, and of a truth value, inside a formatted string.\<close>

definition str_opt :: "string option \<Rightarrow> string" where
  "str_opt v = (case v of None \<Rightarrow> ''None'' | Some s \<Rightarrow> s)"

definition line :: "string \<Rightarrow> string" where
  "line s = s @ [CHR 0x0A]"

definition case_description :: "formats \<Rightarrow> soar_record \<Rightarrow> case_call \<Rightarrow> string" where
  "case_description fo r call =
     (let a = cc_anatomy call in
      line ''ThreatFusion Autonomous Security Operations Alert.'' @
      line (''Candidate: '' @ sp_candidate_id r) @
      line (''Playbook: '' @ sp_playbook_id r @ '' ('' @ sp_action_type r @ '')'') @
      line (''Target Entity: '' @ sp_target_entity r) @
      line (''Primary RF Confidence: '' @ fo_fixed fo 2 (cc_rf_confidence_pct call) @ ''%'') @
      line (''Non-Fused Queue Priority Rank: #'' @ dec_int (cc_queue_priority_rank call)) @
      line (''Approved by Actor: '' @ str_opt (sp_actor_id r)) @
      line (''Approval Reason: '' @ str_opt (sp_decision_reason r)) @
      line (line ''Cryptographic Audit Chain: VERIFIED'') @
      line ''--- 4-Block Investigation Anatomy ---'' @
      line (''Block 1 (Executive Summary): '' @ an_risk_level a @ '' | RF '' @ fo_fixed fo 4 (an_rf_probability a) @
        '' | '' @ an_recall_gain_badge a) @
      line (''Block 2 (Attack Timeline): '' @ an_window_type a @ '' | '' @ dec_int (an_correlated_flow_count a) @
        '' correlated flows'') @
      line (''Block 3 (MITRE Mapping): '' @ an_technique_id a @ '' ('' @ an_tactic_name a @ '') | Cosine '' @
        fo_fixed fo 4 (an_cosine_similarity a)) @
      ''Block 4 (Cryptographic SOAR Status): '' @ an_playbook_id a @ '' ['' @ an_playbook_state a @
        ''] | Audit Chain Valid='' @ (if an_audit_chain_valid a then ''True'' else ''False''))"

definition hive_request :: "formats \<Rightarrow> string \<Rightarrow> string \<Rightarrow> string \<Rightarrow> int \<Rightarrow> soar_record \<Rightarrow> case_call \<Rightarrow> http_request" where
  "hive_request fo url api_key title severity r call =
     \<lparr>rq_url = url @ ''/api/v1/case'',
      rq_body = json_dumps_plain (fo_repr fo) (JObj [(''title'', JStr title),
        (''description'', JStr (case_description fo r call)), (''severity'', JInt severity),
        (''tlp'', JInt 2), (''pap'', JInt 2), (''tags'', JArr (map JStr (case_tags fo r call))),
        (''flag'', JBool False), (''anatomy'', an_dict (cc_anatomy call)),
        (''four_block_anatomy'', an_dict (cc_anatomy call))]),
      rq_headers = [(''Authorization'', ''Bearer '' @ api_key), (''Content-Type'', ''application/json'')]\<rparr>"

definition case_row_of :: "formats \<Rightarrow> hive_case \<Rightarrow> case_row" where
  "case_row_of fo rec =
     \<lparr>cr_case_id = hc_case_id rec, cr_title = hc_title rec, cr_description = hc_description rec,
      cr_severity = hc_severity rec, cr_tlp = hc_tlp rec, cr_pap = hc_pap rec,
      cr_tags_json = json_dumps_plain (fo_repr fo) (JArr (map JStr (hc_tags rec))),
      cr_observables_json = json_dumps_plain (fo_repr fo) (hc_observables rec), cr_status = hc_status rec,
      cr_created_at_utc = hc_created_at_utc rec\<rparr>"

definition create_case_from_soar ::
  "formats \<Rightarrow> string \<Rightarrow> string \<Rightarrow> string \<Rightarrow> n8n_env \<Rightarrow> soar_db \<Rightarrow> outbox option \<Rightarrow> soar_record \<Rightarrow> case_call \<Rightarrow>
   http_request option \<times> outbox option \<times> (client_error + hive_case)" where
  "create_case_from_soar fo url api_key ledger_secret env db ob r call =
     (case response_gate ''TheHive case creation rejected: SOAR record ''
         ''TheHive case creation rejected: cryptographic SOAR audit hash chain ''
         ledger_secret (ne_verify_fault env) db r of
        Inl e \<Rightarrow> (None, ob, Inl e)
      | Inr _ \<Rightarrow>
         (let severity = (if fl_le (Fin 80) (cc_rf_confidence_pct call) then 3 else 2);
              title = ''[ThreatFusion] '' @ fo_upper fo (sp_action_type r) @ '': '' @ sp_target_entity r @
                '' ('' @ fo_fixed fo 1 (cc_rf_confidence_pct call) @ ''%)'';
              rq = hive_request fo url api_key title severity r call;
              rec = (\<lambda>status err. \<lparr>hc_case_id = case_identifier env r, hc_title = title,
                hc_description = case_description fo r call, hc_severity = severity, hc_tlp = 2, hc_pap = 2,
                hc_tags = case_tags fo r call, hc_observables = case_observables r, hc_status = status,
                hc_created_at_utc = isoformat (ne_now env), hc_transport_error = err\<rparr>);
              finish = (\<lambda>c. case insert_case (ne_fault env) ob (case_row_of fo c) of
                  (ob', Inl e) \<Rightarrow> (Some rq, ob', Inl e)
                | (ob', Inr _) \<Rightarrow> (Some rq, ob', Inr c))
          in case ne_status env of
               Raised \<Rightarrow> (Some rq, ob, Inl Unexpected_exception)
             | Failed name message \<Rightarrow> finish (rec ''queued_offline'' (Some (transport_text name message)))
             | Answered code \<Rightarrow>
                 finish (rec (if code \<in> {200, 201} then ''created_live'' else ''queued_offline'') None)))"

end
