(* ===== verification/ThreatIntel.thy ===== *)
theory ThreatIntel
  imports AddressGuard Provenance
begin

text \<open>
  \<^verbatim>\<open>enrichment/threat_intel.py\<close>: the enrichment of a verified descriptor with indicators of a feed.
  The feed provider is an argument, a function from the list it is asked about to its answer; the
  model also returns that list.  Times are instants in microseconds; the decimal format of the
  reasons is an argument.
\<close>

record ioc =
  io_indicator :: string
  io_indicator_type :: string
  io_feed_source :: string
  io_threat_category :: string
  io_confidence :: pyfloat
  io_first_seen_utc :: string
  io_last_seen_utc :: string
  io_reference_id :: string

record enrichment =
  er_status :: string
  er_provenance_verified :: bool
  er_external_lookup_performed :: bool
  er_private_ip_guard_triggered :: bool
  er_inspected_entities :: "string list"
  er_internal_lab_annotations :: "(string \<times> string) list"
  er_matches :: "ioc list"
  er_feed_snapshot_id :: "string option"
  er_reason :: string

record feed_snapshot =
  fs_snapshot_id :: string
  fs_generated_at_utc :: int
  fs_max_staleness_seconds :: pyfloat
  fs_indicators :: "(string \<times> ioc) list"

text \<open>An element that is not an indicator match is absent; the identifier is the provider's attribute.\<close>

datatype provider_answer = Provider_returns "ioc option list" "string option" | Provider_raises string

record enricher =
  nh_feed_snapshot :: "feed_snapshot option"
  nh_feed_provider :: "(string list \<Rightarrow> provider_answer) option"
  nh_internal_lab_registry :: "(string \<times> string) list"

definition DEFAULT_INTERNAL_LAB_REGISTRY :: "(string \<times> string) list" where
  "DEFAULT_INTERNAL_LAB_REGISTRY = [(''10.0.0.4'', ''azure_lab_attacker_vm_slide14''),
     (''10.0.0.5'', ''azure_lab_victim_suricata_vm_slide14'')]"

definition new_enricher ::
  "feed_snapshot option \<Rightarrow> (string list \<Rightarrow> provider_answer) option \<Rightarrow> (string \<times> string) list option \<Rightarrow> enricher" where
  "new_enricher snapshot provider registry = \<lparr>nh_feed_snapshot = snapshot, nh_feed_provider = provider,
     nh_internal_lab_registry = (case registry of None \<Rightarrow> DEFAULT_INTERNAL_LAB_REGISTRY | Some r \<Rightarrow> r)\<rparr>"

text \<open>The entities to inspect, those that may be looked up, and the annotations of the others.\<close>

definition raw_ips :: "provenance \<Rightarrow> string list" where
  "raw_ips p =
     (let src = or_empty (src_ip p); dst = or_empty (dst_ip p) in
      (if src = [] then [] else [src]) @ (if dst = [] \<or> dst_ip p = src_ip p then [] else [dst]))"

definition public_ips :: "provenance \<Rightarrow> string list" where
  "public_ips p = filter external_lookup_allowed (raw_ips p)"

definition internal_annotations :: "enricher \<Rightarrow> provenance \<Rightarrow> (string \<times> string) list" where
  "internal_annotations en p =
     map (\<lambda>ip. (ip, case map_of (nh_internal_lab_registry en) ip of None \<Rightarrow> ''internal_private_entity'' | Some role \<Rightarrow> role))
       (filter (\<lambda>ip. \<not> external_lookup_allowed ip) (raw_ips p))"

definition skipped_unverified :: enrichment where
  "skipped_unverified = \<lparr>er_status = ''skipped_unverified_provenance'', er_provenance_verified = False,
     er_external_lookup_performed = False, er_private_ip_guard_triggered = False,
     er_inspected_entities = [], er_internal_lab_annotations = [], er_matches = [],
     er_feed_snapshot_id = None,
     er_reason = ''Provenance contract is missing or not verified; intelligence lookup skipped.''\<rparr>"

text \<open>The result all later branches vary.\<close>

definition degraded :: "enricher \<Rightarrow> provenance \<Rightarrow> string \<Rightarrow> enrichment" where
  "degraded en p reason = \<lparr>er_status = ''degraded_enrichment_unavailable'', er_provenance_verified = True,
     er_external_lookup_performed = False,
     er_private_ip_guard_triggered = (internal_annotations en p \<noteq> []),
     er_inspected_entities = raw_ips p, er_internal_lab_annotations = internal_annotations en p,
     er_matches = [], er_feed_snapshot_id = None, er_reason = reason\<rparr>"

definition match_status :: "ioc list \<Rightarrow> string" where
  "match_status ms = (if ms \<noteq> [] then ''matched_verified_ioc'' else ''clean_no_ioc_match'')"

definition snapshot_matches :: "feed_snapshot \<Rightarrow> string list \<Rightarrow> ioc list" where
  "snapshot_matches fs ips = List.map_filter (map_of (fs_indicators fs)) ips"

definition age_seconds :: "int \<Rightarrow> feed_snapshot \<Rightarrow> pyfloat" where
  "age_seconds now fs = fl_round (of_int (now - fs_generated_at_utc fs) / 1000000)"

definition enrich_entity_contract ::
  "iso_parser \<Rightarrow> (nat \<Rightarrow> pyfloat \<Rightarrow> string) \<Rightarrow> enricher \<Rightarrow> int \<Rightarrow> provenance option \<Rightarrow>
   string list option \<times> enrichment" where
  "enrich_entity_contract rd fmt en now contract =
     (case contract of None \<Rightarrow> (None, skipped_unverified)
      | Some p \<Rightarrow>
        if \<not> is_verified rd p then (None, skipped_unverified)
        else if raw_ips p \<noteq> [] \<and> public_ips p = [] then
          (None, (degraded en p ''Internal lab / private IP entities annotated; external lookups suppressed per RFC 1918 guard.'')
            \<lparr>er_status := ''internal_lab_entity_annotated'', er_private_ip_guard_triggered := True,
             er_feed_snapshot_id := map_option fs_snapshot_id (nh_feed_snapshot en)\<rparr>)
        else (case nh_feed_provider en of
          Some provider \<Rightarrow> (Some (public_ips p),
            (case provider (public_ips p) of
              Provider_returns answers ident \<Rightarrow>
                (let ms = List.map_filter id answers in
                 (degraded en p ''Provider lookup completed successfully.'')
                   \<lparr>er_status := match_status ms, er_external_lookup_performed := True,
                    er_matches := ms, er_feed_snapshot_id := ident\<rparr>)
            | Provider_raises message \<Rightarrow>
                (degraded en p (''Feed provider exception: '' @ message))
                  \<lparr>er_external_lookup_performed := True\<rparr>))
        | None \<Rightarrow> (None, (case nh_feed_snapshot en of
            None \<Rightarrow> degraded en p ''No threat intelligence feed snapshot configured.''
          | Some fs \<Rightarrow>
             if fl_less (fs_max_staleness_seconds fs) (age_seconds now fs) then
               (degraded en p (''Feed snapshot age '' @ fmt 1 (age_seconds now fs) @ ''s exceeds maximum staleness '' @
                  fmt 1 (fs_max_staleness_seconds fs) @ ''s.''))
                 \<lparr>er_status := ''degraded_enrichment_stale'', er_external_lookup_performed := True,
                  er_feed_snapshot_id := Some (fs_snapshot_id fs)\<rparr>
             else (let ms = snapshot_matches fs (public_ips p) in
               (degraded en p (if ms \<noteq> [] then ''Matched '' @ dec_int (int (length ms)) @
                    '' indicators in verified feed snapshot.''
                  else ''No known indicators matched in verified feed snapshot.''))
                 \<lparr>er_status := match_status ms, er_external_lookup_performed := True, er_matches := ms,
                  er_feed_snapshot_id := Some (fs_snapshot_id fs)\<rparr>)))))"

end
