(* ===== verification/AddressGuard_Facts.thy ===== *)
theory AddressGuard_Facts
  imports AddressGuard Json_Facts
begin

text \<open>
  What the address guard lets pass, written out as ranges.  The networks of Python's module become
  intervals of integers; IPv4 texts are read back as exactly the four octets they print.
\<close>

section \<open>Networks are intervals\<close>

lemma in_network_div:
  assumes "ip < 2 ^ w" "len \<le> w" "2 ^ (w - len) dvd base"
  shows "in_network w ip (base, len) \<longleftrightarrow> ip div 2 ^ (w - len) = base div 2 ^ (w - len)"
proof -
  let ?k = "w - len"
  have "ip AND (2 ^ w - 2 ^ ?k) = push_bit ?k (drop_bit ?k ip)"
  proof (rule bit_eqI)
    fix m
    have tb: "bit ip m \<Longrightarrow> m < w"
      using assms(1) by (metis bit_take_bit_iff take_bit_nat_eq_self)
    have "(2 :: nat) ^ w = 2 ^ ?k * 2 ^ len"
      using assms(2) by (simp add: power_add [symmetric])
    then have "(2 :: nat) ^ w - 2 ^ ?k = push_bit ?k (mask len)"
      by (simp add: push_bit_eq_mult mask_eq_exp_minus_1 diff_mult_distrib2 mult.commute)
    then have "bit ((2 :: nat) ^ w - 2 ^ ?k) m \<longleftrightarrow> ?k \<le> m \<and> m < w"
      using assms(2) by (auto simp: bit_push_bit_iff bit_mask_iff)
    then show "bit (ip AND (2 ^ w - 2 ^ ?k)) m = bit (push_bit ?k (drop_bit ?k ip)) m"
      using tb by (auto simp: bit_and_iff bit_push_bit_iff bit_drop_bit_eq)
  qed
  then have "in_network w ip (base, len) \<longleftrightarrow> ip div 2 ^ ?k * 2 ^ ?k = base"
    by (simp add: in_network_def push_bit_eq_mult drop_bit_eq_div)
  also have "\<dots> \<longleftrightarrow> ip div 2 ^ ?k = base div 2 ^ ?k"
    using assms(3) by (auto elim!: dvdE)
  finally show ?thesis .
qed

lemma div_range: "0 < n \<Longrightarrow> b div n = q \<longleftrightarrow> n * q \<le> b \<and> b < n * q + (n :: nat)"
proof
  assume "0 < n" "b div n = q"
  then have "n * q + b mod n = b" "b mod n < n" using mult_div_mod_eq [of n b] by simp_all
  then show "n * q \<le> b \<and> b < n * q + n" by (intro conjI) linarith+
qed (auto intro!: div_nat_eqI simp: mult.commute)

lemma in_network_range:
  assumes "ip < 2 ^ w" "len \<le> w" "2 ^ (w - len) dvd base"
  shows "in_network w ip (base, len) \<longleftrightarrow> base \<le> ip \<and> ip < base + 2 ^ (w - len)"
proof -
  obtain q where "base = 2 ^ (w - len) * q" using assms(3) by (rule dvdE)
  with in_network_div [OF assms] div_range [of "2 ^ (w - len)" ip q] show ?thesis by simp
qed

text \<open>An IPv4 address by its octets, and a network that ends inside one of them.\<close>

lemma quad_simps: "quad a b c d = ((a * 256 + b) * 256 + c) * 256 + d"
  by (simp add: quad_def big_endian_def)

lemma quad_bound: "a < 256 \<Longrightarrow> b < 256 \<Longrightarrow> c < 256 \<Longrightarrow> d < 256 \<Longrightarrow> quad a b c d < 2 ^ 32"
  by (simp add: quad_simps)

definition octets :: "nat \<Rightarrow> nat \<Rightarrow> nat \<Rightarrow> nat \<Rightarrow> bool" where
  "octets a b c d \<longleftrightarrow> a < 256 \<and> b < 256 \<and> c < 256 \<and> d < 256"

lemma quad_prefixes:
  assumes "octets a b c d"
  shows "quad a b c d div 256 = (a * 256 + b) * 256 + c" "quad a b c d div 65536 = a * 256 + b"
    "quad a b c d div 16777216 = a"
proof -
  have step: "(n * 256 + e) div 256 = n" if "e < 256" for n e :: nat using that by simp
  show c: "quad a b c d div 256 = (a * 256 + b) * 256 + c"
    unfolding quad_simps using assms by (intro step) (simp add: octets_def)
  have "quad a b c d div (256 * 256) = a * 256 + b"
    unfolding div_mult2_eq c using assms by (intro step) (simp add: octets_def)
  then show b: "quad a b c d div 65536 = a * 256 + b" by simp
  have "quad a b c d div (65536 * 256) = a"
    unfolding div_mult2_eq b using assms by (intro step) (simp add: octets_def)
  then show "quad a b c d div 16777216 = a" by simp
qed

lemma quad_network:
  assumes "octets a b c d" "len \<le> 32" "2 ^ (32 - len) dvd base"
  shows "in_network 32 (quad a b c d) (base, len) \<longleftrightarrow>
    quad a b c d div 2 ^ (32 - len) = base div 2 ^ (32 - len)"
  using assms by (intro in_network_div quad_bound) (simp_all add: octets_def)

lemma digit_eq:
  assumes "b < n" "b' < n"
  shows "a * n + b = a' * n + b' \<longleftrightarrow> a = a' \<and> b = (b' :: nat)"
proof
  assume eq: "a * n + b = a' * n + b'"
  have "(a * n + b) div n = a" "(a' * n + b') div n = a'" using assms by simp_all
  with eq have "a = a'" by simp
  with eq show "a = a' \<and> b = b'" by simp
qed simp

lemma octet_network:
  assumes "octets a b c d" "octets p q r s"
  shows "in_network 32 (quad a b c d) (quad p 0 0 0, 8) \<longleftrightarrow> a = p"
    "in_network 32 (quad a b c d) (quad p q 0 0, 16) \<longleftrightarrow> a = p \<and> b = q"
    "in_network 32 (quad a b c d) (quad p q r 0, 24) \<longleftrightarrow> a = p \<and> b = q \<and> c = r"
    "in_network 32 (quad a b c d) (quad p q r s, 32) \<longleftrightarrow> a = p \<and> b = q \<and> c = r \<and> d = s"
proof -
  note o = assms [unfolded octets_def]
  have z: "octets p 0 0 0" "octets p q 0 0" "octets p q r 0" using o by (simp_all add: octets_def)
  have dvd: "2 ^ 24 dvd quad p 0 0 0" "2 ^ 16 dvd quad p q 0 0" "2 ^ 8 dvd quad p q r 0"
    by (simp_all add: quad_simps)
  show "in_network 32 (quad a b c d) (quad p 0 0 0, 8) \<longleftrightarrow> a = p"
    using quad_network [OF assms(1), of 8] dvd(1) by (simp add: quad_prefixes [OF assms(1)] quad_prefixes [OF z(1)])
  show "in_network 32 (quad a b c d) (quad p q 0 0, 16) \<longleftrightarrow> a = p \<and> b = q"
    using quad_network [OF assms(1), of 16] dvd(2) o
    by (simp add: quad_prefixes [OF assms(1)] quad_prefixes [OF z(2)] digit_eq del: distrib_right_numeral)
  show "in_network 32 (quad a b c d) (quad p q r 0, 24) \<longleftrightarrow> a = p \<and> b = q \<and> c = r"
    using quad_network [OF assms(1), of 24] dvd(3) o
    by (simp add: quad_prefixes [OF assms(1)] quad_prefixes [OF z(3)] digit_eq del: distrib_right_numeral)
  show "in_network 32 (quad a b c d) (quad p q r s, 32) \<longleftrightarrow> a = p \<and> b = q \<and> c = r \<and> d = s"
    using quad_network [OF assms(1), of 32 "quad p q r s"] o by (simp add: quad_simps digit_eq del: distrib_right_numeral)
qed

lemma quad_const:
  shows "quad 100 64 0 0 = 1681915904"
  "quad 172 16 0 0 = 2886729728"
  "quad 198 18 0 0 = 3323068416"
  "quad 224 0 0 0 = 3758096384"
  "quad 240 0 0 0 = 4026531840"
  "quad 192 0 0 170 = 3221225642"
  "quad 192 0 0 0 = 3221225472"
  by (simp_all add: quad_simps)

lemma octet_range:
  assumes "octets a b c d"
  shows "in_network 32 (quad a b c d) (quad 100 64 0 0, 10) \<longleftrightarrow> a = 100 \<and> 64 \<le> b \<and> b < 128"
    "in_network 32 (quad a b c d) (quad 172 16 0 0, 12) \<longleftrightarrow> a = 172 \<and> 16 \<le> b \<and> b < 32"
    "in_network 32 (quad a b c d) (quad 198 18 0 0, 15) \<longleftrightarrow> a = 198 \<and> 18 \<le> b \<and> b < 20"
    "in_network 32 (quad a b c d) (quad 224 0 0 0, 4) \<longleftrightarrow> 224 \<le> a \<and> a < 240"
    "in_network 32 (quad a b c d) (quad 240 0 0 0, 4) \<longleftrightarrow> 240 \<le> a"
proof -
  note o = assms [unfolded octets_def]
  note d = div_mult2_eq [of "quad a b c d" 65536, unfolded quad_prefixes(2) [OF assms]]
    div_mult2_eq [of "quad a b c d" 16777216, unfolded quad_prefixes(3) [OF assms]]
  have e: "quad a b c d div 4194304 = (a * 256 + b) div 64" "quad a b c d div 1048576 = (a * 256 + b) div 16"
    "quad a b c d div 131072 = (a * 256 + b) div 2" "quad a b c d div 268435456 = a div 16"
    using d(1) [of 64] d(1) [of 16] d(1) [of 2] d(2) [of 16] by simp_all
  have f: "(a * 256 + b) div 64 = a * 4 + b div 64" "(a * 256 + b) div 16 = a * 16 + b div 16"
    "(a * 256 + b) div 2 = a * 128 + b div 2"
    using div_mult_self3 [of 64 "a * 4" b] div_mult_self3 [of 16 "a * 16" b] div_mult_self3 [of 2 "a * 128" b]
    by simp_all
  have "b div 64 < 4" "b div 16 < 16" "b div 2 < 128"
    using o by (auto intro: less_mult_imp_div_less)
  then have g: "a * 4 + b div 64 = 100 * 4 + 1 \<longleftrightarrow> a = 100 \<and> b div 64 = 1"
    "a * 16 + b div 16 = 172 * 16 + 1 \<longleftrightarrow> a = 172 \<and> b div 16 = 1"
    "a * 128 + b div 2 = 198 * 128 + 9 \<longleftrightarrow> a = 198 \<and> b div 2 = 9"
    by (intro digit_eq; simp)+
  have h: "b div 64 = 1 \<longleftrightarrow> 64 \<le> b \<and> b < 128" "b div 16 = 1 \<longleftrightarrow> 16 \<le> b \<and> b < 32"
    "b div 2 = 9 \<longleftrightarrow> 18 \<le> b \<and> b < 20" "a div 16 = 14 \<longleftrightarrow> 224 \<le> a \<and> a < 240"
    "a div 16 = 15 \<longleftrightarrow> 240 \<le> a \<and> a < 256"
    by (simp_all only: div_range zero_less_numeral) simp_all
  have n: "in_network 32 (quad a b c d) (quad 100 64 0 0, 10) \<longleftrightarrow> quad a b c d div 4194304 = 100 * 4 + 1"
    "in_network 32 (quad a b c d) (quad 172 16 0 0, 12) \<longleftrightarrow> quad a b c d div 1048576 = 172 * 16 + 1"
    "in_network 32 (quad a b c d) (quad 198 18 0 0, 15) \<longleftrightarrow> quad a b c d div 131072 = 198 * 128 + 9"
    "in_network 32 (quad a b c d) (quad 224 0 0 0, 4) \<longleftrightarrow> quad a b c d div 268435456 = 14"
    "in_network 32 (quad a b c d) (quad 240 0 0 0, 4) \<longleftrightarrow> quad a b c d div 268435456 = 15"
    by (simp_all add: quad_network [OF assms] quad_const)
  show "in_network 32 (quad a b c d) (quad 100 64 0 0, 10) \<longleftrightarrow> a = 100 \<and> 64 \<le> b \<and> b < 128"
    unfolding n e f g h ..
  show "in_network 32 (quad a b c d) (quad 172 16 0 0, 12) \<longleftrightarrow> a = 172 \<and> 16 \<le> b \<and> b < 32"
    unfolding n e f g h ..
  show "in_network 32 (quad a b c d) (quad 198 18 0 0, 15) \<longleftrightarrow> a = 198 \<and> 18 \<le> b \<and> b < 20"
    unfolding n e f g h ..
  show "in_network 32 (quad a b c d) (quad 224 0 0 0, 4) \<longleftrightarrow> 224 \<le> a \<and> a < 240"
    unfolding n e h ..
  show "in_network 32 (quad a b c d) (quad 240 0 0 0, 4) \<longleftrightarrow> 240 \<le> a"
    unfolding n e h using o by simp
qed

section \<open>Which IPv4 addresses may be looked up\<close>

text \<open>The addresses that are not special, octet by octet.\<close>

definition public_octets :: "nat \<Rightarrow> nat \<Rightarrow> nat \<Rightarrow> nat \<Rightarrow> bool" where
  "public_octets a b c d \<longleftrightarrow> a \<noteq> 0 \<and> a \<noteq> 10 \<and> a \<noteq> 127 \<and> a < 224 \<and>
     \<not> (a = 100 \<and> 64 \<le> b \<and> b < 128) \<and>
     \<not> (a = 169 \<and> b = 254) \<and>
     \<not> (a = 172 \<and> 16 \<le> b \<and> b < 32) \<and>
     \<not> (a = 192 \<and> b = 0 \<and> c = 0 \<and> d \<noteq> 9 \<and> d \<noteq> 10) \<and>
     \<not> (a = 192 \<and> b = 0 \<and> c = 2) \<and>
     \<not> (a = 192 \<and> b = 168) \<and>
     \<not> (a = 198 \<and> 18 \<le> b \<and> b < 20) \<and>
     \<not> (a = 198 \<and> b = 51 \<and> c = 100) \<and>
     \<not> (a = 203 \<and> b = 0 \<and> c = 113)"

lemma quad_eq_iff:
  "octets a b c d \<Longrightarrow> octets p q r s \<Longrightarrow> quad a b c d = quad p q r s \<longleftrightarrow> a = p \<and> b = q \<and> c = r \<and> d = s"
  by (simp add: quad_simps octets_def digit_eq del: distrib_right_numeral)

lemma octet_pair:
  assumes "octets a b c d" "in_network 32 (quad a b c d) (quad 192 0 0 170, 31)"
  shows "a = 192 \<and> b = 0 \<and> c = 0 \<and> 170 \<le> d"
proof -
  have half: "quad a b c d div 2 = 1610612821"
    using quad_network [OF assms(1), of 31 "quad 192 0 0 170"] assms(2) by (simp add: quad_const)
  then have "quad a b c d div (2 * 128) = 12582912"
    unfolding div_mult2_eq by simp
  then have "in_network 32 (quad a b c d) (quad 192 0 0 0, 24)"
    using quad_network [OF assms(1), of 24 "quad 192 0 0 0"] by (simp add: quad_const)
  then have abc: "a = 192 \<and> b = 0 \<and> c = 0"
    by (subst (asm) octet_network(3) [OF assms(1), of 192 0 0 0]) (simp_all add: octets_def)
  have "2 * (quad a b c d div 2) \<le> quad a b c d" by simp
  with half abc show ?thesis by (simp add: quad_simps)
qed

lemma private_octets:
  assumes "octets a b c d"
  shows "is_private4 (quad a b c d) \<longleftrightarrow> \<not> public_octets a b c d \<and> \<not> (a = 100 \<and> 64 \<le> b \<and> b < 128) \<and> \<not> (224 \<le> a \<and> a < 240)"
proof -
  have n: "octets 0 0 0 0" "octets 10 0 0 0" "octets 127 0 0 0" "octets 169 254 0 0" "octets 192 0 0 0"
    "octets 192 0 2 0" "octets 192 168 0 0" "octets 198 51 100 0" "octets 203 0 113 0"
    "octets 255 255 255 255" "octets 192 0 0 9" "octets 192 0 0 10" by (simp_all add: octets_def)
  note nets = octet_network [OF assms n(1)] octet_network [OF assms n(2)] octet_network [OF assms n(3)]
    octet_network [OF assms n(4)] octet_network [OF assms n(5)] octet_network [OF assms n(6)]
    octet_network [OF assms n(7)] octet_network [OF assms n(8)] octet_network [OF assms n(9)]
    octet_network [OF assms n(10)] octet_network [OF assms n(11)] octet_network [OF assms n(12)]
  have bound: "a < 256" using assms by (simp add: octets_def)
  note shape = is_private4_def in_any_def private_networks4_def private_exceptions4_def public_octets_def
    list_ex_Cons_iff list_ex_Nil_iff nets octet_range [OF assms]
  show ?thesis
  proof (cases "in_network 32 (quad a b c d) (quad 192 0 0 170, 31)")
    case True
    with octet_pair [OF assms True] show ?thesis unfolding shape by simp
  next
    case False
    have "a = 192 \<or> a = 198 \<or> a = 203 \<or> a = 172 \<or> a = 100 \<or> a = 169 \<or> a \<notin> {192, 198, 203, 172, 100, 169}"
      by blast
    then show ?thesis
      unfolding shape using False bound
      by (elim disjE) (simp_all, fastforce, linarith)
  qed
qed

lemma ipv4_subject:
  assumes "octets a b c d"
  shows "subject_allowed (IPv4 (quad a b c d)) \<longleftrightarrow> public_octets a b c d"
proof -
  have n: "octets 127 0 0 0" "octets 169 254 0 0" by (simp_all add: octets_def)
  have z: "quad a b c d = 0 \<longleftrightarrow> a = 0 \<and> b = 0 \<and> c = 0 \<and> d = 0" by (simp add: quad_simps)
  have public: "a \<noteq> 0 \<and> a \<noteq> 127 \<and> \<not> (224 \<le> a \<and> a < 240) \<and> \<not> 240 \<le> a \<and>
      \<not> (a = 100 \<and> 64 \<le> b \<and> b < 128) \<and> \<not> (a = 169 \<and> b = 254)" if "public_octets a b c d"
    using that by (simp add: public_octets_def)
  have bound: "a < 256" using assms by (simp add: octets_def)
  show ?thesis
    unfolding subject_allowed_def is_global_def is_private_def is_loopback_def is_link_local_def
      is_multicast_def is_reserved_def is_unspecified_def ip_value.case private_octets [OF assms] z
      octet_network [OF assms n(1)] octet_network [OF assms n(2)] octet_range [OF assms]
    using public bound by (cases "public_octets a b c d") (blast, linarith)
qed

section \<open>IPv4 texts\<close>

lemma split_char_nonempty: "split_char sep s \<noteq> []"
  by (induction s) (auto split: list.splits)

lemma split_char_join:
  "ws \<noteq> [] \<Longrightarrow> (\<forall>w \<in> set ws. sep \<notin> set w) \<Longrightarrow> split_char sep (join [sep] ws) = ws"
proof (induction ws)
  case (Cons w ws)
  have plain: "split_char sep (w @ t) = (case split_char sep t of [] \<Rightarrow> [w] | v # vs \<Rightarrow> (w @ v) # vs)"
    if "sep \<notin> set w" for w t
    using that by (induction w) (auto split: list.splits simp: split_char_nonempty)
  show ?case
  proof (cases ws)
    case Nil
    with plain [of w "[]"] Cons.prems show ?thesis by simp
  next
    case (Cons v vs)
    with plain [of w "sep # join [sep] ws"] Cons.prems Cons.IH show ?thesis by simp
  qed
qed simp

lemma join_split_char: "join [sep] (split_char sep s) = s"
proof (induction s)
  case (Cons c s)
  then show ?case
    by (cases "split_char sep s" rule: list.exhaust; cases "tl (split_char sep s)")
      (auto simp: split_char_nonempty)
qed simp

lemma split_char_free: "w \<in> set (split_char sep s) \<Longrightarrow> sep \<notin> set w"
  by (induction s arbitrary: w) (auto split: list.splits if_splits)

text \<open>An octet is read exactly from its decimal text.\<close>

lemma dec_digits_of_text:
  assumes "list_all is_digit s" "s \<noteq> []" "s = ''0'' \<or> hd s \<noteq> CHR ''0''"
  shows "dec_digits (nat_of_dec s) = s"
  using assms
proof (induction s rule: rev_induct)
  case (snoc c s)
  let ?v = "of_char c - 48 :: nat"
  have dc: "?v < 10" "char_of (48 + ?v) = c"
    using snoc.prems(1) by (auto simp: is_digit_def char_in_def less_eq_char_def)
  have v: "nat_of_dec (s @ [c]) = 10 * nat_of_dec s + ?v" by (simp add: nat_of_dec_def)
  show ?case
  proof (cases "s = []")
    case True
    with v dc show ?thesis by (subst dec_digits.simps) (simp add: nat_of_dec_def)
  next
    case False
    with snoc.prems have hd: "hd s \<noteq> CHR ''0''" by (cases s) auto
    with False snoc have IH: "dec_digits (nat_of_dec s) = s" by simp
    have "nat_of_dec s \<noteq> 0" using IH dec_digits_0 hd by (metis list.sel(1))
    then have "\<not> nat_of_dec (s @ [c]) < 10" "nat_of_dec (s @ [c]) div 10 = nat_of_dec s"
      "nat_of_dec (s @ [c]) mod 10 = ?v"
      using v dc(1) by simp_all
    with IH dc(2) show ?thesis by (subst dec_digits.simps) simp
  qed
qed simp

lemma dec_digits_short:
  assumes "n < 256"
  shows "length (dec_digits n) \<le> 3"
proof -
  have one: "length (dec_digits n) \<le> 1" if "n < 10" for n
    using that by (subst dec_digits.simps) simp
  have two: "length (dec_digits n) \<le> 2" if "n < 100" for n
    using that one [of "n div 10"] by (subst dec_digits.simps) simp
  show ?thesis
    using assms two [of "n div 10"] by (subst dec_digits.simps) simp
qed

lemma parse_octet_iff: "parse_octet s = Some n \<longleftrightarrow> n < 256 \<and> s = dec_digits n"
proof
  assume "parse_octet s = Some n"
  then show "n < 256 \<and> s = dec_digits n"
    using dec_digits_of_text [of s] by (auto simp: parse_octet_def Let_def split: if_splits)
next
  assume n: "n < 256 \<and> s = dec_digits n"
  have "n = 0 \<or> n \<noteq> 0 \<and> hd (dec_digits n) \<noteq> CHR ''0''" using dec_digits_hd by blast
  with n show "parse_octet s = Some n"
    using dec_digits_digits [of n] dec_digits_neq_Nil [of n] dec_digits_short [of n] nat_of_dec_digits [of n]
    by (auto simp: parse_octet_def Let_def dec_digits_0)
qed

definition dotted :: "nat \<Rightarrow> nat \<Rightarrow> nat \<Rightarrow> nat \<Rightarrow> string" where
  "dotted a b c d = join ''.'' (map dec_digits [a, b, c, d])"

lemma dotted_chars: "ch \<in> set (dotted a b c d) \<Longrightarrow> is_digit ch \<or> ch = CHR ''.''"
  using dec_digits_digits by (auto simp: dotted_def list_all_iff)

lemma split_dotted: "split_char CHR ''.'' (dotted a b c d) = map dec_digits [a, b, c, d]"
  unfolding dotted_def
proof (rule split_char_join)
  have "CHR ''.'' \<notin> set (dec_digits n)" for n
    using dec_digits_digits [of n] by (auto simp: list_all_iff is_digit_def char_in_def less_eq_char_def)
  then show "\<forall>w \<in> set (map dec_digits [a, b, c, d]). CHR ''.'' \<notin> set w" by simp
qed simp

lemma dotted_inject: "dotted a b c d = dotted p q r s \<longleftrightarrow> a = p \<and> b = q \<and> c = r \<and> d = s"
proof
  assume "dotted a b c d = dotted p q r s"
  then have "map nat_of_dec (map dec_digits [a, b, c, d]) = map nat_of_dec (map dec_digits [p, q, r, s])"
    unfolding split_dotted [symmetric] by simp
  then show "a = p \<and> b = q \<and> c = r \<and> d = s" by (simp add: nat_of_dec_digits)
qed simp

lemma ipv4_text_iff:
  "ipv4_of_string s = Some n \<longleftrightarrow> (\<exists>a b c d. octets a b c d \<and> s = dotted a b c d \<and> n = quad a b c d)"
proof
  assume "ipv4_of_string s = Some n"
  then obtain ns where ns: "those (map parse_octet (split_char CHR ''.'' s)) = Some ns" "n = big_endian 256 ns"
      and four: "length (split_char CHR ''.'' s) = 4"
    by (auto simp: ipv4_of_string_def Let_def split: if_splits)
  from four obtain p q r t where sp: "split_char CHR ''.'' s = [p, q, r, t]"
    by (auto simp: length_Suc_conv eval_nat_numeral)
  with ns obtain a b c d where "ns = [a, b, c, d]" "parse_octet p = Some a" "parse_octet q = Some b"
      "parse_octet r = Some c" "parse_octet t = Some d"
    by (auto split: option.splits)
  with ns(2) sp join_split_char [of "CHR ''.''" s]
  show "\<exists>a b c d. octets a b c d \<and> s = dotted a b c d \<and> n = quad a b c d"
    by (auto simp: parse_octet_iff octets_def dotted_def quad_def)
next
  assume "\<exists>a b c d. octets a b c d \<and> s = dotted a b c d \<and> n = quad a b c d"
  then obtain a b c d where o: "octets a b c d" and s: "s = dotted a b c d" and n: "n = quad a b c d" by blast
  have "CHR ''/'' \<notin> set s" using dotted_chars [of "CHR ''/''" a b c d] s
    by (auto simp: is_digit_def char_in_def less_eq_char_def)
  moreover have "s \<noteq> []" using split_dotted [of a b c d] s by auto
  moreover have "parse_octet (dec_digits m) = Some m" if "m < 256" for m
    using that by (simp add: parse_octet_iff)
  ultimately show "ipv4_of_string s = Some n"
    using o by (simp add: ipv4_of_string_def s split_dotted octets_def n quad_def)
qed

lemma dotted_parses: "octets a b c d \<Longrightarrow> ipv4_of_string (dotted a b c d) = Some (quad a b c d)"
  unfolding ipv4_text_iff by blast

section \<open>Which IPv6 addresses may be looked up\<close>

lemma net6_values:
  "net6 [] len = (0, len)" "net6 [h] len = (h * 2 ^ 112, len)" "net6 [h, i] len = ((h * 65536 + i) * 2 ^ 96, len)"
  "net6 [h, i, j] len = (((h * 65536 + i) * 65536 + j) * 2 ^ 80, len)"
proof -
  have "replicate 8 (0 :: nat) = [0, 0, 0, 0, 0, 0, 0, 0]" "replicate 7 (0 :: nat) = [0, 0, 0, 0, 0, 0, 0]"
    "replicate 6 (0 :: nat) = [0, 0, 0, 0, 0, 0]" "replicate 5 (0 :: nat) = [0, 0, 0, 0, 0]"
    by code_simp+
  then show "net6 [] len = (0, len)" "net6 [h] len = (h * 2 ^ 112, len)"
    "net6 [h, i] len = ((h * 65536 + i) * 2 ^ 96, len)"
    "net6 [h, i, j] len = (((h * 65536 + i) * 65536 + j) * 2 ^ 80, len)"
    by (simp_all add: net6_def big_endian_def)
qed

lemma interval_div: "h * K \<le> n \<longleftrightarrow> h \<le> n div K" "n < m * K \<longleftrightarrow> n div K < m" if "0 < K" for K n :: nat
  using that by (simp_all add: less_eq_div_iff_mult_less_eq div_less_iff_less_mult)

text \<open>Networks of at most 16 and of 17 to 32 bits, on the first one and two hextets.\<close>

lemma net6_hextet:
  assumes "n < 2 ^ 128" "len \<le> 16" "2 ^ (16 - len) dvd h"
  shows "in_network 128 n (net6 [h] len) \<longleftrightarrow> h \<le> n div 2 ^ 112 \<and> n div 2 ^ 112 < h + 2 ^ (16 - len)"
proof -
  have w: "2 ^ (128 - len) = 2 ^ (16 - len) * (2 :: nat) ^ 112"
    using assms(2) by (simp only: power_add [symmetric]) simp
  have "2 ^ (128 - len) dvd h * 2 ^ 112" unfolding w using assms(3) by (rule mult_dvd_mono) simp
  then have "in_network 128 n (h * 2 ^ 112, len) \<longleftrightarrow> h * 2 ^ 112 \<le> n \<and> n < h * 2 ^ 112 + 2 ^ (128 - len)"
    using assms by (intro in_network_range) simp_all
  then have "in_network 128 n (net6 [h] len) \<longleftrightarrow> h * 2 ^ 112 \<le> n \<and> n < (h + 2 ^ (16 - len)) * 2 ^ 112"
    unfolding net6_values w distrib_right .
  then show ?thesis by (simp only: interval_div zero_less_power zero_less_numeral)
qed

lemma net6_two_hextets:
  assumes "n < 2 ^ 128" "16 \<le> len" "len \<le> 32" "2 ^ (32 - len) dvd i"
  shows "in_network 128 n (net6 [h, i] len) \<longleftrightarrow>
    h * 65536 + i \<le> n div 2 ^ 96 \<and> n div 2 ^ 96 < h * 65536 + i + 2 ^ (32 - len)"
proof -
  let ?x = "h * 65536 + i"
  have w: "2 ^ (128 - len) = 2 ^ (32 - len) * (2 :: nat) ^ 96"
    using assms(3) by (simp only: power_add [symmetric]) simp
  have "2 ^ (32 - len) dvd (2 :: nat) ^ 16" using assms(2) by (intro le_imp_power_dvd) simp
  then have "2 ^ (32 - len) dvd ?x" using assms(4) by (simp add: dvd_add dvd_mult)
  then have "2 ^ (128 - len) dvd ?x * 2 ^ 96" unfolding w by (rule mult_dvd_mono) simp
  then have "in_network 128 n (?x * 2 ^ 96, len) \<longleftrightarrow> ?x * 2 ^ 96 \<le> n \<and> n < ?x * 2 ^ 96 + 2 ^ (128 - len)"
    using assms by (intro in_network_range) simp_all
  then have "in_network 128 n (net6 [h, i] len) \<longleftrightarrow> ?x * 2 ^ 96 \<le> n \<and> n < (?x + 2 ^ (32 - len)) * 2 ^ 96"
    unfolding net6_values w add_mult_distrib [of ?x] .
  then show ?thesis by (simp only: interval_div zero_less_power zero_less_numeral)
qed

text \<open>Adjacent intervals merge; the reserved networks are everything below \<^verbatim>\<open>2000::\<close>, all from
  \<^verbatim>\<open>4000::\<close> to \<^verbatim>\<open>fc00::\<close>, and \<^verbatim>\<open>fe00::/9\<close>.\<close>

definition in_interval :: "nat \<Rightarrow> nat \<times> nat \<Rightarrow> bool" where
  "in_interval x = (\<lambda>(lo, hi). lo \<le> x \<and> x < hi)"

lemma merge_intervals:
  assumes "a \<le> b" "b \<le> c"
  shows "list_ex (in_interval x) ((a, b) # (b, c) # r) \<longleftrightarrow> list_ex (in_interval x) ((a, c) # r)"
    "list_ex (in_interval x) (i # (a, b) # (b, c) # r) \<longleftrightarrow> list_ex (in_interval x) (i # (a, c) # r)"
  using assms by (auto simp: in_interval_def)

lemma reserved6_iff:
  assumes "n < 2 ^ 128"
  shows "in_any 128 n reserved_networks6 \<longleftrightarrow>
    list_ex (in_interval (n div 2 ^ 112)) [(0, 0x2000), (0x4000, 0xFC00), (0xFE00, 0xFE80)]"
proof -
  have zero: "net6 [] len = net6 [0] len" for len by (simp add: net6_values)
  have "in_any 128 n reserved_networks6 \<longleftrightarrow> list_ex (in_interval (n div 2 ^ 112))
     [(0, 0x100), (0x100, 0x200), (0x200, 0x400), (0x400, 0x800), (0x800, 0x1000), (0x1000, 0x2000),
      (0x4000, 0x6000), (0x6000, 0x8000), (0x8000, 0xA000), (0xA000, 0xC000), (0xC000, 0xE000),
      (0xE000, 0xF000), (0xF000, 0xF800), (0xF800, 0xFC00), (0xFE00, 0xFE80)]"
    unfolding in_any_def reserved_networks6_def list_ex_Cons_iff list_ex_Nil_iff zero
    by (simp add: net6_hextet [OF assms] in_interval_def)
  then show ?thesis by (simp add: merge_intervals del: list_ex_Cons_iff)
qed

lemma low_networks6:
  assumes "n < 2 ^ 128"
    and "in_any 128 n [net6 [0, 0, 0, 0, 0, 0, 0, 1] 128, net6 [] 128, net6 [0, 0, 0, 0, 0, 0xFFFF] 96,
      net6 [0x64, 0xFF9B, 1] 48, net6 [0x100] 64]"
  shows "n div 2 ^ 112 < 0x2000"
proof -
  have r: "replicate 2 (0 :: nat) = [0, 0]" by code_simp
  have "n < 0x2000 * 2 ^ 112"
    using assms r unfolding in_any_def list_ex_Cons_iff list_ex_Nil_iff net6_values
    by (auto simp: net6_def big_endian_def in_network_range)
  then show ?thesis by (simp only: interval_div zero_less_power zero_less_numeral)
qed

lemma exceptions6:
  assumes "n < 2 ^ 128" "in_any 128 n private_exceptions6"
  shows "n div 2 ^ 112 = 0x2001"
proof -
  have "0x2001 * 2 ^ 112 \<le> n \<and> n < 0x2002 * 2 ^ 112"
    using assms unfolding in_any_def private_exceptions6_def list_ex_Cons_iff list_ex_Nil_iff net6_values
    by (auto simp: net6_def big_endian_def in_network_range)
  then have "0x2001 \<le> n div 2 ^ 112 \<and> n div 2 ^ 112 < 0x2002"
    by (simp only: interval_div zero_less_power zero_less_numeral)
  then show ?thesis by linarith
qed

text \<open>The IPv6 addresses that pass, on the first hextet \<open>h\<close> and the first two \<open>x\<close>: global unicast
  outside the special blocks (apart from the assigned exceptions), and, although it is not global
  unicast, the former site-local block.\<close>

definition global_unicast_v6 :: "nat \<Rightarrow> bool" where
  "global_unicast_v6 n \<longleftrightarrow> (let h = n div 2 ^ 112; x = n div 2 ^ 96 in
     0x2000 \<le> h \<and> h < 0x4000 \<and>
       (h \<noteq> 0x2002 \<and> x \<noteq> 0x20010DB8 \<and> \<not> (0x20010000 \<le> x \<and> x < 0x20010200) \<or>
        in_any 128 n private_exceptions6))"

definition site_local_v6 :: "nat \<Rightarrow> bool" where
  "site_local_v6 n \<longleftrightarrow> (let h = n div 2 ^ 112 in 0xFEC0 \<le> h \<and> h < 0xFF00)"

definition passing_v6 :: "nat \<Rightarrow> bool" where
  "passing_v6 n \<longleftrightarrow> global_unicast_v6 n \<or> site_local_v6 n"

lemmas passing_v6_shape = passing_v6_def global_unicast_v6_def site_local_v6_def Let_def

lemma private6_iff:
  assumes n: "n < 2 ^ 128" and h: "0x2000 \<le> n div 2 ^ 112"
  shows "in_any 128 n private_networks6 \<longleftrightarrow>
    n div 2 ^ 112 = 0x2002 \<or> n div 2 ^ 96 = 0x20010DB8 \<or>
    (0x20010000 \<le> n div 2 ^ 96 \<and> n div 2 ^ 96 < 0x20010200) \<or>
    0xFC00 \<le> n div 2 ^ 112 \<and> n div 2 ^ 112 < 0xFE00 \<or> 0xFE80 \<le> n div 2 ^ 112 \<and> n div 2 ^ 112 < 0xFEC0"
proof -
  let ?low = "[net6 [0, 0, 0, 0, 0, 0, 0, 1] 128, net6 [] 128, net6 [0, 0, 0, 0, 0, 0xFFFF] 96,
      net6 [0x64, 0xFF9B, 1] 48, net6 [0x100] 64]"
  have pad: "net6 [0x2001] 23 = net6 [0x2001, 0] 23" by (simp add: net6_values)
  have "private_networks6 = ?low @ [net6 [0x2001, 0] 23, net6 [0x2001, 0xDB8] 32, net6 [0x2002] 16,
      net6 [0xFC00] 7, net6 [0xFE80] 10]"
    by (simp add: private_networks6_def pad)
  moreover have "\<not> in_any 128 n ?low" using low_networks6 [OF n] h by fastforce
  ultimately have "in_any 128 n private_networks6 \<longleftrightarrow> in_any 128 n [net6 [0x2001, 0] 23,
      net6 [0x2001, 0xDB8] 32, net6 [0x2002] 16, net6 [0xFC00] 7, net6 [0xFE80] 10]"
    unfolding in_any_def by (metis list_ex_append)
  also have "\<dots> \<longleftrightarrow>
    (0x20010000 \<le> n div 2 ^ 96 \<and> n div 2 ^ 96 < 0x20010200) \<or> n div 2 ^ 96 = 0x20010DB8 \<or> n div 2 ^ 112 = 0x2002 \<or>
    0xFC00 \<le> n div 2 ^ 112 \<and> n div 2 ^ 112 < 0xFE00 \<or> 0xFE80 \<le> n div 2 ^ 112 \<and> n div 2 ^ 112 < 0xFEC0"
    unfolding in_any_def list_ex_Cons_iff list_ex_Nil_iff
    by (simp add: net6_hextet [OF n] net6_two_hextets [OF n] order_antisym_conv less_Suc_eq_le; linarith)
  finally show ?thesis by blast
qed

lemma mapped_low:
  assumes "ipv4_mapped (IPv6 n) \<noteq> None"
  shows "n div 2 ^ 112 < 0x2000"
proof -
  have "n div 2 ^ 32 = 0xFFFF" using assms by (simp add: ipv4_mapped_def drop_bit_eq_div split: if_splits)
  then have "n div 2 ^ 32 div 2 ^ 80 < 0x2000" by simp
  then show ?thesis unfolding div_mult2_eq [symmetric] by simp
qed

lemma ipv6_subject:
  assumes "n < 2 ^ 128"
  shows "subject_allowed (IPv6 n) \<longleftrightarrow> passing_v6 n"
proof -
  let ?h = "n div 2 ^ 112"
  have local: "is_link_local (IPv6 n) \<longleftrightarrow> 0xFE80 \<le> ?h \<and> ?h < 0xFEC0"
    using net6_hextet [OF assms, of 10 "0xFE80"] by (simp add: is_link_local_def)
  have multi: "is_multicast (IPv6 n) \<longleftrightarrow> 0xFF00 \<le> ?h \<and> ?h < 0x10000"
    using net6_hextet [OF assms, of 8 "0xFF00"] by (simp add: is_multicast_def)
  have res: "is_reserved (IPv6 n) \<longleftrightarrow> ?h < 0x2000 \<or> 0x4000 \<le> ?h \<and> ?h < 0xFC00 \<or> 0xFE00 \<le> ?h \<and> ?h < 0xFE80"
    using reserved6_iff [OF assms] by (simp add: is_reserved_def in_interval_def)
  have "n < 0x10000 * 2 ^ 112" using assms by simp
  then have top: "?h < 0x10000" by (simp only: interval_div zero_less_power zero_less_numeral)
  show ?thesis
  proof (cases "?h < 0x2000")
    case True
    then show ?thesis using res by (simp add: subject_allowed_def passing_v6_shape)
  next
    case False
    then have h: "0x2000 \<le> ?h" by simp
    have "ipv4_mapped (IPv6 n) = None" using mapped_low [of n] False by blast
    then have priv: "is_private (IPv6 n) \<longleftrightarrow> in_any 128 n private_networks6 \<and> \<not> in_any 128 n private_exceptions6"
      by (simp add: is_private_def)
    have "n \<noteq> 0" "n \<noteq> 1" using h by auto
    then have "is_unspecified (IPv6 n) = False" "is_loopback (IPv6 n) = False"
      by (simp_all add: is_unspecified_def is_loopback_def)
    moreover have "is_global (IPv6 n) \<longleftrightarrow> \<not> is_private (IPv6 n)" by (simp add: is_global_def)
    ultimately have "subject_allowed (IPv6 n) \<longleftrightarrow>
        \<not> is_private (IPv6 n) \<and> \<not> is_link_local (IPv6 n) \<and> \<not> is_multicast (IPv6 n) \<and> \<not> is_reserved (IPv6 n)"
      by (auto simp: subject_allowed_def)
    also have "\<dots> \<longleftrightarrow> passing_v6 n"
      unfolding priv local multi res private6_iff [OF assms h] passing_v6_shape
      using h top exceptions6 [OF assms]
      by (cases "?h < 0x4000"; cases "in_any 128 n private_exceptions6") (simp_all, linarith+)
    finally show ?thesis .
  qed
qed

section \<open>Address texts\<close>

lemma big_endian_bound: "list_all (\<lambda>d. d < base) ds \<Longrightarrow> big_endian base ds < base ^ length ds"
proof (induction ds rule: rev_induct)
  case (snoc d ds)
  then have "Suc (big_endian base ds) \<le> base ^ length ds" "d < base" by simp_all
  then have "base * Suc (big_endian base ds) \<le> base * base ^ length ds" by (intro mult_le_mono) simp
  with \<open>d < base\<close> show ?case by (simp add: big_endian_def)
qed (simp add: big_endian_def)

lemma hex_val_less: "hex_val c = Some d \<Longrightarrow> d < 16"
  by (auto simp: hex_val_def is_digit_def char_in_def less_eq_char_def split: if_splits)

lemma parse_hextet_less:
  assumes "parse_hextet s = Some d"
  shows "d < 65536"
proof -
  let ?ds = "map (\<lambda>c. the (hex_val c)) s"
  from assms have s: "list_all (\<lambda>c. hex_val c \<noteq> None) s" "length s \<le> 4" "d = big_endian 16 ?ds"
    by (auto simp: parse_hextet_def split: if_splits)
  have "list_all (\<lambda>d. d < 16) ?ds"
    using s(1) by (auto simp: list_all_iff intro: hex_val_less)
  then have "d < 16 ^ length s" using big_endian_bound [of 16 ?ds] s(3) by simp
  also have "(16 :: nat) ^ length s \<le> 16 ^ 4" using s(2) by (intro power_increasing) simp_all
  finally show ?thesis by simp
qed

lemma those_SomeD: "those xs = Some ys \<Longrightarrow> map Some ys = xs"
  by (induction xs arbitrary: ys) (auto split: option.splits)

lemma part_layout_eight: "part_layout parts = Some (hi, lo, skipped) \<Longrightarrow> hi + skipped + lo = 8"
  by (auto simp: part_layout_def Let_def split: list.splits if_splits)

lemma ipv6_int_bound:
  assumes "ipv6_int_of_string s = Some n"
  shows "n < 2 ^ 128"
proof -
  from assms obtain parts hi lo skipped ds where l: "part_layout parts = Some (hi, lo, skipped)"
    and t: "those (map parse_hextet (take hi parts) @ replicate skipped (Some 0)
        @ map parse_hextet (drop (length parts - lo) parts)) = Some ds"
    and n: "n = big_endian 65536 ds"
    by (auto simp: ipv6_int_of_string_def Let_def split: if_splits option.splits prod.splits)
  note ds = those_SomeD [OF t]
  have "length ds \<le> 8"
    using arg_cong [OF ds, of length] part_layout_eight [OF l] by simp
  have "Some d \<in> set (map parse_hextet (take hi parts) @ replicate skipped (Some 0)
      @ map parse_hextet (drop (length parts - lo) parts))" if "d \<in> set ds" for d
    unfolding ds [symmetric] using that by simp
  then have "list_all (\<lambda>d. d < 65536) ds"
    by (force simp: list_all_iff dest: parse_hextet_less [OF sym])
  then have "n < 65536 ^ length ds" unfolding n by (rule big_endian_bound)
  also have "(65536 :: nat) ^ length ds \<le> 65536 ^ 8" using \<open>length ds \<le> 8\<close> by (intro power_increasing) simp_all
  finally show ?thesis by simp
qed

lemma split_char_absent: "sep \<notin> set s \<Longrightarrow> split_char sep s = [s]"
  using split_char_join [of "[s]" sep] by simp

lemma ipv6_text:
  assumes "ipv6_of_string s = Some n"
  shows "n < 2 ^ 128" "CHR '':'' \<in> set s"
proof -
  let ?a = "takeWhile (\<lambda>c. c \<noteq> CHR ''%'') s"
  from assms have i: "ipv6_int_of_string ?a = Some n"
    by (auto simp: ipv6_of_string_def Let_def split: if_splits)
  then show "n < 2 ^ 128" by (rule ipv6_int_bound)
  have "\<not> length (split_char CHR '':'' ?a) < 3" using i by (auto simp: ipv6_int_of_string_def Let_def split: if_splits)
  then have "split_char CHR '':'' ?a \<noteq> [?a]" by auto
  then have "CHR '':'' \<in> set ?a" using split_char_absent by blast
  then show "CHR '':'' \<in> set s" by (rule set_takeWhileD [THEN conjunct1])
qed

lemma digit_not:
  "\<not> is_digit CHR ''.''" "\<not> is_digit CHR '':''" "\<not> is_digit CHR ''x''" "\<not> is_digit CHR ''[''"
  "\<not> is_digit CHR '']''" "\<not> is_digit CHR ''l''"
  by code_simp+

lemma dotted_dot: "CHR ''.'' \<in> set (dotted a b c d)"
  by (simp add: dotted_def)

lemma dotted_no_colon: "CHR '':'' \<notin> set (dotted a b c d)"
  using dotted_chars [of "CHR '':''" a b c d] digit_not by auto

text \<open>A canonical octet is not written with a leading zero.\<close>

lemma octet_no_leading_zero: "\<not> zero_then_octal (dec_digits n)"
proof (cases "n = 0")
  case True
  then show ?thesis by (simp add: dec_digits_0 zero_then_octal_def)
next
  case False
  then show ?thesis using dec_digits_hd [OF False] by (auto simp: zero_then_octal_def split: list.splits)
qed

lemma dotted_standard: "\<not> evades_standard_formatting (dotted a b c d)"
proof -
  let ?s = "dotted a b c d"
  have ne: "?s \<noteq> []" using dotted_dot [of a b c d] by auto
  then have ends: "hd ?s \<noteq> CHR ''[''" "last ?s \<noteq> CHR '']''"
    using dotted_chars [OF hd_in_set [OF ne]] dotted_chars [OF last_in_set [OF ne]] digit_not by auto
  have bracket: "\<not> starts_with ''['' ?s" using ends(1) by (auto simp: starts_with_iff)
  have "CHR ''x'' \<notin> set ?s" using dotted_chars [of "CHR ''x''" a b c d] digit_not by auto
  then have hex: "\<not> hex_encoded ?s" by (auto simp: hex_encoded_def starts_with_iff)
  have int: "\<not> integer_only ?s"
    using dotted_dot [of a b c d] digit_not(1) by (auto simp: integer_only_def list_all_iff)
  have "\<not> is_octal CHR ''.''" by code_simp
  then have oct: "\<not> octal_token ?s"
    using dotted_dot [of a b c d] by (auto simp: octal_token_def starts_with_iff list_all_iff)
  have "\<not> dotted_leading_zero ?s"
    by (simp add: dotted_leading_zero_def split_dotted octet_no_leading_zero)
  with ends ne bracket hex int oct show ?thesis by (simp add: evades_standard_formatting_def)
qed

lemma not_localhost:
  assumes "CHR ''.'' \<in> set s \<or> CHR '':'' \<in> set s"
  shows "py_lower s \<noteq> ''localhost''"
proof
  assume "py_lower s = ''localhost''"
  moreover have "py_lower_char CHR ''.'' = CHR ''.''" "py_lower_char CHR '':'' = CHR '':''" by code_simp+
  then have "CHR ''.'' \<in> set (py_lower s) \<or> CHR '':'' \<in> set (py_lower s)"
    using assms unfolding py_lower_def set_map by (metis imageI)
  ultimately show False by simp
qed

lemma address_text_attempt:
  assumes "ip_address s = Some ip"
  shows "CHR ''.'' \<in> set s \<or> CHR '':'' \<in> set s"
  using assms ipv6_text(2) dotted_dot by (auto simp: ip_address_def ipv4_text_iff split: option.splits)

lemma guard_iff_parsed:
  "external_lookup_allowed raw \<longleftrightarrow> \<not> evades_standard_formatting (py_strip raw) \<and>
     (\<exists>ip. ip_address (py_strip raw) = Some ip \<and>
        list_all subject_allowed (case ipv4_mapped ip of None \<Rightarrow> [ip] | Some mapped \<Rightarrow> [ip, mapped]))"
proof (cases "ip_address (py_strip raw)")
  case None
  then show ?thesis by (simp add: external_lookup_allowed_def Let_def)
next
  case (Some ip)
  note addr = address_text_attempt [OF Some]
  then have "py_strip raw \<noteq> []" "looks_like_ip_attempt (py_strip raw)"
    by (auto simp: looks_like_ip_attempt_def)
  with Some not_localhost [OF addr] show ?thesis by (simp add: external_lookup_allowed_def Let_def)
qed

lemma guard_strip [simp]: "external_lookup_allowed (py_strip s) = external_lookup_allowed s"
  by (simp add: external_lookup_allowed_def py_strip_idem)

lemma allowed_text_iff:
  "external_lookup_allowed raw \<longleftrightarrow>
     (\<exists>a b c d. octets a b c d \<and> py_strip raw = dotted a b c d \<and> public_octets a b c d) \<or>
     (\<exists>n. ipv6_of_string (py_strip raw) = Some n \<and> passing_v6 n \<and> \<not> evades_standard_formatting (py_strip raw))"
proof (cases "ipv4_of_string (py_strip raw)")
  case (Some n)
  then obtain a b c d where q: "octets a b c d" "py_strip raw = dotted a b c d" "n = quad a b c d"
    by (auto simp: ipv4_text_iff)
  have "ipv6_of_string (dotted a b c d) = None"
    using ipv6_text(2) [of "dotted a b c d"] dotted_no_colon by (cases "ipv6_of_string (dotted a b c d)") auto
  moreover have "external_lookup_allowed raw \<longleftrightarrow> public_octets a b c d"
    using Some q dotted_standard ipv4_subject [OF q(1)]
    by (simp add: guard_iff_parsed ip_address_def ipv4_mapped_def)
  ultimately show ?thesis unfolding q(2) using q(1) by (auto simp: dotted_inject)
next
  case None
  have "list_all subject_allowed (case ipv4_mapped (IPv6 n) of None \<Rightarrow> [IPv6 n] | Some m \<Rightarrow> [IPv6 n, m]) \<longleftrightarrow> passing_v6 n"
    if "n < 2 ^ 128" for n
    using ipv6_subject [OF that] mapped_low [of n] by (auto simp: passing_v6_shape split: option.splits)
  with ipv6_text(1) [of "py_strip raw"] None have "external_lookup_allowed raw \<longleftrightarrow>
      (\<exists>n. ipv6_of_string (py_strip raw) = Some n \<and> passing_v6 n \<and> \<not> evades_standard_formatting (py_strip raw))"
    by (auto simp: guard_iff_parsed ip_address_def)
  moreover have "\<not> (octets a b c d \<and> py_strip raw = dotted a b c d)" for a b c d
    using None dotted_parses by fastforce
  ultimately show ?thesis by blast
qed

section \<open>The private-address test\<close>

text \<open>No text that the private-address test recognises is ever allowed out.\<close>

lemma private_never_allowed: "\<not> (is_rfc1918_or_loopback_ip t \<and> external_lookup_allowed t)"
proof
  assume a: "is_rfc1918_or_loopback_ip t \<and> external_lookup_allowed t"
  then consider (v4) a b c d where "octets a b c d" "py_strip t = dotted a b c d" "public_octets a b c d"
    | (v6) n where "ipv6_of_string (py_strip t) = Some n" "passing_v6 n"
    by (auto simp: allowed_text_iff)
  then show False
  proof cases
    case v4
    have n: "octets 10 0 0 0" "octets 127 0 0 0" "octets 169 254 0 0" "octets 192 168 0 0"
      by (simp_all add: octets_def)
    from v4 have "ip_address (py_strip t) = Some (IPv4 (quad a b c d))"
      by (simp add: ip_address_def dotted_parses)
    with a have "is_loopback (IPv4 (quad a b c d)) \<or> is_link_local (IPv4 (quad a b c d)) \<or> rfc1918_and_ula (IPv4 (quad a b c d))"
      by (simp add: is_rfc1918_or_loopback_ip_def ipv4_mapped_def Let_def)
    then show False
      unfolding is_loopback_def is_link_local_def rfc1918_and_ula_def in_any_def ip_value.case
        list_ex_Cons_iff list_ex_Nil_iff octet_network [OF v4(1) n(1)] octet_network [OF v4(1) n(2)]
        octet_network [OF v4(1) n(3)] octet_network [OF v4(1) n(4)] octet_range [OF v4(1)]
      using v4(3) by (auto simp: public_octets_def)
  next
    case v6
    note n = ipv6_text(1) [OF v6(1)]
    have h: "0x2000 \<le> n div 2 ^ 112" using v6(2) by (auto simp: passing_v6_shape)
    then have "ipv4_mapped (IPv6 n) = None" "n \<noteq> 1" using mapped_low [of n] by fastforce+
    moreover have "ipv4_of_string (py_strip t) = None"
      using ipv6_text(2) [OF v6(1)] dotted_no_colon by (cases "ipv4_of_string (py_strip t)") (auto simp: ipv4_text_iff)
    ultimately have "in_network 128 n (net6 [0xFE80] 10) \<or> in_network 128 n (net6 [0xFC00] 7)"
      using a v6(1) by (simp add: is_rfc1918_or_loopback_ip_def ip_address_def is_loopback_def
          is_link_local_def rfc1918_and_ula_def)
    then show False
      using v6(2) net6_hextet [OF n, of 10 "0xFE80"] net6_hextet [OF n, of 7 "0xFC00"]
      by (auto simp: passing_v6_shape)
  qed
qed

lemma allowed_dotted:
  assumes "octets a b c d" "py_strip raw = dotted a b c d"
  shows "external_lookup_allowed raw \<longleftrightarrow> public_octets a b c d"
proof -
  have "ipv6_of_string (dotted a b c d) = None"
    using ipv6_text(2) [of "dotted a b c d"] dotted_no_colon by (cases "ipv6_of_string (dotted a b c d)") auto
  with assms show ?thesis by (auto simp: allowed_text_iff dotted_inject)
qed

text \<open>The texts of public addresses, and those of the site-local block.\<close>

definition site_local_text :: "string \<Rightarrow> bool" where
  "site_local_text raw \<longleftrightarrow> (case ipv6_of_string (py_strip raw) of None \<Rightarrow> False | Some n \<Rightarrow> site_local_v6 n)"

definition public_address_text :: "string \<Rightarrow> bool" where
  "public_address_text raw \<longleftrightarrow>
     (\<exists>a b c d. octets a b c d \<and> py_strip raw = dotted a b c d \<and> public_octets a b c d) \<or>
     (\<exists>n. ipv6_of_string (py_strip raw) = Some n \<and> global_unicast_v6 n \<and> \<not> evades_standard_formatting (py_strip raw))"

lemma allowed_public: "\<not> site_local_text raw \<Longrightarrow> external_lookup_allowed raw \<longleftrightarrow> public_address_text raw"
  unfolding allowed_text_iff public_address_text_def
  by (auto simp: site_local_text_def passing_v6_def)

text \<open>C25: The lookup guard lets through global unicast addresses and nothing else: a text that does not name
  an address of the former site-local block \<open>fec0::/10\<close> passes exactly when, without surrounding white
  space, it is the canonical dotted form of an IPv4 address in none of the special blocks, octet by octet,
  or it parses as an IPv6 address of \<open>2000::/3\<close> outside the special blocks (apart from their assigned
  exceptions) and is not written in an evasive way.  The guard response is 422 exactly for the texts that
  look like an address and are not such, 200 otherwise, repeats the stripped text and never says that a
  lookup was performed.  (The site-local block does pass the code, against its documentation: see
  \<open>site_local_allowed\<close>.)\<close>

theorem lookup_guard_exact:
  assumes "\<not> site_local_text raw"
  shows "(external_lookup_allowed raw \<longleftrightarrow>
     (\<exists>a b c d. octets a b c d \<and> py_strip raw = dotted a b c d \<and> public_octets a b c d) \<or>
     (\<exists>n. ipv6_of_string (py_strip raw) = Some n \<and> global_unicast_v6 n \<and> \<not> evades_standard_formatting (py_strip raw))) \<and>
   fst (private_ip_guard_response raw) =
     (if looks_like_ip_attempt (py_strip raw) \<and> \<not> public_address_text raw then 422 else 200) \<and>
   (case snd (private_ip_guard_response raw) of JObj kvs \<Rightarrow>
      map_of kvs ''external_lookup_performed'' = Some (JBool False) \<and>
      map_of kvs ''value'' = Some (JStr (py_strip raw)) | _ \<Rightarrow> False)"
  unfolding public_address_text_def [symmetric] allowed_public [OF assms, symmetric]
  by (simp add: private_ip_guard_response_def Let_def guard_strip)

text \<open>At a documentation address, which is refused, in spite of the white space around it.\<close>

theorem lookup_guard_exact_witness:
  "\<not> external_lookup_allowed '' 203.0.113.9 '' \<and> fst (private_ip_guard_response '' 203.0.113.9 '') = 422"
proof -
  have t: "py_strip '' 203.0.113.9 '' = dotted 203 0 113 9" "octets 203 0 113 9"
    by (code_simp, simp add: octets_def)
  have "ipv6_of_string (py_strip '' 203.0.113.9 '') = None" by code_simp
  then have n: "\<not> site_local_text '' 203.0.113.9 ''" "\<not> public_address_text '' 203.0.113.9 ''"
    using t(2) by (auto simp: site_local_text_def public_address_text_def t(1) dotted_inject public_octets_def)
  moreover have "looks_like_ip_attempt (py_strip '' 203.0.113.9 '')" by code_simp
  ultimately show ?thesis
    using lookup_guard_exact [OF n(1)] unfolding public_address_text_def [symmetric] by simp
qed

end
