(* ===== verification/SoarStack_Facts.thy ===== *)
theory SoarStack_Facts
  imports SoarStack ThreatIntel AddressGuard_Facts SoarEngine_Facts
begin

text \<open>
  What leaves the system through the clients of external services: only public addresses are looked
  up, only approved responses are sent, and what was sent can be found again in the outbox.
\<close>

section \<open>Indicator lookups\<close>

lemma query_sends:
  "fst (query_indicator frepr cfg env ob indicator ty) =
     (if address_attempt (py_strip indicator) ty \<and> \<not> external_lookup_allowed indicator then None
      else Some (restsearch_request cfg (py_strip indicator) ty))"
  by (simp add: query_indicator_def Let_def)

text \<open>The spellings under which resolvers accept an address: what the library parses, the loopback name, a
  bracketed literal, and one to four parts between dots of which each is a decimal, octal or hexadecimal
  number (\<^verbatim>\<open>2130706433\<close>, \<^verbatim>\<open>0x7F000001\<close>, \<^verbatim>\<open>017700000001\<close>, \<^verbatim>\<open>0x7f.1\<close>).\<close>

definition number_part :: "string \<Rightarrow> bool" where
  "number_part p \<longleftrightarrow> integer_only p \<or> octal_token p \<or> hex_encoded (py_lower p)"

definition spells_address :: "string \<Rightarrow> bool" where
  "spells_address s \<longleftrightarrow> ip_address s \<noteq> None \<or> py_lower s = ''localhost'' \<or> starts_with ''['' s \<or>
     (let parts = split_char CHR ''.'' s in length parts \<le> 4 \<and> list_all number_part parts)"

lemma number_part_attempted:
  assumes "number_part s"
  shows "py_isdigit s \<or> starts_with ''0x'' (py_lower s)"
proof -
  have "py_isdigit s" if "integer_only s" using that by (auto simp: py_isdigit_def integer_only_def list_all_iff)
  moreover have "integer_only s" if "octal_token s"
  proof -
    from that obtain t where s: "s = CHR ''0'' # t" "list_all is_octal t"
      by (cases s) (auto simp: octal_token_def starts_with_def)
    have "is_octal c \<Longrightarrow> is_digit c" for c
      by (auto simp: is_octal_def is_digit_def char_in_def less_eq_char_def)
    then show ?thesis using s by (auto simp: integer_only_def list_all_iff is_digit_def char_in_def less_eq_char_def)
  qed
  ultimately show ?thesis using assms by (auto simp: number_part_def hex_encoded_def)
qed

lemma address_attempted:
  assumes "spells_address s \<or> contains ''ip'' (py_lower ty)"
  shows "address_attempt s ty"
proof (cases "ip_address s")
  case (Some ip)
  then show ?thesis using address_text_attempt by (auto simp: address_attempt_def)
next
  case None
  show ?thesis
  proof (cases "CHR ''.'' \<in> set s")
    case False
    then have "split_char CHR ''.'' s = [s]" by (rule split_char_absent)
    with assms None number_part_attempted [of s] show ?thesis
      by (auto simp: spells_address_def Let_def address_attempt_def)
  qed (simp add: address_attempt_def)
qed

lemma enrich_asks:
  "case fst (enrich_entity_contract rd fmt en now contract) of None \<Rightarrow> True
   | Some asked \<Rightarrow> list_all external_lookup_allowed asked"
  by (auto simp: enrich_entity_contract_def public_ips_def list_all_iff split: option.splits)

text \<open>C14: No special address leaves the system through a lookup.  A query of the MISP client sends nothing
  or exactly one request, with the stripped indicator.  When the stripped indicator spells an address in
  any of the ways resolvers accept (the library's, \<^verbatim>\<open>localhost\<close>, a bracketed literal, or one to four decimal,
  octal or hexadecimal numbers between dots), whatever the declared type, or when the declared type names
  an IP, and it is not a text of the former site-local block, then it is sent only if it is the canonical
  text of a public address, octet by octet or hextet by hextet; a private, loopback or link-local address
  is never sent; and the enrichment asks its feed provider about public addresses only, again the
  site-local block apart.  (That block passes the code's guard, which is the finding
  \<open>site_local_allowed\<close>.)\<close>

theorem outgoing_addresses_public:
  assumes "\<not> site_local_text indicator"
    and "spells_address (py_strip indicator) \<or> contains ''ip'' (py_lower ty)"
  shows "fst (query_indicator frepr cfg env ob indicator ty) =
     (if public_address_text indicator then Some (restsearch_request cfg (py_strip indicator) ty) else None) \<and>
   \<not> (is_rfc1918_or_loopback_ip indicator \<and> public_address_text indicator) \<and>
   (case fst (enrich_entity_contract rd fmt en now contract) of None \<Rightarrow> True
    | Some asked \<Rightarrow> list_all public_address_text (filter (\<lambda>ip. \<not> site_local_text ip) asked))"
proof (intro conjI)
  show "fst (query_indicator frepr cfg env ob indicator ty) =
     (if public_address_text indicator then Some (restsearch_request cfg (py_strip indicator) ty) else None)"
    unfolding query_sends allowed_public [OF assms(1)] using address_attempted [OF assms(2)] by simp
  show "\<not> (is_rfc1918_or_loopback_ip indicator \<and> public_address_text indicator)"
    using private_never_allowed [of indicator] allowed_public [OF assms(1)] by blast
  show "case fst (enrich_entity_contract rd fmt en now contract) of None \<Rightarrow> True
    | Some asked \<Rightarrow> list_all public_address_text (filter (\<lambda>ip. \<not> site_local_text ip) asked)"
    using enrich_asks [of rd fmt en now contract] allowed_public
    by (fastforce simp: list_all_iff split: option.splits)
qed

section \<open>Enrichment\<close>

text \<open>Every entity inspected is annotated or may be looked up, and none is both.\<close>

lemma enrichment_partition:
  fixes fmt en now
  assumes "is_verified rd p"
  defines "r \<equiv> snd (enrich_entity_contract rd fmt en now (Some p))"
  shows "er_inspected_entities r = raw_ips p"
    "map fst (er_internal_lab_annotations r) = filter (\<lambda>ip. \<not> external_lookup_allowed ip) (raw_ips p)"
    "er_private_ip_guard_triggered r \<longleftrightarrow> er_internal_lab_annotations r \<noteq> []"
proof -
  have *: "raw_ips p \<noteq> [] \<Longrightarrow> public_ips p = [] \<Longrightarrow> internal_annotations en p \<noteq> []"
    by (auto simp: public_ips_def internal_annotations_def filter_empty_conv)
  show "er_inspected_entities r = raw_ips p"
    "map fst (er_internal_lab_annotations r) = filter (\<lambda>ip. \<not> external_lookup_allowed ip) (raw_ips p)"
    "er_private_ip_guard_triggered r \<longleftrightarrow> er_internal_lab_annotations r \<noteq> []"
    using assms(1) * unfolding r_def
    by (simp_all add: enrich_entity_contract_def degraded_def Let_def
        split: option.split provider_answer.split)
      (simp_all add: internal_annotations_def comp_def)
qed

section \<open>The approval gate\<close>

definition gate_open :: "string \<Rightarrow> sqlite_fault \<Rightarrow> soar_db \<Rightarrow> soar_record \<Rightarrow> bool" where
  "gate_open secret fault db r \<longleftrightarrow> sp_state r \<in> {''approved'', ''executed_simulated''} \<and>
     (\<exists>m. verify_audit_chain_integrity secret fault db None True = Inr (True, m))"

lemma response_gate_iff: "response_gate a b secret fault db r = Inr () \<longleftrightarrow> gate_open secret fault db r"
  by (auto simp: response_gate_def gate_open_def split: sum.splits)

lemma gate_closed: "\<not> gate_open secret fault db r \<Longrightarrow> \<exists>e. response_gate a b secret fault db r = Inl e"
  using response_gate_iff [of a b secret fault db r] by (cases "response_gate a b secret fault db r") auto

text \<open>What the two response clients share: a closed gate sends and records nothing.\<close>

locale gated_client =
  fixes send :: "'env \<Rightarrow> soar_db \<Rightarrow> outbox option \<Rightarrow> soar_record \<Rightarrow> 'call \<Rightarrow>
      http_request option \<times> outbox option \<times> (client_error + 'result)"
    and verify_fault :: "'env \<Rightarrow> sqlite_fault"
    and ledger_secret :: string
  assumes closed: "\<not> gate_open ledger_secret (verify_fault env) db r \<Longrightarrow>
      \<exists>e. send env db ob r call = (None, ob, Inl e)"
begin

lemma sent_needs_gate:
  "fst (send env db ob r call) \<noteq> None \<Longrightarrow> gate_open ledger_secret (verify_fault env) db r"
  using closed [of env db r ob call] by fastforce

lemma sent_needs_approval:
  assumes "fst (send env db ob r call) \<noteq> None" "r \<in> set (sd_records (soar_run rd secret cs))"
  shows "list_ex (approves (sp_playbook_id r)) cs"
    "\<exists>m. verify_audit_chain_integrity ledger_secret (verify_fault env) db None True = Inr (True, m)"
  using sent_needs_gate [OF assms(1)] approved_before [OF assms(2)]
  by (auto simp: gate_open_def past_approval_def)

end

interpretation n8n: gated_client "trigger_soar_playbook frepr url secret ledger_secret" ne_verify_fault ledger_secret
  for frepr url secret ledger_secret
proof
  fix env :: n8n_env and db r ob call
  assume "\<not> gate_open ledger_secret (ne_verify_fault env) db r"
  from gate_closed [OF this] show "\<exists>e. trigger_soar_playbook frepr url secret ledger_secret env db ob r call = (None, ob, Inl e)"
    unfolding trigger_soar_playbook_def by (metis (no_types, lifting) sum.case(1))
qed

interpretation hive: gated_client "create_case_from_soar fo url api_key ledger_secret" ne_verify_fault ledger_secret
  for fo url api_key ledger_secret
proof
  fix env :: n8n_env and db r ob call
  assume "\<not> gate_open ledger_secret (ne_verify_fault env) db r"
  from gate_closed [OF this] show "\<exists>e. create_case_from_soar fo url api_key ledger_secret env db ob r call = (None, ob, Inl e)"
    unfolding create_case_from_soar_def by (metis (no_types, lifting) sum.case(1))
qed

lemma n8n_sent:
  "fst (trigger_soar_playbook frepr url secret ledger_secret env db ob r call) =
     (if gate_open ledger_secret (ne_verify_fault env) db r then Some (n8n_request frepr url secret env call r) else None)"
proof (cases "gate_open ledger_secret (ne_verify_fault env) db r")
  case True
  then show ?thesis
    unfolding trigger_soar_playbook_def response_gate_iff [THEN iffD2, OF True]
    by (simp add: Let_def split: http_outcome.split prod.split sum.split)
next
  case False
  then obtain e where "trigger_soar_playbook frepr url secret ledger_secret env db ob r call = (None, ob, Inl e)"
    using n8n.closed by blast
  with False show ?thesis by simp
qed

text \<open>C13: No response leaves the system without an approval.  When a client is handed a record of any run of
  the response engine and sends a request for it, to n8n or to TheHive, the run contains an approval of
  that playbook by a named actor with a stated reason, and the audit chain of the ledger passed its
  verification just before; and the webhook carries the keyed digest of exactly the bytes it sends.\<close>

theorem response_needs_approval:
  assumes "r \<in> set (sd_records (soar_run rd s cs))"
    and "fst (trigger_soar_playbook frepr url secret ledger_secret env db ob r call) = Some rq \<or>
      fst (create_case_from_soar fo url' api_key ledger_secret env db ob r call') = Some rq'"
  shows "list_ex (approves (sp_playbook_id r)) cs \<and>
    (\<exists>m. verify_audit_chain_integrity ledger_secret (ne_verify_fault env) db None True = Inr (True, m)) \<and>
    (fst (trigger_soar_playbook frepr url secret ledger_secret env db ob r call) = Some rq \<longrightarrow>
       map_of (rq_headers rq) ''X-ThreatFusion-Signature-256'' = Some (hmac_sha256_hex (utf8 secret) (rq_body rq)) \<and>
       map_of (rq_headers rq) ''X-Idempotency-Key'' = Some (idempotency_key r))"
proof (intro conjI impI)
  show "list_ex (approves (sp_playbook_id r)) cs"
    using assms n8n.sent_needs_approval(1) hive.sent_needs_approval(1) by (metis option.distinct(1))
  show "\<exists>m. verify_audit_chain_integrity ledger_secret (ne_verify_fault env) db None True = Inr (True, m)"
    using assms n8n.sent_needs_approval(2) hive.sent_needs_approval(2) by (metis option.distinct(1))
next
  assume "fst (trigger_soar_playbook frepr url secret ledger_secret env db ob r call) = Some rq"
  then have "rq = n8n_request frepr url secret env call r" by (simp add: n8n_sent split: if_splits)
  then show "map_of (rq_headers rq) ''X-ThreatFusion-Signature-256'' = Some (hmac_sha256_hex (utf8 secret) (rq_body rq))"
    "map_of (rq_headers rq) ''X-Idempotency-Key'' = Some (idempotency_key r)"
    by (simp_all add: n8n_request_def Let_def n8n_signature_def)
qed

section \<open>The durable outbox\<close>

text \<open>The key of a record determines its playbook and version.\<close>

lemma dec_int_no_underscore: "CHR ''_'' \<notin> set (dec_int i)"
proof -
  have "CHR ''_'' \<notin> set (dec_digits n)" for n
    using dec_digits_digits [of n] by (auto simp: list_all_iff is_digit_def char_in_def less_eq_char_def)
  then show ?thesis by (simp add: dec_int_def)
qed

lemma last_separator:
  "c \<notin> set u \<Longrightarrow> c \<notin> set v \<Longrightarrow> s @ c # u = t @ c # v \<longleftrightarrow> s = t \<and> u = v"
  by (auto simp: append_eq_append_conv2 Cons_eq_append_conv append_eq_Cons_conv)

lemma dec_int_inject: "dec_int i = dec_int j \<longleftrightarrow> i = j"
proof
  assume eq: "dec_int i = dec_int j"
  have v: "dec_digits m = dec_digits n \<Longrightarrow> m = n" for m n using nat_of_dec_digits by metis
  have "dec_digits m \<noteq> CHR ''-'' # t" for m t using dec_digits_not_minus by blast
  with eq show "i = j"
    by (auto simp: dec_int_def dest!: v split: if_splits) metis
qed simp

lemma idempotency_key_inject:
  "idempotency_key r = idempotency_key q \<longleftrightarrow> sp_playbook_id r = sp_playbook_id q \<and> sp_version r = sp_version q"
proof -
  have "idempotency_key r = idempotency_key q \<longleftrightarrow>
      sp_playbook_id r @ CHR ''_'' # dec_int (sp_version r) = sp_playbook_id q @ CHR ''_'' # dec_int (sp_version q)"
    by (simp add: idempotency_key_def)
  also have "\<dots> \<longleftrightarrow> sp_playbook_id r = sp_playbook_id q \<and> sp_version r = sp_version q"
    unfolding last_separator [OF dec_int_no_underscore dec_int_no_underscore] dec_int_inject ..
  finally show ?thesis .
qed

lemma latest_row_snoc:
  assumes "\<forall>x \<in> set rows. ex_created_at_utc x < ex_created_at_utc y"
  shows "latest_row (rows @ [y]) = Some y"
proof (cases rows)
  case Nil
  then show ?thesis by (simp add: latest_row_def)
next
  case (Cons r rs)
  let ?pick = "\<lambda>best x. if ex_created_at_utc best < ex_created_at_utc x then x else best"
  have "foldl ?pick r rs \<in> set (r # rs)" for r :: execution_row and rs
  proof (induction rs arbitrary: r)
    case (Cons x rs)
    from Cons [of "?pick r x"] show ?case by (auto split: if_splits)
  qed simp
  with Cons assms have "ex_created_at_utc (foldl ?pick r rs) < ex_created_at_utc y" by blast
  with Cons show ?thesis by (simp add: latest_row_def)
qed

lemma n8n_delivered:
  assumes "gate_open ledger_secret (ne_verify_fault env) db r" "ne_fault env = No_fault" "ne_status env \<noteq> Raised"
    and "execution_id env \<notin> set (map ex_execution_id (ob_executions o'))"
  shows "\<exists>rec. trigger_soar_playbook frepr url secret ledger_secret env db (Some o') r call =
      (Some (n8n_request frepr url secret env call r),
       Some (o'\<lparr>ob_executions := ob_executions o' @ [receipt_row frepr rec]\<rparr>), Inr rec) \<and>
    nr_execution_id rec = execution_id env \<and> nr_playbook_id rec = sp_playbook_id r \<and>
    nr_idempotency_key rec = idempotency_key r \<and> nr_dispatched_at_utc rec = isoformat (ne_now env) \<and>
    nr_signature_sha256 rec = n8n_signature secret (canonical_bytes frepr env call r) \<and>
    (nr_status rec = ''dispatched_live'' \<longleftrightarrow> (\<exists>code \<in> {200, 201, 204}. ne_status env = Answered code))"
  unfolding trigger_soar_playbook_def response_gate_iff [THEN iffD2, OF assms(1)]
  using assms(2-)
  by (cases "ne_status env") (simp_all add: Let_def insert_execution_def receipt_row_def n8n_request_def)

text \<open>C26: What was dispatched can be looked up.  When the gate is open, the answer of the server is of a kind the
  client handles, the insert succeeds under a new identifier and the clock has moved on since the earlier
  rows of the same key, then the call returns a receipt, and the lookup of its key answers with exactly
  this execution and its status, live only when the server accepted it; keys of other playbooks or
  other versions are answered as before.\<close>

theorem dispatch_found:
  assumes "sp_state r \<in> {''approved'', ''executed_simulated''}"
    and "verify_audit_chain_integrity ledger_secret (ne_verify_fault env) db None True = Inr (True, m)"
    and "ne_fault env = No_fault" "ne_status env \<noteq> Raised"
    and "execution_id env \<notin> set (map ex_execution_id (ob_executions o'))"
    and "\<forall>x \<in> set (ob_executions o'). ex_idempotency_key x = idempotency_key r \<longrightarrow>
           ex_created_at_utc x < isoformat (ne_now env)"
  shows "\<exists>o'' rec. trigger_soar_playbook frepr url secret ledger_secret env db (Some o') r call =
      (Some (n8n_request frepr url secret env call r), Some o'', Inr rec) \<and>
    (nr_status rec = ''dispatched_live'' \<longleftrightarrow> (\<exists>code \<in> {200, 201, 204}. ne_status env = Answered code)) \<and>
    lookup_durable_dispatch No_fault (Some o'') (idempotency_key r) =
      JObj [(''evidence_state'', JStr ''verified''), (''status'', JStr (nr_status rec)),
        (''execution_id'', JStr (execution_id env)), (''playbook_id'', JStr (sp_playbook_id r)),
        (''idempotency_key'', JStr (idempotency_key r)), (''retry_requires_new_approval'', JBool False)] \<and>
    (\<forall>q. sp_playbook_id q \<noteq> sp_playbook_id r \<or> sp_version q \<noteq> sp_version r \<longrightarrow>
       lookup_durable_dispatch No_fault (Some o'') (idempotency_key q) =
       lookup_durable_dispatch No_fault (Some o') (idempotency_key q))"
proof -
  have "gate_open ledger_secret (ne_verify_fault env) db r" using assms(1,2) by (auto simp: gate_open_def)
  from n8n_delivered [OF this assms(3-5)] obtain rec where rec:
    "trigger_soar_playbook frepr url secret ledger_secret env db (Some o') r call =
      (Some (n8n_request frepr url secret env call r),
       Some (o'\<lparr>ob_executions := ob_executions o' @ [receipt_row frepr rec]\<rparr>), Inr rec)"
    "nr_execution_id rec = execution_id env" "nr_playbook_id rec = sp_playbook_id r"
    "nr_idempotency_key rec = idempotency_key r" "nr_dispatched_at_utc rec = isoformat (ne_now env)"
    "nr_status rec = ''dispatched_live'' \<longleftrightarrow> (\<exists>code \<in> {200, 201, 204}. ne_status env = Answered code)"
    by blast
  let ?o = "o'\<lparr>ob_executions := ob_executions o' @ [receipt_row frepr rec]\<rparr>"
  have row: "ex_idempotency_key (receipt_row frepr rec) = idempotency_key r"
    "ex_created_at_utc (receipt_row frepr rec) = isoformat (ne_now env)"
    "ex_execution_id (receipt_row frepr rec) = execution_id env"
    "ex_playbook_id (receipt_row frepr rec) = sp_playbook_id r" "ex_status (receipt_row frepr rec) = nr_status rec"
    using rec by (simp_all add: receipt_row_def)
  have "latest_row (filter (\<lambda>x. ex_idempotency_key x = idempotency_key r) (ob_executions o') @ [receipt_row frepr rec])
      = Some (receipt_row frepr rec)"
    using assms(6) row by (intro latest_row_snoc) auto
  then have "lookup_durable_dispatch No_fault (Some ?o) (idempotency_key r) =
      JObj [(''evidence_state'', JStr ''verified''), (''status'', JStr (nr_status rec)),
        (''execution_id'', JStr (execution_id env)), (''playbook_id'', JStr (sp_playbook_id r)),
        (''idempotency_key'', JStr (idempotency_key r)), (''retry_requires_new_approval'', JBool False)]"
    using row by (simp add: lookup_durable_dispatch_def Let_def)
  moreover have "lookup_durable_dispatch No_fault (Some ?o) (idempotency_key q) =
      lookup_durable_dispatch No_fault (Some o') (idempotency_key q)"
    if "sp_playbook_id q \<noteq> sp_playbook_id r \<or> sp_version q \<noteq> sp_version r" for q
  proof -
    have "idempotency_key r \<noteq> idempotency_key q" using that by (auto simp: idempotency_key_inject)
    then show ?thesis using row by (simp add: lookup_durable_dispatch_def)
  qed
  ultimately show ?thesis using rec(1,6) by blast
qed

section \<open>What modelling showed\<close>

text \<open>The guard promises global unicast addresses only; the former site-local block passes it.\<close>

theorem site_local_allowed: "external_lookup_allowed ''fec0::1''"
proof -
  have "py_strip ''fec0::1'' = ''fec0::1''" "\<not> evades_standard_formatting ''fec0::1''" by code_simp+
  moreover have "ipv6_of_string ''fec0::1'' = Some 338620831926207318622244848606417780737" by code_simp
  moreover have "passing_v6 338620831926207318622244848606417780737" by (simp add: passing_v6_shape)
  ultimately show ?thesis by (simp add: allowed_text_iff)
qed

text \<open>The gate looks at the record it is handed, not at the stored one: whatever the ledger now holds for the
  playbook (rolled back, rejected, nothing), an old approved copy passes.\<close>

theorem gate_ignores_stored_records:
  "response_gate a b secret fault (db\<lparr>sd_records := rs\<rparr>) r = response_gate a b secret fault db r"
proof -
  have same: "sd_audit (db\<lparr>sd_records := rs\<rparr>) = sd_audit db" "sd_seal (db\<lparr>sd_records := rs\<rparr>) = sd_seal db"
    by simp_all
  have "verify_audit_chain_integrity secret fault (db\<lparr>sd_records := rs\<rparr>) None True =
      verify_audit_chain_integrity secret fault db None True"
    unfolding verify_audit_chain_integrity_def same ..
  then show ?thesis by (simp add: response_gate_def)
qed

text \<open>The request goes out before anything is written: when the insert fails, a response has been executed
  live of which the outbox has no trace, and the lookup of its key answers as before.\<close>

theorem unrecorded_dispatch:
  assumes "gate_open ledger_secret (ne_verify_fault env) db r" "ne_fault env \<noteq> No_fault"
    and "ne_status env = Answered 200"
  shows "trigger_soar_playbook frepr url secret ledger_secret env db (Some o') r call =
    (Some (n8n_request frepr url secret env call r), Some o', Inl Outbox_error)"
  unfolding trigger_soar_playbook_def response_gate_iff [THEN iffD2, OF assms(1)]
  using assms(2,3) by (simp add: Let_def insert_execution_def)

text \<open>An answer of MISP that is JSON but not of the expected shape, such as an empty list, ends in an
  exception outside the listed classes, and nothing is recorded.\<close>

theorem malformed_answer_escapes:
  assumes "me_answer env = Answered (JArr [])"
    and "\<not> (address_attempt (py_strip indicator) ty \<and> \<not> external_lookup_allowed indicator)"
  shows "snd (query_indicator frepr cfg env ob indicator ty) = (ob, Inl Unexpected_exception)"
  using assms by (auto simp: query_indicator_def Let_def read_attributes_def json_get_def)

text \<open>Without the server there is no match: the verified snapshot of the module is never consulted, and its
  two addresses are in any case refused by the guard.\<close>

theorem offline_never_matches:
  assumes "me_answer env = Failed name message"
    and "snd (query_indicator frepr cfg env ob indicator ty) = (ob', Inr res)"
  shows "\<not> mi_matched res \<and>
    \<not> external_lookup_allowed ''198.51.100.27'' \<and> \<not> external_lookup_allowed ''203.0.113.195''"
proof (intro conjI)
  show "\<not> mi_matched res"
    using assms by (auto simp: query_indicator_def record_query_def Let_def split: if_splits prod.splits sum.splits)
next
  have "octets 198 51 100 27" "py_strip ''198.51.100.27'' = dotted 198 51 100 27" by (simp add: octets_def, code_simp)
  from allowed_dotted [OF this] show "\<not> external_lookup_allowed ''198.51.100.27''" by (simp add: public_octets_def)
  have "octets 203 0 113 195" "py_strip ''203.0.113.195'' = dotted 203 0 113 195" by (simp add: octets_def, code_simp)
  from allowed_dotted [OF this] show "\<not> external_lookup_allowed ''203.0.113.195''" by (simp add: public_octets_def)
qed

section \<open>Witnesses\<close>

text \<open>The loopback address as one decimal number, declared as a file hash.\<close>

theorem outgoing_addresses_public_witness:
  "\<forall>cfg env ob. fst (query_indicator no_float cfg env ob '' 2130706433'' ''sha256'') = None"
proof (intro allI)
  fix cfg env ob
  have s: "py_strip '' 2130706433'' = ''2130706433''" "ipv6_of_string ''2130706433'' = None"
    "spells_address ''2130706433''" by code_simp+
  then have n: "\<not> site_local_text '' 2130706433''" by (simp add: site_local_text_def)
  have "dotted a b c d \<noteq> ''2130706433''" for a b c d using dotted_dot [of a b c d] by auto
  then have "\<not> public_address_text '' 2130706433''" using s by (auto simp: public_address_text_def dest: sym)
  with outgoing_addresses_public [OF n, of "''sha256''"] s
  show "fst (query_indicator no_float cfg env ob '' 2130706433'' ''sha256'') = None" by simp
qed

definition sample_n8n_env :: n8n_env where
  "sample_n8n_env = \<lparr>ne_hex = ''0123456789abcdef'', ne_now = Datetime 2026 1 1 0 0 1 0,
     ne_verify_fault = No_fault, ne_status = Answered 200, ne_fault = No_fault\<rparr>"

definition sample_n8n_call :: n8n_call where
  "sample_n8n_call = \<lparr>nc_rf_confidence_pct = Fin 97, nc_queue_priority_rank = 1, nc_incident_id = None,
     nc_thehive_case_id = None, nc_mitre_technique_id = ''T1046''\<rparr>"

abbreviation approved_ledger :: soar_db where
  "approved_ledger \<equiv> soar_run iso_utc ''k'' [recommended_now, approved_now]"

lemma approved_ledger_verifies:
  "\<exists>m. verify_audit_chain_integrity ''k'' No_fault approved_ledger None True = Inr (True, m)"
proof (rule run_ledger_verifies)
  have "sd_audit approved_ledger \<noteq> []" using sample_decided(2) by force
  then show "None \<in> Some ` set (map se_playbook_id (sd_audit approved_ledger)) \<or>
      None = (None :: string option) \<and> sd_audit approved_ledger \<noteq> []" by simp
qed simp

lemma sample_approved_state: "sp_state sample_approved = ''approved''" "sp_playbook_id sample_approved = ''soar:a''"
  by (simp_all add: sample_approved_def)

lemma sample_gate: "gate_open ''k'' (ne_verify_fault sample_n8n_env) approved_ledger sample_approved"
  using approved_ledger_verifies by (simp add: gate_open_def sample_approved_state sample_n8n_env_def)

theorem response_needs_approval_witness:
  "list_ex (approves ''soar:a'') [recommended_now, approved_now] \<and>
   map_of (rq_headers (n8n_request no_float ''u'' ''sixteen letters!'' sample_n8n_env sample_n8n_call sample_approved))
     ''X-Idempotency-Key'' = Some (idempotency_key sample_approved)"
proof -
  have sent: "fst (trigger_soar_playbook no_float ''u'' ''sixteen letters!'' ''k'' sample_n8n_env approved_ledger None
      sample_approved sample_n8n_call) =
      Some (n8n_request no_float ''u'' ''sixteen letters!'' sample_n8n_env sample_n8n_call sample_approved)"
    by (simp only: n8n_sent sample_gate if_True)
  have "sample_approved \<in> set (sd_records approved_ledger)" unfolding sample_decided by simp
  from response_needs_approval [OF this disjI1 [OF sent]] sent show ?thesis
    by (simp only: sample_approved_state)
qed

theorem dispatch_found_witness:
  "\<exists>o'' rec. trigger_soar_playbook no_float ''u'' ''sixteen letters!'' ''k'' sample_n8n_env approved_ledger (Some new_outbox)
      sample_approved sample_n8n_call =
      (Some (n8n_request no_float ''u'' ''sixteen letters!'' sample_n8n_env sample_n8n_call sample_approved), Some o'', Inr rec) \<and>
    nr_status rec = ''dispatched_live'' \<and>
    lookup_durable_dispatch No_fault (Some o'') (idempotency_key sample_approved) =
      JObj [(''evidence_state'', JStr ''verified''), (''status'', JStr ''dispatched_live''),
        (''execution_id'', JStr (execution_id sample_n8n_env)), (''playbook_id'', JStr ''soar:a''),
        (''idempotency_key'', JStr (idempotency_key sample_approved)), (''retry_requires_new_approval'', JBool False)]"
proof -
  obtain m where m: "verify_audit_chain_integrity ''k'' (ne_verify_fault sample_n8n_env) approved_ledger None True = Inr (True, m)"
    using approved_ledger_verifies by (auto simp: sample_n8n_env_def)
  have st: "ne_status sample_n8n_env = Answered 200" by (simp add: sample_n8n_env_def)
  from dispatch_found [where r = sample_approved and o' = new_outbox and frepr = no_float and url = "''u''"
      and secret = "''sixteen letters!''" and call = sample_n8n_call, OF _ m]
  show ?thesis
    using sample_approved_state st by (fastforce simp: sample_n8n_env_def new_outbox_def)
qed

end
