(* ===== verification/Spec2Isabelle.thy ===== *)
theory Spec2Isabelle
  imports Gates ReplayJournal_Facts SecurityAudit AlertStore_Facts SoarEngine_Facts IncidentStore_Facts Orchestrator_Facts
    AnalystState_Facts FeedbackLedger_Facts Connection_Facts MultiSignalRisk_Facts Pipeline AuditRetention_Facts
    SoarStack_Facts
begin

text \<open>
  \<^bold>\<open>ThreatFusion: the verified core.\<close>

  ThreatFusion is a local security operations console.  A registered sensor (the producer) sends
  batches of network flows over mutual TLS; the service admits, gates and journals each request,
  scores the flows with a frozen classifier, stores one alert candidate per attack, correlates the
  candidates into incidents and drives an approval-gated response workflow.  Analysts triage the
  alerts; their verdicts are kept for offline retraining.  File names below are relative to \<^verbatim>\<open>src/backend/src/threatfusion/\<close>.

  \<^bold>\<open>Parts, theories and sources.\<close>

  \<^item> \<^emph>\<open>Foundations.\<close>  \<^verbatim>\<open>Prelude\<close>: errors as sums (\<^const>\<open>bindE\<close>), Python strings, SQLite
    tables as lists of rows (\<^const>\<open>fetchone\<close>, \<^const>\<open>select_where\<close>), and the locale
    \<^verbatim>\<open>monotone_machine\<close> of machines that keep an invariant and only extend their state.
    \<^verbatim>\<open>Floats\<close>: Python floats as exact rationals with the three special values, every operation rounded
    to the nearest 53-bit float with ties to even (\<^const>\<open>nearest53\<close>, \<^const>\<open>fl_add\<close>, \<^const>\<open>fl_div\<close>), and \<^verbatim>\<open>round\<close>.
    \<^verbatim>\<open>Datetime\<close>: aware UTC times, \<^verbatim>\<open>isoformat\<close>, \<^verbatim>\<open>fromisoformat\<close> and their order.  \<^verbatim>\<open>Digest\<close>:
    SHA-256 and HMAC-SHA-256 computed on 32-bit words, UTF-8, and the length-prefixed identity
    digests.  \<^verbatim>\<open>Json\<close>, \<^verbatim>\<open>Json_Facts\<close>: the scanner and the printers of Python's \<^verbatim>\<open>json\<close>, with the round
    trip and the self-delimitation of string literals.
  \<^item> \<^emph>\<open>Transport\<close> (\<^verbatim>\<open>api/producer_tls_transport.py\<close>).  \<^verbatim>\<open>Transport\<close>: the request head parser
    (\<^const>\<open>parse_request_head\<close>), the connection as a state with its stage, its one capability and its time
    limits, and \<^const>\<open>accept_authenticated\<close>; its operations are functions of the connection that may end
    with an error.  \<^verbatim>\<open>Transport_Facts\<close>: the parser decides a grammar given on lists of fields;
    \<^verbatim>\<open>Connection_Facts\<close>: capabilities of one use, one exchange per connection, bounded reading, the
    service of a slow peer that keeps the grammar and the time limits, and what an accepted session guarantees.
  \<^item> \<^emph>\<open>Producer boundary\<close> (\<^verbatim>\<open>api/producer_admission.py\<close>).  \<^verbatim>\<open>Admission\<close>: registry, authentication,
    bounded body reader, depth scanner, envelope decoder and \<^const>\<open>admit_producer_request\<close>;
    \<^verbatim>\<open>Response\<close>: record dispositions, response contract, serializer and decoder.
    \<^verbatim>\<open>Admission_Facts\<close> shows what an admitted record guarantees, exactly when a request is admitted, and what a refusal reveals;
    \<^verbatim>\<open>Response_Facts\<close> the round trip of the codec and the byte ceiling.
  \<^item> \<^emph>\<open>Execution gates\<close> (\<^verbatim>\<open>api/producer_execution_gates.py\<close>).  \<^verbatim>\<open>Gates\<close>: the integer token bucket,
    the single execution slot and its leases; exclusiveness, single release and the rate bound.
  \<^item> \<^emph>\<open>Replay journal\<close> (\<^verbatim>\<open>db/producer_replay_journal.py\<close>).  \<^verbatim>\<open>ReplayJournal\<close>: the table with its
    constraints, \<^const>\<open>claim\<close>, \<^const>\<open>complete\<close> and \<^const>\<open>recover_abandoned_generation\<close> as transactions;
    \<^verbatim>\<open>ReplayJournal_Facts\<close>: at most one grant per request and nonce, ownership, finality, replay.
  \<^item> \<^emph>\<open>Producer security audit\<close> (\<^verbatim>\<open>db/producer_security_audit.py\<close>).  \<^verbatim>\<open>SecurityAudit\<close>: taxonomy,
    event contract, bounded append and listing, as a refinement of a bounded log.
  \<^item> \<^emph>\<open>Alert candidates\<close> (\<^verbatim>\<open>schemas/alert_candidate.py\<close>, \<^verbatim>\<open>db/alert_repository.py\<close>,
    \<^verbatim>\<open>alerts/network_alerts.py\<close>).  \<^verbatim>\<open>AlertStore\<close>, \<^verbatim>\<open>AlertStore_Facts\<close>: identities, the
    first-write-wins repository, paging and the attack-only workflow.
  \<^item> \<^emph>\<open>Orchestrator\<close> (\<^verbatim>\<open>api/producer_orchestrator.py\<close>).  \<^verbatim>\<open>Orchestrator\<close>: \<^const>\<open>process_one\<close> and what it calls, as
    operations on a world that holds the state of gates, journal, audit and alerts, which may end with
    an error code; \<^verbatim>\<open>Orchestrator_Facts\<close>: frames of the operations, the service as a machine that keeps
    the invariants of its components, no alert without a claim and an audit event, and no claim
    without its settled answer or a poisoned service.
  \<^item> \<^emph>\<open>Inference worker\<close> (\<^verbatim>\<open>api/producer_inference_worker.py\<close>).  \<^verbatim>\<open>Worker\<close>: what the child sends
    (\<^const>\<open>child_messages\<close>), its strict decoding, the protocol of the parent (\<^const>\<open>worker_loop\<close>) with its
    deadlines, the signals that stop the child, and \<^const>\<open>execute\<close>; \<^verbatim>\<open>Worker_Facts\<close>: every execution ends,
    why it ends as it does, and a child that is not seen gone has been killed; \<^verbatim>\<open>Worker_Protocol\<close>, \<^verbatim>\<open>Worker_Run\<close>: the two ends understand each
    other, and what an accepted batch guarantees.  \<^verbatim>\<open>Pipeline\<close>: the orchestrator with the worker as its
    inference, from the records of a request to the alerts in the store.
  \<^item> \<^emph>\<open>Correlation\<close> (\<^verbatim>\<open>alerts/correlation_engine.py\<close>).  \<^verbatim>\<open>Provenance\<close>: the entity descriptor and its
    fail-closed verification; \<^verbatim>\<open>Correlation\<close>, \<^verbatim>\<open>Correlation_Facts\<close>: deduplication, clustering in two
    windows, the retention check and the reduction metrics; \<^verbatim>\<open>IncidentStore\<close>,
    \<^verbatim>\<open>IncidentStore_Facts\<close>: the incident tables, corrections and telemetry.
  \<^item> \<^emph>\<open>Response workflow\<close> (\<^verbatim>\<open>soar/playbook_ledger.py\<close>).  \<^verbatim>\<open>SoarLedger\<close>, \<^verbatim>\<open>SoarLedger_Facts\<close>: secret
    resolution with the sidecar key file, the record table, the keyed audit chain with its sealed
    head and its verification; \<^verbatim>\<open>SoarEngine\<close>, \<^verbatim>\<open>SoarEngine_Facts\<close>: recommend, decide, execute, roll
    back and callback as a state machine over both tables, one command at a time; what two overlapping
    decisions do is modelled apart (\<^const>\<open>decide_save\<close>).
  \<^item> \<^emph>\<open>Address guard and threat intelligence\<close> (\<^verbatim>\<open>correlation/misp_client.py\<close>,
    \<^verbatim>\<open>enrichment/threat_intel.py\<close>).  \<^verbatim>\<open>AddressGuard\<close>: the address parsers and network lists of Python's
    \<^verbatim>\<open>ipaddress\<close>, the guard \<^const>\<open>external_lookup_allowed\<close> and the private-address test;
    \<^verbatim>\<open>AddressGuard_Facts\<close>: which texts pass, octet by octet and hextet by hextet, the site-local block, which
    passes against the documentation, kept apart; \<^verbatim>\<open>ThreatIntel\<close>: the
    enrichment of a verified descriptor from a feed.
  \<^item> \<^emph>\<open>External clients\<close> (\<^verbatim>\<open>soar/n8n_thehive_misp_stack.py\<close>).  \<^verbatim>\<open>SoarStack\<close>: the MISP query, the approval
    gate, the signed n8n trigger, the TheHive case and the outbox; \<^verbatim>\<open>SoarStack_Facts\<close>: only public
    addresses are looked up, however they are spelled, only approved responses are sent (through the locale \<^verbatim>\<open>gated_client\<close>,
    interpreted for both clients), and a dispatch can be looked up.
  \<^item> \<^emph>\<open>Analyst workflow\<close> (\<^verbatim>\<open>schemas/analyst_state.py\<close>, \<^verbatim>\<open>db/analyst_state_repository.py\<close>).
    \<^verbatim>\<open>AnalystState\<close>: the registry with its keyed capabilities, snapshots and transitions, and the
    repository; \<^verbatim>\<open>AnalystState_Facts\<close>: the two tables as a refinement of one log of transitions, no
    change without an analyst's capability, and that an analyst can always take the next step.
  \<^item> \<^emph>\<open>Analyst audit\<close> (\<^verbatim>\<open>db/analyst_security_audit.py\<close>, \<^verbatim>\<open>operations/audit_retention.py\<close>).
    \<^verbatim>\<open>AnalystAudit\<close>: taxonomy, event contract, bounded append and listing, with the contract of an append
    (locale \<^verbatim>\<open>bounded_append\<close>) that both audits keep; \<^verbatim>\<open>AuditRetention\<close>: export, verification and
    pruning of archives; \<^verbatim>\<open>AuditRetention_Facts\<close>: pruning deletes the archived prefix only, and an export
    verifies and can be pruned.
  \<^item> \<^emph>\<open>Retraining feedback\<close> (\<^verbatim>\<open>db/retraining_feedback_ledger.py\<close>).  \<^verbatim>\<open>FeedbackLedger\<close>: the check of the
    frozen artifacts, the table of verdicts and its operations; \<^verbatim>\<open>FeedbackLedger_Facts\<close>: what every row
    carries, the permanence of the first verdict, and what the second check of the artifacts can do.
  \<^item> \<^emph>\<open>Risk\<close> (\<^verbatim>\<open>models/multi_signal_risk.py\<close>).  \<^verbatim>\<open>MultiSignalRisk\<close>: signal observations, weights,
    \<^const>\<open>compute_dynamic_risk_score\<close> and the experimental composite, in float arithmetic;
    \<^verbatim>\<open>MultiSignalRisk_Facts\<close>: bounds, monotonicity and exactness of the score in spite of the rounding.

  \<^bold>\<open>How the model corresponds to the code.\<close>  A class with state is a record that each operation
  returns updated; a SQLite table is the list of its rows in insertion order, and a statement is the
  function that the engine computes on it, with its key, NOT NULL and CHECK constraints.  A
  transaction commits its whole effect or none: each operation takes the fault the engine raises, and
  every theorem about a run quantifies over all faults.  Raised exceptions are left injections that
  carry the sanitized code or the message.  Clock readings, random identifiers and tokens, and the
  outcomes of calls outside the program (the classifier, the byte source of a body, the file system
  at the sidecar path) are arguments.

  \<^bold>\<open>Choices that bound the claims.\<close>  Strings are lists of code points below 256; floats are
  rationals with the three special values, each operation rounded to binary64 (the two zeros are one),
  and the conversions
  between floats and text (\<^verbatim>\<open>repr\<close>, \<^verbatim>\<open>float(text)\<close>) are parameters with the round trip as a hypothesis
  where it is needed.  The general ISO 8601 parser that \<^verbatim>\<open>correlation_engine.py\<close> calls is a parameter as
  well; the parser of the journal and the repositories is the fixed-width one of \<^verbatim>\<open>Datetime\<close>.  The JSON
  scanner recurses on fuel; \<^verbatim>\<open>json_loads\<close> passes twice the length of the text plus one, one unit for
  each value and each member, and the round-trip theorems show that it is enough for printed values.
  The body readers recurse on the number of bytes still wanted, which every non-empty read reduces; the
  loop that reads a request head terminates because each byte comes closer to the header limit; the
  loop of the worker because each message accepted leaves fewer to come.  The limits of the Python
  interpreter itself (recursion depth) are not modelled.

  \<^bold>\<open>Interfaces.\<close>  The locale \<^verbatim>\<open>monotone_machine\<close> of \<^verbatim>\<open>Prelude\<close> is interpreted on the steps of the gates,
  the journal, the audit, the alert store, the response engine, the incident store, the analyst state,
  the feedback ledger, a connection and the whole service; the invariant properties of these components are its run facts at those interpretations.
  The locales \<^verbatim>\<open>answer_frame\<close>, \<^verbatim>\<open>completion_frame\<close>, \<^verbatim>\<open>candidate_frame\<close>, \<^verbatim>\<open>processing_frame\<close>, \<^verbatim>\<open>lease_frame\<close>,
  \<^verbatim>\<open>service_frame\<close> and \<^verbatim>\<open>connection_frame\<close> of \<^verbatim>\<open>Orchestrator_Facts\<close> say which relation between worlds an
  operation respects, given that its elementary effects do; they are interpreted once for each part
  of the world and for the invariants of the stores.

  \<^bold>\<open>Not modelled.\<close>  Creation, migration, permission bits and integrity probes of the database files
  (file-system effects); the TLS context, the life cycle of the listening socket, and what a process,
  its pipe and its group do: their outcomes are arguments; training and evaluation of the classifiers (numeric code of third-party libraries), with
  the detector ablation of \<^verbatim>\<open>models/multi_signal_risk.py\<close>; the consoles, which render HTML; the advisory engine with the default investigation anatomy it builds
  for TheHive (text generation over third-party services); data-set preparation, operations tooling
  and scripts.  Of the orchestrator, the constructor's type checks, the
  listener life cycle and the inline inference used by tests.  A commit that succeeds but reports an
  error is not among the faults.  Next in the plan: the triage ranking of
  \<^verbatim>\<open>models/multi_signal_risk.py\<close>, the operational timing
  report of \<^verbatim>\<open>correlation/incident_correlation.py\<close>, and the sessions of \<^verbatim>\<open>Transport\<close> as the
  connections of \<^verbatim>\<open>Orchestrator\<close>.
\<close>

end
